(* ===== verification/Prelude.thy ===== *)
theory Prelude
  imports Complex_Main "HOL-Library.Word"
begin

text \<open>
  The shared base of the development: Go's error values, the result type, the collections
  of lemmas the component theories feed and use, and generic lemmas on lists and maps.
  An operation of the source that returns \<open>(T, error)\<close> returns \<open>go_error + 'a\<close>
  here; a Go panic (a failed type assertion, a closed channel) is the error \<open>GoPanic\<close>.
\<close>

section \<open>Errors and results\<close>

text \<open>
  The sentinel errors of \<^verbatim>\<open>utils/errors.go\<close>, compared with \<^verbatim>\<open>errors.Is\<close>.
\<close>

datatype seckill_sentinel =
    ErrStockInsufficient
  | ErrRedisDown
  | ErrMQDown
  | ErrProductOffline
  | ErrNotInSeckillTime
  | ErrAlreadyPurchased
  | ErrExceedLimit
  | ErrDuplicateSubmit
  | ErrSeckillOverloaded

text \<open>
  Go error values. \<open>Errf\<close> is \<^verbatim>\<open>fmt.Errorf\<close> of a literal (the tag stands for the
  message, in English), \<open>Wrapf\<close> is \<^verbatim>\<open>fmt.Errorf("...: %w", err)\<close>,
  \<open>SeckillError\<close> the struct of \<^verbatim>\<open>utils/errors.go\<close> with the wrapped sentinel, the
  numbers its message is built from and the HTTP code.
\<close>

datatype go_error =
    GoPanic
  | RedisNil
  | RedisNetErr
  | RedisCmdErr
  | DbErr
  | RecordNotFound
  | DuplicateKey
  | MqErr
  | JsonErr
  | Errf string
  | Wrapf string go_error
  | SeckillError seckill_sentinel "int list" int

type_synonym 'a result = "go_error + 'a"

text \<open>\<^verbatim>\<open>errors.Is(err, target)\<close>: follow the chain of wrapped errors.\<close>

fun errors_is :: "go_error \<Rightarrow> seckill_sentinel \<Rightarrow> bool" where
  "errors_is (SeckillError e _ _) target = (e = target)"
| "errors_is (Wrapf _ err) target = errors_is err target"
| "errors_is _ target = False"

definition NewSeckillError :: "seckill_sentinel \<Rightarrow> int list \<Rightarrow> int \<Rightarrow> go_error" where
  "NewSeckillError err message httpCode = SeckillError err message httpCode"

lemma errors_is_New [simp]: "errors_is (NewSeckillError e m c) t = (e = t)"
  by (simp add: NewSeckillError_def)

section \<open>Lemma collections\<close>

named_theorems key_simps "distinctness and injectivity of Redis keys"
named_theorems redis_simps "effect of the Redis commands on the key space"
named_theorems db_simps "effect of the SQL statements on the tables"
named_theorems world_simps "frame facts of the world record"

section \<open>Generic lemmas\<close>

lemma result_cases:
  fixes r :: "'a result"
  obtains (Err) e where "r = Inl e" | (Ok) v where "r = Inr v"
  by (cases r) auto

lemma find_index_update:
  "i < length xs \<Longrightarrow> xs[i := f (xs ! i)] = take i xs @ f (xs ! i) # drop (Suc i) xs"
  by (rule upd_conv_take_nth_drop)

lemma sum_list_map_filter_cong:
  "(\<And>x. x \<in> set xs \<Longrightarrow> P x \<Longrightarrow> f x = g x) \<Longrightarrow>
    sum_list (map f (filter P xs)) = sum_list (map g (filter P xs))"
  by (rule arg_cong [of _ _ sum_list]) auto

section \<open>Go integers\<close>

text \<open>
  Go's \<^verbatim>\<open>int\<close> and \<^verbatim>\<open>int64\<close> are 64 bits wide. Quantities, stocks and identifiers are
  modelled as \<open>int\<close>; \<open>in_int64\<close> says that a value is one the type can hold.
  Bit-level code (the Snowflake generator, the FNV hash) uses \<open>64 word\<close>.
\<close>

definition in_int64 :: "int \<Rightarrow> bool" where
  "in_int64 i \<longleftrightarrow> - 9223372036854775808 \<le> i \<and> i \<le> 9223372036854775807"

text \<open>Go's \<^verbatim>\<open>%\<close> truncates: the result has the sign of the dividend.\<close>

definition go_rem :: "int \<Rightarrow> int \<Rightarrow> int" where
  "go_rem a b = sgn a * (\<bar>a\<bar> mod \<bar>b\<bar>)"

lemma go_rem_nonneg: "0 \<le> a \<Longrightarrow> 0 < b \<Longrightarrow> go_rem a b = a mod b"
  by (cases "a = 0") (simp_all add: go_rem_def)

lemma go_rem_bound: "0 < b \<Longrightarrow> \<bar>go_rem a b\<bar> < b"
  by (cases "a = 0") (simp_all add: go_rem_def abs_mult abs_sgn_eq)

end
