(* ===== verification/GoFmt.thy ===== *)
theory GoFmt
  imports Prelude
begin

text \<open>
  The parts of \<^verbatim>\<open>fmt\<close> and \<^verbatim>\<open>strconv\<close> the program builds its Redis keys, table names and
  order numbers with: \<open>fmt_d\<close> is the verb \<^verbatim>\<open>%d\<close>, \<open>Atoi\<close> is \<^verbatim>\<open>strconv.Atoi\<close> and
  \<^verbatim>\<open>strconv.ParseInt(s, 10, 64)\<close>. They are inverse to each other, from which the keys of
  different users and products are different strings.
\<close>

section \<open>Formatting\<close>

definition digit :: "nat \<Rightarrow> char" where
  "digit n = char_of (48 + n)"

fun fmt_nat :: "nat \<Rightarrow> string" where
  "fmt_nat n = (if n < 10 then [digit n] else fmt_nat (n div 10) @ [digit (n mod 10)])"

declare fmt_nat.simps [simp del]

definition fmt_d :: "int \<Rightarrow> string" where
  "fmt_d i = (if i < 0 then CHR ''-'' # fmt_nat (nat (- i)) else fmt_nat (nat i))"

section \<open>Parsing\<close>

definition is_digit :: "char \<Rightarrow> bool" where
  "is_digit c \<longleftrightarrow> 48 \<le> (of_char c :: nat) \<and> (of_char c :: nat) \<le> 57"

definition digit_val :: "char \<Rightarrow> nat" where
  "digit_val c = of_char c - 48"

definition digits_val :: "string \<Rightarrow> nat" where
  "digits_val s = foldl (\<lambda>acc c. 10 * acc + digit_val c) 0 s"

definition parse_digits :: "string \<Rightarrow> nat option" where
  "parse_digits s = (if s \<noteq> [] \<and> list_all is_digit s then Some (digits_val s) else None)"

text \<open>An optional sign, then at least one digit, and nothing else.\<close>

definition parse_int :: "string \<Rightarrow> int option" where
  "parse_int s = (case s of
      [] \<Rightarrow> None
    | c # cs \<Rightarrow>
        if c = CHR ''-'' then map_option (\<lambda>n. - int n) (parse_digits cs)
        else if c = CHR ''+'' then map_option int (parse_digits cs)
        else map_option int (parse_digits s))"

definition Atoi :: "string \<Rightarrow> int option" where
  "Atoi s = (case parse_int s of
      None \<Rightarrow> None
    | Some i \<Rightarrow> if in_int64 i then Some i else None)"

text \<open>
  \<^verbatim>\<open>fmt.Sscanf(s, "%d", &i)\<close>: blanks but no newline, an optional sign and the longest run of
  digits; what follows is left unread.
\<close>

definition is_blank :: "char \<Rightarrow> bool" where
  "is_blank c \<longleftrightarrow> c = CHR '' '' \<or> c = CHR 0x09 \<or> c = CHR 0x0B \<or> c = CHR 0x0C \<or> c = CHR 0x0D"

definition Sscanf_d :: "string \<Rightarrow> int option" where
  "Sscanf_d s = (case dropWhile is_blank s of
      [] \<Rightarrow> None
    | c # cs \<Rightarrow>
        if c = CHR ''-'' then map_option (\<lambda>n. - int n) (parse_digits (takeWhile is_digit cs))
        else if c = CHR ''+'' then map_option int (parse_digits (takeWhile is_digit cs))
        else map_option int (parse_digits (takeWhile is_digit (c # cs))))"

text \<open>
  \<^verbatim>\<open>%.2f\<close> of a price (rounded to cents) and \<^verbatim>\<open>Sscanf(s, "%f")\<close> on such a text. Go's
  \<^verbatim>\<open>float64\<close> amounts are modelled as exact rationals throughout; binary rounding is not.
\<close>

definition cents :: "rat \<Rightarrow> int" where
  "cents p = round (100 * p)"

definition fmt_2f :: "rat \<Rightarrow> string" where
  "fmt_2f p = (let c = cents p; n = nat \<bar>c\<bar> in
     (if c < 0 then ''-'' else []) @ fmt_nat (n div 100) @
       [CHR ''.'', digit (n mod 100 div 10), digit (n mod 10)])"

definition Sscanf_f :: "string \<Rightarrow> rat option" where
  "Sscanf_f s = (let neg = (s \<noteq> [] \<and> hd s = CHR ''-''); body = (if neg then tl s else s);
       ip = takeWhile is_digit body; rest = dropWhile is_digit body;
       fp = (case rest of [] \<Rightarrow> [] | c # cs \<Rightarrow> if c = CHR ''.'' then takeWhile is_digit cs else [])
     in if ip = [] \<and> fp = [] then None
        else Some ((if neg then - 1 else 1) *
          (of_nat (digits_val ip) + of_nat (digits_val fp) / 10 ^ length fp)))"

section \<open>Round trip\<close>

lemma of_char_digit: "n < 10 \<Longrightarrow> (of_char (digit n) :: nat) = 48 + n"
  by (simp add: digit_def)

lemma is_digit_digit [simp]: "n < 10 \<Longrightarrow> is_digit (digit n)"
  by (simp add: is_digit_def of_char_digit)

lemma digit_val_digit [simp]: "n < 10 \<Longrightarrow> digit_val (digit n) = n"
  by (simp add: digit_val_def of_char_digit)

lemma fmt_nat_not_Nil [simp]: "fmt_nat n \<noteq> []"
  by (subst fmt_nat.simps) simp

lemma fmt_nat_digits: "list_all is_digit (fmt_nat n)"
proof (induction n rule: fmt_nat.induct)
  case (1 n)
  then show ?case by (cases "n < 10") (simp_all add: fmt_nat.simps [of n])
qed

lemma digits_val_snoc: "digits_val (s @ [c]) = 10 * digits_val s + digit_val c"
  by (simp add: digits_val_def)

lemma digits_val_fmt_nat [simp]: "digits_val (fmt_nat n) = n"
proof (induction n rule: fmt_nat.induct)
  case (1 n)
  show ?case
  proof (cases "n < 10")
    case True
    then show ?thesis by (simp add: fmt_nat.simps [of n] digits_val_def)
  next
    case False
    with "1" have "digits_val (fmt_nat (n div 10)) = n div 10" by simp
    with False show ?thesis by (simp add: fmt_nat.simps [of n] digits_val_snoc)
  qed
qed

lemma parse_digits_fmt_nat [simp]: "parse_digits (fmt_nat n) = Some n"
  by (simp add: parse_digits_def fmt_nat_digits)

lemma is_digit_not_special: "is_digit c \<Longrightarrow> c \<noteq> CHR ''-'' \<and> c \<noteq> CHR ''+'' \<and> c \<noteq> CHR '':''"
  by (auto simp: is_digit_def)

lemma parse_int_fmt_d [simp]: "parse_int (fmt_d i) = Some i"
proof (cases "i < 0")
  case True
  then show ?thesis by (simp add: fmt_d_def parse_int_def)
next
  case False
  obtain c cs where c: "fmt_nat (nat i) = c # cs" by (cases "fmt_nat (nat i)") auto
  with fmt_nat_digits [of "nat i"] have "is_digit c" by simp
  then have "c \<noteq> CHR ''-''" "c \<noteq> CHR ''+''" by (auto dest: is_digit_not_special)
  then have "parse_int (c # cs) = map_option int (parse_digits (c # cs))"
    by (simp add: parse_int_def)
  then have "parse_int (fmt_nat (nat i)) = map_option int (parse_digits (fmt_nat (nat i)))"
    by (simp only: c)
  with False show ?thesis by (simp add: fmt_d_def)
qed

lemma Atoi_fmt_d [simp]: "in_int64 i \<Longrightarrow> Atoi (fmt_d i) = Some i"
  by (simp add: Atoi_def)

lemma fmt_d_inject [simp]: "fmt_d i = fmt_d j \<longleftrightarrow> i = j"
proof
  assume "fmt_d i = fmt_d j"
  then have "parse_int (fmt_d i) = parse_int (fmt_d j)" by simp
  then show "i = j" by simp
qed simp

lemma fmt_d_not_Nil [simp]: "fmt_d i \<noteq> []"
  by (simp add: fmt_d_def)

lemma colon_notin_fmt_d [simp]: "CHR '':'' \<notin> set (fmt_d i)"
proof -
  have "CHR '':'' \<notin> set (fmt_nat n)" for n
    using fmt_nat_digits [of n] by (auto simp: list_all_iff is_digit_def)
  then show ?thesis by (simp add: fmt_d_def)
qed

lemma fmt_nat_run [simp]:
  "takeWhile is_digit (fmt_nat n) = fmt_nat n"
  "takeWhile is_digit (fmt_nat n @ CHR ''.'' # cs) = fmt_nat n"
  "dropWhile is_digit (fmt_nat n @ CHR ''.'' # cs) = CHR ''.'' # cs"
  using fmt_nat_digits [of n]
  by (auto simp: list_all_iff takeWhile_append2 dropWhile_append2 is_digit_def)

lemma fmt_nat_Cons:
  obtains c cs where "fmt_nat n = c # cs" "is_digit c" "c \<noteq> CHR ''-''" "c \<noteq> CHR ''+''"
proof (cases "fmt_nat n")
  case (Cons c cs)
  with fmt_nat_digits [of n] have "is_digit c" by simp
  with Cons that show thesis by (auto dest: is_digit_not_special)
qed simp

lemma Sscanf_d_fmt_d [simp]: "Sscanf_d (fmt_d i) = Some i"
proof (cases "i < 0")
  case True
  then show ?thesis by (simp add: fmt_d_def Sscanf_d_def is_blank_def)
next
  case False
  obtain c cs where c: "fmt_nat (nat i) = c # cs" "is_digit c" "c \<noteq> CHR ''-''" "c \<noteq> CHR ''+''"
    by (rule fmt_nat_Cons)
  then have "dropWhile is_blank (c # cs) = c # cs" by (auto simp: is_blank_def is_digit_def)
  with c have "Sscanf_d (fmt_nat (nat i))
      = map_option int (parse_digits (takeWhile is_digit (fmt_nat (nat i))))"
    by (simp only: Sscanf_d_def list.case if_False)
  with False show ?thesis by (simp add: fmt_d_def)
qed

lemma digits_val_two: "a < 10 \<Longrightarrow> b < 10 \<Longrightarrow> digits_val [digit a, digit b] = 10 * a + b"
  by (simp add: digits_val_def)

lemma Sscanf_f_unsigned:
  "s \<noteq> [] \<Longrightarrow> hd s \<noteq> CHR ''-'' \<Longrightarrow> s = fmt_nat n @ [CHR ''.'', digit a, digit b] \<Longrightarrow>
    a < 10 \<Longrightarrow> b < 10 \<Longrightarrow> Sscanf_f s = Some (of_nat n + of_nat (10 * a + b) / 100)"
  by (simp add: Sscanf_f_def Let_def digits_val_two)

lemma Sscanf_f_signed:
  "a < 10 \<Longrightarrow> b < 10 \<Longrightarrow> Sscanf_f (CHR ''-'' # fmt_nat n @ [CHR ''.'', digit a, digit b])
    = Some (- (of_nat n + of_nat (10 * a + b) / 100))"
  by (simp add: Sscanf_f_def Let_def digits_val_two)

lemma hd_fmt_nat: "hd (fmt_nat n @ xs) \<noteq> CHR ''-''"
  by (rule fmt_nat_Cons [of n]) simp

lemma split_cents:
  fixes n :: nat
  shows "(of_nat (n div 100) + of_nat (10 * (n mod 100 div 10) + n mod 10) / 100 :: rat)
    = of_nat n / 100"
proof -
  have "n mod 10 = n mod 100 mod 10" by (simp add: mod_mod_cancel)
  then have "10 * (n mod 100 div 10) + n mod 10 = n mod 100" by presburger
  then have "(of_nat (n div 100) + of_nat (10 * (n mod 100 div 10) + n mod 10) / 100 :: rat)
      = of_nat (100 * (n div 100) + n mod 100) / 100"
    by (simp only: of_nat_add of_nat_mult) (simp add: add_divide_distrib)
  then show ?thesis by simp
qed

lemma Sscanf_f_fmt_2f: "Sscanf_f (fmt_2f p) = Some (of_int (cents p) / 100)"
proof (cases "cents p < 0")
  case True
  let ?n = "nat \<bar>cents p\<bar>"
  have "Sscanf_f (fmt_2f p) = Some (- (of_nat ?n / 100))"
    using True by (simp add: fmt_2f_def Let_def Sscanf_f_signed split_cents del: of_nat_add of_nat_mult)
  with True show ?thesis by simp
next
  case False
  let ?n = "nat \<bar>cents p\<bar>"
  have "fmt_2f p = fmt_nat (?n div 100) @ [CHR ''.'', digit (?n mod 100 div 10), digit (?n mod 10)]"
    using False by (simp add: fmt_2f_def Let_def)
  then have "Sscanf_f (fmt_2f p) =
      Some (of_nat (?n div 100) + of_nat (10 * (?n mod 100 div 10) + ?n mod 10) / 100)"
    by (rule Sscanf_f_unsigned [rotated 2])
      (use False hd_fmt_nat [of _ "[]"] in \<open>simp_all add: fmt_2f_def Let_def\<close>)
  then have "Sscanf_f (fmt_2f p) = Some (of_nat ?n / 100)"
    by (simp only: split_cents)
  with False show ?thesis by simp
qed

text \<open>
  A number and a separator that no number contains: the pieces of a composite key are
  determined by the key.
\<close>

lemma sep_append_inject:
  assumes "c \<notin> set xs" "c \<notin> set ys"
  shows "xs @ c # us = ys @ c # vs \<longleftrightarrow> xs = ys \<and> us = vs"
proof
  assume eq: "xs @ c # us = ys @ c # vs"
  have tw: "takeWhile (\<lambda>x. x \<noteq> c) (zs @ c # ws) = zs" if "c \<notin> set zs" for zs ws
    using that by (induction zs) auto
  have "xs = ys" using arg_cong [OF eq, of "takeWhile (\<lambda>x. x \<noteq> c)"] assms by (simp add: tw)
  with eq show "xs = ys \<and> us = vs" by simp
qed simp

lemma fmt_d_colon_inject [simp]:
  "fmt_d a @ CHR '':'' # us = fmt_d b @ CHR '':'' # vs \<longleftrightarrow> a = b \<and> us = vs"
  by (simp add: sep_append_inject)

end
