(* ===== verification/Redis_Server.thy ===== *)
theory Redis_Server
  imports GoFmt
begin

text \<open>
  The interface to Redis. The server is not part of the repository, so every client
  operation takes it as an argument: a function \<open>'r \<Rightarrow> rcmd \<Rightarrow> 'r \<times> reply\<close> on an
  unknown server state \<open>'r\<close>. The locale \<open>redis_server\<close> states what the code relies on:
  a command either has its documented effect on the key space (\<open>redis_exec\<close>) and its
  documented reply, or the client sees a network error, in which case the command may or
  may not have been executed (a lost request or a lost reply).

  The Lua scripts sent with EVAL are part of the source, so they are translated: a script
  is a function on the key space, run by the server in one atomic step.
\<close>

section \<open>Key space, commands and replies\<close>

type_synonym key = string

datatype rdata = RStr string | RHash "string \<rightharpoonup> string"

record entry =
  e_val :: rdata
  e_exp :: "int option"   \<comment> \<open>absolute expiry time in milliseconds\<close>

record keyspace =
  ks_data :: "key \<rightharpoonup> entry"
  ks_clock :: int         \<comment> \<open>the server's clock in milliseconds\<close>

datatype reply =
    RNil
  | ROk
  | RInt int
  | RBulk string
  | RArr "int list"
  | RVals "string option list"
  | RErr go_error

text \<open>The commands the code issues; lifetimes are in milliseconds.\<close>

datatype rcmd =
    GET key
  | SET key string "int option"
  | SETNX key string "int option"
  | DEL key
  | EXISTS key
  | INCRBY key int
  | EXPIRE key int
  | TTL key
  | HMSET key "(string \<times> string) list"
  | HMGET key "string list"
  | PING
  | EVAL "keyspace \<Rightarrow> keyspace \<times> reply"

type_synonym 'r redis = "'r \<Rightarrow> rcmd \<Rightarrow> 'r \<times> reply"

definition live :: "keyspace \<Rightarrow> key \<Rightarrow> entry option" where
  "live ks k = (case ks_data ks k of
      None \<Rightarrow> None
    | Some e \<Rightarrow> (case e_exp e of
          None \<Rightarrow> Some e
        | Some t \<Rightarrow> if t \<le> ks_clock ks then None else Some e))"

definition put :: "keyspace \<Rightarrow> key \<Rightarrow> rdata \<Rightarrow> int option \<Rightarrow> keyspace" where
  "put ks k v x = ks\<lparr>ks_data := (ks_data ks)(k \<mapsto> \<lparr>e_val = v, e_exp = x\<rparr>)\<rparr>"

definition drop_key :: "keyspace \<Rightarrow> key \<Rightarrow> keyspace" where
  "drop_key ks k = ks\<lparr>ks_data := (ks_data ks)(k := None)\<rparr>"

text \<open>A lifetime must be positive: the server answers any other with an error.\<close>

definition put_ttl :: "keyspace \<Rightarrow> key \<Rightarrow> string \<Rightarrow> int option \<Rightarrow> reply \<Rightarrow> keyspace \<times> reply" where
  "put_ttl ks k v ttl ok = (case ttl of
      None \<Rightarrow> (put ks k (RStr v) None, ok)
    | Some ms \<Rightarrow> if ms \<le> 0 then (ks, RErr RedisCmdErr)
                 else (put ks k (RStr v) (Some (ks_clock ks + ms)), ok))"

definition hash_at :: "keyspace \<Rightarrow> key \<Rightarrow> (string \<rightharpoonup> string) option" where
  "hash_at ks k = (case live ks k of
      None \<Rightarrow> Some Map.empty
    | Some e \<Rightarrow> (case e_val e of RHash h \<Rightarrow> Some h | RStr _ \<Rightarrow> None))"

fun redis_exec :: "keyspace \<Rightarrow> rcmd \<Rightarrow> keyspace \<times> reply" where
  "redis_exec ks (GET k) = (ks, case live ks k of
      None \<Rightarrow> RNil
    | Some e \<Rightarrow> (case e_val e of RStr s \<Rightarrow> RBulk s | RHash _ \<Rightarrow> RErr RedisCmdErr))"
| "redis_exec ks (SET k v ttl) = put_ttl ks k v ttl ROk"
| "redis_exec ks (SETNX k v ttl) = (case live ks k of
      None \<Rightarrow> put_ttl ks k v ttl (RInt 1)
    | Some _ \<Rightarrow> (case ttl of
          Some ms \<Rightarrow> if ms \<le> 0 then (ks, RErr RedisCmdErr) else (ks, RInt 0)
        | None \<Rightarrow> (ks, RInt 0)))"
| "redis_exec ks (DEL k) = (drop_key ks k, RInt (if live ks k = None then 0 else 1))"
| "redis_exec ks (EXISTS k) = (ks, RInt (if live ks k = None then 0 else 1))"
| "redis_exec ks (INCRBY k n) = (case live ks k of
      None \<Rightarrow> if in_int64 n then (put ks k (RStr (fmt_d n)) None, RInt n)
              else (ks, RErr RedisCmdErr)
    | Some e \<Rightarrow> (case e_val e of
          RHash _ \<Rightarrow> (ks, RErr RedisCmdErr)
        | RStr s \<Rightarrow> (case Atoi s of
              None \<Rightarrow> (ks, RErr RedisCmdErr)
            | Some i \<Rightarrow> if in_int64 (i + n)
                then (put ks k (RStr (fmt_d (i + n))) (e_exp e), RInt (i + n))
                else (ks, RErr RedisCmdErr))))"
| "redis_exec ks (EXPIRE k ms) = (case live ks k of
      None \<Rightarrow> (ks, RInt 0)
    | Some e \<Rightarrow> if ms \<le> 0 then (drop_key ks k, RInt 1)
                else (put ks k (e_val e) (Some (ks_clock ks + ms)), RInt 1))"
| "redis_exec ks (TTL k) = (ks, RInt (case live ks k of
      None \<Rightarrow> -2
    | Some e \<Rightarrow> (case e_exp e of None \<Rightarrow> -1 | Some t \<Rightarrow> (t - ks_clock ks + 500) div 1000)))"
| "redis_exec ks (HMSET k fs) = (case hash_at ks k of
      None \<Rightarrow> (ks, RErr RedisCmdErr)
    | Some h \<Rightarrow> (put ks k (RHash (h ++ map_of (rev fs)))
                   (case live ks k of None \<Rightarrow> None | Some e \<Rightarrow> e_exp e), ROk))"
| "redis_exec ks (HMGET k fs) = (case hash_at ks k of
      None \<Rightarrow> (ks, RErr RedisCmdErr)
    | Some h \<Rightarrow> (ks, RVals (map h fs)))"
| "redis_exec ks PING = (ks, ROk)"
| "redis_exec ks (EVAL f) = f ks"

text \<open>Time passing at the server.\<close>

definition tick :: "int \<Rightarrow> keyspace \<Rightarrow> keyspace" where
  "tick d ks = ks\<lparr>ks_clock := ks_clock ks + d\<rparr>"

section \<open>Lua\<close>

text \<open>
  A script in continuation form: \<open>lua_call c f\<close> is \<^verbatim>\<open>redis.call(c)\<close> followed by \<open>f\<close>. An
  error reply of the command ends the script with that error; the writes made before it
  stay. \<open>lua_tonumber\<close> is \<^verbatim>\<open>tonumber\<close> applied to a value that is then computed with:
  on a string that is no number the arithmetic raises an error. The numbers of Lua are
  doubles, which hold the whole numbers up to \<open>2 ^ 53\<close> exactly; the model computes with exact
  integers, so it is the script for stocks, counters and quantities up to that bound.
\<close>

type_synonym script = "keyspace \<Rightarrow> keyspace \<times> reply"

definition lua_return :: "reply \<Rightarrow> script" where
  "lua_return r = (\<lambda>ks. (ks, r))"

definition lua_call :: "rcmd \<Rightarrow> (reply \<Rightarrow> script) \<Rightarrow> script" where
  "lua_call c f = (\<lambda>ks. case redis_exec ks c of
      (ks', RErr e) \<Rightarrow> (ks', RErr e)
    | (ks', r) \<Rightarrow> f r ks')"

definition lua_tonumber :: "string \<Rightarrow> (int \<Rightarrow> script) \<Rightarrow> script" where
  "lua_tonumber v f = (case parse_int v of
      None \<Rightarrow> lua_return (RErr RedisCmdErr)
    | Some i \<Rightarrow> f i)"

section \<open>Facts about the key space\<close>

lemma ks_clock_put [redis_simps]: "ks_clock (put ks k v x) = ks_clock ks"
  by (simp add: put_def)

lemma ks_clock_drop [redis_simps]: "ks_clock (drop_key ks k) = ks_clock ks"
  by (simp add: drop_key_def)

lemma live_put [redis_simps]:
  "live (put ks k v x) k' =
    (if k' = k then (case x of
        None \<Rightarrow> Some \<lparr>e_val = v, e_exp = x\<rparr>
      | Some t \<Rightarrow> if t \<le> ks_clock ks then None else Some \<lparr>e_val = v, e_exp = x\<rparr>)
     else live ks k')"
  by (simp add: live_def put_def split: option.splits)

lemma live_drop [redis_simps]: "live (drop_key ks k) k' = (if k' = k then None else live ks k')"
  by (simp add: live_def drop_key_def split: option.splits)

lemma live_exp: "live ks k = Some e \<Longrightarrow> e_exp e = Some t \<Longrightarrow> ks_clock ks < t"
  by (auto simp: live_def split: option.splits if_splits)

lemma live_put_keep:
  "live ks k = Some e \<Longrightarrow>
    live (put ks k v (e_exp e)) k' =
      (if k' = k then Some \<lparr>e_val = v, e_exp = e_exp e\<rparr> else live ks k')"
  by (auto simp: live_put dest: live_exp split: option.splits)

text \<open>The integer a key holds, as the code reads it; 0 for a missing key.\<close>

definition int_at :: "keyspace \<Rightarrow> key \<Rightarrow> int option" where
  "int_at ks k = (case live ks k of
      None \<Rightarrow> None
    | Some e \<Rightarrow> (case e_val e of RStr s \<Rightarrow> parse_int s | RHash _ \<Rightarrow> None))"

definition count_at :: "keyspace \<Rightarrow> key \<Rightarrow> int" where
  "count_at ks k = (case int_at ks k of None \<Rightarrow> 0 | Some i \<Rightarrow> i)"

lemma int_at_put [redis_simps]:
  "int_at (put ks k (RStr s) None) k' = (if k' = k then parse_int s else int_at ks k')"
  by (simp add: int_at_def live_put)

lemma int_at_put_ttl [redis_simps]:
  "ks_clock ks < t \<Longrightarrow>
    int_at (put ks k (RStr s) (Some t)) k' = (if k' = k then parse_int s else int_at ks k')"
  by (simp add: int_at_def live_put)

lemma int_at_drop [redis_simps]: "int_at (drop_key ks k) k' = (if k' = k then None else int_at ks k')"
  by (simp add: int_at_def live_drop)

lemma int_at_other [redis_simps]: "k' \<noteq> k \<Longrightarrow> int_at (put ks k v x) k' = int_at ks k'"
  by (simp add: int_at_def live_put)

lemma int_at_put_keep [redis_simps]:
  "live ks k = Some e \<Longrightarrow>
    int_at (put ks k (RStr s) (e_exp e)) k' = (if k' = k then parse_int s else int_at ks k')"
  by (simp add: int_at_def live_put_keep)

text \<open>
  A key is numeric when its live value, if any, is the decimal form of a 64-bit integer:
  the type invariant of the stock and purchase counters.
\<close>

definition numeric :: "keyspace \<Rightarrow> key \<Rightarrow> bool" where
  "numeric ks k \<longleftrightarrow> (case live ks k of
      None \<Rightarrow> True
    | Some e \<Rightarrow> (\<exists>i. e_val e = RStr (fmt_d i) \<and> in_int64 i))"

lemma numeric_cases:
  assumes "numeric ks k"
  obtains (None) "live ks k = None" "int_at ks k = None" "count_at ks k = 0"
  | (Some) e i where "live ks k = Some e" "e_val e = RStr (fmt_d i)" "in_int64 i"
      "int_at ks k = Some i" "count_at ks k = i"
  using assms by (auto simp: numeric_def int_at_def count_at_def split: option.splits)

lemma numeric_put [redis_simps]:
  "k' \<noteq> k \<Longrightarrow> numeric (put ks k v x) k' = numeric ks k'"
  by (simp add: numeric_def live_put)

lemma numeric_put_same: "in_int64 i \<Longrightarrow> numeric (put ks k (RStr (fmt_d i)) x) k"
  by (auto simp: numeric_def live_put split: option.splits)

lemma numeric_drop: "numeric ks k' \<Longrightarrow> numeric (drop_key ks k) k'"
  by (simp add: numeric_def live_drop)

section \<open>The server as the client sees it\<close>

definition redis_outcome :: "keyspace \<Rightarrow> rcmd \<Rightarrow> keyspace \<Rightarrow> reply \<Rightarrow> bool" where
  "redis_outcome ks c ks' r \<longleftrightarrow>
     (ks', r) = redis_exec ks c \<or>
     r = RErr RedisNetErr \<and> (ks' = ks \<or> ks' = fst (redis_exec ks c))"

locale redis_server =
  fixes call :: "'r redis"
    and kv :: "'r \<Rightarrow> keyspace"
  assumes outcome: "call s c = (s', r) \<Longrightarrow> redis_outcome (kv s) c (kv s') r"
begin

lemma outcome_cases:
  assumes "call s c = (s', r)"
  obtains (answered) "redis_exec (kv s) c = (kv s', r)"
  | (lost_request) "r = RErr RedisNetErr" "kv s' = kv s"
  | (lost_reply) r0 where "r = RErr RedisNetErr" "redis_exec (kv s) c = (kv s', r0)"
  using outcome [OF assms] by (auto simp: redis_outcome_def prod_eq_iff)

lemma keeps:
  assumes "call s c = (s', r)" "I (kv s)" "\<And>ks. I ks \<Longrightarrow> I (fst (redis_exec ks c))"
  shows "I (kv s')"
  using assms(1)
proof (cases rule: outcome_cases)
  case answered
  with assms(3) [OF assms(2)] show ?thesis by simp
next
  case lost_request
  with assms(2) show ?thesis by simp
next
  case (lost_reply r0)
  with assms(3) [OF assms(2)] show ?thesis by simp
qed

end

section \<open>A server with a fault schedule\<close>

text \<open>
  A server that meets the interface: it executes the commands and, following a given
  schedule of faults, loses requests or replies. It shows that the laws can hold together
  and is what the concrete runs of the witnesses use.
\<close>

datatype fault = NoFault | LostRequest | LostReply

record faulty_server =
  fs_ks :: keyspace
  fs_faults :: "fault list"

fun next_fault :: "fault list \<Rightarrow> fault \<times> fault list" where
  "next_fault [] = (NoFault, [])"
| "next_fault (f # fs) = (f, fs)"

definition faulty_call :: "faulty_server redis" where
  "faulty_call s c = (case next_fault (fs_faults s) of (f, fs) \<Rightarrow>
     (case f of
        NoFault \<Rightarrow> (case redis_exec (fs_ks s) c of (ks', r) \<Rightarrow>
            (\<lparr>fs_ks = ks', fs_faults = fs\<rparr>, r))
      | LostRequest \<Rightarrow> (\<lparr>fs_ks = fs_ks s, fs_faults = fs\<rparr>, RErr RedisNetErr)
      | LostReply \<Rightarrow> (\<lparr>fs_ks = fst (redis_exec (fs_ks s) c), fs_faults = fs\<rparr>, RErr RedisNetErr)))"

interpretation faulty: redis_server faulty_call fs_ks
  by unfold_locales
    (auto simp: faulty_call_def redis_outcome_def split: prod.splits fault.splits)

definition empty_keyspace :: keyspace where
  "empty_keyspace = \<lparr>ks_data = Map.empty, ks_clock = 0\<rparr>"

definition fresh_redis :: faulty_server where
  "fresh_redis = \<lparr>fs_ks = empty_keyspace, fs_faults = []\<rparr>"

section \<open>Replies as go-redis decodes them\<close>

text \<open>\<^verbatim>\<open>.Int()\<close>, \<^verbatim>\<open>.Err()\<close>, \<^verbatim>\<open>.Int64Slice()\<close> and \<^verbatim>\<open>.Result()\<close> of a command.\<close>

fun reply_Int :: "reply \<Rightarrow> int result" where
  "reply_Int (RInt i) = Inr i"
| "reply_Int (RBulk s) = (case Atoi s of None \<Rightarrow> Inl (Errf ''parse'') | Some i \<Rightarrow> Inr i)"
| "reply_Int RNil = Inl RedisNil"
| "reply_Int (RErr e) = Inl e"
| "reply_Int _ = Inl (Errf ''unexpected type'')"

fun reply_Err :: "reply \<Rightarrow> unit result" where
  "reply_Err (RErr e) = Inl e"
| "reply_Err RNil = Inl RedisNil"
| "reply_Err _ = Inr ()"

fun reply_Int64Slice :: "reply \<Rightarrow> int list result" where
  "reply_Int64Slice (RArr is) = Inr is"
| "reply_Int64Slice RNil = Inl RedisNil"
| "reply_Int64Slice (RErr e) = Inl e"
| "reply_Int64Slice _ = Inl (Errf ''unexpected type'')"

end
