(* ===== verification/Redis_Client.thy ===== *)
theory Redis_Client
  imports Redis_Server
begin

text \<open>
  The Redis operations of \<^verbatim>\<open>redis/redis.go\<close>: stock, purchase counters, product cache,
  idempotency keys, path tokens and captchas, with their Lua scripts. Every operation takes
  the server's \<open>call\<close> and the server state, and returns the new state and the Go result.
  Durations and times are integers in milliseconds.
\<close>

section \<open>Connection\<close>

text \<open>
  The body of \<^verbatim>\<open>InitCluster\<close>'s \<^verbatim>\<open>sync.Once\<close>: ping up to three times; the pauses between
  the attempts have no effect on the state.
\<close>

definition maxRetries :: nat where
  "maxRetries = 3"

fun ping_retry :: "nat \<Rightarrow> 'r redis \<Rightarrow> go_error \<Rightarrow> 'r \<Rightarrow> 'r \<times> unit result" where
  "ping_retry 0 call lastErr s = (s, Inl (Wrapf ''redis connect failed'' lastErr))"
| "ping_retry (Suc n) call lastErr s = (case call s PING of (s', r) \<Rightarrow>
     (case reply_Err r of
        Inr _ \<Rightarrow> (s', Inr ())
      | Inl err \<Rightarrow> ping_retry n call err s'))"

text \<open>\<^verbatim>\<open>redisOnce.Do\<close>: only the first call runs the body; later calls return nil.\<close>

definition InitCluster :: "'r redis \<Rightarrow> bool \<Rightarrow> 'r \<Rightarrow> bool \<times> 'r \<times> unit result" where
  "InitCluster call onceDone s =
     (if onceDone then (True, s, Inr ())
      else (True, ping_retry maxRetries call (Errf ''none'') s))"

section \<open>Keys\<close>

definition StockKeyPrefix :: string where
  "StockKeyPrefix = ''seckill:stock:''"

definition UserPurchasedPrefix :: string where
  "UserPurchasedPrefix = ''seckill:user:''"

definition ProductCachePrefix :: string where
  "ProductCachePrefix = ''product_cache:''"

definition SeckillPathPrefix :: string where
  "SeckillPathPrefix = ''seckill:path:''"

definition CaptchaPrefix :: string where
  "CaptchaPrefix = ''seckill:captcha:''"

definition stock_key :: "int \<Rightarrow> key" where
  "stock_key productID = StockKeyPrefix @ fmt_d productID"

definition user_key :: "int \<Rightarrow> int \<Rightarrow> key" where
  "user_key userID productID = UserPurchasedPrefix @ fmt_d userID @ '':'' @ fmt_d productID"

definition product_key :: "int \<Rightarrow> key" where
  "product_key productID = ProductCachePrefix @ fmt_d productID"

definition path_key :: "int \<Rightarrow> int \<Rightarrow> key" where
  "path_key userID productID = SeckillPathPrefix @ fmt_d userID @ '':'' @ fmt_d productID"

definition captcha_key :: "string \<Rightarrow> key" where
  "captcha_key captchaID = CaptchaPrefix @ captchaID"

definition idem_key :: "int \<Rightarrow> int \<Rightarrow> string \<Rightarrow> key" where
  "idem_key userID productID k = ''idempotent:'' @ fmt_d userID @ '':'' @ fmt_d productID @ '':'' @ k"

definition check_idem_key :: "int \<Rightarrow> int \<Rightarrow> string \<Rightarrow> key" where
  "check_idem_key userID productID k =
     ''seckill:idempotent:'' @ fmt_d userID @ '':'' @ fmt_d productID @ '':'' @ k"

lemmas key_defs = stock_key_def user_key_def product_key_def path_key_def captcha_key_def
  idem_key_def check_idem_key_def StockKeyPrefix_def UserPurchasedPrefix_def
  ProductCachePrefix_def SeckillPathPrefix_def CaptchaPrefix_def

lemma key_inject [simp]:
  "stock_key p = stock_key p' \<longleftrightarrow> p = p'"
  "user_key u p = user_key u' p' \<longleftrightarrow> u = u' \<and> p = p'"
  "product_key p = product_key p' \<longleftrightarrow> p = p'"
  "path_key u p = path_key u' p' \<longleftrightarrow> u = u' \<and> p = p'"
  "captcha_key c = captcha_key c' \<longleftrightarrow> c = c'"
  "idem_key u p k = idem_key u' p' k' \<longleftrightarrow> u = u' \<and> p = p' \<and> k = k'"
  "check_idem_key u p k = check_idem_key u' p' k' \<longleftrightarrow> u = u' \<and> p = p' \<and> k = k'"
  by (auto simp: key_defs)

lemma key_distinct [simp]:
  "stock_key p \<noteq> user_key u q" "user_key u q \<noteq> stock_key p"
  "stock_key p \<noteq> product_key q" "product_key q \<noteq> stock_key p"
  "stock_key p \<noteq> path_key u q" "path_key u q \<noteq> stock_key p"
  "stock_key p \<noteq> captcha_key c" "captcha_key c \<noteq> stock_key p"
  "stock_key p \<noteq> idem_key u q k" "idem_key u q k \<noteq> stock_key p"
  "stock_key p \<noteq> check_idem_key u q k" "check_idem_key u q k \<noteq> stock_key p"
  "user_key u p \<noteq> product_key q" "product_key q \<noteq> user_key u p"
  "user_key u p \<noteq> path_key v q" "path_key v q \<noteq> user_key u p"
  "user_key u p \<noteq> captcha_key c" "captcha_key c \<noteq> user_key u p"
  "user_key u p \<noteq> idem_key v q k" "idem_key v q k \<noteq> user_key u p"
  "user_key u p \<noteq> check_idem_key v q k" "check_idem_key v q k \<noteq> user_key u p"
  "product_key p \<noteq> path_key v q" "path_key v q \<noteq> product_key p"
  "product_key p \<noteq> captcha_key c" "captcha_key c \<noteq> product_key p"
  "product_key p \<noteq> idem_key v q k" "idem_key v q k \<noteq> product_key p"
  "product_key p \<noteq> check_idem_key v q k" "check_idem_key v q k \<noteq> product_key p"
  "path_key u p \<noteq> captcha_key c" "captcha_key c \<noteq> path_key u p"
  "path_key u p \<noteq> idem_key v q k" "idem_key v q k \<noteq> path_key u p"
  "captcha_key c \<noteq> idem_key v q k" "idem_key v q k \<noteq> captcha_key c"
  by (simp_all add: key_defs)

lemma key_nonempty [simp]:
  "stock_key p \<noteq> []" "user_key u p \<noteq> []" "idem_key u p k \<noteq> []" "product_key p \<noteq> []"
  "[] \<noteq> idem_key u p k"
  by (simp_all add: key_defs)

section \<open>Stock\<close>

text \<open>
  go-redis sends a lifetime with SET only when it is positive, and with SETNX whenever it
  is not zero. \<open>Seconds\<close> is \<^verbatim>\<open>int64(d.Seconds())\<close>: whole seconds, truncated.
\<close>

definition set_ttl :: "int \<Rightarrow> int option" where
  "set_ttl d = (if 0 < d then Some d else None)"

definition setnx_ttl :: "int \<Rightarrow> int option" where
  "setnx_ttl d = (if d = 0 then None else Some d)"

definition Seconds :: "int \<Rightarrow> int" where
  "Seconds d = sgn d * (\<bar>d\<bar> div 1000)"

definition PreloadStock :: "'r redis \<Rightarrow> int \<Rightarrow> int \<Rightarrow> 'r \<Rightarrow> 'r \<times> unit result" where
  "PreloadStock call productID stock s =
     (case call s (SET (stock_key productID) (fmt_d stock) (set_ttl 0)) of (s', r) \<Rightarrow>
        (s', reply_Err r))"

definition GetStock :: "'r redis \<Rightarrow> int \<Rightarrow> 'r \<Rightarrow> 'r \<times> int result" where
  "GetStock call productID s =
     (case call s (GET (stock_key productID)) of (s', r) \<Rightarrow>
        (s', if reply_Int r = Inl RedisNil then Inr 0 else reply_Int r))"

text \<open>\<open>lua_get\<close> is \<^verbatim>\<open>redis.call('GET', k)\<close>, a string or false (nil).\<close>

definition lua_get :: "key \<Rightarrow> (string option \<Rightarrow> script) \<Rightarrow> script" where
  "lua_get k f = lua_call (GET k) (\<lambda>r. case r of RBulk v \<Rightarrow> f (Some v) | _ \<Rightarrow> f None)"

definition decr_stock_lua :: "key \<Rightarrow> int \<Rightarrow> script" where
  "decr_stock_lua k quantity =
     lua_get k (\<lambda>stock. case stock of
         None \<Rightarrow> lua_return (RInt (-1))
       | Some v \<Rightarrow> lua_tonumber v (\<lambda>stock.
           if stock < quantity then lua_return (RInt (-2))
           else lua_call (INCRBY k (- quantity)) (\<lambda>_.
                  lua_return (RInt (stock - quantity)))))"

definition DecrStock :: "'r redis \<Rightarrow> int \<Rightarrow> int \<Rightarrow> 'r \<Rightarrow> 'r \<times> (int \<times> bool) result" where
  "DecrStock call productID quantity s =
     (case call s (EVAL (decr_stock_lua (stock_key productID) quantity)) of (s', r) \<Rightarrow>
        (s', case reply_Int r of
            Inl err \<Rightarrow> Inl (Wrapf ''redis decr stock failed'' err)
          | Inr result \<Rightarrow> if result < 0 then Inr (0, False) else Inr (result, True)))"

definition IncrStock :: "'r redis \<Rightarrow> int \<Rightarrow> int \<Rightarrow> 'r \<Rightarrow> 'r \<times> unit result" where
  "IncrStock call productID quantity s =
     (case call s (INCRBY (stock_key productID) quantity) of (s', r) \<Rightarrow> (s', reply_Err r))"

section \<open>Purchase counters\<close>

definition CheckUserPurchased :: "'r redis \<Rightarrow> int \<Rightarrow> int \<Rightarrow> 'r \<Rightarrow> 'r \<times> bool result" where
  "CheckUserPurchased call userID productID s =
     (case call s (EXISTS (user_key userID productID)) of (s', r) \<Rightarrow>
        (s', map_sum id (\<lambda>exists. 0 < exists) (reply_Int r)))"

definition CheckUserPurchaseLimit ::
  "'r redis \<Rightarrow> int \<Rightarrow> int \<Rightarrow> int \<Rightarrow> 'r \<Rightarrow> 'r \<times> (int \<times> bool) result" where
  "CheckUserPurchaseLimit call userID productID limitPerUser s =
     (case call s (GET (user_key userID productID)) of (s', r) \<Rightarrow>
        (s', case reply_Int r of
            Inl err \<Rightarrow> if err = RedisNil then Inr (0, False)
                       else Inl (Wrapf ''redis purchase record'' err)
          | Inr count \<Rightarrow> if limitPerUser \<le> count then Inr (count, True) else Inr (count, False)))"

definition MarkUserPurchased :: "'r redis \<Rightarrow> int \<Rightarrow> int \<Rightarrow> int \<Rightarrow> 'r \<Rightarrow> 'r \<times> unit result" where
  "MarkUserPurchased call userID productID expireTime s =
     (case call s (SET (user_key userID productID) ''1'' (set_ttl expireTime)) of (s', r) \<Rightarrow>
        (s', reply_Err r))"

text \<open>\<^verbatim>\<open>if not current then current = 0 end\<close> and \<^verbatim>\<open>tonumber(current)\<close>.\<close>

definition lua_count :: "string option \<Rightarrow> (int \<Rightarrow> script) \<Rightarrow> script" where
  "lua_count current f = (case current of None \<Rightarrow> f 0 | Some v \<Rightarrow> lua_tonumber v f)"

definition incr_count_lua :: "key \<Rightarrow> int \<Rightarrow> int \<Rightarrow> script" where
  "incr_count_lua k quantity expireSec =
     lua_get k (\<lambda>current. lua_count current (\<lambda>current.
       let newCount = current + quantity in
       lua_call (SET k (fmt_d newCount) (Some (1000 * expireSec))) (\<lambda>_.
         lua_return (RInt newCount))))"

definition IncrUserPurchaseCount ::
  "'r redis \<Rightarrow> int \<Rightarrow> int \<Rightarrow> int \<Rightarrow> int \<Rightarrow> 'r \<Rightarrow> 'r \<times> int result" where
  "IncrUserPurchaseCount call userID productID quantity expireTime s =
     (case call s (EVAL (incr_count_lua (user_key userID productID) quantity (Seconds expireTime)))
      of (s', r) \<Rightarrow> (s', case reply_Int r of
            Inl err \<Rightarrow> Inl (Wrapf ''redis incr count failed'' err)
          | Inr result \<Rightarrow> Inr result))"

definition GetUserPurchaseCount :: "'r redis \<Rightarrow> int \<Rightarrow> int \<Rightarrow> 'r \<Rightarrow> 'r \<times> int result" where
  "GetUserPurchaseCount call userID productID s =
     (case call s (GET (user_key userID productID)) of (s', r) \<Rightarrow>
        (s', if reply_Int r = Inl RedisNil then Inr 0 else reply_Int r))"

definition RemoveUserPurchased :: "'r redis \<Rightarrow> int \<Rightarrow> int \<Rightarrow> 'r \<Rightarrow> 'r \<times> unit result" where
  "RemoveUserPurchased call userID productID s =
     (case call s (DEL (user_key userID productID)) of (s', r) \<Rightarrow> (s', reply_Err r))"

definition decr_count_lua :: "key \<Rightarrow> int \<Rightarrow> script" where
  "decr_count_lua k quantity =
     lua_get k (\<lambda>current. case current of
         None \<Rightarrow> lua_return (RInt 0)
       | Some v \<Rightarrow> lua_tonumber v (\<lambda>current.
           let newCount = current - quantity in
           if newCount \<le> 0 then lua_call (DEL k) (\<lambda>_. lua_return (RInt 0))
           else lua_call (INCRBY k (- quantity)) (\<lambda>_. lua_return (RInt newCount))))"

definition DecrUserPurchaseCount ::
  "'r redis \<Rightarrow> int \<Rightarrow> int \<Rightarrow> int \<Rightarrow> 'r \<Rightarrow> 'r \<times> int result" where
  "DecrUserPurchaseCount call userID productID quantity s =
     (case call s (EVAL (decr_count_lua (user_key userID productID) quantity)) of (s', r) \<Rightarrow>
        (s', case reply_Int r of
            Inl err \<Rightarrow> Inl (Wrapf ''redis decr count failed'' err)
          | Inr result \<Rightarrow> Inr result))"

section \<open>Product cache\<close>

text \<open>
  The fields of the cached product. Times are written with \<^verbatim>\<open>time.RFC3339\<close>; the layout is
  the argument \<open>tf\<close> (a format and a parse function) of the two operations.
\<close>

record product_info =
  pi_name :: string
  pi_seckill_price :: rat
  pi_limit_per_user :: int
  pi_status :: int
  pi_start_time :: int
  pi_end_time :: int

record time_format =
  tf_format :: "int \<Rightarrow> string"
  tf_parse :: "string \<Rightarrow> int option"

text \<open>Go's zero time, 1 January of the year 1, in milliseconds of the Unix epoch.\<close>

definition time_zero :: int where
  "time_zero = -62135596800000"

definition parseFloat :: "string option \<Rightarrow> rat result" where
  "parseFloat v = (case v of
      None \<Rightarrow> Inl (Errf ''type'')
    | Some s \<Rightarrow> (case Sscanf_f s of None \<Rightarrow> Inl (Errf ''scan'') | Some f \<Rightarrow> Inr f))"

definition parseInt :: "string option \<Rightarrow> int result" where
  "parseInt v = (case v of
      None \<Rightarrow> Inl (Errf ''type'')
    | Some s \<Rightarrow> (case Sscanf_d s of
          None \<Rightarrow> Inl (Errf ''scan'')
        | Some i \<Rightarrow> if in_int64 i then Inr i else Inl (Errf ''scan'')))"

definition parseTime :: "time_format \<Rightarrow> string option \<Rightarrow> int result" where
  "parseTime tf v = (case v of
      None \<Rightarrow> Inl (Errf ''type'')
    | Some s \<Rightarrow> (case tf_parse tf s of None \<Rightarrow> Inl (Errf ''layout'') | Some t \<Rightarrow> Inr t))"

text \<open>\<^verbatim>\<open>x, _ = f(v)\<close>: the error is dropped and the zero value kept.\<close>

definition ignore_err :: "'a \<Rightarrow> 'a result \<Rightarrow> 'a" where
  "ignore_err zero r = (case r of Inl _ \<Rightarrow> zero | Inr v \<Rightarrow> v)"

definition product_fields :: "string list" where
  "product_fields = [''name'', ''seckill_price'', ''limit_per_user'', ''status'',
     ''start_time'', ''end_time'']"

definition DeleteProductCache :: "'r redis \<Rightarrow> int \<Rightarrow> 'r \<Rightarrow> 'r \<times> unit result" where
  "DeleteProductCache call productID s =
     (case call s (DEL (product_key productID)) of (s', r) \<Rightarrow> (s', reply_Err r))"

definition decode_product :: "time_format \<Rightarrow> reply \<Rightarrow> product_info result" where
  "decode_product tf r = (case r of
      RVals (Some name # price # limit # status # st # et # _) \<Rightarrow>
        Inr \<lparr>pi_name = name,
             pi_seckill_price = ignore_err 0 (parseFloat price),
             pi_limit_per_user = ignore_err 0 (parseInt limit),
             pi_status = ignore_err 0 (parseInt status),
             pi_start_time = ignore_err time_zero (parseTime tf st),
             pi_end_time = ignore_err time_zero (parseTime tf et)\<rparr>
    | _ \<Rightarrow> Inl (Errf ''no cache entry''))"

definition GetProductCache ::
  "'r redis \<Rightarrow> time_format \<Rightarrow> int \<Rightarrow> 'r \<Rightarrow> 'r \<times> product_info result" where
  "GetProductCache call tf productID s =
     (case call s (HMGET (product_key productID) product_fields) of (s', r) \<Rightarrow>
        (s', decode_product tf r))"

definition encode_product :: "time_format \<Rightarrow> product_info \<Rightarrow> (string \<times> string) list" where
  "encode_product tf p =
     [(''name'', pi_name p), (''seckill_price'', fmt_2f (pi_seckill_price p)),
      (''limit_per_user'', fmt_d (pi_limit_per_user p)), (''status'', fmt_d (pi_status p)),
      (''start_time'', tf_format tf (pi_start_time p)),
      (''end_time'', tf_format tf (pi_end_time p))]"

text \<open>The lifetime argument \<open>ttl\<close> is not used by the code: the hash gets no expiry.\<close>

definition SetProductCache ::
  "'r redis \<Rightarrow> time_format \<Rightarrow> int \<Rightarrow> product_info \<Rightarrow> int \<Rightarrow> 'r \<Rightarrow> 'r \<times> unit result" where
  "SetProductCache call tf productID p ttl s =
     (case call s (HMSET (product_key productID) (encode_product tf p)) of (s', r) \<Rightarrow>
        (s', reply_Err r))"

section \<open>The purchase scripts\<close>

text \<open>
  Steps 1 to 3 of the scripts: the limit, the stock, the counter. The reply is
  \<open>{remainStock, newCount, code}\<close> on every branch. The arithmetic is exact, as it is in Lua for
  stocks and counters up to \<open>2 ^ 53\<close>.
\<close>

definition purchase_lua :: "key \<Rightarrow> key \<Rightarrow> int \<Rightarrow> int \<Rightarrow> int \<Rightarrow> script" where
  "purchase_lua stockKey userKey quantity expireSec limitPerUser =
     lua_get userKey (\<lambda>current. lua_count current (\<lambda>current.
       if current + quantity > limitPerUser then lua_return (RArr [0, current, -3])
       else lua_get stockKey (\<lambda>stock. case stock of
           None \<Rightarrow> lua_return (RArr [0, 0, -1])
         | Some v \<Rightarrow> lua_tonumber v (\<lambda>stock.
             if stock < quantity then lua_return (RArr [0, current, -2])
             else let remainStock = stock - quantity in
               lua_call (INCRBY stockKey (- quantity)) (\<lambda>_.
                 let newCount = current + quantity in
                 lua_call (SET userKey (fmt_d newCount) (Some (1000 * expireSec))) (\<lambda>_.
                   lua_return (RArr [remainStock, newCount, 1])))))))"

definition purchase_idem_lua ::
  "key \<Rightarrow> key \<Rightarrow> key \<Rightarrow> int \<Rightarrow> int \<Rightarrow> int \<Rightarrow> int \<Rightarrow> script" where
  "purchase_idem_lua stockKey userKey idemKey quantity expireSec limitPerUser idemTTL =
     (if idemKey \<noteq> [] then
        lua_call (SETNX idemKey ''1'' (Some (1000 * idemTTL))) (\<lambda>ok.
          if ok = RInt 0 then lua_return (RArr [0, 0, -4])
          else purchase_lua stockKey userKey quantity expireSec limitPerUser)
      else purchase_lua stockKey userKey quantity expireSec limitPerUser)"

text \<open>The Go side reads the three positions of the reply.\<close>

definition decode_purchase :: "reply \<Rightarrow> (int \<times> int \<times> int) result" where
  "decode_purchase r = (case reply_Int64Slice r of
      Inl err \<Rightarrow> Inl (Wrapf ''redis merged operation failed'' err)
    | Inr (a # b # c # _) \<Rightarrow> Inr (a, b, c)
    | Inr _ \<Rightarrow> Inl GoPanic)"

definition DecrStockAndIncrPurchaseWithIdempotent ::
  "'r redis \<Rightarrow> int \<Rightarrow> int \<Rightarrow> int \<Rightarrow> int \<Rightarrow> int \<Rightarrow> string \<Rightarrow> 'r \<Rightarrow> 'r \<times> (int \<times> int \<times> int) result" where
  "DecrStockAndIncrPurchaseWithIdempotent call userID productID quantity limitPerUser expireTime
       idempotentKey s =
     (let stockKey = stock_key productID; userKey = user_key userID productID;
          expireSec = Seconds expireTime;
          idemKey = (if idempotentKey \<noteq> [] then idem_key userID productID idempotentKey else [])
      in case call s (EVAL (purchase_idem_lua stockKey userKey idemKey quantity expireSec
                              limitPerUser 5)) of
           (s', r) \<Rightarrow> (s', decode_purchase r))"

definition DecrStockAndIncrPurchase ::
  "'r redis \<Rightarrow> int \<Rightarrow> int \<Rightarrow> int \<Rightarrow> int \<Rightarrow> int \<Rightarrow> 'r \<Rightarrow> 'r \<times> (int \<times> int \<times> int) result" where
  "DecrStockAndIncrPurchase call userID productID quantity limitPerUser expireTime s =
     (case call s (EVAL (purchase_lua (stock_key productID) (user_key userID productID) quantity
                          (Seconds expireTime) limitPerUser)) of
        (s', r) \<Rightarrow> (s', decode_purchase r))"

section \<open>Idempotency keys, path tokens and captchas\<close>

text \<open>\<^verbatim>\<open>SetNX(...).Result()\<close>: true when the key was set.\<close>

definition reply_Bool :: "reply \<Rightarrow> bool result" where
  "reply_Bool r = map_sum id (\<lambda>n. n = 1) (reply_Int r)"

definition CheckIdempotent ::
  "'r redis \<Rightarrow> int \<Rightarrow> int \<Rightarrow> string \<Rightarrow> int \<Rightarrow> 'r \<Rightarrow> 'r \<times> bool result" where
  "CheckIdempotent call userID productID idempotentKey ttl s =
     (case call s (SETNX (check_idem_key userID productID idempotentKey) ''1'' (setnx_ttl ttl)) of
        (s', r) \<Rightarrow> (s', case reply_Bool r of
            Inl err \<Rightarrow> Inl (Wrapf ''redis idempotent check failed'' err)
          | Inr ok \<Rightarrow> Inr ok))"

definition SetSeckillPath ::
  "'r redis \<Rightarrow> int \<Rightarrow> int \<Rightarrow> string \<Rightarrow> int \<Rightarrow> 'r \<Rightarrow> 'r \<times> unit result" where
  "SetSeckillPath call userID productID token ttl s =
     (case call s (SET (path_key userID productID) token (set_ttl ttl)) of (s', r) \<Rightarrow>
        (s', reply_Err r))"

definition verify_path_lua :: "key \<Rightarrow> string \<Rightarrow> script" where
  "verify_path_lua k token =
     lua_get k (\<lambda>val. case val of
         None \<Rightarrow> lua_return (RInt 0)
       | Some v \<Rightarrow> if v \<noteq> token then lua_return (RInt 0)
                   else lua_call (DEL k) (\<lambda>_. lua_return (RInt 1)))"

definition GetAndVerifySeckillPath ::
  "'r redis \<Rightarrow> int \<Rightarrow> int \<Rightarrow> string \<Rightarrow> 'r \<Rightarrow> 'r \<times> bool result" where
  "GetAndVerifySeckillPath call userID productID token s =
     (case call s (EVAL (verify_path_lua (path_key userID productID) token)) of (s', r) \<Rightarrow>
        (s', case reply_Int r of
            Inl err \<Rightarrow> Inl (Wrapf ''path check failed'' err)
          | Inr result \<Rightarrow> Inr (result = 1)))"

definition SetCaptcha :: "'r redis \<Rightarrow> string \<Rightarrow> int \<Rightarrow> int \<Rightarrow> 'r \<Rightarrow> 'r \<times> unit result" where
  "SetCaptcha call captchaID answer ttl s =
     (case call s (SET (captcha_key captchaID) (fmt_d answer) (set_ttl ttl)) of (s', r) \<Rightarrow>
        (s', reply_Err r))"

text \<open>
  \<^verbatim>\<open>tonumber(val) ~= tonumber(ARGV[1])\<close> compares and does no arithmetic: a value that is no
  number is nil and differs from every answer.
\<close>

definition verify_captcha_lua :: "key \<Rightarrow> int \<Rightarrow> script" where
  "verify_captcha_lua k answer =
     lua_get k (\<lambda>val. case val of
         None \<Rightarrow> lua_return (RInt 0)
       | Some v \<Rightarrow> if parse_int v \<noteq> Some answer then lua_return (RInt 0)
                   else lua_call (DEL k) (\<lambda>_. lua_return (RInt 1)))"

definition GetAndVerifyCaptcha :: "'r redis \<Rightarrow> string \<Rightarrow> int \<Rightarrow> 'r \<Rightarrow> 'r \<times> bool result" where
  "GetAndVerifyCaptcha call captchaID answer s =
     (case call s (EVAL (verify_captcha_lua (captcha_key captchaID) answer)) of (s', r) \<Rightarrow>
        (s', case reply_Int r of
            Inl err \<Rightarrow> Inl (Wrapf ''captcha check failed'' err)
          | Inr result \<Rightarrow> Inr (result = 1)))"

end
