(* ===== verification/Redis_Shop.thy ===== *)
theory Redis_Shop
  imports Redis_Client
begin

text \<open>
  What the stock and purchase-counter operations of \<^verbatim>\<open>redis/redis.go\<close> promise: an abstract
  shop (stock per product, bought quantity per user and product), the evaluation of each Lua
  script, the refinement of the shop by the scripts, and the invariant that every operation
  and the passing of time keep.
\<close>

section \<open>The abstract shop\<close>

record shop =
  sh_stock :: "int \<Rightarrow> int option"
  sh_bought :: "int \<Rightarrow> int \<Rightarrow> int"

definition shop_view :: "keyspace \<Rightarrow> shop" where
  "shop_view ks = \<lparr>sh_stock = (\<lambda>p. int_at ks (stock_key p)),
                   sh_bought = (\<lambda>u p. count_at ks (user_key u p))\<rparr>"

text \<open>A purchase: limit first, then stock; on success both change by \<open>q\<close>.\<close>

definition buy :: "int \<Rightarrow> int \<Rightarrow> int \<Rightarrow> int \<Rightarrow> shop \<Rightarrow> shop \<times> (int \<times> int \<times> int)" where
  "buy u p q lmt sh = (let c = sh_bought sh u p in
     if c + q > lmt then (sh, (0, c, -3))
     else (case sh_stock sh p of
         None \<Rightarrow> (sh, (0, 0, -1))
       | Some st \<Rightarrow> if st < q then (sh, (0, c, -2))
           else (sh\<lparr>sh_stock := (sh_stock sh)(p \<mapsto> st - q),
                    sh_bought := (sh_bought sh)(u := (sh_bought sh u)(p := c + q))\<rparr>,
                 (st - q, c + q, 1))))"

text \<open>A rollback of the counter: it never goes below zero.\<close>

definition give_back :: "int \<Rightarrow> int \<Rightarrow> int \<Rightarrow> shop \<Rightarrow> shop \<times> int" where
  "give_back u p q sh = (let c = max 0 (sh_bought sh u p - q) in
     (sh\<lparr>sh_bought := (sh_bought sh)(u := (sh_bought sh u)(p := c))\<rparr>, c))"

definition restock :: "int \<Rightarrow> int \<Rightarrow> shop \<Rightarrow> shop" where
  "restock p q sh = sh\<lparr>sh_stock := (sh_stock sh)
     (p \<mapsto> (case sh_stock sh p of None \<Rightarrow> q | Some st \<Rightarrow> st + q))\<rparr>"

section \<open>Evaluation of the scripts\<close>

lemma lua_get_eval:
  "numeric ks k \<Longrightarrow> lua_get k f ks =
    (case int_at ks k of None \<Rightarrow> f None ks | Some i \<Rightarrow> f (Some (fmt_d i)) ks)"
  by (erule numeric_cases) (simp_all add: lua_get_def lua_call_def)

lemma lua_count_eval:
  "numeric ks k \<Longrightarrow> lua_get k (\<lambda>c. lua_count c f) ks = f (count_at ks k) ks"
  by (simp add: lua_get_eval count_at_def lua_count_def lua_tonumber_def split: option.splits)

lemma lua_tonumber_fmt [simp]: "lua_tonumber (fmt_d i) f = f i"
  by (simp add: lua_tonumber_def)

text \<open>The key space after INCRBY on a numeric key: the lifetime of the key is kept.\<close>

definition add_at :: "keyspace \<Rightarrow> key \<Rightarrow> int \<Rightarrow> keyspace" where
  "add_at ks k n = put ks k (RStr (fmt_d (count_at ks k + n)))
     (case live ks k of None \<Rightarrow> None | Some e \<Rightarrow> e_exp e)"

lemma incrby_eval:
  "numeric ks k \<Longrightarrow> in_int64 (count_at ks k + n) \<Longrightarrow>
    redis_exec ks (INCRBY k n) = (add_at ks k n, RInt (count_at ks k + n))"
  by (erule numeric_cases) (simp_all add: add_at_def)

lemma incrby_overflow:
  "numeric ks k \<Longrightarrow> \<not> in_int64 (count_at ks k + n) \<Longrightarrow>
    redis_exec ks (INCRBY k n) = (ks, RErr RedisCmdErr)"
  by (erule numeric_cases) simp_all

lemma int_at_add_at [redis_simps]:
  "numeric ks k \<Longrightarrow> int_at (add_at ks k n) k' =
    (if k' = k then Some (count_at ks k + n) else int_at ks k')"
  by (erule numeric_cases) (simp_all add: add_at_def redis_simps)

lemma ks_clock_add_at [redis_simps]: "ks_clock (add_at ks k n) = ks_clock ks"
  by (simp add: add_at_def redis_simps)

lemma numeric_add_at [redis_simps]:
  "in_int64 (count_at ks k + n) \<Longrightarrow> numeric (add_at ks k n) k' = (k' = k \<or> numeric ks k')"
  by (cases "k' = k") (simp_all add: add_at_def numeric_put numeric_put_same)

lemma live_add_at:
  "k' \<noteq> k \<Longrightarrow> live (add_at ks k n) k' = live ks k'"
  by (simp add: add_at_def live_put)

lemma count_at_simps [redis_simps]:
  "numeric ks k \<Longrightarrow> count_at (add_at ks k n) k' = (if k' = k then count_at ks k + n else count_at ks k')"
  "k' \<noteq> k \<Longrightarrow> count_at (put ks k v x) k' = count_at ks k'"
  "count_at (drop_key ks k) k' = (if k' = k then 0 else count_at ks k')"
  by (simp_all add: count_at_def redis_simps)

lemma count_at_put_ttl [redis_simps]:
  "ks_clock ks < t \<Longrightarrow> count_at (put ks k (RStr (fmt_d i)) (Some t)) k = i"
  by (simp add: count_at_def int_at_put_ttl)

lemma int_at_count: "int_at ks k = Some i \<Longrightarrow> count_at ks k = i"
  by (simp add: count_at_def)

text \<open>
  The merged purchase script on numeric keys, all branches. The stock is deducted before the
  counter is written, and a lifetime below one second makes that write fail.
\<close>

lemma purchase_lua_eval:
  assumes "numeric ks sk" "numeric ks uk" "0 < q" "in_int64 lmt" "\<And>i. int_at ks sk = Some i \<Longrightarrow> 0 \<le> i"
  shows "purchase_lua sk uk q x lmt ks = (let c = count_at ks uk in
    if c + q > lmt then (ks, RArr [0, c, -3])
    else (case int_at ks sk of
        None \<Rightarrow> (ks, RArr [0, 0, -1])
      | Some st \<Rightarrow> if st < q then (ks, RArr [0, c, -2])
          else if x \<le> 0 then (add_at ks sk (- q), RErr RedisCmdErr)
          else (put (add_at ks sk (- q)) uk (RStr (fmt_d (c + q))) (Some (ks_clock ks + 1000 * x)),
                RArr [st - q, c + q, 1])))"
proof (cases "int_at ks sk")
  case None
  with assms show ?thesis
    by (simp add: purchase_lua_def lua_count_eval lua_get_eval lua_return_def Let_def)
next
  case (Some st)
  have st: "in_int64 st"
    using assms(1) Some by (auto elim: numeric_cases)
  have incr: "redis_exec ks (INCRBY sk (- q)) = (add_at ks sk (- q), RInt (st - q))" if "\<not> st < q"
    using incrby_eval [OF assms(1), of "- q"] that st Some assms(3)
    by (simp add: int_at_count in_int64_def)
  show ?thesis
    using assms Some incr
    by (simp add: purchase_lua_def lua_count_eval lua_get_eval lua_return_def lua_call_def
        put_ttl_def ks_clock_add_at Let_def)
qed

lemma decr_stock_lua_eval:
  assumes "numeric ks k" "0 < q" "\<And>i. int_at ks k = Some i \<Longrightarrow> 0 \<le> i"
  shows "decr_stock_lua k q ks = (case int_at ks k of
      None \<Rightarrow> (ks, RInt (-1))
    | Some st \<Rightarrow> if st < q then (ks, RInt (-2)) else (add_at ks k (- q), RInt (st - q)))"
proof (cases "int_at ks k")
  case None
  with assms show ?thesis
    by (simp add: decr_stock_lua_def lua_get_eval lua_return_def)
next
  case (Some st)
  have "in_int64 st"
    using assms(1) Some by (auto elim: numeric_cases)
  then have "redis_exec ks (INCRBY k (- q)) = (add_at ks k (- q), RInt (st - q))" if "\<not> st < q"
    using incrby_eval [OF assms(1), of "- q"] that Some assms(2)
    by (simp add: int_at_count in_int64_def)
  then show ?thesis
    using assms Some by (simp add: decr_stock_lua_def lua_get_eval lua_return_def lua_call_def)
qed

lemma decr_count_lua_eval:
  assumes "numeric ks k" "0 < q"
  shows "decr_count_lua k q ks = (case int_at ks k of
      None \<Rightarrow> (ks, RInt 0)
    | Some c \<Rightarrow> if c \<le> q then (drop_key ks k, RInt 0) else (add_at ks k (- q), RInt (c - q)))"
proof (cases "int_at ks k")
  case None
  with assms show ?thesis
    by (simp add: decr_count_lua_def lua_get_eval lua_return_def)
next
  case (Some c)
  have "in_int64 c"
    using assms(1) Some by (auto elim: numeric_cases)
  then have "redis_exec ks (INCRBY k (- q)) = (add_at ks k (- q), RInt (c - q))" if "\<not> c \<le> q"
    using incrby_eval [OF assms(1), of "- q"] that Some assms(2)
    by (simp add: int_at_count in_int64_def)
  then show ?thesis
    using assms Some
    by (simp add: decr_count_lua_def lua_get_eval lua_return_def lua_call_def Let_def)
qed

section \<open>The invariant of the counters\<close>

text \<open>
  Every stock and purchase counter is the decimal form of a 64-bit integer, no stock is
  negative, no purchase counter is negative or above the product's limit. \<open>limit\<close> gives the
  limit each product is sold under.
\<close>

definition shop_ok :: "(int \<Rightarrow> int) \<Rightarrow> keyspace \<Rightarrow> bool" where
  "shop_ok limit ks \<longleftrightarrow>
     (\<forall>p. numeric ks (stock_key p)) \<and> (\<forall>u p. numeric ks (user_key u p)) \<and>
     (\<forall>p. 0 \<le> count_at ks (stock_key p)) \<and>
     (\<forall>u p. 0 \<le> count_at ks (user_key u p) \<and> count_at ks (user_key u p) \<le> limit p)"

lemma shop_okD [intro]:
  assumes "shop_ok limit ks"
  shows "numeric ks (stock_key p)" "numeric ks (user_key u p)"
    "0 \<le> count_at ks (stock_key p)" "0 \<le> count_at ks (user_key u p)"
    "count_at ks (user_key u p) \<le> limit p"
  using assms by (auto simp: shop_ok_def)

lemma shop_okI:
  assumes "\<And>p. numeric ks (stock_key p)" "\<And>u p. numeric ks (user_key u p)"
    "\<And>p. 0 \<le> count_at ks (stock_key p)" "\<And>u p. 0 \<le> count_at ks (user_key u p)"
    "\<And>u p. count_at ks (user_key u p) \<le> limit p"
  shows "shop_ok limit ks"
  using assms by (simp add: shop_ok_def)

lemma shop_ok_stock: "shop_ok limit ks \<Longrightarrow> int_at ks (stock_key p) = Some st \<Longrightarrow> 0 \<le> st"
  using shop_okD(3) [of limit ks p] by (simp add: int_at_count)

lemma shop_ok_int64:
  "shop_ok limit ks \<Longrightarrow> in_int64 (count_at ks (stock_key p))"
  "shop_ok limit ks \<Longrightarrow> in_int64 (count_at ks (user_key u p))"
  using shop_okD(1) [of limit ks p] shop_okD(2) [of limit ks u p]
  by (auto elim!: numeric_cases simp: in_int64_def)

text \<open>Keys that are no stock and no counter are free to change.\<close>

definition shop_key :: "key \<Rightarrow> bool" where
  "shop_key k \<longleftrightarrow> (\<exists>p. k = stock_key p) \<or> (\<exists>u p. k = user_key u p)"

lemma shop_key_simps [simp]:
  "shop_key (stock_key p)" "shop_key (user_key u p)" "\<not> shop_key (product_key p)"
  "\<not> shop_key (path_key u p)" "\<not> shop_key (captcha_key c)" "\<not> shop_key (idem_key u p k)"
  "\<not> shop_key (check_idem_key u p k)"
  by (auto simp: shop_key_def)

definition same_shop :: "keyspace \<Rightarrow> keyspace \<Rightarrow> bool" where
  "same_shop ks ks' \<longleftrightarrow> ks_clock ks' = ks_clock ks \<and> (\<forall>k. shop_key k \<longrightarrow> live ks' k = live ks k)"

lemma same_shop_refl [simp]: "same_shop ks ks"
  by (simp add: same_shop_def)

lemma same_shop_put [simp]: "\<not> shop_key k \<Longrightarrow> same_shop ks (put ks k v x)"
  by (auto simp: same_shop_def redis_simps)

lemma same_shop_drop [simp]: "\<not> shop_key k \<Longrightarrow> same_shop ks (drop_key ks k)"
  by (auto simp: same_shop_def redis_simps)

lemma same_shop_eqs:
  assumes "same_shop ks ks'"
  shows "int_at ks' (stock_key p) = int_at ks (stock_key p)"
    "int_at ks' (user_key u p) = int_at ks (user_key u p)"
    "count_at ks' (stock_key p) = count_at ks (stock_key p)"
    "count_at ks' (user_key u p) = count_at ks (user_key u p)"
    "numeric ks' (stock_key p) = numeric ks (stock_key p)"
    "numeric ks' (user_key u p) = numeric ks (user_key u p)"
    "shop_view ks' = shop_view ks" "ks_clock ks' = ks_clock ks"
  using assms by (simp_all add: same_shop_def int_at_def count_at_def numeric_def shop_view_def)

lemma same_shop_ok: "same_shop ks ks' \<Longrightarrow> shop_ok limit ks \<Longrightarrow> shop_ok limit ks'"
  by (simp add: shop_ok_def same_shop_eqs)


section \<open>The scripts refine the shop\<close>

lemma shop_view_stock:
  "numeric ks (stock_key p) \<Longrightarrow>
    shop_view (add_at ks (stock_key p) n) =
      (shop_view ks)\<lparr>sh_stock := (sh_stock (shop_view ks))(p \<mapsto> count_at ks (stock_key p) + n)\<rparr>"
  by (auto simp: shop_view_def fun_eq_iff redis_simps)

lemma shop_view_user:
  "ks_clock ks < t \<Longrightarrow>
    shop_view (put ks (user_key u p) (RStr (fmt_d c)) (Some t)) =
      (shop_view ks)\<lparr>sh_bought := (sh_bought (shop_view ks))(u := (sh_bought (shop_view ks) u)(p := c))\<rparr>"
  by (auto simp: shop_view_def fun_eq_iff redis_simps count_at_def int_at_put_ttl)

lemma shop_view_user_add:
  "numeric ks (user_key u p) \<Longrightarrow>
    shop_view (add_at ks (user_key u p) n) =
      (shop_view ks)\<lparr>sh_bought := (sh_bought (shop_view ks))
        (u := (sh_bought (shop_view ks) u)(p := count_at ks (user_key u p) + n))\<rparr>"
  by (auto simp: shop_view_def fun_eq_iff redis_simps)

lemma shop_view_user_drop:
  "shop_view (drop_key ks (user_key u p)) =
      (shop_view ks)\<lparr>sh_bought := (sh_bought (shop_view ks))(u := (sh_bought (shop_view ks) u)(p := 0))\<rparr>"
  by (auto simp: shop_view_def fun_eq_iff redis_simps)

lemma shop_view_sel [simp]:
  "sh_stock (shop_view ks) p = int_at ks (stock_key p)"
  "sh_bought (shop_view ks) u p = count_at ks (user_key u p)"
  by (simp_all add: shop_view_def)

lemma shop_ok_add_stock:
  assumes "shop_ok limit ks" "in_int64 (count_at ks (stock_key p) + n)" "0 \<le> count_at ks (stock_key p) + n"
  shows "shop_ok limit (add_at ks (stock_key p) n)"
  using assms by (intro shop_okI) (auto simp: redis_simps shop_okD)

lemma shop_ok_put_user:
  assumes "shop_ok limit ks" "in_int64 c" "0 \<le> c" "c \<le> limit p" "ks_clock ks < t"
  shows "shop_ok limit (put ks (user_key u p) (RStr (fmt_d c)) (Some t))"
proof (rule shop_okI)
  let ?ks = "put ks (user_key u p) (RStr (fmt_d c)) (Some t)"
  show "numeric ?ks (stock_key p')" for p'
    using assms(1) by (simp add: redis_simps shop_okD)
  show "numeric ?ks (user_key u' p')" for u' p'
    using assms(1,2) by (cases "u' = u \<and> p' = p") (auto simp: numeric_put_same numeric_put shop_okD)
  show "0 \<le> count_at ?ks (stock_key p')" for p'
    using assms(1) by (simp add: redis_simps shop_okD)
  show "0 \<le> count_at ?ks (user_key u' p')" for u' p'
    using assms by (cases "u' = u \<and> p' = p") (auto simp: redis_simps shop_okD)
  show "count_at ?ks (user_key u' p') \<le> limit p'" for u' p'
    using assms by (cases "u' = u \<and> p' = p") (auto simp: redis_simps shop_okD)
qed

lemma shop_ok_add_user:
  assumes "shop_ok limit ks" "in_int64 (count_at ks (user_key u p) + n)"
    "0 \<le> count_at ks (user_key u p) + n" "count_at ks (user_key u p) + n \<le> limit p"
  shows "shop_ok limit (add_at ks (user_key u p) n)"
  using assms by (intro shop_okI) (auto simp: redis_simps shop_okD)

lemma shop_ok_drop_user:
  assumes "shop_ok limit ks" "0 \<le> limit p"
  shows "shop_ok limit (drop_key ks (user_key u p))"
  using assms by (intro shop_okI) (auto simp: redis_simps numeric_drop shop_okD)

lemma purchase_refines:
  assumes ok: "shop_ok limit ks" and q: "0 < q" and l: "in_int64 lmt" and le: "lmt \<le> limit p" and x: "0 < x"
    and run: "purchase_lua (stock_key p) (user_key u p) q x lmt ks = (ks', r)"
  obtains a b c where "r = RArr [a, b, c]" "(shop_view ks', (a, b, c)) = buy u p q lmt (shop_view ks)"
    "shop_ok limit ks'"
proof -
  note eval = purchase_lua_eval [OF shop_okD(1,2) [OF ok] q l shop_ok_stock [OF ok]]
  let ?c = "count_at ks (user_key u p)"
  show thesis
  proof (cases "?c + q > lmt")
    case True
    with run ok show ?thesis
      by (intro that [of 0 ?c "-3"]) (auto simp: eval buy_def Let_def)
  next
    case enough: False
    show ?thesis
    proof (cases "int_at ks (stock_key p)")
      case None
      with run ok enough show ?thesis
        by (intro that [of 0 0 "-1"]) (auto simp: eval buy_def Let_def)
    next
      case (Some st)
      show ?thesis
      proof (cases "st < q")
        case True
        with run ok enough Some show ?thesis
          by (intro that [of 0 ?c "-2"]) (auto simp: eval buy_def Let_def)
      next
        case False
        let ?k1 = "add_at ks (stock_key p) (- q)"
        have ks': "ks' = put ?k1 (user_key u p) (RStr (fmt_d (?c + q))) (Some (ks_clock ks + 1000 * x))"
          and r: "r = RArr [st - q, ?c + q, 1]"
          using run enough Some False x by (simp_all add: eval Let_def)
        have k1: "shop_ok limit ?k1"
          using shop_ok_int64(1) [OF ok, of p] False q Some
          by (intro shop_ok_add_stock [OF ok]) (simp_all add: int_at_count in_int64_def)
        have "0 \<le> ?c"
          using ok by (rule shop_okD)
        then have "in_int64 (?c + q)"
          using l enough q by (simp add: in_int64_def)
        then have "shop_ok limit ks'"
          using k1 \<open>0 \<le> ?c\<close> enough q x le
          by (simp add: ks' shop_ok_put_user redis_simps)
        moreover have "shop_view ks' = fst (buy u p q lmt (shop_view ks))"
          using enough Some False x shop_okD(1) [OF ok, of p]
          by (simp add: ks' shop_view_user shop_view_stock redis_simps buy_def Let_def int_at_count)
        ultimately show ?thesis
          using enough Some False by (intro that [OF r]) (simp_all add: buy_def Let_def)
      qed
    qed
  qed
qed

text \<open>The idempotency key in front of the purchase.\<close>

definition submit :: "bool \<Rightarrow> int \<Rightarrow> int \<Rightarrow> int \<Rightarrow> int \<Rightarrow> shop \<Rightarrow> shop \<times> (int \<times> int \<times> int)" where
  "submit seen u p q lmt sh = (if seen then (sh, (0, 0, -4)) else buy u p q lmt sh)"

definition idem_seen :: "keyspace \<Rightarrow> int \<Rightarrow> int \<Rightarrow> string \<Rightarrow> bool" where
  "idem_seen ks u p k \<longleftrightarrow> k \<noteq> [] \<and> live ks (idem_key u p k) \<noteq> None"

lemma purchase_idem_refines:
  assumes ok: "shop_ok limit ks" and q: "0 < q" and l: "in_int64 lmt" and le: "lmt \<le> limit p" and x: "0 < x"
    and run: "purchase_idem_lua (stock_key p) (user_key u p)
        (if k \<noteq> [] then idem_key u p k else []) q x lmt 5 ks = (ks', r)"
  obtains a b c where "r = RArr [a, b, c]"
    "(shop_view ks', (a, b, c)) = submit (idem_seen ks u p k) u p q lmt (shop_view ks)"
    "shop_ok limit ks'"
proof (cases "k = [] \<or> live ks (idem_key u p k) = None")
  case False
  then have "r = RArr [0, 0, -4]" "ks' = ks" and seen: "idem_seen ks u p k"
    using run by (auto simp: purchase_idem_lua_def lua_call_def lua_return_def idem_seen_def
        split: option.splits)
  with ok show thesis
    by (intro that [of 0 0 "-4"]) (auto simp: submit_def)
next
  case True
  let ?k1 = "if k = [] then ks else put ks (idem_key u p k) (RStr ''1'') (Some (ks_clock ks + 5000))"
  have same: "same_shop ks ?k1"
    by simp
  have run1: "purchase_lua (stock_key p) (user_key u p) q x lmt ?k1 = (ks', r)"
    using run True by (auto simp: purchase_idem_lua_def lua_call_def put_ttl_def split: if_splits)
  have "\<not> idem_seen ks u p k"
    using True by (auto simp: idem_seen_def)
  then show thesis
    using purchase_refines [OF same_shop_ok [OF same ok] q l le x run1] that same_shop_eqs(7) [OF same]
    by (metis submit_def)
qed


section \<open>Client operations\<close>

context redis_server
begin

text \<open>What a client sees of a script: its reply, or a network error.\<close>

lemma eval_cases:
  assumes "call s (EVAL f) = (s', r)"
  obtains (answered) "f (kv s) = (kv s', r)"
  | (lost_request) "r = RErr RedisNetErr" "kv s' = kv s"
  | (lost_reply) r0 where "r = RErr RedisNetErr" "f (kv s) = (kv s', r0)"
  using assms by (rule outcome_cases) auto

text \<open>A property that the command keeps holds after the call, whatever the network did.\<close>

lemma call_keeps:
  assumes "call s c = (s', r)" "I (kv s)" "I (kv s) \<Longrightarrow> I (fst (redis_exec (kv s) c))"
  shows "I (kv s')"
  using assms(1) by (rule outcome_cases) (use assms in \<open>auto\<close>)

end

lemma tick_live:
  "0 \<le> d \<Longrightarrow> live (tick d ks) k = (case live ks k of
      None \<Rightarrow> None
    | Some e \<Rightarrow> (case e_exp e of None \<Rightarrow> Some e
        | Some t \<Rightarrow> if t \<le> ks_clock ks + d then None else Some e))"
  by (auto simp: live_def tick_def split: option.splits)

lemma tick_numeric: "0 \<le> d \<Longrightarrow> numeric ks k \<Longrightarrow> numeric (tick d ks) k"
  by (auto simp: numeric_def tick_live split: option.splits)

lemma tick_count: "0 \<le> d \<Longrightarrow> count_at (tick d ks) k \<in> {0, count_at ks k}"
  by (auto simp: count_at_def int_at_def tick_live split: option.splits)

lemma tick_shop_ok:
  assumes "0 \<le> d" "shop_ok limit ks"
  shows "shop_ok limit (tick d ks)"
proof (rule shop_okI)
  show "numeric (tick d ks) (stock_key p)" for p
    by (rule tick_numeric [OF assms(1)]) (rule shop_okD [OF assms(2)])
  show "numeric (tick d ks) (user_key u p)" for u p
    by (rule tick_numeric [OF assms(1)]) (rule shop_okD [OF assms(2)])
  show "0 \<le> count_at (tick d ks) (stock_key p)" for p
    using tick_count [OF assms(1), of ks "stock_key p"] shop_okD(3) [OF assms(2), of p] by auto
  show "0 \<le> count_at (tick d ks) (user_key u p)" for u p
    using tick_count [OF assms(1), of ks "user_key u p"] shop_okD(4) [OF assms(2), of u p] by auto
  show "count_at (tick d ks) (user_key u p) \<le> limit p" for u p
    using tick_count [OF assms(1), of ks "user_key u p"] shop_okD(4,5) [OF assms(2), of u p] by auto
qed

text \<open>
  The operations the services issue on stock and counters, one step each (every one is a
  single command), interleaved with the passing of time and with commands on other keys.
\<close>

inductive shop_step :: "'r redis \<Rightarrow> ('r \<Rightarrow> keyspace) \<Rightarrow> (int \<Rightarrow> int) \<Rightarrow> 'r \<Rightarrow> 'r \<Rightarrow> bool"
  for call kv limit where
  purchase: "DecrStockAndIncrPurchaseWithIdempotent call u p q (limit p) x k s = (s', res) \<Longrightarrow>
    0 < q \<Longrightarrow> shop_step call kv limit s s'"
| purchase_plain: "DecrStockAndIncrPurchase call u p q (limit p) x s = (s', res) \<Longrightarrow>
    0 < q \<Longrightarrow> shop_step call kv limit s s'"
| decr: "DecrStock call p q s = (s', ok) \<Longrightarrow> 0 < q \<Longrightarrow> shop_step call kv limit s s'"
| restock: "IncrStock call p q s = (s', out) \<Longrightarrow> 0 \<le> q \<Longrightarrow> shop_step call kv limit s s'"
| preload: "PreloadStock call p n s = (s', out) \<Longrightarrow> 0 \<le> n \<Longrightarrow> in_int64 n \<Longrightarrow>
    shop_step call kv limit s s'"
| give_back: "DecrUserPurchaseCount call u p q s = (s', n) \<Longrightarrow> 0 < q \<Longrightarrow>
    shop_step call kv limit s s'"
| remove: "RemoveUserPurchased call u p s = (s', out) \<Longrightarrow> shop_step call kv limit s s'"
| other_key: "same_shop (kv s) (kv s') \<Longrightarrow> shop_step call kv limit s s'"
| wait: "kv s' = tick d (kv s) \<Longrightarrow> 0 \<le> d \<Longrightarrow> shop_step call kv limit s s'"

lemma purchase_lua_keeps:
  assumes ok: "shop_ok limit ks" and q: "0 < q" and l: "in_int64 lmt" and le: "lmt \<le> limit p"
  shows "shop_ok limit (fst (purchase_lua (stock_key p) (user_key u p) q x lmt ks))"
proof (cases "0 < x")
  case True
  show ?thesis
    by (rule purchase_refines [OF ok q l le True prod.collapse [symmetric]])
next
  case False
  have "shop_ok limit (add_at ks (stock_key p) (- q))"
    if "int_at ks (stock_key p) = Some st" "\<not> st < q" for st
    using that q shop_ok_int64(1) [OF ok, of p]
    by (intro shop_ok_add_stock [OF ok]) (simp_all add: int_at_count in_int64_def)
  with False ok show ?thesis
    by (auto simp: purchase_lua_eval [OF shop_okD(1,2) [OF ok] q l shop_ok_stock [OF ok]] Let_def
        split: option.splits)
qed

lemma purchase_idem_lua_keeps:
  assumes ok: "shop_ok limit ks" and q: "0 < q" and l: "in_int64 lmt" and le: "lmt \<le> limit p"
  shows "shop_ok limit (fst (purchase_idem_lua (stock_key p) (user_key u p)
      (if k \<noteq> [] then idem_key u p k else []) q x lmt 5 ks))"
proof (cases "k = [] \<or> live ks (idem_key u p k) = None")
  case True
  have "shop_ok limit (put ks (idem_key u p k) (RStr ''1'') y)" for y
    by (rule same_shop_ok [OF same_shop_put ok]) simp
  with True show ?thesis
    using purchase_lua_keeps [of limit, OF _ q l le] ok
    by (auto simp: purchase_idem_lua_def lua_call_def put_ttl_def)
next
  case False
  with ok show ?thesis
    by (auto simp: purchase_idem_lua_def lua_call_def lua_return_def split: option.splits)
qed

lemma decr_stock_lua_keeps:
  assumes ok: "shop_ok limit ks" and q: "0 < q"
  shows "shop_ok limit (fst (decr_stock_lua (stock_key p) q ks))"
proof -
  have "shop_ok limit (add_at ks (stock_key p) (- q))"
    if "int_at ks (stock_key p) = Some st" "\<not> st < q" for st
    using that q shop_ok_int64(1) [OF ok, of p]
    by (intro shop_ok_add_stock [OF ok]) (simp_all add: int_at_count in_int64_def)
  then show ?thesis
    using ok by (auto simp: decr_stock_lua_eval [OF shop_okD(1) [OF ok] q shop_ok_stock [OF ok]]
        split: option.splits)
qed

lemma decr_count_lua_keeps:
  assumes ok: "shop_ok limit ks" and q: "0 < q"
  shows "shop_ok limit (fst (decr_count_lua (user_key u p) q ks))"
proof -
  have c: "0 \<le> count_at ks (user_key u p)" "count_at ks (user_key u p) \<le> limit p"
    using ok by auto
  then have "shop_ok limit (add_at ks (user_key u p) (- q))"
    if "int_at ks (user_key u p) = Some n" "\<not> n \<le> q" for n
    using that q shop_ok_int64(2) [OF ok, of u p]
    by (intro shop_ok_add_user [OF ok]) (simp_all add: int_at_count in_int64_def)
  moreover have "shop_ok limit (drop_key ks (user_key u p))"
    using c by (intro shop_ok_drop_user [OF ok]) simp
  ultimately show ?thesis
    using ok by (auto simp: decr_count_lua_eval [OF shop_okD(2) [OF ok] q] split: option.splits)
qed

lemma incr_stock_keeps:
  assumes ok: "shop_ok limit ks" and q: "0 \<le> q"
  shows "shop_ok limit (fst (redis_exec ks (INCRBY (stock_key p) q)))"
proof (cases "in_int64 (count_at ks (stock_key p) + q)")
  case True
  with shop_okD(3) [OF ok, of p] q show ?thesis
    by (subst incrby_eval) (auto intro!: shop_ok_add_stock [OF ok] shop_okD [OF ok])
next
  case False
  with ok show ?thesis
    by (subst incrby_overflow) (auto intro: shop_okD)
qed

lemma preload_keeps:
  assumes ok: "shop_ok limit ks" and n: "0 \<le> n" "in_int64 n"
  shows "shop_ok limit (put ks (stock_key p) (RStr (fmt_d n)) None)"
proof (rule shop_okI)
  let ?ks = "put ks (stock_key p) (RStr (fmt_d n)) None"
  show "numeric ?ks (stock_key p')" for p'
    using n by (cases "p' = p") (auto simp: numeric_put_same numeric_put shop_okD [OF ok])
  show "0 \<le> count_at ?ks (stock_key p')" for p'
    using n shop_okD(3) [OF ok, of p'] by (auto simp: count_at_def redis_simps)
qed (auto simp: redis_simps shop_okD [OF ok])


lemmas client_op_defs = PreloadStock_def GetStock_def DecrStock_def IncrStock_def
  DecrUserPurchaseCount_def RemoveUserPurchased_def DecrStockAndIncrPurchase_def
  DecrStockAndIncrPurchaseWithIdempotent_def

context redis_server
begin

lemma step_keeps:
  assumes "shop_step call kv limit s s'" "shop_ok limit (kv s)" "\<And>p. in_int64 (limit p)"
  shows "shop_ok limit (kv s')"
  using assms(1)
proof cases
  case (purchase u p q x k res)
  then show ?thesis
    using purchase_idem_lua_keeps [OF assms(2) purchase(2) assms(3) order_refl] assms(2)
    by (auto simp: client_op_defs Let_def split: prod.splits elim!: call_keeps)
next
  case (purchase_plain u p q x res)
  then show ?thesis
    using purchase_lua_keeps [OF assms(2) purchase_plain(2) assms(3) order_refl] assms(2)
    by (auto simp: client_op_defs split: prod.splits elim!: call_keeps)
next
  case (decr p q ok)
  then show ?thesis
    using decr_stock_lua_keeps [OF assms(2) decr(2)] assms(2)
    by (auto simp: client_op_defs split: prod.splits elim!: call_keeps)
next
  case (restock p q out)
  then show ?thesis
    using incr_stock_keeps [OF assms(2) restock(2)] assms(2)
    by (auto simp: client_op_defs simp del: redis_exec.simps split: prod.splits elim!: call_keeps)
next
  case (preload p n out)
  then show ?thesis
    using preload_keeps [OF assms(2) preload(2,3)] assms(2)
    by (auto simp: client_op_defs set_ttl_def put_ttl_def split: prod.splits elim!: call_keeps)
next
  case (give_back u p q n)
  then show ?thesis
    using decr_count_lua_keeps [OF assms(2) give_back(2)] assms(2)
    by (auto simp: client_op_defs split: prod.splits elim!: call_keeps)
next
  case (remove u p out)
  have "0 \<le> limit p"
    using shop_okD(4,5) [OF assms(2), of u p] by simp
  with remove show ?thesis
    using shop_ok_drop_user [OF assms(2)] assms(2)
    by (auto simp: client_op_defs split: prod.splits elim!: call_keeps)
next
  case other_key
  then show ?thesis
    by (rule same_shop_ok) (rule assms(2))
next
  case (wait d)
  then show ?thesis
    using tick_shop_ok assms(2) by metis
qed

lemma steps_keep:
  assumes "(shop_step call kv limit)\<^sup>*\<^sup>* s s'" "shop_ok limit (kv s)" "\<And>p. in_int64 (limit p)"
  shows "shop_ok limit (kv s')"
  using assms(1) by (induction rule: rtranclp_induct) (use assms step_keeps in auto)

text \<open>One submission, with the three things the network can do to it.\<close>

lemma purchase_cases:
  assumes ok: "shop_ok limit (kv s)" and q: "0 < q" and l: "in_int64 lmt" and le: "lmt \<le> limit p"
    and x: "1000 \<le> x"
    and run: "DecrStockAndIncrPurchaseWithIdempotent call u p q lmt x k s = (s', res)"
  obtains (answered) a b c where "res = Inr (a, b, c)" "shop_ok limit (kv s')"
      "(shop_view (kv s'), (a, b, c)) =
        submit (idem_seen (kv s) u p k) u p q lmt (shop_view (kv s))"
  | (lost_request) "res = Inl (Wrapf ''redis merged operation failed'' RedisNetErr)"
      "kv s' = kv s"
  | (lost_reply) abc where "res = Inl (Wrapf ''redis merged operation failed'' RedisNetErr)"
      "shop_ok limit (kv s')" "(shop_view (kv s'), abc) =
        submit (idem_seen (kv s) u p k) u p q lmt (shop_view (kv s))"
proof -
  have x': "0 < Seconds x"
    using x by (simp add: Seconds_def)
  let ?f = "purchase_idem_lua (stock_key p) (user_key u p)
    (if k \<noteq> [] then idem_key u p k else []) q (Seconds x) lmt 5"
  obtain r where r: "call s (EVAL ?f) = (s', r)" and res: "res = decode_purchase r"
    using run by (auto simp: client_op_defs Let_def split: prod.splits)
  from r show thesis
  proof (cases rule: eval_cases)
    case answered
    show ?thesis
      by (rule purchase_idem_refines [OF ok q l le x' answered])
        (use res in \<open>auto simp: decode_purchase_def intro: that(1)\<close>)
  next
    case lost_request
    with res show ?thesis by (auto simp: decode_purchase_def intro: that(2))
  next
    case (lost_reply r0)
    show ?thesis
      by (rule purchase_idem_refines [OF ok q l le x' lost_reply(2)])
        (use res lost_reply in \<open>auto simp: decode_purchase_def intro: that(3)\<close>)
  qed
qed

end

section \<open>Sales of one product\<close>

text \<open>
  A run of submissions by any users, for any products, under any schedule of faults, with
  time passing and other keys changing between them. The ghost \<open>n\<close> is the quantity of product
  \<open>p\<close> that the clients saw confirmed (code 1), less what was returned to the stock.
\<close>

inductive sale_run ::
  "'r redis \<Rightarrow> ('r \<Rightarrow> keyspace) \<Rightarrow> (int \<Rightarrow> int) \<Rightarrow> int \<Rightarrow> 'r \<Rightarrow> int \<Rightarrow> 'r \<Rightarrow> bool"
  for call kv limit p s where
  start: "sale_run call kv limit p s 0 s"
| submit: "sale_run call kv limit p s n s1 \<Longrightarrow>
    DecrStockAndIncrPurchaseWithIdempotent call u p' q lmt x k s1 = (s2, res) \<Longrightarrow>
    0 < q \<Longrightarrow> in_int64 lmt \<Longrightarrow> lmt \<le> limit p' \<Longrightarrow>
    m = (if p' = p \<and> (\<exists>a b. res = Inr (a, b, 1)) then q else 0) \<Longrightarrow>
    sale_run call kv limit p s (n + m) s2"
| undo: "sale_run call kv limit p s n s1 \<Longrightarrow> IncrStock call p' q s1 = (s2, out) \<Longrightarrow>
    0 \<le> q \<Longrightarrow> m = (if p' = p then q else 0) \<Longrightarrow> m \<le> n \<Longrightarrow>
    sale_run call kv limit p s (n - m) s2"
| undo_count: "sale_run call kv limit p s n s1 \<Longrightarrow> DecrUserPurchaseCount call u p' q s1 = (s2, c) \<Longrightarrow>
    0 < q \<Longrightarrow> sale_run call kv limit p s n s2"
| other_key: "sale_run call kv limit p s n s1 \<Longrightarrow> same_shop (kv s1) (kv s2) \<Longrightarrow>
    sale_run call kv limit p s n s2"
| wait: "sale_run call kv limit p s n s1 \<Longrightarrow> kv s2 = tick d (kv s1) \<Longrightarrow> 0 \<le> d \<Longrightarrow>
    sale_run call kv limit p s n s2"

definition persistent :: "keyspace \<Rightarrow> key \<Rightarrow> bool" where
  "persistent ks k \<longleftrightarrow> (\<exists>e. live ks k = Some e \<and> e_exp e = None)"

lemma persistent_tick: "0 \<le> d \<Longrightarrow> persistent ks k \<Longrightarrow> persistent (tick d ks) k"
  by (auto simp: persistent_def tick_live)

lemma persistent_tick_int: "0 \<le> d \<Longrightarrow> persistent ks k \<Longrightarrow> int_at (tick d ks) k = int_at ks k"
  by (auto simp: persistent_def tick_live int_at_def)

lemma persistent_add_at: "persistent ks k \<Longrightarrow> persistent (add_at ks k' n) k"
  by (cases "k' = k") (auto simp: persistent_def add_at_def live_put)

lemma persistent_other: "k \<noteq> k' \<Longrightarrow> persistent (put ks k' v x) k = persistent ks k"
  by (simp add: persistent_def live_put)

lemma purchase_lua_stock:
  assumes ok: "shop_ok limit ks" "0 < q" "in_int64 lmt" and st: "int_at ks (stock_key p) = Some st"
    and p: "persistent ks (stock_key p)"
    and run: "purchase_lua (stock_key p') (user_key u p') q x lmt ks = (ks', r)"
  shows "persistent ks' (stock_key p) \<and> (\<exists>st'. int_at ks' (stock_key p) = Some st' \<and> st' \<le> st \<and>
    (p' = p \<and> (\<exists>a b. decode_purchase r = Inr (a, b, 1)) \<longrightarrow> st' = st - q))"
  using run ok st p
  by (cases "p' = p")
    (auto simp: purchase_lua_eval [OF shop_okD(1,2) [OF ok(1)] ok(2,3) shop_ok_stock [OF ok(1)]]
      Let_def persistent_other persistent_add_at redis_simps shop_okD int_at_count decode_purchase_def split: option.splits if_splits)

lemma purchase_idem_stock:
  assumes ok: "shop_ok limit ks" "0 < q" "in_int64 lmt" and st: "int_at ks (stock_key p) = Some st"
    and p: "persistent ks (stock_key p)"
    and run: "purchase_idem_lua (stock_key p') (user_key u p')
      (if k \<noteq> [] then idem_key u p' k else []) q x lmt 5 ks = (ks', r)"
  shows "persistent ks' (stock_key p) \<and> (\<exists>st'. int_at ks' (stock_key p) = Some st' \<and> st' \<le> st \<and>
    (p' = p \<and> (\<exists>a b. decode_purchase r = Inr (a, b, 1)) \<longrightarrow> st' = st - q))"
proof (cases "k = [] \<or> live ks (idem_key u p' k) = None")
  case True
  let ?k1 = "if k = [] then ks else put ks (idem_key u p' k) (RStr ''1'') (Some (ks_clock ks + 5000))"
  have same: "same_shop ks ?k1"
    by simp
  have run1: "purchase_lua (stock_key p') (user_key u p') q x lmt ?k1 = (ks', r)"
    using run True by (auto simp: purchase_idem_lua_def lua_call_def put_ttl_def split: if_splits)
  show ?thesis
    by (rule purchase_lua_stock [OF same_shop_ok [OF same ok(1)] ok(2,3) _ _ run1])
      (use st p in \<open>simp_all add: persistent_other same_shop_eqs(1) [OF same]\<close>)
next
  case False
  then have "r = RArr [0, 0, -4]" "ks' = ks"
    using run by (auto simp: purchase_idem_lua_def lua_call_def lua_return_def split: option.splits)
  with st p show ?thesis by (simp add: decode_purchase_def)
qed

text \<open>The codes of the scripts, for any limit and lifetime.\<close>

lemma purchase_lua_code:
  assumes ok: "shop_ok limit ks" "0 < q" "in_int64 lmt"
    and run: "purchase_lua (stock_key p) (user_key u p) q x lmt ks = (ks', r)"
  shows "decode_purchase r = Inr (a, b, c) \<Longrightarrow> c \<in> {1, -1, -2, -3, -4}"
  using run
  by (auto simp: purchase_lua_eval [OF shop_okD(1,2) [OF ok(1)] ok(2,3) shop_ok_stock [OF ok(1)]]
      Let_def decode_purchase_def split: option.splits if_splits)

lemma purchase_idem_code:
  assumes ok: "shop_ok limit ks" "0 < q" "in_int64 lmt"
    and run: "purchase_idem_lua (stock_key p) (user_key u p)
      (if k \<noteq> [] then idem_key u p k else []) q x lmt 5 ks = (ks', r)"
    and "decode_purchase r = Inr (a, b, c)"
  shows "c \<in> {1, -1, -2, -3, -4}"
proof (cases "k = [] \<or> live ks (idem_key u p k) = None")
  case True
  let ?k1 = "if k = [] then ks else put ks (idem_key u p k) (RStr ''1'') (Some (ks_clock ks + 5000))"
  have ok1: "shop_ok limit ?k1"
    by (rule same_shop_ok [OF _ ok(1)]) simp
  have run1: "purchase_lua (stock_key p) (user_key u p) q x lmt ?k1 = (ks', r)"
    using run True by (auto simp: purchase_idem_lua_def lua_call_def put_ttl_def split: if_splits)
  show ?thesis
    by (rule purchase_lua_code [OF ok1 ok(2,3) run1 assms(5)])
next
  case False
  then have "r = RArr [0, 0, -4]"
    using run by (auto simp: purchase_idem_lua_def lua_call_def lua_return_def split: option.splits)
  with assms(5) show ?thesis by (simp add: decode_purchase_def)
qed

lemma incr_stock_bound:
  assumes "shop_ok limit ks" "0 \<le> q" "int_at ks (stock_key p) = Some st" "persistent ks (stock_key p)"
  shows "persistent (fst (redis_exec ks (INCRBY (stock_key p') q))) (stock_key p) \<and>
    (\<exists>st'. int_at (fst (redis_exec ks (INCRBY (stock_key p') q))) (stock_key p) = Some st' \<and>
      st' \<le> st + (if p' = p then q else 0))"
proof (cases "in_int64 (count_at ks (stock_key p') + q)")
  case True
  then show ?thesis
    using assms incrby_eval [OF shop_okD(1) [OF assms(1)] True]
    by (cases "p' = p") (auto simp: redis_simps shop_okD persistent_add_at int_at_count)
next
  case False
  then show ?thesis
    using assms incrby_overflow [OF shop_okD(1) [OF assms(1)] False] by auto
qed

lemma persistent_drop: "k \<noteq> k' \<Longrightarrow> persistent (drop_key ks k') k = persistent ks k"
  by (simp add: persistent_def live_drop)

lemma decr_count_stock:
  assumes "shop_ok limit ks" "0 < q" "int_at ks (stock_key p) = Some st" "persistent ks (stock_key p)"
  shows "persistent (fst (decr_count_lua (user_key u p') q ks)) (stock_key p) \<and>
    int_at (fst (decr_count_lua (user_key u p') q ks)) (stock_key p) = Some st"
  using assms
  by (auto simp: decr_count_lua_eval [OF shop_okD(2) [OF assms(1)] assms(2)] redis_simps shop_okD persistent_add_at
      persistent_drop split: option.splits)

context redis_server
begin

lemma purchase_code:
  assumes "DecrStockAndIncrPurchaseWithIdempotent call u p q lmt x k s = (s', Inr (a, b, c))"
    "shop_ok limit (kv s)" "0 < q" "in_int64 lmt"
  shows "c \<in> {1, -1, -2, -3, -4}"
proof -
  let ?f = "purchase_idem_lua (stock_key p) (user_key u p)
    (if k \<noteq> [] then idem_key u p k else []) q (Seconds x) lmt 5"
  obtain r where r: "call s (EVAL ?f) = (s', r)" and res: "decode_purchase r = Inr (a, b, c)"
    using assms(1) by (auto simp: client_op_defs Let_def split: prod.splits)
  from r show ?thesis
  proof (cases rule: eval_cases)
    case answered
    show ?thesis
      by (rule purchase_idem_code [OF assms(2-4) answered res])
  qed (use res in \<open>simp_all add: decode_purchase_def\<close>)
qed

lemma sale_run_bound:
  assumes "sale_run call kv limit p s n s'" "shop_ok limit (kv s)"
    "int_at (kv s) (stock_key p) = Some st" "persistent (kv s) (stock_key p)"
  shows "shop_ok limit (kv s') \<and> persistent (kv s') (stock_key p) \<and>
    (\<exists>st'. int_at (kv s') (stock_key p) = Some st' \<and> 0 \<le> n \<and> n + st' \<le> st)"
  using assms(1)
proof induction
  case start
  with assms show ?case by auto
next
  case (submit n s1 u p' q lmt x k s2 res m)
  then obtain st1 where ok: "shop_ok limit (kv s1)" and pe: "persistent (kv s1) (stock_key p)"
    and st1: "int_at (kv s1) (stock_key p) = Some st1" "0 \<le> n" "n + st1 \<le> st" by auto
  let ?f = "purchase_idem_lua (stock_key p') (user_key u p')
    (if k \<noteq> [] then idem_key u p' k else []) q (Seconds x) lmt 5"
  obtain r where r: "call s1 (EVAL ?f) = (s2, r)" and res: "res = decode_purchase r"
    using submit(2) by (auto simp: client_op_defs Let_def split: prod.splits)
  have ok2: "shop_ok limit (kv s2)"
    using r purchase_idem_lua_keeps [OF ok submit(3-5)] ok by (auto elim!: call_keeps)
  note effect = purchase_idem_stock [OF ok submit(3,4) st1(1) pe]
  from r show ?case
  proof (cases rule: eval_cases)
    case answered
    from effect [OF this] show ?thesis
      using ok2 st1 submit(3,6) res by (auto split: if_splits)
  next
    case lost_request
    then show ?thesis
      using ok2 pe st1 submit(6) res by (auto simp: decode_purchase_def)
  next
    case (lost_reply r0)
    from effect [OF lost_reply(2)] show ?thesis
      using ok2 st1 submit(6) res lost_reply(1) by (auto simp: decode_purchase_def)
  qed
next
  case (undo n s1 p' q s2 out m)
  then obtain st1 where ok: "shop_ok limit (kv s1)" and pe: "persistent (kv s1) (stock_key p)"
    and st1: "int_at (kv s1) (stock_key p) = Some st1" "0 \<le> n" "n + st1 \<le> st" by auto
  obtain r where r: "call s1 (INCRBY (stock_key p') q) = (s2, r)"
    using undo(2) by (auto simp: client_op_defs split: prod.splits)
  have ok2: "shop_ok limit (kv s2)"
    by (rule call_keeps [OF r, where I = "shop_ok limit"]) (rule ok incr_stock_keeps [OF ok undo(3)])+
  from r show ?case
  proof (cases rule: outcome_cases)
    case answered
    with incr_stock_bound [OF ok undo(3) st1(1) pe, of p'] show ?thesis
      using ok2 st1 undo(4,5) by (auto simp del: redis_exec.simps)
  next
    case lost_request
    with ok2 pe st1 undo(3-5) show ?thesis by auto
  next
    case (lost_reply r0)
    with incr_stock_bound [OF ok undo(3) st1(1) pe, of p'] show ?thesis
      using ok2 st1 undo(4,5) by (auto simp del: redis_exec.simps)
  qed
next
  case (undo_count n s1 u p' q s2 c)
  then obtain st1 where ok: "shop_ok limit (kv s1)" and pe: "persistent (kv s1) (stock_key p)"
    and st1: "int_at (kv s1) (stock_key p) = Some st1" "0 \<le> n" "n + st1 \<le> st" by auto
  obtain r where r: "call s1 (EVAL (decr_count_lua (user_key u p') q)) = (s2, r)"
    using undo_count(2) by (auto simp: client_op_defs split: prod.splits)
  let ?I = "\<lambda>ks. shop_ok limit ks \<and> persistent ks (stock_key p) \<and> int_at ks (stock_key p) = Some st1"
  have "?I (kv s2)"
    using decr_count_lua_keeps [OF ok undo_count(3)] decr_count_stock [OF ok undo_count(3) st1(1) pe] ok pe st1
    by (intro call_keeps [OF r, where I = ?I]) auto
  with st1 show ?case by auto
next
  case (other_key n s1 s2)
  then have "persistent (kv s2) (stock_key p) = persistent (kv s1) (stock_key p)"
    by (simp add: persistent_def same_shop_def)
  with other_key show ?case
    using same_shop_ok [OF other_key(2)] by (simp add: same_shop_eqs [OF other_key(2)])
next
  case (wait n s1 s2 d)
  then show ?case
    by (auto simp: tick_shop_ok persistent_tick persistent_tick_int)
qed

end

section \<open>Properties\<close>

lemma shop_ok_empty: "(\<And>p. 0 \<le> limit p) \<Longrightarrow> shop_ok limit empty_keyspace"
  by (rule shop_okI) (simp_all add: numeric_def live_def empty_keyspace_def count_at_def int_at_def)

text \<open>A server on which product 1 has 10 pieces.\<close>

definition demo_redis :: faulty_server where
  "demo_redis = fst (PreloadStock faulty_call 1 10 fresh_redis)"

lemma demo_redis_ks: "fs_ks demo_redis = put empty_keyspace (stock_key 1) (RStr (fmt_d 10)) None"
  by (simp add: demo_redis_def PreloadStock_def faulty_call_def fresh_redis_def set_ttl_def put_ttl_def)

lemma demo_redis_at:
  "int_at (fs_ks demo_redis) (stock_key 1) = Some 10" "persistent (fs_ks demo_redis) (stock_key 1)"
  "count_at (fs_ks demo_redis) (user_key u p) = 0"
  by (simp_all add: demo_redis_ks persistent_def redis_simps)
    (simp add: count_at_def int_at_def live_def empty_keyspace_def)

lemma demo_redis_ok: "shop_ok (\<lambda>_. 3) (fs_ks demo_redis)"
  unfolding demo_redis_ks by (rule preload_keeps) (simp_all add: shop_ok_empty in_int64_def)

lemma demo_purchase:
  "\<exists>s'. DecrStockAndIncrPurchaseWithIdempotent faulty_call 7 1 2 3 60000 ''k'' demo_redis
      = (s', Inr (8, 2, 1))"
  by (simp add: client_op_defs faulty_call_def demo_redis_def fresh_redis_def set_ttl_def put_ttl_def
      purchase_idem_lua_def purchase_lua_def lua_call_def lua_get_def lua_count_def lua_return_def
      decode_purchase_def Seconds_def redis_simps in_int64_def live_def empty_keyspace_def put_def)



text \<open>
  C3. The counters of the shop stay well formed in every state reachable by the operations of
  the services on stock and counters, in any interleaving, with the passing of time, with
  commands on other keys and with lost requests and replies: no stock is negative (nothing is
  oversold) and no user's count exceeds the product's limit.
\<close>

theorem shop_invariant:
  assumes "redis_server call kv" "(shop_step call kv limit)\<^sup>*\<^sup>* s s'" "shop_ok limit (kv s)"
    "\<And>p. in_int64 (limit p)"
  shows "shop_ok limit (kv s')"
  by (rule redis_server.steps_keep [OF assms])

theorem shop_invariant_witness:
  "shop_ok (\<lambda>_. 3) (fs_ks (fst (DecrStockAndIncrPurchase faulty_call 7 1 2 3 60000 demo_redis)))"
  by (rule shop_invariant [OF faulty.redis_server_axioms r_into_rtranclp demo_redis_ok])
    (auto intro!: shop_step.purchase_plain [OF prod.collapse [symmetric]] simp: in_int64_def)


text \<open>
  C1. No overselling: whatever the order and interleaving of the submissions and of the returns
  of bought units, whatever limits and lifetimes they pass and whatever requests and replies are
  lost, the quantity of a product that buyers saw confirmed (less the returned units) plus the
  remaining stock never exceeds the preloaded stock, and the remaining stock is not negative.
\<close>

theorem no_oversell:
  assumes "redis_server call kv" "sale_run call kv limit p s n s'" "shop_ok limit (kv s)"
    "int_at (kv s) (stock_key p) = Some st" "persistent (kv s) (stock_key p)"
  shows "\<exists>st'. int_at (kv s') (stock_key p) = Some st' \<and> 0 \<le> st' \<and> n + st' \<le> st \<and> n \<le> st"
  using redis_server.sale_run_bound [OF assms]
  by (metis shop_ok_stock add_increasing2 le_add_same_cancel1 order_trans)

theorem no_oversell_witness:
  "\<exists>s' st'. sale_run faulty_call fs_ks (\<lambda>_. 3) 1 demo_redis 2 s' \<and>
    int_at (fs_ks s') (stock_key 1) = Some st' \<and> 0 \<le> st' \<and> 2 + st' \<le> 10"
proof -
  obtain s' where "DecrStockAndIncrPurchaseWithIdempotent faulty_call 7 1 2 3 60000 ''k'' demo_redis
      = (s', Inr (8, 2, 1))"
    using demo_purchase by blast
  then have "sale_run faulty_call fs_ks (\<lambda>_. 3) 1 demo_redis (0 + 2) s'"
    by (intro sale_run.submit [OF sale_run.start]) (auto simp: in_int64_def)
  then show ?thesis
    using no_oversell [OF faulty.redis_server_axioms _ demo_redis_ok demo_redis_at(1,2)]
    by force
qed

text \<open>
  A submission that arrives less than one second before the end of the sale (a lifetime
  below 1000 ms) leaks stock: the script deducts the stock, then the counter's SET fails with
  its lifetime of 0 s, and the caller gets an error although the stock stays deducted.
\<close>

theorem purchase_last_second_leaks:
  assumes "redis_server call kv" "shop_ok limit (kv s)" "0 < q" "in_int64 (limit p)" "x < 1000"
    and "int_at (kv s) (stock_key p) = Some st" "q \<le> st" "count_at (kv s) (user_key u p) + q \<le> limit p"
    and "DecrStockAndIncrPurchaseWithIdempotent call u p q (limit p) x [] s = (s', res)"
  shows "\<exists>e. res = Inl (Wrapf ''redis merged operation failed'' e) \<and>
    (e = RedisNetErr \<or> int_at (kv s') (stock_key p) = Some (st - q) \<and>
       count_at (kv s') (user_key u p) = count_at (kv s) (user_key u p))"
proof -
  have x: "\<not> 0 < Seconds x"
    using assms(5) by (simp add: Seconds_def sgn_if not_less pos_imp_zdiv_nonneg_iff)
  let ?f = "purchase_lua (stock_key p) (user_key u p) q (Seconds x) (limit p)"
  have f: "?f (kv s) = (add_at (kv s) (stock_key p) (- q), RErr RedisCmdErr)"
    using assms x by (simp add: purchase_lua_eval [OF shop_okD(1,2) [OF assms(2)] assms(3,4)
          shop_ok_stock [OF assms(2)]] Let_def)
  obtain r where r: "call s (EVAL ?f) = (s', r)" and res: "res = decode_purchase r"
    using assms(9) by (auto simp: client_op_defs purchase_idem_lua_def Let_def split: prod.splits)
  show ?thesis
    by (rule redis_server.eval_cases [OF assms(1) r])
      (use f res assms(2,6) in \<open>auto simp: decode_purchase_def redis_simps int_at_count shop_okD
         dest!: sym [of "add_at _ _ _"]\<close>)
qed

theorem purchase_last_second_leaks_witness:
  "\<exists>s'. DecrStockAndIncrPurchaseWithIdempotent faulty_call 7 1 2 3 999 [] demo_redis = (s', Inl
      (Wrapf ''redis merged operation failed'' RedisCmdErr)) \<and>
    int_at (fs_ks s') (stock_key 1) = Some 8"
proof -
  have "\<exists>s'. DecrStockAndIncrPurchaseWithIdempotent faulty_call 7 1 2 3 999 [] demo_redis = (s', Inl
      (Wrapf ''redis merged operation failed'' RedisCmdErr))"
    by (simp add: client_op_defs faulty_call_def demo_redis_def fresh_redis_def set_ttl_def put_ttl_def
      purchase_idem_lua_def purchase_lua_def lua_call_def lua_get_def lua_count_def lua_return_def
      decode_purchase_def Seconds_def redis_simps in_int64_def live_def empty_keyspace_def put_def)
  then obtain s' where run: "DecrStockAndIncrPurchaseWithIdempotent faulty_call 7 1 2 3 999 [] demo_redis
      = (s', Inl (Wrapf ''redis merged operation failed'' RedisCmdErr))" by blast
  with purchase_last_second_leaks [OF faulty.redis_server_axioms demo_redis_ok _ _ _ _ _ _ run, of 10]
  show ?thesis
    by (auto simp: in_int64_def demo_redis_at)
qed

end
