(* ===== verification/Redis_Tokens.thy ===== *)
theory Redis_Tokens
  imports Redis_Shop
begin

text \<open>
  What the remaining operations of \<^verbatim>\<open>redis/redis.go\<close> promise: path tokens and captchas
  are used at most once, a repeated idempotency key is refused while it lives, and the
  product cache returns what was stored.
\<close>

section \<open>One-shot values\<close>

text \<open>The string a key holds.\<close>

definition str_at :: "keyspace \<Rightarrow> key \<Rightarrow> string option" where
  "str_at ks k = (case live ks k of
      None \<Rightarrow> None
    | Some e \<Rightarrow> (case e_val e of RStr v \<Rightarrow> Some v | RHash _ \<Rightarrow> None))"

definition no_hash :: "keyspace \<Rightarrow> key \<Rightarrow> bool" where
  "no_hash ks k \<longleftrightarrow> (case live ks k of None \<Rightarrow> True | Some e \<Rightarrow> (case e_val e of RStr _ \<Rightarrow> True | RHash _ \<Rightarrow> False))"

lemma lua_get_str: "no_hash ks k \<Longrightarrow> lua_get k f ks = f (str_at ks k) ks"
  by (auto simp: lua_get_def lua_call_def no_hash_def str_at_def split: option.splits rdata.splits)

lemma str_at_put [redis_simps]:
  "k' \<noteq> k \<Longrightarrow> str_at (put ks k v x) k' = str_at ks k'"
  "str_at (put ks k (RStr s) None) k = Some s"
  "ks_clock ks < t \<Longrightarrow> str_at (put ks k (RStr s) (Some t)) k = Some s"
  "str_at (drop_key ks k) k' = (if k' = k then None else str_at ks k')"
  by (simp_all add: str_at_def live_put live_drop)

lemma no_hash_put [redis_simps]:
  "no_hash (put ks k v x) k' = (if k' = k then (case x of None \<Rightarrow> True | Some t \<Rightarrow> ks_clock ks < t) \<longrightarrow> (\<exists>s. v = RStr s) else no_hash ks k')"
  "no_hash (drop_key ks k) k' = (k' = k \<or> no_hash ks k')"
  by (auto simp: no_hash_def live_put live_drop split: option.splits rdata.splits)

lemma verify_path_eval:
  "no_hash ks k \<Longrightarrow> verify_path_lua k tok ks =
    (if str_at ks k = Some tok then (drop_key ks k, RInt 1) else (ks, RInt 0))"
  by (auto simp: verify_path_lua_def lua_get_str lua_return_def lua_call_def split: option.splits)

lemma verify_captcha_eval:
  "no_hash ks k \<Longrightarrow> verify_captcha_lua k a ks =
    (if \<exists>v. str_at ks k = Some v \<and> parse_int v = Some a then (drop_key ks k, RInt 1) else (ks, RInt 0))"
  by (auto simp: verify_captcha_lua_def lua_get_str lua_return_def lua_call_def split: option.splits)

text \<open>A list of verification attempts for one user and product; the number that succeeded.\<close>

fun path_attempts :: "'r redis \<Rightarrow> int \<Rightarrow> int \<Rightarrow> string list \<Rightarrow> 'r \<Rightarrow> 'r \<times> nat" where
  "path_attempts call u p [] s = (s, 0)"
| "path_attempts call u p (tok # toks) s =
     (case GetAndVerifySeckillPath call u p tok s of (s1, r) \<Rightarrow>
      (case path_attempts call u p toks s1 of (s2, n) \<Rightarrow>
        (s2, if r = Inr True then Suc n else n)))"

fun captcha_attempts :: "'r redis \<Rightarrow> string \<Rightarrow> int list \<Rightarrow> 'r \<Rightarrow> 'r \<times> nat" where
  "captcha_attempts call c [] s = (s, 0)"
| "captcha_attempts call c (a # as) s =
     (case GetAndVerifyCaptcha call c a s of (s1, r) \<Rightarrow>
      (case captcha_attempts call c as s1 of (s2, n) \<Rightarrow>
        (s2, if r = Inr True then Suc n else n)))"

context redis_server
begin

lemma path_cases:
  assumes "GetAndVerifySeckillPath call u p tok s = (s', res)" "no_hash (kv s) (path_key u p)"
  obtains (match) "res = Inr True" "str_at (kv s) (path_key u p) = Some tok"
      "kv s' = drop_key (kv s) (path_key u p)"
  | (no_match) "res = Inr False" "str_at (kv s) (path_key u p) \<noteq> Some tok" "kv s' = kv s"
  | (network) e where "res = Inl e"
      "kv s' = kv s \<or> str_at (kv s) (path_key u p) = Some tok \<and>
         kv s' = drop_key (kv s) (path_key u p)"
proof -
  obtain r where r: "call s (EVAL (verify_path_lua (path_key u p) tok)) = (s', r)"
    and res: "res = (case reply_Int r of
            Inl err \<Rightarrow> Inl (Wrapf ''path check failed'' err)
          | Inr result \<Rightarrow> Inr (result = 1))"
    using assms(1) by (auto simp: GetAndVerifySeckillPath_def split: prod.splits)
  show thesis
    using r by (rule eval_cases)
      (use assms(2) res in \<open>auto simp: verify_path_eval split: if_splits
         intro: match no_match network\<close>)
qed

lemma captcha_cases:
  assumes "GetAndVerifyCaptcha call c a s = (s', res)" "no_hash (kv s) (captcha_key c)"
  obtains (match) v where "res = Inr True" "str_at (kv s) (captcha_key c) = Some v" "parse_int v = Some a"
      "kv s' = drop_key (kv s) (captcha_key c)"
  | (no_match) "res = Inr False" "\<And>v. str_at (kv s) (captcha_key c) = Some v \<Longrightarrow> parse_int v \<noteq> Some a"
      "kv s' = kv s"
  | (network) e where "res = Inl e" "kv s' = kv s \<or> kv s' = drop_key (kv s) (captcha_key c)"
proof -
  obtain r where r: "call s (EVAL (verify_captcha_lua (captcha_key c) a)) = (s', r)"
    and res: "res = (case reply_Int r of
            Inl err \<Rightarrow> Inl (Wrapf ''captcha check failed'' err)
          | Inr result \<Rightarrow> Inr (result = 1))"
    using assms(1) by (auto simp: GetAndVerifyCaptcha_def split: prod.splits)
  show thesis
    using r by (rule eval_cases)
      (use assms(2) res in \<open>auto simp: verify_captcha_eval split: if_splits
         intro: match no_match network\<close>)
qed

lemma path_gone:
  assumes "path_attempts call u p toks s = (s', n)" "live (kv s) (path_key u p) = None"
  shows "n = 0"
  using assms
proof (induction toks arbitrary: s s' n)
  case (Cons tok toks)
  obtain s1 r s2 m where v: "GetAndVerifySeckillPath call u p tok s = (s1, r)"
    and rest: "path_attempts call u p toks s1 = (s2, m)"
    by (metis surj_pair)
  have h: "no_hash (kv s) (path_key u p)" "str_at (kv s) (path_key u p) = None"
    using Cons.prems(2) by (simp_all add: no_hash_def str_at_def)
  from v h(1) have "r \<noteq> Inr True \<and> live (kv s1) (path_key u p) = None"
    by (rule path_cases) (use h Cons.prems(2) in auto)
  with Cons.IH [OF rest] Cons.prems(1) v rest show ?case by simp
qed simp

lemma path_once:
  assumes "path_attempts call u p toks s = (s', n)" "no_hash (kv s) (path_key u p)"
  shows "n \<le> 1 \<and> (0 < n \<longrightarrow> (\<exists>tok \<in> set toks. str_at (kv s) (path_key u p) = Some tok))"
  using assms
proof (induction toks arbitrary: s s' n)
  case (Cons tok toks)
  obtain s1 r s2 m where v: "GetAndVerifySeckillPath call u p tok s = (s1, r)"
    and rest: "path_attempts call u p toks s1 = (s2, m)"
    by (metis surj_pair)
  have n: "n = (if r = Inr True then Suc m else m)"
    using Cons.prems(1) v rest by simp
  have gone: "m = 0" if "kv s1 = drop_key (kv s) (path_key u p)"
    using path_gone [OF rest] that by (simp add: live_drop)
  from v Cons.prems(2) show ?case
    by (rule path_cases) (use n gone Cons.IH [OF rest] Cons.prems(2) in auto)
qed simp

lemma captcha_gone:
  assumes "captcha_attempts call c as s = (s', n)" "live (kv s) (captcha_key c) = None"
  shows "n = 0"
  using assms
proof (induction as arbitrary: s s' n)
  case (Cons a as)
  obtain s1 r s2 m where v: "GetAndVerifyCaptcha call c a s = (s1, r)"
    and rest: "captcha_attempts call c as s1 = (s2, m)"
    by (metis surj_pair)
  have h: "no_hash (kv s) (captcha_key c)" "str_at (kv s) (captcha_key c) = None"
    using Cons.prems(2) by (simp_all add: no_hash_def str_at_def)
  from v h(1) have "r \<noteq> Inr True \<and> live (kv s1) (captcha_key c) = None"
    by (rule captcha_cases) (use h Cons.prems(2) in \<open>auto simp: live_drop\<close>)
  with Cons.IH [OF rest] Cons.prems(1) v rest show ?case by simp
qed simp

lemma captcha_once:
  assumes "captcha_attempts call c as s = (s', n)" "no_hash (kv s) (captcha_key c)"
  shows "n \<le> 1 \<and> (0 < n \<longrightarrow> (\<exists>a v. a \<in> set as \<and> str_at (kv s) (captcha_key c) = Some v \<and> parse_int v = Some a))"
  using assms
proof (induction as arbitrary: s s' n)
  case (Cons a as)
  obtain s1 r s2 m where v: "GetAndVerifyCaptcha call c a s = (s1, r)"
    and rest: "captcha_attempts call c as s1 = (s2, m)"
    by (metis surj_pair)
  have n: "n = (if r = Inr True then Suc m else m)"
    using Cons.prems(1) v rest by simp
  have gone: "m = 0" if "kv s1 = drop_key (kv s) (captcha_key c)"
    using captcha_gone [OF rest] that by (simp add: live_drop)
  from v Cons.prems(2) show ?case
    by (rule captcha_cases) (use n gone Cons.IH [OF rest] Cons.prems(2) in auto)
qed simp

end

section \<open>The product cache\<close>

lemma decode_encode_product:
  assumes "tf_parse tf (tf_format tf (pi_start_time p)) = Some (pi_start_time p)"
    "tf_parse tf (tf_format tf (pi_end_time p)) = Some (pi_end_time p)"
    "in_int64 (pi_limit_per_user p)" "in_int64 (pi_status p)"
  shows "decode_product tf (RVals (map (h ++ map_of (rev (encode_product tf p))) product_fields)) =
    Inr (p\<lparr>pi_seckill_price := of_int (cents (pi_seckill_price p)) / 100\<rparr>)"
  using assms by (simp add: decode_product_def encode_product_def product_fields_def parseFloat_def
      parseInt_def parseTime_def ignore_err_def map_add_def Sscanf_f_fmt_2f)

lemma hash_at_hmset:
  "hash_at ks k = Some h \<Longrightarrow>
    hash_at (fst (redis_exec ks (HMSET k fs))) k = Some (h ++ map_of (rev fs))"
  by (auto simp: hash_at_def live_put dest: live_exp split: option.splits)

context redis_server
begin

lemma call_answered:
  "call s c = (s', r) \<Longrightarrow> reply_Err r = Inr v \<Longrightarrow> redis_exec (kv s) c = (kv s', r)"
  by (erule outcome_cases) auto

lemma cache_get:
  assumes "GetProductCache call tf p s = (s', Inr info)"
  obtains h where "hash_at (kv s) (product_key p) = Some h"
    "decode_product tf (RVals (map h product_fields)) = Inr info" "kv s' = kv s"
proof -
  obtain r where r: "call s (HMGET (product_key p) product_fields) = (s', r)"
    and info: "decode_product tf r = Inr info"
    using assms by (auto simp: GetProductCache_def split: prod.splits)
  from r show thesis
    by (rule outcome_cases)
      (use info that in \<open>auto simp: decode_product_def split: option.splits\<close>)
qed

lemma cache_set:
  assumes "SetProductCache call tf p info ttl s = (s', Inr v)"
  obtains h where "hash_at (kv s') (product_key p) = Some (h ++ map_of (rev (encode_product tf info)))"
proof -
  obtain r where r: "call s (HMSET (product_key p) (encode_product tf info)) = (s', r)"
    and v: "reply_Err r = Inr v"
    using assms by (auto simp: SetProductCache_def split: prod.splits)
  have exec: "redis_exec (kv s) (HMSET (product_key p) (encode_product tf info)) = (kv s', r)"
    by (rule call_answered [OF r v])
  then obtain h where "hash_at (kv s) (product_key p) = Some h"
    using v by (auto split: option.splits)
  from hash_at_hmset [OF this, of "encode_product tf info"] that show thesis
    unfolding exec by simp
qed

end


section \<open>Idempotency keys\<close>

lemma purchase_lua_idem_key:
  assumes ok: "shop_ok limit ks" and q: "0 < q" "in_int64 (limit p)"
  shows "live (fst (purchase_lua (stock_key p) (user_key u p) q x (limit p) ks)) (idem_key v p' k) =
      live ks (idem_key v p' k)"
    "ks_clock (fst (purchase_lua (stock_key p) (user_key u p) q x (limit p) ks)) = ks_clock ks"
  by (auto simp: purchase_lua_eval [OF shop_okD(1,2) [OF ok] q shop_ok_stock [OF ok]]
      Let_def live_put live_add_at redis_simps split: option.splits)

lemma purchase_sets_idem_key:
  fixes x :: int
  assumes ok: "shop_ok limit ks" and q: "0 < q" "in_int64 (limit p)"
    and k: "k \<noteq> []" "live ks (idem_key u p k) = None"
  defines "ks' \<equiv> fst (purchase_idem_lua (stock_key p) (user_key u p)
      (if k \<noteq> [] then idem_key u p k else []) q x (limit p) 5 ks)"
  shows "live ks' (idem_key u p k) = Some \<lparr>e_val = RStr ''1'', e_exp = Some (ks_clock ks + 5000)\<rparr>"
    "ks_clock ks' = ks_clock ks"
proof -
  have ok1: "shop_ok limit (put ks (idem_key u p k) (RStr ''1'') (Some (ks_clock ks + 5000)))"
    by (rule same_shop_ok [OF same_shop_put ok]) simp
  show "live ks' (idem_key u p k) = Some \<lparr>e_val = RStr ''1'', e_exp = Some (ks_clock ks + 5000)\<rparr>"
    and "ks_clock ks' = ks_clock ks"
    using k purchase_lua_idem_key [OF ok1 q]
    by (simp_all add: ks'_def purchase_idem_lua_def lua_call_def put_ttl_def live_put ks_clock_put)
qed

context redis_server
begin

lemma first_submission:
  assumes ok: "shop_ok limit (kv s)" and q: "0 < q" "in_int64 (limit p)"
    and k: "k \<noteq> []" "live (kv s) (idem_key u p k) = None"
    and run: "DecrStockAndIncrPurchaseWithIdempotent call u p q (limit p) x k s = (s', Inr abc)"
  shows "live (kv s') (idem_key u p k) = Some \<lparr>e_val = RStr ''1'', e_exp = Some (ks_clock (kv s) + 5000)\<rparr>
    \<and> ks_clock (kv s') = ks_clock (kv s)"
proof -
  let ?f = "purchase_idem_lua (stock_key p) (user_key u p)
    (if k \<noteq> [] then idem_key u p k else []) q (Seconds x) (limit p) 5"
  obtain r where r: "call s (EVAL ?f) = (s', r)" and res: "Inr abc = decode_purchase r"
    using run by (auto simp: client_op_defs Let_def split: prod.splits)
  from r have "kv s' = fst (?f (kv s))"
    by (rule eval_cases) (use res in \<open>auto simp: decode_purchase_def\<close>)
  then show ?thesis
    using purchase_sets_idem_key [OF ok q k, of "Seconds x"] by simp
qed

end

section \<open>Properties\<close>

text \<open>
  C32. A path token is accepted at most once: after a successful \<open>SetSeckillPath\<close>, any list of
  verification attempts, with replies lost or not, is accepted at most once, and only when it
  presents the stored token.
\<close>

theorem path_token_one_shot:
  assumes "redis_server call kv" "0 < ttl" "SetSeckillPath call u p tok ttl s0 = (s, Inr v)"
    and "path_attempts call u p toks s = (s', n)"
  shows "n \<le> 1 \<and> (0 < n \<longrightarrow> tok \<in> set toks)"
proof -
  obtain r where r: "call s0 (SET (path_key u p) tok (Some ttl)) = (s, r)" "reply_Err r = Inr v"
    using assms(2,3) by (auto simp: SetSeckillPath_def set_ttl_def split: prod.splits)
  from redis_server.call_answered [OF assms(1) r] assms(2)
  have ks: "kv s = put (kv s0) (path_key u p) (RStr tok) (Some (ks_clock (kv s0) + ttl))"
    by (simp add: put_ttl_def)
  have "no_hash (kv s) (path_key u p)" "str_at (kv s) (path_key u p) = Some tok"
    using assms(2) by (simp_all add: ks redis_simps)
  with redis_server.path_once [OF assms(1,4)] show ?thesis by auto
qed

theorem path_token_one_shot_witness:
  "snd (path_attempts faulty_call 7 1 [''a'', ''tok'', ''tok'']
      (fst (SetSeckillPath faulty_call 7 1 ''tok'' 60000 fresh_redis))) \<le> 1"
proof -
  have "SetSeckillPath faulty_call 7 1 ''tok'' 60000 fresh_redis =
      (fst (SetSeckillPath faulty_call 7 1 ''tok'' 60000 fresh_redis), Inr ())"
    by (simp add: SetSeckillPath_def faulty_call_def fresh_redis_def set_ttl_def put_ttl_def)
  from path_token_one_shot [OF faulty.redis_server_axioms _ this prod.collapse [symmetric]]
  show ?thesis by (simp del: path_attempts.simps captcha_attempts.simps)
qed

text \<open>
  A captcha is accepted at most once: after \<open>SetCaptcha\<close> stored the answer, any list of
  answers, with replies lost or not, is accepted at most once and only for the right answer.
\<close>

theorem captcha_one_shot:
  assumes "redis_server call kv" "0 < ttl" "SetCaptcha call c answer ttl s0 = (s, Inr v)"
    and "captcha_attempts call c answers s = (s', n)"
  shows "n \<le> 1 \<and> (0 < n \<longrightarrow> answer \<in> set answers)"
proof -
  obtain r where r: "call s0 (SET (captcha_key c) (fmt_d answer) (Some ttl)) = (s, r)" "reply_Err r = Inr v"
    using assms(2,3) by (auto simp: SetCaptcha_def set_ttl_def split: prod.splits)
  from redis_server.call_answered [OF assms(1) r] assms(2)
  have ks: "kv s = put (kv s0) (captcha_key c) (RStr (fmt_d answer)) (Some (ks_clock (kv s0) + ttl))"
    by (simp add: put_ttl_def)
  have "no_hash (kv s) (captcha_key c)" "str_at (kv s) (captcha_key c) = Some (fmt_d answer)"
    using assms(2) by (simp_all add: ks redis_simps)
  with redis_server.captcha_once [OF assms(1,4)] show ?thesis by auto
qed

theorem captcha_one_shot_witness:
  "snd (captcha_attempts faulty_call ''id'' [4, 7, 7]
      (fst (SetCaptcha faulty_call ''id'' 7 60000 fresh_redis))) \<le> 1"
proof -
  have "SetCaptcha faulty_call ''id'' 7 60000 fresh_redis =
      (fst (SetCaptcha faulty_call ''id'' 7 60000 fresh_redis), Inr ())"
    by (simp add: SetCaptcha_def faulty_call_def fresh_redis_def set_ttl_def put_ttl_def)
  from captcha_one_shot [OF faulty.redis_server_axioms _ this prod.collapse [symmetric]]
  show ?thesis by (simp del: path_attempts.simps captcha_attempts.simps)
qed



text \<open>
  The product cache returns what was stored: after a \<open>SetProductCache\<close> that was answered,
  a \<open>GetProductCache\<close> that succeeds yields the same fields, the price to two decimals, for any
  limit and status a Go int holds and any times the RFC3339 layout reads back. The entry has no lifetime, whatever \<open>ttl\<close> is passed.
\<close>

theorem product_cache_roundtrip:
  assumes "redis_server call kv"
    and "tf_parse tf (tf_format tf (pi_start_time info)) = Some (pi_start_time info)"
    and "tf_parse tf (tf_format tf (pi_end_time info)) = Some (pi_end_time info)"
    and "in_int64 (pi_limit_per_user info)" "in_int64 (pi_status info)"
    and "SetProductCache call tf p info ttl s = (s1, Inr v)"
    and "GetProductCache call tf p s1 = (s2, Inr info')"
  shows "info' = info\<lparr>pi_seckill_price := of_int (cents (pi_seckill_price info)) / 100\<rparr>"
proof -
  obtain h where h: "hash_at (kv s1) (product_key p) = Some (h ++ map_of (rev (encode_product tf info)))"
    by (rule redis_server.cache_set [OF assms(1,6)])
  from redis_server.cache_get [OF assms(1,7)] show ?thesis
    using h decode_encode_product [OF assms(2-5), of h] by (metis option.inject sum.inject(2))
qed

definition demo_layout :: time_format where
  "demo_layout = \<lparr>tf_format = fmt_d, tf_parse = parse_int\<rparr>"

definition demo_info :: product_info where
  "demo_info = \<lparr>pi_name = ''phone'', pi_seckill_price = 1999 / 100, pi_limit_per_user = 3,
     pi_status = 1, pi_start_time = 1000, pi_end_time = 90000\<rparr>"

theorem product_cache_roundtrip_witness:
  "\<exists>s1 s2 info. SetProductCache faulty_call demo_layout 1 demo_info 60000 fresh_redis = (s1, Inr ()) \<and>
     GetProductCache faulty_call demo_layout 1 s1 = (s2, Inr info) \<and> pi_seckill_price info = 1999 / 100"
proof -
  obtain s1 where s1: "SetProductCache faulty_call demo_layout 1 demo_info 60000 fresh_redis = (s1, Inr ())"
    by (simp add: SetProductCache_def faulty_call_def fresh_redis_def hash_at_def empty_keyspace_def live_def)
  have h: "hash_at (fs_ks s1) (product_key 1) = Some (map_of (rev (encode_product demo_layout demo_info)))"
    "fs_faults s1 = []"
    using s1 by (auto simp: SetProductCache_def faulty_call_def fresh_redis_def hash_at_def
        empty_keyspace_def live_def put_def)
  obtain s2 info where s2: "GetProductCache faulty_call demo_layout 1 s1 = (s2, Inr info)"
    using h decode_encode_product [of demo_layout demo_info Map.empty]
    by (auto simp: GetProductCache_def faulty_call_def demo_layout_def demo_info_def in_int64_def)
  from product_cache_roundtrip [OF faulty.redis_server_axioms _ _ _ _ s1 s2] s1 s2 show ?thesis
    by (auto simp: demo_layout_def demo_info_def cents_def in_int64_def)
qed

end
