(* ===== verification/Dist_Lock.thy ===== *)
theory Dist_Lock
  imports Redis_Tokens
begin

text \<open>
  The distributed locks: \<^verbatim>\<open>redis/lock.go\<close> (a token per owner, compare-and-delete release,
  compare-and-renew) and \<^verbatim>\<open>AcquireLockWithRenewal\<close> of \<^verbatim>\<open>redis/redis.go\<close> (a constant value,
  unconditional release and renewal).
\<close>

section \<open>The lock of lock.go\<close>

record dist_lock =
  dl_key :: key
  dl_value :: string
  dl_expire :: int

definition NewDistLock :: "string \<Rightarrow> int \<Rightarrow> int \<Rightarrow> dist_lock" where
  "NewDistLock k nowUnixNano expire =
     \<lparr>dl_key = ''lock:'' @ k, dl_value = fmt_d nowUnixNano, dl_expire = expire\<rparr>"

text \<open>One attempt of the loop of \<open>Lock\<close>.\<close>

definition lock_attempt :: "'r redis \<Rightarrow> dist_lock \<Rightarrow> 'r \<Rightarrow> 'r \<times> bool result" where
  "lock_attempt call l s =
     (case call s (SETNX (dl_key l) (dl_value l) (setnx_ttl (dl_expire l))) of
        (s', r) \<Rightarrow> (s', reply_Bool r))"

text \<open>
  The loop of \<open>Lock\<close>: \<open>now i\<close> is the clock read after attempt \<open>i\<close>, \<open>env i\<close> what other clients
  and the passing of time do to the server while the loop sleeps. \<open>None\<close> is out of fuel.
\<close>

fun lock_loop ::
  "nat \<Rightarrow> 'r redis \<Rightarrow> dist_lock \<Rightarrow> int \<Rightarrow> (nat \<Rightarrow> int) \<Rightarrow> (nat \<Rightarrow> 'r \<Rightarrow> 'r) \<Rightarrow> nat \<Rightarrow> 'r
     \<Rightarrow> ('r \<times> unit result) option" where
  "lock_loop 0 call l deadline now env i s = None"
| "lock_loop (Suc fuel) call l deadline now env i s = (case lock_attempt call l s of (s1, res) \<Rightarrow>
     (case res of
        Inl err \<Rightarrow> Some (s1, Inl (Wrapf ''lock failed'' err))
      | Inr ok \<Rightarrow>
          if ok then Some (s1, Inr ())
          else if deadline < now i then Some (s1, Inl (Errf ''lock timeout''))
          else lock_loop fuel call l deadline now env (Suc i) (env i s1)))"

definition Lock ::
  "nat \<Rightarrow> 'r redis \<Rightarrow> dist_lock \<Rightarrow> int \<Rightarrow> int \<Rightarrow> (nat \<Rightarrow> int) \<Rightarrow> (nat \<Rightarrow> 'r \<Rightarrow> 'r) \<Rightarrow> 'r
     \<Rightarrow> ('r \<times> unit result) option" where
  "Lock fuel call l start timeout now env s =
     (let deadline = start + timeout in lock_loop fuel call l deadline now env 0 s)"

definition unlock_lua :: "key \<Rightarrow> string \<Rightarrow> script" where
  "unlock_lua k v = lua_get k (\<lambda>cur.
     if cur = Some v then lua_call (DEL k) (\<lambda>r. lua_return r) else lua_return (RInt 0))"

definition Unlock :: "'r redis \<Rightarrow> dist_lock \<Rightarrow> 'r \<Rightarrow> 'r \<times> unit result" where
  "Unlock call l s =
     (case call s (EVAL (unlock_lua (dl_key l) (dl_value l))) of (s', r) \<Rightarrow>
        (s', case reply_Int r of
            Inl err \<Rightarrow> Inl (Wrapf ''unlock failed'' err)
          | Inr result \<Rightarrow> if result = 0 then Inl (Errf ''lock released or expired'') else Inr ()))"

definition renew_lua :: "key \<Rightarrow> string \<Rightarrow> int \<Rightarrow> script" where
  "renew_lua k v sec = lua_get k (\<lambda>cur.
     if cur = Some v then lua_call (EXPIRE k (1000 * sec)) (\<lambda>r. lua_return r)
     else lua_return (RInt 0))"

text \<open>One tick of \<open>renewLoop\<close>; the loop itself only repeats it until it is cancelled.\<close>

definition renew_tick :: "'r redis \<Rightarrow> dist_lock \<Rightarrow> 'r \<Rightarrow> 'r \<times> reply" where
  "renew_tick call l s =
     call s (EVAL (renew_lua (dl_key l) (dl_value l) (Seconds (dl_expire l))))"

section \<open>The lock with renewal of redis.go\<close>

text \<open>go-redis sends EXPIRE in whole seconds, and at least one.\<close>

definition formatSec :: "int \<Rightarrow> int" where
  "formatSec d = (if 0 < d \<and> d < 1000 then 1 else Seconds d)"

definition acquire_setnx :: "'r redis \<Rightarrow> key \<Rightarrow> int \<Rightarrow> 'r \<Rightarrow> 'r \<times> bool result" where
  "acquire_setnx call lockKey lockTimeout s =
     (case call s (SETNX lockKey ''1'' (setnx_ttl lockTimeout)) of (s', r) \<Rightarrow> (s', reply_Bool r))"

text \<open>The events the renewal goroutine waits for; it ends with the first \<open>Stop\<close>.\<close>

datatype renew_event = Stop | Tick

fun renewal_goroutine :: "'r redis \<Rightarrow> key \<Rightarrow> int \<Rightarrow> renew_event list \<Rightarrow> 'r \<Rightarrow> 'r" where
  "renewal_goroutine call lockKey lockTimeout [] s = s"
| "renewal_goroutine call lockKey lockTimeout (Stop # es) s = fst (call s (DEL lockKey))"
| "renewal_goroutine call lockKey lockTimeout (Tick # es) s =
     renewal_goroutine call lockKey lockTimeout es
       (fst (call s (EXPIRE lockKey (1000 * formatSec lockTimeout))))"

definition AcquireLockWithRenewal ::
  "'r redis \<Rightarrow> key \<Rightarrow> int \<Rightarrow> renew_event list \<Rightarrow> 'r \<Rightarrow> 'r \<times> bool result" where
  "AcquireLockWithRenewal call lockKey lockTimeout events s =
     (case acquire_setnx call lockKey lockTimeout s of (s1, res) \<Rightarrow>
        (if res = Inr True
         then (renewal_goroutine call lockKey lockTimeout events s1, Inr True)
         else (s1, res)))"

section \<open>Mutual exclusion\<close>

text \<open>The lock entry of \<open>l\<close> is in place until time \<open>x\<close> at least.\<close>

definition held_until :: "keyspace \<Rightarrow> dist_lock \<Rightarrow> int \<Rightarrow> bool" where
  "held_until ks l x \<longleftrightarrow> (\<exists>z. ks_data ks (dl_key l) = Some \<lparr>e_val = RStr (dl_value l), e_exp = Some z\<rparr> \<and> x \<le> z)"

lemma held_live:
  "held_until ks l x \<Longrightarrow> ks_clock ks < x \<Longrightarrow>
    \<exists>z. live ks (dl_key l) = Some \<lparr>e_val = RStr (dl_value l), e_exp = Some z\<rparr> \<and> x \<le> z"
  by (auto simp: held_until_def live_def)

text \<open>
  Runs in which \<open>l\<close> holds the lock: other owners (another value or another key) try to lock,
  unlock and renew, the owner's renewal ticks, time passes. \<open>x\<close> is the time until which the
  owner may rely on the lock: the acquisition plus the lifetime, moved forward by each renewal
  that was answered.
\<close>

definition other_owner :: "dist_lock \<Rightarrow> dist_lock \<Rightarrow> bool" where
  "other_owner l l' \<longleftrightarrow> dl_key l' \<noteq> dl_key l \<or> dl_value l' \<noteq> dl_value l"

inductive lock_run :: "'r redis \<Rightarrow> ('r \<Rightarrow> keyspace) \<Rightarrow> dist_lock \<Rightarrow> int \<Rightarrow> 'r \<Rightarrow> bool"
  for call kv l where
  acquired: "lock_attempt call l s = (s', Inr True) \<Longrightarrow> 0 < dl_expire l \<Longrightarrow>
    lock_run call kv l (ks_clock (kv s') + dl_expire l) s'"
| other_lock: "lock_run call kv l x s \<Longrightarrow> ks_clock (kv s) < x \<Longrightarrow>
    lock_attempt call l' s = (s', ok) \<Longrightarrow> lock_run call kv l x s'"
| other_unlock: "lock_run call kv l x s \<Longrightarrow> ks_clock (kv s) < x \<Longrightarrow> other_owner l l' \<Longrightarrow>
    Unlock call l' s = (s', r) \<Longrightarrow> lock_run call kv l x s'"
| other_renew: "lock_run call kv l x s \<Longrightarrow> ks_clock (kv s) < x \<Longrightarrow> other_owner l l' \<Longrightarrow>
    renew_tick call l' s = (s', rep) \<Longrightarrow> lock_run call kv l x s'"
| renewed: "lock_run call kv l x s \<Longrightarrow> ks_clock (kv s) < x \<Longrightarrow> 1000 \<le> dl_expire l \<Longrightarrow>
    renew_tick call l s = (s', rep) \<Longrightarrow>
    y = (if rep = RInt 1 then ks_clock (kv s) + 1000 * Seconds (dl_expire l)
         else min x (ks_clock (kv s) + 1000 * Seconds (dl_expire l))) \<Longrightarrow>
    lock_run call kv l y s'"
| wait: "lock_run call kv l x s \<Longrightarrow> kv s' = tick d (kv s) \<Longrightarrow> 0 \<le> d \<Longrightarrow> lock_run call kv l x s'"

lemma held_put_other:
  "k \<noteq> dl_key l \<Longrightarrow> held_until (put ks k v t) l x = held_until ks l x"
  "k \<noteq> dl_key l \<Longrightarrow> held_until (drop_key ks k) l x = held_until ks l x"
  by (simp_all add: held_until_def put_def drop_key_def)

lemma held_setnx:
  assumes "held_until ks l x" "ks_clock ks < x"
  shows "held_until (fst (redis_exec ks (SETNX k v ttl))) l x"
  using assms held_live [OF assms]
  by (cases "k = dl_key l") (auto simp: held_put_other put_ttl_def split: option.splits)

lemma unlock_eval:
  "no_hash ks k \<Longrightarrow> fst (unlock_lua k v ks) = (if str_at ks k = Some v then drop_key ks k else ks)"
  by (simp add: unlock_lua_def lua_get_str lua_call_def lua_return_def)

lemma unlock_hash: "\<not> no_hash ks k \<Longrightarrow> fst (unlock_lua k v ks) = ks"
  by (auto simp: unlock_lua_def lua_get_def lua_call_def no_hash_def split: option.splits rdata.splits)

lemma renew_eval:
  "no_hash ks k \<Longrightarrow> renew_lua k v n ks =
    (if str_at ks k = Some v then redis_exec ks (EXPIRE k (1000 * n)) else (ks, RInt 0))"
  by (auto simp: renew_lua_def lua_get_str lua_call_def lua_return_def str_at_def
      split: option.splits rdata.splits)

lemma renew_hash: "\<not> no_hash ks k \<Longrightarrow> fst (renew_lua k v n ks) = ks"
  by (auto simp: renew_lua_def lua_get_def lua_call_def no_hash_def split: option.splits rdata.splits)

lemma held_str:
  assumes "held_until ks l x" "ks_clock ks < x"
  shows "no_hash ks (dl_key l)" "str_at ks (dl_key l) = Some (dl_value l)"
  using held_live [OF assms] by (auto simp: no_hash_def str_at_def)

lemma held_other_unlock:
  assumes "held_until ks l x" "ks_clock ks < x" "other_owner l l'"
  shows "held_until (fst (unlock_lua (dl_key l') (dl_value l') ks)) l x"
  using assms held_str [OF assms(1,2)]
  by (cases "dl_key l' = dl_key l"; cases "no_hash ks (dl_key l')")
    (auto simp: unlock_eval unlock_hash held_put_other other_owner_def)

lemma held_other_renew:
  assumes "held_until ks l x" "ks_clock ks < x" "other_owner l l'"
  shows "held_until (fst (renew_lua (dl_key l') (dl_value l') n ks)) l x"
  using assms held_str [OF assms(1,2)]
  by (cases "dl_key l' = dl_key l"; cases "no_hash ks (dl_key l')")
    (auto simp: renew_eval renew_hash held_put_other other_owner_def split: option.splits)

lemma held_renew:
  assumes "held_until ks l x" "ks_clock ks < x" "0 < n"
  shows "held_until (fst (renew_lua (dl_key l) (dl_value l) n ks)) l (ks_clock ks + 1000 * n)"
    "snd (renew_lua (dl_key l) (dl_value l) n ks) = RInt 1"
  using assms held_live [OF assms(1,2)] held_str [OF assms(1,2)]
  by (auto simp: renew_eval held_until_def put_def)

lemma held_mono: "held_until ks l x \<Longrightarrow> y \<le> x \<Longrightarrow> held_until ks l y"
  by (auto simp: held_until_def intro: order_trans)

context redis_server
begin

lemmas held_call_keeps = call_keeps [where I = "\<lambda>ks. held_until ks l x" for l x]

lemma lock_attempt_keeps:
  assumes "lock_attempt call l' s = (s', r)" "held_until (kv s) l x" "ks_clock (kv s) < x"
  shows "held_until (kv s') l x"
  using assms held_setnx [OF assms(2,3)]
  by (auto simp: lock_attempt_def split: prod.splits elim!: held_call_keeps)

lemma lock_acquired:
  assumes "lock_attempt call l s = (s', Inr True)" "0 < dl_expire l"
  shows "held_until (kv s') l (ks_clock (kv s') + dl_expire l)"
proof -
  obtain r where r: "call s (SETNX (dl_key l) (dl_value l) (Some (dl_expire l))) = (s', r)"
    and ok: "reply_Bool r = Inr True"
    using assms by (auto simp: lock_attempt_def setnx_ttl_def split: prod.splits)
  from r have "redis_exec (kv s) (SETNX (dl_key l) (dl_value l) (Some (dl_expire l))) = (kv s', r)"
    by (rule outcome_cases) (use ok in \<open>auto simp: reply_Bool_def\<close>)
  then have "kv s' = put (kv s) (dl_key l) (RStr (dl_value l)) (Some (ks_clock (kv s) + dl_expire l))"
    using ok assms(2) by (auto simp: put_ttl_def reply_Bool_def split: option.splits)
  then show ?thesis by (simp add: held_until_def put_def)
qed

lemma lock_run_held:
  assumes "lock_run call kv l x s"
  shows "held_until (kv s) l x"
  using assms
proof induction
  case (acquired s s')
  then show ?case by (rule lock_acquired)
next
  case (other_lock x s l' s' ok)
  from other_lock.hyps(3) other_lock.IH other_lock.hyps(2) show ?case
    by (rule lock_attempt_keeps)
next
  case (other_unlock x s l' s' r)
  then obtain r0 where "call s (EVAL (unlock_lua (dl_key l') (dl_value l'))) = (s', r0)"
    by (auto simp: Unlock_def split: prod.splits)
  then show ?case
    by (rule held_call_keeps) (use other_unlock held_other_unlock in auto)
next
  case (other_renew x s l' s' rep)
  from other_renew.hyps(4) [unfolded renew_tick_def] show ?case
    by (rule held_call_keeps) (use other_renew held_other_renew in auto)
next
  case (renewed x s s' rep y)
  have n: "0 < Seconds (dl_expire l)"
    using renewed by (simp add: Seconds_def)
  note h = held_renew [OF renewed.IH renewed.hyps(2) n]
  from renewed.hyps(4) [unfolded renew_tick_def] show ?case
    by (rule eval_cases)
      (use renewed.hyps(5) renewed.IH h in \<open>auto intro: held_mono split: if_splits\<close>)
next
  case (wait x s s' d)
  then show ?case by (auto simp: held_until_def tick_def)
qed

end


text \<open>Termination: each round sleeps, so the clock readings pass the deadline.\<close>

lemma lock_loop_enough:
  assumes "deadline < now (i + k)" "k < fuel"
  shows "\<exists>out. lock_loop fuel call l deadline now env i s = Some out"
  using assms
proof (induction fuel arbitrary: i k s)
  case (Suc fuel)
  show ?case
  proof (cases k)
    case 0
    with Suc.prems show ?thesis by (simp split: prod.splits sum.splits)
  next
    case (Suc k')
    with Suc.prems Suc.IH [of "Suc i" k'] show ?thesis
      by (auto split: prod.splits sum.splits)
  qed
qed simp

section \<open>Properties\<close>

definition demo_lock :: "int \<Rightarrow> dist_lock" where
  "demo_lock t = NewDistLock ''job'' t 3000"

lemma demo_lock_acquired:
  "lock_attempt faulty_call (demo_lock 1) fresh_redis =
    (\<lparr>fs_ks = put empty_keyspace ''lock:job'' (RStr (fmt_d 1)) (Some 3000), fs_faults = []\<rparr>, Inr True)"
  by (simp add: lock_attempt_def faulty_call_def fresh_redis_def demo_lock_def NewDistLock_def
      setnx_ttl_def live_def empty_keyspace_def put_ttl_def reply_Bool_def)

text \<open>
  C20. Mutual exclusion: while the owner's lifetime, counted from the acquisition or the last
  answered renewal, has not run out, the key holds the owner's token and no other attempt to
  take the lock succeeds, whatever other owners lock, unlock and renew and whatever requests
  and replies are lost.
\<close>

theorem lock_mutual_exclusion:
  assumes "redis_server call kv" "lock_run call kv l x s" "ks_clock (kv s) < x"
    and "dl_key l' = dl_key l" "lock_attempt call l' s = (s', res)"
  shows "res \<noteq> Inr True \<and> str_at (kv s) (dl_key l) = Some (dl_value l)"
proof -
  have held: "held_until (kv s) l x"
    by (rule redis_server.lock_run_held [OF assms(1,2)])
  obtain r where r: "call s (SETNX (dl_key l) (dl_value l') (setnx_ttl (dl_expire l'))) = (s', r)"
    and res: "res = reply_Bool r"
    using assms(4,5) by (auto simp: lock_attempt_def split: prod.splits)
  have "res \<noteq> Inr True"
    by (rule redis_server.outcome_cases [OF assms(1) r])
      (use res held_live [OF held assms(3)] in
        \<open>auto simp: reply_Bool_def setnx_ttl_def split: if_splits option.splits\<close>)
  with held_str [OF held assms(3)] show ?thesis by simp
qed

theorem lock_mutual_exclusion_witness:
  "\<exists>s. lock_attempt faulty_call (demo_lock 1) fresh_redis = (s, Inr True) \<and>
     snd (lock_attempt faulty_call (demo_lock 2) s) \<noteq> Inr True"
proof -
  let ?s = "fst (lock_attempt faulty_call (demo_lock 1) fresh_redis)"
  have run: "lock_run faulty_call fs_ks (demo_lock 1) (ks_clock (fs_ks ?s) + 3000) ?s"
    using lock_run.acquired [OF demo_lock_acquired, of fs_ks]
    by (simp add: demo_lock_acquired) (simp add: demo_lock_def NewDistLock_def)
  have "snd (lock_attempt faulty_call (demo_lock 2) ?s) \<noteq> Inr True"
    using lock_mutual_exclusion [OF faulty.redis_server_axioms run _ _ prod.collapse [symmetric],
        of "demo_lock 2"]
    by (simp add: demo_lock_def NewDistLock_def)
  then show ?thesis
    using demo_lock_acquired by auto
qed

text \<open>
  C33. \<open>Lock\<close> returns: when the clock read after each attempt has advanced by the pause of
  10 ms, the loop gives its answer (the lock, an error or the timeout) within
  timeout / 10 + 2 rounds, whatever the server and the other clients do.
\<close>

theorem lock_terminates:
  assumes "\<And>i. start + 10 * int i \<le> now i" "0 \<le> timeout" "nat (timeout div 10) + 1 < fuel"
  shows "\<exists>out. Lock fuel call l start timeout now env s = Some out"
proof -
  have "start + timeout < now (0 + (nat (timeout div 10) + 1))"
    using assms(1) [of "nat (timeout div 10) + 1"] assms(2)
    by (simp add: pos_imp_zdiv_nonneg_iff split: if_splits)
  then show ?thesis
    unfolding Lock_def Let_def by (rule lock_loop_enough) (use assms(3) in simp)
qed

theorem lock_terminates_witness:
  "\<exists>out. Lock 12 faulty_call (demo_lock 1) 0 100 (\<lambda>i. 10 * int i) (\<lambda>_ s. s)
     (fresh_redis\<lparr>fs_faults := [LostReply]\<rparr>) = Some out"
  by (rule lock_terminates) simp_all

text \<open>
  A lock whose lifetime is below one second is destroyed by its own renewal: the script's
  EXPIRE gets 0 whole seconds, which deletes the key, and the next attempt of another owner
  succeeds while the first owner still works under the lock.
\<close>

theorem short_lock_lost_by_renewal:
  assumes "redis_server call kv" "held_until (kv s) l x" "ks_clock (kv s) < x"
    and "0 \<le> dl_expire l" "dl_expire l < 1000" "renew_tick call l s = (s', RInt n)"
  shows "live (kv s') (dl_key l) = None"
proof -
  have "Seconds (dl_expire l) = 0"
    using assms(4,5) by (simp add: Seconds_def)
  then have "renew_lua (dl_key l) (dl_value l) (Seconds (dl_expire l)) (kv s) =
      (drop_key (kv s) (dl_key l), RInt 1)"
    using held_str [OF assms(2,3)] held_live [OF assms(2,3)] by (auto simp: renew_eval)
  then have "kv s' = drop_key (kv s) (dl_key l)"
    by - (rule redis_server.eval_cases [OF assms(1) assms(6) [unfolded renew_tick_def]], simp_all)
  then show ?thesis by (simp add: live_drop)
qed

theorem short_lock_lost_by_renewal_witness:
  "\<exists>s'. renew_tick faulty_call \<lparr>dl_key = ''lock:job'', dl_value = ''1'', dl_expire = 900\<rparr>
       \<lparr>fs_ks = put empty_keyspace ''lock:job'' (RStr ''1'') (Some 900), fs_faults = []\<rparr> = (s', RInt 1) \<and>
     live (fs_ks s') ''lock:job'' = None"
proof -
  let ?l = "\<lparr>dl_key = ''lock:job'', dl_value = ''1'', dl_expire = 900\<rparr> :: dist_lock"
  let ?s = "\<lparr>fs_ks = put empty_keyspace ''lock:job'' (RStr ''1'') (Some 900), fs_faults = []\<rparr>"
  have held: "held_until (fs_ks ?s) ?l 900" "ks_clock (fs_ks ?s) < 900"
    by (simp_all add: held_until_def put_def empty_keyspace_def)
  obtain s' where s': "renew_tick faulty_call ?l ?s = (s', RInt 1)"
    using held_str [OF held] held_live [OF held]
    by (auto simp: renew_tick_def faulty_call_def renew_eval Seconds_def)
  with short_lock_lost_by_renewal [OF faulty.redis_server_axioms held _ _ s'] show ?thesis
    by auto
qed

text \<open>
  The lock of \<open>AcquireLockWithRenewal\<close> has no owner token: when the first owner's goroutine
  gets its stop signal after its lifetime ran out and a second client took the lock, it deletes
  the second client's lock.
\<close>

theorem release_drops_foreign_lock:
  assumes "redis_server call kv" "live (kv s) k = None" "0 < y"
    and "acquire_setnx call k y s = (s1, Inr True)"
    and "call s1 (DEL k) = (s2, RInt n)"
  shows "live (kv s1) k \<noteq> None \<and> renewal_goroutine call k x [Stop] s1 = s2 \<and> live (kv s2) k = None"
proof -
  obtain r where r: "call s (SETNX k ''1'' (Some y)) = (s1, r)" "reply_Bool r = Inr True"
    using assms(3,4) by (auto simp: acquire_setnx_def setnx_ttl_def split: prod.splits)
  have "kv s1 = put (kv s) k (RStr ''1'') (Some (ks_clock (kv s) + y))"
    by (rule redis_server.outcome_cases [OF assms(1) r(1)])
      (use r(2) assms(2,3) in \<open>auto simp: reply_Bool_def put_ttl_def\<close>)
  moreover have "kv s2 = drop_key (kv s1) k"
    by (rule redis_server.outcome_cases [OF assms(1,5)]) auto
  ultimately show ?thesis
    using assms(3,5) by (simp add: live_put live_drop)
qed

theorem release_drops_foreign_lock_witness:
  "\<exists>s1 s2. acquire_setnx faulty_call ''job'' 3000 fresh_redis = (s1, Inr True) \<and>
     renewal_goroutine faulty_call ''job'' 3000 [Stop] s1 = s2 \<and> live (fs_ks s2) ''job'' = None"
proof -
  let ?s1 = "\<lparr>fs_ks = put empty_keyspace ''job'' (RStr ''1'') (Some 3000), fs_faults = []\<rparr>"
  have s1: "acquire_setnx faulty_call ''job'' 3000 fresh_redis = (?s1, Inr True)"
    by (simp add: acquire_setnx_def faulty_call_def fresh_redis_def setnx_ttl_def live_def
        empty_keyspace_def put_ttl_def reply_Bool_def)
  have s2: "faulty_call ?s1 (DEL ''job'') = (\<lparr>fs_ks = drop_key (fs_ks ?s1) ''job'', fs_faults = []\<rparr>, RInt 1)"
    by (simp add: faulty_call_def live_put empty_keyspace_def)
  have "live (fs_ks fresh_redis) ''job'' = None"
    by (simp add: fresh_redis_def live_def empty_keyspace_def)
  from release_drops_foreign_lock [OF faulty.redis_server_axioms this _ s1 s2, of 3000] s1
  show ?thesis by auto
qed

end
