(* ===== verification/Snowflake.thy ===== *)
theory Snowflake
  imports Redis_Server
begin

text \<open>
  The identifier generators of \<^verbatim>\<open>utils/utils.go\<close>: the Snowflake generator at its 64-bit
  width, the buffered generator that prefills a channel, the interface \<open>IDGenerator\<close> both
  implement, and the order numbers made from it. The clock is an argument: the readings
  \<open>clk 0\<close>, \<open>clk 1\<close>, ... of \<^verbatim>\<open>time.Now().UnixMilli()\<close>.
\<close>

unbundle bit_operations_syntax

section \<open>Snowflake\<close>

definition epoch :: "64 word" where
  "epoch = 1704067200000"

definition workerIDBits :: nat where "workerIDBits = 10"
definition sequenceBits :: nat where "sequenceBits = 12"

definition workerIDMax :: "64 word" where
  "workerIDMax = -1 XOR push_bit workerIDBits (-1)"

definition sequenceMax :: "64 word" where
  "sequenceMax = -1 XOR push_bit sequenceBits (-1)"

definition timeShift :: nat where "timeShift = workerIDBits + sequenceBits"
definition workerIDShift :: nat where "workerIDShift = sequenceBits"

record snowflake =
  sf_workerID :: "64 word"
  sf_sequence :: "64 word"
  sf_lastStamp :: "64 word"

definition NewSnowflake :: "64 word \<Rightarrow> snowflake result" where
  "NewSnowflake workerID =
     (if workerID <s 0 \<or> workerIDMax <s workerID then Inl (Errf ''workerID out of range'')
      else Inr \<lparr>sf_workerID = workerID, sf_sequence = 0, sf_lastStamp = 0\<rparr>)"

definition compose_id :: "64 word \<Rightarrow> 64 word \<Rightarrow> 64 word \<Rightarrow> 64 word" where
  "compose_id now workerID seqn =
     push_bit timeShift (now - epoch) OR push_bit workerIDShift workerID OR seqn"

text \<open>The busy wait for the next millisecond; \<open>None\<close> is out of fuel.\<close>

fun wait_clock :: "nat \<Rightarrow> (nat \<Rightarrow> 64 word) \<Rightarrow> nat \<Rightarrow> 64 word \<Rightarrow> 64 word option" where
  "wait_clock 0 clk i lastStamp = None"
| "wait_clock (Suc fuel) clk i lastStamp =
     (let now = clk i in if now \<le>s lastStamp then wait_clock fuel clk (Suc i) lastStamp else Some now)"

definition NextID ::
  "nat \<Rightarrow> (nat \<Rightarrow> 64 word) \<Rightarrow> snowflake \<Rightarrow> (snowflake \<times> 64 word result) option" where
  "NextID fuel clk s =
     (let now = clk 0;
          finish = (\<lambda>now seqn. Some (s\<lparr>sf_sequence := seqn, sf_lastStamp := now\<rparr>,
                      Inr (compose_id now (sf_workerID s) seqn)))
      in if now <s sf_lastStamp s then Some (s, Inl (Errf ''clock moved backwards''))
         else if now = sf_lastStamp s then
           (let seqn = (sf_sequence s + 1) AND sequenceMax
            in if seqn = 0
               then (case wait_clock fuel clk 1 (sf_lastStamp s) of
                       None \<Rightarrow> None
                     | Some now \<Rightarrow> finish now seqn)
               else finish now seqn)
         else finish now 0)"

section \<open>The value of an identifier\<close>

lemma bit_consts:
  "workerIDMax = 1023" "sequenceMax = 4095" "timeShift = 22" "workerIDShift = 12"
  by (simp_all add: workerIDMax_def sequenceMax_def timeShift_def workerIDShift_def
      workerIDBits_def sequenceBits_def push_bit_eq_mult)

definition E :: int where "E = 1704067200000"

definition in_era :: "64 word \<Rightarrow> bool" where
  "in_era now \<longleftrightarrow> E \<le> uint now \<and> uint now < E + 2 ^ 41"

lemma sint_small: "uint (a :: 64 word) < 2 ^ 63 \<Longrightarrow> sint a = uint a"
proof -
  assume "uint a < 2 ^ 63"
  moreover have "- (2 ^ 63) \<le> uint a"
    by (rule order_trans [of _ 0]) simp_all
  ultimately show ?thesis
    using signed_take_bit_int_eq_self [of 63 "uint a"] by (simp add: sint_uint)
qed

lemma era_signed:
  "uint (a :: 64 word) < 2 ^ 63 \<Longrightarrow> uint b < 2 ^ 63 \<Longrightarrow> a <s b \<longleftrightarrow> uint a < uint b"
  "uint (a :: 64 word) < 2 ^ 63 \<Longrightarrow> uint b < 2 ^ 63 \<Longrightarrow> a \<le>s b \<longleftrightarrow> uint a \<le> uint b"
  by (simp_all add: word_sless_alt word_sle_eq sint_small)

lemma in_era_small: "in_era now \<Longrightarrow> uint now < 2 ^ 63"
  by (simp add: in_era_def E_def)

lemma uint_elapsed:
  assumes "in_era now"
  shows "uint (now - epoch) = uint now - E"
  using assms by (subst uint_sub_lem [THEN iffD1]) (auto simp: in_era_def E_def epoch_def word_le_def)

lemma uint_push:
  assumes "uint (a :: 64 word) < 2 ^ m" "m + n \<le> 64"
  shows "uint (push_bit n a) = uint a * 2 ^ n"
proof -
  have "uint a * 2 ^ n < 2 ^ m * 2 ^ n"
    using assms(1) by simp
  also have "\<dots> \<le> 2 ^ 64"
    using assms(2) by (metis one_le_numeral power_add power_increasing)
  finally have "take_bit 64 (push_bit n (uint a)) = push_bit n (uint a)"
    by (simp add: push_bit_eq_mult take_bit_int_eq_self)
  moreover have "uint (push_bit n a) = take_bit 64 (push_bit n (uint a))"
    using unsigned_push_bit_eq [of n a, where 'a = int] by simp
  ultimately show ?thesis
    by (simp only: push_bit_eq_mult)
qed

lemma high_bit_clear:
  assumes "uint (a :: 64 word) < 2 ^ m" "m \<le> n"
  shows "\<not> bit a n"
proof
  assume "bit a n"
  then have "bit (uint a) n"
    using bit_imp_le_length [of a n] by (simp add: bit_uint_iff)
  moreover have "take_bit m (uint a) = uint a"
    using assms(1) by (simp add: take_bit_int_eq_self)
  ultimately show False
    using assms(2) by (metis bit_take_bit_iff not_le)
qed

lemma id_value:
  assumes "in_era now" "uint w < 2 ^ 10" "uint q < 2 ^ 12"
  shows "uint (compose_id now w q) = (uint now - E) * 2 ^ 22 + uint w * 2 ^ 12 + uint q"
proof -
  let ?t = "uint now - E"
  have t: "0 \<le> ?t" "?t < 2 ^ 41"
    using assms(1) by (auto simp: in_era_def)
  have a: "uint (push_bit 22 (now - epoch)) = push_bit 22 ?t"
    using uint_push [of "now - epoch" 41 22] t by (simp add: uint_elapsed [OF assms(1)] push_bit_eq_mult)
  have b: "uint (push_bit 12 w) = push_bit 12 (uint w)"
    using uint_push [of w 10 12] assms(2) by (simp add: push_bit_eq_mult)
  have bq: "\<not> bit q n" if "12 \<le> n" for n
    using high_bit_clear [OF assms(3) that] .
  have bw: "\<not> bit w n" if "10 \<le> n" for n
    using high_bit_clear [OF assms(2) that] .
  have d1: "push_bit 22 ?t AND push_bit 12 (uint w) = 0"
    by (rule bit_eqI) (auto simp: bit_simps bw)
  have d2: "(push_bit 22 ?t OR push_bit 12 (uint w)) AND uint q = 0"
    by (rule bit_eqI) (auto simp: bit_simps bq)
  have "uint (compose_id now w q) = push_bit 22 ?t OR push_bit 12 (uint w) OR uint q"
    by (simp add: compose_id_def bit_consts unsigned_or_eq a b)
  also have "\<dots> = push_bit 22 ?t + push_bit 12 (uint w) + uint q"
    using d1 d2 by (simp add: disjunctive_add_eq_or or.assoc)
  finally show ?thesis by (simp add: push_bit_eq_mult)
qed


section \<open>Freshness\<close>

text \<open>
  The well-formed states of a generator, the identifiers it can still issue, and the clocks it
  is run with: all readings lie in the 41 bits that start at \<open>epoch\<close>.
\<close>

definition sf_ok :: "snowflake \<Rightarrow> bool" where
  "sf_ok s \<longleftrightarrow> uint (sf_workerID s) < 2 ^ 10 \<and> uint (sf_sequence s) < 2 ^ 12 \<and>
     (sf_lastStamp s = 0 \<or> in_era (sf_lastStamp s))"

definition sf_avail :: "snowflake \<Rightarrow> 64 word \<Rightarrow> bool" where
  "sf_avail s x \<longleftrightarrow> (\<exists>t q. in_era t \<and> uint q < 2 ^ 12 \<and> x = compose_id t (sf_workerID s) q \<and>
     (uint (sf_lastStamp s) < uint t \<or> sf_lastStamp s = t \<and> uint (sf_sequence s) < uint q))"

definition clock_ok :: "(nat \<Rightarrow> 64 word) \<Rightarrow> bool" where
  "clock_ok clk \<longleftrightarrow> (\<forall>i. in_era (clk i))"

lemma sf_last_small: "sf_ok s \<Longrightarrow> uint (sf_lastStamp s) < 2 ^ 63"
  by (auto simp: sf_ok_def dest: in_era_small)

lemma digit_unique:
  fixes a c n :: int
  assumes "a * n + c = a' * n + c'" "0 \<le> c" "c < n" "0 \<le> c'" "c' < n"
  shows "a = a' \<and> c = c'"
proof -
  have div: "(b * n + d) div n = b" if "0 \<le> d" "d < n" for b d
    using that by simp
  have "(a * n + c) div n = a" "(a' * n + c') div n = a'"
    by (rule div, rule assms, rule assms)+
  with assms(1) show ?thesis by auto
qed

lemma fields_unique:
  fixes a b c :: int
  assumes "a * 4194304 + b * 4096 + c = a' * 4194304 + b' * 4096 + c'"
    "0 \<le> b" "b < 1024" "0 \<le> b'" "b' < 1024" "0 \<le> c" "c < 4096" "0 \<le> c'" "c' < 4096"
  shows "a = a' \<and> b = b' \<and> c = c'"
  using digit_unique [of "a * 1024 + b" 4096 c "a' * 1024 + b'" c'] digit_unique [of a 1024 b a' b'] assms
  by (simp add: algebra_simps)

lemma compose_id_inject:
  assumes "in_era t" "in_era t'" "uint q < 2 ^ 12" "uint q' < 2 ^ 12" "uint w < 2 ^ 10" "uint w' < 2 ^ 10"
    and "compose_id t w q = compose_id t' w' q'"
  shows "t = t' \<and> w = w' \<and> q = q'"
proof -
  have eq: "(uint t - E) * 2 ^ 22 + uint w * 2 ^ 12 + uint q = (uint t' - E) * 2 ^ 22 + uint w' * 2 ^ 12 + uint q'"
    using id_value [OF assms(1,5,3)] id_value [OF assms(2,6,4)] assms(7) by simp
  have *: "0 \<le> uint q" "0 \<le> uint q'" "0 \<le> uint w" "0 \<le> uint w'"
    by simp_all
  have "uint t - E = uint t' - E \<and> uint w = uint w' \<and> uint q = uint q'"
    by (rule fields_unique) (use eq assms(3-6) * in simp_all)
  then show ?thesis by (simp add: word_uint_eq_iff)
qed

lemma wait_clock_Some:
  "wait_clock fuel clk i l = Some now \<Longrightarrow> (\<exists>j. now = clk j) \<and> \<not> now \<le>s l"
  by (induction fuel arbitrary: i) (auto simp: Let_def split: if_splits)

lemma mask_sequence: "uint (x AND sequenceMax) = uint x mod 4096"
proof -
  have "sequenceMax = mask 12"
    by (simp add: bit_consts mask_eq_exp_minus_1)
  then have "x AND sequenceMax = take_bit 12 x"
    by (simp add: take_bit_eq_mask)
  then show ?thesis
    by (simp add: uint_mod_distrib take_bit_eq_mod)
qed

lemma next_sequence:
  assumes "uint q < 2 ^ 12" "(q + 1) AND sequenceMax \<noteq> 0"
  shows "uint ((q + 1) AND sequenceMax) = uint q + 1"
proof -
  have "uint (q + 1) = uint q + 1"
    using assms(1) by (subst uint_add_lem [THEN iffD1]) simp_all
  then have m: "uint ((q + 1) AND sequenceMax) = (uint q + 1) mod 4096"
    by (simp add: mask_sequence)
  moreover have "uint ((q + 1) AND sequenceMax) \<noteq> 0"
    using assms(2) by (simp add: uint_0_iff)
  ultimately have "uint q \<noteq> 4095"
    by auto
  then show ?thesis
    using assms(1) m by simp
qed


lemma NextID_cases:
  assumes "NextID fuel clk s = Some (s', r)" "clock_ok clk" "sf_ok s"
  obtains (error) "r = Inl (Errf ''clock moved backwards'')" "s' = s"
  | (issued) "r = Inr (compose_id (sf_lastStamp s') (sf_workerID s) (sf_sequence s'))"
      "sf_workerID s' = sf_workerID s" "in_era (sf_lastStamp s')" "uint (sf_sequence s') < 2 ^ 12"
      "uint (sf_lastStamp s) < uint (sf_lastStamp s') \<or>
       sf_lastStamp s = sf_lastStamp s' \<and> uint (sf_sequence s) < uint (sf_sequence s')"
proof -
  have era: "in_era (clk i)" for i
    using assms(2) by (simp add: clock_ok_def)
  note small = in_era_small [OF era] sf_last_small [OF assms(3)]
  let ?q = "(sf_sequence s + 1) AND sequenceMax"
  show thesis
  proof (cases "clk 0 <s sf_lastStamp s")
    case True
    with assms(1) error show ?thesis by (simp add: NextID_def)
  next
    case before: False
    then have le: "uint (sf_lastStamp s) \<le> uint (clk 0)"
      using era_signed(1) [OF small] by simp
    show ?thesis
    proof (cases "clk 0 = sf_lastStamp s")
      case False
      with le have "uint (sf_lastStamp s) < uint (clk 0)"
        by (simp add: word_uint_eq_iff)
      with before False assms(1) era [of 0] issued show ?thesis
        by (auto simp: NextID_def Let_def)
    next
      case same: True
      show ?thesis
      proof (cases "?q = 0")
        case False
        have "uint ?q < 2 ^ 12"
          by (simp add: mask_sequence)
        with same False before assms(1) next_sequence [OF _ False] assms(3) era [of 0] issued show ?thesis
          by (auto simp: NextID_def Let_def sf_ok_def)
      next
        case True
        with same before assms(1) obtain now where w: "wait_clock fuel clk 1 (sf_lastStamp s) = Some now"
          and out: "s' = s\<lparr>sf_sequence := ?q, sf_lastStamp := now\<rparr>"
            "r = Inr (compose_id now (sf_workerID s) ?q)"
          by (auto simp: NextID_def Let_def split: option.splits)
        obtain j where j: "now = clk j" "\<not> now \<le>s sf_lastStamp s"
          using wait_clock_Some [OF w] by auto
        then have "uint (sf_lastStamp s) < uint now"
          using era_signed(2) [OF small, of j] by simp
        with out True j era [of j] issued show ?thesis by auto
      qed
    qed
  qed
qed

lemma NextID_ok:
  assumes "NextID fuel clk s = Some (s', r)" "clock_ok clk" "sf_ok s"
  shows "sf_ok s'"
  by (rule NextID_cases [OF assms]) (use assms(3) in \<open>auto simp: sf_ok_def\<close>)

lemma NextID_fresh:
  assumes "NextID fuel clk s = Some (s', Inr x)" "clock_ok clk" "sf_ok s"
  shows "sf_avail s x \<and> \<not> sf_avail s' x"
proof (rule NextID_cases [OF assms])
  assume x: "Inr x = Inr (compose_id (sf_lastStamp s') (sf_workerID s) (sf_sequence s'))"
    and s': "sf_workerID s' = sf_workerID s" "in_era (sf_lastStamp s')" "uint (sf_sequence s') < 2 ^ 12"
    and less: "uint (sf_lastStamp s) < uint (sf_lastStamp s') \<or>
      sf_lastStamp s = sf_lastStamp s' \<and> uint (sf_sequence s) < uint (sf_sequence s')"
  have "sf_avail s x"
    using x s' less by (auto simp: sf_avail_def)
  moreover have "\<not> sf_avail s' x"
  proof
    assume "sf_avail s' x"
    then obtain t q where t: "in_era t" "uint q < 2 ^ 12" "x = compose_id t (sf_workerID s') q"
      and later: "uint (sf_lastStamp s') < uint t \<or> sf_lastStamp s' = t \<and> uint (sf_sequence s') < uint q"
      by (auto simp: sf_avail_def)
    have "uint (sf_workerID s) < 2 ^ 10"
      using assms(3) by (simp add: sf_ok_def)
    then have "t = sf_lastStamp s' \<and> q = sf_sequence s'"
      using compose_id_inject [OF t(1) s'(2) t(2) s'(3)] t(3) x s'(1) by auto
    with later show False by auto
  qed
  ultimately show ?thesis ..
qed simp

lemma NextID_shrinks:
  assumes "NextID fuel clk s = Some (s', r)" "clock_ok clk" "sf_ok s" "sf_avail s' x"
  shows "sf_avail s x"
  by (rule NextID_cases [OF assms(1-3)]) (use assms(4) in \<open>force simp: sf_avail_def\<close>)+

section \<open>The interface IDGenerator\<close>

text \<open>
  A generator with an environment \<open>'c\<close> (clock readings, schedule of background work). \<open>avail\<close>
  are the identifiers it can still issue: an issued one was available and never is again.
\<close>

locale id_generator =
  fixes gen :: "'c \<Rightarrow> 'g \<Rightarrow> ('g \<times> 64 word result) option"
    and env_ok :: "'c \<Rightarrow> bool"
    and inv :: "'g \<Rightarrow> bool"
    and avail :: "'g \<Rightarrow> 64 word \<Rightarrow> bool"
  assumes inv_step: "gen c g = Some (g', r) \<Longrightarrow> env_ok c \<Longrightarrow> inv g \<Longrightarrow> inv g'"
    and fresh: "gen c g = Some (g', Inr x) \<Longrightarrow> env_ok c \<Longrightarrow> inv g \<Longrightarrow> avail g x \<and> \<not> avail g' x"
    and shrinks: "gen c g = Some (g', r) \<Longrightarrow> env_ok c \<Longrightarrow> inv g \<Longrightarrow> avail g' x \<Longrightarrow> avail g x"

text \<open>\<open>GenerateOrderNo\<close> of \<^verbatim>\<open>utils/utils.go\<close>: \<open>%d\<close> prints the identifier as a signed number.\<close>

definition GenerateOrderNo ::
  "('c \<Rightarrow> 'g \<Rightarrow> ('g \<times> 64 word result) option) \<Rightarrow> 'c \<Rightarrow> 'g \<Rightarrow> ('g \<times> string result) option" where
  "GenerateOrderNo gen c g = (case gen c g of
      None \<Rightarrow> None
    | Some (g', Inl err) \<Rightarrow> Some (g', Inl err)
    | Some (g', Inr i) \<Rightarrow> Some (g', Inr (''MS'' @ fmt_d (sint i))))"

text \<open>The order numbers produced in a list of environments; calls that fail produce none.\<close>

fun order_nos ::
  "('c \<Rightarrow> 'g \<Rightarrow> ('g \<times> 64 word result) option) \<Rightarrow> 'c list \<Rightarrow> 'g \<Rightarrow> string list option" where
  "order_nos gen [] g = Some []"
| "order_nos gen (c # cs) g = (case GenerateOrderNo gen c g of
      None \<Rightarrow> None
    | Some (g', r) \<Rightarrow> (case order_nos gen cs g' of
          None \<Rightarrow> None
        | Some ns \<Rightarrow> Some (case r of Inl _ \<Rightarrow> ns | Inr n \<Rightarrow> n # ns)))"

context id_generator
begin

lemma order_nos_avail:
  assumes "order_nos gen cs g = Some ns" "list_all env_ok cs" "inv g"
  shows "distinct ns \<and> (\<forall>n \<in> set ns. \<exists>i. avail g i \<and> n = ''MS'' @ fmt_d (sint i))"
  using assms
proof (induction cs arbitrary: g ns)
  case (Cons c cs)
  obtain g' r where gen: "gen c g = Some (g', r)"
    using Cons.prems(1) by (auto simp: GenerateOrderNo_def split: option.splits prod.splits sum.splits)
  obtain ns' where ns': "order_nos gen cs g' = Some ns'"
    and ns: "ns = (case r of Inl _ \<Rightarrow> ns' | Inr i \<Rightarrow> (''MS'' @ fmt_d (sint i)) # ns')"
    using Cons.prems(1) gen
    by (auto simp: GenerateOrderNo_def split: option.splits sum.splits)
  have c: "env_ok c" "list_all env_ok cs"
    using Cons.prems(2) by simp_all
  note IH = Cons.IH [OF ns' c(2) inv_step [OF gen c(1) Cons.prems(3)]]
  note down = shrinks [OF gen c(1) Cons.prems(3)]
  show ?case
  proof (cases r)
    case (Inl e)
    with IH ns down show ?thesis by fastforce
  next
    case (Inr i)
    note f = fresh [OF gen [unfolded Inr] c(1) Cons.prems(3)]
    have "''MS'' @ fmt_d (sint i) \<notin> set ns'"
    proof
      assume "''MS'' @ fmt_d (sint i) \<in> set ns'"
      then obtain j where "avail g' j" "sint i = sint j"
        using IH by auto
      then have "avail g' i"
        by (metis signed_word_eqI)
      with f show False by simp
    qed
    with Inr IH ns down f show ?thesis by fastforce
  qed
qed simp

end

type_synonym sf_env = "nat \<times> (nat \<Rightarrow> 64 word)"

definition sf_env_ok :: "sf_env \<Rightarrow> bool" where
  "sf_env_ok c = clock_ok (snd c)"

definition sf_gen :: "sf_env \<Rightarrow> snowflake \<Rightarrow> (snowflake \<times> 64 word result) option" where
  "sf_gen c s = NextID (fst c) (snd c) s"

interpretation snowflake: id_generator sf_gen sf_env_ok sf_ok sf_avail
proof
  show "sf_ok g'" if "sf_gen c g = Some (g', r)" "sf_env_ok c" "sf_ok g" for c g g' r
    using that NextID_ok by (simp add: sf_gen_def sf_env_ok_def)
  show "sf_avail g x \<and> \<not> sf_avail g' x" if "sf_gen c g = Some (g', Inr x)" "sf_env_ok c" "sf_ok g" for c g g' x
    using that NextID_fresh by (simp add: sf_gen_def sf_env_ok_def)
  show "sf_avail g x" if "sf_gen c g = Some (g', r)" "sf_env_ok c" "sf_ok g" "sf_avail g' x" for c g g' r x
    using that NextID_shrinks by (simp add: sf_gen_def sf_env_ok_def)
qed


section \<open>BufferedSnowflake\<close>

text \<open>
  The channel is a list of at most \<open>bs_cap\<close> identifiers, \<open>bs_hand\<close> the identifier \<open>fill\<close>
  has generated and not yet sent. The goroutine's moves are events: generate (a failed
  generation sleeps and tries again), send when there is room, stop when \<open>done\<close> is closed.
\<close>

record buffered =
  bs_ch :: "64 word list"
  bs_cap :: nat
  bs_hand :: "64 word option"
  bs_sf :: snowflake
  bs_done :: bool
  bs_stopped :: bool

definition NewBufferedSnowflake :: "snowflake \<Rightarrow> nat \<Rightarrow> buffered" where
  "NewBufferedSnowflake sf bufferSize =
     \<lparr>bs_ch = [], bs_cap = bufferSize, bs_hand = None, bs_sf = sf, bs_done = False, bs_stopped = False\<rparr>"

datatype fill_event = FillGen nat "nat \<Rightarrow> 64 word" | FillSend | FillDone

fun fill_step :: "fill_event \<Rightarrow> buffered \<Rightarrow> buffered option" where
  "fill_step (FillGen fuel clk) bs =
     (if bs_hand bs = None \<and> \<not> bs_stopped bs
      then (case NextID fuel clk (bs_sf bs) of
              None \<Rightarrow> None
            | Some (sf, Inl err) \<Rightarrow> Some (bs\<lparr>bs_sf := sf\<rparr>)
            | Some (sf, Inr i) \<Rightarrow> Some (bs\<lparr>bs_sf := sf, bs_hand := Some i\<rparr>))
      else Some bs)"
| "fill_step FillSend bs = (case bs_hand bs of
      Some i \<Rightarrow> Some (if length (bs_ch bs) < bs_cap bs
                 then bs\<lparr>bs_ch := bs_ch bs @ [i], bs_hand := None\<rparr> else bs)
    | None \<Rightarrow> Some bs)"
| "fill_step FillDone bs =
     Some (if bs_done bs \<and> bs_hand bs \<noteq> None
           then bs\<lparr>bs_hand := None, bs_stopped := True\<rparr> else bs)"

fun fill_run :: "fill_event list \<Rightarrow> buffered \<Rightarrow> buffered option" where
  "fill_run [] bs = Some bs"
| "fill_run (e # es) bs = (case fill_step e bs of None \<Rightarrow> None | Some bs' \<Rightarrow> fill_run es bs')"

definition BufferedNextID :: "nat \<Rightarrow> (nat \<Rightarrow> 64 word) \<Rightarrow> buffered \<Rightarrow> (buffered \<times> 64 word result) option" where
  "BufferedNextID fuel clk bs = (case bs_ch bs of
      i # rest \<Rightarrow> Some (bs\<lparr>bs_ch := rest\<rparr>, Inr i)
    | [] \<Rightarrow> (case NextID fuel clk (bs_sf bs) of
          None \<Rightarrow> None
        | Some (sf, r) \<Rightarrow> Some (bs\<lparr>bs_sf := sf\<rparr>, r)))"

text \<open>Closing a closed channel panics.\<close>

definition BufferedClose :: "buffered \<Rightarrow> buffered result" where
  "BufferedClose bs = (if bs_done bs then Inl GoPanic else Inr (bs\<lparr>bs_done := True\<rparr>))"

definition held_ids :: "buffered \<Rightarrow> 64 word list" where
  "held_ids bs = bs_ch bs @ (case bs_hand bs of None \<Rightarrow> [] | Some i \<Rightarrow> [i])"

definition bs_ok :: "buffered \<Rightarrow> bool" where
  "bs_ok bs \<longleftrightarrow> sf_ok (bs_sf bs) \<and> distinct (held_ids bs) \<and> (\<forall>x \<in> set (held_ids bs). \<not> sf_avail (bs_sf bs) x)"

definition bs_avail :: "buffered \<Rightarrow> 64 word \<Rightarrow> bool" where
  "bs_avail bs x \<longleftrightarrow> x \<in> set (held_ids bs) \<or> sf_avail (bs_sf bs) x"

lemma bs_next_sf:
  assumes "bs_ok bs" "NextID fuel clk (bs_sf bs) = Some (sf, r)" "clock_ok clk"
  shows "bs_ok (bs\<lparr>bs_sf := sf\<rparr>)" "\<And>x. bs_avail (bs\<lparr>bs_sf := sf\<rparr>) x \<Longrightarrow> bs_avail bs x"
    "\<And>x. r = Inr x \<Longrightarrow> bs_avail bs x \<and> \<not> bs_avail (bs\<lparr>bs_sf := sf\<rparr>) x"
  using NextID_ok [OF assms(2,3)] NextID_shrinks [OF assms(2,3)] NextID_fresh [of fuel clk "bs_sf bs" sf] assms
  by (auto simp: bs_ok_def bs_avail_def held_ids_def)

lemma fill_step_ok:
  assumes "fill_step e bs = Some bs'" "bs_ok bs" "\<And>fuel clk. e = FillGen fuel clk \<Longrightarrow> clock_ok clk"
  shows "bs_ok bs' \<and> (\<forall>x. bs_avail bs' x \<longrightarrow> bs_avail bs x)"
proof (cases e)
  case (FillGen fuel clk)
  show ?thesis
  proof (cases "bs_hand bs = None \<and> \<not> bs_stopped bs")
    case True
    then obtain sf r where n: "NextID fuel clk (bs_sf bs) = Some (sf, r)"
      and bs': "bs' = (case r of Inl _ \<Rightarrow> bs\<lparr>bs_sf := sf\<rparr> | Inr i \<Rightarrow> bs\<lparr>bs_sf := sf, bs_hand := Some i\<rparr>)"
      using assms(1) FillGen by (auto split: option.splits sum.splits)
    note h = bs_next_sf [OF assms(2) n assms(3) [OF FillGen]]
    show ?thesis
      using h bs' True assms(2) by (cases r) (auto simp: bs_ok_def bs_avail_def held_ids_def)
  qed (use assms FillGen in auto)
next
  case FillSend
  with assms show ?thesis
    by (auto simp: bs_ok_def bs_avail_def held_ids_def split: option.splits if_splits)
next
  case FillDone
  with assms show ?thesis
    by (auto simp: bs_ok_def bs_avail_def held_ids_def split: option.splits if_splits)
qed

fun fill_env_ok :: "fill_event \<Rightarrow> bool" where
  "fill_env_ok (FillGen fuel clk) = clock_ok clk"
| "fill_env_ok _ = True"

lemma fill_run_ok:
  "fill_run es bs = Some bs' \<Longrightarrow> bs_ok bs \<Longrightarrow> list_all fill_env_ok es \<Longrightarrow>
    bs_ok bs' \<and> (\<forall>x. bs_avail bs' x \<longrightarrow> bs_avail bs x)"
proof (induction es arbitrary: bs)
  case (Cons e es)
  then obtain bs1 where s: "fill_step e bs = Some bs1" and r: "fill_run es bs1 = Some bs'"
    by (auto split: option.splits)
  have "bs_ok bs1 \<and> (\<forall>x. bs_avail bs1 x \<longrightarrow> bs_avail bs x)"
    using Cons.prems by (intro fill_step_ok [OF s]) auto
  with Cons.IH [OF r] Cons.prems show ?case by simp
qed simp

lemma BufferedNextID_ok:
  assumes "BufferedNextID fuel clk bs = Some (bs', r)" "bs_ok bs" "clock_ok clk"
  shows "bs_ok bs' \<and> (\<forall>x. bs_avail bs' x \<longrightarrow> bs_avail bs x) \<and>
    (\<forall>x. r = Inr x \<longrightarrow> bs_avail bs x \<and> \<not> bs_avail bs' x)"
proof (cases "bs_ch bs")
  case Nil
  then obtain sf where n: "NextID fuel clk (bs_sf bs) = Some (sf, r)" and bs': "bs' = bs\<lparr>bs_sf := sf\<rparr>"
    using assms(1) by (auto simp: BufferedNextID_def split: option.splits)
  show ?thesis
    using bs_next_sf [OF assms(2) n assms(3)] bs' by auto
next
  case (Cons i rest)
  with assms show ?thesis
    by (auto simp: BufferedNextID_def bs_ok_def bs_avail_def held_ids_def split: option.splits)
qed

type_synonym bs_env = "fill_event list \<times> sf_env"

definition bs_env_ok :: "bs_env \<Rightarrow> bool" where
  "bs_env_ok c \<longleftrightarrow> list_all fill_env_ok (fst c) \<and> sf_env_ok (snd c)"

text \<open>A request after some moves of the filling goroutine.\<close>

definition bs_gen :: "bs_env \<Rightarrow> buffered \<Rightarrow> (buffered \<times> 64 word result) option" where
  "bs_gen c bs = (case fill_run (fst c) bs of
      None \<Rightarrow> None
    | Some bs1 \<Rightarrow> BufferedNextID (fst (snd c)) (snd (snd c)) bs1)"

lemma bs_gen_ok:
  assumes "bs_gen c bs = Some (bs', r)" "bs_env_ok c" "bs_ok bs"
  shows "bs_ok bs' \<and> (\<forall>x. bs_avail bs' x \<longrightarrow> bs_avail bs x) \<and>
    (\<forall>x. r = Inr x \<longrightarrow> bs_avail bs x \<and> \<not> bs_avail bs' x)"
proof -
  obtain bs1 where f: "fill_run (fst c) bs = Some bs1"
    and n: "BufferedNextID (fst (snd c)) (snd (snd c)) bs1 = Some (bs', r)"
    using assms(1) by (auto simp: bs_gen_def split: option.splits)
  have "bs_ok bs1 \<and> (\<forall>x. bs_avail bs1 x \<longrightarrow> bs_avail bs x)"
    using fill_run_ok [OF f assms(3)] assms(2) by (simp add: bs_env_ok_def)
  with BufferedNextID_ok [OF n] assms(2) show ?thesis
    by (auto simp: bs_env_ok_def sf_env_ok_def)
qed

interpretation buffered: id_generator bs_gen bs_env_ok bs_ok bs_avail
  by unfold_locales (use bs_gen_ok in blast)+

section \<open>Properties\<close>

lemma NewSnowflake_ok:
  assumes "NewSnowflake w = Inr sf"
  shows "sf_ok sf" "sf_workerID sf = w" "uint w < 2 ^ 10"
proof -
  have w: "\<not> w <s 0" "\<not> workerIDMax <s w" and sf: "sf = \<lparr>sf_workerID = w, sf_sequence = 0, sf_lastStamp = 0\<rparr>"
    using assms by (auto simp: NewSnowflake_def split: if_splits)
  have "0 \<le> sint w" "sint w \<le> 1023"
    using w by (simp_all add: word_sless_alt bit_consts)
  moreover have "take_bit 64 (sint w) = sint w"
    by (rule take_bit_int_eq_self) (use \<open>0 \<le> sint w\<close> \<open>sint w \<le> 1023\<close> in simp_all)
  ultimately have "uint w \<le> 1023"
    using uint_sint [of w] by simp
  with sf show "sf_ok sf" "sf_workerID sf = w" "uint w < 2 ^ 10"
    by (simp_all add: sf_ok_def)
qed


lemma sf_gen_env: "sf_env_ok (fuel, clk) = clock_ok clk"
  by (simp add: sf_env_ok_def)

definition demo_clock :: "64 word \<Rightarrow> nat \<Rightarrow> 64 word" where
  "demo_clock t i = t"

lemma demo_clock_ok [simp]:
  "clock_ok (demo_clock 1704067200005)" "clock_ok (demo_clock 1704067200003)"
  by (simp_all add: clock_ok_def in_era_def demo_clock_def E_def)

text \<open>
  The order numbers of one Snowflake generator are pairwise distinct: over any sequence
  of calls, with any clock readings in the generator's 41-bit era (moving backwards included),
  no order number is issued twice.
\<close>

theorem snowflake_order_nos_distinct:
  assumes "NewSnowflake w = Inr sf" "list_all sf_env_ok cs" "order_nos sf_gen cs sf = Some ns"
  shows "distinct ns"
  using snowflake.order_nos_avail [OF assms(3,2) NewSnowflake_ok(1) [OF assms(1)]] by simp

theorem snowflake_order_nos_distinct_witness:
  "\<exists>ns. order_nos sf_gen [(1, demo_clock 1704067200005), (1, demo_clock 1704067200005), (1, demo_clock 1704067200003)]
      \<lparr>sf_workerID = 7, sf_sequence = 0, sf_lastStamp = 0\<rparr> = Some ns \<and> distinct ns"
proof -
  have new: "NewSnowflake 7 = Inr \<lparr>sf_workerID = 7, sf_sequence = 0, sf_lastStamp = 0\<rparr>"
    by (simp add: NewSnowflake_def bit_consts word_sless_alt)
  obtain ns where ns: "order_nos sf_gen [(1, demo_clock 1704067200005), (1, demo_clock 1704067200005), (1, demo_clock 1704067200003)]
      \<lparr>sf_workerID = 7, sf_sequence = 0, sf_lastStamp = 0\<rparr> = Some ns"
    by (simp add: sf_gen_def NextID_def demo_clock_def GenerateOrderNo_def E_def bit_consts
        word_sless_alt)
  have "list_all sf_env_ok [(1, demo_clock 1704067200005), (1, demo_clock 1704067200005), (1, demo_clock 1704067200003)]"
    by (simp add: sf_gen_env demo_clock_ok)
  from snowflake_order_nos_distinct [OF new this ns] ns show ?thesis by blast
qed

text \<open>
  C30. The order numbers of the buffered generator, the one the server uses, are pairwise distinct: over
  any sequence of calls, whatever the background goroutine does between them, whether an identifier
  comes from the channel or is generated directly, and with any clock readings in the 41-bit era
  (moving backwards included), no order number is issued twice.
\<close>

theorem buffered_order_nos_distinct:
  assumes "NewSnowflake w = Inr sf" "list_all bs_env_ok cs"
    and "order_nos bs_gen cs (NewBufferedSnowflake sf bufferSize) = Some ns"
  shows "distinct ns"
proof -
  have "bs_ok (NewBufferedSnowflake sf bufferSize)"
    using NewSnowflake_ok(1) [OF assms(1)] by (simp add: bs_ok_def NewBufferedSnowflake_def held_ids_def)
  with buffered.order_nos_avail [OF assms(3,2)] show ?thesis by simp
qed

theorem buffered_order_nos_distinct_witness:
  "\<exists>ns. order_nos bs_gen [([FillGen 1 (demo_clock 1704067200005), FillSend, FillGen 1 (demo_clock 1704067200005)], 1, demo_clock 1704067200005),
        ([], 1, demo_clock 1704067200005)]
      (NewBufferedSnowflake \<lparr>sf_workerID = 7, sf_sequence = 0, sf_lastStamp = 0\<rparr> 4) = Some ns \<and>
    length ns = 2 \<and> distinct ns"
proof -
  let ?cs = "[([FillGen 1 (demo_clock 1704067200005), FillSend, FillGen 1 (demo_clock 1704067200005)], 1, demo_clock 1704067200005),
        ([], 1, demo_clock 1704067200005)]"
  have new: "NewSnowflake 7 = Inr \<lparr>sf_workerID = 7, sf_sequence = 0, sf_lastStamp = 0\<rparr>"
    by (simp add: NewSnowflake_def bit_consts word_sless_alt)
  obtain ns where ns: "order_nos bs_gen ?cs
      (NewBufferedSnowflake \<lparr>sf_workerID = 7, sf_sequence = 0, sf_lastStamp = 0\<rparr> 4) = Some ns"
    and len: "length ns = 2"
    by (simp add: bs_gen_def NextID_def demo_clock_def GenerateOrderNo_def E_def bit_consts
        word_sless_alt NewBufferedSnowflake_def BufferedNextID_def)
  have "list_all bs_env_ok ?cs"
    by (simp add: bs_env_ok_def sf_gen_env demo_clock_ok)
  from buffered_order_nos_distinct [OF new this ns] ns len show ?thesis by blast
qed

lemma stamp_less:
  fixes a b q q' :: int
  assumes "a < b" "q < 4096" "0 \<le> q'"
  shows "a * 4194304 + q < b * 4194304 + q'"
  using assms by linarith

text \<open>
  \<open>NextID\<close> returns and what it returns: when the clock eventually passes the last stamp
  within the fuel, the call gives an answer; a reading behind the last stamp is refused and
  changes nothing; otherwise the identifier is (stamp - epoch) * 2^22 + worker * 2^12 +
  sequence for the generator's new stamp and sequence, and it is above every earlier one.
\<close>

theorem NextID_correct:
  assumes "sf_ok s" "clock_ok clk" "j \<le> fuel" "sf_lastStamp s <s clk j"
  shows "\<exists>s' r. NextID fuel clk s = Some (s', r) \<and> sf_ok s' \<and>
    (case r of
       Inl e \<Rightarrow> clk 0 <s sf_lastStamp s \<and> s' = s
     | Inr x \<Rightarrow> \<not> clk 0 <s sf_lastStamp s \<and>
         uint x = (uint (sf_lastStamp s') - E) * 2 ^ 22 + uint (sf_workerID s) * 2 ^ 12 + uint (sf_sequence s') \<and>
         (sf_lastStamp s \<noteq> 0 \<longrightarrow> uint (compose_id (sf_lastStamp s) (sf_workerID s) (sf_sequence s)) < uint x))"
proof -
  have wait: "\<exists>now. wait_clock n clk i (sf_lastStamp s) = Some now" if "i \<le> j" "j < i + n" for n i
    using that
  proof (induction n arbitrary: i)
    case (Suc n)
    show ?case
    proof (cases "clk i \<le>s sf_lastStamp s")
      case True
      then have "i \<noteq> j"
        using assms(4) by (auto simp: word_sless_alt word_sle_eq)
      with Suc.IH [of "Suc i"] Suc.prems True show ?thesis by simp
    qed simp
  qed simp
  have "j \<noteq> 0" if "clk 0 = sf_lastStamp s"
    using assms(4) that by (cases j) (simp_all add: word_sless_alt)
  then obtain s' r where run: "NextID fuel clk s = Some (s', r)"
    using wait [of 1 fuel] assms(3) by (fastforce simp: NextID_def Let_def)
  show ?thesis
  proof (rule NextID_cases [OF run assms(2,1)])
    assume "r = Inl (Errf ''clock moved backwards'')" "s' = s"
    then show ?thesis
      using run assms(1) by (auto simp: NextID_def Let_def split: if_splits option.splits)
  next
    let ?x = "compose_id (sf_lastStamp s') (sf_workerID s) (sf_sequence s')"
    assume r: "r = Inr ?x" and s': "sf_workerID s' = sf_workerID s" "in_era (sf_lastStamp s')"
      "uint (sf_sequence s') < 2 ^ 12"
      and less: "uint (sf_lastStamp s) < uint (sf_lastStamp s') \<or>
        sf_lastStamp s = sf_lastStamp s' \<and> uint (sf_sequence s) < uint (sf_sequence s')"
    have w: "uint (sf_workerID s) < 2 ^ 10" "uint (sf_sequence s) < 2 ^ 12"
      using assms(1) by (simp_all add: sf_ok_def)
    note val = id_value [OF s'(2) w(1) s'(3)]
    have "uint (compose_id (sf_lastStamp s) (sf_workerID s) (sf_sequence s)) < uint ?x"
      if "sf_lastStamp s \<noteq> 0"
    proof -
      have "in_era (sf_lastStamp s)"
        using assms(1) that by (simp add: sf_ok_def)
      from id_value [OF this w] val less w(2) show ?thesis
        by (auto intro: stamp_less)
    qed
    moreover have "\<not> clk 0 <s sf_lastStamp s"
      using run r by (auto simp: NextID_def Let_def)
    ultimately show ?thesis
      using run r val NextID_ok [OF run assms(2,1)] by auto
  qed
qed

theorem NextID_correct_witness:
  "\<exists>s' r. NextID 3 (demo_clock 1704067200005) \<lparr>sf_workerID = 7, sf_sequence = 4095, sf_lastStamp = 0\<rparr> = Some (s', r) \<and> sf_ok s'"
  using NextID_correct [of "\<lparr>sf_workerID = 7, sf_sequence = 4095, sf_lastStamp = 0\<rparr>" "demo_clock 1704067200005" 0 3]
  by (auto simp: sf_ok_def demo_clock_ok demo_clock_def E_def word_sless_alt)

text \<open>
  Generators of different workers never issue the same identifier, whatever their clocks
  and their states.
\<close>

theorem workers_disjoint:
  assumes "sf_ok s1" "sf_ok s2" "clock_ok clk1" "clock_ok clk2"
    and "sf_workerID s1 \<noteq> sf_workerID s2"
    and "NextID f1 clk1 s1 = Some (s1', Inr x1)" "NextID f2 clk2 s2 = Some (s2', Inr x2)"
  shows "x1 \<noteq> x2"
proof -
  have "sf_avail s1 x1" "sf_avail s2 x2"
    using NextID_fresh assms by blast+
  then show ?thesis
    using assms(1,2,5) by (auto simp: sf_avail_def sf_ok_def dest: compose_id_inject)
qed

theorem workers_disjoint_witness:
  "\<exists>s1' s2' x1 x2.
     NextID 1 (demo_clock 1704067200005) \<lparr>sf_workerID = 7, sf_sequence = 0, sf_lastStamp = 0\<rparr> = Some (s1', Inr x1) \<and>
     NextID 1 (demo_clock 1704067200005) \<lparr>sf_workerID = 8, sf_sequence = 0, sf_lastStamp = 0\<rparr> = Some (s2', Inr x2) \<and>
     x1 \<noteq> x2"
proof -
  let ?s1 = "\<lparr>sf_workerID = 7, sf_sequence = 0, sf_lastStamp = 0\<rparr> :: snowflake"
  let ?s2 = "\<lparr>sf_workerID = 8, sf_sequence = 0, sf_lastStamp = 0\<rparr> :: snowflake"
  obtain s1' x1 s2' x2 where run: "NextID 1 (demo_clock 1704067200005) ?s1 = Some (s1', Inr x1)"
    "NextID 1 (demo_clock 1704067200005) ?s2 = Some (s2', Inr x2)"
    by (simp add: NextID_def demo_clock_def E_def word_sless_alt)
  have "sf_ok ?s1" "sf_ok ?s2"
    by (simp_all add: sf_ok_def)
  from workers_disjoint [OF this demo_clock_ok(1) demo_clock_ok(1) _ run] run show ?thesis
    by auto
qed

end
