(* ===== verification/Singleflight.thy ===== *)
theory Singleflight
  imports Prelude
begin

text \<open>
  The request coalescing of \<^verbatim>\<open>singleflight/singleflight.go\<close>: the critical sections of
  \<open>Group.Do\<close> as functions on the group, goroutines that interleave them as a step relation
  with the timers and the cleanup loop, and the sharded group with its FNV-1a hash. Times are
  milliseconds. The fields of a call that \<open>Do\<close> writes outside the mutex are written in one
  step with \<open>wg.Done\<close>.
\<close>

unbundle bit_operations_syntax

section \<open>Calls and groups\<close>

text \<open>
  \<open>sc_res\<close> is the pair \<^verbatim>\<open>(val, err)\<close>; \<open>None\<close> stands for the zero values (nil, nil).
  \<open>sc_wg\<close> is the counter of the WaitGroup.
\<close>

record 'a sf_call =
  sc_res :: "'a result option"
  sc_done :: bool
  sc_count :: int
  sc_ts :: int
  sc_wg :: int

text \<open>
  The map holds pointers: \<open>g_calls\<close> gives the address of a call, \<open>g_heap\<close> its fields,
  \<open>g_next\<close> a fresh address. \<open>g_expired\<close> and \<open>g_cleaned\<close> are ghost fields: the calls the cleanup loop
  timed out, the keys it removed.
\<close>

record 'a group =
  g_calls :: "string \<rightharpoonup> nat"
  g_heap :: "nat \<Rightarrow> 'a sf_call option"
  g_next :: nat
  g_expired :: "nat set"
  g_cleaned :: "string set"

definition NewGroup :: "'a group" where
  "NewGroup = \<lparr>g_calls = Map.empty, g_heap = Map.empty, g_next = 0, g_expired = {}, g_cleaned = {}\<rparr>"

definition ErrTimeout :: go_error where
  "ErrTimeout = Errf ''merge timeout''"

datatype 'a entered =
    Cached "'a result option" int
  | Joined nat
  | Leading nat

text \<open>The first critical section of \<open>Do\<close>.\<close>

definition do_enter :: "string \<Rightarrow> int \<Rightarrow> 'a group \<Rightarrow> 'a group \<times> 'a entered" where
  "do_enter key now g = (case g_calls g key of
      Some i \<Rightarrow>
        (case g_heap g i of
           Some c \<Rightarrow>
             let g' = g\<lparr>g_heap := (g_heap g)(i \<mapsto> c\<lparr>sc_count := sc_count c + 1\<rparr>)\<rparr>
             in if sc_done c then (g', Cached (sc_res c) (sc_count c + 1)) else (g', Joined i)
         | None \<Rightarrow> (g, Joined i))
    | None \<Rightarrow>
        let i = g_next g;
            c = \<lparr>sc_res = None, sc_done = False, sc_count = 1, sc_ts = now, sc_wg = 1\<rparr>
        in (g\<lparr>g_calls := (g_calls g)(key \<mapsto> i), g_heap := (g_heap g)(i \<mapsto> c), g_next := Suc i\<rparr>,
            Leading i))"

text \<open>
  \<^verbatim>\<open>c.val, c.err = fn(); c.done = true; c.wg.Done()\<close>: a WaitGroup that goes below zero
  panics.
\<close>

definition do_complete :: "nat \<Rightarrow> 'a result \<Rightarrow> 'a group \<Rightarrow> 'a group \<times> unit result" where
  "do_complete i r g = (case g_heap g i of
      None \<Rightarrow> (g, Inl GoPanic)
    | Some c \<Rightarrow>
        (g\<lparr>g_heap := (g_heap g)(i \<mapsto> c\<lparr>sc_res := Some r, sc_done := True, sc_wg := sc_wg c - 1\<rparr>)\<rparr>,
         if sc_wg c - 1 < 0 then Inl GoPanic else Inr ()))"

definition do_delete :: "string \<Rightarrow> 'a group \<Rightarrow> 'a group" where
  "do_delete key g = g\<lparr>g_calls := (g_calls g)(key := None)\<rparr>"

text \<open>The return of a waiter (once the counter is zero) and of the leader.\<close>

definition do_result :: "nat \<Rightarrow> 'a group \<Rightarrow> 'a result option \<times> int" where
  "do_result i g = (case g_heap g i of None \<Rightarrow> (None, 0) | Some c \<Rightarrow> (sc_res c, sc_count c))"

text \<open>One round of \<open>cleanupLoop\<close>: the visit of a key, and the round over the keys of the map.\<close>

definition cleanup_key :: "int \<Rightarrow> string \<Rightarrow> 'a group \<Rightarrow> 'a group" where
  "cleanup_key now key g = (case g_calls g key of
      None \<Rightarrow> g
    | Some i \<Rightarrow> (case g_heap g i of
          None \<Rightarrow> g
        | Some c \<Rightarrow>
            if now - sc_ts c > 10000 then
              let g1 = (if sc_done c then g
                        else g\<lparr>g_heap := (g_heap g)(i \<mapsto> c\<lparr>sc_res := Some (Inl ErrTimeout),
                                 sc_wg := sc_wg c - 1\<rparr>),
                               g_expired := insert i (g_expired g)\<rparr>)
              in do_delete key g1\<lparr>g_cleaned := insert key (g_cleaned g1)\<rparr>
            else g))"

definition cleanup_round :: "int \<Rightarrow> string list \<Rightarrow> 'a group \<Rightarrow> 'a group" where
  "cleanup_round now ks g = fold (cleanup_key now) ks g"

text \<open>\<open>Do\<close> run alone, to its return: what a single request does.\<close>

definition Do_alone ::
  "string \<Rightarrow> ('s \<Rightarrow> 's \<times> 'a result) \<Rightarrow> int \<Rightarrow> int \<Rightarrow> 'a group \<Rightarrow> 's
     \<Rightarrow> 'a group \<times> 's \<times> ('a result option \<times> int) option" where
  "Do_alone key fn mergeWindow now g s = (case do_enter key now g of
      (g1, Cached r n) \<Rightarrow> (g1, s, Some (r, n))
    | (g1, Joined i) \<Rightarrow> (g1, s, None)
    | (g1, Leading i) \<Rightarrow> (case fn s of (s', r) \<Rightarrow>
        (case do_complete i r g1 of
           (g2, Inl _) \<Rightarrow> (g2, s', None)
         | (g2, Inr _) \<Rightarrow>
             ((if mergeWindow > 0 then g2 else do_delete key g2), s', Some (do_result i g2)))))"

section \<open>Goroutines\<close>

datatype 'a goroutine =
    Ready string int
  | Waiting nat
  | Running nat string int
  | Publishing nat string int
  | Returned nat "'a result option" int
  | Panicked nat

record 'a flight =
  f_group :: "'a group"
  f_now :: int
  f_timers :: "string \<Rightarrow> int list"
  f_go :: "nat \<Rightarrow> 'a goroutine"
  f_runs :: "(nat \<times> 'a result) list"   \<comment> \<open>ghost: the executions of \<open>fn\<close>, by call\<close>

definition set_go :: "nat \<Rightarrow> 'a goroutine \<Rightarrow> 'a flight \<Rightarrow> 'a flight" where
  "set_go t pc f = f\<lparr>f_go := (f_go f)(t := pc)\<rparr>"

inductive flight_step :: "'a flight \<Rightarrow> 'a flight \<Rightarrow> bool" where
  enter_cached: "f_go f t = Ready key w \<Longrightarrow> do_enter key (f_now f) (f_group f) = (g, Cached r n) \<Longrightarrow>
    g_calls (f_group f) key = Some i \<Longrightarrow>
    flight_step f (set_go t (Returned i r n) (f\<lparr>f_group := g\<rparr>))"
| enter_join: "f_go f t = Ready key w \<Longrightarrow> do_enter key (f_now f) (f_group f) = (g, Joined i) \<Longrightarrow>
    flight_step f (set_go t (Waiting i) (f\<lparr>f_group := g\<rparr>))"
| enter_lead: "f_go f t = Ready key w \<Longrightarrow> do_enter key (f_now f) (f_group f) = (g, Leading i) \<Longrightarrow>
    flight_step f (set_go t (Running i key w) (f\<lparr>f_group := g\<rparr>))"
| complete: "f_go f t = Running i key w \<Longrightarrow> do_complete i r (f_group f) = (g, Inr ()) \<Longrightarrow>
    flight_step f (set_go t (Publishing i key w) (f\<lparr>f_group := g, f_runs := (i, r) # f_runs f\<rparr>))"
| complete_panic: "f_go f t = Running i key w \<Longrightarrow> do_complete i r (f_group f) = (g, Inl GoPanic) \<Longrightarrow>
    flight_step f (set_go t (Panicked i) (f\<lparr>f_group := g, f_runs := (i, r) # f_runs f\<rparr>))"
| publish_timer: "f_go f t = Publishing i key w \<Longrightarrow> 0 < w \<Longrightarrow> do_result i (f_group f) = (r, n) \<Longrightarrow>
    flight_step f (set_go t (Returned i r n)
      (f\<lparr>f_timers := (f_timers f)(key := (f_now f + w) # f_timers f key)\<rparr>))"
| publish_delete: "f_go f t = Publishing i key w \<Longrightarrow> w \<le> 0 \<Longrightarrow> do_result i (f_group f) = (r, n) \<Longrightarrow>
    flight_step f (set_go t (Returned i r n) (f\<lparr>f_group := do_delete key (f_group f)\<rparr>))"
| wake: "f_go f t = Waiting i \<Longrightarrow> g_heap (f_group f) i = Some c \<Longrightarrow> sc_wg c = 0 \<Longrightarrow>
    do_result i (f_group f) = (r, n) \<Longrightarrow>
    flight_step f (set_go t (Returned i r n) f)"
| timer: "f_timers f key = ts @ x # us \<Longrightarrow> x \<le> f_now f \<Longrightarrow>
    flight_step f (f\<lparr>f_timers := (f_timers f)(key := ts @ us),
      f_group := do_delete key (f_group f)\<rparr>)"
| cleanup: "flight_step f (f\<lparr>f_group := cleanup_round (f_now f) ks (f_group f)\<rparr>)"
| elapse: "0 \<le> d \<Longrightarrow> flight_step f (f\<lparr>f_now := f_now f + d\<rparr>)"

definition flight_init :: "'a flight \<Rightarrow> bool" where
  "flight_init f \<longleftrightarrow> f_group f = NewGroup \<and> f_timers f = (\<lambda>_. []) \<and> f_runs f = [] \<and>
     (\<forall>t. \<exists>key w. f_go f t = Ready key w)"

definition flight_reachable :: "'a flight \<Rightarrow> bool" where
  "flight_reachable f \<longleftrightarrow> (\<exists>f0. flight_init f0 \<and> flight_step\<^sup>*\<^sup>* f0 f)"

inductive_cases flight_stepE: "flight_step f f'"

section \<open>Invariants\<close>

text \<open>A call that the cleanup loop did not time out is either running or finished.\<close>

definition runs_of :: "nat \<Rightarrow> (nat \<times> 'a result) list \<Rightarrow> 'a result list" where
  "runs_of i runs = map snd (filter (\<lambda>x. fst x = i) runs)"

lemma runs_of_Cons [simp]:
  "runs_of i ((j, r) # runs) = (if j = i then r # runs_of i runs else runs_of i runs)"
  "runs_of i [] = []"
  by (simp_all add: runs_of_def)

definition call_ok :: "nat \<Rightarrow> 'a sf_call \<Rightarrow> (nat \<times> 'a result) list \<Rightarrow> bool" where
  "call_ok i c runs \<longleftrightarrow>
     (if sc_done c then sc_wg c = 0 \<and> (\<exists>r. sc_res c = Some r \<and> runs_of i runs = [r])
      else sc_wg c = 1 \<and> sc_res c = None \<and> runs_of i runs = [])"

text \<open>
  The heap: addresses below \<open>g_next\<close> are allocated, a timed-out call has a spent WaitGroup, and
  no call that is not allocated has run.
\<close>

definition heap_ok :: "'a group \<Rightarrow> (nat \<times> 'a result) list \<Rightarrow> bool" where
  "heap_ok g runs \<longleftrightarrow>
     (\<forall>i. (g_heap g i \<noteq> None) = (i < g_next g)) \<and>
     (\<forall>key i. g_calls g key = Some i \<longrightarrow> i < g_next g) \<and>
     (\<forall>i c. g_heap g i = Some c \<longrightarrow>
        (if i \<in> g_expired g then sc_wg c \<le> 0 else call_ok i c runs)) \<and>
     (\<forall>i. g_next g \<le> i \<longrightarrow> runs_of i runs = [] \<and> i \<notin> g_expired g)"

lemma heap_okD:
  assumes "heap_ok g runs"
  shows "g_heap g i = Some c \<Longrightarrow> i < g_next g"
    "g_calls g key = Some i \<Longrightarrow> i < g_next g"
    "g_heap g i = Some c \<Longrightarrow> i \<in> g_expired g \<Longrightarrow> sc_wg c \<le> 0"
    "g_heap g i = Some c \<Longrightarrow> i \<notin> g_expired g \<Longrightarrow> call_ok i c runs"
    "g_next g \<le> i \<Longrightarrow> runs_of i runs = [] \<and> i \<notin> g_expired g \<and> g_heap g i = None"
proof -
  note h = assms [unfolded heap_ok_def]
  show a: "i < g_next g" if "g_heap g i = Some c" for i c
    using h that by (metis option.distinct(1))
  show "i < g_next g" if "g_calls g key = Some i"
    using h that by blast
  show "sc_wg c \<le> 0" if "g_heap g i = Some c" "i \<in> g_expired g"
    using h that by metis
  show "call_ok i c runs" if "g_heap g i = Some c" "i \<notin> g_expired g"
    using h that by metis
  show "runs_of i runs = [] \<and> i \<notin> g_expired g \<and> g_heap g i = None" if "g_next g \<le> i"
    using h that a by (metis not_le)
qed

lemma heap_ok_allocD: "heap_ok g runs \<Longrightarrow> i < g_next g \<Longrightarrow> \<exists>c. g_heap g i = Some c"
  unfolding heap_ok_def by blast

lemma heap_ok_alloc:
  assumes "heap_ok g runs" "i < g_next g"
  obtains c where "g_heap g i = Some c"
  using assms unfolding heap_ok_def by blast

text \<open>What a goroutine knows about its call.\<close>

fun go_ok :: "'a group \<Rightarrow> 'a goroutine \<Rightarrow> bool" where
  "go_ok g (Ready key w) = True"
| "go_ok g (Waiting i) = (i < g_next g)"
| "go_ok g (Running i key w) = (\<exists>c. g_heap g i = Some c \<and> (i \<notin> g_expired g \<longrightarrow> \<not> sc_done c))"
| "go_ok g (Publishing i key w) =
     (\<exists>c. g_heap g i = Some c \<and> (i \<notin> g_expired g \<longrightarrow> sc_done c))"
| "go_ok g (Returned i r n) = (\<exists>c. g_heap g i = Some c \<and> (i \<notin> g_expired g \<longrightarrow> sc_done c \<and> sc_res c = r))"
| "go_ok g (Panicked i) = (i \<in> g_expired g)"

fun leads :: "'a goroutine \<Rightarrow> nat option" where
  "leads (Running i key w) = Some i"
| "leads (Publishing i key w) = Some i"
| "leads _ = None"

definition flight_inv :: "'a flight \<Rightarrow> bool" where
  "flight_inv f \<longleftrightarrow> heap_ok (f_group f) (f_runs f) \<and> (\<forall>t. go_ok (f_group f) (f_go f t)) \<and>
     (\<forall>t t' i. leads (f_go f t) = Some i \<longrightarrow> leads (f_go f t') = Some i \<longrightarrow> t = t')"

text \<open>
  How a step may change the group without disturbing the goroutines that do not take part:
  finished calls keep their result, running calls other than \<open>j\<close> stay running.
\<close>

definition keeps_calls :: "nat option \<Rightarrow> 'a group \<Rightarrow> 'a group \<Rightarrow> bool" where
  "keeps_calls j g g' \<longleftrightarrow> g_next g \<le> g_next g' \<and> g_expired g \<subseteq> g_expired g' \<and>
     (\<forall>i c. g_heap g i = Some c \<longrightarrow> (\<exists>c'. g_heap g' i = Some c' \<and>
        (i \<notin> g_expired g' \<longrightarrow> (sc_done c \<longrightarrow> sc_done c' \<and> sc_res c' = sc_res c) \<and>
           (Some i \<noteq> j \<longrightarrow> sc_done c' = sc_done c))))"

lemma keeps_calls_refl [simp]: "keeps_calls j g g"
  by (simp add: keeps_calls_def)

lemma keeps_go_ok:
  assumes "keeps_calls j g g'" "go_ok g pc" "j = None \<or> leads pc \<noteq> j"
  shows "go_ok g' pc"
proof -
  have h: "\<exists>c'. g_heap g' i = Some c' \<and> (i \<notin> g_expired g' \<longrightarrow> i \<notin> g_expired g \<and>
      (sc_done c \<longrightarrow> sc_done c' \<and> sc_res c' = sc_res c) \<and> (Some i \<noteq> j \<longrightarrow> sc_done c' = sc_done c))"
    if "g_heap g i = Some c" for i c
    using assms(1) that unfolding keeps_calls_def by blast
  show ?thesis
    using assms(2,3)
    by (cases pc) (use assms(1) h in \<open>fastforce simp: keeps_calls_def\<close>)+
qed

lemma enter_lead_ok:
  assumes "do_enter key now g = (g', Leading i)" "heap_ok g runs"
  shows "heap_ok g' runs" "keeps_calls None g g'" "i = g_next g" "g_next g' = Suc i"
    "go_ok g' (Running i key w)" "g_calls g key = None" "g_calls g' = (g_calls g)(key \<mapsto> i)"
    "g_expired g' = g_expired g" "g_cleaned g' = g_cleaned g"
proof -
  have k: "g_calls g key = None"
    using assms(1) by (auto simp: do_enter_def Let_def split: option.splits if_splits)
  then have i: "i = g_next g"
    and g': "g' = g\<lparr>g_calls := (g_calls g)(key \<mapsto> i),
      g_heap := (g_heap g)(i \<mapsto> \<lparr>sc_res = None, sc_done = False, sc_count = 1, sc_ts = now, sc_wg = 1\<rparr>),
      g_next := Suc i\<rparr>"
    using assms(1) by (auto simp: do_enter_def Let_def)
  have free: "g_heap g i = None" "runs_of i runs = []" "i \<notin> g_expired g"
    using heap_okD(5) [OF assms(2), of i] i by auto
  show "heap_ok g' runs"
    unfolding heap_ok_def
    using heap_okD [OF assms(2)] heap_ok_allocD [OF assms(2)] i free
    by (auto simp: g' call_ok_def less_Suc_eq Suc_le_eq)
  show "keeps_calls None g g'" "i = g_next g" "g_next g' = Suc i" "go_ok g' (Running i key w)"
    "g_calls g key = None" "g_calls g' = (g_calls g)(key \<mapsto> i)" "g_expired g' = g_expired g"
    "g_cleaned g' = g_cleaned g"
    using free i k by (auto simp: keeps_calls_def g')
qed

lemma enter_hit_ok:
  assumes "do_enter key now g = (g', e)" "\<And>i. e \<noteq> Leading i" "heap_ok g runs"
  obtains i c where "g_calls g key = Some i" "g_heap g i = Some c"
    "g' = g\<lparr>g_heap := (g_heap g)(i \<mapsto> c\<lparr>sc_count := sc_count c + 1\<rparr>)\<rparr>"
    "e = (if sc_done c then Cached (sc_res c) (sc_count c + 1) else Joined i)"
    "heap_ok g' runs" "keeps_calls None g g'"
proof -
  obtain i where i: "g_calls g key = Some i"
    using assms(1,2) by (cases "g_calls g key") (auto simp: do_enter_def Let_def)
  then have "i < g_next g"
    by (rule heap_okD [OF assms(3)])
  then obtain c where c: "g_heap g i = Some c"
    by (rule heap_ok_alloc [OF assms(3)])
  have g': "g' = g\<lparr>g_heap := (g_heap g)(i \<mapsto> c\<lparr>sc_count := sc_count c + 1\<rparr>)\<rparr>"
    and e: "e = (if sc_done c then Cached (sc_res c) (sc_count c + 1) else Joined i)"
    using assms(1) i c by (auto simp: do_enter_def Let_def split: if_splits)
  moreover have "heap_ok g' runs"
    unfolding heap_ok_def
    using heap_okD [OF assms(3)] heap_ok_allocD [OF assms(3)] c \<open>i < g_next g\<close>
    by (auto simp: g' call_ok_def)
  moreover have "keeps_calls None g g'"
    using c by (auto simp: g' keeps_calls_def)
  ultimately show thesis
    using i c that by blast
qed

lemma complete_ok:
  assumes "do_complete i r g = (g', p)" "heap_ok g runs" "go_ok g (Running i key w)"
  shows "heap_ok g' ((i, r) # runs)" "keeps_calls (Some i) g g'"
    "p = Inr () \<Longrightarrow> go_ok g' (Publishing i key w) \<and> i \<notin> g_expired g"
    "p = Inl e \<Longrightarrow> i \<in> g_expired g'"
    "g_calls g' = g_calls g" "g_expired g' = g_expired g" "g_cleaned g' = g_cleaned g"
proof -
  obtain c where c: "g_heap g i = Some c" "i \<notin> g_expired g \<longrightarrow> \<not> sc_done c"
    using assms(3) by auto
  then have g': "g' = g\<lparr>g_heap := (g_heap g)(i \<mapsto> c\<lparr>sc_res := Some r, sc_done := True, sc_wg := sc_wg c - 1\<rparr>)\<rparr>"
    and p: "p = (if sc_wg c - 1 < 0 then Inl GoPanic else Inr ())"
    using assms(1) by (auto simp: do_complete_def)
  have h: "if i \<in> g_expired g then sc_wg c \<le> 0 else call_ok i c runs" "i < g_next g"
    using heap_okD [OF assms(2)] c(1) by auto
  then have wg: "sc_wg c \<le> 1"
    by (auto simp: call_ok_def split: if_splits)
  show "heap_ok g' ((i, r) # runs)"
    unfolding heap_ok_def
    using heap_okD [OF assms(2)] heap_ok_allocD [OF assms(2)] c h wg by (auto simp: g' call_ok_def)
  show "keeps_calls (Some i) g g'" "g_calls g' = g_calls g" "g_expired g' = g_expired g"
    "g_cleaned g' = g_cleaned g"
    using c by (auto simp: keeps_calls_def g')
  show "go_ok g' (Publishing i key w) \<and> i \<notin> g_expired g" if "p = Inr ()"
    using p that h by (auto simp: g' split: if_splits)
  show "i \<in> g_expired g'" if "p = Inl e"
    using p that h c by (auto simp: g' call_ok_def split: if_splits)
qed

lemma delete_ok:
  "heap_ok g runs \<Longrightarrow> heap_ok (do_delete key g) runs" "keeps_calls j g (do_delete key g)"
  by (auto simp: heap_ok_def do_delete_def keeps_calls_def)

lemma cleanup_key_ok:
  assumes "heap_ok g runs"
  shows "heap_ok (cleanup_key now key g) runs \<and> keeps_calls None g (cleanup_key now key g)"
proof (cases "g_calls g key")
  case (Some i)
  then have i: "i < g_next g"
    by (rule heap_okD [OF assms])
  then obtain c where c: "g_heap g i = Some c"
    by (rule heap_ok_alloc [OF assms])
  have h: "if i \<in> g_expired g then sc_wg c \<le> 0 else call_ok i c runs"
    using heap_okD [OF assms] c by auto
  then have wg: "sc_wg c \<le> 1"
    by (auto simp: call_ok_def split: if_splits)
  have "heap_ok (cleanup_key now key g) runs"
    unfolding heap_ok_def
    using heap_okD [OF assms] heap_ok_allocD [OF assms] Some c i h wg
    by (auto simp: cleanup_key_def Let_def do_delete_def call_ok_def)
  moreover have "keeps_calls None g (cleanup_key now key g)"
    using Some c by (auto simp: cleanup_key_def Let_def do_delete_def keeps_calls_def)
  ultimately show ?thesis ..
qed (use assms in \<open>simp_all add: cleanup_key_def\<close>)

lemma keeps_callsD:
  "keeps_calls j g g' \<Longrightarrow> g_heap g i = Some c \<Longrightarrow> \<exists>c'. g_heap g' i = Some c' \<and>
    (i \<notin> g_expired g' \<longrightarrow> (sc_done c \<longrightarrow> sc_done c' \<and> sc_res c' = sc_res c) \<and>
      (Some i \<noteq> j \<longrightarrow> sc_done c' = sc_done c))"
  unfolding keeps_calls_def by blast

lemma keeps_calls_trans:
  assumes "keeps_calls None g g'" "keeps_calls None g' g''"
  shows "keeps_calls None g g''"
proof -
  have "\<exists>c''. g_heap g'' i = Some c'' \<and> (i \<notin> g_expired g'' \<longrightarrow>
      (sc_done c \<longrightarrow> sc_done c'' \<and> sc_res c'' = sc_res c) \<and> sc_done c'' = sc_done c)"
    if h: "g_heap g i = Some c" for i c
  proof -
    obtain c' where c': "g_heap g' i = Some c'" "i \<notin> g_expired g' \<longrightarrow>
        (sc_done c \<longrightarrow> sc_done c' \<and> sc_res c' = sc_res c) \<and> sc_done c' = sc_done c"
      using keeps_callsD [OF assms(1) h] by auto
    moreover obtain c'' where "g_heap g'' i = Some c''" "i \<notin> g_expired g'' \<longrightarrow>
        (sc_done c' \<longrightarrow> sc_done c'' \<and> sc_res c'' = sc_res c') \<and> sc_done c'' = sc_done c'"
      using keeps_callsD [OF assms(2) c'(1)] by auto
    moreover have "g_expired g' \<subseteq> g_expired g''"
      using assms(2) by (simp add: keeps_calls_def)
    ultimately show ?thesis by auto
  qed
  with assms show ?thesis by (auto simp: keeps_calls_def)
qed

lemma cleanup_round_ok:
  "heap_ok g runs \<Longrightarrow> heap_ok (cleanup_round now ks g) runs \<and> keeps_calls None g (cleanup_round now ks g)"
proof (induction ks arbitrary: g)
  case (Cons k ks)
  from cleanup_key_ok [OF Cons.prems] Cons.IH [of "cleanup_key now k g"] show ?case
    by (auto simp: cleanup_round_def intro: keeps_calls_trans)
qed (simp add: cleanup_round_def)


text \<open>A step of goroutine \<open>t\<close> keeps the invariant if its own part is in order.\<close>

lemma inv_stepI:
  assumes "flight_inv f" "heap_ok g runs" "keeps_calls j (f_group f) g" "go_ok g pc"
    and "j = None \<or> leads (f_go f t) = j"
    and "\<And>i. leads pc = Some i \<Longrightarrow> leads (f_go f t) = Some i \<or> g_next (f_group f) \<le> i"
    and "f_group f' = g" "f_runs f' = runs" "f_go f' = (f_go f)(t := pc)"
  shows "flight_inv f'"
proof -
  have uniq: "t1 = t2" if "leads (f_go f t1) = Some i" "leads (f_go f t2) = Some i" for t1 t2 i
    using assms(1) that by (auto simp: flight_inv_def)
  have go: "go_ok (f_group f) (f_go f t')" for t'
    using assms(1) by (simp add: flight_inv_def)
  have old: "i < g_next (f_group f)" if "leads (f_go f t') = Some i" for t' i
    using go [of t'] that assms(1)
    by (cases "f_go f t'") (auto simp: flight_inv_def dest: heap_okD(1))
  have "go_ok g (f_go f t')" if "t' \<noteq> t" for t'
    by (rule keeps_go_ok [OF assms(3) go]) (use assms(5) uniq that in \<open>cases j; auto\<close>)
  then have "\<forall>t'. go_ok g (f_go f' t')"
    using assms(4,9) by simp
  moreover have "t1 = t2" if "leads (f_go f' t1) = Some i" "leads (f_go f' t2) = Some i" for t1 t2 i
    using that assms(6,9) uniq old by (auto split: if_splits simp: not_le [symmetric])
  ultimately show ?thesis
    using assms(2,7,8) by (auto simp: flight_inv_def)
qed

lemma inv_groupI:
  assumes "flight_inv f" "heap_ok (f_group f') (f_runs f')" "keeps_calls None (f_group f) (f_group f')"
    and "f_go f' = f_go f"
  shows "flight_inv f'"
  using assms keeps_go_ok [OF assms(3)] by (auto simp: flight_inv_def)

lemma result_ok:
  assumes "heap_ok g runs" "do_result i g = (r, n)" "g_heap g i = Some c" "i \<notin> g_expired g \<longrightarrow> sc_done c"
  shows "go_ok g (Returned i r n)"
  using assms by (auto simp: do_result_def)

lemma inv_heap: "flight_inv f \<Longrightarrow> heap_ok (f_group f) (f_runs f)"
  by (simp add: flight_inv_def)

lemma inv_go: "flight_inv f \<Longrightarrow> f_go f t = pc \<Longrightarrow> go_ok (f_group f) pc"
  by (auto simp: flight_inv_def)

lemma flight_inv_step:
  assumes "flight_step f f'" "flight_inv f"
  shows "flight_inv f'"
  using assms(1)
proof cases
  case (enter_cached t key w g r n i)
  have h: "heap_ok (f_group f) (f_runs f)"
    by (rule inv_heap [OF assms(2)])
  show ?thesis
  proof (rule enter_hit_ok [OF enter_cached(3) _ h])
    fix i' c assume *: "g_calls (f_group f) key = Some i'" "g_heap (f_group f) i' = Some c"
      "g = (f_group f)\<lparr>g_heap := (g_heap (f_group f))(i' \<mapsto> c\<lparr>sc_count := sc_count c + 1\<rparr>)\<rparr>"
      "Cached r n = (if sc_done c then Cached (sc_res c) (sc_count c + 1) else Joined i')"
      "heap_ok g (f_runs f)" "keeps_calls None (f_group f) g"
    then show ?thesis
      using enter_cached
      by (intro inv_stepI [OF assms(2) *(5,6), of "Returned i r n" t]) (auto simp: set_go_def split: if_splits)
  qed simp
next
  case (enter_join t key w g i)
  have h: "heap_ok (f_group f) (f_runs f)"
    by (rule inv_heap [OF assms(2)])
  show ?thesis
  proof (rule enter_hit_ok [OF enter_join(3) _ h])
    fix i' c assume *: "g_calls (f_group f) key = Some i'" "g_heap (f_group f) i' = Some c"
      "g = (f_group f)\<lparr>g_heap := (g_heap (f_group f))(i' \<mapsto> c\<lparr>sc_count := sc_count c + 1\<rparr>)\<rparr>"
      "Joined i = (if sc_done c then Cached (sc_res c) (sc_count c + 1) else Joined i')"
      "heap_ok g (f_runs f)" "keeps_calls None (f_group f) g"
    then have "i < g_next g"
      using heap_okD(1) [OF h] by (auto split: if_splits)
    with * show ?thesis
      using enter_join
      by (intro inv_stepI [OF assms(2) *(5,6), of "Waiting i" t]) (auto simp: set_go_def)
  qed simp
next
  case (enter_lead t key w g i)
  have h: "heap_ok (f_group f) (f_runs f)"
    by (rule inv_heap [OF assms(2)])
  note e = enter_lead_ok [OF enter_lead(3) h]
  show ?thesis
    using enter_lead e(3) by (intro inv_stepI [OF assms(2) e(1,2,5), of t]) (auto simp: set_go_def)
next
  case (complete t i key w r g)
  have h: "heap_ok (f_group f) (f_runs f)" "go_ok (f_group f) (Running i key w)"
    using inv_heap [OF assms(2)] inv_go [OF assms(2) complete(2)] .
  note c = complete_ok [OF complete(3) h]
  show ?thesis
    using complete c(3) [THEN conjunct1]
    by (intro inv_stepI [OF assms(2) c(1,2), of "Publishing i key w" t]) (simp_all add: set_go_def)
next
  case (complete_panic t i key w r g)
  have h: "heap_ok (f_group f) (f_runs f)" "go_ok (f_group f) (Running i key w)"
    using inv_heap [OF assms(2)] inv_go [OF assms(2) complete_panic(2)] .
  note c = complete_ok [OF complete_panic(3) h]
  show ?thesis
    using complete_panic c(4)
    by (intro inv_stepI [OF assms(2) c(1,2), of "Panicked i" t]) (simp_all add: set_go_def)
next
  case (publish_timer t i key w r n)
  have h: "heap_ok (f_group f) (f_runs f)" "go_ok (f_group f) (Publishing i key w)"
    using inv_heap [OF assms(2)] inv_go [OF assms(2) publish_timer(2)] .
  have "go_ok (f_group f) (Returned i r n)"
    using h(2) result_ok [OF h(1) publish_timer(4)] by auto
  then show ?thesis
    using publish_timer
    by (intro inv_stepI [OF assms(2) h(1) keeps_calls_refl, of "Returned i r n" None t])
      (simp_all add: set_go_def)
next
  case (publish_delete t i key w r n)
  have h: "heap_ok (f_group f) (f_runs f)" "go_ok (f_group f) (Publishing i key w)"
    using inv_heap [OF assms(2)] inv_go [OF assms(2) publish_delete(2)] .
  have "go_ok (do_delete key (f_group f)) (Returned i r n)"
    using h(2) result_ok [OF h(1) publish_delete(4)] by (auto simp: do_delete_def)
  then show ?thesis
    using publish_delete
    by (intro inv_stepI [OF assms(2) delete_ok(1) [OF h(1)] delete_ok(2),
          where pc = "Returned i r n" and j = None and t = t])
      (simp_all add: set_go_def)
next
  case (wake t i c r n)
  have h: "heap_ok (f_group f) (f_runs f)"
    by (rule inv_heap [OF assms(2)])
  have "i \<notin> g_expired (f_group f) \<longrightarrow> sc_done c"
    using heap_okD(4) [OF h wake(3)] wake(4) by (auto simp: call_ok_def split: if_splits)
  then have "go_ok (f_group f) (Returned i r n)"
    using result_ok [OF h wake(5,3)] by auto
  then show ?thesis
    using wake
    by (intro inv_stepI [OF assms(2) h keeps_calls_refl, of "Returned i r n" None t])
      (simp_all add: set_go_def)
next
  case (timer key ts x us)
  have h: "heap_ok (f_group f) (f_runs f)"
    by (rule inv_heap [OF assms(2)])
  show ?thesis
    by (rule inv_groupI [OF assms(2)]) (use timer delete_ok(1) [OF h] delete_ok(2) in simp_all)
next
  case (cleanup ks)
  have h: "heap_ok (f_group f) (f_runs f)"
    by (rule inv_heap [OF assms(2)])
  show ?thesis
    by (rule inv_groupI [OF assms(2)]) (use cleanup cleanup_round_ok [OF h] in simp_all)
next
  case (elapse d)
  with assms(2) show ?thesis by (simp add: flight_inv_def)
qed


lemma flight_inv_init: "flight_init f \<Longrightarrow> flight_inv f"
proof -
  assume "flight_init f"
  moreover have "go_ok (f_group f) (f_go f t) \<and> leads (f_go f t) = None" if h: "flight_init f" for t
  proof -
    obtain key w where "f_go f t = Ready key w"
      using h unfolding flight_init_def by blast
    then show ?thesis by simp
  qed
  ultimately show ?thesis
    by (auto simp: flight_inv_def flight_init_def heap_ok_def NewGroup_def)
qed

lemma flight_inv_reachable:
  assumes "flight_reachable f"
  shows "flight_inv f"
proof -
  obtain f0 where "flight_init f0" "flight_step\<^sup>*\<^sup>* f0 f"
    using assms by (auto simp: flight_reachable_def)
  from this(2,1) show ?thesis
    by (induction rule: rtranclp_induct) (auto intro: flight_inv_init flight_inv_step)
qed

section \<open>One execution per key\<close>

text \<open>
  A key that the cleanup loop never removed is in one of three phases: free; led by one
  goroutine that runs or publishes the call in the map; cached, with one timer pending.
\<close>

fun works_on :: "string \<Rightarrow> 'a goroutine \<Rightarrow> bool" where
  "works_on k (Running i key w) = (key = k)"
| "works_on k (Publishing i key w) = (key = k)"
| "works_on k _ = False"

definition phase_ok :: "'a flight \<Rightarrow> string \<Rightarrow> bool" where
  "phase_ok f k \<longleftrightarrow>
     g_calls (f_group f) k = None \<and> f_timers f k = [] \<and> (\<forall>t. \<not> works_on k (f_go f t)) \<or>
     g_calls (f_group f) k \<noteq> None \<and> f_timers f k = [] \<and>
       (\<exists>t. works_on k (f_go f t) \<and> (\<forall>t'. works_on k (f_go f t') \<longrightarrow> t' = t)) \<or>
     g_calls (f_group f) k \<noteq> None \<and> length (f_timers f k) = 1 \<and> (\<forall>t. \<not> works_on k (f_go f t))"

definition phases_ok :: "'a flight \<Rightarrow> bool" where
  "phases_ok f \<longleftrightarrow> (\<forall>k. k \<notin> g_cleaned (f_group f) \<longrightarrow> phase_ok f k)"

lemma phase_ok_cong:
  assumes "phase_ok f k" "g_calls (f_group f') k = g_calls (f_group f) k" "f_timers f' k = f_timers f k"
    "\<And>t. works_on k (f_go f' t) = works_on k (f_go f t)"
  shows "phase_ok f' k"
  using assms by (simp add: phase_ok_def)

lemma phase_led:
  "phase_ok f k \<Longrightarrow> works_on k (f_go f t) \<Longrightarrow>
    g_calls (f_group f) k \<noteq> None \<and> f_timers f k = [] \<and> (\<forall>t'. works_on k (f_go f t') \<longrightarrow> t' = t)"
  by (auto simp: phase_ok_def)

lemma cleanup_key_calls:
  "k \<notin> g_cleaned (cleanup_key now key g) \<Longrightarrow>
    g_calls (cleanup_key now key g) k = g_calls g k \<and> k \<notin> g_cleaned g"
  by (auto simp: cleanup_key_def do_delete_def Let_def split: option.splits if_splits)

lemma cleanup_round_calls:
  "k \<notin> g_cleaned (cleanup_round now ks g) \<Longrightarrow>
    g_calls (cleanup_round now ks g) k = g_calls g k \<and> k \<notin> g_cleaned g"
proof (induction ks arbitrary: g)
  case (Cons k' ks)
  then show ?case
    using cleanup_key_calls [of k now k' g] by (auto simp: cleanup_round_def)
qed (simp add: cleanup_round_def)

lemma enter_hit_calls:
  "do_enter key now g = (g', e) \<Longrightarrow> (\<And>i. e \<noteq> Leading i) \<Longrightarrow>
    g_calls g' = g_calls g \<and> g_cleaned g' = g_cleaned g"
  by (auto simp: do_enter_def Let_def split: option.splits if_splits)

lemma enter_lead_calls:
  "do_enter key now g = (g', Leading i) \<Longrightarrow>
    g_calls g key = None \<and> g_calls g' = (g_calls g)(key \<mapsto> i) \<and> g_cleaned g' = g_cleaned g"
  by (auto simp: do_enter_def Let_def split: option.splits if_splits)

lemma complete_calls:
  "do_complete i r g = (g', p) \<Longrightarrow> g_calls g' = g_calls g \<and> g_cleaned g' = g_cleaned g"
  by (auto simp: do_complete_def split: option.splits)

text \<open>
  The key of a running goroutine is the key of its call, and a call that was timed out while
  running has lost its key to the cleanup loop.
\<close>

definition home_ok :: "'a group \<Rightarrow> (nat \<Rightarrow> 'a goroutine) \<Rightarrow> bool" where
  "home_ok g go \<longleftrightarrow>
     (\<forall>k i t key w. g_calls g k = Some i \<longrightarrow> go t = Running i key w \<longrightarrow> key = k) \<and>
     (\<forall>t i key w. go t = Running i key w \<longrightarrow> i \<in> g_expired g \<longrightarrow> key \<in> g_cleaned g)"

lemma home_okD:
  "home_ok g go \<Longrightarrow> g_calls g k = Some i \<Longrightarrow> go t = Running i key w \<Longrightarrow> key = k"
  "home_ok g go \<Longrightarrow> go t = Running i key w \<Longrightarrow> i \<in> g_expired g \<Longrightarrow> key \<in> g_cleaned g"
  unfolding home_ok_def by blast+

lemma home_ok_mono:
  assumes "home_ok g go" "\<And>k i. g_calls g' k = Some i \<Longrightarrow> g_calls g k = Some i"
    "g_expired g' = g_expired g" "g_cleaned g' = g_cleaned g"
    "\<And>t' i key w. go' t' = Running i key w \<Longrightarrow> go t' = Running i key w"
  shows "home_ok g' go'"
  using assms unfolding home_ok_def by metis

lemma home_cleanup_key: "home_ok g go \<Longrightarrow> home_ok (cleanup_key now key g) go"
  by (auto simp: cleanup_key_def Let_def do_delete_def home_ok_def split: option.splits if_splits)

lemma home_cleanup_round: "home_ok g go \<Longrightarrow> home_ok (cleanup_round now ks g) go"
  by (induction ks arbitrary: g) (simp_all add: cleanup_round_def home_cleanup_key)

lemma enter_hit_expired:
  "do_enter key now g = (g', e) \<Longrightarrow> (\<And>i. e \<noteq> Leading i) \<Longrightarrow> g_expired g' = g_expired g"
  by (auto simp: do_enter_def Let_def split: option.splits if_splits)

lemma complete_expired: "do_complete i r g = (g', p) \<Longrightarrow> g_expired g' = g_expired g"
  by (auto simp: do_complete_def split: option.splits)

lemma home_step:
  assumes "flight_step f f'" "home_ok (f_group f) (f_go f)" "flight_inv f"
  shows "home_ok (f_group f') (f_go f')"
  using assms(1)
proof cases
  case (enter_cached t key w g r n i)
  then show ?thesis
    using enter_hit_calls [OF enter_cached(3)] enter_hit_expired [OF enter_cached(3)]
    by (intro home_ok_mono [OF assms(2)]) (simp_all add: set_go_def split: if_splits)
next
  case (enter_join t key w g i)
  then show ?thesis
    using enter_hit_calls [OF enter_join(3)] enter_hit_expired [OF enter_join(3)]
    by (intro home_ok_mono [OF assms(2)]) (simp_all add: set_go_def split: if_splits)
next
  case (enter_lead t key w g i)
  note h = inv_heap [OF assms(3)]
  note e = enter_lead_ok [OF enter_lead(3) h]
  have low: "j < i" if "f_go f t' = Running j key' w'" for t' j key' w'
    using inv_go [OF assms(3) that] heap_okD(1) [OF h] e(3) by auto
  have low': "j < i" if "g_calls (f_group f) k = Some j" for k j
    using heap_okD(2) [OF h that] e(3) by simp
  have "i \<notin> g_expired (f_group f)"
    using heap_okD(5) [OF h] e(3) by simp
  then show ?thesis
    using enter_lead e(7-9) low low' home_okD [OF assms(2)]
    by (fastforce simp: home_ok_def set_go_def)
next
  case (complete t i key w r g)
  then show ?thesis
    using complete_calls [OF complete(3)] complete_expired [OF complete(3)]
    by (intro home_ok_mono [OF assms(2)]) (simp_all add: set_go_def split: if_splits)
next
  case (complete_panic t i key w r g)
  then show ?thesis
    using complete_calls [OF complete_panic(3)] complete_expired [OF complete_panic(3)]
    by (intro home_ok_mono [OF assms(2)]) (simp_all add: set_go_def split: if_splits)
next
  case (publish_timer t i key w r n)
  then show ?thesis
    by (intro home_ok_mono [OF assms(2)]) (simp_all add: set_go_def split: if_splits)
next
  case (publish_delete t i key w r n)
  then show ?thesis
    by (intro home_ok_mono [OF assms(2)]) (simp_all add: set_go_def do_delete_def split: if_splits)
next
  case (wake t i c r n)
  then show ?thesis
    by (intro home_ok_mono [OF assms(2)]) (simp_all add: set_go_def split: if_splits)
next
  case (timer key ts x us)
  then show ?thesis
    by (intro home_ok_mono [OF assms(2)]) (simp_all add: do_delete_def split: if_splits)
next
  case (cleanup ks)
  then show ?thesis using home_cleanup_round [OF assms(2)] by simp
next
  case (elapse d)
  with assms(2) show ?thesis by simp
qed

lemma phases_otherI:
  assumes "phases_ok f" "g_cleaned g = g_cleaned (f_group f)" "g_calls g = g_calls (f_group f)"
    "f_group f' = g" "f_timers f' = f_timers f" "f_go f' = (f_go f)(t := pc)"
    "\<And>k. works_on k pc = works_on k (f_go f t)"
  shows "phases_ok f'"
  using assms phase_ok_cong [of f _ f'] by (simp add: phases_ok_def)

lemma phases_step:
  assumes "flight_step f f'" "phases_ok f" "home_ok (f_group f) (f_go f)" "flight_inv f"
  shows "phases_ok f'"
  using assms(1)
proof cases
  case (enter_cached t key w g r n i)
  then show ?thesis
    using enter_hit_calls [OF enter_cached(3)]
    by (intro phases_otherI [OF assms(2), where g = g and t = t and pc = "Returned i r n"]) (simp_all add: set_go_def)
next
  case (enter_join t key w g i)
  then show ?thesis
    using enter_hit_calls [OF enter_join(3)]
    by (intro phases_otherI [OF assms(2), where g = g and t = t and pc = "Waiting i"]) (simp_all add: set_go_def)
next
  case (complete t i key w r g)
  then show ?thesis
    using complete_calls [OF complete(3)]
    by (intro phases_otherI [OF assms(2), where g = g and t = t and pc = "Publishing i key w"])
      (simp_all add: set_go_def)
next
  case (wake t i c r n)
  then show ?thesis
    by (intro phases_otherI [OF assms(2), where t = t and pc = "Returned i r n"]) (simp_all add: set_go_def)
next
  case (enter_lead t key w g i)
  note g = enter_lead_calls [OF enter_lead(3)]
  have t: "\<not> works_on k (f_go f t)" for k
    using enter_lead(2) by simp
  show ?thesis
    unfolding phases_ok_def
  proof (intro allI impI)
    fix k assume k: "k \<notin> g_cleaned (f_group f')"
    then have ph: "phase_ok f k"
      using assms(2) g enter_lead(1) by (simp add: phases_ok_def set_go_def)
    show "phase_ok f' k"
    proof (cases "k = key")
      case False
      then show ?thesis
        using g enter_lead(1) t by (auto intro!: phase_ok_cong [OF ph] simp: set_go_def split: if_splits)
    next
      case True
      have "f_timers f key = []" "\<And>t'. \<not> works_on key (f_go f t')"
        using ph g True by (auto simp: phase_ok_def)
      then show ?thesis
        using g enter_lead(1) True by (auto simp: phase_ok_def set_go_def)
    qed
  qed
next
  case (complete_panic t i key w r g)
  have "i \<in> g_expired g"
    using complete_ok(4) [OF complete_panic(3) inv_heap [OF assms(4)] inv_go [OF assms(4) complete_panic(2)]]
    by simp
  then have key: "key \<in> g_cleaned (f_group f)"
    using home_okD(2) [OF assms(3) complete_panic(2)]
      complete_ok(6) [OF complete_panic(3) inv_heap [OF assms(4)] inv_go [OF assms(4) complete_panic(2)]]
    by simp
  have "phase_ok f' k" if "k \<notin> g_cleaned (f_group f')" for k
  proof -
    have "k \<noteq> key" "phase_ok f k"
      using that complete_panic(1) complete_calls [OF complete_panic(3)] key assms(2)
      by (auto simp: phases_ok_def set_go_def)
    then show ?thesis
      using complete_panic(1,2) complete_calls [OF complete_panic(3)]
      by (auto intro!: phase_ok_cong [of f k] simp: set_go_def split: if_splits)
  qed
  then show ?thesis by (simp add: phases_ok_def)
next
  case (publish_timer t i key w r n)
  show ?thesis
    unfolding phases_ok_def
  proof (intro allI impI)
    fix k assume k: "k \<notin> g_cleaned (f_group f')"
    then have ph: "phase_ok f k"
      using assms(2) publish_timer(1) by (simp add: phases_ok_def set_go_def)
    show "phase_ok f' k"
    proof (cases "k = key")
      case False
      then show ?thesis
        using publish_timer by (auto intro!: phase_ok_cong [OF ph] simp: set_go_def split: if_splits)
    next
      case True
      with phase_led [OF ph, of t] publish_timer show ?thesis
        by (auto simp: phase_ok_def set_go_def)
    qed
  qed
next
  case (publish_delete t i key w r n)
  show ?thesis
    unfolding phases_ok_def
  proof (intro allI impI)
    fix k assume k: "k \<notin> g_cleaned (f_group f')"
    then have ph: "phase_ok f k"
      using assms(2) publish_delete(1) by (simp add: phases_ok_def set_go_def do_delete_def)
    show "phase_ok f' k"
    proof (cases "k = key")
      case False
      then show ?thesis
        using publish_delete by (auto intro!: phase_ok_cong [OF ph] simp: set_go_def do_delete_def split: if_splits)
    next
      case True
      with phase_led [OF ph, of t] publish_delete show ?thesis
        by (auto simp: phase_ok_def set_go_def do_delete_def)
    qed
  qed
next
  case (timer key ts x us)
  show ?thesis
    unfolding phases_ok_def
  proof (intro allI impI)
    fix k assume k: "k \<notin> g_cleaned (f_group f')"
    then have ph: "phase_ok f k"
      using assms(2) timer(1) by (simp add: phases_ok_def do_delete_def)
    show "phase_ok f' k"
    proof (cases "k = key")
      case False
      then show ?thesis
        using timer by (auto intro!: phase_ok_cong [OF ph] simp: do_delete_def)
    next
      case True
      with ph timer show ?thesis
        by (auto simp: phase_ok_def do_delete_def)
    qed
  qed
next
  case (cleanup ks)
  have "phase_ok f' k" if k: "k \<notin> g_cleaned (f_group f')" for k
  proof -
    have "g_calls (f_group f') k = g_calls (f_group f) k" "k \<notin> g_cleaned (f_group f)"
      using cleanup_round_calls [of k "f_now f" ks "f_group f"] k unfolding cleanup by auto
    then show ?thesis
      using assms(2) cleanup by (auto simp: phases_ok_def intro: phase_ok_cong [of f k])
  qed
  then show ?thesis by (simp add: phases_ok_def)
next
  case (elapse d)
  with assms(2) show ?thesis by (auto simp: phases_ok_def phase_ok_def)
qed


lemma reachable_all:
  assumes "flight_reachable f"
  shows "flight_inv f \<and> home_ok (f_group f) (f_go f) \<and> phases_ok f"
proof -
  obtain f0 where init: "flight_init f0" and steps: "flight_step\<^sup>*\<^sup>* f0 f"
    using assms by (auto simp: flight_reachable_def)
  have ready: "\<exists>key w. f_go f0 t = Ready key w" for t
    using init by (simp add: flight_init_def)
  have no: "f_go f0 t \<noteq> Running i key w" "\<not> works_on k (f_go f0 t)" for t i key w k
    using ready [of t] by auto
  have "home_ok (f_group f0) (f_go f0)" "phases_ok f0"
    using init no by (auto simp: home_ok_def phases_ok_def phase_ok_def flight_init_def NewGroup_def)
  with steps flight_inv_init [OF init] show ?thesis
    by (induction rule: rtranclp_induct) (blast intro: flight_inv_step home_step phases_step)+
qed

section \<open>Shards\<close>

record 'a sharded =
  sg_shards :: "'a group list"
  sg_shardMask :: "64 word"

definition NewShardedGroup :: "64 word \<Rightarrow> 'a sharded" where
  "NewShardedGroup numShards =
     (let n = (if numShards \<le>s 0 \<or> numShards AND (numShards - 1) \<noteq> 0 then 256 else numShards)
      in \<lparr>sg_shards = replicate (unat n) NewGroup, sg_shardMask = n - 1\<rparr>)"

text \<open>FNV-1a; \<^verbatim>\<open>s[i]\<close> is a byte of the key.\<close>

fun fnv1a :: "64 word \<Rightarrow> string \<Rightarrow> 64 word" where
  "fnv1a h [] = h"
| "fnv1a h (c # s) = fnv1a ((h XOR of_char c) * 1099511628211) s"

definition hash :: "string \<Rightarrow> 64 word" where
  "hash s = fnv1a 14695981039346656037 s"

definition shard_of :: "'a sharded \<Rightarrow> string \<Rightarrow> nat" where
  "shard_of sg key = unat (hash key AND sg_shardMask sg)"

text \<open>\<open>ShardedGroup.Do\<close>, run alone: \<open>None\<close> is an index out of range (a panic).\<close>

definition sharded_Do_alone ::
  "string \<Rightarrow> ('s \<Rightarrow> 's \<times> 'a result) \<Rightarrow> int \<Rightarrow> int \<Rightarrow> 'a sharded \<Rightarrow> 's
     \<Rightarrow> ('a sharded \<times> 's \<times> ('a result option \<times> int) option) option" where
  "sharded_Do_alone key fn mergeWindow now sg s =
     (let idx = shard_of sg key in
      if idx < length (sg_shards sg)
      then (case Do_alone key fn mergeWindow now (sg_shards sg ! idx) s of
              (g, s', out) \<Rightarrow> Some (sg\<lparr>sg_shards := (sg_shards sg)[idx := g]\<rparr>, s', out))
      else None)"

definition Stats :: "'a group \<Rightarrow> string list \<Rightarrow> int \<times> int" where
  "Stats g ks = (int (length ks),
     sum_list (map (\<lambda>k. case g_calls g k of None \<Rightarrow> 0 | Some i \<Rightarrow> snd (do_result i g) - 1) ks))"

text \<open>The shards are visited in order, each with the enumeration of its keys.\<close>

definition sharded_Stats :: "'a sharded \<Rightarrow> string list list \<Rightarrow> int \<times> int" where
  "sharded_Stats sg kss = foldl (\<lambda>(activeCalls, totalWaited) (shard, ks).
     case Stats shard ks of (a, t) \<Rightarrow> (activeCalls + a, totalWaited + t)) (0, 0) (zip (sg_shards sg) kss)"

text \<open>\<open>DoChan\<close>: what its channel holds once the goroutine it starts has returned.\<close>

definition DoChan ::
  "string \<Rightarrow> ('s \<Rightarrow> 's \<times> 'a result) \<Rightarrow> int \<Rightarrow> int \<Rightarrow> 'a group \<Rightarrow> 's \<Rightarrow> 'a group \<times> 's \<times> ('a result option \<times> int) list" where
  "DoChan key fn mergeWindow now g s = (case Do_alone key fn mergeWindow now g s of
      (g1, s1, None) \<Rightarrow> (g1, s1, []) | (g1, s1, Some r) \<Rightarrow> (g1, s1, [r]))"

lemma mask_below:
  assumes "0 <s n"
  shows "unat (h AND (n - 1)) < unat (n :: 64 word)"
proof -
  have "n \<noteq> 0"
    using assms by auto
  then have "unat (n - 1) < unat n"
    by (rule measure_unat)
  moreover have "unat (h AND (n - 1)) \<le> unat (n - 1)"
    using word_and_le1 [of h "n - 1"] by (simp only: word_le_nat_alt)
  ultimately show ?thesis by simp
qed

lemma shard_in_range: "shard_of (NewShardedGroup n) key < length (sg_shards (NewShardedGroup n))"
proof -
  have "unat (h AND (m - 1)) < unat m" if "m = (if n \<le>s 0 \<or> n AND (n - 1) \<noteq> 0 then 256 else n)" for h m :: "64 word"
  proof (cases "n \<le>s 0 \<or> n AND (n - 1) \<noteq> 0")
    case True
    then show ?thesis
      using mask_below [of 256 h] that by (simp add: word_sless_alt)
  next
    case False
    then have "0 <s n"
      by (auto simp: word_sless_alt word_sle_eq)
    with False that mask_below [of n h] show ?thesis by simp
  qed
  then show ?thesis
    unfolding shard_of_def NewShardedGroup_def Let_def by simp
qed

section \<open>Properties\<close>

text \<open>
  C18. At most one execution per key: as long as the cleanup loop has not removed a key, two
  goroutines that each run the function of that key, or publish its result, are the same
  goroutine in the same call, in any interleaving of requests, completions, timers and time: no
  run overlaps another run or another's publication, and no two publications overlap.
\<close>

theorem single_flight:
  assumes "flight_reachable f" "key \<notin> g_cleaned (f_group f)"
    and "f_go f t1 = Running i1 key w1 \<or> f_go f t1 = Publishing i1 key w1"
    and "f_go f t2 = Running i2 key w2 \<or> f_go f t2 = Publishing i2 key w2"
  shows "t1 = t2 \<and> i1 = i2"
proof -
  have "phase_ok f key"
    using reachable_all [OF assms(1)] assms(2) by (simp add: phases_ok_def)
  moreover have "works_on key (f_go f t1)" "works_on key (f_go f t2)"
    using assms(3,4) by auto
  ultimately have "t2 = t1"
    using phase_led [of f key t1] by blast
  with assms(3,4) show ?thesis by auto
qed

definition demo_flight :: "int flight" where
  "demo_flight = \<lparr>f_group = NewGroup, f_now = 0, f_timers = (\<lambda>_. []), f_go = (\<lambda>_. Ready ''k'' 100), f_runs = []\<rparr>"

lemma demo_flight_run:
  "\<exists>f :: int flight. flight_reachable f \<and> f_go f 0 = Running 0 ''k'' 100 \<and> g_cleaned (f_group f) = {} \<and>
     f_group f = fst (do_enter ''k'' 0 NewGroup)"
proof -
  let ?f = "set_go 0 (Running 0 ''k'' 100) (demo_flight\<lparr>f_group := fst (do_enter ''k'' 0 NewGroup)\<rparr>)"
  have "flight_step demo_flight ?f"
    by (rule flight_step.enter_lead) (simp_all add: demo_flight_def do_enter_def NewGroup_def Let_def)
  then have "flight_reachable ?f"
    by (auto simp: flight_reachable_def flight_init_def demo_flight_def intro!: exI [of _ demo_flight])
  then show ?thesis
    by (intro exI [of _ ?f]) (simp add: set_go_def do_enter_def NewGroup_def Let_def demo_flight_def)
qed

theorem single_flight_witness:
  "\<exists>f :: int flight. flight_reachable f \<and> f_go f 0 = Running 0 ''k'' 100 \<and>
     (\<forall>t i w. f_go f t = Running i ''k'' w \<or> f_go f t = Publishing i ''k'' w \<longrightarrow> t = 0 \<and> i = 0)"
proof -
  obtain f :: "int flight" where f: "flight_reachable f" "f_go f 0 = Running 0 ''k'' 100" "g_cleaned (f_group f) = {}"
    using demo_flight_run by blast
  have "t = 0 \<and> i = 0" if "f_go f t = Running i ''k'' w \<or> f_go f t = Publishing i ''k'' w" for t i w
    using single_flight [OF f(1) _ that disjI1 [OF f(2)]] f(3) by simp
  with f show ?thesis by blast
qed

text \<open>
  C19. Every request gets the result of the one execution of its call: if a goroutine returned
  from call \<open>i\<close> and the cleanup loop did not time \<open>i\<close> out, then \<open>fn\<close> was run exactly once for
  \<open>i\<close>, and what the goroutine returned, leader, waiter or cache hit, is that run's result.
\<close>

theorem coalesced_result:
  assumes "flight_reachable f" "f_go f t = Returned i r n" "i \<notin> g_expired (f_group f)"
  shows "\<exists>v. r = Some v \<and> runs_of i (f_runs f) = [v]"
proof -
  have inv: "flight_inv f"
    using reachable_all [OF assms(1)] by simp
  obtain c where c: "g_heap (f_group f) i = Some c" "sc_done c" "sc_res c = r"
    using inv_go [OF inv assms(2)] assms(3) by auto
  then have "call_ok i c (f_runs f)"
    using heap_okD(4) [OF inv_heap [OF inv]] assms(3) by blast
  with c show ?thesis by (auto simp: call_ok_def)
qed

theorem coalesced_result_witness:
  "\<exists>(f :: int flight) v. flight_reachable f \<and> f_go f 0 = Returned 0 (Some v) 1 \<and> runs_of 0 (f_runs f) = [v]"
proof -
  obtain f :: "int flight" where f: "flight_reachable f" "f_go f 0 = Running 0 ''k'' 100"
    "f_group f = fst (do_enter ''k'' 0 NewGroup)"
    using demo_flight_run by blast
  let ?g = "fst (do_complete 0 (Inr 5) (f_group f))"
  let ?f1 = "set_go 0 (Publishing 0 ''k'' 100) (f\<lparr>f_group := ?g, f_runs := (0, Inr 5) # f_runs f\<rparr>)"
  let ?f2 = "set_go 0 (Returned 0 (Some (Inr 5)) 1)
    (?f1\<lparr>f_timers := (f_timers ?f1)(''k'' := (f_now ?f1 + 100) # f_timers ?f1 ''k'')\<rparr>)"
  have s1: "flight_step f ?f1"
    by (rule flight_step.complete [OF f(2)]) (simp add: f(3) do_complete_def do_enter_def NewGroup_def Let_def)
  have s2: "flight_step ?f1 ?f2"
    by (rule flight_step.publish_timer)
      (simp_all add: set_go_def f(3) do_complete_def do_enter_def NewGroup_def Let_def do_result_def)
  have r: "flight_reachable ?f2"
    using f(1) s1 s2 unfolding flight_reachable_def by (meson rtranclp.rtrancl_into_rtrancl)
  have "0 \<notin> g_expired (f_group ?f2)" "f_go ?f2 0 = Returned 0 (Some (Inr 5)) 1"
    by (simp_all add: set_go_def f(3) do_complete_def do_enter_def NewGroup_def Let_def)
  from coalesced_result [OF r this(2,1)] this(2) r show ?thesis by blast
qed

text \<open>
  A slow execution crashes: when the cleanup loop finds a call that has been running for
  more than ten seconds it spends the WaitGroup and forgets the call; when \<open>fn\<close> then returns,
  the leader's \<open>wg.Done\<close> takes the counter below zero and panics, whatever the result.
\<close>

theorem slow_call_panics:
  assumes "flight_reachable f" "f_go f t = Running i key w" "key \<notin> g_cleaned (f_group f)"
    and "g_heap (f_group f) i = Some c" "sc_ts c + 10000 < f_now f" "g_calls (f_group f) key = Some i"
  shows "\<exists>f'. flight_step\<^sup>*\<^sup>* f f' \<and> f_go f' t = Panicked i"
proof -
  let ?g = "cleanup_round (f_now f) [key] (f_group f)"
  let ?f1 = "f\<lparr>f_group := ?g\<rparr>"
  have inv: "flight_inv f" and home: "home_ok (f_group f) (f_go f)"
    using reachable_all [OF assms(1)] by simp_all
  have i: "i \<notin> g_expired (f_group f)"
    using home_okD(2) [OF home assms(2)] assms(3) by blast
  then have "\<not> sc_done c" "sc_wg c = 1"
    using inv_go [OF inv assms(2)] assms(4) heap_okD(4) [OF inv_heap [OF inv] assms(4) i]
    by (auto simp: call_ok_def)
  then have "g_heap ?g i = Some (c\<lparr>sc_res := Some (Inl ErrTimeout), sc_wg := 0\<rparr>)"
    using assms(4-6) by (simp add: cleanup_round_def cleanup_key_def do_delete_def Let_def)
  then have p: "\<exists>g. do_complete i (Inl ErrTimeout) ?g = (g, Inl GoPanic)"
    by (simp add: do_complete_def)
  then obtain g where g: "do_complete i (Inl ErrTimeout) (f_group ?f1) = (g, Inl GoPanic)"
    by auto
  have s1: "flight_step f ?f1"
    by (rule flight_step.cleanup)
  have s2: "flight_step ?f1 (set_go t (Panicked i) (?f1\<lparr>f_group := g, f_runs := (i, Inl ErrTimeout) # f_runs ?f1\<rparr>))"
    by (rule flight_step.complete_panic [OF _ g, of t key w]) (simp add: assms(2))
  have "flight_step\<^sup>*\<^sup>* f (set_go t (Panicked i) (?f1\<lparr>f_group := g, f_runs := (i, Inl ErrTimeout) # f_runs ?f1\<rparr>))"
    by (rule rtranclp.rtrancl_into_rtrancl [OF r_into_rtranclp [of flight_step, OF s1] s2])
  moreover have "f_go (set_go t (Panicked i) (?f1\<lparr>f_group := g, f_runs := (i, Inl ErrTimeout) # f_runs ?f1\<rparr>)) t = Panicked i"
    by (simp add: set_go_def)
  ultimately show ?thesis by blast
qed

theorem slow_call_panics_witness:
  "\<exists>f f' :: int flight. flight_reachable f \<and> f_go f 0 = Running 0 ''k'' 100 \<and> flight_step\<^sup>*\<^sup>* f f' \<and> f_go f' 0 = Panicked 0"
proof -
  obtain f :: "int flight" where f: "flight_reachable f" "f_go f 0 = Running 0 ''k'' 100" "g_cleaned (f_group f) = {}"
    "f_group f = fst (do_enter ''k'' 0 NewGroup)"
    using demo_flight_run by blast
  let ?d = "max 0 (20000 - f_now f)"
  let ?f = "f\<lparr>f_now := f_now f + ?d\<rparr>"
  have "flight_step f ?f"
    by (rule flight_step.elapse) simp
  then have r: "flight_reachable ?f"
    using f(1) unfolding flight_reachable_def by (meson rtranclp.rtrancl_into_rtrancl)
  obtain c where c: "g_heap (f_group ?f) 0 = Some c" "sc_ts c = 0" "g_calls (f_group ?f) ''k'' = Some 0"
    by (simp add: f(4) do_enter_def NewGroup_def Let_def)
  have run: "f_go ?f 0 = Running 0 ''k'' 100"
    using f(2) by simp
  have cl: "''k'' \<notin> g_cleaned (f_group ?f)"
    using f(3) by simp
  have "sc_ts c + 10000 < f_now ?f"
    using c(2) by (simp add: max_def)
  then obtain f' where "flight_step\<^sup>*\<^sup>* ?f f'" "f_go f' 0 = Panicked 0"
    using slow_call_panics [OF r run cl c(1) _ c(3)] by blast
  with r run show ?thesis by blast
qed

text \<open>
  The sharded group routes every key to an existing shard: for any number of shards passed to
  the constructor (one that is no power of two falls back to 256) the masked FNV-1a hash is below
  the number of shards, so \<open>Do\<close> never indexes out of range.
\<close>

theorem sharded_in_range:
  "\<exists>sg' s' out. sharded_Do_alone key fn w now (NewShardedGroup n) s = Some (sg', s', out)"
  using shard_in_range [of n key]
  by (auto simp: sharded_Do_alone_def Let_def split: prod.splits)

end
