(* ===== verification/Monitor_Stats.thy ===== *)
theory Monitor_Stats
  imports Prelude
begin

text \<open>
  The in-memory statistics of \<^verbatim>\<open>monitor/stats.go\<close> and the counters of
  \<^verbatim>\<open>monitor/prometheus.go\<close> (the Prometheus client itself is a library). Clock readings,
  the date and the time-of-day string are arguments. A loop over a Go map, whose order is
  random, takes the enumeration of its keys as an argument.
\<close>

section \<open>State\<close>

record alarm_item =
  al_level :: string
  al_message :: string
  al_source :: string
  al_time :: int

record hot_item =
  ht_product_id :: int
  ht_product_name :: string
  ht_success_count :: int
  ht_sold_quantity :: int

record stats_engine =
  se_pv :: int
  se_uv :: int
  se_uvSet :: "string set"
  se_uvDate :: string
  se_reqThisSecond :: int
  se_reqTotal :: int
  se_reqTotalMs :: rat
  se_reqLatencyCount :: int
  se_qpsHistory :: "rat list"
  se_qpsTimeRing :: "string list"
  se_hot :: "int \<rightharpoonup> hot_item"
  se_alarms :: "alarm_item list"
  se_alarmSeenAt :: "string \<rightharpoonup> int"

text \<open>The counters kept beside the Prometheus ones.\<close>

record seckill_metrics =
  sm_seckill_success :: int
  sm_seckill_fail :: int
  sm_order_created :: int
  sm_order_timeout :: int
  sm_sentinel_reject :: int

record monitor =
  mo_engine :: stats_engine
  mo_metrics :: seckill_metrics

definition statsHistoryLen :: nat where "statsHistoryLen = 120"
definition statsAlarmMax :: nat where "statsAlarmMax = 100"
definition statsAlarmDedup :: int where "statsAlarmDedup = 30000"
definition statsUvMaxTrack :: nat where "statsUvMaxTrack = 500000"

definition new_engine :: "string \<Rightarrow> stats_engine" where
  "new_engine today = \<lparr>se_pv = 0, se_uv = 0, se_uvSet = {}, se_uvDate = today, se_reqThisSecond = 0,
     se_reqTotal = 0, se_reqTotalMs = 0, se_reqLatencyCount = 0, se_qpsHistory = [], se_qpsTimeRing = [],
     se_hot = Map.empty, se_alarms = [], se_alarmSeenAt = Map.empty\<rparr>"

section \<open>The statistics engine\<close>

text \<open>\<^verbatim>\<open>s[len(s)-n:]\<close> when the slice is longer than \<open>n\<close>.\<close>

definition keep_last :: "nat \<Rightarrow> 'a list \<Rightarrow> 'a list" where
  "keep_last n xs = (if length xs > n then drop (length xs - n) xs else xs)"

definition tickStats :: "string \<Rightarrow> string \<Rightarrow> stats_engine \<Rightarrow> stats_engine" where
  "tickStats timeOfDay today e =
     (let count = se_reqThisSecond e;
          hist = se_qpsHistory e @ [of_int count];
          times = se_qpsTimeRing e @ [timeOfDay];
          e1 = e\<lparr>se_reqThisSecond := 0,
                 se_qpsHistory := (if length hist > statsHistoryLen
                   then drop (length hist - statsHistoryLen) hist else hist),
                 se_qpsTimeRing := (if length hist > statsHistoryLen
                   then drop (length times - statsHistoryLen) times else times)\<rparr>
      in if today \<noteq> se_uvDate e1
         then e1\<lparr>se_uvDate := today, se_pv := 0, se_uv := 0, se_uvSet := {}\<rparr>
         else e1)"

text \<open>
  \<^verbatim>\<open>startStatsEngine\<close>: the flag of \<^verbatim>\<open>statsOnce\<close> and whether this call starts the goroutine; the goroutine
  takes a sample per tick, each with its time of day and its date.
\<close>

definition startStatsEngine :: "bool \<Rightarrow> bool \<times> bool" where
  "startStatsEngine started = (True, \<not> started)"

definition stats_ticker :: "(string \<times> string) list \<Rightarrow> stats_engine \<Rightarrow> stats_engine" where
  "stats_ticker ticks e = fold (\<lambda>(timeOfDay, today). tickStats timeOfDay today) ticks e"

definition RecordVisit :: "string \<Rightarrow> stats_engine \<Rightarrow> stats_engine" where
  "RecordVisit visitorKey e =
     (if visitorKey = [] then e
      else let e1 = e\<lparr>se_pv := se_pv e + 1\<rparr> in
        if visitorKey \<notin> se_uvSet e1
        then (let e2 = (if card (se_uvSet e1) < statsUvMaxTrack
                        then e1\<lparr>se_uvSet := insert visitorKey (se_uvSet e1)\<rparr> else e1)
              in e2\<lparr>se_uv := se_uv e2 + 1\<rparr>)
        else e1)"

definition RecordRequest :: "stats_engine \<Rightarrow> stats_engine" where
  "RecordRequest e = e\<lparr>se_reqThisSecond := se_reqThisSecond e + 1, se_reqTotal := se_reqTotal e + 1\<rparr>"

definition RecordRequestLatency :: "rat \<Rightarrow> stats_engine \<Rightarrow> stats_engine" where
  "RecordRequestLatency ms e =
     e\<lparr>se_reqTotalMs := se_reqTotalMs e + ms, se_reqLatencyCount := se_reqLatencyCount e + 1\<rparr>"

definition GetRequestStats :: "stats_engine \<Rightarrow> int \<times> rat" where
  "GetRequestStats e = (let ntotal = se_reqTotal e; count = se_reqLatencyCount e in
     if count = 0 then (ntotal, 0) else (ntotal, se_reqTotalMs e / of_int count))"

definition GetQPS :: "stats_engine \<Rightarrow> rat" where
  "GetQPS e = (let n = length (se_qpsHistory e) in
     if n = 0 then 0
     else let s = sum_list (map (\<lambda>i. if i \<ge> 0 then se_qpsHistory e ! nat i else 0) [int n - 5..int n - 1])
          in if n < 5 then s / of_nat n else s / 5)"

definition GetQPSHistorySeconds :: "int \<Rightarrow> stats_engine \<Rightarrow> string list \<times> rat list" where
  "GetQPSHistorySeconds seconds e =
     (let n = int (length (se_qpsHistory e));
          k = (if seconds \<le> 0 \<or> seconds > n then n else seconds);
          is = filter (\<lambda>i. i \<ge> 0) [n - k..n - 1]
      in (map (\<lambda>i. se_qpsTimeRing e ! nat i) is, map (\<lambda>i. se_qpsHistory e ! nat i) is))"

definition GetPVUV :: "stats_engine \<Rightarrow> int \<times> int \<times> rat \<times> int list" where
  "GetPVUV e =
     (let n = int (length (se_qpsHistory e));
          start = (if n - 60 < 0 then 0 else n - 60)
      in (se_pv e, se_uv e, GetQPS e, map (\<lambda>i. \<lfloor>se_qpsHistory e ! nat i\<rfloor>) [start..n - 1]))"

definition IncProductSales :: "int \<Rightarrow> string \<Rightarrow> int \<Rightarrow> stats_engine \<Rightarrow> stats_engine" where
  "IncProductSales productID productName quantity e =
     (let item = (case se_hot e productID of
            None \<Rightarrow> \<lparr>ht_product_id = productID, ht_product_name = productName,
                     ht_success_count = 0, ht_sold_quantity = 0\<rparr>
          | Some it \<Rightarrow> it);
          item1 = (if productName \<noteq> [] \<and> ht_product_name item = []
                   then item\<lparr>ht_product_name := productName\<rparr> else item);
          item2 = item1\<lparr>ht_success_count := ht_success_count item1 + 1,
                        ht_sold_quantity := ht_sold_quantity item1 + quantity\<rparr>
      in e\<lparr>se_hot := (se_hot e)(productID \<mapsto> item2)\<rparr>)"

text \<open>\<open>ks\<close> enumerates the keys of the map; \<^verbatim>\<open>sort.Slice\<close> by sold quantity, descending.\<close>

definition GetHotProducts :: "int list \<Rightarrow> int \<Rightarrow> stats_engine \<Rightarrow> hot_item list" where
  "GetHotProducts ks topN e =
     (let items = sort_key (\<lambda>it. - ht_sold_quantity it) (List.map_filter (se_hot e) ks)
      in if topN > 0 \<and> int (length items) > topN then take (nat topN) items else items)"

definition is_space :: "char \<Rightarrow> bool" where
  "is_space c \<longleftrightarrow> c = CHR '' '' \<or> c = CHR 0x09 \<or> c = CHR 0x0A \<or> c = CHR 0x0B \<or> c = CHR 0x0C \<or> c = CHR 0x0D"

definition TrimSpace :: "string \<Rightarrow> string" where
  "TrimSpace s = rev (dropWhile is_space (rev (dropWhile is_space s)))"

definition alarm_key :: "string \<Rightarrow> string \<Rightarrow> string \<Rightarrow> string" where
  "alarm_key level source message =
     TrimSpace level @ ''|'' @ TrimSpace source @ ''|'' @ TrimSpace message"

definition RecordAlarm :: "int \<Rightarrow> string \<Rightarrow> string \<Rightarrow> string \<Rightarrow> stats_engine \<Rightarrow> stats_engine" where
  "RecordAlarm now level source message e =
     (if message = [] then e
      else let key = alarm_key level source message in
        if (case se_alarmSeenAt e key of Some lst \<Rightarrow> now - lst < statsAlarmDedup | None \<Rightarrow> False)
        then e
        else let alarms = se_alarms e @ [\<lparr>al_level = level, al_message = message, al_source = source,
                                           al_time = now\<rparr>]
             in e\<lparr>se_alarmSeenAt := (se_alarmSeenAt e)(key \<mapsto> now),
                  se_alarms := keep_last statsAlarmMax alarms\<rparr>)"

definition GetStatsAlarms :: "int \<Rightarrow> stats_engine \<Rightarrow> alarm_item list" where
  "GetStatsAlarms lmt e =
     (let n = int (length (se_alarms e));
          k = (if lmt \<le> 0 \<or> lmt > n then n else lmt)
      in take (nat k) (rev (se_alarms e)))"

section \<open>The counters\<close>

definition IncSentinelReject :: "monitor \<Rightarrow> monitor" where
  "IncSentinelReject m = m\<lparr>mo_metrics := (mo_metrics m)\<lparr>sm_sentinel_reject := sm_sentinel_reject (mo_metrics m) + 1\<rparr>\<rparr>"

definition GetSentinelRejectTotal :: "monitor \<Rightarrow> int" where
  "GetSentinelRejectTotal m = sm_sentinel_reject (mo_metrics m)"

definition IncSeckillSuccess :: "int \<Rightarrow> monitor \<Rightarrow> monitor" where
  "IncSeckillSuccess productID m =
     m\<lparr>mo_metrics := (mo_metrics m)\<lparr>sm_seckill_success := sm_seckill_success (mo_metrics m) + 1\<rparr>\<rparr>"

definition IncSeckillFail :: "int \<Rightarrow> string \<Rightarrow> monitor \<Rightarrow> monitor" where
  "IncSeckillFail productID reason m =
     m\<lparr>mo_metrics := (mo_metrics m)\<lparr>sm_seckill_fail := sm_seckill_fail (mo_metrics m) + 1\<rparr>\<rparr>"

definition IncOrderCreated :: "monitor \<Rightarrow> monitor" where
  "IncOrderCreated m =
     m\<lparr>mo_metrics := (mo_metrics m)\<lparr>sm_order_created := sm_order_created (mo_metrics m) + 1\<rparr>\<rparr>"

definition IncOrderTimeout :: "monitor \<Rightarrow> monitor" where
  "IncOrderTimeout m =
     m\<lparr>mo_metrics := (mo_metrics m)\<lparr>sm_order_timeout := sm_order_timeout (mo_metrics m) + 1\<rparr>\<rparr>"

definition GetSeckillMetrics :: "monitor \<Rightarrow> int \<times> int \<times> int \<times> int" where
  "GetSeckillMetrics m = (sm_seckill_success (mo_metrics m), sm_seckill_fail (mo_metrics m),
     sm_order_created (mo_metrics m), sm_order_timeout (mo_metrics m))"

text \<open>The engine's operations as the services call them.\<close>

definition with_engine :: "(stats_engine \<Rightarrow> stats_engine) \<Rightarrow> monitor \<Rightarrow> monitor" where
  "with_engine f m = m\<lparr>mo_engine := f (mo_engine m)\<rparr>"

section \<open>Invariant\<close>

text \<open>
  The history and the alarm buffer are bounded, the two rings have one length, the visitor set
  is finite and bounded, no more unique visitors are counted than page views, and the stored
  alarms are those last seen.
\<close>

definition engine_ok :: "stats_engine \<Rightarrow> bool" where
  "engine_ok e \<longleftrightarrow>
     length (se_qpsHistory e) \<le> statsHistoryLen \<and>
     length (se_qpsTimeRing e) = length (se_qpsHistory e) \<and>
     length (se_alarms e) \<le> statsAlarmMax \<and>
     finite (se_uvSet e) \<and> card (se_uvSet e) \<le> statsUvMaxTrack \<and>
     int (card (se_uvSet e)) \<le> se_uv e \<and> se_uv e \<le> se_pv e \<and>
     0 \<le> se_reqThisSecond e \<and> se_reqThisSecond e \<le> se_reqTotal e"

datatype stats_event =
    Tick string string
  | Visit string
  | Request
  | Latency rat
  | Sale int string int
  | Alarm int string string string

fun stats_step :: "stats_event \<Rightarrow> stats_engine \<Rightarrow> stats_engine" where
  "stats_step (Tick t d) = tickStats t d"
| "stats_step (Visit k) = RecordVisit k"
| "stats_step Request = RecordRequest"
| "stats_step (Latency ms) = RecordRequestLatency ms"
| "stats_step (Sale p n q) = IncProductSales p n q"
| "stats_step (Alarm now l s m) = RecordAlarm now l s m"

lemma keep_last_length [simp]: "length (keep_last n xs) \<le> n"
  by (simp add: keep_last_def)

lemma engine_ok_step:
  assumes "engine_ok e"
  shows "engine_ok (stats_step ev e)"
proof (cases ev)
  case (Tick t d)
  with assms show ?thesis
    by (simp add: engine_ok_def tickStats_def Let_def statsHistoryLen_def)
next
  case (Visit k)
  with assms show ?thesis
    by (auto simp: engine_ok_def RecordVisit_def Let_def card_insert_if)
next
  case (Alarm now l s m)
  with assms show ?thesis
    by (simp add: engine_ok_def RecordAlarm_def Let_def split: option.splits)
qed (use assms in \<open>simp_all add: engine_ok_def RecordRequest_def RecordRequestLatency_def
      IncProductSales_def Let_def\<close>)

lemma engine_ok_new: "engine_ok (new_engine today)"
  by (simp add: engine_ok_def new_engine_def statsHistoryLen_def)

lemma engine_ok_run: "engine_ok e \<Longrightarrow> engine_ok (fold stats_step evs e)"
  by (induction evs arbitrary: e) (simp_all add: engine_ok_step)


section \<open>Sales and alarms\<close>

definition sold :: "stats_engine \<Rightarrow> int \<Rightarrow> int" where
  "sold e p = (case se_hot e p of None \<Rightarrow> 0 | Some it \<Rightarrow> ht_sold_quantity it)"

fun sales_of :: "int \<Rightarrow> stats_event \<Rightarrow> int" where
  "sales_of p (Sale p' n q) = (if p' = p then q else 0)"
| "sales_of p _ = 0"

lemma sold_step: "sold (stats_step ev e) p = sold e p + sales_of p ev"
  by (cases ev) (auto simp: sold_def tickStats_def RecordVisit_def RecordRequest_def
      RecordRequestLatency_def IncProductSales_def RecordAlarm_def Let_def split: option.splits)

lemma sold_run: "sold (fold stats_step evs e) p = sold e p + sum_list (map (sales_of p) evs)"
  by (induction evs arbitrary: e) (simp_all add: sold_step)

text \<open>Events that are no alarm leave the alarm buffer and the times of the alarms alone.\<close>

fun alarms_with :: "string \<Rightarrow> stats_event \<Rightarrow> bool" where
  "alarms_with k (Alarm now l s m) = (m \<noteq> [] \<and> alarm_key l s m = k)"
| "alarms_with k _ = False"

lemma alarm_seen_step:
  "\<not> alarms_with k ev \<Longrightarrow> se_alarmSeenAt (stats_step ev e) k = se_alarmSeenAt e k"
  by (cases ev) (auto simp: tickStats_def RecordVisit_def RecordRequest_def RecordRequestLatency_def
      IncProductSales_def RecordAlarm_def Let_def split: option.splits)

lemma alarm_seen_run:
  "list_all (\<lambda>ev. \<not> alarms_with k ev) evs \<Longrightarrow> se_alarmSeenAt (fold stats_step evs e) k = se_alarmSeenAt e k"
  by (induction evs arbitrary: e) (simp_all add: alarm_seen_step)

lemma GetStatsAlarms_all: "GetStatsAlarms 0 e = rev (se_alarms e)"
  by (simp add: GetStatsAlarms_def Let_def)

lemma last_keep_last: "last (keep_last statsAlarmMax (xs @ [a])) = a"
  by (simp add: keep_last_def statsAlarmMax_def)

section \<open>Properties\<close>

text \<open>
  The statistics engine stays bounded and consistent under any sequence of samples, visits,
  requests, sales and alarms: at most 120 history points with matching times, at most 100
  alarms, at most 500000 tracked visitors, unique visitors never above page views; and the sold
  quantity of each product is the sum of the sales reported for it.
\<close>

theorem stats_invariant:
  "engine_ok (fold stats_step evs (new_engine today)) \<and>
   sold (fold stats_step evs (new_engine today)) p = sum_list (map (sales_of p) evs)"
  using engine_ok_run [OF engine_ok_new] sold_run [of evs "new_engine today" p]
  by (simp add: sold_def new_engine_def)

text \<open>
  Alarm deduplication: an alarm recorded again within 30 seconds, after any other events
  that are not that alarm, leaves the buffer as it is; after 30 seconds it is stored again as
  the newest entry.
\<close>

theorem alarm_dedup:
  assumes "message \<noteq> []" "se_alarmSeenAt e (alarm_key level source message) = None"
    and "list_all (\<lambda>ev. \<not> alarms_with (alarm_key level source message) ev) evs"
    and e1_def: "e1 = fold stats_step evs (RecordAlarm t0 level source message e)"
  shows "(t - t0 < 30000 \<longrightarrow> RecordAlarm t level source message e1 = e1) \<and>
    (30000 \<le> t - t0 \<longrightarrow> hd (GetStatsAlarms 0 (RecordAlarm t level source message e1)) =
       \<lparr>al_level = level, al_message = message, al_source = source, al_time = t\<rparr>)"
proof -
  have "se_alarmSeenAt e1 (alarm_key level source message) = Some t0"
    using assms(1,2) by (simp add: e1_def alarm_seen_run [OF assms(3)] RecordAlarm_def Let_def)
  then show ?thesis
    using assms(1)
    by (simp add: RecordAlarm_def Let_def statsAlarmDedup_def GetStatsAlarms_all hd_rev last_keep_last)
qed

theorem alarm_dedup_witness:
  "let e1 = fold stats_step [Request] (RecordAlarm 0 ''critical'' ''mq'' ''down'' (new_engine ''2026-01-01''))
   in RecordAlarm 29999 ''critical'' ''mq'' ''down'' e1 = e1 \<and>
      se_alarms e1 = [\<lparr>al_level = ''critical'', al_message = ''down'', al_source = ''mq'', al_time = 0\<rparr>]"
proof -
  let ?e1 = "fold stats_step [Request] (RecordAlarm 0 ''critical'' ''mq'' ''down'' (new_engine ''2026-01-01''))"
  have "RecordAlarm 29999 ''critical'' ''mq'' ''down'' ?e1 = ?e1"
    using alarm_dedup [of "''down''" "new_engine ''2026-01-01''" "''critical''" "''mq''" "[Request]" ?e1 0 29999]
    by (simp add: new_engine_def del: fold_simps)
  moreover have "se_alarms ?e1 = [\<lparr>al_level = ''critical'', al_message = ''down'', al_source = ''mq'', al_time = 0\<rparr>]"
    by (simp add: new_engine_def RecordAlarm_def Let_def keep_last_def RecordRequest_def statsAlarmMax_def)
  ultimately show ?thesis by simp
qed

end
