(* ===== verification/Model.thy ===== *)
theory Model
  imports GoFmt
begin

text \<open>
  The data model of \<^verbatim>\<open>model/model.go\<close>: the table rows and the requests and responses the
  services use. Prices are rationals (the columns are DECIMAL(10,2)), times milliseconds,
  a nullable time an option; \<open>DeletedAt\<close> is the soft-delete column of gorm.
\<close>

section \<open>Rows\<close>

record user =
  u_id :: int
  u_username :: string
  u_password :: string
  u_nickname :: string
  u_phone :: string
  u_email :: string
  u_role :: string
  u_status :: int
  u_created_at :: int
  u_updated_at :: int
  u_deleted_at :: "int option"

record product =
  p_id :: int
  p_name :: string
  p_description :: string
  p_price :: rat
  p_seckill_price :: rat
  p_total_stock :: int
  p_remain_stock :: int
  p_start_time :: int
  p_end_time :: int
  p_status :: int
  p_image_url :: string
  p_limit_per_user :: int
  p_pay_timeout :: int
  p_created_at :: int
  p_updated_at :: int
  p_deleted_at :: "int option"

text \<open>\<open>OrderStatus\<close> is an \<^verbatim>\<open>int8\<close> with five named values.\<close>

datatype order_status = Pending | Paid | Cancelled | Refunded | Timeout

fun status_code :: "order_status \<Rightarrow> int" where
  "status_code Pending = 0"
| "status_code Paid = 1"
| "status_code Cancelled = 2"
| "status_code Refunded = 3"
| "status_code Timeout = 4"

lemma status_code_inject [simp]: "status_code a = status_code b \<longleftrightarrow> a = b"
  by (cases a; cases b) simp_all

instantiation order_status :: linorder
begin

definition less_eq_order_status :: "order_status \<Rightarrow> order_status \<Rightarrow> bool" where
  "less_eq_order_status a b \<longleftrightarrow> status_code a \<le> status_code b"

definition less_order_status :: "order_status \<Rightarrow> order_status \<Rightarrow> bool" where
  "less_order_status a b \<longleftrightarrow> status_code a < status_code b"

instance
  by standard (auto simp: less_eq_order_status_def less_order_status_def)

end

record order =
  o_id :: int
  o_order_no :: string
  o_user_id :: int
  o_product_id :: int
  o_product_name :: string
  o_seckill_price :: rat
  o_quantity :: int
  o_total_amount :: rat
  o_status :: order_status
  o_pay_time :: "int option"
  o_cancel_time :: "int option"
  o_cancel_reason :: string
  o_created_at :: int
  o_updated_at :: int

record behavior_track =
  bt_trace_id :: string
  bt_user_id :: int
  bt_product_id :: int
  bt_action :: string
  bt_request_ip :: string
  bt_result :: int
  bt_cost_ms :: int
  bt_fail_reason :: string
  bt_instance_id :: string
  bt_timestamp :: int

record recon_diff =
  rd_id :: int
  rd_product_id :: int
  rd_redis_stock :: int
  rd_mysql_stock :: int
  rd_diff :: int
  rd_auto_corrected :: bool
  rd_corrected_at :: "int option"
  rd_created_at :: int

record product_sku =
  k_id :: int
  k_product_id :: int
  k_spec :: string
  k_price :: rat
  k_stock :: int
  k_status :: int
  k_created_at :: int
  k_updated_at :: int
  k_deleted_at :: "int option"

record blacklist =
  b_id :: int
  b_type :: string
  b_value :: string
  b_reason :: string
  b_created_at :: int

record audit_log =
  a_id :: int
  a_user_id :: int
  a_username :: string
  a_action :: string
  a_module :: string
  a_target_id :: string
  a_detail :: string
  a_client_ip :: string
  a_trace_id :: string
  a_created_at :: int

section \<open>Requests and responses\<close>

record login_request =
  lq_username :: string
  lq_password :: string

record login_response =
  lr_token :: string
  lr_user_id :: int
  lr_username :: string
  lr_nickname :: string
  lr_role :: string

record register_request =
  rq_username :: string
  rq_password :: string
  rq_nickname :: string
  rq_phone :: string

record sku_input =
  si_spec :: "(string \<times> string) list"
  si_price :: rat
  si_stock :: int

record create_product_request =
  cp_name :: string
  cp_description :: string
  cp_price :: rat
  cp_seckill_price :: rat
  cp_total_stock :: int
  cp_start_time :: string
  cp_end_time :: string
  cp_limit_per_user :: int
  cp_image_url :: string
  cp_skus :: "sku_input list"

text \<open>Pointers are options; a nil slice of SKUs is \<open>None\<close>.\<close>

record update_product_request =
  up_name :: "string option"
  up_description :: "string option"
  up_price :: "rat option"
  up_seckill_price :: "rat option"
  up_total_stock :: "int option"
  up_start_time :: "string option"
  up_end_time :: "string option"
  up_status :: "int option"
  up_limit_per_user :: "int option"
  up_image_url :: "string option"
  up_skus :: "sku_input list option"

record seckill_request =
  sq_product_id :: int
  sq_quantity :: int
  sq_idempotent_key :: string
  sq_path_token :: string
  sq_captcha_code :: "int option"
  sq_captcha_id :: string
  sq_sku_id :: int

record seckill_response =
  sr_order_no :: string
  sr_status :: string
  sr_message :: string

record activity_config_request =
  ac_product_id :: int
  ac_limit_per_user :: "int option"
  ac_status :: "int option"
  ac_start_time :: "string option"
  ac_end_time :: "string option"
  ac_seckill_price :: "rat option"

text \<open>
  The binding rules (\<^verbatim>\<open>binding:"..."\<close>) of the requests that gin checks before a handler runs.
  \<open>required\<close> refuses the zero value; lengths count the characters of the string.
\<close>

definition valid_login :: "login_request \<Rightarrow> bool" where
  "valid_login r \<longleftrightarrow> 3 \<le> length (lq_username r) \<and> length (lq_username r) \<le> 64 \<and>
     6 \<le> length (lq_password r) \<and> length (lq_password r) \<le> 64"

definition valid_register :: "register_request \<Rightarrow> bool" where
  "valid_register r \<longleftrightarrow> 3 \<le> length (rq_username r) \<and> length (rq_username r) \<le> 64 \<and>
     6 \<le> length (rq_password r) \<and> length (rq_password r) \<le> 64 \<and>
     length (rq_nickname r) \<le> 128 \<and> length (rq_phone r) \<le> 20"

definition valid_create_product :: "create_product_request \<Rightarrow> bool" where
  "valid_create_product r \<longleftrightarrow> cp_name r \<noteq> [] \<and> length (cp_name r) \<le> 256 \<and>
     0 < cp_price r \<and> 0 < cp_seckill_price r \<and> 0 < cp_total_stock r \<and>
     cp_start_time r \<noteq> [] \<and> cp_end_time r \<noteq> []"

definition valid_seckill :: "seckill_request \<Rightarrow> bool" where
  "valid_seckill r \<longleftrightarrow> 0 < sq_product_id r \<and> 0 < sq_quantity r"

definition valid_activity_config :: "activity_config_request \<Rightarrow> bool" where
  "valid_activity_config r \<longleftrightarrow> 0 < ac_product_id r"

end
