(* ===== verification/Db_Server.thy ===== *)
theory Db_Server
  imports Model
begin

text \<open>
  The interface to MySQL through gorm. The database is not part of the repository, so every
  DAO function takes a record of statement functions \<open>db_ops\<close> on an unknown state \<open>'d\<close>. The
  locale \<open>db_server\<close> states what the code relies on: a statement has its documented effect
  on the tables and its documented reply, or the client sees an error and the statement may
  or may not have been executed. The WHERE and SET clauses are part of the source, so they are
  translated: a predicate on rows and an update of a row. One database node is modelled here
  (\<^verbatim>\<open>config.yaml\<close> names no replicas; \<open>Replicas\<close> adds one), and DECIMAL rounding and INT overflow are not.

  MySQL compares the values of text columns by their collation, which takes different spellings for the
  same (\<^verbatim>\<open>utf8mb4_unicode_ci\<close> ignores the case). The collation is a parameter, a function
  \<open>db_weight\<close> to the weights that decide: names of users, banned values and actions of the audit log are
  compared by it. An order number of the model stands for all its spellings under the collation.
\<close>

section \<open>Statements on a table\<close>

text \<open>
  \<open>First P\<close> orders by the primary key; \<open>Find\<close> orders by the primary key, descending when the
  flag is set, with an offset and a limit (\<open>None\<close> for no limit). \<open>Update P f\<close> sets the
  columns that \<open>f\<close> changes in the rows where \<open>P\<close> holds.
\<close>

datatype 'row stmt =
    First "'row \<Rightarrow> bool"
  | Find "'row \<Rightarrow> bool" bool int "int option"
  | Count "'row \<Rightarrow> bool"
  | Create "'row list"
  | Update "'row \<Rightarrow> bool" "'row \<Rightarrow> 'row"
  | Delete "'row \<Rightarrow> bool" int

datatype 'row answer =
    Row 'row
  | Rows "'row list"
  | Number int
  | Affected int
  | Failed go_error

record 'row table =
  t_rows :: "'row list"
  t_next :: int

text \<open>
  A schema: primary key, unique keys (\<open>sc_clash\<close>), and the soft-delete column if the model
  has one (\<open>sc_live\<close> and \<open>sc_delete\<close>, the row left behind by a DELETE).
\<close>

record 'row schema =
  sc_id :: "'row \<Rightarrow> int"
  sc_set_id :: "int \<Rightarrow> 'row \<Rightarrow> 'row"
  sc_clash :: "'row \<Rightarrow> 'row \<Rightarrow> bool"
  sc_live :: "'row \<Rightarrow> bool"
  sc_delete :: "int \<Rightarrow> 'row \<Rightarrow> 'row option"

definition selected :: "'row schema \<Rightarrow> ('row \<Rightarrow> bool) \<Rightarrow> 'row \<Rightarrow> bool" where
  "selected sc P r \<longleftrightarrow> sc_live sc r \<and> P r"

definition matching :: "'row schema \<Rightarrow> 'row table \<Rightarrow> ('row \<Rightarrow> bool) \<Rightarrow> 'row list" where
  "matching sc t P = sort_key (sc_id sc) (filter (selected sc P) (t_rows t))"

text \<open>Inserting rows one after the other; a clash with any stored row refuses all of them.\<close>

fun insert_rows :: "'row schema \<Rightarrow> 'row list \<Rightarrow> 'row table \<Rightarrow> ('row table \<times> 'row list) option" where
  "insert_rows sc [] t = Some (t, [])"
| "insert_rows sc (r # rs) t =
     (let r' = (if sc_id sc r = 0 then sc_set_id sc (t_next t) r else r) in
      if \<exists>x \<in> set (t_rows t). sc_id sc x = sc_id sc r' \<or> sc_clash sc x r' then None
      else (case insert_rows sc rs \<lparr>t_rows = t_rows t @ [r'],
                   t_next = max (t_next t) (sc_id sc r') + 1\<rparr> of
              None \<Rightarrow> None
            | Some (t', rs') \<Rightarrow> Some (t', r' # rs')))"

definition page_of :: "int \<Rightarrow> int option \<Rightarrow> 'row list \<Rightarrow> 'row list" where
  "page_of offs lmt rs = (case lmt of
      None \<Rightarrow> drop (nat offs) rs
    | Some n \<Rightarrow> take (nat n) (drop (nat offs) rs))"

fun table_exec :: "'row schema \<Rightarrow> 'row table \<Rightarrow> 'row stmt \<Rightarrow> 'row table \<times> 'row answer" where
  "table_exec sc t (First P) = (t, case matching sc t P of
      [] \<Rightarrow> Failed RecordNotFound | r # _ \<Rightarrow> Row r)"
| "table_exec sc t (Find P desc offs lmt) =
     (t, Rows (page_of offs lmt (if desc then rev (matching sc t P) else matching sc t P)))"
| "table_exec sc t (Count P) = (t, Number (int (length (matching sc t P))))"
| "table_exec sc t (Create rs) = (case insert_rows sc rs t of
      None \<Rightarrow> (t, Failed DuplicateKey)
    | Some (t', rs') \<Rightarrow> (t', Rows rs'))"
| "table_exec sc t (Update P f) =
     (t\<lparr>t_rows := map (\<lambda>r. if selected sc P r then f r else r) (t_rows t)\<rparr>,
      Affected (int (length (filter (\<lambda>r. selected sc P r \<and> f r \<noteq> r) (t_rows t)))))"
| "table_exec sc t (Delete P now) =
     (t\<lparr>t_rows := List.map_filter (\<lambda>r. if selected sc P r then sc_delete sc now r else Some r) (t_rows t)\<rparr>,
      Affected (int (length (filter (selected sc P) (t_rows t)))))"

section \<open>The database\<close>

record database =
  db_users :: "user table"
  db_products :: "product table"
  db_skus :: "product_sku table"
  db_orders :: "string \<Rightarrow> order table"
  db_diffs :: "recon_diff table"
  db_black :: "blacklist table"
  db_audits :: "audit_log table"

definition user_schema :: "(string \<Rightarrow> string) \<Rightarrow> user schema" where
  "user_schema weight = \<lparr>sc_id = u_id, sc_set_id = (\<lambda>i r. r\<lparr>u_id := i\<rparr>),
     sc_clash = (\<lambda>a b. weight (u_username a) = weight (u_username b)),
     sc_live = (\<lambda>r. u_deleted_at r = None), sc_delete = (\<lambda>now r. Some (r\<lparr>u_deleted_at := Some now\<rparr>))\<rparr>"

definition product_schema :: "product schema" where
  "product_schema = \<lparr>sc_id = p_id, sc_set_id = (\<lambda>i r. r\<lparr>p_id := i\<rparr>), sc_clash = (\<lambda>a b. False),
     sc_live = (\<lambda>r. p_deleted_at r = None), sc_delete = (\<lambda>now r. Some (r\<lparr>p_deleted_at := Some now\<rparr>))\<rparr>"

definition sku_schema :: "product_sku schema" where
  "sku_schema = \<lparr>sc_id = k_id, sc_set_id = (\<lambda>i r. r\<lparr>k_id := i\<rparr>), sc_clash = (\<lambda>a b. False),
     sc_live = (\<lambda>r. k_deleted_at r = None), sc_delete = (\<lambda>now r. Some (r\<lparr>k_deleted_at := Some now\<rparr>))\<rparr>"

definition order_schema :: "order schema" where
  "order_schema = \<lparr>sc_id = o_id, sc_set_id = (\<lambda>i r. r\<lparr>o_id := i\<rparr>),
     sc_clash = (\<lambda>a b. o_order_no a = o_order_no b), sc_live = (\<lambda>_. True), sc_delete = (\<lambda>_ _. None)\<rparr>"

definition diff_schema :: "recon_diff schema" where
  "diff_schema = \<lparr>sc_id = rd_id, sc_set_id = (\<lambda>i r. r\<lparr>rd_id := i\<rparr>), sc_clash = (\<lambda>a b. False),
     sc_live = (\<lambda>_. True), sc_delete = (\<lambda>_ _. None)\<rparr>"

definition black_schema :: "(string \<Rightarrow> string) \<Rightarrow> blacklist schema" where
  "black_schema weight = \<lparr>sc_id = b_id, sc_set_id = (\<lambda>i r. r\<lparr>b_id := i\<rparr>),
     sc_clash = (\<lambda>a b. weight (b_value a) = weight (b_value b)), sc_live = (\<lambda>_. True), sc_delete = (\<lambda>_ _. None)\<rparr>"

definition audit_schema :: "audit_log schema" where
  "audit_schema = \<lparr>sc_id = a_id, sc_set_id = (\<lambda>i r. r\<lparr>a_id := i\<rparr>), sc_clash = (\<lambda>a b. False),
     sc_live = (\<lambda>_. True), sc_delete = (\<lambda>_ _. None)\<rparr>"

lemmas schema_defs = user_schema_def product_schema_def sku_schema_def order_schema_def
  diff_schema_def black_schema_def audit_schema_def

text \<open>The order tables \<^verbatim>\<open>t_order_0\<close> to \<^verbatim>\<open>t_order_15\<close> of \<^verbatim>\<open>scripts/init.sql\<close>.\<close>

definition order_tables :: "string set" where
  "order_tables = (\<lambda>i. ''t_order_'' @ fmt_d (int i)) ` {..<16}"

definition exec_user :: "(string \<Rightarrow> string) \<Rightarrow> user stmt \<Rightarrow> database \<Rightarrow> database \<times> user answer" where
  "exec_user weight st d = (case table_exec (user_schema weight) (db_users d) st of (t, a) \<Rightarrow> (d\<lparr>db_users := t\<rparr>, a))"

definition exec_product :: "product stmt \<Rightarrow> database \<Rightarrow> database \<times> product answer" where
  "exec_product st d =
     (case table_exec product_schema (db_products d) st of (t, a) \<Rightarrow> (d\<lparr>db_products := t\<rparr>, a))"

definition exec_sku :: "product_sku stmt \<Rightarrow> database \<Rightarrow> database \<times> product_sku answer" where
  "exec_sku st d = (case table_exec sku_schema (db_skus d) st of (t, a) \<Rightarrow> (d\<lparr>db_skus := t\<rparr>, a))"

definition exec_order :: "string \<Rightarrow> order stmt \<Rightarrow> database \<Rightarrow> database \<times> order answer" where
  "exec_order name st d =
     (if name \<in> order_tables
      then (case table_exec order_schema (db_orders d name) st of
              (t, a) \<Rightarrow> (d\<lparr>db_orders := (db_orders d)(name := t)\<rparr>, a))
      else (d, Failed DbErr))"

definition exec_diff :: "recon_diff stmt \<Rightarrow> database \<Rightarrow> database \<times> recon_diff answer" where
  "exec_diff st d = (case table_exec diff_schema (db_diffs d) st of (t, a) \<Rightarrow> (d\<lparr>db_diffs := t\<rparr>, a))"

definition exec_black :: "(string \<Rightarrow> string) \<Rightarrow> blacklist stmt \<Rightarrow> database \<Rightarrow> database \<times> blacklist answer" where
  "exec_black weight st d = (case table_exec (black_schema weight) (db_black d) st of (t, a) \<Rightarrow> (d\<lparr>db_black := t\<rparr>, a))"

definition exec_audit :: "audit_log stmt \<Rightarrow> database \<Rightarrow> database \<times> audit_log answer" where
  "exec_audit st d = (case table_exec audit_schema (db_audits d) st of (t, a) \<Rightarrow> (d\<lparr>db_audits := t\<rparr>, a))"

section \<open>The interface\<close>

text \<open>
  \<open>on_user\<close> is the write handle on the users, \<open>on_user_read\<close> the read handle: the only table that is
  read through both (\<^verbatim>\<open>GetWriteDB\<close> and \<^verbatim>\<open>GetReadDB\<close>).
\<close>

record 'd db_ops =
  db_weight :: "string \<Rightarrow> string"
  on_user :: "user stmt \<Rightarrow> 'd \<Rightarrow> 'd \<times> user answer"
  on_user_read :: "user stmt \<Rightarrow> 'd \<Rightarrow> 'd \<times> user answer"
  on_product :: "product stmt \<Rightarrow> 'd \<Rightarrow> 'd \<times> product answer"
  on_sku :: "product_sku stmt \<Rightarrow> 'd \<Rightarrow> 'd \<times> product_sku answer"
  on_order :: "string \<Rightarrow> order stmt \<Rightarrow> 'd \<Rightarrow> 'd \<times> order answer"
  on_diff :: "recon_diff stmt \<Rightarrow> 'd \<Rightarrow> 'd \<times> recon_diff answer"
  on_black :: "blacklist stmt \<Rightarrow> 'd \<Rightarrow> 'd \<times> blacklist answer"
  on_audit :: "audit_log stmt \<Rightarrow> 'd \<Rightarrow> 'd \<times> audit_log answer"
  in_tx :: "('d \<Rightarrow> 'd \<times> unit result) \<Rightarrow> 'd \<Rightarrow> 'd \<times> unit result"

text \<open>The documented outcomes of a statement, and of a transaction around a body.\<close>

definition db_outcome :: "(database \<Rightarrow> database \<times> 'row answer) \<Rightarrow> database \<Rightarrow> database \<Rightarrow> 'row answer \<Rightarrow> bool" where
  "db_outcome F v v' a \<longleftrightarrow> (v', a) = F v \<or> a = Failed DbErr \<and> (v' = v \<or> v' = fst (F v))"

definition tx_outcome ::
  "('d \<Rightarrow> database) \<Rightarrow> ('d \<Rightarrow> 'd \<times> unit result) \<Rightarrow> 'd \<Rightarrow> 'd \<Rightarrow> unit result \<Rightarrow> bool" where
  "tx_outcome view body d d' r \<longleftrightarrow>
     r = Inl DbErr \<and> view d' = view d \<or>
     (\<exists>d0 d1 r1. view d0 = view d \<and> body d0 = (d1, r1) \<and>
        (case r1 of
           Inl e \<Rightarrow> r = Inl e \<and> view d' = view d
         | Inr _ \<Rightarrow> r = Inr () \<and> view d' = view d1 \<or>
                     r = Inl DbErr \<and> (view d' = view d \<or> view d' = view d1)))"

locale db_server =
  fixes ops :: "'d db_ops"
    and view :: "'d \<Rightarrow> database"
  assumes user_stmt: "on_user ops us d = (d', ua) \<Longrightarrow> db_outcome (exec_user (db_weight ops) us) (view d) (view d') ua"
    and user_read_stmt: "on_user_read ops us d = (d', ua) \<Longrightarrow> db_outcome (exec_user (db_weight ops) us) (view d) (view d') ua"
    and product_stmt: "on_product ops ps d = (d', pa) \<Longrightarrow> db_outcome (exec_product ps) (view d) (view d') pa"
    and sku_stmt: "on_sku ops ks d = (d', ka) \<Longrightarrow> db_outcome (exec_sku ks) (view d) (view d') ka"
    and order_stmt: "on_order ops name os d = (d', oa) \<Longrightarrow> db_outcome (exec_order name os) (view d) (view d') oa"
    and diff_stmt: "on_diff ops ds d = (d', da) \<Longrightarrow> db_outcome (exec_diff ds) (view d) (view d') da"
    and black_stmt: "on_black ops bs d = (d', ba) \<Longrightarrow> db_outcome (exec_black (db_weight ops) bs) (view d) (view d') ba"
    and audit_stmt: "on_audit ops as d = (d', aa) \<Longrightarrow> db_outcome (exec_audit as) (view d) (view d') aa"
    and tx: "in_tx ops body d = (d', r) \<Longrightarrow> tx_outcome view body d d' r"

section \<open>A database with a fault schedule\<close>

text \<open>
  A database that meets the interface, with a schedule of faults: what the concrete runs of
  the witnesses use.
\<close>

datatype db_fault = DbFine | DbLostRequest | DbLostReply

record faulty_db =
  fd_db :: database
  fd_faults :: "db_fault list"

fun next_db_fault :: "db_fault list \<Rightarrow> db_fault \<times> db_fault list" where
  "next_db_fault [] = (DbFine, [])"
| "next_db_fault (f # fs) = (f, fs)"

definition faulty_stmt ::
  "(database \<Rightarrow> database \<times> 'row answer) \<Rightarrow> faulty_db \<Rightarrow> faulty_db \<times> 'row answer" where
  "faulty_stmt F d = (case next_db_fault (fd_faults d) of (f, fs) \<Rightarrow>
     (case f of
        DbFine \<Rightarrow> (case F (fd_db d) of (v, a) \<Rightarrow> (\<lparr>fd_db = v, fd_faults = fs\<rparr>, a))
      | DbLostRequest \<Rightarrow> (\<lparr>fd_db = fd_db d, fd_faults = fs\<rparr>, Failed DbErr)
      | DbLostReply \<Rightarrow> (\<lparr>fd_db = fst (F (fd_db d)), fd_faults = fs\<rparr>, Failed DbErr)))"

definition faulty_tx ::
  "(faulty_db \<Rightarrow> faulty_db \<times> unit result) \<Rightarrow> faulty_db \<Rightarrow> faulty_db \<times> unit result" where
  "faulty_tx body d = (case body d of
      (d1, Inl e) \<Rightarrow> (d1\<lparr>fd_db := fd_db d\<rparr>, Inl e)
    | (d1, Inr _) \<Rightarrow> (d1, Inr ()))"

text \<open>The collation of reference ignores the case of the letters of ASCII.\<close>

definition ascii_lower :: "char \<Rightarrow> char" where
  "ascii_lower c = (let n = of_char c :: nat in if 65 \<le> n \<and> n \<le> 90 then char_of (n + 32) else c)"

definition ignore_case :: "string \<Rightarrow> string" where
  "ignore_case s = map ascii_lower s"

definition faulty_ops :: "faulty_db db_ops" where
  "faulty_ops = \<lparr>db_weight = ignore_case,
     on_user = (\<lambda>st. faulty_stmt (exec_user ignore_case st)),
     on_user_read = (\<lambda>st. faulty_stmt (exec_user ignore_case st)),
     on_product = (\<lambda>st. faulty_stmt (exec_product st)),
     on_sku = (\<lambda>st. faulty_stmt (exec_sku st)),
     on_order = (\<lambda>name st. faulty_stmt (exec_order name st)),
     on_diff = (\<lambda>st. faulty_stmt (exec_diff st)),
     on_black = (\<lambda>st. faulty_stmt (exec_black ignore_case st)),
     on_audit = (\<lambda>st. faulty_stmt (exec_audit st)),
     in_tx = faulty_tx\<rparr>"

lemma faulty_stmt_outcome: "faulty_stmt F d = (d', a) \<Longrightarrow> db_outcome F (fd_db d) (fd_db d') a"
  by (auto simp: faulty_stmt_def db_outcome_def split: prod.splits db_fault.splits)

lemma faulty_tx_outcome:
  assumes "faulty_tx body d = (d', r)"
  shows "tx_outcome fd_db body d d' r"
proof -
  obtain d1 r1 where b: "body d = (d1, r1)"
    by fastforce
  have "fd_db d = fd_db d \<and> body d = (d1, r1) \<and>
        (case r1 of
           Inl e \<Rightarrow> r = Inl e \<and> fd_db d' = fd_db d
         | Inr _ \<Rightarrow> r = Inr () \<and> fd_db d' = fd_db d1 \<or>
                     r = Inl DbErr \<and> (fd_db d' = fd_db d \<or> fd_db d' = fd_db d1))"
    using assms b by (auto simp: faulty_tx_def split: sum.splits)
  then show ?thesis
    unfolding tx_outcome_def by blast
qed

interpretation faulty_mysql: db_server faulty_ops fd_db
  by unfold_locales (simp_all add: faulty_ops_def faulty_stmt_outcome faulty_tx_outcome)

end
