(* ===== verification/Dao.thy ===== *)
theory Dao
  imports Db_Server
begin

text \<open>
  The data-access functions of \<^verbatim>\<open>dao/dao.go\<close>, one definition each, on a database given by
  its statement functions \<open>ops\<close>, with the facts that say what each does to the tables. \<open>now\<close>
  is \<^verbatim>\<open>time.Now()\<close>.
\<close>

section \<open>Results of statements\<close>

text \<open>\<^verbatim>\<open>.Error\<close> and the destination of \<^verbatim>\<open>First\<close>, \<^verbatim>\<open>Find\<close> and \<^verbatim>\<open>Count\<close>.\<close>

definition bad_answer :: go_error where
  "bad_answer = Errf ''unexpected answer''"

fun answer_row :: "'row answer \<Rightarrow> 'row result" where
  "answer_row (Row r) = Inr r"
| "answer_row (Failed e) = Inl e"
| "answer_row _ = Inl bad_answer"

fun answer_rows :: "'row answer \<Rightarrow> 'row list result" where
  "answer_rows (Rows rs) = Inr rs"
| "answer_rows (Failed e) = Inl e"
| "answer_rows _ = Inl bad_answer"

fun answer_count :: "'row answer \<Rightarrow> int result" where
  "answer_count (Number n) = Inr n"
| "answer_count (Failed e) = Inl e"
| "answer_count _ = Inl bad_answer"

fun answer_unit :: "'row answer \<Rightarrow> unit result" where
  "answer_unit (Failed e) = Inl e"
| "answer_unit _ = Inr ()"

fun answer_affected :: "'row answer \<Rightarrow> int result" where
  "answer_affected (Affected n) = Inr n"
| "answer_affected (Failed e) = Inl e"
| "answer_affected _ = Inl bad_answer"

text \<open>
  What gorm fills in before an INSERT: the creation times when they are zero, and the column
  default for a zero field whose tag has one.
\<close>

definition or_default :: "'a::zero \<Rightarrow> 'a \<Rightarrow> 'a" where
  "or_default d v = (if v = 0 then d else v)"

definition new_user :: "int \<Rightarrow> user \<Rightarrow> user" where
  "new_user now u = u\<lparr>u_role := (if u_role u = [] then ''user'' else u_role u),
     u_status := or_default 1 (u_status u),
     u_created_at := or_default now (u_created_at u), u_updated_at := or_default now (u_updated_at u)\<rparr>"

definition new_product :: "int \<Rightarrow> product \<Rightarrow> product" where
  "new_product now p = p\<lparr>p_limit_per_user := or_default 1 (p_limit_per_user p),
     p_pay_timeout := or_default 30 (p_pay_timeout p),
     p_created_at := or_default now (p_created_at p), p_updated_at := or_default now (p_updated_at p)\<rparr>"

definition new_sku :: "int \<Rightarrow> product_sku \<Rightarrow> product_sku" where
  "new_sku now k = k\<lparr>k_status := or_default 1 (k_status k),
     k_created_at := or_default now (k_created_at k), k_updated_at := or_default now (k_updated_at k)\<rparr>"

definition new_order :: "int \<Rightarrow> order \<Rightarrow> order" where
  "new_order now r = r\<lparr>o_quantity := or_default 1 (o_quantity r),
     o_created_at := or_default now (o_created_at r), o_updated_at := or_default now (o_updated_at r)\<rparr>"

section \<open>Users\<close>

definition CreateUser :: "'d db_ops \<Rightarrow> int \<Rightarrow> user \<Rightarrow> 'd \<Rightarrow> 'd \<times> user result" where
  "CreateUser ops now u d = (case on_user ops (Create [new_user now u]) d of (d', a) \<Rightarrow>
     (d', case answer_rows a of Inl e \<Rightarrow> Inl e | Inr [] \<Rightarrow> Inl bad_answer | Inr (r # _) \<Rightarrow> Inr r))"

definition GetUserByUsername :: "'d db_ops \<Rightarrow> string \<Rightarrow> 'd \<Rightarrow> 'd \<times> user result" where
  "GetUserByUsername ops username d =
     (case on_user ops (First (\<lambda>u. db_weight ops (u_username u) = db_weight ops username)) d of (d', a) \<Rightarrow> (d', answer_row a))"

definition GetUserByID :: "'d db_ops \<Rightarrow> int \<Rightarrow> 'd \<Rightarrow> 'd \<times> user result" where
  "GetUserByID ops userID d =
     (case on_user_read ops (First (\<lambda>u. u_id u = userID)) d of (d', a) \<Rightarrow> (d', answer_row a))"

definition GetUserList :: "'d db_ops \<Rightarrow> int \<Rightarrow> int \<Rightarrow> 'd \<Rightarrow> 'd \<times> (user list \<times> int) result" where
  "GetUserList ops page pageSize d =
     (let offset = (page - 1) * pageSize in
      case on_user_read ops (Count (\<lambda>_. True)) d of (d1, a) \<Rightarrow>
        (case answer_count a of
           Inl e \<Rightarrow> (d1, Inl e)
         | Inr ntotal \<Rightarrow> (case on_user_read ops (Find (\<lambda>_. True) True offset (Some pageSize)) d1 of (d2, b) \<Rightarrow>
             (d2, map_sum id (\<lambda>us. (us, ntotal)) (answer_rows b)))))"

definition UpdateUserRole :: "'d db_ops \<Rightarrow> int \<Rightarrow> int \<Rightarrow> string \<Rightarrow> 'd \<Rightarrow> 'd \<times> unit result" where
  "UpdateUserRole ops now userID role d =
     (case on_user ops (Update (\<lambda>u. u_id u = userID) (\<lambda>u. u\<lparr>u_role := role, u_updated_at := now\<rparr>)) d of
        (d', a) \<Rightarrow> (d', answer_unit a))"

definition UpdatePassword :: "'d db_ops \<Rightarrow> int \<Rightarrow> int \<Rightarrow> string \<Rightarrow> 'd \<Rightarrow> 'd \<times> unit result" where
  "UpdatePassword ops now userID hashedPassword d =
     (case on_user ops (Update (\<lambda>u. u_id u = userID)
          (\<lambda>u. u\<lparr>u_password := hashedPassword, u_updated_at := now\<rparr>)) d of
        (d', a) \<Rightarrow> (d', answer_unit a))"

section \<open>Products\<close>

definition CreateProduct :: "'d db_ops \<Rightarrow> int \<Rightarrow> product \<Rightarrow> 'd \<Rightarrow> 'd \<times> product result" where
  "CreateProduct ops now p d = (case on_product ops (Create [new_product now p]) d of (d', a) \<Rightarrow>
     (d', case answer_rows a of Inl e \<Rightarrow> Inl e | Inr [] \<Rightarrow> Inl bad_answer | Inr (r # _) \<Rightarrow> Inr r))"

text \<open>The map of updates is a function that sets the columns of its keys.\<close>

definition UpdateProduct ::
  "'d db_ops \<Rightarrow> int \<Rightarrow> int \<Rightarrow> (product \<Rightarrow> product) \<Rightarrow> 'd \<Rightarrow> 'd \<times> unit result" where
  "UpdateProduct ops now i updates d =
     (case on_product ops (Update (\<lambda>p. p_id p = i) (\<lambda>p. (updates p)\<lparr>p_updated_at := now\<rparr>)) d of
        (d', a) \<Rightarrow> (d', answer_unit a))"

definition GetProductByID :: "'d db_ops \<Rightarrow> int \<Rightarrow> 'd \<Rightarrow> 'd \<times> product result" where
  "GetProductByID ops productID d =
     (case on_product ops (First (\<lambda>p. p_id p = productID)) d of (d', a) \<Rightarrow> (d', answer_row a))"

definition GetProductList :: "'d db_ops \<Rightarrow> int \<Rightarrow> int \<Rightarrow> 'd \<Rightarrow> 'd \<times> (product list \<times> int) result" where
  "GetProductList ops page pageSize d =
     (let offset = (page - 1) * pageSize in
      case on_product ops (Count (\<lambda>_. True)) d of (d1, a) \<Rightarrow>
        (case answer_count a of
           Inl e \<Rightarrow> (d1, Inl e)
         | Inr ntotal \<Rightarrow> (case on_product ops (Find (\<lambda>_. True) True offset (Some pageSize)) d1 of (d2, b) \<Rightarrow>
             (d2, map_sum id (\<lambda>ps. (ps, ntotal)) (answer_rows b)))))"

definition GetActiveProducts :: "'d db_ops \<Rightarrow> int \<Rightarrow> 'd \<Rightarrow> 'd \<times> product list result" where
  "GetActiveProducts ops now d =
     (case on_product ops (Find (\<lambda>p. p_status p = 1 \<and> p_start_time p \<le> now \<and> p_end_time p \<ge> now) True 0 None) d of
        (d', a) \<Rightarrow> (d', answer_rows a))"

definition deduct_stmt :: "int \<Rightarrow> int \<Rightarrow> int \<Rightarrow> product stmt" where
  "deduct_stmt now productID quantity =
     Update (\<lambda>p. p_id p = productID \<and> p_remain_stock p \<ge> quantity)
       (\<lambda>p. p\<lparr>p_remain_stock := p_remain_stock p - quantity, p_updated_at := now\<rparr>)"

definition DeductProductStock :: "'d db_ops \<Rightarrow> int \<Rightarrow> int \<Rightarrow> int \<Rightarrow> 'd \<Rightarrow> 'd \<times> unit result" where
  "DeductProductStock ops now productID quantity d =
     (case on_product ops (deduct_stmt now productID quantity) d of (d', a) \<Rightarrow>
        (d', case answer_affected a of
           Inl e \<Rightarrow> Inl e
         | Inr n \<Rightarrow> if n = 0 then Inl (Errf ''out of stock'') else Inr ()))"

definition RollbackProductStock :: "'d db_ops \<Rightarrow> int \<Rightarrow> int \<Rightarrow> int \<Rightarrow> 'd \<Rightarrow> 'd \<times> unit result" where
  "RollbackProductStock ops now productID quantity d =
     (case on_product ops (Update (\<lambda>p. p_id p = productID)
          (\<lambda>p. p\<lparr>p_remain_stock := p_remain_stock p + quantity, p_updated_at := now\<rparr>)) d of
        (d', a) \<Rightarrow> (d', answer_unit a))"

definition GetAllProducts :: "'d db_ops \<Rightarrow> 'd \<Rightarrow> 'd \<times> product list result" where
  "GetAllProducts ops d = (case on_product ops (Find (\<lambda>_. True) False 0 None) d of (d', a) \<Rightarrow> (d', answer_rows a))"

section \<open>SKUs\<close>

definition ReplaceProductSKUs ::
  "'d db_ops \<Rightarrow> int \<Rightarrow> int \<Rightarrow> product_sku list \<Rightarrow> 'd \<Rightarrow> 'd \<times> unit result" where
  "ReplaceProductSKUs ops now productID skus d = in_tx ops (\<lambda>d.
     (case on_sku ops (Delete (\<lambda>k. k_product_id k = productID) now) d of (d1, a) \<Rightarrow>
       (case answer_unit a of
          Inl e \<Rightarrow> (d1, Inl e)
        | Inr _ \<Rightarrow>
            if length skus = 0 then (d1, Inr ())
            else (case on_sku ops (Create (map (\<lambda>k. new_sku now (k\<lparr>k_product_id := productID\<rparr>)) skus)) d1 of
                    (d2, b) \<Rightarrow> (d2, answer_unit b))))) d"

definition GetProductSKUs :: "'d db_ops \<Rightarrow> int \<Rightarrow> 'd \<Rightarrow> 'd \<times> product_sku list result" where
  "GetProductSKUs ops productID d =
     (case on_sku ops (Find (\<lambda>k. k_product_id k = productID \<and> k_status k = 1) False 0 None) d of
        (d', a) \<Rightarrow> (d', answer_rows a))"

definition GetProductSKUsMap ::
  "'d db_ops \<Rightarrow> int list \<Rightarrow> 'd \<Rightarrow> 'd \<times> (int \<Rightarrow> product_sku list) result" where
  "GetProductSKUsMap ops productIDs d =
     (if length productIDs = 0 then (d, Inr (\<lambda>_. []))
      else (case on_sku ops (Find (\<lambda>k. k_product_id k \<in> set productIDs \<and> k_status k = 1) False 0 None) d of
        (d', a) \<Rightarrow> (d', case answer_rows a of
           Inl e \<Rightarrow> Inl e
         | Inr skus \<Rightarrow> Inr (fold (\<lambda>s m. m(k_product_id s := m (k_product_id s) @ [s])) skus (\<lambda>_. [])))))"

definition GetSKUByID :: "'d db_ops \<Rightarrow> int \<Rightarrow> 'd \<Rightarrow> 'd \<times> product_sku result" where
  "GetSKUByID ops skuID d =
     (case on_sku ops (First (\<lambda>k. k_id k = skuID \<and> k_status k = 1)) d of (d', a) \<Rightarrow> (d', answer_row a))"

section \<open>Orders\<close>

text \<open>\<open>GetOrderTableName\<close> of \<^verbatim>\<open>utils/utils.go\<close>.\<close>

definition GetOrderTableName :: "int \<Rightarrow> int \<Rightarrow> string" where
  "GetOrderTableName userID shardCount = ''t_order_'' @ fmt_d (go_rem userID shardCount)"

definition CreateOrder :: "'d db_ops \<Rightarrow> int \<Rightarrow> int \<Rightarrow> order \<Rightarrow> 'd \<Rightarrow> 'd \<times> unit result" where
  "CreateOrder ops now shardCount r d =
     (case on_order ops (GetOrderTableName (o_user_id r) shardCount) (Create [new_order now r]) d of
        (d', a) \<Rightarrow> (d', answer_unit a))"

definition CreateOrderWithStock :: "'d db_ops \<Rightarrow> int \<Rightarrow> int \<Rightarrow> order \<Rightarrow> 'd \<Rightarrow> 'd \<times> unit result" where
  "CreateOrderWithStock ops now shardCount r d = in_tx ops (\<lambda>d.
     (case on_order ops (GetOrderTableName (o_user_id r) shardCount) (Create [new_order now r]) d of
        (d1, a) \<Rightarrow> (case answer_unit a of
            Inl e \<Rightarrow> (d1, Inl e)
          | Inr _ \<Rightarrow> (case on_product ops (deduct_stmt now (o_product_id r) (o_quantity r)) d1 of
              (d2, b) \<Rightarrow> (d2, case answer_affected b of
                  Inl e \<Rightarrow> Inl e
                | Inr n \<Rightarrow> if n = 0 then Inl (Errf ''out of stock'') else Inr ()))))) d"

definition GetOrderByOrderNo :: "'d db_ops \<Rightarrow> int \<Rightarrow> string \<Rightarrow> int \<Rightarrow> 'd \<Rightarrow> 'd \<times> order result" where
  "GetOrderByOrderNo ops shardCount orderNo userID d =
     (case on_order ops (GetOrderTableName userID shardCount) (First (\<lambda>r. o_order_no r = orderNo)) d of
        (d', a) \<Rightarrow> (d', answer_row a))"

definition status_filter :: "string \<Rightarrow> order \<Rightarrow> bool" where
  "status_filter status r =
     (if status = ''pending'' then o_status r = Pending
      else if status = ''paid'' then o_status r = Paid
      else if status = ''cancelled'' then o_status r = Cancelled
      else if status = ''refunded'' then o_status r = Refunded
      else if status = ''timeout'' then o_status r = Timeout
      else True)"

definition GetUserOrders ::
  "'d db_ops \<Rightarrow> int \<Rightarrow> int \<Rightarrow> int \<Rightarrow> int \<Rightarrow> string \<Rightarrow> 'd \<Rightarrow> 'd \<times> (order list \<times> int) result" where
  "GetUserOrders ops shardCount userID page pageSize status d =
     (let tableName = GetOrderTableName userID shardCount; offset = (page - 1) * pageSize;
          P = (\<lambda>r. o_user_id r = userID \<and> status_filter status r)
      in case on_order ops tableName (Count P) d of (d1, a) \<Rightarrow>
        (case answer_count a of
           Inl e \<Rightarrow> (d1, Inl e)
         | Inr ntotal \<Rightarrow> (case on_order ops tableName (Find P True offset (Some pageSize)) d1 of (d2, b) \<Rightarrow>
             (d2, map_sum id (\<lambda>rs. (rs, ntotal)) (answer_rows b)))))"

definition update_order ::
  "'d db_ops \<Rightarrow> int \<Rightarrow> string \<Rightarrow> int \<Rightarrow> (order \<Rightarrow> order) \<Rightarrow> 'd \<Rightarrow> 'd \<times> unit result" where
  "update_order ops shardCount orderNo userID f d =
     (case on_order ops (GetOrderTableName userID shardCount) (Update (\<lambda>r. o_order_no r = orderNo) f) d of
        (d', a) \<Rightarrow> (d', answer_unit a))"

definition UpdateOrderStatus ::
  "'d db_ops \<Rightarrow> int \<Rightarrow> int \<Rightarrow> string \<Rightarrow> int \<Rightarrow> order_status \<Rightarrow> 'd \<Rightarrow> 'd \<times> unit result" where
  "UpdateOrderStatus ops now shardCount orderNo userID status =
     update_order ops shardCount orderNo userID (\<lambda>r. r\<lparr>o_status := status, o_updated_at := now\<rparr>)"

definition UpdateOrderStatusWithPayTime ::
  "'d db_ops \<Rightarrow> int \<Rightarrow> int \<Rightarrow> string \<Rightarrow> int \<Rightarrow> order_status \<Rightarrow> int option \<Rightarrow> 'd \<Rightarrow> 'd \<times> unit result" where
  "UpdateOrderStatusWithPayTime ops now shardCount orderNo userID status payTime =
     update_order ops shardCount orderNo userID (\<lambda>r.
       (case payTime of
          None \<Rightarrow> r\<lparr>o_status := status, o_updated_at := now\<rparr>
        | Some t \<Rightarrow> r\<lparr>o_status := status, o_updated_at := now, o_pay_time := Some t\<rparr>))"

definition CancelOrderWithStatus ::
  "'d db_ops \<Rightarrow> int \<Rightarrow> int \<Rightarrow> string \<Rightarrow> int \<Rightarrow> string \<Rightarrow> order_status \<Rightarrow> 'd \<Rightarrow> 'd \<times> unit result" where
  "CancelOrderWithStatus ops now shardCount orderNo userID reason status =
     update_order ops shardCount orderNo userID (\<lambda>r. r\<lparr>o_status := status,
       o_cancel_time := Some now, o_cancel_reason := reason, o_updated_at := now\<rparr>)"

definition CancelOrder ::
  "'d db_ops \<Rightarrow> int \<Rightarrow> int \<Rightarrow> string \<Rightarrow> int \<Rightarrow> string \<Rightarrow> 'd \<Rightarrow> 'd \<times> unit result" where
  "CancelOrder ops now shardCount orderNo userID reason =
     update_order ops shardCount orderNo userID (\<lambda>r. r\<lparr>o_status := Cancelled,
       o_cancel_time := Some now, o_cancel_reason := reason, o_updated_at := now\<rparr>)"

definition GetUnpaidOrdersByUser :: "'d db_ops \<Rightarrow> int \<Rightarrow> int \<Rightarrow> 'd \<Rightarrow> 'd \<times> order list result" where
  "GetUnpaidOrdersByUser ops shardCount userID d =
     (case on_order ops (GetOrderTableName userID shardCount)
        (Find (\<lambda>r. o_user_id r = userID \<and> o_status r = Pending) False 0 None) d of
        (d', a) \<Rightarrow> (d', answer_rows a))"

section \<open>Orders over all shards\<close>

text \<open>SQL LIKE: \<^verbatim>\<open>%\<close> any run of characters, \<^verbatim>\<open>_\<close> one character.\<close>

fun like :: "string \<Rightarrow> string \<Rightarrow> bool" where
  "like [] s = (s = [])"
| "like (c # p) s =
     (if c = CHR ''%'' then like p s \<or> (case s of [] \<Rightarrow> False | _ # t \<Rightarrow> like (c # p) t)
      else (case s of [] \<Rightarrow> False | x # t \<Rightarrow> (c = CHR ''_'' \<or> c = x) \<and> like p t))"

definition admin_filter :: "int option \<Rightarrow> string \<Rightarrow> int option \<Rightarrow> order \<Rightarrow> bool" where
  "admin_filter status orderNo userID r \<longleftrightarrow>
     (case status of None \<Rightarrow> True | Some st \<Rightarrow> status_code (o_status r) = st) \<and>
     (if orderNo \<noteq> [] then like (''%'' @ orderNo @ ''%'') (o_order_no r) else True) \<and>
     (case userID of None \<Rightarrow> True | Some u \<Rightarrow> o_user_id r = u)"

fun count_shards :: "'d db_ops \<Rightarrow> (order \<Rightarrow> bool) \<Rightarrow> string list \<Rightarrow> 'd \<Rightarrow> 'd \<times> int result" where
  "count_shards ops P [] d = (d, Inr 0)"
| "count_shards ops P (t # ts) d = (case on_order ops t (Count P) d of (d1, a) \<Rightarrow>
     (case answer_count a of
        Inl e \<Rightarrow> (d1, Inl e)
      | Inr n \<Rightarrow> (case count_shards ops P ts d1 of (d2, r) \<Rightarrow> (d2, map_sum id (\<lambda>m. n + m) r))))"

text \<open>The UNION ALL query, as the concatenation of the selections from its tables.\<close>

fun union_shards :: "'d db_ops \<Rightarrow> (order \<Rightarrow> bool) \<Rightarrow> string list \<Rightarrow> 'd \<Rightarrow> 'd \<times> order list result" where
  "union_shards ops P [] d = (d, Inr [])"
| "union_shards ops P (t # ts) d = (case on_order ops t (Find P False 0 None) d of (d1, a) \<Rightarrow>
     (case answer_rows a of
        Inl e \<Rightarrow> (d1, Inl e)
      | Inr rs \<Rightarrow> (case union_shards ops P ts d1 of (d2, r) \<Rightarrow> (d2, map_sum id (\<lambda>qs. rs @ qs) r))))"

definition all_shards :: "string list" where
  "all_shards = map (\<lambda>i. ''t_order_'' @ fmt_d (int i)) [0..<16]"

definition GetAllOrders ::
  "'d db_ops \<Rightarrow> int \<Rightarrow> int \<Rightarrow> int option \<Rightarrow> string \<Rightarrow> int option \<Rightarrow> 'd \<Rightarrow> 'd \<times> (order list \<times> int) result" where
  "GetAllOrders ops page pageSize status orderNo userID d =
     (let shardRange = (case userID of
            None \<Rightarrow> all_shards
          | Some u \<Rightarrow> [''t_order_'' @ fmt_d (go_rem u 16)]);
          P = admin_filter status orderNo userID; offset = (page - 1) * pageSize
      in case count_shards ops P shardRange d of
           (d1, Inl e) \<Rightarrow> (d1, Inl e)
         | (d1, Inr ntotal) \<Rightarrow>
             if ntotal > 0
             then (case union_shards ops P shardRange d1 of
                     (d2, Inl e) \<Rightarrow> (d2, Inl e)
                   | (d2, Inr rs) \<Rightarrow>
                       (d2, Inr (page_of offset (Some pageSize) (rev (sort_key o_created_at rs)), ntotal)))
             else (d1, Inr ([], ntotal)))"

definition GetTotalOrderCount :: "'d db_ops \<Rightarrow> 'd \<Rightarrow> 'd \<times> int result" where
  "GetTotalOrderCount ops d = count_shards ops (\<lambda>_. True) all_shards d"

section \<open>Reconciliation records, audit log, blacklist\<close>

definition InsertReconDiff :: "'d db_ops \<Rightarrow> int \<Rightarrow> recon_diff \<Rightarrow> 'd \<Rightarrow> 'd \<times> recon_diff result" where
  "InsertReconDiff ops now r d =
     (case on_diff ops (Create [r\<lparr>rd_created_at := or_default now (rd_created_at r)\<rparr>]) d of (d', a) \<Rightarrow>
        (d', case answer_rows a of Inl e \<Rightarrow> Inl e | Inr [] \<Rightarrow> Inl bad_answer | Inr (x # _) \<Rightarrow> Inr x))"

definition UpdateReconDiffCorrected :: "'d db_ops \<Rightarrow> int \<Rightarrow> int \<Rightarrow> 'd \<Rightarrow> 'd \<times> unit result" where
  "UpdateReconDiffCorrected ops now i d =
     (case on_diff ops (Update (\<lambda>r. rd_id r = i)
          (\<lambda>r. r\<lparr>rd_auto_corrected := True, rd_corrected_at := Some now\<rparr>)) d of
        (d', a) \<Rightarrow> (d', answer_unit a))"

definition GetReconDiffList :: "'d db_ops \<Rightarrow> int \<Rightarrow> int \<Rightarrow> 'd \<Rightarrow> 'd \<times> (recon_diff list \<times> int) result" where
  "GetReconDiffList ops page pageSize d =
     (let offset = (page - 1) * pageSize in
      case on_diff ops (Count (\<lambda>_. True)) d of (d1, a) \<Rightarrow>
        (case answer_count a of
           Inl e \<Rightarrow> (d1, Inl e)
         | Inr ntotal \<Rightarrow> (case on_diff ops (Find (\<lambda>_. True) True offset (Some pageSize)) d1 of (d2, b) \<Rightarrow>
             (d2, map_sum id (\<lambda>rs. (rs, ntotal)) (answer_rows b)))))"

definition CreateAuditLog :: "'d db_ops \<Rightarrow> int \<Rightarrow> audit_log \<Rightarrow> 'd \<Rightarrow> 'd \<times> unit result" where
  "CreateAuditLog ops now l d =
     (case on_audit ops (Create [l\<lparr>a_created_at := or_default now (a_created_at l)\<rparr>]) d of (d', a) \<Rightarrow>
        (d', answer_unit a))"

definition GetAuditLogs ::
  "'d db_ops \<Rightarrow> int \<Rightarrow> int \<Rightarrow> int \<Rightarrow> string \<Rightarrow> 'd \<Rightarrow> 'd \<times> (audit_log list \<times> int) result" where
  "GetAuditLogs ops page pageSize operatorID action d =
     (let P = (\<lambda>l. (if operatorID > 0 then a_user_id l = operatorID else True) \<and>
                   (if action \<noteq> [] then db_weight ops (a_action l) = db_weight ops action else True));
          offset = (page - 1) * pageSize
      in case on_audit ops (Count P) d of (d1, a) \<Rightarrow>
        (case answer_count a of
           Inl e \<Rightarrow> (d1, Inl e)
         | Inr ntotal \<Rightarrow> (case on_audit ops (Find P True offset (Some pageSize)) d1 of (d2, b) \<Rightarrow>
             (d2, map_sum id (\<lambda>ls. (ls, ntotal)) (answer_rows b)))))"

definition CreateBlacklist :: "'d db_ops \<Rightarrow> int \<Rightarrow> blacklist \<Rightarrow> 'd \<Rightarrow> 'd \<times> unit result" where
  "CreateBlacklist ops now b d =
     (case on_black ops (Create [b\<lparr>b_created_at := or_default now (b_created_at b)\<rparr>]) d of (d', a) \<Rightarrow>
        (d', answer_unit a))"

definition GetBlacklist :: "'d db_ops \<Rightarrow> 'd \<Rightarrow> 'd \<times> blacklist list result" where
  "GetBlacklist ops d = (case on_black ops (Find (\<lambda>_. True) True 0 None) d of (d', a) \<Rightarrow> (d', answer_rows a))"

definition DeleteBlacklist :: "'d db_ops \<Rightarrow> int \<Rightarrow> int \<Rightarrow> 'd \<Rightarrow> 'd \<times> unit result" where
  "DeleteBlacklist ops now i d =
     (case on_black ops (Delete (\<lambda>b. b_id b = i) now) d of (d', a) \<Rightarrow> (d', answer_unit a))"

definition CheckBlacklist :: "'d db_ops \<Rightarrow> string \<Rightarrow> string \<Rightarrow> 'd \<Rightarrow> 'd \<times> bool result" where
  "CheckBlacklist ops typ v d =
     (case on_black ops (Count (\<lambda>b. db_weight ops (b_type b) = db_weight ops typ \<and> db_weight ops (b_value b) = db_weight ops v)) d of (d', a) \<Rightarrow>
        (d', map_sum id (\<lambda>count. count > 0) (answer_count a)))"

end
