(* ===== verification/Config.thy ===== *)
theory Config
  imports GoFmt
begin

text \<open>
  \<^verbatim>\<open>config/config.go\<close>: the configuration structs, their defaults, their validation, the
  loading at start and the hot reload. The YAML reader (viper) and the host name are parameters.
\<close>

section \<open>The structs\<close>

record server_config =
  sv_name :: string
  sv_port :: int
  sv_mode :: string
  sv_instance_id :: string
  sv_read_timeout :: int
  sv_write_timeout :: int
  sv_idle_timeout :: int
  sv_max_body_bytes :: int
  sv_sign_secret :: string
  sv_performance_mode :: bool

record jwt_config =
  jw_secret :: string
  jw_expire_hours :: int
  jw_issuer :: string

record mysql_node_config =
  my_host :: string
  my_port :: int
  my_user :: string
  my_password :: string
  my_database :: string
  my_charset :: string
  my_max_idle_conns :: int
  my_max_open_conns :: int
  my_conn_max_lifetime :: int

record mysql_config =
  my_master :: mysql_node_config
  my_slaves :: "mysql_node_config list"
  my_order_table_shard_count :: int

definition GetDSN :: "mysql_node_config \<Rightarrow> string" where
  "GetDSN m = my_user m @ '':'' @ my_password m @ ''@tcp('' @ my_host m @ '':'' @ fmt_d (my_port m) @
     '')/'' @ my_database m @ ''?charset='' @ my_charset m @ ''&parseTime=True&loc=Local''"

record redis_config =
  rd_addrs :: "string list"
  rd_password :: string
  rd_pool_size :: int
  rd_min_idle_conns :: int
  rd_dial_timeout :: int
  rd_read_timeout :: int
  rd_write_timeout :: int

record rabbit_exchange_config =
  rx_order :: string
  rx_dead_letter :: string
  rx_delay :: string

record cors_config =
  co_allowed_origins :: "string list"
  co_allowed_methods :: "string list"
  co_allowed_headers :: "string list"

record rabbit_queue_config =
  rq_order :: string
  rq_delay :: string
  rq_dead_letter :: string
  rq_delay_route :: string

record rabbit_consumer_config =
  rk_concurrency :: int
  rk_prefetch :: int

record rabbit_config =
  rb_urls :: "string list"
  rb_vhost :: string
  rb_heartbeat :: int
  rb_exchange :: rabbit_exchange_config
  rb_queue :: rabbit_queue_config
  rb_consumer :: rabbit_consumer_config
  rb_delay_ttl_ms :: int
  rb_channel_pool_size :: int

record kafka_producer_config =
  kp_acks :: string
  kp_compression :: string
  kp_max_message_bytes :: int
  kp_batch_size :: int
  kp_linger_ms :: int

record kafka_config =
  kf_brokers :: "string list"
  kf_topic :: string
  kf_producer :: kafka_producer_config

record etcd_config =
  et_endpoints :: "string list"
  et_dial_timeout :: int
  et_lease_ttl :: int
  et_service_prefix :: string

record breaker_config =
  cb_max_rt_ms :: int
  cb_max_rt_ratio :: rat
  cb_min_request_amount :: int
  cb_stat_interval_ms :: int
  cb_recovery_timeout_ms :: int

record hot_param_config =
  hp_threshold :: int
  hp_duration_sec :: int

record sentinel_config =
  sc_enabled :: bool
  sc_dashboard :: string
  sc_app_name :: string
  sc_log_dir :: string
  sc_global_qps :: int
  sc_user_qps :: int
  sc_seckill_qps :: int
  sc_circuit_breaker :: breaker_config
  sc_hot_param :: hot_param_config

record log_config =
  lg_level :: string
  lg_format :: string
  lg_output :: string
  lg_file_path :: string
  lg_max_size :: int
  lg_max_backups :: int
  lg_max_age :: int
  lg_compress :: bool

record dingtalk_alert_config =
  da_error_rate_threshold :: rat
  da_qps_threshold :: int
  da_mq_backlog_threshold :: int
  da_circuit_breaker_trigger :: bool

record dingtalk_config =
  dt_enabled :: bool
  dt_webhook_url :: string
  dt_secret :: string
  dt_alert :: dingtalk_alert_config

record reconciler_config =
  rc_enabled :: bool
  rc_interval_sec :: int
  rc_batch_size :: int

record prometheus_config =
  pm_enabled :: bool
  pm_metrics_path :: string
  pm_metrics_port :: int

record tracing_config =
  tc_enabled :: bool
  tc_endpoint :: string

record config =
  cf_server :: server_config
  cf_jwt :: jwt_config
  cf_mysql :: mysql_config
  cf_redis :: redis_config
  cf_rabbit :: rabbit_config
  cf_kafka :: kafka_config
  cf_etcd :: etcd_config
  cf_sentinel :: sentinel_config
  cf_log :: log_config
  cf_dingtalk :: dingtalk_config
  cf_reconciler :: reconciler_config
  cf_prometheus :: prometheus_config
  cf_cors :: cors_config
  cf_tracing :: tracing_config

section \<open>Defaults\<close>

text \<open>The struct fields are filled in place; each group of assignments touches one struct.\<close>

definition dflt :: "'a \<Rightarrow> 'a \<Rightarrow> 'a \<Rightarrow> 'a" where
  "dflt zero d x = (if x = zero then d else x)"

lemma dflt_idem [simp]: "dflt z d (dflt z d x) = dflt z d x"
  by (simp add: dflt_def)

definition fill_server :: "server_config \<Rightarrow> server_config" where
  "fill_server s = s\<lparr>sv_port := dflt 0 8080 (sv_port s), sv_mode := dflt [] ''release'' (sv_mode s),
     sv_read_timeout := dflt 0 30 (sv_read_timeout s), sv_write_timeout := dflt 0 30 (sv_write_timeout s),
     sv_idle_timeout := dflt 0 60 (sv_idle_timeout s),
     sv_max_body_bytes := dflt 0 1048576 (sv_max_body_bytes s)\<rparr>"

definition fill_rabbit :: "rabbit_config \<Rightarrow> rabbit_config" where
  "fill_rabbit r = r\<lparr>rb_delay_ttl_ms := dflt 0 1800000 (rb_delay_ttl_ms r),
     rb_channel_pool_size := dflt 0 20 (rb_channel_pool_size r),
     rb_heartbeat := dflt 0 30 (rb_heartbeat r),
     rb_consumer := (rb_consumer r)\<lparr>rk_concurrency := dflt 0 10 (rk_concurrency (rb_consumer r)),
        rk_prefetch := dflt 0 50 (rk_prefetch (rb_consumer r))\<rparr>,
     rb_exchange := (rb_exchange r)\<lparr>rx_delay := dflt [] ''miaosha.delay.exchange'' (rx_delay (rb_exchange r))\<rparr>,
     rb_queue := (rb_queue r)\<lparr>rq_delay_route := dflt [] ''miaosha.order.delay'' (rq_delay_route (rb_queue r))\<rparr>\<rparr>"

definition fill_cors :: "cors_config \<Rightarrow> cors_config" where
  "fill_cors c = c\<lparr>
     co_allowed_origins := dflt [] [''http://localhost:3000'', ''http://localhost:5173''] (co_allowed_origins c),
     co_allowed_methods := dflt [] [''GET'', ''POST'', ''PUT'', ''DELETE'', ''OPTIONS''] (co_allowed_methods c),
     co_allowed_headers := dflt [] [''Content-Type'', ''Authorization'', ''X-Trace-ID''] (co_allowed_headers c)\<rparr>"

definition fillDefaults :: "config \<Rightarrow> config" where
  "fillDefaults c = c\<lparr>
     cf_server := fill_server (cf_server c),
     cf_jwt := (cf_jwt c)\<lparr>jw_expire_hours := dflt 0 24 (jw_expire_hours (cf_jwt c))\<rparr>,
     cf_mysql := (cf_mysql c)\<lparr>my_order_table_shard_count := dflt 0 16 (my_order_table_shard_count (cf_mysql c))\<rparr>,
     cf_rabbit := fill_rabbit (cf_rabbit c),
     cf_reconciler := (cf_reconciler c)\<lparr>rc_interval_sec := dflt 0 300 (rc_interval_sec (cf_reconciler c)),
        rc_batch_size := dflt 0 100 (rc_batch_size (cf_reconciler c))\<rparr>,
     cf_prometheus := (cf_prometheus c)\<lparr>pm_metrics_path := dflt [] ''/metrics'' (pm_metrics_path (cf_prometheus c)),
        pm_metrics_port := dflt 0 9090 (pm_metrics_port (cf_prometheus c))\<rparr>,
     cf_cors := fill_cors (cf_cors c)\<rparr>"

definition fill_instance :: "string \<Rightarrow> config \<Rightarrow> config" where
  "fill_instance hostname c =
     (if sv_instance_id (cf_server c) = []
      then c\<lparr>cf_server := (cf_server c)\<lparr>sv_instance_id := hostname @ '':'' @ fmt_d (sv_port (cf_server c))\<rparr>\<rparr>
      else c)"

section \<open>Validation\<close>

text \<open>The two out-of-range connection limits are only logged.\<close>

definition validateConfig :: "config \<Rightarrow> unit result" where
  "validateConfig c =
     (if jw_secret (cf_jwt c) = [] then Inl (Errf ''JWT secret empty'')
      else if jw_expire_hours (cf_jwt c) \<le> 0 \<or> jw_expire_hours (cf_jwt c) > 720
      then Inl (Errf ''JWT ExpireHours out of range'')
      else if sv_sign_secret (cf_server c) = [] then Inl (Errf ''sign secret empty'')
      else if my_host (my_master (cf_mysql c)) = [] then Inl (Errf ''MySQL host empty'')
      else if rd_addrs (cf_redis c) = [] then Inl (Errf ''Redis addrs empty'')
      else if rb_urls (cf_rabbit c) = [] then Inl (Errf ''RabbitMQ urls empty'')
      else if rk_concurrency (rb_consumer (cf_rabbit c)) < 1 \<or> rk_concurrency (rb_consumer (cf_rabbit c)) > 100
      then Inl (Errf ''RabbitMQ concurrency out of range'')
      else if pm_metrics_port (cf_prometheus c) \<le> 0 \<or> pm_metrics_port (cf_prometheus c) > 65535
      then Inl (Errf ''Prometheus port out of range'')
      else Inr ())"

section \<open>Loading and hot reload\<close>

text \<open>
  The package variables: the global configuration, the once flag, whether the viper instance
  was kept, the registered callbacks (by name).
\<close>

record 'cb config_state =
  cs_global :: "config option"
  cs_once :: bool
  cs_viper :: bool
  cs_on_change :: "'cb list"

definition GetConfig :: "'cb config_state \<Rightarrow> config option" where
  "GetConfig s = cs_global s"

text \<open>
  \<open>yaml\<close> is what viper answers: it cannot read the file, cannot unmarshal it, or gives the
  struct. The configuration is published before it is validated; a second call returns the
  published one and no error.
\<close>

datatype yaml = ReadFails go_error | UnmarshalFails go_error | Parsed config

definition LoadConfig :: "yaml \<Rightarrow> string \<Rightarrow> 'cb config_state \<Rightarrow> 'cb config_state \<times> config option \<times> go_error option" where
  "LoadConfig y hostname s =
     (if cs_once s then (s, cs_global s, None)
      else let s1 = s\<lparr>cs_once := True\<rparr> in
        (case y of
           ReadFails e \<Rightarrow> (s1, cs_global s1, Some (Wrapf ''read config failed'' e))
         | UnmarshalFails e \<Rightarrow> (s1, cs_global s1, Some (Wrapf ''parse config failed'' e))
         | Parsed c \<Rightarrow>
             (let c1 = fill_instance hostname (fillDefaults c);
                  s2 = s1\<lparr>cs_global := Some c1, cs_viper := True\<rparr>
              in case validateConfig c1 of
                   Inl e \<Rightarrow> (s2, cs_global s2, Some (Wrapf ''config validation failed'' e))
                 | Inr _ \<Rightarrow> (s2, cs_global s2, None))))"

definition WatchConfig :: "'cb option \<Rightarrow> 'cb config_state \<Rightarrow> 'cb config_state" where
  "WatchConfig onChange s =
     (if \<not> cs_viper s then s
      else case onChange of None \<Rightarrow> s | Some f \<Rightarrow> s\<lparr>cs_on_change := cs_on_change s @ [f]\<rparr>)"

text \<open>
  A change of the file: the new configuration replaces the global one and every callback is
  called with it (the list of calls is the second component). It is not validated.
\<close>

definition config_changed ::
  "yaml \<Rightarrow> string \<Rightarrow> 'cb config_state \<Rightarrow> 'cb config_state \<times> ('cb \<times> config) list" where
  "config_changed y hostname s =
     (case y of
        Parsed c \<Rightarrow> (let c1 = fill_instance hostname (fillDefaults c) in
          (s\<lparr>cs_global := Some c1\<rparr>, map (\<lambda>f. (f, c1)) (cs_on_change s)))
      | _ \<Rightarrow> (s, []))"

section \<open>Properties\<close>

definition defaults_filled :: "config \<Rightarrow> bool" where
  "defaults_filled c \<longleftrightarrow> fillDefaults c = c"

lemma fillDefaults_idem [simp]: "fillDefaults (fillDefaults c) = fillDefaults c"
  by (simp add: fillDefaults_def fill_server_def fill_rabbit_def fill_cors_def)

lemma fill_instance_frame [simp]:
  "cf_jwt (fill_instance h c) = cf_jwt c" "cf_mysql (fill_instance h c) = cf_mysql c"
  "cf_redis (fill_instance h c) = cf_redis c" "cf_rabbit (fill_instance h c) = cf_rabbit c"
  "cf_prometheus (fill_instance h c) = cf_prometheus c"
  by (simp_all add: fill_instance_def)

lemma fill_instance_defaults: "defaults_filled (fill_instance h (fillDefaults c))"
  by (simp add: defaults_filled_def fillDefaults_def fill_instance_def fill_server_def fill_rabbit_def fill_cors_def)

lemma fill_instance_id: "sv_instance_id (cf_server (fill_instance h c)) \<noteq> []"
  by (simp add: fill_instance_def)

text \<open>What a start without an error guarantees to the rest of the program.\<close>

definition usable_config :: "config \<Rightarrow> bool" where
  "usable_config c \<longleftrightarrow> jw_secret (cf_jwt c) \<noteq> [] \<and> 1 \<le> jw_expire_hours (cf_jwt c) \<and> jw_expire_hours (cf_jwt c) \<le> 720 \<and>
     sv_sign_secret (cf_server c) \<noteq> [] \<and> sv_instance_id (cf_server c) \<noteq> [] \<and>
     my_host (my_master (cf_mysql c)) \<noteq> [] \<and> my_order_table_shard_count (cf_mysql c) \<noteq> 0 \<and>
     rd_addrs (cf_redis c) \<noteq> [] \<and> rb_urls (cf_rabbit c) \<noteq> [] \<and> rb_channel_pool_size (cf_rabbit c) \<noteq> 0 \<and>
     1 \<le> rk_concurrency (rb_consumer (cf_rabbit c)) \<and> rk_concurrency (rb_consumer (cf_rabbit c)) \<le> 100 \<and>
     1 \<le> pm_metrics_port (cf_prometheus c) \<and> pm_metrics_port (cf_prometheus c) \<le> 65535 \<and>
     defaults_filled c"

lemma validate_usable:
  assumes "validateConfig (fill_instance h (fillDefaults c)) = Inr ()"
  shows "usable_config (fill_instance h (fillDefaults c))"
proof -
  have "my_order_table_shard_count (cf_mysql (fillDefaults c)) \<noteq> 0"
    "rb_channel_pool_size (cf_rabbit (fillDefaults c)) \<noteq> 0"
    by (simp_all add: fillDefaults_def fill_rabbit_def dflt_def)
  moreover have "defaults_filled (fill_instance h (fillDefaults c))"
    by (rule fill_instance_defaults)
  ultimately show ?thesis
    using assms fill_instance_id [of h "fillDefaults c"]
    by (simp add: usable_config_def validateConfig_def split: if_splits)
qed

text \<open>
  C34. The first \<open>LoadConfig\<close> that reports no error has published the configuration it returns,
  and that configuration is usable: secrets, addresses and an instance id present, JWT lifetime,
  consumer concurrency and metrics port in range, every default filled (so the shard count and
  the channel pool size are not zero).
\<close>

theorem loaded_config_usable:
  assumes "\<not> cs_once s" "LoadConfig y hostname s = (s', res, None)"
  shows "\<exists>c. res = Some c \<and> GetConfig s' = Some c \<and> usable_config c"
  using assms validate_usable
  by (auto simp: LoadConfig_def Let_def GetConfig_def split: yaml.splits sum.splits)

text \<open>
  A hot reload keeps no such promise: whatever file viper parses becomes the global
  configuration, also one that \<open>validateConfig\<close> rejects, and every registered callback gets it.
\<close>

theorem reload_skips_validation:
  assumes "validateConfig (fill_instance hostname (fillDefaults c)) = Inl e"
  shows "\<exists>c1. GetConfig (fst (config_changed (Parsed c) hostname s)) = Some c1 \<and> validateConfig c1 = Inl e \<and>
    snd (config_changed (Parsed c) hostname s) = map (\<lambda>f. (f, c1)) (cs_on_change s)"
  using assms by (simp add: config_changed_def GetConfig_def Let_def)

section \<open>Runs\<close>

definition demo_config :: "string \<Rightarrow> config" where
  "demo_config secret = \<lparr>
     cf_server = \<lparr>sv_name = ''miaosha'', sv_port = 0, sv_mode = [], sv_instance_id = [], sv_read_timeout = 0,
       sv_write_timeout = 0, sv_idle_timeout = 0, sv_max_body_bytes = 0, sv_sign_secret = ''sign'',
       sv_performance_mode = False\<rparr>,
     cf_jwt = \<lparr>jw_secret = secret, jw_expire_hours = 0, jw_issuer = ''miaosha''\<rparr>,
     cf_mysql = \<lparr>my_master = \<lparr>my_host = ''db'', my_port = 3306, my_user = ''root'', my_password = ''pw'',
       my_database = ''miaosha'', my_charset = ''utf8mb4'', my_max_idle_conns = 10, my_max_open_conns = 100,
       my_conn_max_lifetime = 3600\<rparr>, my_slaves = [], my_order_table_shard_count = 0\<rparr>,
     cf_redis = \<lparr>rd_addrs = [''redis:6379''], rd_password = [], rd_pool_size = 10, rd_min_idle_conns = 1,
       rd_dial_timeout = 5, rd_read_timeout = 3, rd_write_timeout = 3\<rparr>,
     cf_rabbit = \<lparr>rb_urls = [''amqp://mq''], rb_vhost = ''miaosha'', rb_heartbeat = 0,
       rb_exchange = \<lparr>rx_order = ''ex'', rx_dead_letter = ''dlx'', rx_delay = []\<rparr>,
       rb_queue = \<lparr>rq_order = ''order'', rq_delay = ''delay'', rq_dead_letter = ''dead'', rq_delay_route = []\<rparr>,
       rb_consumer = \<lparr>rk_concurrency = 0, rk_prefetch = 0\<rparr>, rb_delay_ttl_ms = 0, rb_channel_pool_size = 0\<rparr>,
     cf_kafka = \<lparr>kf_brokers = [], kf_topic = ''track'', kf_producer = \<lparr>kp_acks = [], kp_compression = [],
       kp_max_message_bytes = 0, kp_batch_size = 0, kp_linger_ms = 0\<rparr>\<rparr>,
     cf_etcd = \<lparr>et_endpoints = [], et_dial_timeout = 5, et_lease_ttl = 10, et_service_prefix = []\<rparr>,
     cf_sentinel = \<lparr>sc_enabled = True, sc_dashboard = [], sc_app_name = ''miaosha'', sc_log_dir = [],
       sc_global_qps = 1000, sc_user_qps = 10, sc_seckill_qps = 500,
       sc_circuit_breaker = \<lparr>cb_max_rt_ms = 500, cb_max_rt_ratio = 1 / 2, cb_min_request_amount = 10,
         cb_stat_interval_ms = 1000, cb_recovery_timeout_ms = 5000\<rparr>,
       sc_hot_param = \<lparr>hp_threshold = 100, hp_duration_sec = 1\<rparr>\<rparr>,
     cf_log = \<lparr>lg_level = ''info'', lg_format = ''json'', lg_output = ''stdout'', lg_file_path = [], lg_max_size = 0,
       lg_max_backups = 0, lg_max_age = 0, lg_compress = False\<rparr>,
     cf_dingtalk = \<lparr>dt_enabled = False, dt_webhook_url = [], dt_secret = [],
       dt_alert = \<lparr>da_error_rate_threshold = 0, da_qps_threshold = 0, da_mq_backlog_threshold = 0,
         da_circuit_breaker_trigger = False\<rparr>\<rparr>,
     cf_reconciler = \<lparr>rc_enabled = True, rc_interval_sec = 0, rc_batch_size = 0\<rparr>,
     cf_prometheus = \<lparr>pm_enabled = True, pm_metrics_path = [], pm_metrics_port = 0\<rparr>,
     cf_cors = \<lparr>co_allowed_origins = [], co_allowed_methods = [], co_allowed_headers = []\<rparr>,
     cf_tracing = \<lparr>tc_enabled = False, tc_endpoint = []\<rparr>\<rparr>"

definition fresh_config_state :: "string config_state" where
  "fresh_config_state = \<lparr>cs_global = None, cs_once = False, cs_viper = False, cs_on_change = [''sentinel'']\<rparr>"

lemma demo_config_validates:
  "validateConfig (fill_instance ''host'' (fillDefaults (demo_config secret))) =
     (if secret = [] then Inl (Errf ''JWT secret empty'') else Inr ())"
  by (simp add: validateConfig_def fill_instance_def fillDefaults_def fill_server_def fill_rabbit_def demo_config_def
      dflt_def)

theorem loaded_config_usable_witness:
  "\<exists>s' c. LoadConfig (Parsed (demo_config ''s3cret'')) ''host'' fresh_config_state = (s', Some c, None) \<and>
     usable_config c"
proof -
  obtain s' res where run: "LoadConfig (Parsed (demo_config ''s3cret'')) ''host'' fresh_config_state = (s', res, None)"
    by (simp add: LoadConfig_def Let_def demo_config_validates fresh_config_state_def)
  from loaded_config_usable [OF _ run] run show ?thesis
    by (auto simp: fresh_config_state_def)
qed

theorem reload_skips_validation_witness:
  "\<exists>c1. GetConfig (fst (config_changed (Parsed (demo_config [])) ''host'' fresh_config_state)) = Some c1 \<and>
     validateConfig c1 = Inl (Errf ''JWT secret empty'')"
  using reload_skips_validation [of "''host''" "demo_config []" "Errf ''JWT secret empty''" fresh_config_state]
  by (auto simp: demo_config_validates)

end
