(* ===== verification/Mq.thy ===== *)
theory Mq
  imports Config "HOL-Library.Multiset"
begin

text \<open>
  \<^verbatim>\<open>mq/rabbitmq.go\<close>: the channel pool, the declarations of \<^verbatim>\<open>Init\<close>, publishing, statistics and
  closing. The AMQP client is a record of functions on a broker state (\<open>amqp\<close>); message bodies stay structured.
\<close>

section \<open>Messages\<close>

text \<open>
  A decoded JSON object (\<^verbatim>\<open>map[string]interface{}\<close>): JSON numbers arrive as \<^verbatim>\<open>float64\<close>,
  which the model keeps as a rational. A failed type assertion panics.
\<close>

datatype json = JNull | JBool bool | JNum rat | JStr string | JArr "json list" | JObj "(string \<times> json) list"

type_synonym msg = "string \<rightharpoonup> json"

definition get_string :: "msg \<Rightarrow> string \<Rightarrow> string result" where
  "get_string m k = (case m k of Some (JStr s) \<Rightarrow> Inr s | _ \<Rightarrow> Inl GoPanic)"

definition get_float :: "msg \<Rightarrow> string \<Rightarrow> rat result" where
  "get_float m k = (case m k of Some (JNum x) \<Rightarrow> Inr x | _ \<Rightarrow> Inl GoPanic)"

text \<open>\<^verbatim>\<open>int64(x)\<close> of a float truncates towards zero.\<close>

definition float_to_int :: "rat \<Rightarrow> int" where
  "float_to_int x = (if x \<ge> 0 then \<lfloor>x\<rfloor> else \<lceil>x\<rceil>)"

lemma float_to_int_of_int [simp]: "float_to_int (of_int i) = i"
  by (simp add: float_to_int_def)

text \<open>A body on the wire: the JSON text of an object, or bytes that do not parse as one.\<close>

datatype body = JsonBody msg | OtherBody string

section \<open>The AMQP client\<close>

text \<open>Channels are numbered. \<open>am_queue_declare\<close> takes the dead-letter arguments, if any.\<close>

record 'b amqp =
  am_dial :: "string \<Rightarrow> 'b \<Rightarrow> 'b \<times> unit result"
  am_closed :: "'b \<Rightarrow> bool"
  am_channel :: "'b \<Rightarrow> 'b \<times> nat result"
  am_close_channel :: "nat \<Rightarrow> 'b \<Rightarrow> 'b"
  am_close :: "'b \<Rightarrow> 'b"
  am_exchange_declare :: "nat \<Rightarrow> string \<Rightarrow> 'b \<Rightarrow> 'b \<times> unit result"
  am_queue_declare :: "nat \<Rightarrow> string \<Rightarrow> (string \<times> string \<times> 32 word) option \<Rightarrow> 'b \<Rightarrow> 'b \<times> unit result"
  am_queue_bind :: "nat \<Rightarrow> string \<Rightarrow> string \<Rightarrow> string \<Rightarrow> 'b \<Rightarrow> 'b \<times> unit result"
  am_qos :: "nat \<Rightarrow> int \<Rightarrow> 'b \<Rightarrow> 'b \<times> unit result"
  am_publish :: "nat \<Rightarrow> string \<Rightarrow> string \<Rightarrow> body \<Rightarrow> 'b \<Rightarrow> 'b \<times> unit result"

section \<open>The channel pool\<close>

record channel_pool =
  cp_items :: "nat list"
  cp_next :: "64 word"

fun open_channels :: "'b amqp \<Rightarrow> nat \<Rightarrow> nat list \<Rightarrow> 'b \<Rightarrow> 'b \<times> nat list result" where
  "open_channels am 0 items b = (b, Inr items)"
| "open_channels am (Suc n) items b =
     (case am_channel am b of
        (b1, Inl err) \<Rightarrow> (fold (am_close_channel am) items b1, Inl (Wrapf ''create channel failed'' err))
      | (b1, Inr ch) \<Rightarrow> open_channels am n (items @ [ch]) b1)"

text \<open>\<^verbatim>\<open>make\<close> of a negative length panics.\<close>

definition NewChannelPool :: "'b amqp \<Rightarrow> int \<Rightarrow> 'b \<Rightarrow> 'b \<times> channel_pool result" where
  "NewChannelPool am poolSize b =
     (if poolSize < 0 then (b, Inl GoPanic)
      else case open_channels am (nat poolSize) [] b of
          (b1, Inl e) \<Rightarrow> (b1, Inl e)
        | (b1, Inr items) \<Rightarrow> (b1, Inr \<lparr>cp_items = items, cp_next = 0\<rparr>))"

text \<open>\<^verbatim>\<open>next.Add(1) % len\<close> on 64 bits; an empty pool divides by zero.\<close>

definition pool_Get :: "channel_pool \<Rightarrow> channel_pool \<times> nat result" where
  "pool_Get p = (let p1 = p\<lparr>cp_next := cp_next p + 1\<rparr> in
     if cp_items p1 = [] then (p1, Inl GoPanic)
     else (p1, Inr (cp_items p1 ! unat (cp_next p1 mod of_nat (length (cp_items p1))))))"

definition pool_Close :: "'b amqp \<Rightarrow> channel_pool \<Rightarrow> 'b \<Rightarrow> 'b" where
  "pool_Close am p b = fold (am_close_channel am) (cp_items p) b"

section \<open>The package state\<close>

record 'b mq_state =
  ms_conn :: bool
  ms_pool :: "channel_pool option"
  ms_consume :: "nat option"
  ms_once :: bool
  ms_cfg :: "rabbit_config option"
  ms_published :: int
  ms_consumed :: int
  ms_broker :: 'b

record mq_stats =
  mt_published :: int
  mt_consumed :: int
  mt_backlog :: int
  mt_connected :: bool

definition GetMQStats :: "'b amqp \<Rightarrow> 'b mq_state \<Rightarrow> mq_stats" where
  "GetMQStats am s =
     (let published = ms_published s; consumed = ms_consumed s; backlog = published - consumed;
          backlog = (if backlog < 0 then 0 else backlog)
      in \<lparr>mt_published = published, mt_consumed = consumed, mt_backlog = backlog,
          mt_connected = (ms_conn s \<and> \<not> am_closed am (ms_broker s))\<rparr>)"

definition IncConsumed :: "'b mq_state \<Rightarrow> 'b mq_state" where
  "IncConsumed s = s\<lparr>ms_consumed := ms_consumed s + 1\<rparr>"

section \<open>Init\<close>

definition contains_str :: "string \<Rightarrow> string \<Rightarrow> bool" where
  "contains_str s sub = list_ex (\<lambda>i. take (length sub) (drop i s) = sub) [0..<Suc (length s)]"

definition trim_right :: "char \<Rightarrow> string \<Rightarrow> string" where
  "trim_right c s = rev (dropWhile (\<lambda>x. x = c) (rev s))"

definition final_url :: "string \<Rightarrow> string \<Rightarrow> string" where
  "final_url vhost url =
     (if vhost \<noteq> [] \<and> \<not> contains_str url (''/'' @ vhost) then trim_right (CHR ''/'') url @ ''/'' @ vhost else url)"

text \<open>The loop over the addresses stops at the first connection; none leaves \<^verbatim>\<open>conn\<close> nil.\<close>

fun dial_urls :: "'b amqp \<Rightarrow> string \<Rightarrow> string list \<Rightarrow> 'b \<Rightarrow> 'b \<times> bool" where
  "dial_urls am vhost [] b = (b, False)"
| "dial_urls am vhost (url # urls) b =
     (case am_dial am (final_url vhost url) b of
        (b1, Inr _) \<Rightarrow> (b1, True)
      | (b1, Inl _) \<Rightarrow> dial_urls am vhost urls b1)"

text \<open>A declaration whose error ends \<open>Init\<close>, and a call whose error is ignored.\<close>

definition declare_or :: "string \<Rightarrow> ('b \<Rightarrow> 'b \<times> unit result) \<Rightarrow> ('b \<Rightarrow> 'b \<times> unit result) \<Rightarrow> 'b \<Rightarrow> 'b \<times> unit result" where
  "declare_or what f k b = (case f b of (b1, Inl err) \<Rightarrow> (b1, Inl (Wrapf what err)) | (b1, Inr _) \<Rightarrow> k b1)"

definition ignoring :: "('b \<Rightarrow> 'b \<times> unit result) \<Rightarrow> ('b \<Rightarrow> 'b \<times> unit result) \<Rightarrow> 'b \<Rightarrow> 'b \<times> unit result" where
  "ignoring f k b = k (fst (f b))"

text \<open>The exchanges, queues and bindings, in their order, on one channel of the pool.\<close>

definition declare_topology :: "'b amqp \<Rightarrow> rabbit_config \<Rightarrow> nat \<Rightarrow> 'b \<Rightarrow> 'b \<times> unit result" where
  "declare_topology am cfg ch =
     (let ex = rb_exchange cfg; qu = rb_queue cfg in
      declare_or ''declare order exchange failed'' (am_exchange_declare am ch (rx_order ex))
     (declare_or ''declare dead letter exchange failed'' (am_exchange_declare am ch (rx_dead_letter ex))
     (declare_or ''declare delay queue failed'' (am_queue_declare am ch (rq_delay qu)
        (Some (rx_dead_letter ex, rq_dead_letter qu, word_of_int (rb_delay_ttl_ms cfg))))
     (ignoring (am_queue_bind am ch (rq_delay qu) (rq_delay qu) (rx_order ex))
     (declare_or ''declare order queue failed'' (am_queue_declare am ch (rq_order qu) None)
     (ignoring (am_queue_bind am ch (rq_order qu) (rq_order qu) (rx_order ex))
     (declare_or ''declare dead letter queue failed'' (am_queue_declare am ch (rq_dead_letter qu) None)
     (ignoring (am_queue_bind am ch (rq_dead_letter qu) (rq_dead_letter qu) (rx_dead_letter ex))
     (ignoring (am_qos am ch (rk_prefetch (rb_consumer cfg)))
     (\<lambda>b. (b, Inr ())))))))))))"

text \<open>The body of \<^verbatim>\<open>mqOnce.Do\<close>; a panic inside leaves the once flag set too.\<close>

definition init_body :: "'b amqp \<Rightarrow> rabbit_config \<Rightarrow> 'b mq_state \<Rightarrow> 'b mq_state \<times> unit result" where
  "init_body am cfg s =
     (let s0 = s\<lparr>ms_cfg := Some cfg\<rparr> in
      case dial_urls am (rb_vhost cfg) (rb_urls cfg) (ms_broker s0) of
        (b1, False) \<Rightarrow> (s0\<lparr>ms_broker := b1, ms_conn := False\<rparr>, Inl (Errf ''all RabbitMQ nodes failed''))
      | (b1, True) \<Rightarrow>
         (let s1 = s0\<lparr>ms_broker := b1, ms_conn := True\<rparr> in
          case NewChannelPool am (rb_channel_pool_size cfg) b1 of
            (b2, Inl err) \<Rightarrow> (s1\<lparr>ms_broker := b2\<rparr>,
               Inl (if err = GoPanic then GoPanic else Wrapf ''create ChannelPool failed'' err))
          | (b2, Inr pool) \<Rightarrow>
             (case pool_Get pool of
                (pool1, Inl err) \<Rightarrow> (s1\<lparr>ms_broker := b2, ms_pool := Some pool1\<rparr>, Inl err)
              | (pool1, Inr ch) \<Rightarrow>
                 (let s2 = s1\<lparr>ms_pool := Some pool1\<rparr> in
                  case declare_topology am cfg ch b2 of
                    (b3, Inl err) \<Rightarrow> (s2\<lparr>ms_broker := b3\<rparr>, Inl err)
                  | (b3, Inr _) \<Rightarrow>
                     (case am_channel am b3 of
                        (b4, Inl err) \<Rightarrow> (s2\<lparr>ms_broker := b4\<rparr>, Inl (Wrapf ''create consumer channel failed'' err))
                      | (b4, Inr cch) \<Rightarrow>
                         (s2\<lparr>ms_consume := Some cch,
                             ms_broker := fst (am_qos am cch (rk_prefetch (rb_consumer cfg)) b4)\<rparr>, Inr ()))))))"

definition mq_Init :: "'b amqp \<Rightarrow> rabbit_config \<Rightarrow> 'b mq_state \<Rightarrow> 'b mq_state \<times> unit result" where
  "mq_Init am cfg s = (if ms_once s then (s, Inr ()) else init_body am cfg (s\<lparr>ms_once := True\<rparr>))"

section \<open>Publishing\<close>

definition publish_on_pool ::
  "'b amqp \<Rightarrow> string \<Rightarrow> string \<Rightarrow> body \<Rightarrow> 'b mq_state \<Rightarrow> 'b mq_state \<times> unit result" where
  "publish_on_pool am exchange routingKey bd s =
     (case ms_pool s of
        None \<Rightarrow> (s, Inl (Errf ''ChannelPool not initialised''))
      | Some pool \<Rightarrow>
         (case pool_Get pool of
            (pool1, Inl e) \<Rightarrow> (s\<lparr>ms_pool := Some pool1\<rparr>, Inl e)
          | (pool1, Inr ch) \<Rightarrow>
             (case am_publish am ch exchange routingKey bd (ms_broker s) of
                (b1, Inl err) \<Rightarrow> (s\<lparr>ms_pool := Some pool1, ms_broker := b1\<rparr>, Inl err)
              | (b1, Inr _) \<Rightarrow>
                  (s\<lparr>ms_pool := Some pool1, ms_broker := b1, ms_published := ms_published s + 1\<rparr>, Inr ()))))"

definition PublishOrder ::
  "'b amqp \<Rightarrow> string \<Rightarrow> string \<Rightarrow> body \<Rightarrow> 'b mq_state \<Rightarrow> 'b mq_state \<times> unit result" where
  "PublishOrder am exchange routingKey bd s = publish_on_pool am exchange routingKey bd s"

definition PublishDelay ::
  "'b amqp \<Rightarrow> string \<Rightarrow> string \<Rightarrow> body \<Rightarrow> 'b mq_state \<Rightarrow> 'b mq_state \<times> unit result" where
  "PublishDelay am exchange routingKey bd s =
     (let actualExchange = (case ms_cfg s of Some c \<Rightarrow> if exchange = [] then rx_order (rb_exchange c) else exchange
             | None \<Rightarrow> exchange);
          actualRoutingKey = (case ms_cfg s of Some c \<Rightarrow> if routingKey = [] then rq_delay (rb_queue c) else routingKey
             | None \<Rightarrow> routingKey)
      in publish_on_pool am actualExchange actualRoutingKey bd s)"

definition ConsumeOrder :: "string \<Rightarrow> 'b mq_state \<Rightarrow> (nat \<times> string) result" where
  "ConsumeOrder queueName s =
     (case ms_consume s of None \<Rightarrow> Inl (Errf ''consumer channel not initialised'') | Some ch \<Rightarrow> Inr (ch, queueName))"

definition ConsumeDeadLetter :: "string \<Rightarrow> 'b mq_state \<Rightarrow> (nat \<times> string) result" where
  "ConsumeDeadLetter queueName s =
     (case ms_consume s of None \<Rightarrow> Inl (Errf ''consumer channel not initialised'') | Some ch \<Rightarrow> Inr (ch, queueName))"

text \<open>\<^verbatim>\<open>GetChannel\<close> is kept for old callers and gives nil.\<close>

definition GetChannel :: "nat option" where
  "GetChannel = None"

definition mq_Close :: "'b amqp \<Rightarrow> 'b mq_state \<Rightarrow> 'b mq_state" where
  "mq_Close am s =
     (let b = ms_broker s;
          b1 = (case ms_consume s of None \<Rightarrow> b | Some ch \<Rightarrow> am_close_channel am ch b);
          b2 = (case ms_pool s of None \<Rightarrow> b1 | Some p \<Rightarrow> pool_Close am p b1);
          b3 = (if ms_conn s then am_close am b2 else b2)
      in s\<lparr>ms_broker := b3\<rparr>)"

definition mq_Ping :: "'b amqp \<Rightarrow> 'b mq_state \<Rightarrow> unit result" where
  "mq_Ping am s = (if \<not> ms_conn s then Inl (Errf ''RabbitMQ not initialised'')
     else if am_closed am (ms_broker s) then Inl (Errf ''RabbitMQ connection closed'') else Inr ())"

section \<open>Round robin\<close>

fun pool_gets :: "nat \<Rightarrow> channel_pool \<Rightarrow> channel_pool \<times> nat result list" where
  "pool_gets 0 p = (p, [])"
| "pool_gets (Suc n) p = (case pool_Get p of (p1, r) \<Rightarrow> (case pool_gets n p1 of (p2, rs) \<Rightarrow> (p2, r # rs)))"

lemma pool_Get_items [simp]: "cp_items (fst (pool_Get p)) = cp_items p"
  by (simp add: pool_Get_def Let_def)

lemma pool_Get_next [simp]: "cp_next (fst (pool_Get p)) = cp_next p + 1"
  by (simp add: pool_Get_def Let_def)

lemma pool_Get_channel:
  assumes "cp_items p \<noteq> []" "length (cp_items p) < 2 ^ 64" "unat (cp_next p) + 1 < 2 ^ 64"
  shows "snd (pool_Get p) = Inr (cp_items p ! ((unat (cp_next p) + 1) mod length (cp_items p)))"
proof -
  have "unat (cp_next p + 1) = unat (cp_next p) + 1"
    using assms(3) by (simp add: unat_word_ariths)
  moreover have "unat (of_nat (length (cp_items p)) :: 64 word) = length (cp_items p)"
    using assms(2) by (simp add: unat_of_nat)
  ultimately show ?thesis
    using assms(1) by (simp add: pool_Get_def Let_def unat_mod_distrib)
qed

lemma pool_gets_channels:
  assumes "cp_items p \<noteq> []" "length (cp_items p) < 2 ^ 64" "unat (cp_next p) + n < 2 ^ 64"
  shows "snd (pool_gets n p) =
    map (\<lambda>i. Inr (cp_items p ! ((unat (cp_next p) + 1 + i) mod length (cp_items p)))) [0..<n]"
  using assms
proof (induction n arbitrary: p)
  case (Suc n)
  let ?p = "fst (pool_Get p)"
  have nxt: "unat (cp_next ?p) = unat (cp_next p) + 1"
    using Suc.prems(3) by (simp add: unat_word_ariths)
  have "snd (pool_gets n ?p) =
      map (\<lambda>i. Inr (cp_items p ! ((unat (cp_next p) + 1 + Suc i) mod length (cp_items p)))) [0..<n]"
    using Suc.IH [of ?p] Suc.prems nxt by simp
  moreover have "snd (pool_Get p) = Inr (cp_items p ! ((unat (cp_next p) + 1) mod length (cp_items p)))"
    using Suc.prems by (intro pool_Get_channel) auto
  moreover have "[0..<Suc n] = 0 # map Suc [0..<n]"
    by (simp add: map_Suc_upt upt_conv_Cons del: upt_Suc)
  ultimately show ?case
    by (simp add: split_def comp_def del: upt_Suc)
qed simp

text \<open>Consecutive numbers meet every residue equally often.\<close>

lemma residues_once:
  assumes "0 < (m::nat)"
  shows "mset (map (\<lambda>i. (a + i) mod m) [0..<m]) = mset [0..<m]"
proof -
  have inj: "inj_on (\<lambda>i. (a + i) mod m) {0..<m}"
  proof (rule inj_onI)
    fix i j assume ij: "i \<in> {0..<m}" "j \<in> {0..<m}" "(a + i) mod m = (a + j) mod m"
    have "i = j" if "i \<le> j" "i < m" "j < m" "(a + i) mod m = (a + j) mod m" for i j
    proof -
      have "m dvd (a + j) - (a + i)"
        using that(1,4) by (intro mod_eq_dvd_iff_nat [THEN iffD1]) auto
      then have "m dvd j - i"
        by simp
      with that show ?thesis
        by (metis diff_is_0_eq dvd_imp_le le_neq_implies_less less_imp_diff_less linorder_not_less zero_less_diff)
    qed
    with ij show "i = j"
      by (metis atLeastLessThan_iff nat_le_linear)
  qed
  moreover have "(\<lambda>i. (a + i) mod m) ` {0..<m} = {0..<m}"
    using inj assms by (intro card_subset_eq) (auto simp: card_image)
  ultimately have "image_mset (\<lambda>i. (a + i) mod m) (mset_set {0..<m}) = mset_set {0..<m}"
    by (simp add: image_mset_mset_set)
  then show ?thesis
    by simp
qed

lemma residues_times:
  assumes "0 < (m::nat)" "r < m"
  shows "count_list (map (\<lambda>i. (a + i) mod m) [0..<k * m]) r = k"
proof (induction k)
  case (Suc k)
  have split: "[0..<Suc k * m] = [0..<k * m] @ map (\<lambda>i. k * m + i) [0..<m]"
    using upt_add_eq_append [of 0 "k * m" m] by (simp add: map_add_upt add.commute)
  have "count (mset (map (\<lambda>i. (a + k * m + i) mod m) [0..<m])) r = count (mset [0..<m]) r"
    using residues_once [OF assms(1), of "a + k * m"] by (rule arg_cong)
  then have one: "count_list (map (\<lambda>i. (a + (k * m + i)) mod m) [0..<m]) r = count_list [0..<m] r"
    by (simp only: count_mset add.assoc)
  have "count_list [0..<m] r = 1"
    using assms(2) by (simp add: distinct_count_atmost_1 flip: count_mset)
  with Suc one show ?case
    by (simp only: split map_append count_list_append) (simp add: comp_def)
qed simp

lemma count_list_Inr: "count_list (map Inr xs) (Inr x) = count_list xs x"
  by (induction xs) auto

lemma count_list_nth:
  assumes "distinct xs" "r < length xs" "set is \<subseteq> {..<length xs}"
  shows "count_list (map ((!) xs) is) (xs ! r) = count_list is r"
  using assms(3) by (induction "is") (auto simp: nth_eq_iff_index_eq [OF assms(1) _ assms(2)])

text \<open>
  The channel pool is fair: from a new pool of \<open>m\<close> distinct channels, \<open>k\<close> rounds of \<open>m\<close>
  calls of \<open>Get\<close> each return a channel and give every channel exactly \<open>k\<close> times (as long as
  the 64-bit counter does not wrap).
\<close>

theorem pool_round_robin:
  assumes "NewChannelPool am poolSize b = (b', Inr p)" "0 < poolSize" "distinct (cp_items p)"
    "k * length (cp_items p) < 2 ^ 64" "0 < k" "ch \<in> set (cp_items p)"
  shows "count_list (snd (pool_gets (k * length (cp_items p)) p)) (Inr ch) = k"
proof -
  let ?xs = "cp_items p" and ?m = "length (cp_items p)"
  have start: "unat (cp_next p) = 0"
    using assms(1) by (auto simp: NewChannelPool_def split: if_splits prod.splits sum.splits)
  have m: "0 < ?m" "?m < 2 ^ 64"
    using assms(4,5,6) by (auto intro: le_less_trans [of _ "k * ?m"] dest: length_pos_if_in_set)
  obtain r where r: "r < ?m" "?xs ! r = ch"
    using assms(6) by (meson in_set_conv_nth)
  have "count_list (snd (pool_gets (k * ?m) p)) (Inr ch) =
      count_list (map (\<lambda>i. ?xs ! ((1 + i) mod ?m)) [0..<k * ?m]) ch"
    using pool_gets_channels [of p "k * ?m"] assms(4) m start
    using count_list_Inr [of "map (\<lambda>i. ?xs ! ((1 + i) mod ?m)) [0..<k * ?m]" ch] by (simp add: comp_def)
  also have "\<dots> = count_list (map ((!) ?xs) (map (\<lambda>i. (1 + i) mod ?m) [0..<k * ?m])) (?xs ! r)"
    by (simp add: r(2) comp_def)
  also have "\<dots> = count_list (map (\<lambda>i. (1 + i) mod ?m) [0..<k * ?m]) r"
    by (rule count_list_nth [OF assms(3) r(1)]) (use m in auto)
  also have "\<dots> = k"
    by (rule residues_times [OF m(1) r(1)])
  finally show ?thesis .
qed

section \<open>A broker connection\<close>

text \<open>
  What the program relies on when it publishes: \<open>sent\<close> is the sequence of messages written to
  the connection. A publish that reports success has written its message; one that reports an
  error may have.
\<close>

locale amqp_broker =
  fixes am :: "'b amqp" and sent :: "'b \<Rightarrow> (string \<times> string \<times> body) list"
  assumes publish_ok: "am_publish am ch ex key bd b = (b', Inr ()) \<Longrightarrow> sent b' = sent b @ [(ex, key, bd)]"
    and publish_err: "am_publish am ch ex key bd b = (b', Inl e) \<Longrightarrow>
       e \<noteq> GoPanic \<and> (sent b' = sent b \<or> sent b' = sent b @ [(ex, key, bd)])"

text \<open>A connection with a schedule of publish outcomes.\<close>

datatype publish_fault = Written | NotWritten | WrittenButFailed

record demo_broker =
  bk_next :: nat
  bk_sent :: "(string \<times> string \<times> body) list"
  bk_faults :: "publish_fault list"

definition demo_amqp_publish :: "nat \<Rightarrow> string \<Rightarrow> string \<Rightarrow> body \<Rightarrow> demo_broker \<Rightarrow> demo_broker \<times> unit result" where
  "demo_amqp_publish ch ex key bd b =
     (let b1 = b\<lparr>bk_faults := tl (bk_faults b)\<rparr>; b2 = b1\<lparr>bk_sent := bk_sent b @ [(ex, key, bd)]\<rparr> in
      case bk_faults b of
        [] \<Rightarrow> (b\<lparr>bk_sent := bk_sent b @ [(ex, key, bd)]\<rparr>, Inr ())
      | Written # _ \<Rightarrow> (b2, Inr ())
      | NotWritten # _ \<Rightarrow> (b1, Inl MqErr)
      | WrittenButFailed # _ \<Rightarrow> (b2, Inl MqErr))"

definition demo_amqp :: "demo_broker amqp" where
  "demo_amqp = \<lparr>am_dial = (\<lambda>url b. (b, Inr ())), am_closed = (\<lambda>b. False),
     am_channel = (\<lambda>b. (b\<lparr>bk_next := Suc (bk_next b)\<rparr>, Inr (bk_next b))), am_close_channel = (\<lambda>ch b. b),
     am_close = (\<lambda>b. b), am_exchange_declare = (\<lambda>ch ex b. (b, Inr ())),
     am_queue_declare = (\<lambda>ch q dl b. (b, Inr ())), am_queue_bind = (\<lambda>ch q k ex b. (b, Inr ())),
     am_qos = (\<lambda>ch n b. (b, Inr ())), am_publish = demo_amqp_publish\<rparr>"

interpretation demo_mq: amqp_broker demo_amqp bk_sent
  by unfold_locales
    (auto simp: demo_amqp_def demo_amqp_publish_def Let_def split: list.splits publish_fault.splits)

definition fresh_broker :: demo_broker where
  "fresh_broker = \<lparr>bk_next = 0, bk_sent = [], bk_faults = []\<rparr>"

theorem pool_round_robin_witness:
  "\<exists>b' p. NewChannelPool demo_amqp 3 fresh_broker = (b', Inr p) \<and> cp_items p = [0, 1, 2] \<and>
     count_list (snd (pool_gets 6 p)) (Inr 1) = 2"
proof -
  obtain b' p where p: "NewChannelPool demo_amqp 3 fresh_broker = (b', Inr p)" "cp_items p = [0, 1, 2]"
    by (simp add: NewChannelPool_def demo_amqp_def fresh_broker_def numeral_3_eq_3 numeral_2_eq_2)
  with pool_round_robin [OF p(1), of 2 1] show ?thesis
    by (simp add: p)
qed

section \<open>Lemmas on publishing\<close>

definition mq_sent :: "('b \<Rightarrow> (string \<times> string \<times> body) list) \<Rightarrow> 'b mq_state \<Rightarrow> (string \<times> string \<times> body) list" where
  "mq_sent sent s = sent (ms_broker s)"

context amqp_broker
begin

lemma publish_on_pool_sent:
  assumes "publish_on_pool am ex key bd s = (s', r)"
  shows "r = Inr () \<Longrightarrow> mq_sent sent s' = mq_sent sent s @ [(ex, key, bd)]"
    "mq_sent sent s' = mq_sent sent s \<or> mq_sent sent s' = mq_sent sent s @ [(ex, key, bd)]"
  using assms
  by (auto simp: publish_on_pool_def mq_sent_def dest: publish_ok dest!: publish_err
      split: option.splits prod.splits sum.splits)

lemma PublishOrder_sent:
  assumes "PublishOrder am ex key bd s = (s', r)"
  shows "r = Inr () \<Longrightarrow> mq_sent sent s' = mq_sent sent s @ [(ex, key, bd)]"
    "mq_sent sent s' = mq_sent sent s \<or> mq_sent sent s' = mq_sent sent s @ [(ex, key, bd)]"
  using publish_on_pool_sent [OF assms [unfolded PublishOrder_def]] by simp_all

lemma PublishDelay_sent:
  assumes "PublishDelay am ex key bd s = (s', r)" "ex \<noteq> []" "key \<noteq> []"
  shows "mq_sent sent s' = mq_sent sent s \<or> mq_sent sent s' = mq_sent sent s @ [(ex, key, bd)]"
  using publish_on_pool_sent(2) [of ex key bd s s' r] assms
  by (simp add: PublishDelay_def split: option.splits)

end

end
