(* ===== verification/World.thy ===== *)
theory World
  imports Redis_Tokens Dao Monitor_Stats Mq
begin

text \<open>
  What the services share: the states of the servers they talk to and of the in-process
  monitor (\<open>world\<close>), the functions that call the servers and the configuration values
  (\<open>env\<close>), and the combinators that run an operation on one part of the world.
\<close>

section \<open>The world\<close>

text \<open>
  \<open>w_kafka\<close> is the list of behaviour records handed to the Kafka producer, newest first.
\<close>

record ('r, 'd, 'q) world =
  w_redis :: 'r
  w_db :: 'd
  w_mq :: "'q mq_state"
  w_mon :: monitor
  w_kafka :: "behavior_track list"

text \<open>
  The servers, as the functions that call them, and the configuration values the services read.
\<close>

record ('r, 'd, 'q) env =
  ev_call :: "'r redis"
  ev_db :: "'d db_ops"
  ev_amqp :: "'q amqp"
  ev_tf :: time_format
  ev_shards :: int            \<comment> \<open>\<^verbatim>\<open>cfg.MySQL.OrderTableShardCount\<close>\<close>
  ev_rabbit :: rabbit_config  \<comment> \<open>\<^verbatim>\<open>cfg.RabbitMQ\<close>\<close>
  ev_instance :: string       \<comment> \<open>\<^verbatim>\<open>cfg.Server.InstanceID\<close>\<close>
  ev_port :: int              \<comment> \<open>\<^verbatim>\<open>cfg.Server.Port\<close>\<close>

definition on_redis :: "('r \<Rightarrow> 'r \<times> 'a) \<Rightarrow> ('r, 'd, 'q) world \<Rightarrow> ('r, 'd, 'q) world \<times> 'a" where
  "on_redis f w = (case f (w_redis w) of (s, a) \<Rightarrow> (w\<lparr>w_redis := s\<rparr>, a))"

definition on_db :: "('d \<Rightarrow> 'd \<times> 'a) \<Rightarrow> ('r, 'd, 'q) world \<Rightarrow> ('r, 'd, 'q) world \<times> 'a" where
  "on_db f w = (case f (w_db w) of (d, a) \<Rightarrow> (w\<lparr>w_db := d\<rparr>, a))"

definition on_mq :: "('q mq_state \<Rightarrow> 'q mq_state \<times> 'a) \<Rightarrow> ('r, 'd, 'q) world \<Rightarrow> ('r, 'd, 'q) world \<times> 'a" where
  "on_mq f w = (case f (w_mq w) of (q, a) \<Rightarrow> (w\<lparr>w_mq := q\<rparr>, a))"

definition on_mon :: "(monitor \<Rightarrow> monitor) \<Rightarrow> ('r, 'd, 'q) world \<Rightarrow> ('r, 'd, 'q) world" where
  "on_mon f w = w\<lparr>w_mon := f (w_mon w)\<rparr>"

lemma on_frame [world_simps]:
  "on_redis f w = (w', a) \<Longrightarrow> w_db w' = w_db w \<and> w_mq w' = w_mq w \<and> w_mon w' = w_mon w \<and> w_kafka w' = w_kafka w"
  "on_db g w = (w', b) \<Longrightarrow> w_redis w' = w_redis w \<and> w_mq w' = w_mq w \<and> w_mon w' = w_mon w \<and> w_kafka w' = w_kafka w"
  "on_mq h w = (w', c) \<Longrightarrow> w_redis w' = w_redis w \<and> w_db w' = w_db w \<and> w_mon w' = w_mon w \<and> w_kafka w' = w_kafka w"
  by (auto simp: on_redis_def on_db_def on_mq_def split: prod.splits)

lemma on_redisD: "on_redis f w = (w', a) \<Longrightarrow> f (w_redis w) = (w_redis w', a)"
  by (auto simp: on_redis_def split: prod.splits)

lemma on_dbD: "on_db f w = (w', a) \<Longrightarrow> f (w_db w) = (w_db w', a)"
  by (auto simp: on_db_def split: prod.splits)

lemma on_mqD: "on_mq f w = (w', a) \<Longrightarrow> f (w_mq w) = (w_mq w', a)"
  by (auto simp: on_mq_def split: prod.splits)

lemma on_mon_frame [simp]:
  "w_redis (on_mon f w) = w_redis w" "w_db (on_mon f w) = w_db w" "w_mq (on_mon f w) = w_mq w"
  "w_kafka (on_mon f w) = w_kafka w" "w_mon (on_mon f w) = f (w_mon w)"
  by (simp_all add: on_mon_def)

end
