(* ===== verification/Order_Service.thy ===== *)
theory Order_Service
  imports World
begin

text \<open>
  \<^verbatim>\<open>service/order_service.go\<close>: creation, cancellation, timeout, payment and refund of
  orders. Each function is one definition on the world; \<open>now\<close> is the clock of the call.
  Logging is left out; its arguments have no effect.
\<close>

section \<open>Creating orders\<close>

record order_msg =
  om_order_no :: string
  om_user_id :: int
  om_product_id :: int
  om_product_name :: string
  om_seckill_price :: rat
  om_quantity :: int
  om_total_amount :: rat

text \<open>The type assertions at the head of \<open>CreateOrder\<close>, in their order; one that fails panics.\<close>

definition parse_order_msg :: "msg \<Rightarrow> order_msg result" where
  "parse_order_msg msg =
     (case get_string msg ''order_no'' of Inl e \<Rightarrow> Inl e | Inr orderNo \<Rightarrow>
     (case get_float msg ''user_id'' of Inl e \<Rightarrow> Inl e | Inr userID \<Rightarrow>
     (case get_float msg ''product_id'' of Inl e \<Rightarrow> Inl e | Inr productID \<Rightarrow>
     (case get_string msg ''product_name'' of Inl e \<Rightarrow> Inl e | Inr productName \<Rightarrow>
     (case get_float msg ''seckill_price'' of Inl e \<Rightarrow> Inl e | Inr seckillPrice \<Rightarrow>
     (case get_float msg ''quantity'' of Inl e \<Rightarrow> Inl e | Inr quantity \<Rightarrow>
     (case get_float msg ''total_amount'' of Inl e \<Rightarrow> Inl e | Inr totalAmount \<Rightarrow>
        Inr \<lparr>om_order_no = orderNo, om_user_id = float_to_int userID,
             om_product_id = float_to_int productID, om_product_name = productName,
             om_seckill_price = seckillPrice, om_quantity = float_to_int quantity,
             om_total_amount = totalAmount\<rparr>)))))))"

definition order_of_msg :: "order_msg \<Rightarrow> order" where
  "order_of_msg m = \<lparr>o_id = 0, o_order_no = om_order_no m, o_user_id = om_user_id m,
     o_product_id = om_product_id m, o_product_name = om_product_name m,
     o_seckill_price = om_seckill_price m, o_quantity = om_quantity m,
     o_total_amount = om_total_amount m, o_status = Pending, o_pay_time = None,
     o_cancel_time = None, o_cancel_reason = [], o_created_at = 0, o_updated_at = 0\<rparr>"

definition svc_CreateOrder ::
  "('r, 'd, 'q) env \<Rightarrow> int \<Rightarrow> msg \<Rightarrow> ('r, 'd, 'q) world \<Rightarrow> ('r, 'd, 'q) world \<times> unit result" where
  "svc_CreateOrder ev now msg w =
     (case parse_order_msg msg of
        Inl e \<Rightarrow> (w, Inl e)
      | Inr m \<Rightarrow>
          (case on_db (GetOrderByOrderNo (ev_db ev) (ev_shards ev) (om_order_no m) (om_user_id m)) w of
             (w1, Inr existOrder) \<Rightarrow> (w1, Inr ())
           | (w1, Inl _) \<Rightarrow>
               (case on_db (Dao.CreateOrder (ev_db ev) now (ev_shards ev) (order_of_msg m)) w1 of
                  (w2, Inl err) \<Rightarrow> (w2, Inl (Wrapf ''create order failed'' err))
                | (w2, Inr _) \<Rightarrow>
                    (case on_db (DeductProductStock (ev_db ev) now (om_product_id m) (om_quantity m)) w2 of
                       (w3, Inl err) \<Rightarrow> (w3, Inl (Wrapf ''deduct mysql stock failed'' err))
                     | (w3, Inr _) \<Rightarrow> (on_mon IncOrderCreated w3, Inr ())))))"

text \<open>\<open>BatchImportOrders\<close>: a panic of \<open>CreateOrder\<close> ends the loop (it leaves the function).\<close>

fun svc_BatchImportOrders ::
  "('r, 'd, 'q) env \<Rightarrow> int \<Rightarrow> msg list \<Rightarrow> int \<Rightarrow> int \<Rightarrow> ('r, 'd, 'q) world
     \<Rightarrow> ('r, 'd, 'q) world \<times> (int \<times> int) result" where
  "svc_BatchImportOrders ev now [] successCount failCount w = (w, Inr (successCount, failCount))"
| "svc_BatchImportOrders ev now (msg # msgs) successCount failCount w =
     (case svc_CreateOrder ev now msg w of
        (w1, Inl e) \<Rightarrow> if e = GoPanic then (w1, Inl GoPanic)
                        else svc_BatchImportOrders ev now msgs successCount (failCount + 1) w1
      | (w1, Inr _) \<Rightarrow> svc_BatchImportOrders ev now msgs (successCount + 1) failCount w1)"

section \<open>Giving stock back\<close>

text \<open>
  The tail shared by cancellation and refund: MySQL stock, Redis stock, purchase counter. Each
  failure is logged and ignored.
\<close>

definition give_back_all ::
  "('r, 'd, 'q) env \<Rightarrow> int \<Rightarrow> int \<Rightarrow> int \<Rightarrow> int \<Rightarrow> ('r, 'd, 'q) world \<Rightarrow> ('r, 'd, 'q) world" where
  "give_back_all ev now userID productID quantity w =
     (let w1 = fst (on_db (RollbackProductStock (ev_db ev) now productID quantity) w);
          w2 = fst (on_redis (IncrStock (ev_call ev) productID quantity) w1);
          w3 = fst (on_redis (DecrUserPurchaseCount (ev_call ev) userID productID quantity) w2)
      in w3)"

section \<open>The transitions of an order\<close>

text \<open>
  \<open>CancelOrder\<close> in two parts, the read and what follows it, so that the interleaving of two
  calls can be stated.
\<close>

definition cancel_after_read ::
  "('r, 'd, 'q) env \<Rightarrow> int \<Rightarrow> string \<Rightarrow> int \<Rightarrow> string \<Rightarrow> order result \<Rightarrow> ('r, 'd, 'q) world
     \<Rightarrow> ('r, 'd, 'q) world \<times> unit result" where
  "cancel_after_read ev now orderNo userID reason found w1 =
     (case found of
        Inl err \<Rightarrow> (w1, Inl (Wrapf ''query order failed'' err))
      | Inr r \<Rightarrow>
          if o_status r \<noteq> Pending then (w1, Inl (Errf ''status does not allow cancelling''))
          else (case on_db (Dao.CancelOrder (ev_db ev) now (ev_shards ev) orderNo userID reason) w1 of
                  (w2, Inl err) \<Rightarrow> (w2, Inl (Wrapf ''cancel order failed'' err))
                | (w2, Inr _) \<Rightarrow>
                    (give_back_all ev now userID (o_product_id r) (o_quantity r) w2, Inr ())))"

definition svc_CancelOrder ::
  "('r, 'd, 'q) env \<Rightarrow> int \<Rightarrow> string \<Rightarrow> int \<Rightarrow> string \<Rightarrow> ('r, 'd, 'q) world \<Rightarrow> ('r, 'd, 'q) world \<times> unit result" where
  "svc_CancelOrder ev now orderNo userID reason w =
     (case on_db (GetOrderByOrderNo (ev_db ev) (ev_shards ev) orderNo userID) w of
        (w1, found) \<Rightarrow> cancel_after_read ev now orderNo userID reason found w1)"

definition svc_ProcessTimeoutOrder ::
  "('r, 'd, 'q) env \<Rightarrow> int \<Rightarrow> msg \<Rightarrow> ('r, 'd, 'q) world \<Rightarrow> ('r, 'd, 'q) world \<times> unit result" where
  "svc_ProcessTimeoutOrder ev now msg w =
     (case get_string msg ''order_no'' of Inl e \<Rightarrow> (w, Inl e) | Inr orderNo \<Rightarrow>
     (case get_float msg ''user_id'' of Inl e \<Rightarrow> (w, Inl e) | Inr userIDf \<Rightarrow>
     (case get_float msg ''product_id'' of Inl e \<Rightarrow> (w, Inl e) | Inr productIDf \<Rightarrow>
     (case get_float msg ''quantity'' of Inl e \<Rightarrow> (w, Inl e) | Inr quantityf \<Rightarrow>
       (let userID = float_to_int userIDf; productID = float_to_int productIDf;
            quantity = float_to_int quantityf
        in case on_db (GetOrderByOrderNo (ev_db ev) (ev_shards ev) orderNo userID) w of
             (w1, Inl err) \<Rightarrow> (w1, Inl (Wrapf ''query order failed'' err))
           | (w1, Inr r) \<Rightarrow>
               if o_status r \<noteq> Pending then (w1, Inr ())
               else (case on_db (CancelOrderWithStatus (ev_db ev) now (ev_shards ev) orderNo userID
                            ''payment timeout'' Timeout) w1 of
                       (w2, Inl err) \<Rightarrow> (w2, Inl (Wrapf ''cancel order failed'' err))
                     | (w2, Inr _) \<Rightarrow>
                         (case on_db (RollbackProductStock (ev_db ev) now productID quantity) w2 of
                            (w3, Inl err) \<Rightarrow> (w3, Inl (Wrapf ''rollback stock failed'' err))
                          | (w3, Inr _) \<Rightarrow>
                              (let w4 = fst (on_redis (IncrStock (ev_call ev) productID quantity) w3);
                                   w5 = fst (on_redis (DecrUserPurchaseCount (ev_call ev) userID
                                          productID quantity) w4)
                               in (on_mon IncOrderTimeout w5, Inr ())))))))))"

definition svc_PayCallback ::
  "('r, 'd, 'q) env \<Rightarrow> int \<Rightarrow> string \<Rightarrow> int \<Rightarrow> int \<Rightarrow> ('r, 'd, 'q) world \<Rightarrow> ('r, 'd, 'q) world \<times> unit result" where
  "svc_PayCallback ev now orderNo userID payTime w =
     (case on_db (GetOrderByOrderNo (ev_db ev) (ev_shards ev) orderNo userID) w of
        (w1, Inl err) \<Rightarrow> (w1, Inl (Wrapf ''query order failed'' err))
      | (w1, Inr r) \<Rightarrow>
          if o_status r \<noteq> Pending then (w1, Inl (Errf ''status does not allow payment''))
          else (case on_db (UpdateOrderStatusWithPayTime (ev_db ev) now (ev_shards ev) orderNo userID
                       Paid (Some payTime)) w1 of
                  (w2, Inl err) \<Rightarrow> (w2, Inl (Wrapf ''update order status failed'' err))
                | (w2, Inr _) \<Rightarrow> (w2, Inr ())))"

definition svc_Refund ::
  "('r, 'd, 'q) env \<Rightarrow> int \<Rightarrow> string \<Rightarrow> int \<Rightarrow> string \<Rightarrow> ('r, 'd, 'q) world \<Rightarrow> ('r, 'd, 'q) world \<times> unit result" where
  "svc_Refund ev now orderNo userID reason w =
     (case on_db (GetOrderByOrderNo (ev_db ev) (ev_shards ev) orderNo userID) w of
        (w1, Inl err) \<Rightarrow> (w1, Inl (Wrapf ''query order failed'' err))
      | (w1, Inr r) \<Rightarrow>
          if o_status r \<noteq> Paid then (w1, Inl (Errf ''status does not allow refund''))
          else (case on_db (UpdateOrderStatusWithPayTime (ev_db ev) now (ev_shards ev) orderNo userID
                       Refunded None) w1 of
                  (w2, Inl err) \<Rightarrow> (w2, Inl (Wrapf ''update order status failed'' err))
                | (w2, Inr _) \<Rightarrow>
                    (give_back_all ev now userID (o_product_id r) (o_quantity r) w2, Inr ())))"

section \<open>Queries\<close>

definition svc_GetUserOrders ::
  "('r, 'd, 'q) env \<Rightarrow> int \<Rightarrow> int \<Rightarrow> int \<Rightarrow> string \<Rightarrow> ('r, 'd, 'q) world
     \<Rightarrow> ('r, 'd, 'q) world \<times> (order list \<times> int) result" where
  "svc_GetUserOrders ev userID page pageSize status =
     on_db (Dao.GetUserOrders (ev_db ev) (ev_shards ev) userID page pageSize status)"

definition svc_GetOrderDetail ::
  "('r, 'd, 'q) env \<Rightarrow> string \<Rightarrow> int \<Rightarrow> ('r, 'd, 'q) world \<Rightarrow> ('r, 'd, 'q) world \<times> order result" where
  "svc_GetOrderDetail ev orderNo userID =
     on_db (GetOrderByOrderNo (ev_db ev) (ev_shards ev) orderNo userID)"

definition svc_GetAllOrders ::
  "('r, 'd, 'q) env \<Rightarrow> int \<Rightarrow> int \<Rightarrow> int option \<Rightarrow> string \<Rightarrow> int option \<Rightarrow> ('r, 'd, 'q) world
     \<Rightarrow> ('r, 'd, 'q) world \<times> (order list \<times> int) result" where
  "svc_GetAllOrders ev page pageSize status orderNo userID =
     on_db (Dao.GetAllOrders (ev_db ev) page pageSize status orderNo userID)"

definition svc_GetReconDiffList ::
  "('r, 'd, 'q) env \<Rightarrow> int \<Rightarrow> int \<Rightarrow> ('r, 'd, 'q) world \<Rightarrow> ('r, 'd, 'q) world \<times> (recon_diff list \<times> int) result" where
  "svc_GetReconDiffList ev page pageSize = on_db (Dao.GetReconDiffList (ev_db ev) page pageSize)"

definition svc_FixReconDiff ::
  "('r, 'd, 'q) env \<Rightarrow> int \<Rightarrow> int \<Rightarrow> ('r, 'd, 'q) world \<Rightarrow> ('r, 'd, 'q) world \<times> unit result" where
  "svc_FixReconDiff ev now i = on_db (UpdateReconDiffCorrected (ev_db ev) now i)"

end
