(* ===== verification/Reliable_Db.thy ===== *)
theory Reliable_Db
  imports World
begin

text \<open>
  The contract of a database that answers every statement (\<open>reliable_db\<close>, an extension of
  \<open>db_server\<close>), met by the reference database itself, and a small deployment for the concrete
  runs of the witnesses: one product, no order, a Redis holding its stock, a queue that keeps
  the messages it is given.
\<close>

section \<open>A database that answers\<close>

locale reliable_db = db_server +
  assumes order_answers: "on_order ops name os d = (d', oa) \<Longrightarrow> (view d', oa) = exec_order name os (view d)"
    and product_answers: "on_product ops ps d = (d', pa) \<Longrightarrow> (view d', pa) = exec_product ps (view d)"
    and user_answers: "on_user ops us d = (d', ua) \<Longrightarrow> (view d', ua) = exec_user (db_weight ops) us (view d)"
    and user_read_answers: "on_user_read ops us d = (d', ua) \<Longrightarrow> (view d', ua) = exec_user (db_weight ops) us (view d)"
    and diff_answers: "on_diff ops ds d = (d', da) \<Longrightarrow> (view d', da) = exec_diff ds (view d)"

text \<open>The reference database itself, without a fault schedule.\<close>

definition plain_tx :: "(database \<Rightarrow> database \<times> unit result) \<Rightarrow> database \<Rightarrow> database \<times> unit result" where
  "plain_tx body d = (case body d of (d1, Inl e) \<Rightarrow> (d, Inl e) | (d1, Inr _) \<Rightarrow> (d1, Inr ()))"

definition plain_ops :: "database db_ops" where
  "plain_ops = \<lparr>db_weight = ignore_case, on_user = exec_user ignore_case, on_user_read = exec_user ignore_case, on_product = exec_product, on_sku = exec_sku,
     on_order = exec_order, on_diff = exec_diff, on_black = exec_black ignore_case, on_audit = exec_audit,
     in_tx = plain_tx\<rparr>"

lemma plain_tx_outcome: "plain_tx body d = (d', r) \<Longrightarrow> tx_outcome id body d d' r"
  by (auto simp: plain_tx_def tx_outcome_def split: prod.splits sum.splits)

interpretation plain_mysql: reliable_db plain_ops id
  by unfold_locales (simp_all add: plain_ops_def db_outcome_def plain_tx_outcome)

section \<open>A small deployment\<close>

definition demo_product :: product where
  "demo_product = \<lparr>p_id = 1, p_name = ''phone'', p_description = [], p_price = 30, p_seckill_price = 20,
     p_total_stock = 10, p_remain_stock = 10, p_start_time = 0, p_end_time = 90000, p_status = 1,
     p_image_url = [], p_limit_per_user = 3, p_pay_timeout = 15, p_created_at = 0, p_updated_at = 0,
     p_deleted_at = None\<rparr>"

definition empty_table :: "'row table" where
  "empty_table = \<lparr>t_rows = [], t_next = 1\<rparr>"

definition demo_db :: database where
  "demo_db = \<lparr>db_users = empty_table, db_products = \<lparr>t_rows = [demo_product], t_next = 2\<rparr>,
     db_skus = empty_table, db_orders = (\<lambda>_. empty_table), db_diffs = empty_table,
     db_black = empty_table, db_audits = empty_table\<rparr>"

definition demo_env :: "(faulty_server, database, demo_broker) env" where
  "demo_env = \<lparr>ev_call = faulty_call, ev_db = plain_ops, ev_amqp = demo_amqp, ev_tf = demo_layout,
     ev_shards = 16, ev_rabbit = cf_rabbit (demo_config ''s3cret''), ev_instance = ''node1'', ev_port = 8080\<rparr>"

definition demo_mq_state :: "publish_fault list \<Rightarrow> demo_broker mq_state" where
  "demo_mq_state faults = \<lparr>ms_conn = True, ms_pool = Some \<lparr>cp_items = [0, 1, 2], cp_next = 0\<rparr>, ms_consume = Some 3,
     ms_once = True, ms_cfg = Some (cf_rabbit (demo_config ''s3cret'')), ms_published = 0, ms_consumed = 0,
     ms_broker = fresh_broker\<lparr>bk_faults := faults\<rparr>\<rparr>"

definition no_metrics :: seckill_metrics where
  "no_metrics = \<lparr>sm_seckill_success = 0, sm_seckill_fail = 0, sm_order_created = 0, sm_order_timeout = 0,
     sm_sentinel_reject = 0\<rparr>"

definition demo_world :: "(faulty_server, database, demo_broker) world" where
  "demo_world = \<lparr>w_redis = demo_redis, w_db = demo_db, w_mq = demo_mq_state [],
     w_mon = \<lparr>mo_engine = new_engine ''2026-01-01'', mo_metrics = no_metrics\<rparr>, w_kafka = []\<rparr>"

text \<open>The body of an order message for the product, as JSON decodes it.\<close>

definition demo_order_msg :: "string \<Rightarrow> rat \<Rightarrow> msg" where
  "demo_order_msg no quantity = [''order_no'' \<mapsto> JStr no, ''user_id'' \<mapsto> JNum 7, ''product_id'' \<mapsto> JNum 1,
     ''product_name'' \<mapsto> JStr ''phone'', ''seckill_price'' \<mapsto> JNum 20, ''quantity'' \<mapsto> JNum quantity,
     ''total_amount'' \<mapsto> JNum 40]"

lemma demo_env_sel [simp]:
  "ev_call demo_env = faulty_call" "ev_db demo_env = plain_ops" "ev_amqp demo_env = demo_amqp"
  "ev_tf demo_env = demo_layout" "ev_shards demo_env = 16" "ev_instance demo_env = ''node1''"
  "ev_rabbit demo_env = cf_rabbit (demo_config ''s3cret'')" "ev_port demo_env = 8080"
  by (simp_all add: demo_env_def)

lemma demo_world_sel [simp]:
  "w_redis demo_world = demo_redis" "w_db demo_world = demo_db" "w_mq demo_world = demo_mq_state []"
  "w_kafka demo_world = []"
  by (simp_all add: demo_world_def)

lemma demo_table [simp]: "GetOrderTableName 7 16 = ''t_order_7''" "''t_order_7'' \<in> order_tables"
proof -
  have d: "fmt_d 7 = ''7''" by code_simp
  then show "GetOrderTableName 7 16 = ''t_order_7''"
    by (simp add: GetOrderTableName_def go_rem_def)
  have "''t_order_7'' = ''t_order_'' @ fmt_d (int 7)"
    using d by simp
  then show "''t_order_7'' \<in> order_tables"
    unfolding order_tables_def by (rule image_eqI) simp
qed

lemma plain_ops_sel [simp]:
  "db_weight plain_ops = ignore_case" "on_user plain_ops = exec_user ignore_case"
  "on_user_read plain_ops = exec_user ignore_case" "on_product plain_ops = exec_product" "on_sku plain_ops = exec_sku"
  "on_order plain_ops = exec_order" "on_diff plain_ops = exec_diff" "on_black plain_ops = exec_black ignore_case"
  "on_audit plain_ops = exec_audit" "in_tx plain_ops = plain_tx"
  by (simp_all add: plain_ops_def)

end
