(* ===== verification/Order_Lifecycle.thy ===== *)
theory Order_Lifecycle
  imports Order_Service Reliable_Db
begin

text \<open>
  What the order service promises: the state machine of an order, kept by every call under any
  faults, and the conservation of the MySQL stock.
\<close>

section \<open>Effects of the order statements\<close>

lemma set_matching [simp]: "set (matching sc t P) = {r \<in> set (t_rows t). selected sc P r}"
  by (auto simp: matching_def)

lemma first_answer:
  "table_exec sc t (First P) = (t', a) \<Longrightarrow> t' = t \<and>
    (\<forall>r. answer_row a = Inr r \<longrightarrow> r \<in> set (t_rows t) \<and> selected sc P r)"
proof -
  assume run: "table_exec sc t (First P) = (t', a)"
  have "r \<in> set (t_rows t) \<and> selected sc P r" if "answer_row a = Inr r" for r
  proof -
    have "r \<in> set (matching sc t P)"
      using run that by (cases "matching sc t P") (auto simp del: set_matching)
    then show ?thesis by simp
  qed
  with run show ?thesis by auto
qed

lemma order_table_update:
  "t_rows (db_orders (d\<lparr>db_orders := (db_orders d)(n := x)\<rparr>) m) = t_rows (if m = n then x else db_orders d m)"
  by simp

context db_server
begin

lemma product_keeps_orders:
  "on_product ops st d = (d', a) \<Longrightarrow> db_orders (view d') = db_orders (view d)"
  by (drule product_stmt) (auto simp: db_outcome_def exec_product_def split: prod.splits)

lemma order_keeps_products:
  "on_order ops n st d = (d', a) \<Longrightarrow> db_products (view d') = db_products (view d)"
  by (drule order_stmt) (auto simp: db_outcome_def exec_order_def split: prod.splits if_splits)

lemma get_order:
  assumes "GetOrderByOrderNo ops shards no u d = (d', res)"
  shows "view d' = view d"
    "res = Inr r \<Longrightarrow> r \<in> set (t_rows (db_orders (view d) (GetOrderTableName u shards))) \<and>
       o_order_no r = no \<and> GetOrderTableName u shards \<in> order_tables"
proof -
  let ?t = "GetOrderTableName u shards"
  obtain a where a: "on_order ops ?t (First (\<lambda>r. o_order_no r = no)) d = (d', a)" and res: "res = answer_row a"
    using assms by (auto simp: GetOrderByOrderNo_def split: prod.splits)
  note out = order_stmt [OF a, unfolded db_outcome_def]
  have same: "fst (exec_order ?t (First P) v) = v" for P v
    by (simp add: exec_order_def)
  show "view d' = view d"
    using out same by (metis fst_conv)
  show "r \<in> set (t_rows (db_orders (view d) ?t)) \<and> o_order_no r = no \<and> ?t \<in> order_tables"
    if "res = Inr r"
  proof -
    have "(view d', a) = exec_order ?t (First (\<lambda>r. o_order_no r = no)) (view d)"
      using out res that by auto
    then have t: "?t \<in> order_tables" and "a = snd (table_exec order_schema (db_orders (view d) ?t)
        (First (\<lambda>r. o_order_no r = no)))"
      using res that by (auto simp: exec_order_def split: if_splits)
    then show ?thesis
      using first_answer [of order_schema "db_orders (view d) ?t" "\<lambda>r. o_order_no r = no"] res that
      by (auto simp: selected_def)
  qed
qed

end

definition map_rows :: "string \<Rightarrow> (order \<Rightarrow> bool) \<Rightarrow> (order \<Rightarrow> order) \<Rightarrow> database \<Rightarrow> database" where
  "map_rows n P f v = v\<lparr>db_orders := (db_orders v)(n := (db_orders v n)
     \<lparr>t_rows := map (\<lambda>r. if P r then f r else r) (t_rows (db_orders v n))\<rparr>)\<rparr>"

lemma exec_order_update:
  "n \<in> order_tables \<Longrightarrow> fst (exec_order n (Update P f) v) = map_rows n P f v"
  by (simp add: exec_order_def map_rows_def order_schema_def selected_def)

lemma exec_create_order:
  fixes now shards r v
  defines "n \<equiv> GetOrderTableName (o_user_id r) shards"
  defines "t \<equiv> db_orders v n"
  defines "i \<equiv> if o_id r = 0 then t_next t else o_id r"
  shows "exec_order n (Create [new_order now r]) v =
      (if n \<notin> order_tables then (v, Failed DbErr)
       else if \<exists>x \<in> set (t_rows t). o_id x = i \<or> o_order_no x = o_order_no r
       then (v, Failed DuplicateKey)
       else (v\<lparr>db_orders := (db_orders v)(n := \<lparr>t_rows = t_rows t @ [(new_order now r)\<lparr>o_id := i\<rparr>],
               t_next = max (t_next t) i + 1\<rparr>)\<rparr>, Rows [(new_order now r)\<lparr>o_id := i\<rparr>]))"
proof -
  have fill: "(new_order now r)\<lparr>o_id := o_id r\<rparr> = new_order now r"
    by (simp add: new_order_def)
  have [simp]: "o_id (new_order now r) = o_id r" "o_order_no (new_order now r) = o_order_no r"
    by (simp_all add: new_order_def)
  show ?thesis
    by (auto simp: exec_order_def order_schema_def Let_def fill n_def t_def i_def)
qed

context db_server
begin

lemma update_order_cases:
  assumes "update_order ops shards no u f d = (d', res)"
  obtains (same) e where "res = Inl e" "view d' = view d"
  | (updated) "GetOrderTableName u shards \<in> order_tables"
      "view d' = map_rows (GetOrderTableName u shards) (\<lambda>r. o_order_no r = no) f (view d)"
proof -
  let ?t = "GetOrderTableName u shards" and ?st = "Update (\<lambda>r. o_order_no r = no) f"
  obtain a where a: "on_order ops ?t ?st d = (d', a)" and res: "res = answer_unit a"
    using assms by (auto simp: update_order_def split: prod.splits)
  note out = order_stmt [OF a, unfolded db_outcome_def]
  show thesis
  proof (cases "?t \<in> order_tables")
    case False
    then have "exec_order ?t ?st (view d) = (view d, Failed DbErr)"
      by (simp add: exec_order_def)
    with out res that(1) show ?thesis by auto
  next
    case True
    note e = exec_order_update [OF True, of "\<lambda>r. o_order_no r = no" f "view d"]
    from out show ?thesis
    proof (elim disjE conjE)
      assume "(view d', a) = exec_order ?t ?st (view d)"
      then have "view d' = fst (exec_order ?t ?st (view d))"
        by (metis fst_conv)
      with e True that(2) show ?thesis by simp
    next
      assume "a = Failed DbErr" "view d' = view d"
      with res that(1) show ?thesis by simp
    next
      assume "view d' = fst (exec_order ?t ?st (view d))"
      with e True that(2) show ?thesis by simp
    qed
  qed
qed

lemma create_order_cases:
  assumes "Dao.CreateOrder ops now shards r d = (d', res)"
  obtains (same) e where "res = Inl e" "view d' = view d"
  | (created) i where "GetOrderTableName (o_user_id r) shards \<in> order_tables"
      "\<forall>x \<in> set (t_rows (db_orders (view d) (GetOrderTableName (o_user_id r) shards))).
         o_id x \<noteq> i \<and> o_order_no x \<noteq> o_order_no r"
      "\<exists>n. view d' = (view d)\<lparr>db_orders := (db_orders (view d))(GetOrderTableName (o_user_id r) shards :=
         \<lparr>t_rows = t_rows (db_orders (view d) (GetOrderTableName (o_user_id r) shards)) @ [(new_order now r)\<lparr>o_id := i\<rparr>],
          t_next = n\<rparr>)\<rparr>"
proof -
  let ?t = "GetOrderTableName (o_user_id r) shards" and ?st = "Create [new_order now r]"
  let ?T = "db_orders (view d) ?t"
  let ?i = "if o_id r = 0 then t_next ?T else o_id r"
  let ?r = "(new_order now r)\<lparr>o_id := ?i\<rparr>"
  obtain a where a: "on_order ops ?t ?st d = (d', a)" and res: "res = answer_unit a"
    using assms by (auto simp: Dao.CreateOrder_def split: prod.splits)
  note out = order_stmt [OF a, unfolded db_outcome_def]
  have id [simp]: "o_id (new_order now r) = o_id r" "o_order_no (new_order now r) = o_order_no r"
    by (simp_all add: new_order_def)
  note exec = exec_create_order [of r shards now "view d"]
  show thesis
  proof (cases "?t \<in> order_tables \<and> \<not> (\<exists>x \<in> set (t_rows ?T). o_id x = ?i \<or> o_order_no x = o_order_no r)")
    case False
    then have "\<exists>e. exec_order ?t ?st (view d) = (view d, Failed e)"
      unfolding exec by auto
    with out res that(1) show ?thesis by auto
  next
    case True
    then have e: "fst (exec_order ?t ?st (view d)) = (view d)\<lparr>db_orders := (db_orders (view d))
        (?t := \<lparr>t_rows = t_rows ?T @ [?r], t_next = max (t_next ?T) ?i + 1\<rparr>)\<rparr>"
      unfolding exec by simp
    have "view d' = fst (exec_order ?t ?st (view d)) \<or> a = Failed DbErr \<and> view d' = view d"
      using out by (metis fst_conv)
    then show ?thesis
    proof (elim disjE conjE)
      assume "a = Failed DbErr" "view d' = view d"
      with res that(1) show ?thesis by simp
    next
      assume "view d' = fst (exec_order ?t ?st (view d))"
      with e True show ?thesis by (intro that(2) [of ?i]) auto
    qed
  qed
qed

end


section \<open>The state machine of an order\<close>

inductive order_next :: "order_status \<Rightarrow> order_status \<Rightarrow> bool" where
  pay: "order_next Pending Paid"
| cancel: "order_next Pending Cancelled"
| timeout: "order_next Pending Timeout"
| refund: "order_next Paid Refunded"

code_pred order_next .

inductive_simps order_next_simps [simp]:
  "order_next Pending st" "order_next Paid st" "order_next Cancelled st" "order_next Refunded st"
  "order_next Timeout st"

lemma order_final:
  "order_next\<^sup>*\<^sup>* Cancelled st \<longleftrightarrow> st = Cancelled" "order_next\<^sup>*\<^sup>* Refunded st \<longleftrightarrow> st = Refunded"
  "order_next\<^sup>*\<^sup>* Timeout st \<longleftrightarrow> st = Timeout"
  by (auto elim: converse_rtranclpE)

lemma order_from_paid: "order_next\<^sup>*\<^sup>* Paid st \<longleftrightarrow> st = Paid \<or> st = Refunded"
  by (auto elim: converse_rtranclpE simp: order_final order_next.simps intro: r_into_rtranclp)

text \<open>An order row before and after some calls: only its status and its times may move.\<close>

definition order_evolves :: "order \<Rightarrow> order \<Rightarrow> bool" where
  "order_evolves a b \<longleftrightarrow> o_id b = o_id a \<and> o_order_no b = o_order_no a \<and> o_user_id b = o_user_id a \<and>
     o_product_id b = o_product_id a \<and> o_product_name b = o_product_name a \<and>
     o_seckill_price b = o_seckill_price a \<and> o_quantity b = o_quantity a \<and>
     o_total_amount b = o_total_amount a \<and> o_created_at b = o_created_at a \<and>
     order_next\<^sup>*\<^sup>* (o_status a) (o_status b)"

lemma order_evolves_refl [simp]: "order_evolves a a"
  by (simp add: order_evolves_def)

lemma order_evolves_trans: "order_evolves a b \<Longrightarrow> order_evolves b c \<Longrightarrow> order_evolves a c"
  by (auto simp: order_evolves_def)

text \<open>The rows of one table: the old ones evolve in place, the new ones are appended.\<close>

definition rows_evolve :: "order list \<Rightarrow> order list \<Rightarrow> bool" where
  "rows_evolve xs ys \<longleftrightarrow> length xs \<le> length ys \<and> (\<forall>i < length xs. order_evolves (xs ! i) (ys ! i))"

lemma rows_evolve_refl [simp]: "rows_evolve xs xs"
  by (simp add: rows_evolve_def)

lemma rows_evolve_trans: "rows_evolve xs ys \<Longrightarrow> rows_evolve ys zs \<Longrightarrow> rows_evolve xs zs"
  unfolding rows_evolve_def by (meson order_evolves_trans order_less_le_trans order_trans)

lemma rows_evolve_append [simp]: "rows_evolve xs (xs @ ys)"
  by (simp add: rows_evolve_def nth_append)

lemma rows_evolve_map: "(\<And>r. r \<in> set xs \<Longrightarrow> order_evolves r (f r)) \<Longrightarrow> rows_evolve xs (map f xs)"
  by (simp add: rows_evolve_def)

definition orders_evolve :: "database \<Rightarrow> database \<Rightarrow> bool" where
  "orders_evolve v v' \<longleftrightarrow> (\<forall>n. rows_evolve (t_rows (db_orders v n)) (t_rows (db_orders v' n)))"

lemma orders_evolve_same [simp]: "db_orders v' = db_orders v \<Longrightarrow> orders_evolve v v'"
  by (simp add: orders_evolve_def)

lemma orders_evolve_trans: "orders_evolve v v' \<Longrightarrow> orders_evolve v' v'' \<Longrightarrow> orders_evolve v v''"
  unfolding orders_evolve_def by (meson rows_evolve_trans)

text \<open>Order numbers are unique in every table (the unique key of the schema).\<close>

definition orders_ok :: "database \<Rightarrow> bool" where
  "orders_ok v \<longleftrightarrow> (\<forall>n. distinct (map o_order_no (t_rows (db_orders v n))))"

lemma orders_ok_unique:
  assumes "orders_ok v" "r \<in> set (t_rows (db_orders v n))" "x \<in> set (t_rows (db_orders v n))"
    "o_order_no x = o_order_no r"
  shows "x = r"
  using assms by (auto simp: orders_ok_def distinct_map inj_on_def)

lemma orders_ok_same: "orders_ok v \<Longrightarrow> db_orders v' = db_orders v \<Longrightarrow> orders_ok v'"
  by (simp add: orders_ok_def)

lemma map_rows_evolve:
  assumes "\<And>r. r \<in> set (t_rows (db_orders v n)) \<Longrightarrow> P r \<Longrightarrow> order_evolves r (f r)"
  shows "orders_evolve v (map_rows n P f v)"
  using assms by (auto simp: orders_evolve_def map_rows_def intro!: rows_evolve_map)

lemma map_rows_ok:
  assumes "orders_ok v" "\<And>r. o_order_no (f r) = o_order_no r"
  shows "orders_ok (map_rows n P f v)"
  using assms by (auto simp: orders_ok_def map_rows_def comp_def if_distrib [of o_order_no] cong: if_cong)

lemma append_row:
  assumes "orders_ok v" "\<forall>x \<in> set (t_rows (db_orders v n)). o_order_no x \<noteq> o_order_no r"
    and v': "v' = v\<lparr>db_orders := (db_orders v)(n := \<lparr>t_rows = t_rows (db_orders v n) @ [r], t_next = k\<rparr>)\<rparr>"
  shows "orders_evolve v v'" "orders_ok v'"
proof -
  show "orders_evolve v v'"
    by (simp add: v' orders_evolve_def)
  have "o_order_no r \<notin> o_order_no ` set (t_rows (db_orders v n))"
    using assms(2) by (metis imageE)
  then show "orders_ok v'"
    using assms(1) by (simp add: v' orders_ok_def)
qed

text \<open>
  A guarded update: the row read has status \<open>st\<close> and the update moves the rows with its number
  to a next status.
\<close>

lemma guarded_update:
  assumes "orders_ok v" "r \<in> set (t_rows (db_orders v n))" "o_order_no r = no" "order_next (o_status r) st"
    and "\<And>x. o_status (f x) = st" "\<And>x. order_evolves (x\<lparr>o_status := st\<rparr>) (f x)"
  shows "orders_evolve v (map_rows n (\<lambda>r. o_order_no r = no) f v)"
    "orders_ok (map_rows n (\<lambda>r. o_order_no r = no) f v)"
proof -
  have keep: "o_order_no (f x) = o_order_no x" for x
    using assms(6) [of x] by (simp add: order_evolves_def)
  show "orders_ok (map_rows n (\<lambda>r. o_order_no r = no) f v)"
    by (rule map_rows_ok [OF assms(1) keep])
  have "order_evolves x (f x)" if "x \<in> set (t_rows (db_orders v n))" "o_order_no x = no" for x
  proof -
    have "x = r"
      using orders_ok_unique [OF assms(1,2) that(1)] that(2) assms(3) by simp
    then show ?thesis
      using assms(4) assms(5) [of x] assms(6) [of x] by (auto simp: order_evolves_def)
  qed
  then show "orders_evolve v (map_rows n (\<lambda>r. o_order_no r = no) f v)"
    by (intro map_rows_evolve)
qed


section \<open>The calls of the order service\<close>

inductive order_call :: "('r, 'd, 'q) env \<Rightarrow> ('r, 'd, 'q) world \<Rightarrow> ('r, 'd, 'q) world \<Rightarrow> bool"
  for ev where
  create: "svc_CreateOrder ev now msg w = (w', res) \<Longrightarrow> order_call ev w w'"
| cancel: "svc_CancelOrder ev now no u reason w = (w', res) \<Longrightarrow> order_call ev w w'"
| timeout: "svc_ProcessTimeoutOrder ev now msg w = (w', res) \<Longrightarrow> order_call ev w w'"
| pay: "svc_PayCallback ev now no u payTime w = (w', res) \<Longrightarrow> order_call ev w w'"
| refund: "svc_Refund ev now no u reason w = (w', res) \<Longrightarrow> order_call ev w w'"
| elsewhere: "w_db w' = w_db w \<Longrightarrow> order_call ev w w'"

lemma on_redis_db [simp]: "w_db (fst (on_redis f w)) = w_db w"
  by (simp add: on_redis_def split: prod.splits)

definition grows_ok :: "('d \<Rightarrow> database) \<Rightarrow> ('r, 'd, 'q) world \<Rightarrow> ('r, 'd, 'q) world \<Rightarrow> bool" where
  "grows_ok view w w' \<longleftrightarrow> orders_evolve (view (w_db w)) (view (w_db w')) \<and> orders_ok (view (w_db w'))"

lemma grows_ok_refl: "orders_ok (view (w_db w)) \<Longrightarrow> db_orders (view (w_db w')) = db_orders (view (w_db w)) \<Longrightarrow> grows_ok view w w'"
  by (simp add: grows_ok_def orders_ok_def)

lemma grows_ok_then:
  "grows_ok view w w1 \<Longrightarrow> db_orders (view (w_db w2)) = db_orders (view (w_db w1)) \<Longrightarrow> grows_ok view w w2"
  by (simp add: grows_ok_def orders_evolve_def orders_ok_def)

context db_server
begin

lemma rollback_keeps_orders:
  "RollbackProductStock ops now p q d = (d', res) \<Longrightarrow> db_orders (view d') = db_orders (view d)"
  by (auto simp: RollbackProductStock_def dest: product_keeps_orders split: prod.splits)

lemma deduct_keeps_orders:
  "DeductProductStock ops now p q d = (d', res) \<Longrightarrow> db_orders (view d') = db_orders (view d)"
  by (auto simp: DeductProductStock_def dest: product_keeps_orders split: prod.splits)

lemma give_back_keeps_orders:
  assumes "ev_db ev = ops"
  shows "db_orders (view (w_db (give_back_all ev now u p q w))) = db_orders (view (w_db w))"
  using rollback_keeps_orders assms
  by (auto simp: give_back_all_def on_db_def on_redis_def split: prod.splits)

text \<open>A read followed by a guarded update of the same order.\<close>

lemma read_update:
  assumes "orders_ok (view d)"
    and "GetOrderByOrderNo ops shards no u d = (d1, Inr r)"
    and "order_next (o_status r) st"
    and "update_order ops shards no u f d1 = (d2, res)"
    and "\<And>x. o_status (f x) = st" "\<And>x. order_evolves (x\<lparr>o_status := st\<rparr>) (f x)"
  shows "orders_evolve (view d) (view d2) \<and> orders_ok (view d2)"
proof -
  note read = get_order [OF assms(2)]
  have r: "r \<in> set (t_rows (db_orders (view d1) (GetOrderTableName u shards)))" "o_order_no r = no"
    using read(1) read(2) [OF refl] by simp_all
  have ok1: "orders_ok (view d1)"
    using assms(1) read(1) by simp
  from assms(4) show ?thesis
  proof (cases rule: update_order_cases)
    case (same e)
    with ok1 read(1) show ?thesis by simp
  next
    case updated
    then show ?thesis
      using guarded_update [OF ok1 r assms(3,5,6)] read(1) by simp
  qed
qed

lemma create_grows:
  assumes "svc_CreateOrder ev now msg w = (w', res)" "ev_db ev = ops" "orders_ok (view (w_db w))"
  shows "grows_ok view w w'"
proof (cases "parse_order_msg msg")
  case (Inl e)
  with assms(1,3) show ?thesis by (simp add: svc_CreateOrder_def grows_ok_refl)
next
  case (Inr m)
  obtain w1 ex where q: "on_db (GetOrderByOrderNo ops (ev_shards ev) (om_order_no m) (om_user_id m)) w = (w1, ex)"
    by fastforce
  have v1: "view (w_db w1) = view (w_db w)"
    using get_order(1) [OF on_dbD [OF q]] .
  show ?thesis
  proof (cases ex)
    case Inr
    then show ?thesis
      using assms \<open>parse_order_msg msg = Inr m\<close> q v1 by (auto simp: svc_CreateOrder_def intro: grows_ok_refl)
  next
    case (Inl e)
    obtain w2 c where c: "on_db (Dao.CreateOrder ops now (ev_shards ev) (order_of_msg m)) w1 = (w2, c)"
      by fastforce
    from on_dbD [OF c] have g2: "grows_ok view w w2"
    proof (cases rule: create_order_cases)
      case (same e)
      with v1 assms(3) show ?thesis by (simp add: grows_ok_refl)
    next
      case (created i)
      let ?n = "GetOrderTableName (o_user_id (order_of_msg m)) (ev_shards ev)"
      let ?r = "(new_order now (order_of_msg m))\<lparr>o_id := i\<rparr>"
      obtain k where v2: "view (w_db w2) = (view (w_db w))\<lparr>db_orders := (db_orders (view (w_db w)))
          (?n := \<lparr>t_rows = t_rows (db_orders (view (w_db w)) ?n) @ [?r], t_next = k\<rparr>)\<rparr>"
        using created(3) v1 by auto
      have new: "\<forall>x \<in> set (t_rows (db_orders (view (w_db w)) ?n)). o_order_no x \<noteq> o_order_no ?r"
        using created(2) v1 by (simp add: new_order_def)
      from append_row [OF assms(3) new v2] show ?thesis
        by (simp add: grows_ok_def)
    qed
    show ?thesis
    proof (cases c)
      case Inl
      then show ?thesis
        using assms \<open>parse_order_msg msg = Inr m\<close> \<open>ex = Inl e\<close> q c g2 by (simp add: svc_CreateOrder_def)
    next
      case (Inr u)
      obtain w3 dd where dd: "on_db (DeductProductStock ops now (om_product_id m) (om_quantity m)) w2 = (w3, dd)"
        by fastforce
      have "grows_ok view w w3"
        by (rule grows_ok_then [OF g2 deduct_keeps_orders [OF on_dbD [OF dd]]])
      then show ?thesis
        using assms \<open>parse_order_msg msg = Inr m\<close> \<open>ex = Inl e\<close> q c dd Inr
        by (auto simp: svc_CreateOrder_def grows_ok_def split: sum.splits)
    qed
  qed
qed

lemma cancel_grows:
  assumes "svc_CancelOrder ev now no u reason w = (w', res)" "ev_db ev = ops" "orders_ok (view (w_db w))"
  shows "grows_ok view w w'"
proof -
  obtain w1 r1 where q: "on_db (GetOrderByOrderNo ops (ev_shards ev) no u) w = (w1, r1)"
    by fastforce
  have v1: "view (w_db w1) = view (w_db w)"
    by (rule get_order(1) [OF on_dbD [OF q]])
  show ?thesis
  proof (cases "\<exists>r. r1 = Inr r \<and> o_status r = Pending")
    case False
    then show ?thesis
      using assms q v1 by (auto simp: svc_CancelOrder_def cancel_after_read_def split: sum.splits intro: grows_ok_refl)
  next
    case True
    then obtain r where r: "r1 = Inr r" "o_status r = Pending" by blast
    obtain w2 r2 where c: "on_db (Dao.CancelOrder ops now (ev_shards ev) no u reason) w1 = (w2, r2)"
      by fastforce
    have "grows_ok view w w2"
      using read_update [OF assms(3) on_dbD [OF q [unfolded r(1)]] _ on_dbD [OF c, unfolded Dao.CancelOrder_def],
          of Cancelled] r(2)
      by (simp add: grows_ok_def order_evolves_def)
    then show ?thesis
      using assms(1,2) q r c give_back_keeps_orders [OF assms(2)]
      by (auto simp: svc_CancelOrder_def cancel_after_read_def intro: grows_ok_then split: sum.splits)
  qed
qed

lemma pay_grows:
  assumes "svc_PayCallback ev now no u payTime w = (w', res)" "ev_db ev = ops" "orders_ok (view (w_db w))"
  shows "grows_ok view w w'"
proof -
  obtain w1 r1 where q: "on_db (GetOrderByOrderNo ops (ev_shards ev) no u) w = (w1, r1)"
    by fastforce
  have v1: "view (w_db w1) = view (w_db w)"
    by (rule get_order(1) [OF on_dbD [OF q]])
  show ?thesis
  proof (cases "\<exists>r. r1 = Inr r \<and> o_status r = Pending")
    case False
    then show ?thesis
      using assms q v1 by (auto simp: svc_PayCallback_def split: sum.splits intro: grows_ok_refl)
  next
    case True
    then obtain r where r: "r1 = Inr r" "o_status r = Pending" by blast
    obtain w2 r2 where c: "on_db (UpdateOrderStatusWithPayTime ops now (ev_shards ev) no u Paid (Some payTime)) w1 = (w2, r2)"
      by fastforce
    have "grows_ok view w w2"
      using read_update [OF assms(3) on_dbD [OF q [unfolded r(1)]] _ on_dbD [OF c, unfolded UpdateOrderStatusWithPayTime_def],
          of Paid] r(2)
      by (simp add: grows_ok_def order_evolves_def)
    then show ?thesis
      using assms(1,2) q r c by (auto simp: svc_PayCallback_def split: sum.splits)
  qed
qed

lemma refund_grows:
  assumes "svc_Refund ev now no u reason w = (w', res)" "ev_db ev = ops" "orders_ok (view (w_db w))"
  shows "grows_ok view w w'"
proof -
  obtain w1 r1 where q: "on_db (GetOrderByOrderNo ops (ev_shards ev) no u) w = (w1, r1)"
    by fastforce
  have v1: "view (w_db w1) = view (w_db w)"
    by (rule get_order(1) [OF on_dbD [OF q]])
  show ?thesis
  proof (cases "\<exists>r. r1 = Inr r \<and> o_status r = Paid")
    case False
    then show ?thesis
      using assms q v1 by (auto simp: svc_Refund_def split: sum.splits intro: grows_ok_refl)
  next
    case True
    then obtain r where r: "r1 = Inr r" "o_status r = Paid" by blast
    obtain w2 r2 where c: "on_db (UpdateOrderStatusWithPayTime ops now (ev_shards ev) no u Refunded None) w1 = (w2, r2)"
      by fastforce
    have "grows_ok view w w2"
      using read_update [OF assms(3) on_dbD [OF q [unfolded r(1)]] _ on_dbD [OF c, unfolded UpdateOrderStatusWithPayTime_def],
          of Refunded] r(2)
      by (simp add: grows_ok_def order_evolves_def)
    then show ?thesis
      using assms(1,2) q r c give_back_keeps_orders [OF assms(2)]
      by (auto simp: svc_Refund_def intro: grows_ok_then split: sum.splits)
  qed
qed

lemma timeout_grows:
  assumes "svc_ProcessTimeoutOrder ev now msg w = (w', res)" "ev_db ev = ops" "orders_ok (view (w_db w))"
  shows "grows_ok view w w'"
proof (cases "\<exists>no u p q. get_string msg ''order_no'' = Inr no \<and> get_float msg ''user_id'' = Inr u \<and>
    get_float msg ''product_id'' = Inr p \<and> get_float msg ''quantity'' = Inr q")
  case False
  then show ?thesis
    using assms(1,3) by (auto simp: svc_ProcessTimeoutOrder_def intro: grows_ok_refl split: sum.splits)
next
  case True
  then obtain no uf pf qf where m: "get_string msg ''order_no'' = Inr no" "get_float msg ''user_id'' = Inr uf"
    "get_float msg ''product_id'' = Inr pf" "get_float msg ''quantity'' = Inr qf"
    by blast
  let ?u = "float_to_int uf" and ?p = "float_to_int pf" and ?q = "float_to_int qf"
  obtain w1 r1 where q: "on_db (GetOrderByOrderNo ops (ev_shards ev) no ?u) w = (w1, r1)"
    by fastforce
  have v1: "view (w_db w1) = view (w_db w)"
    by (rule get_order(1) [OF on_dbD [OF q]])
  show ?thesis
  proof (cases "\<exists>r. r1 = Inr r \<and> o_status r = Pending")
    case False
    then show ?thesis
      using assms q v1 m by (auto simp: svc_ProcessTimeoutOrder_def Let_def split: sum.splits intro: grows_ok_refl)
  next
    case True
    then obtain r where r: "r1 = Inr r" "o_status r = Pending" by blast
    obtain w2 r2 where c: "on_db (CancelOrderWithStatus ops now (ev_shards ev) no ?u ''payment timeout'' Timeout) w1 = (w2, r2)"
      by fastforce
    have g2: "grows_ok view w w2"
      using read_update [OF assms(3) on_dbD [OF q [unfolded r(1)]] _ on_dbD [OF c, unfolded CancelOrderWithStatus_def],
          of Timeout] r(2)
      by (simp add: grows_ok_def order_evolves_def)
    obtain w3 r3 where b: "on_db (RollbackProductStock ops now ?p ?q) w2 = (w3, r3)"
      by fastforce
    have g3: "grows_ok view w w3"
      by (rule grows_ok_then [OF g2 rollback_keeps_orders [OF on_dbD [OF b]]])
    have "w' = w2 \<or> w' = w3 \<or> w_db w' = w_db w3"
      using assms(1,2) m q r c b
      by (cases r2; cases r3) (auto simp: svc_ProcessTimeoutOrder_def Let_def)
    then show ?thesis
      using g2 g3 by (auto intro: grows_ok_then)
  qed
qed

lemma order_call_grows:
  assumes "order_call ev w w'" "ev_db ev = ops" "orders_ok (view (w_db w))"
  shows "grows_ok view w w'"
  using assms(1)
proof cases
  case elsewhere
  with assms(3) show ?thesis by (simp add: grows_ok_refl)
qed (rule create_grows [OF _ assms(2,3)] cancel_grows [OF _ assms(2,3)] timeout_grows [OF _ assms(2,3)]
    pay_grows [OF _ assms(2,3)] refund_grows [OF _ assms(2,3)], assumption)+

lemma order_calls_grow:
  assumes "(order_call ev)\<^sup>*\<^sup>* w w'" "ev_db ev = ops" "orders_ok (view (w_db w))"
  shows "grows_ok view w w'"
  using assms(1)
proof induction
  case base
  with assms(3) show ?case by (simp add: grows_ok_refl)
next
  case (step w1 w2)
  then have "grows_ok view w1 w2"
    using order_call_grows [OF step(2) assms(2)] by (simp add: grows_ok_def)
  with step show ?case
    unfolding grows_ok_def by (blast intro: orders_evolve_trans)
qed

end

text \<open>
  C15. The life of an order. Whatever sequence of calls of the order service runs (creation,
  cancellation, timeout, payment callback, refund, with any arguments and any database faults),
  the order rows that existed keep their place, number, user, product, price, quantity and
  creation time, their status only moves along Pending to Paid, Cancelled or Timeout and Paid to
  Refunded, and order numbers stay unique in every table.
\<close>

theorem order_lifecycle:
  assumes "db_server (ev_db ev) view" "(order_call ev)\<^sup>*\<^sup>* w w'" "orders_ok (view (w_db w))"
  shows "orders_evolve (view (w_db w)) (view (w_db w')) \<and> orders_ok (view (w_db w'))"
  using db_server.order_calls_grow [OF assms(1,2) refl assms(3)] by (simp add: grows_ok_def)

text \<open>A run on the demo deployment: one order of two units, created at time 5.\<close>

definition demo_row :: "string \<Rightarrow> int \<Rightarrow> int \<Rightarrow> order" where
  "demo_row no q now = \<lparr>o_id = 1, o_order_no = no, o_user_id = 7, o_product_id = 1, o_product_name = ''phone'',
     o_seckill_price = 20, o_quantity = q, o_total_amount = 40, o_status = Pending, o_pay_time = None,
     o_cancel_time = None, o_cancel_reason = [], o_created_at = now, o_updated_at = now\<rparr>"

definition demo_db_with :: "order list \<Rightarrow> product \<Rightarrow> database" where
  "demo_db_with rs x = demo_db\<lparr>db_orders := (db_orders demo_db)(''t_order_7'' := \<lparr>t_rows = rs, t_next = 2\<rparr>),
     db_products := (db_products demo_db)\<lparr>t_rows := [x]\<rparr>\<rparr>"

lemma demo_parse:
  "parse_order_msg (demo_order_msg no (rat_of_int q)) = Inr \<lparr>om_order_no = no, om_user_id = 7, om_product_id = 1,
     om_product_name = ''phone'', om_seckill_price = 20, om_quantity = q, om_total_amount = 40\<rparr>"
  by (simp add: parse_order_msg_def demo_order_msg_def get_string_def get_float_def float_to_int_def)

lemma demo_get: "GetOrderByOrderNo plain_ops 16 no 7 demo_db = (demo_db, Inl RecordNotFound)"
  by (simp add: GetOrderByOrderNo_def exec_order_def matching_def demo_db_def empty_table_def fun_upd_idem)

lemma demo_db_frame [simp]:
  "db_orders (demo_db_with rs x) ''t_order_7'' = \<lparr>t_rows = rs, t_next = 2\<rparr>"
  "t_rows (db_products (demo_db_with rs x)) = [x]"
  by (simp_all add: demo_db_with_def)

lemma demo_create_row:
  assumes "now \<noteq> 0" "q \<noteq> 0"
  shows "Dao.CreateOrder plain_ops now 16 (order_of_msg \<lparr>om_order_no = no, om_user_id = 7, om_product_id = 1,
     om_product_name = ''phone'', om_seckill_price = 20, om_quantity = q, om_total_amount = 40\<rparr>) demo_db =
     (demo_db_with [demo_row no q now] demo_product, Inr ())"
  using assms exec_create_order [of "order_of_msg \<lparr>om_order_no = no, om_user_id = 7, om_product_id = 1,
     om_product_name = ''phone'', om_seckill_price = 20, om_quantity = q, om_total_amount = 40\<rparr>" 16 now demo_db]
  by (simp add: Dao.CreateOrder_def order_of_msg_def demo_db_def demo_db_with_def empty_table_def new_order_def
      or_default_def demo_row_def)

definition demo_taken :: "int \<Rightarrow> int \<Rightarrow> product" where
  "demo_taken q now = demo_product\<lparr>p_remain_stock := 10 - q, p_updated_at := now\<rparr>"

lemma demo_deduct:
  assumes "q \<le> 10" "now \<noteq> 0"
  shows "DeductProductStock plain_ops now 1 q (demo_db_with rs demo_product) = (demo_db_with rs (demo_taken q now), Inr ())"
proof -
  have "demo_taken q now \<noteq> demo_product"
    using assms(2) by (simp add: demo_taken_def demo_product_def)
  with assms(1) show ?thesis
    by (simp add: DeductProductStock_def deduct_stmt_def exec_product_def product_schema_def selected_def demo_db_with_def
      demo_taken_def demo_product_def)
qed

definition demo_created :: "(faulty_server, database, demo_broker) world" where
  "demo_created = on_mon IncOrderCreated (demo_world\<lparr>w_db := demo_db_with [demo_row ''A1'' 2 5] (demo_taken 2 5)\<rparr>)"

lemma demo_create_run: "svc_CreateOrder demo_env 5 (demo_order_msg ''A1'' (rat_of_int 2)) demo_world = (demo_created, Inr ())"
  unfolding svc_CreateOrder_def demo_parse
  by (simp add: on_db_def demo_get demo_create_row demo_deduct demo_created_def)

theorem order_lifecycle_witness:
  "\<exists>w w'. svc_CreateOrder demo_env 5 (demo_order_msg ''A1'' (rat_of_int 2)) demo_world = (w, Inr ()) \<and>
     svc_PayCallback demo_env 6 ''A1'' 7 6 w = (w', Inr ()) \<and> orders_ok (w_db w') \<and>
     orders_evolve (w_db w) (w_db w') \<and>
     map o_status (t_rows (db_orders (w_db w) ''t_order_7'')) = [Pending] \<and>
     map o_status (t_rows (db_orders (w_db w') ''t_order_7'')) = [Paid]"
proof -
  obtain w' where w': "svc_PayCallback demo_env 6 ''A1'' 7 6 demo_created = (w', Inr ())"
    "map o_status (t_rows (db_orders (w_db w') ''t_order_7'')) = [Paid]"
    by (simp add: svc_PayCallback_def on_db_def demo_created_def GetOrderByOrderNo_def exec_order_def matching_def
        selected_def order_schema_def demo_row_def UpdateOrderStatusWithPayTime_def update_order_def)
  have ok: "orders_ok (id (w_db demo_created))"
    by (simp add: orders_ok_def demo_created_def demo_db_with_def demo_db_def empty_table_def)
  have "(order_call demo_env)\<^sup>*\<^sup>* demo_created w'"
    by (rule r_into_rtranclp) (rule order_call.pay [OF w'(1)])
  then have "orders_evolve (id (w_db demo_created)) (id (w_db w')) \<and> orders_ok (id (w_db w'))"
    using ok plain_mysql.db_server_axioms order_lifecycle [of demo_env id demo_created w'] by simp
  moreover have "map o_status (t_rows (db_orders (w_db demo_created) ''t_order_7'')) = [Pending]"
    by (simp add: demo_created_def demo_row_def)
  ultimately show ?thesis
    using w' demo_create_run by (intro exI [of _ demo_created] exI [of _ w']) simp
qed

end
