(* ===== verification/Order_Stock.thy ===== *)
theory Order_Stock
  imports Order_Lifecycle Reliable_Db
begin

text \<open>
  Conservation of the MySQL stock by the order service when the database answers every
  statement, and what breaks it: the partial failures of \<open>CreateOrder\<close> and the interleaving of
  two calls on one order.
\<close>

section \<open>Stock and active orders\<close>

definition live_product :: "int \<Rightarrow> product \<Rightarrow> bool" where
  "live_product p x \<longleftrightarrow> p_id x = p \<and> p_deleted_at x = None"

definition remaining :: "database \<Rightarrow> int \<Rightarrow> int" where
  "remaining v p = sum_list (map p_remain_stock (filter (live_product p) (t_rows (db_products v))))"

text \<open>The product exists, once.\<close>

definition has_product :: "database \<Rightarrow> int \<Rightarrow> bool" where
  "has_product v p \<longleftrightarrow> length (filter (live_product p) (t_rows (db_products v))) = 1"

definition holds :: "int \<Rightarrow> order \<Rightarrow> int" where
  "holds p r = (if o_product_id r = p \<and> (o_status r = Pending \<or> o_status r = Paid) then o_quantity r else 0)"

definition active :: "database \<Rightarrow> int \<Rightarrow> int" where
  "active v p = (\<Sum>n \<in> order_tables. sum_list (map (holds p) (t_rows (db_orders v n))))"

definition balance :: "database \<Rightarrow> int \<Rightarrow> int" where
  "balance v p = remaining v p + active v p"

lemma finite_order_tables [simp]: "finite order_tables"
  by (simp add: order_tables_def)

lemma sum_list_update_unique:
  fixes g :: "'a \<Rightarrow> int"
  assumes "distinct (map key xs)" "r \<in> set xs"
  shows "sum_list (map (\<lambda>x. g (if key x = key r then f x else x)) xs) = sum_list (map g xs) - g r + g (f r)"
  using assms
proof (induction xs)
  case (Cons a xs)
  show ?case
  proof (cases "a = r")
    case True
    have "key x \<noteq> key r" if "x \<in> set xs" for x
    proof
      assume "key x = key r"
      with that have "key a \<in> key ` set xs"
        using True by (metis imageI)
      with Cons.prems(1) show False by simp
    qed
    then have "map (\<lambda>x. g (if key x = key r then f x else x)) xs = map g xs"
      by (simp cong: map_cong)
    then have "sum_list (map (\<lambda>x. g (if key x = key r then f x else x)) xs) = sum_list (map g xs)"
      by (rule arg_cong)
    with True show ?thesis by simp
  next
    case False
    then have "r \<in> set xs"
      using Cons.prems(2) by simp
    then have "key a \<noteq> key r"
      using Cons.prems(1) by auto
    with Cons \<open>r \<in> set xs\<close> show ?thesis by simp
  qed
qed simp

lemma active_update_table:
  assumes "n \<in> order_tables"
  shows "active (v\<lparr>db_orders := (db_orders v)(n := t)\<rparr>) p =
    active v p - sum_list (map (holds p) (t_rows (db_orders v n))) + sum_list (map (holds p) (t_rows t))"
proof -
  have "(\<Sum>m \<in> order_tables. sum_list (map (holds p) (t_rows (((db_orders v)(n := t)) m)))) =
      sum_list (map (holds p) (t_rows t)) +
      (\<Sum>m \<in> order_tables - {n}. sum_list (map (holds p) (t_rows (db_orders v m))))"
    using assms by (simp add: sum.remove)
  moreover have "active v p = sum_list (map (holds p) (t_rows (db_orders v n))) +
      (\<Sum>m \<in> order_tables - {n}. sum_list (map (holds p) (t_rows (db_orders v m))))"
    unfolding active_def using assms by (simp add: sum.remove)
  ultimately show ?thesis
    by (simp add: active_def)
qed

lemma active_map_rows:
  assumes "n \<in> order_tables" "orders_ok v" "r \<in> set (t_rows (db_orders v n))" "o_order_no r = no"
  shows "active (map_rows n (\<lambda>x. o_order_no x = no) f v) p = active v p - holds p r + holds p (f r)"
proof -
  have "sum_list (map (\<lambda>x. holds p (if o_order_no x = o_order_no r then f x else x)) (t_rows (db_orders v n))) =
      sum_list (map (holds p) (t_rows (db_orders v n))) - holds p r + holds p (f r)"
    by (rule sum_list_update_unique) (use assms in \<open>auto simp: orders_ok_def\<close>)
  then show ?thesis
    using assms(1,4) by (simp add: map_rows_def active_update_table comp_def)
qed

lemma active_cong: "db_orders v' = db_orders v \<Longrightarrow> active v' p = active v p"
  by (simp add: active_def)

lemma remaining_cong: "db_products v' = db_products v \<Longrightarrow> remaining v' p = remaining v p"
  by (simp add: remaining_def)

section \<open>Stock updates\<close>

definition add_stock :: "int \<Rightarrow> int \<Rightarrow> int \<Rightarrow> database \<Rightarrow> database" where
  "add_stock now p q v = v\<lparr>db_products := (db_products v)\<lparr>t_rows :=
     map (\<lambda>x. if live_product p x then x\<lparr>p_remain_stock := p_remain_stock x + q, p_updated_at := now\<rparr> else x)
       (t_rows (db_products v))\<rparr>\<rparr>"

lemma filter_map_keep:
  "(\<And>x. P (f x) = P x) \<Longrightarrow> filter P (map f xs) = map f (filter P xs)"
  by (induction xs) auto

lemma add_stock_filter:
  "filter (live_product p') (t_rows (db_products (add_stock now p q v))) =
    map (\<lambda>x. if live_product p x then x\<lparr>p_remain_stock := p_remain_stock x + q, p_updated_at := now\<rparr> else x)
      (filter (live_product p') (t_rows (db_products v)))"
  by (simp add: add_stock_def) (rule filter_map_keep, simp add: live_product_def)

lemma has_product_add [simp]: "has_product (add_stock now p q v) p' = has_product v p'"
  by (simp add: has_product_def add_stock_filter)

lemma remaining_add:
  assumes "has_product v p'"
  shows "remaining (add_stock now p q v) p' = remaining v p' + (if p' = p then q else 0)"
proof -
  obtain x where x: "filter (live_product p') (t_rows (db_products v)) = [x]"
    using assms by (auto simp: has_product_def length_Suc_conv)
  then have "live_product p' x"
    by (metis filter_eq_ConsD)
  then show ?thesis
    by (auto simp: remaining_def add_stock_filter x live_product_def)
qed

lemma add_stock_orders [simp]: "db_orders (add_stock now p q v) = db_orders v"
  by (simp add: add_stock_def)

context reliable_db
begin

lemma rollback_adds:
  assumes "RollbackProductStock ops now p q d = (d', res)"
  shows "view d' = add_stock now p q (view d)" "res = Inr ()"
proof -
  obtain a where a: "on_product ops (Update (\<lambda>x. p_id x = p)
      (\<lambda>x. x\<lparr>p_remain_stock := p_remain_stock x + q, p_updated_at := now\<rparr>)) d = (d', a)"
    and res: "res = answer_unit a"
    using assms by (auto simp: RollbackProductStock_def split: prod.splits)
  from product_answers [OF a]
  have "view d' = add_stock now p q (view d)" "\<exists>k. a = Affected k"
    by (auto simp: exec_product_def product_schema_def selected_def add_stock_def live_product_def
        intro!: map_cong)
  with res show "view d' = add_stock now p q (view d)" "res = Inr ()" by auto
qed

text \<open>A deduction that succeeds takes the quantity from the one product row.\<close>

lemma deduct_takes:
  assumes "DeductProductStock ops now p q d = (d', res)" "has_product (view d) p'" "q \<noteq> 0"
  shows "has_product (view d') p'" "db_orders (view d') = db_orders (view d)"
    "res = Inr () \<Longrightarrow> remaining (view d') p' = remaining (view d) p' - (if p' = p then q else 0)"
    "res \<noteq> Inr () \<Longrightarrow> remaining (view d') p' = remaining (view d) p'"
proof -
  let ?P = "\<lambda>x. live_product p x \<and> q \<le> p_remain_stock x"
  let ?f = "\<lambda>x. x\<lparr>p_remain_stock := p_remain_stock x - q, p_updated_at := now\<rparr>"
  let ?rows = "t_rows (db_products (view d))"
  obtain a where a: "on_product ops (deduct_stmt now p q) d = (d', a)"
    and res: "res = (case answer_affected a of Inl e \<Rightarrow> Inl e
         | Inr n \<Rightarrow> if n = 0 then Inl (Errf ''out of stock'') else Inr ())"
    using assms(1) by (auto simp: DeductProductStock_def split: prod.splits)
  have changed: "?f x \<noteq> x" for x
  proof
    assume "?f x = x"
    then have "p_remain_stock (?f x) = p_remain_stock x" by (rule arg_cong)
    with assms(3) show False by simp
  qed
  have sel: "selected product_schema (\<lambda>x. p_id x = p \<and> q \<le> p_remain_stock x) = ?P"
    by (rule ext) (auto simp: selected_def product_schema_def live_product_def)
  from product_answers [OF a]
  have v: "view d' = (view d)\<lparr>db_products := (db_products (view d))
      \<lparr>t_rows := map (\<lambda>x. if ?P x then ?f x else x) ?rows\<rparr>\<rparr>"
    and n: "a = Affected (int (length (filter ?P ?rows)))"
    by (simp_all add: exec_product_def deduct_stmt_def sel changed)
  show "db_orders (view d') = db_orders (view d)"
    by (simp add: v)
  have keep: "filter (live_product p') (map (\<lambda>x. if ?P x then ?f x else x) ?rows) =
      map (\<lambda>x. if ?P x then ?f x else x) (filter (live_product p') ?rows)" for p'
    by (rule filter_map_keep) (simp add: live_product_def)
  obtain x where x: "filter (live_product p') ?rows = [x]"
    using assms(2) by (auto simp: has_product_def length_Suc_conv)
  then have lx: "live_product p' x"
    by (metis filter_eq_ConsD)
  show "has_product (view d') p'"
    using x by (simp add: has_product_def v keep)
  have rem: "remaining (view d') p' = p_remain_stock (if ?P x then ?f x else x)" "remaining (view d) p' = p_remain_stock x"
    by (simp_all add: remaining_def v keep x)
  have count: "length (filter ?P ?rows) = (if ?P x then 1 else 0)" if "p' = p"
  proof -
    have "filter ?P ?rows = filter (\<lambda>x. q \<le> p_remain_stock x) (filter (live_product p) ?rows)"
      by (simp add: conj_commute)
    also have "\<dots> = filter (\<lambda>x. q \<le> p_remain_stock x) [x]"
      using x that by simp
    finally show ?thesis using lx that by simp
  qed
  have ok: "res = Inr () \<longleftrightarrow> length (filter ?P ?rows) \<noteq> 0"
    using res n by simp
  show "remaining (view d') p' = remaining (view d) p' - (if p' = p then q else 0)" if "res = Inr ()"
  proof (cases "p' = p")
    case True
    with that ok have "?P x"
      using count by (metis (no_types, lifting))
    with True rem show ?thesis by simp
  next
    case False
    with lx rem show ?thesis by (auto simp: live_product_def)
  qed
  show "remaining (view d') p' = remaining (view d) p'" if "res \<noteq> Inr ()"
  proof (cases "p' = p")
    case True
    with that ok have "\<not> ?P x"
      using count by (metis (no_types, lifting) zero_neq_one)
    with True rem show ?thesis by simp
  next
    case False
    with lx rem show ?thesis by (auto simp: live_product_def)
  qed
qed

end

section \<open>One status update\<close>

context reliable_db
begin

lemma update_answered:
  assumes "update_order ops shards no u f d = (d', res)"
  obtains (same) e where "res = Inl e" "view d' = view d" "GetOrderTableName u shards \<notin> order_tables"
  | (updated) "res = Inr ()" "GetOrderTableName u shards \<in> order_tables"
      "view d' = map_rows (GetOrderTableName u shards) (\<lambda>r. o_order_no r = no) f (view d)"
proof -
  let ?t = "GetOrderTableName u shards" and ?st = "Update (\<lambda>r. o_order_no r = no) f"
  obtain a where a: "on_order ops ?t ?st d = (d', a)" and res: "res = answer_unit a"
    using assms by (auto simp: update_order_def split: prod.splits)
  note e = order_answers [OF a]
  show thesis
  proof (cases "?t \<in> order_tables")
    case False
    with e res same show ?thesis by (auto simp: exec_order_def)
  next
    case True
    have "view d' = fst (exec_order ?t ?st (view d))" "a = snd (exec_order ?t ?st (view d))"
      using e by (metis fst_conv, metis snd_conv)
    moreover have "answer_unit (snd (exec_order ?t ?st (view d))) = Inr ()"
      using True by (simp add: exec_order_def)
    ultimately show ?thesis
      using updated True res exec_order_update [OF True] by simp
  qed
qed

lemma read_update_active:
  assumes "orders_ok (view d)"
    and "GetOrderByOrderNo ops shards no u d = (d1, Inr r)"
    and "update_order ops shards no u f d1 = (d2, res)"
  obtains (same) e where "res = Inl e" "view d2 = view d"
  | (updated) "res = Inr ()" "db_products (view d2) = db_products (view d)"
      "\<And>p. active (view d2) p = active (view d) p - holds p r + holds p (f r)"
proof -
  note read = get_order [OF assms(2)]
  have r: "r \<in> set (t_rows (db_orders (view d) (GetOrderTableName u shards)))" "o_order_no r = no"
    using read(2) [OF refl] by simp_all
  from assms(3) show thesis
  proof (cases rule: update_answered)
    case (same e)
    with read(1) that(1) show ?thesis by simp
  next
    case u: updated
    have "active (view d2) p = active (view d) p - holds p r + holds p (f r)" for p
      unfolding u(3) read(1) by (rule active_map_rows [OF u(2) assms(1) r])
    moreover have "db_products (view d2) = db_products (view d)"
      unfolding u(3) read(1) by (simp add: map_rows_def)
    ultimately show ?thesis
      using that(2) u(1) by simp
  qed
qed

lemma give_back_adds:
  assumes "ev_db ev = ops"
  shows "view (w_db (give_back_all ev now u p q w)) = add_stock now p q (view (w_db w))"
proof -
  obtain w1 res where b: "on_db (RollbackProductStock ops now p q) w = (w1, res)"
    by fastforce
  have "view (w_db w1) = add_stock now p q (view (w_db w))"
    by (rule rollback_adds(1) [OF on_dbD [OF b]])
  then show ?thesis
    using b assms by (simp add: give_back_all_def)
qed

end

section \<open>The balance of a call\<close>

definition balanced :: "int \<Rightarrow> database \<Rightarrow> database \<Rightarrow> bool" where
  "balanced p v v' \<longleftrightarrow> has_product v' p \<and> balance v' p = balance v p"

lemma balanced_same: "has_product v p \<Longrightarrow> v' = v \<Longrightarrow> balanced p v v'"
  by (simp add: balanced_def)

lemma has_product_cong: "db_products v' = db_products v \<Longrightarrow> has_product v' p = has_product v p"
  by (simp add: has_product_def)

lemma balanced_status:
  assumes "has_product v p" "db_products v' = db_products v" "active v' p = active v p"
  shows "balanced p v v'"
  using assms(1,3) by (simp add: balanced_def balance_def has_product_cong [OF assms(2)] remaining_cong [OF assms(2)])

lemma balanced_give_back:
  assumes "has_product v p" "db_products v1 = db_products v"
    and "active v1 p = active v p - (if p = p' then q else 0)"
  shows "balanced p v (add_stock now p' q v1)"
proof -
  have v1: "has_product v1 p" "remaining v1 p = remaining v p"
    using assms(1) by (simp_all add: has_product_cong [OF assms(2)] remaining_cong [OF assms(2)])
  have "active (add_stock now p' q v1) p = active v1 p"
    by (rule active_cong) simp
  with v1 assms(3) show ?thesis
    by (simp add: balanced_def balance_def remaining_add)
qed

definition timeout_matches :: "('r, 'd, 'q) env \<Rightarrow> database \<Rightarrow> msg \<Rightarrow> bool" where
  "timeout_matches ev v m \<longleftrightarrow>
     (case (get_string m ''order_no'', get_float m ''user_id'', get_float m ''product_id'', get_float m ''quantity'') of
        (Inr no, Inr u, Inr p, Inr q) \<Rightarrow>
          (\<forall>r \<in> set (t_rows (db_orders v (GetOrderTableName (float_to_int u) (ev_shards ev)))).
             o_order_no r = no \<longrightarrow> o_product_id r = float_to_int p \<and> o_quantity r = float_to_int q)
      | _ \<Rightarrow> False)"

text \<open>
  The calls of the service that keep the balance: \<open>CreateOrder\<close> unless its stock deduction
  failed, and a timeout whose message carries the product and quantity of its order (the
  producer copies them from the order message).
\<close>

inductive stock_call ::
  "('r, 'd, 'q) env \<Rightarrow> ('d \<Rightarrow> database) \<Rightarrow> ('r, 'd, 'q) world \<Rightarrow> ('r, 'd, 'q) world \<Rightarrow> bool" for ev view where
  create: "svc_CreateOrder ev now m w = (w', res) \<Longrightarrow> (\<And>e. res \<noteq> Inl (Wrapf ''deduct mysql stock failed'' e)) \<Longrightarrow>
     (\<And>x. parse_order_msg m = Inr x \<Longrightarrow> om_quantity x \<noteq> 0) \<Longrightarrow> stock_call ev view w w'"
| cancel: "svc_CancelOrder ev now no u reason w = (w', res) \<Longrightarrow> stock_call ev view w w'"
| timeout: "svc_ProcessTimeoutOrder ev now m w = (w', res) \<Longrightarrow> timeout_matches ev (view (w_db w)) m \<Longrightarrow>
     stock_call ev view w w'"
| pay: "svc_PayCallback ev now no u payTime w = (w', res) \<Longrightarrow> stock_call ev view w w'"
| refund: "svc_Refund ev now no u reason w = (w', res) \<Longrightarrow> stock_call ev view w w'"
| elsewhere: "w_db w' = w_db w \<Longrightarrow> stock_call ev view w w'"

context reliable_db
begin

lemma cancel_balanced:
  assumes "svc_CancelOrder ev now no u reason w = (w', res)" "ev_db ev = ops" "orders_ok (view (w_db w))"
    "has_product (view (w_db w)) p"
  shows "balanced p (view (w_db w)) (view (w_db w'))"
proof -
  obtain w1 r1 where q: "on_db (GetOrderByOrderNo ops (ev_shards ev) no u) w = (w1, r1)"
    by fastforce
  have v1: "view (w_db w1) = view (w_db w)"
    by (rule get_order(1) [OF on_dbD [OF q]])
  show ?thesis
  proof (cases "\<exists>r. r1 = Inr r \<and> o_status r = Pending")
    case False
    then show ?thesis
      using assms q v1
      by (auto simp: svc_CancelOrder_def cancel_after_read_def split: sum.splits intro: balanced_same)
  next
    case True
    then obtain r where r: "r1 = Inr r" "o_status r = Pending" by blast
    obtain w2 r2 where c: "on_db (Dao.CancelOrder ops now (ev_shards ev) no u reason) w1 = (w2, r2)"
      by fastforce
    from assms(3) on_dbD [OF q [unfolded r(1)]] on_dbD [OF c, unfolded Dao.CancelOrder_def]
    show ?thesis
    proof (cases rule: read_update_active)
      case (same e)
      then show ?thesis
        using assms q r c by (auto simp: svc_CancelOrder_def cancel_after_read_def intro: balanced_same)
    next
      case updated
      have "w' = give_back_all ev now u (o_product_id r) (o_quantity r) w2"
        using assms(1,2) q r c updated(1) by (simp add: svc_CancelOrder_def cancel_after_read_def)
      then show ?thesis
        using balanced_give_back [OF assms(4) updated(2)] updated(3) [of p] r(2)
        by (simp add: give_back_adds [OF assms(2)] holds_def)
    qed
  qed
qed

lemma refund_balanced:
  assumes "svc_Refund ev now no u reason w = (w', res)" "ev_db ev = ops" "orders_ok (view (w_db w))"
    "has_product (view (w_db w)) p"
  shows "balanced p (view (w_db w)) (view (w_db w'))"
proof -
  obtain w1 r1 where q: "on_db (GetOrderByOrderNo ops (ev_shards ev) no u) w = (w1, r1)"
    by fastforce
  have v1: "view (w_db w1) = view (w_db w)"
    by (rule get_order(1) [OF on_dbD [OF q]])
  show ?thesis
  proof (cases "\<exists>r. r1 = Inr r \<and> o_status r = Paid")
    case False
    then show ?thesis
      using assms q v1 by (auto simp: svc_Refund_def split: sum.splits intro: balanced_same)
  next
    case True
    then obtain r where r: "r1 = Inr r" "o_status r = Paid" by blast
    obtain w2 r2 where c: "on_db (UpdateOrderStatusWithPayTime ops now (ev_shards ev) no u Refunded None) w1 = (w2, r2)"
      by fastforce
    from assms(3) on_dbD [OF q [unfolded r(1)]] on_dbD [OF c, unfolded UpdateOrderStatusWithPayTime_def]
    show ?thesis
    proof (cases rule: read_update_active)
      case (same e)
      then show ?thesis
        using assms q r c by (auto simp: svc_Refund_def intro: balanced_same)
    next
      case updated
      have "w' = give_back_all ev now u (o_product_id r) (o_quantity r) w2"
        using assms(1,2) q r c updated(1) by (simp add: svc_Refund_def)
      then show ?thesis
        using balanced_give_back [OF assms(4) updated(2)] updated(3) [of p] r(2)
        by (simp add: give_back_adds [OF assms(2)] holds_def)
    qed
  qed
qed

lemma pay_balanced:
  assumes "svc_PayCallback ev now no u payTime w = (w', res)" "ev_db ev = ops" "orders_ok (view (w_db w))"
    "has_product (view (w_db w)) p"
  shows "balanced p (view (w_db w)) (view (w_db w'))"
proof -
  obtain w1 r1 where q: "on_db (GetOrderByOrderNo ops (ev_shards ev) no u) w = (w1, r1)"
    by fastforce
  have v1: "view (w_db w1) = view (w_db w)"
    by (rule get_order(1) [OF on_dbD [OF q]])
  show ?thesis
  proof (cases "\<exists>r. r1 = Inr r \<and> o_status r = Pending")
    case False
    then show ?thesis
      using assms q v1 by (auto simp: svc_PayCallback_def split: sum.splits intro: balanced_same)
  next
    case True
    then obtain r where r: "r1 = Inr r" "o_status r = Pending" by blast
    obtain w2 r2 where c: "on_db (UpdateOrderStatusWithPayTime ops now (ev_shards ev) no u Paid (Some payTime)) w1 = (w2, r2)"
      by fastforce
    have w': "w' = w2"
      using assms(1,2) q r c by (auto simp: svc_PayCallback_def split: sum.splits)
    from assms(3) on_dbD [OF q [unfolded r(1)]] on_dbD [OF c, unfolded UpdateOrderStatusWithPayTime_def]
    show ?thesis
    proof (cases rule: read_update_active)
      case (same e)
      with assms(4) w' show ?thesis by (simp add: balanced_same)
    next
      case updated
      then show ?thesis
        using balanced_status [OF assms(4) updated(2)] updated(3) [of p] r(2) w' by (simp add: holds_def)
    qed
  qed
qed

lemma timeout_balanced:
  assumes "svc_ProcessTimeoutOrder ev now m w = (w', res)" "ev_db ev = ops" "orders_ok (view (w_db w))"
    "has_product (view (w_db w)) p" "timeout_matches ev (view (w_db w)) m"
  shows "balanced p (view (w_db w)) (view (w_db w'))"
proof -
  obtain no uf pf qf where m: "get_string m ''order_no'' = Inr no" "get_float m ''user_id'' = Inr uf"
    "get_float m ''product_id'' = Inr pf" "get_float m ''quantity'' = Inr qf"
    using assms(5) by (auto simp: timeout_matches_def split: sum.splits)
  let ?u = "float_to_int uf" and ?p = "float_to_int pf" and ?q = "float_to_int qf"
  obtain w1 r1 where q: "on_db (GetOrderByOrderNo ops (ev_shards ev) no ?u) w = (w1, r1)"
    by fastforce
  have v1: "view (w_db w1) = view (w_db w)"
    by (rule get_order(1) [OF on_dbD [OF q]])
  show ?thesis
  proof (cases "\<exists>r. r1 = Inr r \<and> o_status r = Pending")
    case False
    then show ?thesis
      using assms q v1 m by (auto simp: svc_ProcessTimeoutOrder_def Let_def split: sum.splits intro: balanced_same)
  next
    case True
    then obtain r where r: "r1 = Inr r" "o_status r = Pending" by blast
    have same: "o_product_id r = ?p" "o_quantity r = ?q"
      using get_order(2) [OF on_dbD [OF q] r(1)] assms(5) m v1 by (auto simp: timeout_matches_def)
    obtain w2 r2 where c: "on_db (CancelOrderWithStatus ops now (ev_shards ev) no ?u ''payment timeout'' Timeout) w1 = (w2, r2)"
      by fastforce
    from assms(3) on_dbD [OF q [unfolded r(1)]] on_dbD [OF c, unfolded CancelOrderWithStatus_def]
    show ?thesis
    proof (cases rule: read_update_active)
      case (same e)
      then show ?thesis
        using assms q r c m by (auto simp: svc_ProcessTimeoutOrder_def Let_def intro: balanced_same)
    next
      case updated
      obtain w3 r3 where b: "on_db (RollbackProductStock ops now ?p ?q) w2 = (w3, r3)"
        by fastforce
      note add = rollback_adds [OF on_dbD [OF b]]
      have "w_db w' = w_db w3"
        using assms(1,2) m q r c b updated(1) add(2) by (auto simp: svc_ProcessTimeoutOrder_def Let_def)
      then show ?thesis
        using balanced_give_back [OF assms(4) updated(2)] updated(3) [of p] r(2) add(1) same
        by (simp add: holds_def)
    qed
  qed
qed

lemma create_answered:
  assumes "Dao.CreateOrder ops now shards r d = (d', Inl e)"
  shows "view d' = view d"
proof -
  let ?t = "GetOrderTableName (o_user_id r) shards"
  obtain a where a: "on_order ops ?t (Create [new_order now r]) d = (d', a)" and res: "Inl e = answer_unit a"
    using assms by (auto simp: Dao.CreateOrder_def split: prod.splits)
  from order_answers [OF a] res show ?thesis
    unfolding exec_create_order by (auto split: if_splits)
qed

lemma create_active:
  assumes "Dao.CreateOrder ops now shards r d = (d', Inr ())"
  shows "active (view d') p = active (view d) p + holds p (new_order now r)"
    "db_products (view d') = db_products (view d)"
proof -
  let ?n = "GetOrderTableName (o_user_id r) shards"
  from assms obtain i k where n: "?n \<in> order_tables" and v: "view d' = (view d)\<lparr>db_orders := (db_orders (view d))
      (?n := \<lparr>t_rows = t_rows (db_orders (view d) ?n) @ [(new_order now r)\<lparr>o_id := i\<rparr>], t_next = k\<rparr>)\<rparr>"
    by (cases rule: create_order_cases) auto
  show "db_products (view d') = db_products (view d)"
    by (simp add: v)
  show "active (view d') p = active (view d) p + holds p (new_order now r)"
    unfolding v by (subst active_update_table [OF n]) (auto simp: holds_def)
qed

lemma parse_order_msg_panics: "parse_order_msg m = Inl e \<Longrightarrow> e = GoPanic"
  by (auto simp: parse_order_msg_def get_string_def get_float_def split: sum.splits option.splits json.splits)

lemma create_split:
  assumes "svc_CreateOrder ev now m w = (w', res)" "ev_db ev = ops"
  obtains (same) "view (w_db w') = view (w_db w)" "\<And>e. res \<noteq> Inl (Wrapf ''deduct mysql stock failed'' e)"
  | (created) x e d1 d2 r3 where "parse_order_msg m = Inr x"
      "GetOrderByOrderNo ops (ev_shards ev) (om_order_no x) (om_user_id x) (w_db w) = (d1, Inl e)"
      "view d1 = view (w_db w)"
      "Dao.CreateOrder ops now (ev_shards ev) (order_of_msg x) d1 = (d2, Inr ())"
      "DeductProductStock ops now (om_product_id x) (om_quantity x) d2 = (w_db w', r3)"
      "res = (case r3 of Inl e \<Rightarrow> Inl (Wrapf ''deduct mysql stock failed'' e) | Inr _ \<Rightarrow> Inr ())"
proof (cases "parse_order_msg m")
  case (Inl e)
  then have "w' = w" "res = Inl e" "\<And>e'. e \<noteq> Wrapf ''deduct mysql stock failed'' e'"
    using assms(1) by (auto simp: svc_CreateOrder_def dest: parse_order_msg_panics)
  with same show thesis by auto
next
  case x: (Inr x)
  obtain w1 ex where q: "on_db (GetOrderByOrderNo ops (ev_shards ev) (om_order_no x) (om_user_id x)) w = (w1, ex)"
    by fastforce
  have v1: "view (w_db w1) = view (w_db w)"
    by (rule get_order(1) [OF on_dbD [OF q]])
  obtain w2 c where c: "on_db (Dao.CreateOrder ops now (ev_shards ev) (order_of_msg x)) w1 = (w2, c)"
    by fastforce
  obtain w3 r3 where d: "on_db (DeductProductStock ops now (om_product_id x) (om_quantity x)) w2 = (w3, r3)"
    by fastforce
  show thesis
  proof (cases ex)
    case (Inr r)
    with assms x q v1 same show thesis by (auto simp: svc_CreateOrder_def)
  next
    case ex: (Inl e)
    show thesis
    proof (cases c)
      case (Inl e')
      then have "view (w_db w2) = view (w_db w)"
        using create_answered [OF on_dbD [OF c [unfolded Inl]]] v1 by simp
      with assms x q ex c Inl same show thesis by (auto simp: svc_CreateOrder_def)
    next
      case (Inr u)
      have "w_db w' = w_db w3" "res = (case r3 of Inl e \<Rightarrow> Inl (Wrapf ''deduct mysql stock failed'' e) | Inr _ \<Rightarrow> Inr ())"
        using assms x q ex c d Inr by (auto simp: svc_CreateOrder_def split: sum.splits)
      with created [OF x on_dbD [OF q [unfolded ex]] v1] on_dbD [OF c] on_dbD [OF d] Inr show thesis
        by simp
    qed
  qed
qed

lemma create_balanced:
  assumes "svc_CreateOrder ev now m w = (w', res)" "ev_db ev = ops" "has_product (view (w_db w)) p"
    "\<And>e. res \<noteq> Inl (Wrapf ''deduct mysql stock failed'' e)"
    "\<And>x. parse_order_msg m = Inr x \<Longrightarrow> om_quantity x \<noteq> 0"
  shows "balanced p (view (w_db w)) (view (w_db w'))"
  using assms(1,2)
proof (cases rule: create_split)
  case same
  with assms(3) show ?thesis by (simp add: balanced_same)
next
  case (created x e d1 d2 r3)
  have q: "om_quantity x \<noteq> 0"
    by (rule assms(5) [OF created(1)])
  have r3: "r3 = Inr ()"
    using created(6) assms(4) by (cases r3) auto
  note c = create_active(1) [OF created(4), of p] create_active(2) [OF created(4)]
  have has2: "has_product (view d2) p"
    using assms(3) by (simp add: has_product_cong [OF c(2)] created(3))
  note t = deduct_takes [OF created(5) has2 q]
  have "active (view (w_db w')) p = active (view d2) p"
    by (rule active_cong [OF t(2)])
  then show ?thesis
    using t(1) t(3) [OF r3] c(1) remaining_cong [OF c(2), of p] q
    by (simp add: balanced_def balance_def created(3) holds_def new_order_def order_of_msg_def or_default_def)
qed

lemma stock_call_balanced:
  assumes "stock_call ev view w w'" "ev_db ev = ops" "orders_ok (view (w_db w))" "has_product (view (w_db w)) p"
  shows "balanced p (view (w_db w)) (view (w_db w'))"
  using assms(1)
proof cases
  case elsewhere
  with assms(4) show ?thesis by (simp add: balanced_same)
next
  case (create now m res)
  show ?thesis by (rule create_balanced [OF create(1) assms(2,4) create(2,3)])
next
  case (timeout now m res)
  show ?thesis by (rule timeout_balanced [OF timeout(1) assms(2-4) timeout(2)])
qed (rule cancel_balanced [OF _ assms(2-4)] pay_balanced [OF _ assms(2-4)] refund_balanced [OF _ assms(2-4)],
    assumption)+

lemma stock_call_order_call: "stock_call ev view w w' \<Longrightarrow> order_call ev w w'"
  by (induction rule: stock_call.induct) (auto intro: order_call.intros)

lemma stock_calls_balanced:
  assumes "(stock_call ev view)\<^sup>*\<^sup>* w w'" "ev_db ev = ops" "orders_ok (view (w_db w))" "has_product (view (w_db w)) p"
  shows "balanced p (view (w_db w)) (view (w_db w')) \<and> orders_ok (view (w_db w'))"
  using assms(1)
proof induction
  case base
  with assms(3,4) show ?case by (simp add: balanced_same)
next
  case (step w1 w2)
  then have "has_product (view (w_db w1)) p" "orders_ok (view (w_db w1))"
    by (simp_all add: balanced_def)
  then show ?case
    using stock_call_balanced [OF step(2) assms(2)] order_call_grows [OF stock_call_order_call [OF step(2)] assms(2)] step(3)
    by (simp add: balanced_def grows_ok_def)
qed

end

context reliable_db
begin

lemma get_present:
  assumes "r \<in> set (t_rows (db_orders (view d) (GetOrderTableName u shards)))" "o_order_no r = no"
    "GetOrderTableName u shards \<in> order_tables" "GetOrderByOrderNo ops shards no u d = (d', res)"
  shows "\<exists>r'. res = Inr r'"
proof -
  let ?t = "GetOrderTableName u shards"
  obtain a where a: "on_order ops ?t (First (\<lambda>r. o_order_no r = no)) d = (d', a)" and res: "res = answer_row a"
    using assms(4) by (auto simp: GetOrderByOrderNo_def split: prod.splits)
  have "r \<in> set (matching order_schema (db_orders (view d) ?t) (\<lambda>r. o_order_no r = no))"
    using assms(1,2) by (simp add: selected_def order_schema_def)
  then obtain y ys where "matching order_schema (db_orders (view d) ?t) (\<lambda>r. o_order_no r = no) = y # ys"
    by (metis list.set_cases)
  then show ?thesis
    using order_answers [OF a] res assms(3) by (simp add: exec_order_def)
qed

lemma create_retry:
  assumes "svc_CreateOrder ev now m w = (w1, Inl (Wrapf ''deduct mysql stock failed'' e))" "ev_db ev = ops"
    "parse_order_msg m = Inr x" "om_quantity x \<noteq> 0" "has_product (view (w_db w)) (om_product_id x)"
    "svc_CreateOrder ev now' m w1 = (w2, res)"
  shows "res = Inr () \<and> view (w_db w2) = view (w_db w1) \<and>
    remaining (view (w_db w2)) (om_product_id x) = remaining (view (w_db w)) (om_product_id x) \<and>
    active (view (w_db w2)) (om_product_id x) = active (view (w_db w)) (om_product_id x) + om_quantity x"
  using assms(1,2)
proof (cases rule: create_split)
  case (created y e0 d1 d2 r3)
  let ?p = "om_product_id x"
  have y: "y = x"
    using created(1) assms(3) by simp
  have r3: "r3 \<noteq> Inr ()"
    using created(6) by (auto split: sum.splits)
  note c = create_active(1) [OF created(4) [unfolded y], of ?p] create_active(2) [OF created(4)]
  have has2: "has_product (view d2) ?p"
    using assms(5) by (simp add: has_product_cong [OF c(2)] created(3))
  note t = deduct_takes [OF created(5) [unfolded y] has2 assms(4)]
  obtain i k where row: "db_orders (view (w_db w1)) (GetOrderTableName (om_user_id x) (ev_shards ev)) =
      \<lparr>t_rows = t_rows (db_orders (view d1) (GetOrderTableName (om_user_id x) (ev_shards ev))) @
        [(new_order now (order_of_msg x))\<lparr>o_id := i\<rparr>], t_next = k\<rparr>"
    "GetOrderTableName (om_user_id x) (ev_shards ev) \<in> order_tables"
    using created(4) [unfolded y] by (cases rule: create_order_cases) (auto simp: t(2) order_of_msg_def)
  obtain w3 ex where q: "on_db (GetOrderByOrderNo ops (ev_shards ev) (om_order_no x) (om_user_id x)) w1 = (w3, ex)"
    by fastforce
  have v3: "view (w_db w3) = view (w_db w1)"
    by (rule get_order(1) [OF on_dbD [OF q]])
  have "\<exists>r. ex = Inr r"
    by (rule get_present [OF _ _ row(2) on_dbD [OF q], of "(new_order now (order_of_msg x))\<lparr>o_id := i\<rparr>"])
      (simp_all add: row(1) new_order_def order_of_msg_def)
  then have w2: "w2 = w3" "res = Inr ()"
    using assms(6) q assms(2,3) by (auto simp: svc_CreateOrder_def)
  have "active (view (w_db w1)) ?p = active (view d2) ?p"
    by (rule active_cong [OF t(2)])
  then show ?thesis
    using w2 v3 t(4) [OF r3] c(1) remaining_cong [OF c(2), of ?p] assms(4)
    by (simp add: created(3) holds_def new_order_def order_of_msg_def or_default_def)
next
  case same
  from same(2) [of e] show ?thesis by simp
qed

lemma cancel_commits:
  assumes "cancel_after_read ev now no u reason (Inr r) w = (w', res)" "ev_db ev = ops" "o_status r = Pending"
    "GetOrderTableName u (ev_shards ev) \<in> order_tables" "has_product (view (w_db w)) (o_product_id r)"
  shows "res = Inr () \<and> has_product (view (w_db w')) (o_product_id r) \<and>
    remaining (view (w_db w')) (o_product_id r) = remaining (view (w_db w)) (o_product_id r) + o_quantity r"
proof -
  obtain w2 r2 where c: "on_db (Dao.CancelOrder ops now (ev_shards ev) no u reason) w = (w2, r2)"
    by fastforce
  from on_dbD [OF c, unfolded Dao.CancelOrder_def] show ?thesis
  proof (cases rule: update_answered)
    case (same e)
    with assms(4) show ?thesis by simp
  next
    case updated
    have p: "db_products (view (w_db w2)) = db_products (view (w_db w))"
      unfolding updated(3) by (simp add: map_rows_def)
    have "w' = give_back_all ev now u (o_product_id r) (o_quantity r) w2" "res = Inr ()"
      using assms(1-3) c updated(1) by (simp_all add: cancel_after_read_def)
    then show ?thesis
      using assms(5) has_product_cong [OF p, of "o_product_id r"] remaining_cong [OF p, of "o_product_id r"]
      by (simp add: give_back_adds [OF assms(2)] remaining_add)
  qed
qed

lemma double_cancel:
  assumes "ev_db ev = ops" "orders_ok (view (w_db w))" "has_product (view (w_db w)) (o_product_id r)"
    "on_db (GetOrderByOrderNo ops (ev_shards ev) no u) w = (w1, Inr r)" "o_status r = Pending"
    "on_db (GetOrderByOrderNo ops (ev_shards ev) no u) w1 = (w2, found)"
    "cancel_after_read ev now no u reason (Inr r) w2 = (w3, first)"
    "cancel_after_read ev now' no u reason' found w3 = (w4, second)"
  shows "first = Inr () \<and> second = Inr () \<and>
    remaining (view (w_db w4)) (o_product_id r) = remaining (view (w_db w)) (o_product_id r) + 2 * o_quantity r"
proof -
  let ?t = "GetOrderTableName u (ev_shards ev)"
  note a = get_order [OF on_dbD [OF assms(4)]] and b = get_order [OF on_dbD [OF assms(6)]]
  have r: "r \<in> set (t_rows (db_orders (view (w_db w1)) ?t))" "o_order_no r = no" "?t \<in> order_tables"
    using a(1) a(2) [OF refl] by simp_all
  obtain r' where r': "found = Inr r'"
    using get_present [OF r on_dbD [OF assms(6)]] by blast
  have "r' = r"
    using orders_ok_unique [of "view (w_db w1)" r ?t r'] b(2) [OF r'] r a(1) assms(2) by simp
  with r' have f: "found = Inr r" by simp
  have "has_product (view (w_db w2)) (o_product_id r)"
    using assms(3) a(1) b(1) by simp
  note first = cancel_commits [OF assms(7,1,5) r(3) this]
  then have "has_product (view (w_db w3)) (o_product_id r)" by simp
  from first cancel_commits [OF assms(8) [unfolded f] assms(1,5) r(3) this] show ?thesis
    using a(1) b(1) by simp
qed

end

section \<open>Properties\<close>

text \<open>
  Conservation of the MySQL stock. While the database answers, any sequence of creations
  (whose stock deduction does not fail), cancellations, timeouts whose message matches its order,
  payment callbacks and refunds keeps, for every product that exists once, the remaining stock
  plus the quantities of its pending and paid orders.
\<close>

theorem stock_conserved:
  assumes "reliable_db (ev_db ev) view" "(stock_call ev view)\<^sup>*\<^sup>* w w'" "orders_ok (view (w_db w))"
    "has_product (view (w_db w)) p"
  shows "remaining (view (w_db w')) p + active (view (w_db w')) p = remaining (view (w_db w)) p + active (view (w_db w)) p"
  using reliable_db.stock_calls_balanced [OF assms(1,2) refl assms(3,4)] by (simp add: balanced_def balance_def)

text \<open>
  A creation whose stock deduction fails leaves a pending order behind, and the redelivery of
  its message succeeds without taking the stock: the sum of \<open>stock_conserved\<close> has grown by the
  quantity. The row and the deduction are two statements without a transaction.
\<close>

theorem create_redelivery_skips_deduction:
  assumes "reliable_db (ev_db ev) view" "parse_order_msg m = Inr x" "om_quantity x \<noteq> 0"
    "has_product (view (w_db w)) (om_product_id x)"
    "svc_CreateOrder ev now m w = (w1, Inl (Wrapf ''deduct mysql stock failed'' e))"
    "svc_CreateOrder ev now' m w1 = (w2, res)"
  shows "res = Inr () \<and> view (w_db w2) = view (w_db w1) \<and>
    remaining (view (w_db w2)) (om_product_id x) = remaining (view (w_db w)) (om_product_id x) \<and>
    active (view (w_db w2)) (om_product_id x) = active (view (w_db w)) (om_product_id x) + om_quantity x"
  by (rule reliable_db.create_retry [OF assms(1,5) refl assms(2-4,6)])

text \<open>
  Two cancellations of one order that both read it before either updates it both succeed, and
  the stock grows by twice the quantity: the update does not check the status it replaces.
\<close>

theorem interleaved_cancels_restock_twice:
  assumes "reliable_db (ev_db ev) view" "orders_ok (view (w_db w))" "has_product (view (w_db w)) (o_product_id r)"
    "on_db (GetOrderByOrderNo (ev_db ev) (ev_shards ev) no u) w = (w1, Inr r)" "o_status r = Pending"
    "on_db (GetOrderByOrderNo (ev_db ev) (ev_shards ev) no u) w1 = (w2, found)"
    "cancel_after_read ev now no u reason (Inr r) w2 = (w3, first)"
    "cancel_after_read ev now' no u reason' found w3 = (w4, second)"
  shows "first = Inr () \<and> second = Inr () \<and>
    remaining (view (w_db w4)) (o_product_id r) = remaining (view (w_db w)) (o_product_id r) + 2 * o_quantity r"
  by (rule reliable_db.double_cancel [OF assms(1) refl assms(2-8)])

section \<open>Runs\<close>

lemma demo_has_product: "has_product (demo_db_with rs (demo_product\<lparr>p_remain_stock := n, p_updated_at := t\<rparr>)) 1"
  by (simp add: has_product_def live_product_def demo_product_def)

lemma demo_orders_ok: "orders_ok (demo_db_with [r] x)"
  by (simp add: orders_ok_def demo_db_with_def demo_db_def empty_table_def)

theorem stock_conserved_witness:
  "\<exists>w'. svc_CreateOrder demo_env 5 (demo_order_msg ''A1'' (rat_of_int 2)) demo_world = (w', Inr ()) \<and>
     remaining (w_db w') 1 + active (w_db w') 1 = 10"
proof -
  have call: "stock_call demo_env id demo_world demo_created"
    by (rule stock_call.create [OF demo_create_run]) (simp_all add: demo_parse del: of_int_numeral)
  have "orders_ok demo_db" "has_product demo_db 1" "remaining demo_db 1 = 10" "active demo_db 1 = 0"
    by (simp_all add: orders_ok_def demo_db_def empty_table_def has_product_def live_product_def demo_product_def
        remaining_def active_def)
  then have "remaining (w_db demo_created) 1 + active (w_db demo_created) 1 = 10"
    using stock_conserved [of demo_env id demo_world demo_created 1] plain_mysql.reliable_db_axioms
      r_into_rtranclp [of "stock_call demo_env id", OF call]
    by simp
  with demo_create_run show ?thesis by blast
qed

text \<open>An order of eleven units, one more than the stock.\<close>

lemma demo_overdraw:
  "DeductProductStock plain_ops now 1 11 (demo_db_with rs demo_product) =
     (demo_db_with rs demo_product, Inl (Errf ''out of stock''))"
  by (simp add: DeductProductStock_def deduct_stmt_def exec_product_def product_schema_def selected_def demo_db_with_def
      demo_product_def)

definition demo_overdrawn :: "(faulty_server, database, demo_broker) world" where
  "demo_overdrawn = demo_world\<lparr>w_db := demo_db_with [demo_row ''A1'' 11 5] demo_product\<rparr>"

lemma demo_overdraw_run:
  "svc_CreateOrder demo_env 5 (demo_order_msg ''A1'' (rat_of_int 11)) demo_world =
     (demo_overdrawn, Inl (Wrapf ''deduct mysql stock failed'' (Errf ''out of stock'')))"
  unfolding svc_CreateOrder_def demo_parse
  by (simp add: on_db_def demo_get demo_create_row demo_overdraw demo_overdrawn_def)

theorem create_redelivery_skips_deduction_witness:
  "\<exists>w2. svc_CreateOrder demo_env 9 (demo_order_msg ''A1'' (rat_of_int 11)) demo_overdrawn = (w2, Inr ()) \<and>
     remaining (w_db w2) 1 = 10 \<and> active (w_db w2) 1 = 11"
proof -
  obtain w2 res where w2: "svc_CreateOrder demo_env 9 (demo_order_msg ''A1'' (rat_of_int 11)) demo_overdrawn = (w2, res)"
    by fastforce
  have "has_product demo_db 1" "remaining demo_db 1 = 10" "active demo_db 1 = 0"
    by (simp_all add: demo_db_def empty_table_def has_product_def live_product_def demo_product_def
        remaining_def active_def)
  then show ?thesis
    using create_redelivery_skips_deduction [of demo_env id, OF _ demo_parse _ _ demo_overdraw_run w2]
      plain_mysql.reliable_db_axioms w2
    by (intro exI [of _ w2]) (clarsimp)
qed

lemma demo_read:
  "GetOrderByOrderNo plain_ops 16 ''A1'' 7 (demo_db_with [demo_row ''A1'' q now] x) =
     (demo_db_with [demo_row ''A1'' q now] x, Inr (demo_row ''A1'' q now))"
  by (simp add: GetOrderByOrderNo_def exec_order_def matching_def demo_db_with_def selected_def order_schema_def
      demo_row_def)

theorem interleaved_cancels_restock_twice_witness:
  "\<exists>w1 w2 r w3 w4. on_db (GetOrderByOrderNo plain_ops 16 ''A1'' 7) demo_created = (w1, Inr r) \<and>
     on_db (GetOrderByOrderNo plain_ops 16 ''A1'' 7) w1 = (w2, Inr r) \<and>
     cancel_after_read demo_env 6 ''A1'' 7 [] (Inr r) w2 = (w3, Inr ()) \<and>
     cancel_after_read demo_env 6 ''A1'' 7 [] (Inr r) w3 = (w4, Inr ()) \<and>
     remaining (w_db demo_created) 1 = 8 \<and> remaining (w_db w4) 1 = 12"
proof -
  let ?r = "demo_row ''A1'' 2 5"
  have read: "on_db (GetOrderByOrderNo plain_ops 16 ''A1'' 7) demo_created = (demo_created, Inr ?r)"
    by (simp add: on_db_def demo_created_def demo_read on_mon_def)
  obtain w3 r3 where c3: "cancel_after_read demo_env 6 ''A1'' 7 [] (Inr ?r) demo_created = (w3, r3)"
    by fastforce
  obtain w4 r4 where c4: "cancel_after_read demo_env 6 ''A1'' 7 [] (Inr ?r) w3 = (w4, r4)"
    by fastforce
  have r: "o_product_id ?r = 1" "o_quantity ?r = 2" "o_status ?r = Pending"
    by (simp_all add: demo_row_def)
  have start: "orders_ok (w_db demo_created)" "has_product (w_db demo_created) 1" "remaining (w_db demo_created) 1 = 8"
    using demo_orders_ok [of ?r "demo_taken 2 5"] demo_has_product [of "[?r]" 5 8]
    by (simp_all add: demo_created_def demo_taken_def remaining_def live_product_def demo_product_def)
  have "r3 = Inr () \<and> r4 = Inr () \<and> remaining (id (w_db w4)) 1 = remaining (id (w_db demo_created)) 1 + 2 * 2"
    using interleaved_cancels_restock_twice [of demo_env id demo_created ?r "''A1''" 7, OF _ _ _ _ r(3) _ c3 c4]
      plain_mysql.reliable_db_axioms start read r by simp
  with read c3 c4 start show ?thesis
    by (intro exI [of _ demo_created] exI [of _ ?r] exI [of _ w3] exI [of _ w4]) simp
qed

end
