(* ===== verification/Mq_Consumer.thy ===== *)
theory Mq_Consumer
  imports Mq
begin

text \<open>
  \<^verbatim>\<open>mq/consumer.go\<close>: what a consumer does with one delivery, for the order queue and for the
  dead-letter queue, with the retry counter in the headers. The handler is the \<open>OrderHandler\<close>
  interface; the consumers are proved over the contract \<open>order_handler\<close> and over the
  documented effect of the acknowledgements on the queue (\<open>amqp_queue\<close>).
\<close>

section \<open>Deliveries\<close>

text \<open>The dynamic types \<open>getRetryCount\<close> distinguishes.\<close>

datatype header_value = HInt32 "32 word" | HInt64 "64 word" | HInt "64 word" | HFloat rat | HOther string

type_synonym headers = "string \<rightharpoonup> header_value"

record delivery =
  dl_body :: body
  dl_headers :: "headers option"

definition maxRetryCount :: "32 word" where
  "maxRetryCount = 3"

definition getRetryCount :: "delivery \<Rightarrow> 32 word" where
  "getRetryCount d =
     (case dl_headers d of None \<Rightarrow> 0
      | Some h \<Rightarrow> (case h ''x-retry-count'' of
            Some (HInt32 v) \<Rightarrow> v
          | Some (HInt64 v) \<Rightarrow> ucast v
          | Some (HInt v) \<Rightarrow> ucast v
          | Some (HFloat v) \<Rightarrow> word_of_int (float_to_int v)
          | _ \<Rightarrow> 0))"

text \<open>What is told to the broker: \<^verbatim>\<open>Ack\<close>, \<^verbatim>\<open>Nack(false, requeue)\<close>; a panic ends the process.\<close>

datatype verdict = Ack | Nack bool | Crash

lemma below_limit [simp]: "\<not> (3 :: 32 word) <=s 0"
  by (simp add: word_sle_eq)

section \<open>The consumers\<close>

text \<open>
  The failure branch shared by both loops: give up at the limit, otherwise count in the local
  copy of the delivery and requeue. The delivery after the call is returned too.
\<close>

definition retry_or_drop :: "delivery \<Rightarrow> delivery \<times> verdict" where
  "retry_or_drop d =
     (let retryCount = getRetryCount d in
      if maxRetryCount <=s retryCount then (d, Nack False)
      else (d\<lparr>dl_headers := Some ((case dl_headers d of None \<Rightarrow> Map.empty | Some h \<Rightarrow> h)
              (''x-retry-count'' \<mapsto> HInt32 (retryCount + 1)))\<rparr>, Nack True))"

definition handle_order ::
  "(msg \<Rightarrow> 'w \<Rightarrow> 'w \<times> unit result) \<Rightarrow> ('w \<Rightarrow> 'w) \<Rightarrow> delivery \<Rightarrow> 'w \<Rightarrow> 'w \<times> delivery \<times> verdict" where
  "handle_order create consumed d w =
     (case dl_body d of
        OtherBody _ \<Rightarrow> (w, d, Nack False)
      | JsonBody m \<Rightarrow>
          (case create m w of
             (w1, Inl err) \<Rightarrow> if err = GoPanic then (w1, d, Crash) else (w1, retry_or_drop d)
           | (w1, Inr _) \<Rightarrow> (consumed w1, d, Ack)))"

definition handle_dead_letter ::
  "(msg \<Rightarrow> 'w \<Rightarrow> 'w \<times> unit result) \<Rightarrow> ('w \<Rightarrow> 'w) \<Rightarrow> delivery \<Rightarrow> 'w \<Rightarrow> 'w \<times> delivery \<times> verdict" where
  "handle_dead_letter process consumed d w =
     (case dl_body d of
        OtherBody _ \<Rightarrow> (w, d, Ack)
      | JsonBody m \<Rightarrow>
          if m ''type'' \<noteq> Some (JStr ''order_timeout_check'') then (w, d, Ack)
          else (case process m w of
             (w1, Inl err) \<Rightarrow> if err = GoPanic then (w1, d, Crash) else (w1, retry_or_drop d)
           | (w1, Inr _) \<Rightarrow> (consumed w1, d, Ack)))"

section \<open>A queue\<close>

text \<open>
  The queue keeps the messages as they were published: an acknowledged message and one refused
  without requeue are gone (the order and dead-letter queues declare no dead-letter exchange),
  one refused with requeue, or left unacknowledged by a process that died, is back at the head,
  unchanged.
\<close>

locale amqp_queue =
  fixes settle :: "delivery \<Rightarrow> verdict \<Rightarrow> delivery list \<Rightarrow> delivery list"
  assumes settle_ack: "settle d Ack q = q"
    and settle_drop: "settle d (Nack False) q = q"
    and settle_requeue: "settle d (Nack True) q = d # q"
    and settle_crash: "settle d Crash q = d # q"

definition rabbit_settle :: "delivery \<Rightarrow> verdict \<Rightarrow> delivery list \<Rightarrow> delivery list" where
  "rabbit_settle d v q = (if v = Nack True \<or> v = Crash then d # q else q)"

interpretation rabbit: amqp_queue rabbit_settle
  by unfold_locales (simp_all add: rabbit_settle_def)

text \<open>\<open>n\<close> deliveries from the head of the queue, with the verdicts in order.\<close>

fun consume ::
  "(delivery \<Rightarrow> verdict \<Rightarrow> delivery list \<Rightarrow> delivery list) \<Rightarrow> (delivery \<Rightarrow> 'w \<Rightarrow> 'w \<times> delivery \<times> verdict)
     \<Rightarrow> nat \<Rightarrow> delivery list \<Rightarrow> 'w \<Rightarrow> delivery list \<times> 'w \<times> (delivery \<times> verdict) list" where
  "consume settle handle 0 q w = (q, w, [])"
| "consume settle handle (Suc n) [] w = ([], w, [])"
| "consume settle handle (Suc n) (d # q) w =
     (case handle d w of (w1, _, v) \<Rightarrow>
        (case consume settle handle n (settle d v q) w1 of (q2, w2, tr) \<Rightarrow> (q2, w2, (d, v) # tr)))"

definition settled :: "verdict \<Rightarrow> bool" where
  "settled v \<longleftrightarrow> v = Ack \<or> v = Nack False"

context amqp_queue
begin

lemma settle_mset: "mset (d # q) = mset (settle d v q) + mset (if settled v then [d] else [])"
proof (cases v)
  case (Nack b)
  then show ?thesis by (cases b) (simp_all add: settled_def settle_drop settle_requeue)
qed (simp_all add: settled_def settle_ack settle_crash)

lemma consume_mset:
  "consume settle handle n q w = (q', w', tr) \<Longrightarrow>
    mset q = mset q' + mset (map fst (filter (settled \<circ> snd) tr))"
proof (induction n arbitrary: q w q' w' tr)
  case (Suc n)
  show ?case
  proof (cases q)
    case (Cons d r)
    obtain w1 d1 v where h: "handle d w = (w1, d1, v)" by (cases "handle d w") auto
    obtain q2 w2 tr2 where c: "consume settle handle n (settle d v r) w1 = (q2, w2, tr2)"
      by (cases "consume settle handle n (settle d v r) w1") auto
    from Suc.IH [OF c] settle_mset [of d r v] show ?thesis
      using Suc.prems Cons h c by auto
  qed (use Suc.prems in auto)
qed simp

lemma consume_verdicts:
  "consume settle handle n q w = (q', w', tr) \<Longrightarrow> (d, v) \<in> set tr \<Longrightarrow> \<exists>w1 w2 d'. handle d w1 = (w2, d', v)"
proof (induction n arbitrary: q w q' w' tr)
  case (Suc n)
  then show ?case
    by (cases q) (fastforce split: prod.splits)+
qed simp

end

section \<open>The handler\<close>

text \<open>
  What the consumers need of the order service: an invariant of the program state that both
  callbacks and the consumed counter keep.
\<close>

locale order_handler =
  fixes create :: "msg \<Rightarrow> 'w \<Rightarrow> 'w \<times> unit result"
    and process_timeout :: "msg \<Rightarrow> 'w \<Rightarrow> 'w \<times> unit result"
    and consumed :: "'w \<Rightarrow> 'w"
    and inv :: "'w \<Rightarrow> bool"
  assumes create_keeps: "create m w = (w', r) \<Longrightarrow> inv w \<Longrightarrow> inv w'"
    and timeout_keeps: "process_timeout m w = (w', r) \<Longrightarrow> inv w \<Longrightarrow> inv w'"
    and consumed_keeps: "inv w \<Longrightarrow> inv (consumed w)"
begin

lemma handle_order_keeps: "handle_order create consumed d w = (w', d', v) \<Longrightarrow> inv w \<Longrightarrow> inv w'"
  using create_keeps consumed_keeps
  by (auto simp: handle_order_def split: body.splits prod.splits sum.splits if_splits)

lemma handle_dead_letter_keeps: "handle_dead_letter process_timeout consumed d w = (w', d', v) \<Longrightarrow> inv w \<Longrightarrow> inv w'"
  using timeout_keeps consumed_keeps
  by (auto simp: handle_dead_letter_def split: body.splits prod.splits sum.splits if_splits)

lemma consume_keeps:
  assumes "\<And>d w w' d' v. handle d w = (w', d', v) \<Longrightarrow> inv w \<Longrightarrow> inv w'"
  shows "consume settle handle n q w = (q', w', tr) \<Longrightarrow> inv w \<Longrightarrow> inv w'"
proof (induction n arbitrary: q w q' w' tr)
  case (Suc n)
  then show ?case
    using assms by (cases q) (fastforce split: prod.splits)+
qed simp

end

section \<open>Properties\<close>

context amqp_queue
begin

lemma settle_set: "set (settle d v q) \<subseteq> insert d (set q)"
proof (cases v)
  case (Nack b)
  then show ?thesis by (cases b) (auto simp: settle_drop settle_requeue)
qed (auto simp: settle_ack settle_crash)

lemma consume_from:
  "consume settle handle n q w = (q', w', tr) \<Longrightarrow> (d, v) \<in> set tr \<Longrightarrow> d \<in> set q"
proof (induction n arbitrary: q w q' w' tr)
  case (Suc n)
  show ?case
  proof (cases q)
    case (Cons d0 r)
    obtain w1 d1 v1 where h: "handle d0 w = (w1, d1, v1)" by (cases "handle d0 w") auto
    obtain q2 w2 tr2 where c: "consume settle handle n (settle d0 v1 r) w1 = (q2, w2, tr2)"
      by (cases "consume settle handle n (settle d0 v1 r) w1") auto
    have "(d, v) = (d0, v1) \<or> (d, v) \<in> set tr2"
      using Suc.prems Cons h c by auto
    with Suc.IH [OF c] settle_set [of d0 v1 r] show ?thesis
      using Cons by auto
  qed (use Suc.prems in auto)
qed simp

text \<open>Every entry of the record stands between two prefixes of the same run.\<close>

lemma consume_nth:
  "consume settle handle n q w = (q', w', tr) \<Longrightarrow> k < length tr \<Longrightarrow>
    \<exists>d v r wk w1 d'. tr ! k = (d, v) \<and> consume settle handle k q w = (d # r, wk, take k tr) \<and>
      handle d wk = (w1, d', v) \<and> consume settle handle (Suc k) q w = (settle d v r, w1, take (Suc k) tr)"
proof (induction n arbitrary: q w q' w' tr k)
  case (Suc n)
  show ?case
  proof (cases q)
    case (Cons d0 r0)
    obtain w1 d1 v where h: "handle d0 w = (w1, d1, v)" by (cases "handle d0 w") auto
    obtain q2 w2 tr2 where c: "consume settle handle n (settle d0 v r0) w1 = (q2, w2, tr2)"
      by (cases "consume settle handle n (settle d0 v r0) w1") auto
    have tr: "tr = (d0, v) # tr2"
      using Suc.prems(1) Cons h c by simp
    show ?thesis
    proof (cases k)
      case 0
      then show ?thesis using Cons h tr by simp
    next
      case (Suc j)
      then have j: "j < length tr2"
        using Suc.prems(2) tr by simp
      show ?thesis
        using Suc.IH [OF c j] Cons h tr Suc by force
    qed
  qed (use Suc.prems in auto)
qed simp

text \<open>A message that fails without a panic goes back as it was published.\<close>

lemma consume_failing:
  assumes "\<And>w. \<exists>w' e. create m w = (w', Inl e) \<and> e \<noteq> GoPanic" "dl_body d = JsonBody m" "dl_headers d = None"
  shows "consume settle (handle_order create consumed) n [d] w =
    ([d], ((\<lambda>w. fst (create m w)) ^^ n) w, replicate n (d, Nack True))"
proof (induction n arbitrary: w)
  case (Suc n)
  obtain w' e where c: "create m w = (w', Inl e)" "e \<noteq> GoPanic"
    using assms(1) by blast
  have "snd (retry_or_drop d) = Nack True"
    using assms(3) by (simp add: retry_or_drop_def getRetryCount_def maxRetryCount_def)
  then obtain d' where r: "retry_or_drop d = (d', Nack True)"
    by (metis prod.collapse)
  have "handle_order create consumed d w = (w', d', Nack True)"
    using assms(2) c r by (simp add: handle_order_def)
  then show ?case
    using Suc [of w'] c funpow_swap1 [of "\<lambda>w. fst (create m w)" n w] by (simp add: settle_requeue)
qed simp

end

text \<open>A published message is acknowledged after a creation, and goes back in every other case.\<close>

lemma published_handled:
  assumes "amqp_queue settle" "dl_body d = JsonBody m" "dl_headers d = None"
    "handle_order create consumed d w = (w', d', v)"
  shows "case create m w of
      (w1, Inl err) \<Rightarrow> v = (if err = GoPanic then Crash else Nack True) \<and> w' = w1 \<and> settle d v r = d # r
    | (w1, Inr _) \<Rightarrow> v = Ack \<and> w' = consumed w1 \<and> settle d v r = r"
  using assms(2-4) amqp_queue.settle_ack [OF assms(1)] amqp_queue.settle_requeue [OF assms(1)]
    amqp_queue.settle_crash [OF assms(1)]
  by (auto simp: handle_order_def retry_or_drop_def getRetryCount_def maxRetryCount_def Let_def
      split: prod.splits sum.splits if_splits)

lemma published_verdicts:
  assumes "handle_order create consumed d w = (w', d', v)" "dl_body d = JsonBody m" "dl_headers d = None"
  shows "v \<noteq> Nack False" "v = Ack \<Longrightarrow> \<exists>w1. create m w = (w1, Inr ())"
  using assms
  by (auto simp: handle_order_def retry_or_drop_def getRetryCount_def maxRetryCount_def Let_def
      split: prod.splits sum.splits if_splits)

lemma messages_kept:
  assumes "amqp_queue settle" "\<forall>d \<in> set q. dl_headers d = None \<and> (\<exists>m. dl_body d = JsonBody m)"
    "consume settle (handle_order create consumed) n q w = (q', w', tr)"
  shows "mset q = mset q' + mset (map fst (filter (\<lambda>x. snd x = Ack) tr)) \<and>
    (\<forall>d. (d, Ack) \<in> set tr \<longrightarrow> (\<exists>m w1 w2. dl_body d = JsonBody m \<and> create m w1 = (w2, Inr ())))"
proof -
  have v: "v \<noteq> Nack False" "v = Ack \<Longrightarrow> \<exists>m w1 w2. dl_body d = JsonBody m \<and> create m w1 = (w2, Inr ())"
    if dv: "(d, v) \<in> set tr" for d v
  proof -
    obtain m where m: "dl_body d = JsonBody m" "dl_headers d = None"
      using assms(2) amqp_queue.consume_from [OF assms(1,3) dv] by blast
    obtain w1 w2 d' where h: "handle_order create consumed d w1 = (w2, d', v)"
      using amqp_queue.consume_verdicts [OF assms(1,3) dv] by blast
    show "v \<noteq> Nack False"
      by (rule published_verdicts(1) [OF h m])
    show "\<exists>m w1 w2. dl_body d = JsonBody m \<and> create m w1 = (w2, Inr ())" if "v = Ack"
      using published_verdicts(2) [OF h m that] m(1) by blast
  qed
  have "filter (settled \<circ> snd) tr = filter (\<lambda>x. snd x = Ack) tr"
    using v(1) by (intro filter_cong) (auto simp: settled_def)
  then show ?thesis
    using amqp_queue.consume_mset [OF assms(1,3)] v(2) by auto
qed

text \<open>
  C17. No order message is lost, for any run of \<open>n\<close> deliveries from the order queue in which
  \<open>CreateOrder\<close> fails, panics or succeeds in any way. The messages are published as the program
  publishes them, with a JSON body and no headers. At the end each is still queued or was
  acknowledged. At the \<open>k\<close>-th delivery, in the state \<open>wk\<close> that the run has reached there, exactly
  the head of the queue is handled. If \<open>CreateOrder\<close> returns nil on that message in \<open>wk\<close>, it is
  acknowledged and leaves the queue; if it fails or panics, the message is back at the head as it
  was published, also after \<open>maxRetryCount\<close> failures. The comments of the consumer say the message
  is then dropped or goes to the dead-letter queue. The code compares the counter of the delivery's
  headers, and only ever raises it in its own copy, so that branch is not taken
  (\<open>retry_limit_never_reached\<close> and the findings).
\<close>

theorem order_messages_not_lost:
  assumes "amqp_queue settle" "\<forall>d \<in> set q. dl_headers d = None \<and> (\<exists>m. dl_body d = JsonBody m)"
    "consume settle (handle_order create consumed) n q w = (q', w', tr)"
  shows "mset q = mset q' + mset (map fst (filter (\<lambda>x. snd x = Ack) tr)) \<and>
    (\<forall>k < length tr. \<exists>d v m r wk. tr ! k = (d, v) \<and> dl_body d = JsonBody m \<and>
      consume settle (handle_order create consumed) k q w = (d # r, wk, take k tr) \<and>
      (case create m wk of
         (w1, Inl err) \<Rightarrow> v = (if err = GoPanic then Crash else Nack True) \<and>
           consume settle (handle_order create consumed) (Suc k) q w = (d # r, w1, take (Suc k) tr)
       | (w1, Inr _) \<Rightarrow> v = Ack \<and>
           consume settle (handle_order create consumed) (Suc k) q w = (r, consumed w1, take (Suc k) tr)))"
proof (intro conjI allI impI)
  show "mset q = mset q' + mset (map fst (filter (\<lambda>x. snd x = Ack) tr))"
    using messages_kept [OF assms] by simp
  fix k
  assume k: "k < length tr"
  obtain d v r wk w1 d' where at: "tr ! k = (d, v)"
    "consume settle (handle_order create consumed) k q w = (d # r, wk, take k tr)"
    "handle_order create consumed d wk = (w1, d', v)"
    "consume settle (handle_order create consumed) (Suc k) q w = (settle d v r, w1, take (Suc k) tr)"
    using amqp_queue.consume_nth [OF assms(1,3) k] by blast
  have "(d, v) \<in> set tr"
    using k at(1) by (metis nth_mem)
  then obtain m where m: "dl_body d = JsonBody m" "dl_headers d = None"
    using assms(2) amqp_queue.consume_from [OF assms(1,3)] by blast
  show "\<exists>d v m r wk. tr ! k = (d, v) \<and> dl_body d = JsonBody m \<and>
      consume settle (handle_order create consumed) k q w = (d # r, wk, take k tr) \<and>
      (case create m wk of
         (w1, Inl err) \<Rightarrow> v = (if err = GoPanic then Crash else Nack True) \<and>
           consume settle (handle_order create consumed) (Suc k) q w = (d # r, w1, take (Suc k) tr)
       | (w1, Inr _) \<Rightarrow> v = Ack \<and>
           consume settle (handle_order create consumed) (Suc k) q w = (r, consumed w1, take (Suc k) tr))"
    using published_handled [OF assms(1) m at(3), of r] at(1,2,4) m(1)
    by (intro exI [of _ d] exI [of _ v] exI [of _ m] exI [of _ r] exI [of _ wk])
      (auto split: prod.splits sum.splits)
qed

text \<open>
  The retry limit is never reached: the counter is written into the local copy of the
  delivery, the requeued message keeps its headers, so a message whose \<open>CreateOrder\<close> keeps failing
  is delivered again and again, however often.
\<close>

theorem retry_limit_never_reached:
  assumes "amqp_queue settle" "\<And>w. \<exists>w' e. create m w = (w', Inl e) \<and> e \<noteq> GoPanic"
    "dl_body d = JsonBody m" "dl_headers d = None"
  shows "fst (consume settle (handle_order create consumed) n [d] w) = [d] \<and>
    snd (snd (consume settle (handle_order create consumed) n [d] w)) = replicate n (d, Nack True)"
  using amqp_queue.consume_failing [OF assms(1), of create m d consumed n w] assms(2-4) by simp

section \<open>Runs\<close>

definition demo_delivery :: "string \<Rightarrow> delivery" where
  "demo_delivery no = \<lparr>dl_body = JsonBody [''order_no'' \<mapsto> JStr no], dl_headers = None\<rparr>"

text \<open>A handler that fails its first call and then succeeds, counting the calls.\<close>

definition flaky :: "msg \<Rightarrow> nat \<Rightarrow> nat \<times> unit result" where
  "flaky m n = (Suc n, if n = 0 then Inl DbErr else Inr ())"

theorem order_messages_not_lost_witness:
  "\<exists>tr. consume rabbit_settle (handle_order flaky id) 2 [demo_delivery ''A'', demo_delivery ''B''] 0 =
       ([demo_delivery ''B''], 2, tr) \<and>
     mset [demo_delivery ''A'', demo_delivery ''B''] =
       mset [demo_delivery ''B''] + mset (map fst (filter (\<lambda>x. snd x = Ack) tr)) \<and>
     snd (tr ! 0) = Nack True \<and> snd (tr ! 1) = Ack"
proof -
  let ?tr = "[(demo_delivery ''A'', Nack True), (demo_delivery ''A'', Ack)]"
  have run: "consume rabbit_settle (handle_order flaky id) 2 [demo_delivery ''A'', demo_delivery ''B''] 0 =
      ([demo_delivery ''B''], 2, ?tr)"
    by (simp add: numeral_2_eq_2 handle_order_def demo_delivery_def flaky_def retry_or_drop_def getRetryCount_def
        maxRetryCount_def rabbit_settle_def Let_def)
  have "mset [demo_delivery ''A'', demo_delivery ''B''] =
      mset [demo_delivery ''B''] + mset (map fst (filter (\<lambda>x. snd x = Ack) ?tr))"
    by (rule conjunct1 [OF order_messages_not_lost [OF rabbit.amqp_queue_axioms _ run]])
      (simp add: demo_delivery_def)
  with run show ?thesis by auto
qed

theorem retry_limit_never_reached_witness:
  "fst (consume rabbit_settle (handle_order (\<lambda>m w. (Suc w, Inl DbErr)) id) 100 [demo_delivery ''A''] 0) =
     [demo_delivery ''A'']"
  using retry_limit_never_reached [OF rabbit.amqp_queue_axioms, of "\<lambda>m w. (Suc w, Inl DbErr)"
      "[''order_no'' \<mapsto> JStr ''A'']" "demo_delivery ''A''" id 100 0]
  by (simp add: demo_delivery_def)

end
