(* ===== verification/Order_Consumer.thy ===== *)
theory Order_Consumer
  imports Mq_Consumer Order_Lifecycle
begin

text \<open>
  The consumers of \<^verbatim>\<open>mq/consumer.go\<close> on the order service: the contract \<open>order_handler\<close> is
  discharged by \<open>svc_CreateOrder\<close> and \<open>svc_ProcessTimeoutOrder\<close>, and an acknowledged order
  message has its order row, under any database faults.
\<close>

definition mq_consumed :: "('r, 'd, 'q) world \<Rightarrow> ('r, 'd, 'q) world" where
  "mq_consumed w = w\<lparr>w_mq := IncConsumed (w_mq w)\<rparr>"

text \<open>The handlers; \<open>now\<close> reads the clock.\<close>

definition create_handler ::
  "('r, 'd, 'q) env \<Rightarrow> (('r, 'd, 'q) world \<Rightarrow> int) \<Rightarrow> msg \<Rightarrow> ('r, 'd, 'q) world \<Rightarrow> ('r, 'd, 'q) world \<times> unit result" where
  "create_handler ev now m w = svc_CreateOrder ev (now w) m w"

definition timeout_handler ::
  "('r, 'd, 'q) env \<Rightarrow> (('r, 'd, 'q) world \<Rightarrow> int) \<Rightarrow> msg \<Rightarrow> ('r, 'd, 'q) world \<Rightarrow> ('r, 'd, 'q) world \<times> unit result" where
  "timeout_handler ev now m w = svc_ProcessTimeoutOrder ev (now w) m w"

text \<open>\<open>StartOrderConsumer\<close> and \<open>StartDeadLetterConsumer\<close>: one delivery.\<close>

definition order_consumer where
  "order_consumer ev now = handle_order (create_handler ev now) mq_consumed"

definition dead_letter_consumer where
  "dead_letter_consumer ev now = handle_dead_letter (timeout_handler ev now) mq_consumed"

lemma mq_consumed_db [simp]: "w_db (mq_consumed w) = w_db w"
  by (simp add: mq_consumed_def)

lemma grows_ok_trans: "grows_ok view w w1 \<Longrightarrow> grows_ok view w1 w2 \<Longrightarrow> grows_ok view w w2"
  by (auto simp: grows_ok_def intro: orders_evolve_trans)

lemma service_handles_orders:
  fixes ev :: "('r, 'd, 'q) env"
  assumes "db_server (ev_db ev) view"
  shows "order_handler (create_handler ev now) (timeout_handler ev now) mq_consumed (grows_ok view w0)"
proof
  fix m and w w' :: "('r, 'd, 'q) world" and r
  assume w: "grows_ok view w0 w"
  then have ok: "orders_ok (view (w_db w))"
    by (simp add: grows_ok_def)
  show "grows_ok view w0 w'" if "create_handler ev now m w = (w', r)"
    using db_server.create_grows [OF assms that [unfolded create_handler_def] refl ok] w
    by (rule grows_ok_trans [rotated])
  show "grows_ok view w0 w'" if "timeout_handler ev now m w = (w', r)"
    using db_server.timeout_grows [OF assms that [unfolded timeout_handler_def] refl ok] w
    by (rule grows_ok_trans [rotated])
  show "grows_ok view w0 (mq_consumed w)"
    using w by (simp add: grows_ok_def)
qed

interpretation demo_handler:
  order_handler "create_handler demo_env (\<lambda>_. 5)" "timeout_handler demo_env (\<lambda>_. 5)" mq_consumed "grows_ok id demo_world"
  by (rule service_handles_orders) (simp add: plain_mysql.db_server_axioms)

section \<open>Acknowledged orders exist\<close>

definition order_present :: "('r, 'd, 'q) env \<Rightarrow> database \<Rightarrow> order_msg \<Rightarrow> bool" where
  "order_present ev v x \<longleftrightarrow>
     (\<exists>r \<in> set (t_rows (db_orders v (GetOrderTableName (om_user_id x) (ev_shards ev)))). o_order_no r = om_order_no x)"

lemma rows_evolve_no:
  assumes "rows_evolve xs ys" "r \<in> set xs"
  shows "\<exists>r' \<in> set ys. o_order_no r' = o_order_no r"
proof -
  obtain i where "i < length xs" "xs ! i = r"
    using assms(2) by (meson in_set_conv_nth)
  with assms(1) have "i < length ys" "o_order_no (ys ! i) = o_order_no r"
    by (auto simp: rows_evolve_def order_evolves_def)
  then show ?thesis
    using nth_mem by blast
qed

lemma order_present_grows: "order_present ev v x \<Longrightarrow> orders_evolve v v' \<Longrightarrow> order_present ev v' x"
  unfolding order_present_def orders_evolve_def by (metis rows_evolve_no)

text \<open>The row that an order message asks for; the schema reads a quantity of 0 as its default, 1.\<close>

definition row_of :: "order_msg \<Rightarrow> order \<Rightarrow> bool" where
  "row_of x r \<longleftrightarrow> o_order_no r = om_order_no x \<and> o_user_id r = om_user_id x \<and> o_product_id r = om_product_id x \<and>
     o_product_name r = om_product_name x \<and> o_seckill_price r = om_seckill_price x \<and>
     o_quantity r = or_default 1 (om_quantity x) \<and> o_total_amount r = om_total_amount x"

abbreviation order_table :: "('r, 'd, 'q) env \<Rightarrow> order_msg \<Rightarrow> string" where
  "order_table ev x \<equiv> GetOrderTableName (om_user_id x) (ev_shards ev)"

definition order_stored :: "('r, 'd, 'q) env \<Rightarrow> database \<Rightarrow> order_msg \<Rightarrow> bool" where
  "order_stored ev v x \<longleftrightarrow> (\<exists>r \<in> set (t_rows (db_orders v (order_table ev x))). row_of x r)"

text \<open>No other order has the number of \<open>x\<close>.\<close>

definition number_kept :: "('r, 'd, 'q) env \<Rightarrow> database \<Rightarrow> order_msg \<Rightarrow> bool" where
  "number_kept ev v x \<longleftrightarrow> (\<forall>r \<in> set (t_rows (db_orders v (order_table ev x))). o_order_no r = om_order_no x \<longrightarrow> row_of x r)"

lemma present_stored: "order_present ev v x \<Longrightarrow> number_kept ev v x \<Longrightarrow> order_stored ev v x"
  by (auto simp: order_present_def number_kept_def order_stored_def)

lemma absent_number_kept: "\<not> order_present ev v x \<Longrightarrow> number_kept ev v x"
  by (auto simp: order_present_def number_kept_def)

lemma row_of_new: "row_of x ((new_order now (order_of_msg x))\<lparr>o_id := i\<rparr>)"
  by (simp add: row_of_def new_order_def order_of_msg_def)

context db_server
begin

lemma created_present:
  assumes "svc_CreateOrder ev now m w = (w', Inr ())" "ev_db ev = ops" "parse_order_msg m = Inr x"
  shows "order_present ev (view (w_db w')) x"
proof -
  let ?t = "GetOrderTableName (om_user_id x) (ev_shards ev)"
  obtain w1 ex where q: "on_db (GetOrderByOrderNo ops (ev_shards ev) (om_order_no x) (om_user_id x)) w = (w1, ex)"
    by fastforce
  note get = get_order [OF on_dbD [OF q]]
  show ?thesis
  proof (cases ex)
    case (Inr r)
    with get assms q have "w' = w1" "r \<in> set (t_rows (db_orders (view (w_db w)) ?t))" "o_order_no r = om_order_no x"
      by (auto simp: svc_CreateOrder_def)
    with get(1) show ?thesis
      by (auto simp: order_present_def)
  next
    case (Inl e)
    obtain w2 c where c: "on_db (Dao.CreateOrder ops now (ev_shards ev) (order_of_msg x)) w1 = (w2, c)"
      by fastforce
    obtain w3 r3 where d: "on_db (DeductProductStock ops now (om_product_id x) (om_quantity x)) w2 = (w3, r3)"
      by fastforce
    have ok: "c = Inr ()" "r3 = Inr ()" "w_db w' = w_db w3"
      using assms q c d Inl by (auto simp: svc_CreateOrder_def split: sum.splits)
    from on_dbD [OF c] ok(1) obtain i k where
      "db_orders (view (w_db w2)) ?t = \<lparr>t_rows = t_rows (db_orders (view (w_db w1)) ?t) @
         [(new_order now (order_of_msg x))\<lparr>o_id := i\<rparr>], t_next = k\<rparr>"
      by (cases rule: create_order_cases) (auto simp: order_of_msg_def)
    moreover have "db_orders (view (w_db w')) = db_orders (view (w_db w2))"
      using deduct_keeps_orders [OF on_dbD [OF d]] ok(3) by simp
    ultimately show ?thesis
      by (simp add: order_present_def new_order_def order_of_msg_def)
  qed
qed

text \<open>The rows after a creation: the old ones, and at most the one of the message.\<close>

lemma created_rows:
  assumes "svc_CreateOrder ev now m w = (w', res)" "ev_db ev = ops"
    "r \<in> set (t_rows (db_orders (view (w_db w')) n))"
  shows "r \<in> set (t_rows (db_orders (view (w_db w)) n)) \<or>
    (\<exists>y. parse_order_msg m = Inr y \<and> n = order_table ev y \<and> row_of y r)"
proof (cases "parse_order_msg m")
  case (Inl e)
  with assms(1,3) show ?thesis by (simp add: svc_CreateOrder_def)
next
  case y: (Inr y)
  obtain w1 ex where q: "on_db (GetOrderByOrderNo ops (ev_shards ev) (om_order_no y) (om_user_id y)) w = (w1, ex)"
    by fastforce
  note v1 = get_order(1) [OF on_dbD [OF q]]
  show ?thesis
  proof (cases ex)
    case (Inr r0)
    with assms y q v1 show ?thesis by (simp add: svc_CreateOrder_def)
  next
    case (Inl e)
    obtain w2 c where c: "on_db (Dao.CreateOrder ops now (ev_shards ev) (order_of_msg y)) w1 = (w2, c)"
      by fastforce
    obtain w3 r3 where d: "on_db (DeductProductStock ops now (om_product_id y) (om_quantity y)) w2 = (w3, r3)"
      by fastforce
    have "w_db w' = w_db w2 \<or> w_db w' = w_db w3"
      using assms(1,2) y q c d Inl by (auto simp: svc_CreateOrder_def split: sum.splits)
    then have same: "db_orders (view (w_db w')) = db_orders (view (w_db w2))"
      using deduct_keeps_orders [OF on_dbD [OF d]] by auto
    from on_dbD [OF c] show ?thesis
    proof (cases rule: create_order_cases)
      case (same e)
      with assms(3) v1 \<open>db_orders (view (w_db w')) = db_orders (view (w_db w2))\<close> show ?thesis by simp
    next
      case (created i)
      let ?row = "(new_order now (order_of_msg y))\<lparr>o_id := i\<rparr>"
      have t: "GetOrderTableName (o_user_id (order_of_msg y)) (ev_shards ev) = order_table ev y"
        by (simp add: order_of_msg_def)
      obtain k where "view (w_db w2) = (view (w_db w1))\<lparr>db_orders := (db_orders (view (w_db w1)))
          (order_table ev y := \<lparr>t_rows = t_rows (db_orders (view (w_db w1)) (order_table ev y)) @ [?row], t_next = k\<rparr>)\<rparr>"
        using created(3) unfolding t by blast
      then have "db_orders (view (w_db w')) = (db_orders (view (w_db w)))
          (order_table ev y := \<lparr>t_rows = t_rows (db_orders (view (w_db w)) (order_table ev y)) @ [?row], t_next = k\<rparr>)"
        using same v1 by simp
      then have "r \<in> set (t_rows (db_orders (view (w_db w)) n)) \<or> n = order_table ev y \<and> r = ?row"
        using assms(3) by (cases "n = order_table ev y") (simp_all add: disj_commute)
      then show ?thesis
      proof (elim disjE conjE)
        assume "n = order_table ev y" "r = ?row"
        with y show ?thesis
          by (intro disjI2 exI [of _ y]) (simp add: row_of_new)
      qed simp
    qed
  qed
qed

lemma create_keeps_number:
  assumes "svc_CreateOrder ev now m w = (w', res)" "ev_db ev = ops" "number_kept ev (view (w_db w)) x"
    "\<And>y. parse_order_msg m = Inr y \<Longrightarrow> om_order_no y = om_order_no x \<Longrightarrow> y = x"
  shows "number_kept ev (view (w_db w')) x"
  unfolding number_kept_def
proof (intro ballI impI)
  fix r
  assume r: "r \<in> set (t_rows (db_orders (view (w_db w')) (order_table ev x)))" "o_order_no r = om_order_no x"
  from created_rows [OF assms(1,2) r(1)] show "row_of x r"
  proof (elim disjE exE conjE)
    assume "r \<in> set (t_rows (db_orders (view (w_db w)) (order_table ev x)))"
    with assms(3) r(2) show ?thesis by (simp add: number_kept_def)
  next
    fix y
    assume y: "parse_order_msg m = Inr y" "row_of y r"
    with r(2) assms(4) [OF y(1)] show ?thesis by (simp add: row_of_def)
  qed
qed

lemma consume_keeps_number:
  assumes "ev_db ev = ops" "amqp_queue settle"
  shows "consume settle (order_consumer ev now) n q w = (q', w', tr) \<Longrightarrow> number_kept ev (view (w_db w)) x \<Longrightarrow>
    \<forall>d \<in> set q. \<forall>m y. dl_body d = JsonBody m \<longrightarrow> parse_order_msg m = Inr y \<longrightarrow> om_order_no y = om_order_no x \<longrightarrow> y = x \<Longrightarrow>
    number_kept ev (view (w_db w')) x"
proof (induction n arbitrary: q w q' w' tr)
  case (Suc n)
  show ?case
  proof (cases q)
    case (Cons d r)
    obtain w1 d1 v where h: "order_consumer ev now d w = (w1, d1, v)"
      by (cases "order_consumer ev now d w") auto
    obtain q2 w2 tr2 where c: "consume settle (order_consumer ev now) n (settle d v r) w1 = (q2, w2, tr2)"
      by (cases "consume settle (order_consumer ev now) n (settle d v r) w1") auto
    have "number_kept ev (view (w_db w1)) x"
    proof (cases "dl_body d")
      case (JsonBody m)
      obtain w0 res where m: "svc_CreateOrder ev (now w) m w = (w0, res)" by fastforce
      have "w_db w1 = w_db w0"
        using h m JsonBody by (auto simp: order_consumer_def handle_order_def create_handler_def split: sum.splits if_splits)
      moreover have "number_kept ev (view (w_db w0)) x"
        by (rule create_keeps_number [OF m assms(1) Suc.prems(2)]) (use Suc.prems(3) Cons JsonBody in auto)
      ultimately show ?thesis by simp
    next
      case (OtherBody b)
      with h Suc.prems(2) show ?thesis by (simp add: order_consumer_def handle_order_def)
    qed
    moreover have "set (settle d v r) \<subseteq> set q"
      using amqp_queue.settle_set [OF assms(2), of d v r] Cons by simp
    ultimately have "number_kept ev (view (w_db w2)) x"
      using Suc.IH [OF c] Suc.prems(3) by blast
    then show ?thesis
      using Suc.prems(1) Cons h c by simp
  qed (use Suc.prems in auto)
qed simp

lemma consume_present:
  assumes "ev_db ev = ops" "orders_ok (view (w_db w))"
    "consume settle (order_consumer ev now) n q w = (q', w', tr)"
    "(d, Ack) \<in> set tr" "dl_body d = JsonBody m" "parse_order_msg m = Inr x"
  shows "order_present ev (view (w_db w')) x"
  using assms(2-4)
proof (induction n arbitrary: q w q' w' tr)
  case (Suc n)
  note handler = service_handles_orders [of ev view, unfolded assms(1), OF db_server_axioms]
  show ?case
  proof (cases q)
    case (Cons d0 r)
    obtain w1 d1 v1 where h: "order_consumer ev now d0 w = (w1, d1, v1)"
      by (cases "order_consumer ev now d0 w") auto
    obtain q2 w2 tr2 where c: "consume settle (order_consumer ev now) n (settle d0 v1 r) w1 = (q2, w2, tr2)"
      by (cases "consume settle (order_consumer ev now) n (settle d0 v1 r) w1") auto
    have res: "w' = w2" "tr = (d0, v1) # tr2"
      using Suc.prems(2) Cons h c by auto
    have "grows_ok view w w"
      using Suc.prems(1) by (simp add: grows_ok_def)
    then have g1: "grows_ok view w w1"
      using order_handler.handle_order_keeps [OF handler] h by (auto simp: order_consumer_def)
    then have ok1: "orders_ok (view (w_db w1))"
      by (simp add: grows_ok_def)
    show ?thesis
    proof (cases "(d, Ack) \<in> set tr2")
      case True
      with Suc.IH [OF ok1 c] res show ?thesis by simp
    next
      case False
      then have ack: "d0 = d" "v1 = Ack"
        using Suc.prems(3) res by auto
      then obtain w0 where "svc_CreateOrder ev (now w) m w = (w0, Inr ())" "w1 = mq_consumed w0"
        using h assms(5) by (auto simp: order_consumer_def handle_order_def create_handler_def retry_or_drop_def Let_def
            split: prod.splits sum.splits if_splits)
      then have p1: "order_present ev (view (w_db w1)) x"
        using created_present [OF _ assms(1,6)] by simp
      have "grows_ok view w1 w1"
        using ok1 by (simp add: grows_ok_def)
      then have "grows_ok view w1 w2"
        using order_handler.consume_keeps [OF handler [of now w1] _ c [unfolded order_consumer_def]]
          order_handler.handle_order_keeps [OF handler [of now w1]]
        by blast
      then show ?thesis
        using order_present_grows [OF p1] res by (simp add: grows_ok_def)
    qed
  qed (use Suc.prems in auto)
qed simp

end

text \<open>
  C16. An acknowledged order message has its order: whatever the queue, the interleaving of
  redeliveries and the database faults, once the order consumer acknowledged a message, the order
  with its number is a row of its user's table, and it is still there at the end of the run.
\<close>

theorem acknowledged_orders_exist:
  assumes "db_server (ev_db ev) view" "orders_ok (view (w_db w))"
    "consume settle (order_consumer ev now) n q w = (q', w', tr)"
    "(d, Ack) \<in> set tr" "dl_body d = JsonBody m" "parse_order_msg m = Inr x"
  shows "\<exists>r \<in> set (t_rows (db_orders (view (w_db w')) (GetOrderTableName (om_user_id x) (ev_shards ev)))).
    o_order_no r = om_order_no x"
  using db_server.consume_present [OF assms(1) refl assms(2-6)] by (simp add: order_present_def)

theorem acknowledged_orders_exist_witness:
  "\<exists>w'. consume rabbit_settle (order_consumer demo_env (\<lambda>_. 5)) 1
       [\<lparr>dl_body = JsonBody (demo_order_msg ''A1'' (rat_of_int 2)), dl_headers = None\<rparr>] demo_world =
       ([], w', [(\<lparr>dl_body = JsonBody (demo_order_msg ''A1'' (rat_of_int 2)), dl_headers = None\<rparr>, Ack)]) \<and>
     (\<exists>r \<in> set (t_rows (db_orders (w_db w') ''t_order_7'')). o_order_no r = ''A1'')"
proof -
  let ?d = "\<lparr>dl_body = JsonBody (demo_order_msg ''A1'' (rat_of_int 2)), dl_headers = None\<rparr>"
  have run: "consume rabbit_settle (order_consumer demo_env (\<lambda>_. 5)) 1 [?d] demo_world =
      ([], mq_consumed demo_created, [(?d, Ack)])"
    using demo_create_run
    by (simp add: One_nat_def order_consumer_def handle_order_def create_handler_def rabbit_settle_def del: of_int_numeral)
  have ok: "orders_ok (id (w_db demo_world))"
    by (simp add: orders_ok_def demo_db_def empty_table_def)
  have "\<exists>r \<in> set (t_rows (db_orders (id (w_db (mq_consumed demo_created))) (GetOrderTableName 7 (ev_shards demo_env)))).
      o_order_no r = ''A1''"
    using acknowledged_orders_exist [of demo_env id demo_world rabbit_settle "\<lambda>_. 5" 1 "[?d]" _ _ _ ?d
        "demo_order_msg ''A1'' (rat_of_int 2)", OF _ ok run _ _ demo_parse] plain_mysql.db_server_axioms
    by (simp del: of_int_numeral)
  with run show ?thesis by auto
qed

end
