(* ===== verification/Seckill_Service.thy ===== *)
theory Seckill_Service
  imports Order_Service
begin

text \<open>
  \<^verbatim>\<open>service/seckill_service.go\<close>: \<open>ExecuteSeckill\<close>, in the three parts of its body (the
  product, the admission checks, the purchase with its order message), and \<open>trackBehavior\<close>.
  \<open>now\<close> is the clock at the start of the call, \<open>later\<close> its reading in the goroutine that tracks
  the behaviour. Order numbers come from the generator \<open>gen\<close> with its state \<open>g\<close>. \<open>spec_of\<close> is
  \<^verbatim>\<open>json.Unmarshal\<close> of a SKU's specification into a string map, as the pairs in the order the
  loop meets them.
\<close>

record seckill_args =
  sa_user :: int
  sa_product :: int
  sa_quantity :: int
  sa_sku :: int
  sa_idem :: string
  sa_ip :: string
  sa_trace :: string

section \<open>Tracking\<close>

definition trackBehavior ::
  "('r, 'd, 'q) env \<Rightarrow> seckill_args \<Rightarrow> string \<Rightarrow> string \<Rightarrow> int \<Rightarrow> int \<Rightarrow> ('r, 'd, 'q) world \<Rightarrow> ('r, 'd, 'q) world" where
  "trackBehavior ev a action failReason startTime later w =
     w\<lparr>w_kafka := \<lparr>bt_trace_id = sa_trace a, bt_user_id = sa_user a, bt_product_id = sa_product a,
        bt_action = action, bt_request_ip = sa_ip a, bt_result = (if action = ''success'' then 1 else 0),
        bt_cost_ms = later - startTime, bt_fail_reason = failReason, bt_instance_id = ev_instance ev,
        bt_timestamp = later\<rparr> # w_kafka w\<rparr>"

definition seckill_failed :: "int \<Rightarrow> string \<Rightarrow> ('r, 'd, 'q) world \<Rightarrow> ('r, 'd, 'q) world" where
  "seckill_failed productID reason = on_mon (IncSeckillFail productID reason)"

definition raise_alarm :: "int \<Rightarrow> string \<Rightarrow> ('r, 'd, 'q) world \<Rightarrow> ('r, 'd, 'q) world" where
  "raise_alarm now message = on_mon (with_engine (RecordAlarm now ''critical'' ''seckill'' message))"

text \<open>Returning the units to Redis; both results are dropped.\<close>

definition undo_purchase ::
  "('r, 'd, 'q) env \<Rightarrow> seckill_args \<Rightarrow> ('r, 'd, 'q) world \<Rightarrow> ('r, 'd, 'q) world" where
  "undo_purchase ev a w =
     (let w1 = fst (on_redis (IncrStock (ev_call ev) (sa_product a) (sa_quantity a)) w)
      in fst (on_redis (DecrUserPurchaseCount (ev_call ev) (sa_user a) (sa_product a) (sa_quantity a)) w1))"

section \<open>The product\<close>

definition info_of_product :: "product \<Rightarrow> product_info" where
  "info_of_product x = \<lparr>pi_name = p_name x, pi_seckill_price = p_seckill_price x,
     pi_limit_per_user = p_limit_per_user x, pi_status = p_status x, pi_start_time = p_start_time x,
     pi_end_time = p_end_time x\<rparr>"

definition seckill_product ::
  "('r, 'd, 'q) env \<Rightarrow> int \<Rightarrow> int \<Rightarrow> ('r, 'd, 'q) world \<Rightarrow> ('r, 'd, 'q) world \<times> product_info result" where
  "seckill_product ev now productID w =
     (case on_redis (GetProductCache (ev_call ev) (ev_tf ev) productID) w of
        (w1, Inr info) \<Rightarrow> (w1, Inr info)
      | (w1, Inl _) \<Rightarrow>
          (case on_db (GetProductByID (ev_db ev) productID) w1 of
             (w2, Inl _) \<Rightarrow> (w2, Inl (Errf ''product does not exist''))
           | (w2, Inr x) \<Rightarrow>
               (let info = info_of_product x
                in (fst (on_redis (SetProductCache (ev_call ev) (ev_tf ev) productID info (pi_end_time info - now)) w2),
                    Inr info))))"

section \<open>Admission\<close>

text \<open>The brackets around the specification, as UTF-8 bytes.\<close>

definition lenticular :: "string \<Rightarrow> string" where
  "lenticular s = [CHR 0xE3, CHR 0x80, CHR 0x90] @ s @ [CHR 0xE3, CHR 0x80, CHR 0x91]"

definition seckill_sku ::
  "('r, 'd, 'q) env \<Rightarrow> (string \<Rightarrow> (string \<times> string) list option) \<Rightarrow> seckill_args \<Rightarrow> product_info \<Rightarrow> ('r, 'd, 'q) world
     \<Rightarrow> ('r, 'd, 'q) world \<times> product_info result" where
  "seckill_sku ev spec_of a info w =
     (if sa_sku a > 0
      then (case on_db (GetSKUByID (ev_db ev) (sa_sku a)) w of
              (w1, Inl _) \<Rightarrow> (w1, Inl (NewSeckillError ErrProductOffline [] 400))
            | (w1, Inr sku) \<Rightarrow>
                if k_product_id sku \<noteq> sa_product a then (w1, Inl (NewSeckillError ErrProductOffline [] 400))
                else let txt = (case spec_of (k_spec sku) of None \<Rightarrow> []
                           | Some kvs \<Rightarrow> concat (map (\<lambda>(k, v). k @ '':'' @ v @ '' '') kvs))
                     in (w1, Inr (info\<lparr>pi_seckill_price := k_price sku, pi_name := pi_name info @ lenticular txt\<rparr>)))
      else (w, Inr info))"

definition seckill_admit ::
  "('r, 'd, 'q) env \<Rightarrow> (string \<Rightarrow> (string \<times> string) list option) \<Rightarrow> int \<Rightarrow> seckill_args \<Rightarrow> product_info
     \<Rightarrow> ('r, 'd, 'q) world \<Rightarrow> ('r, 'd, 'q) world \<times> product_info result" where
  "seckill_admit ev spec_of now a info w =
     (if pi_status info \<noteq> 1 then (w, Inl (NewSeckillError ErrProductOffline [] 400))
      else if now < pi_start_time info \<or> now > pi_end_time info
      then (w, Inl (NewSeckillError ErrNotInSeckillTime [] 400))
      else case seckill_sku ev spec_of a info w of
          (w1, Inl e) \<Rightarrow> (w1, Inl e)
        | (w1, Inr info1) \<Rightarrow>
            (let lmt = (if pi_limit_per_user info1 \<le> 0 then 1 else pi_limit_per_user info1) in
             if sa_quantity a > lmt then (w1, Inl (NewSeckillError ErrExceedLimit [lmt] 400))
             else (w1, Inr (info1\<lparr>pi_limit_per_user := lmt\<rparr>))))"

section \<open>The order message\<close>

text \<open>\<^verbatim>\<open>json.Marshal\<close> of a map of strings and finite numbers succeeds.\<close>

definition json_Marshal :: "msg \<Rightarrow> body result" where
  "json_Marshal m = Inr (JsonBody m)"

definition order_body :: "seckill_args \<Rightarrow> product_info \<Rightarrow> string \<Rightarrow> msg" where
  "order_body a info orderNo = [''order_no'' \<mapsto> JStr orderNo, ''user_id'' \<mapsto> JNum (of_int (sa_user a)),
     ''product_id'' \<mapsto> JNum (of_int (sa_product a)), ''product_name'' \<mapsto> JStr (pi_name info),
     ''seckill_price'' \<mapsto> JNum (pi_seckill_price info), ''quantity'' \<mapsto> JNum (of_int (sa_quantity a)),
     ''total_amount'' \<mapsto> JNum (pi_seckill_price info * of_int (sa_quantity a))]"

definition queued_body :: "seckill_args \<Rightarrow> product_info \<Rightarrow> int \<Rightarrow> string \<Rightarrow> msg" where
  "queued_body a info now orderNo = (order_body a info orderNo)(''timestamp'' \<mapsto> JNum (of_int now))"

definition delay_body :: "seckill_args \<Rightarrow> string \<Rightarrow> msg" where
  "delay_body a orderNo = [''order_no'' \<mapsto> JStr orderNo, ''user_id'' \<mapsto> JNum (of_int (sa_user a)),
     ''product_id'' \<mapsto> JNum (of_int (sa_product a)), ''quantity'' \<mapsto> JNum (of_int (sa_quantity a)),
     ''type'' \<mapsto> JStr ''order_timeout_check'']"

definition queued_response :: "string \<Rightarrow> seckill_response" where
  "queued_response orderNo = \<lparr>sr_order_no = orderNo, sr_status = ''queued'',
     sr_message = ''queued, look at the order later''\<rparr>"

definition seckill_succeeded :: "seckill_args \<Rightarrow> product_info \<Rightarrow> ('r, 'd, 'q) world \<Rightarrow> ('r, 'd, 'q) world" where
  "seckill_succeeded a info w =
     on_mon (with_engine (IncProductSales (sa_product a) (pi_name info) (sa_quantity a)))
       (on_mon (IncSeckillSuccess (sa_product a)) w)"

text \<open>The synchronous creation when the queue refuses the message.\<close>

definition seckill_fallback ::
  "('r, 'd, 'q) env \<Rightarrow> int \<Rightarrow> int \<Rightarrow> seckill_args \<Rightarrow> product_info \<Rightarrow> string \<Rightarrow> ('r, 'd, 'q) world
     \<Rightarrow> ('r, 'd, 'q) world \<times> seckill_response result" where
  "seckill_fallback ev now later a info orderNo w =
     (case svc_CreateOrder ev now (order_body a info orderNo) w of
        (w1, Inl fbErr) \<Rightarrow>
          (let w2 = undo_purchase ev a w1;
               w3 = raise_alarm now ''RabbitMQ down and synchronous order creation failed''
                      (seckill_failed (sa_product a) ''mq_error'' w2)
           in (w3, Inl (NewSeckillError ErrMQDown [] 503)))
      | (w1, Inr _) \<Rightarrow>
          (trackBehavior ev a ''success'' [] now later (seckill_succeeded a info w1), Inr (queued_response orderNo)))"

definition seckill_publish ::
  "('r, 'd, 'q) env \<Rightarrow> int \<Rightarrow> int \<Rightarrow> seckill_args \<Rightarrow> product_info \<Rightarrow> string \<Rightarrow> ('r, 'd, 'q) world
     \<Rightarrow> ('r, 'd, 'q) world \<times> seckill_response result" where
  "seckill_publish ev now later a info orderNo w =
     (case json_Marshal (queued_body a info now orderNo) of
        Inl err \<Rightarrow> (seckill_failed (sa_product a) ''marshal_error'' (undo_purchase ev a w),
                    Inl (Wrapf ''order message serialisation failed'' err))
      | Inr bd \<Rightarrow>
          (let ex = rx_order (rb_exchange (ev_rabbit ev)); qu = rb_queue (ev_rabbit ev) in
           case on_mq (PublishOrder (ev_amqp ev) ex (rq_order qu) bd) w of
             (w1, Inl err) \<Rightarrow> if err = GoPanic then (w1, Inl GoPanic)
                              else seckill_fallback ev now later a info orderNo w1
           | (w1, Inr _) \<Rightarrow>
               (let w2 = fst (on_mq (PublishDelay (ev_amqp ev) ex (rq_delay qu) (JsonBody (delay_body a orderNo))) w1);
                    w3 = seckill_succeeded a info (trackBehavior ev a ''success'' [] now later w2)
                in (w3, Inr (queued_response orderNo)))))"

section \<open>The purchase\<close>

definition seckill_buy ::
  "('r, 'd, 'q) env \<Rightarrow> ('g \<Rightarrow> 'g \<times> string result) \<Rightarrow> int \<Rightarrow> int \<Rightarrow> seckill_args \<Rightarrow> product_info \<Rightarrow> 'g
     \<Rightarrow> ('r, 'd, 'q) world \<Rightarrow> 'g \<times> ('r, 'd, 'q) world \<times> seckill_response result" where
  "seckill_buy ev gen now later a info g w =
     (let productID = sa_product a; expireTime = pi_end_time info - now in
      case on_redis (DecrStockAndIncrPurchaseWithIdempotent (ev_call ev) (sa_user a) productID (sa_quantity a)
             (pi_limit_per_user info) expireTime (sa_idem a)) w of
        (w1, Inl err) \<Rightarrow>
          if err = GoPanic then (g, w1, Inl GoPanic)
          else (g, raise_alarm now ''Redis stock deduction failed'' (seckill_failed productID ''redis_error'' w1),
            Inl (NewSeckillError ErrRedisDown [] 503))
      | (w1, Inr (remainStock, newCount, code)) \<Rightarrow>
          if code = -4 then (g, w1, Inl (NewSeckillError ErrDuplicateSubmit [] 400))
          else if code = -1 then (g, seckill_failed productID ''redis_error'' w1, Inl (NewSeckillError ErrRedisDown [] 503))
          else if code = -2 then
            (g, trackBehavior ev a ''fail'' ''out of stock'' now later (seckill_failed productID ''out_of_stock'' w1),
             Inl (NewSeckillError ErrStockInsufficient [] 400))
          else if code = -3 then (g, seckill_failed productID ''duplicate'' w1,
             Inl (NewSeckillError ErrAlreadyPurchased [pi_limit_per_user info, newCount] 400))
          else (case gen g of
              (g1, Inl err) \<Rightarrow> (g1, seckill_failed productID ''order_no_error'' (undo_purchase ev a w1),
                 Inl (Wrapf ''order number generation failed'' err))
            | (g1, Inr orderNo) \<Rightarrow> (g1, seckill_publish ev now later a info orderNo w1)))"

definition svc_ExecuteSeckill ::
  "('r, 'd, 'q) env \<Rightarrow> (string \<Rightarrow> (string \<times> string) list option) \<Rightarrow> ('g \<Rightarrow> 'g \<times> string result) \<Rightarrow> int \<Rightarrow> int
     \<Rightarrow> seckill_args \<Rightarrow> 'g \<Rightarrow> ('r, 'd, 'q) world \<Rightarrow> 'g \<times> ('r, 'd, 'q) world \<times> seckill_response result" where
  "svc_ExecuteSeckill ev spec_of gen now later a g w =
     (case seckill_product ev now (sa_product a) w of
        (w1, Inl e) \<Rightarrow> (g, w1, Inl e)
      | (w1, Inr info) \<Rightarrow>
          (case seckill_admit ev spec_of now a info w1 of
             (w2, Inl e) \<Rightarrow> (g, w2, Inl e)
           | (w2, Inr info1) \<Rightarrow> seckill_buy ev gen now later a info1 g w2))"

end
