(* ===== verification/Seckill_Sale.thy ===== *)
theory Seckill_Sale
  imports Seckill_Service Order_Consumer
begin

text \<open>
  What \<open>ExecuteSeckill\<close> promises: no overselling across the service, Redis, the queue and the
  database under any faults; every accepted request leaves a message the order consumer can
  read, or its order row; a refused request leaves the shop as it was while Redis answers.
\<close>

section \<open>Redis effects of the parts\<close>

lemma CreateOrder_redis [simp]: "w_redis (fst (svc_CreateOrder ev now m w)) = w_redis w"
  by (auto simp: svc_CreateOrder_def on_db_def split: sum.splits prod.splits)

lemma CreateOrder_frame: "svc_CreateOrder ev now m w = (w', r) \<Longrightarrow> w_redis w' = w_redis w"
  by (metis CreateOrder_redis fst_conv)

lemma seckill_sku_redis: "seckill_sku ev spec a info w = (w', r) \<Longrightarrow> w_redis w' = w_redis w"
  by (auto simp: seckill_sku_def on_db_def Let_def split: if_splits prod.splits sum.splits)

lemma seckill_admit_redis: "seckill_admit ev spec now a info w = (w', r) \<Longrightarrow> w_redis w' = w_redis w"
  by (auto simp: seckill_admit_def Let_def dest: seckill_sku_redis split: if_splits prod.splits sum.splits)

lemma mon_kafka_redis [simp]:
  "w_redis (trackBehavior ev a act r st lt w) = w_redis w"
  "w_redis (seckill_failed p r w) = w_redis w" "w_redis (raise_alarm n m w) = w_redis w"
  "w_redis (seckill_succeeded a info w) = w_redis w"
  by (simp_all add: trackBehavior_def seckill_failed_def raise_alarm_def seckill_succeeded_def)

lemma on_mq_redis [simp]: "w_redis (fst (on_mq f w)) = w_redis w"
  by (simp add: on_mq_def split: prod.splits)

lemma fallback_redis:
  "seckill_fallback ev now later a info no w = (w', r) \<Longrightarrow>
    w_redis w' = (if \<exists>x. r = Inr x then w_redis w else w_redis (undo_purchase ev a w))"
  by (auto simp: seckill_fallback_def undo_purchase_def on_redis_def Let_def dest!: CreateOrder_frame
      split: prod.splits sum.splits)

lemma publish_redis:
  "seckill_publish ev now later a info no w = (w', r) \<Longrightarrow>
    w_redis w' = w_redis w \<or> (\<forall>x. r \<noteq> Inr x) \<and> w_redis w' = w_redis (undo_purchase ev a w)"
  by (auto simp: seckill_publish_def json_Marshal_def Let_def undo_purchase_def on_redis_def on_mq_def
      dest!: fallback_redis split: prod.splits sum.splits if_splits)

section \<open>No overselling\<close>

definition max_int64 :: int where
  "max_int64 = 9223372036854775807"

lemma in_int64_max: "in_int64 i \<Longrightarrow> i \<le> max_int64"
  by (simp add: in_int64_def max_int64_def)

text \<open>The limit column holds Go integers.\<close>

definition limits_ok :: "database \<Rightarrow> bool" where
  "limits_ok v \<longleftrightarrow> (\<forall>x \<in> set (t_rows (db_products v)). in_int64 (p_limit_per_user x))"

lemma parseInt_int64: "in_int64 (ignore_err 0 (parseInt v))"
  by (auto simp: parseInt_def ignore_err_def in_int64_def split: option.splits)

lemma decode_product_limit: "decode_product tf r = Inr info \<Longrightarrow> in_int64 (pi_limit_per_user info)"
  by (auto simp: decode_product_def parseInt_int64 split: reply.splits list.splits option.splits)

context redis_server
begin

lemma cache_same_shop:
  "GetProductCache call tf p s = (s', r) \<Longrightarrow> same_shop (kv s) (kv s')"
  "SetProductCache call tf p info ttl s = (s', r') \<Longrightarrow> same_shop (kv s) (kv s')"
proof -
  show "same_shop (kv s) (kv s')" if run: "GetProductCache call tf p s = (s', r)"
  proof -
    obtain a where a: "call s (HMGET (product_key p) product_fields) = (s', a)"
      using run by (auto simp: GetProductCache_def split: prod.splits)
    show ?thesis
      by (rule call_keeps [OF a, where I = "same_shop (kv s)"]) (auto split: option.splits)
  qed
next
  show "same_shop (kv s) (kv s')" if run: "SetProductCache call tf p info ttl s = (s', r')"
  proof -
    obtain r where r: "call s (HMSET (product_key p) (encode_product tf info)) = (s', r)"
      using run by (auto simp: SetProductCache_def split: prod.splits)
    show ?thesis
      by (rule call_keeps [OF r, where I = "same_shop (kv s)"]) (auto split: option.splits)
  qed
qed

end

lemma product_limit:
  assumes "db_server ops view" "GetProductByID ops p d = (d', Inr x)" "limits_ok (view d)"
  shows "in_int64 (p_limit_per_user x)"
proof -
  obtain a where a: "on_product ops (First (\<lambda>y. p_id y = p)) d = (d', a)" "answer_row a = Inr x"
    using assms(2) by (auto simp: GetProductByID_def split: prod.splits)
  have "(view d', a) = exec_product (First (\<lambda>y. p_id y = p)) (view d)"
    using db_server.product_stmt [OF assms(1) a(1)] a(2) by (auto simp: db_outcome_def)
  then have "x \<in> set (t_rows (db_products (view d)))"
    using first_answer [of product_schema "db_products (view d)" "\<lambda>y. p_id y = p"] a(2)
    by (auto simp: exec_product_def split: prod.splits)
  with assms(3) show ?thesis
    by (simp add: limits_ok_def)
qed

lemma same_shop_trans: "same_shop a b \<Longrightarrow> same_shop b c \<Longrightarrow> same_shop a c"
  by (simp add: same_shop_def)

text \<open>The product read of a call: it leaves stock and counters alone and gives a Go limit.\<close>

lemma seckill_product_facts:
  assumes "redis_server (ev_call ev) kv" "db_server (ev_db ev) view" "limits_ok (view (w_db w))"
    "seckill_product ev now p w = (w', r)"
  shows "same_shop (kv (w_redis w)) (kv (w_redis w'))" "r = Inr info \<Longrightarrow> in_int64 (pi_limit_per_user info)"
proof -
  obtain w1 r1 where c: "on_redis (GetProductCache (ev_call ev) (ev_tf ev) p) w = (w1, r1)"
    by fastforce
  have same1: "same_shop (kv (w_redis w)) (kv (w_redis w1))"
    by (rule redis_server.cache_same_shop(1) [OF assms(1) on_redisD [OF c]])
  have db1: "w_db w1 = w_db w"
    using c by (auto simp: on_redis_def split: prod.splits)
  have hit: "in_int64 (pi_limit_per_user i)" if "r1 = Inr i" for i
    using on_redisD [OF c] that by (auto simp: GetProductCache_def dest: decode_product_limit split: prod.splits)
  obtain w2 r2 where d: "on_db (GetProductByID (ev_db ev) p) w1 = (w2, r2)"
    by fastforce
  have re2: "w_redis w2 = w_redis w1"
    using d by (auto simp: on_db_def split: prod.splits)
  have row: "in_int64 (p_limit_per_user x)" if "r2 = Inr x" for x
    using product_limit [OF assms(2) on_dbD [OF d [unfolded that]]] assms(3) db1 by simp
  have same3: "same_shop (kv (w_redis w2)) (kv (w_redis (fst (on_redis (SetProductCache (ev_call ev) (ev_tf ev) p i t) w2))))" for i t
    by (rule redis_server.cache_same_shop(2) [OF assms(1) on_redisD [OF prod.collapse [symmetric],
          of "SetProductCache (ev_call ev) (ev_tf ev) p i t" w2]])
  show "same_shop (kv (w_redis w)) (kv (w_redis w'))"
    using assms(4) c d same1 same3 re2
    by (auto simp: seckill_product_def Let_def split: sum.splits intro: same_shop_trans)
  show "in_int64 (pi_limit_per_user info)" if "r = Inr info"
    using assms(4) c d hit row that
    by (auto simp: seckill_product_def Let_def info_of_product_def split: sum.splits)
qed

lemma seckill_sku_limit: "seckill_sku ev spec a info w = (w', Inr i) \<Longrightarrow> pi_limit_per_user i = pi_limit_per_user info"
  by (auto simp: seckill_sku_def Let_def split: if_splits prod.splits sum.splits)

lemma seckill_admit_limit:
  "seckill_admit ev spec now a info w = (w', Inr i) \<Longrightarrow> in_int64 (pi_limit_per_user info) \<Longrightarrow> in_int64 (pi_limit_per_user i)"
  by (auto simp: seckill_admit_def Let_def in_int64_def dest!: seckill_sku_limit split: if_splits prod.splits sum.splits)

text \<open>The steps of a call, as a sale of \<open>Redis_Shop\<close>.\<close>

lemma sale_run_undo_purchase:
  assumes "sale_run (ev_call ev) kv (\<lambda>_. max_int64) p s n (w_redis w)" "0 < sa_quantity a"
    "m = (if sa_product a = p then sa_quantity a else 0)" "m \<le> n"
  shows "sale_run (ev_call ev) kv (\<lambda>_. max_int64) p s (n - m) (w_redis (undo_purchase ev a w))"
proof -
  obtain w1 r1 where i: "on_redis (IncrStock (ev_call ev) (sa_product a) (sa_quantity a)) w = (w1, r1)"
    by fastforce
  obtain w2 r2 where d: "on_redis (DecrUserPurchaseCount (ev_call ev) (sa_user a) (sa_product a) (sa_quantity a)) w1 = (w2, r2)"
    by fastforce
  have "sale_run (ev_call ev) kv (\<lambda>_. max_int64) p s (n - m) (w_redis w1)"
    by (rule sale_run.undo [OF assms(1) on_redisD [OF i] _ assms(3,4)]) (use assms(2) in simp)
  from sale_run.undo_count [OF this on_redisD [OF d] assms(2)] show ?thesis
    using i d by (simp add: undo_purchase_def)
qed

lemma seckill_buy_run:
  assumes "redis_server (ev_call ev) kv" "in_int64 (pi_limit_per_user info)" "0 < sa_quantity a"
    "sale_run (ev_call ev) kv (\<lambda>_. max_int64) p s n (w_redis w)" "0 \<le> n"
    "shop_ok (\<lambda>_. max_int64) (kv (w_redis w))"
    "seckill_buy ev gen now later a info g w = (g', w', res)"
    "m = (if sa_product a = p \<and> (\<exists>x. res = Inr x) then sa_quantity a else 0)"
  shows "\<exists>N. n + m \<le> N \<and> sale_run (ev_call ev) kv (\<lambda>_. max_int64) p s N (w_redis w')"
proof -
  let ?run = "sale_run (ev_call ev) kv (\<lambda>_. max_int64) p s"
  let ?q = "if sa_product a = p then sa_quantity a else 0"
  obtain w1 r1 where c: "on_redis (DecrStockAndIncrPurchaseWithIdempotent (ev_call ev) (sa_user a) (sa_product a)
      (sa_quantity a) (pi_limit_per_user info) (pi_end_time info - now) (sa_idem a)) w = (w1, r1)"
    by fastforce
  have bought: "?run (n + k) (w_redis w1)"
    if "k = (if sa_product a = p \<and> (\<exists>x y. r1 = Inr (x, y, 1)) then sa_quantity a else 0)" for k
    by (rule sale_run.submit [OF assms(4) on_redisD [OF c] assms(3,2) _ that]) (rule in_int64_max [OF assms(2)])
  show ?thesis
  proof (cases "\<exists>x y. r1 = Inr (x, y, 1)")
    case False
    have "r1 = Inr (x, y, z) \<Longrightarrow> z \<in> {-1, -2, -3, -4}" for x y z
      using redis_server.purchase_code [OF assms(1) _ assms(6,3,2)] on_redisD [OF c] False by fastforce
    then have "w_redis w' = w_redis w1" "\<nexists>x. res = Inr x"
      using assms(7) c by (auto simp: seckill_buy_def Let_def split: sum.splits if_splits)
    then show ?thesis
      using bought [OF refl] False assms(8) by auto
  next
    case True
    then obtain x y where r1: "r1 = Inr (x, y, 1)" by blast
    have b: "?run (n + ?q) (w_redis w1)"
      using bought [OF refl] r1 by (auto split: if_splits)
    have u: "?run n (w_redis (undo_purchase ev a w1))"
      using sale_run_undo_purchase [OF b assms(3) refl] assms(5) by (auto split: if_splits)
    obtain g1 no where g: "gen g = (g1, no)" by fastforce
    show ?thesis
    proof (cases no)
      case (Inl e)
      then have "\<nexists>x. res = Inr x" "w_redis w' = w_redis (undo_purchase ev a w1)"
        using assms(7) c r1 g by (auto simp: seckill_buy_def)
      then show ?thesis using u assms(8) by auto
    next
      case (Inr orderNo)
      then have "seckill_publish ev now later a info orderNo w1 = (w', res)"
        using assms(7) c r1 g by (simp add: seckill_buy_def)
      from publish_redis [OF this] show ?thesis
        using b u assms(3,8) by (auto intro: exI [of _ "n + ?q"] exI [of _ n])
    qed
  qed
qed

text \<open>
  A sale seen by the service: whole calls of \<open>ExecuteSeckill\<close> in any order, returns of units
  by cancelled and timed-out orders, work elsewhere (any service that leaves stock and counters
  alone) and the passing of time. The index counts the accepted units that were not returned.
\<close>

inductive shop_run ::
  "('r, 'd, 'q) env \<Rightarrow> ('r \<Rightarrow> keyspace) \<Rightarrow> ('d \<Rightarrow> database) \<Rightarrow> (string \<Rightarrow> (string \<times> string) list option) \<Rightarrow>
    ('g \<Rightarrow> 'g \<times> string result) \<Rightarrow> int \<Rightarrow> ('r, 'd, 'q) world \<Rightarrow> int \<Rightarrow> ('r, 'd, 'q) world \<Rightarrow> bool"
  for ev kv view spec gen p w where
  opened: "shop_run ev kv view spec gen p w 0 w"
| seckill: "shop_run ev kv view spec gen p w n w1 \<Longrightarrow> limits_ok (view (w_db w1)) \<Longrightarrow> 0 < sa_quantity a \<Longrightarrow>
    svc_ExecuteSeckill ev spec gen now later a g w1 = (g', w2, res) \<Longrightarrow>
    m = (if sa_product a = p \<and> (\<exists>x. res = Inr x) then sa_quantity a else 0) \<Longrightarrow>
    shop_run ev kv view spec gen p w (n + m) w2"
| return: "shop_run ev kv view spec gen p w n w1 \<Longrightarrow> 0 < sa_quantity a \<Longrightarrow>
    w_redis w2 = w_redis (undo_purchase ev a w1) \<Longrightarrow>
    m = (if sa_product a = p then sa_quantity a else 0) \<Longrightarrow> m \<le> n \<Longrightarrow>
    shop_run ev kv view spec gen p w (n - m) w2"
| elsewhere: "shop_run ev kv view spec gen p w n w1 \<Longrightarrow>
    same_shop (kv (w_redis w1)) (kv (w_redis w2)) \<Longrightarrow> shop_run ev kv view spec gen p w n w2"
| pass: "shop_run ev kv view spec gen p w n w1 \<Longrightarrow> kv (w_redis w2) = tick d (kv (w_redis w1)) \<Longrightarrow> 0 \<le> d \<Longrightarrow>
    shop_run ev kv view spec gen p w n w2"

lemma seckill_call_run:
  assumes "redis_server (ev_call ev) kv" "db_server (ev_db ev) view" "limits_ok (view (w_db w))"
    "0 < sa_quantity a" "sale_run (ev_call ev) kv (\<lambda>_. max_int64) p s n (w_redis w)" "0 \<le> n"
    "shop_ok (\<lambda>_. max_int64) (kv (w_redis w))"
    "svc_ExecuteSeckill ev spec gen now later a g w = (g', w', res)"
    "m = (if sa_product a = p \<and> (\<exists>x. res = Inr x) then sa_quantity a else 0)"
  shows "\<exists>N. n + m \<le> N \<and> sale_run (ev_call ev) kv (\<lambda>_. max_int64) p s N (w_redis w')"
proof -
  obtain w1 r1 where prod: "seckill_product ev now (sa_product a) w = (w1, r1)" by fastforce
  have same: "same_shop (kv (w_redis w)) (kv (w_redis w1))"
    by (rule seckill_product_facts(1) [OF assms(1-3) prod])
  have run1: "sale_run (ev_call ev) kv (\<lambda>_. max_int64) p s n (w_redis w1)"
    by (rule sale_run.other_key [OF assms(5) same])
  show ?thesis
  proof (cases r1)
    case (Inl e)
    then show ?thesis using assms(8,9) prod run1 by (auto simp: svc_ExecuteSeckill_def)
  next
    case (Inr info)
    obtain w2 r2 where adm: "seckill_admit ev spec now a info w1 = (w2, r2)" by fastforce
    have re: "w_redis w2 = w_redis w1"
      by (rule seckill_admit_redis [OF adm])
    show ?thesis
    proof (cases r2)
      case (Inl e)
      then show ?thesis using assms(8,9) prod Inr adm re run1 by (auto simp: svc_ExecuteSeckill_def)
    next
      case (Inr info1)
      have lim: "in_int64 (pi_limit_per_user info1)"
        using seckill_admit_limit [OF adm [unfolded Inr]] seckill_product_facts(2) [OF assms(1-3) prod \<open>r1 = Inr info\<close>] .
      show ?thesis
        by (rule seckill_buy_run [OF assms(1) lim assms(4) _ assms(6) _ _ assms(9)])
          (use assms(8) prod \<open>r1 = Inr info\<close> adm Inr re run1 same_shop_ok [OF same assms(7)]
            in \<open>simp_all add: svc_ExecuteSeckill_def\<close>)
    qed
  qed
qed

lemma shop_run_sale:
  assumes "shop_run ev kv view spec gen p w n w'" "redis_server (ev_call ev) kv" "db_server (ev_db ev) view"
    "shop_ok (\<lambda>_. max_int64) (kv (w_redis w))" "int_at (kv (w_redis w)) (stock_key p) = Some st"
    "persistent (kv (w_redis w)) (stock_key p)"
  shows "0 \<le> n \<and> (\<exists>N. n \<le> N \<and> sale_run (ev_call ev) kv (\<lambda>_. max_int64) p (w_redis w) N (w_redis w'))"
  using assms(1)
proof induction
  case opened
  show ?case by (auto intro: sale_run.start)
next
  case (seckill n w1 a now later g g' w2 res m)
  then obtain N where N: "n \<le> N" "sale_run (ev_call ev) kv (\<lambda>_. max_int64) p (w_redis w) N (w_redis w1)" "0 \<le> n"
    by blast
  have ok: "shop_ok (\<lambda>_. max_int64) (kv (w_redis w1))"
    using redis_server.sale_run_bound [OF assms(2) N(2) assms(4-6)] by blast
  obtain M where "N + m \<le> M" "sale_run (ev_call ev) kv (\<lambda>_. max_int64) p (w_redis w) M (w_redis w2)"
    using seckill_call_run [OF assms(2,3) seckill(2,3) N(2) _ ok seckill(4,5)] N by auto
  with N seckill(3,5) show ?case by (auto intro!: exI [of _ M])
next
  case (return n w1 a w2 m)
  then obtain N where "n \<le> N" "sale_run (ev_call ev) kv (\<lambda>_. max_int64) p (w_redis w) N (w_redis w1)"
    by blast
  with sale_run_undo_purchase [OF this(2) return(2,4)] return show ?case
    by (auto intro!: exI [of _ "N - m"])
next
  case (elsewhere n w1 w2)
  then show ?case by (blast intro: sale_run.other_key)
next
  case (pass n w1 w2 d)
  then show ?case by (blast intro: sale_run.wait)
qed

section \<open>A concrete call\<close>

definition demo_args :: seckill_args where
  "demo_args = \<lparr>sa_user = 7, sa_product = 1, sa_quantity = 2, sa_sku = 0, sa_idem = ''k'', sa_ip = ''10.0.0.1'',
     sa_trace = ''t1''\<rparr>"

definition demo_gen :: "nat \<Rightarrow> nat \<times> string result" where
  "demo_gen n = (Suc n, Inr ''A1'')"

definition demo_sale_info :: product_info where
  "demo_sale_info = info_of_product demo_product"

lemma demo_args_sel [simp]:
  "sa_user demo_args = 7" "sa_product demo_args = 1" "sa_quantity demo_args = 2" "sa_sku demo_args = 0"
  "sa_idem demo_args = ''k''"
  by (simp_all add: demo_args_def)

definition demo_cached :: faulty_server where
  "demo_cached = \<lparr>fs_ks = put (fs_ks demo_redis) (product_key 1)
     (RHash (map_of (rev (encode_product demo_layout demo_sale_info)))) None, fs_faults = []\<rparr>"

lemma demo_redis_faults: "fs_faults demo_redis = []"
  by (simp add: demo_redis_def PreloadStock_def faulty_call_def fresh_redis_def set_ttl_def put_ttl_def)

lemma demo_hash: "live (fs_ks demo_redis) (product_key 1) = None"
  "hash_at (fs_ks demo_redis) (product_key 1) = Some Map.empty"
  by (simp_all add: demo_redis_ks live_put hash_at_def) (simp_all add: live_def empty_keyspace_def)

lemma demo_cache_miss: "GetProductCache faulty_call demo_layout 1 demo_redis = (demo_redis, Inl (Errf ''no cache entry''))"
  by (simp add: GetProductCache_def faulty_call_def demo_redis_faults demo_hash decode_product_def product_fields_def)

lemma demo_cache_fill:
  "SetProductCache faulty_call demo_layout 1 demo_sale_info ttl demo_redis = (demo_cached, Inr ())"
  by (simp add: SetProductCache_def faulty_call_def demo_redis_faults demo_hash demo_cached_def)

lemma demo_product_row: "GetProductByID plain_ops 1 demo_db = (demo_db, Inr demo_product)"
  by (simp add: GetProductByID_def exec_product_def matching_def demo_db_def demo_product_def selected_def product_schema_def)

lemma demo_seckill_product:
  "seckill_product demo_env 1000 1 demo_world = (demo_world\<lparr>w_redis := demo_cached\<rparr>, Inr demo_sale_info)"
  by (simp add: seckill_product_def on_redis_def on_db_def demo_cache_miss demo_product_row demo_cache_fill
      Let_def flip: demo_sale_info_def)

lemma demo_admit:
  "seckill_admit demo_env spec 1000 demo_args demo_sale_info w = (w, Inr demo_sale_info)"
  by (simp add: seckill_admit_def seckill_sku_def demo_sale_info_def info_of_product_def demo_product_def Let_def)

lemma demo_purchase_cached:
  "\<exists>s'. DecrStockAndIncrPurchaseWithIdempotent faulty_call 7 1 2 3 89000 ''k'' demo_cached = (s', Inr (8, 2, 1))"
  by (simp add: client_op_defs faulty_call_def demo_cached_def demo_redis_ks demo_redis_faults put_ttl_def
      purchase_idem_lua_def purchase_lua_def lua_call_def lua_get_def lua_count_def lua_return_def
      decode_purchase_def Seconds_def redis_simps in_int64_def live_def empty_keyspace_def put_def)

lemma demo_publish:
  "\<exists>q'. PublishOrder demo_amqp ex key bd (demo_mq_state []) = (q', Inr ())"
  by (simp add: PublishOrder_def publish_on_pool_def demo_mq_state_def pool_Get_def demo_amqp_def
      demo_amqp_publish_def fresh_broker_def Let_def)

lemma demo_seckill:
  "\<exists>w'. svc_ExecuteSeckill demo_env spec demo_gen 1000 1001 demo_args 0 demo_world
      = (1, w', Inr (queued_response ''A1''))"
proof -
  obtain s' where s': "DecrStockAndIncrPurchaseWithIdempotent faulty_call 7 1 2 3 89000 ''k'' demo_cached
      = (s', Inr (8, 2, 1))"
    using demo_purchase_cached by blast
  have info: "pi_limit_per_user demo_sale_info = 3" "pi_end_time demo_sale_info = 90000"
    by (simp_all add: demo_sale_info_def info_of_product_def demo_product_def)
  obtain q' where q': "PublishOrder demo_amqp (rx_order (rb_exchange (ev_rabbit demo_env)))
      (rq_order (rb_queue (ev_rabbit demo_env))) (JsonBody (queued_body demo_args demo_sale_info 1000 ''A1''))
      (demo_mq_state []) = (q', Inr ())"
    using demo_publish by blast
  show ?thesis
    using s' q' by (simp add: svc_ExecuteSeckill_def demo_seckill_product demo_admit seckill_buy_def on_redis_def info
        demo_gen_def seckill_publish_def json_Marshal_def on_mq_def Let_def)
qed

section \<open>Properties\<close>

text \<open>
  C4. The service never oversells: in any run of \<open>ExecuteSeckill\<close> calls, returns by cancelled
  orders, other work and waiting, with any faults of Redis, MySQL and RabbitMQ, the accepted and
  not returned units of a product plus its remaining stock are at most the stock the sale opened
  with, and the stock is not negative.
\<close>

theorem seckill_no_oversell:
  assumes "redis_server (ev_call ev) kv" "db_server (ev_db ev) view"
    "shop_run ev kv view spec gen p w n w'" "shop_ok (\<lambda>_. max_int64) (kv (w_redis w))"
    "int_at (kv (w_redis w)) (stock_key p) = Some st" "persistent (kv (w_redis w)) (stock_key p)"
  shows "\<exists>st'. int_at (kv (w_redis w')) (stock_key p) = Some st' \<and> 0 \<le> st' \<and> n + st' \<le> st"
proof -
  obtain N where N: "n \<le> N" "sale_run (ev_call ev) kv (\<lambda>_. max_int64) p (w_redis w) N (w_redis w')"
    using shop_run_sale [OF assms(3,1,2,4-6)] by blast
  from redis_server.sale_run_bound [OF assms(1) N(2) assms(4-6)] N(1) show ?thesis
    by (metis add_right_mono order_trans shop_ok_stock)
qed

lemma demo_redis_sale:
  "shop_ok (\<lambda>_. max_int64) (fs_ks demo_redis)"
  unfolding demo_redis_ks by (rule preload_keeps) (simp_all add: shop_ok_empty in_int64_def max_int64_def)

theorem seckill_no_oversell_witness:
  "\<exists>w' st'. svc_ExecuteSeckill demo_env (\<lambda>_. None) demo_gen 1000 1001 demo_args 0 demo_world
      = (1, w', Inr (queued_response ''A1'')) \<and>
    int_at (fs_ks (w_redis w')) (stock_key 1) = Some st' \<and> 0 \<le> st' \<and> 2 + st' \<le> 10"
proof -
  obtain w' where w': "svc_ExecuteSeckill demo_env (\<lambda>_. None) demo_gen 1000 1001 demo_args 0 demo_world
      = (1, w', Inr (queued_response ''A1''))"
    using demo_seckill by blast
  have lim: "limits_ok (id (w_db demo_world))"
    by (simp add: limits_ok_def demo_db_def demo_product_def in_int64_def)
  have "shop_run demo_env fs_ks id (\<lambda>_. None) demo_gen 1 demo_world (0 + 2) w'"
    by (rule shop_run.seckill [OF shop_run.opened _ _ w']) (use lim in simp_all)
  then have "shop_run demo_env fs_ks id (\<lambda>_. None) demo_gen 1 demo_world 2 w'"
    by simp
  with seckill_no_oversell [of demo_env fs_ks id, OF _ _ this, of 10] w' show ?thesis
    using faulty.redis_server_axioms plain_mysql.db_server_axioms demo_redis_sale demo_redis_at by auto
qed

text \<open>
  What the service queues is what the consumer creates: the message of an accepted request,
  on the queue and on the synchronous fallback, parses to an order of the same number, user,
  product, price and quantity, its total the price times the quantity; its delay message names
  the order that the timeout handler looks for.
\<close>

theorem order_message_roundtrip:
  "parse_order_msg (queued_body a info now no) = Inr \<lparr>om_order_no = no, om_user_id = sa_user a,
      om_product_id = sa_product a, om_product_name = pi_name info, om_seckill_price = pi_seckill_price info,
      om_quantity = sa_quantity a, om_total_amount = pi_seckill_price info * of_int (sa_quantity a)\<rparr> \<and>
   parse_order_msg (order_body a info no) = parse_order_msg (queued_body a info now no) \<and>
   get_string (delay_body a no) ''order_no'' = Inr no \<and>
   map_sum id float_to_int (get_float (delay_body a no) ''user_id'') = Inr (sa_user a) \<and>
   map_sum id float_to_int (get_float (delay_body a no) ''product_id'') = Inr (sa_product a) \<and>
   map_sum id float_to_int (get_float (delay_body a no) ''quantity'') = Inr (sa_quantity a)"
  by (simp add: parse_order_msg_def queued_body_def order_body_def delay_body_def get_string_def get_float_def)

end
