(* ===== verification/Seckill_Recovery.thy ===== *)
theory Seckill_Recovery
  imports Seckill_Sale
begin

text \<open>
  What a refused request leaves behind. Over a Redis that answers (\<open>reliable_redis\<close>, an
  extension of \<open>redis_server\<close>) the compensation of \<open>ExecuteSeckill\<close> is exact: stock and
  purchase counter return to what they were.
\<close>

section \<open>A Redis that answers\<close>

locale reliable_redis = redis_server +
  assumes answers: "call s c = (s', r) \<Longrightarrow> redis_exec (kv s) c = (kv s', r)"

definition plain_call :: "keyspace redis" where
  "plain_call ks c = redis_exec ks c"

interpretation plain_redis: reliable_redis plain_call id
  by unfold_locales (simp_all add: plain_call_def redis_outcome_def)

section \<open>The purchase and its compensation\<close>

text \<open>A purchase script that answered with a code did the abstract purchase, for any lifetime.\<close>

lemma purchase_lua_answered:
  assumes ok: "shop_ok limit ks" and q: "0 < q" and l: "in_int64 lmt" "lmt \<le> limit p"
    and run: "purchase_lua (stock_key p) (user_key u p) q x lmt ks = (ks', r)"
    and "decode_purchase r = Inr abc"
  shows "(shop_view ks', abc) = buy u p q lmt (shop_view ks)" "shop_ok limit ks'"
proof -
  have "(shop_view ks', abc) = buy u p q lmt (shop_view ks) \<and> shop_ok limit ks'"
  proof (cases "0 < x")
    case True
    show ?thesis
      by (rule purchase_refines [OF ok q l True run]) (use assms(6) in \<open>auto simp: decode_purchase_def\<close>)
  next
    case False
    with run assms(6) ok show ?thesis
      by (auto simp: purchase_lua_eval [OF shop_okD(1,2) [OF ok] q l(1) shop_ok_stock [OF ok]] Let_def buy_def
          decode_purchase_def split: option.splits if_splits)
  qed
  then show "(shop_view ks', abc) = buy u p q lmt (shop_view ks)" "shop_ok limit ks'"
    by simp_all
qed

lemma purchase_idem_answered:
  assumes ok: "shop_ok limit ks" and q: "0 < q" and l: "in_int64 lmt" "lmt \<le> limit p"
    and run: "purchase_idem_lua (stock_key p) (user_key u p)
      (if k \<noteq> [] then idem_key u p k else []) q x lmt 5 ks = (ks', r)"
    and "decode_purchase r = Inr abc"
  shows "(shop_view ks', abc) = submit (idem_seen ks u p k) u p q lmt (shop_view ks)" "shop_ok limit ks'"
proof -
  have "(shop_view ks', abc) = submit (idem_seen ks u p k) u p q lmt (shop_view ks) \<and> shop_ok limit ks'"
  proof (cases "k = [] \<or> live ks (idem_key u p k) = None")
    case True
    let ?k1 = "if k = [] then ks else put ks (idem_key u p k) (RStr ''1'') (Some (ks_clock ks + 5000))"
    have same: "same_shop ks ?k1" by simp
    have run1: "purchase_lua (stock_key p) (user_key u p) q x lmt ?k1 = (ks', r)"
      using run True by (auto simp: purchase_idem_lua_def lua_call_def put_ttl_def split: if_splits)
    have "\<not> idem_seen ks u p k"
      using True by (auto simp: idem_seen_def)
    with purchase_lua_answered [OF same_shop_ok [OF same ok] q l run1 assms(6)] same_shop_eqs(7) [OF same]
    show ?thesis by (simp add: submit_def)
  next
    case False
    then have "r = RArr [0, 0, -4]" "ks' = ks" "idem_seen ks u p k"
      using run by (auto simp: purchase_idem_lua_def lua_call_def lua_return_def idem_seen_def split: option.splits)
    with ok assms(6) show ?thesis by (auto simp: decode_purchase_def submit_def)
  qed
  then show "(shop_view ks', abc) = submit (idem_seen ks u p k) u p q lmt (shop_view ks)" "shop_ok limit ks'"
    by simp_all
qed

text \<open>The two compensating commands.\<close>

lemma restock_view:
  assumes "shop_ok limit ks" "in_int64 (count_at ks (stock_key p) + q)" "0 \<le> q"
  shows "shop_view (fst (redis_exec ks (INCRBY (stock_key p) q))) = restock p q (shop_view ks)"
    "shop_ok limit (fst (redis_exec ks (INCRBY (stock_key p) q)))"
proof -
  note ev = incrby_eval [OF shop_okD(1) [OF assms(1)] assms(2)]
  show "shop_view (fst (redis_exec ks (INCRBY (stock_key p) q))) = restock p q (shop_view ks)"
    by (simp add: ev shop_view_stock shop_okD [OF assms(1)] restock_def count_at_def split: option.splits del: redis_exec.simps)
  show "shop_ok limit (fst (redis_exec ks (INCRBY (stock_key p) q)))"
    by (rule incr_stock_keeps [OF assms(1,3)])
qed

lemma give_back_view:
  assumes "shop_ok limit ks" "0 < q"
  shows "shop_view (fst (decr_count_lua (user_key u p) q ks)) = fst (give_back u p q (shop_view ks))"
proof (cases "int_at ks (user_key u p)")
  case None
  then have "count_at ks (user_key u p) = 0"
    by (simp add: count_at_def)
  with None assms(2) show ?thesis
    by (simp add: decr_count_lua_eval [OF shop_okD(2) [OF assms(1)] assms(2)] give_back_def Let_def)
      (auto simp: shop_view_def fun_eq_iff)
next
  case (Some c)
  then show ?thesis
    by (simp add: decr_count_lua_eval [OF shop_okD(2) [OF assms(1)] assms(2)] give_back_def Let_def int_at_count
        shop_view_user_drop shop_view_user_add shop_okD [OF assms(1)] max_def)
qed

text \<open>Undoing a purchase that went through gives the shop of before.\<close>

lemma buy_undone:
  assumes "buy u p q lmt sh = (sh', (a, b, 1))" "0 \<le> sh_bought sh u p"
  shows "fst (give_back u p q (restock p q sh')) = sh"
  using assms
  by (auto simp: buy_def restock_def give_back_def Let_def fun_upd_idem split: if_splits option.splits)

lemma buy_stock:
  "buy u p q lmt sh = (sh', (a, b, 1)) \<Longrightarrow> \<exists>st. sh_stock sh p = Some st \<and> sh_stock sh' p = Some (st - q)"
  by (auto simp: buy_def Let_def split: if_splits option.splits)

context reliable_redis
begin

lemma purchase_answered:
  assumes "DecrStockAndIncrPurchaseWithIdempotent call u p q lmt x k s = (s', Inr abc)"
    "shop_ok limit (kv s)" "0 < q" "in_int64 lmt" "lmt \<le> limit p"
  shows "(shop_view (kv s'), abc) = submit (idem_seen (kv s) u p k) u p q lmt (shop_view (kv s))"
    "shop_ok limit (kv s')"
proof -
  let ?f = "purchase_idem_lua (stock_key p) (user_key u p)
    (if k \<noteq> [] then idem_key u p k else []) q (Seconds x) lmt 5"
  obtain r where r: "call s (EVAL ?f) = (s', r)" and res: "decode_purchase r = Inr abc"
    using assms(1) by (auto simp: client_op_defs Let_def split: prod.splits)
  have "?f (kv s) = (kv s', r)"
    using answers [OF r] by simp
  from purchase_idem_answered [OF assms(2-5) this res]
  show "(shop_view (kv s'), abc) = submit (idem_seen (kv s) u p k) u p q lmt (shop_view (kv s))"
    "shop_ok limit (kv s')" .
qed

lemma undo_view:
  assumes "ev_call ev = call" "shop_ok limit (kv (w_redis w))" "0 < sa_quantity a"
    "in_int64 (count_at (kv (w_redis w)) (stock_key (sa_product a)) + sa_quantity a)"
  shows "shop_view (kv (w_redis (undo_purchase ev a w))) =
    fst (give_back (sa_user a) (sa_product a) (sa_quantity a)
      (restock (sa_product a) (sa_quantity a) (shop_view (kv (w_redis w)))))"
proof -
  obtain w1 r1 where i: "on_redis (IncrStock call (sa_product a) (sa_quantity a)) w = (w1, r1)"
    by fastforce
  obtain w2 r2 where d: "on_redis (DecrUserPurchaseCount call (sa_user a) (sa_product a) (sa_quantity a)) w1 = (w2, r2)"
    by fastforce
  have "kv (w_redis w1) = fst (redis_exec (kv (w_redis w)) (INCRBY (stock_key (sa_product a)) (sa_quantity a)))"
    using on_redisD [OF i] by (auto simp: IncrStock_def simp del: redis_exec.simps dest!: answers split: prod.splits)
  then have 1: "shop_view (kv (w_redis w1)) = restock (sa_product a) (sa_quantity a) (shop_view (kv (w_redis w)))"
    "shop_ok limit (kv (w_redis w1))"
    using restock_view [OF assms(2,4)] assms(3) by (simp_all del: redis_exec.simps)
  have "kv (w_redis w2) = fst (decr_count_lua (user_key (sa_user a) (sa_product a)) (sa_quantity a) (kv (w_redis w1)))"
    using on_redisD [OF d] by (auto simp: DecrUserPurchaseCount_def dest!: answers split: prod.splits)
  then show ?thesis
    using give_back_view [OF 1(2) assms(3)] 1(1) i d assms(1) by (simp add: undo_purchase_def)
qed

end

section \<open>Refusals\<close>

lemma undo_purchase_cong: "w_redis w1 = w_redis w2 \<Longrightarrow> w_redis (undo_purchase ev a w1) = w_redis (undo_purchase ev a w2)"
  by (simp add: undo_purchase_def on_redis_def split: prod.splits)

lemma publish_refused:
  assumes "seckill_publish ev now later a info no w = (w', Inl e)" "e \<noteq> GoPanic"
  shows "w_redis w' = w_redis (undo_purchase ev a w)"
proof -
  obtain w1 r1 where p: "on_mq (PublishOrder (ev_amqp ev) (rx_order (rb_exchange (ev_rabbit ev)))
      (rq_order (rb_queue (ev_rabbit ev))) (JsonBody (queued_body a info now no))) w = (w1, r1)"
    by fastforce
  then obtain err where "r1 = Inl err" "seckill_fallback ev now later a info no w1 = (w', Inl e)"
    using assms by (auto simp: seckill_publish_def json_Marshal_def Let_def split: sum.splits if_splits)
  from fallback_redis [OF this(2)] show ?thesis
    using undo_purchase_cong [of w1 w ev a] p by (auto simp: on_mq_def split: prod.splits)
qed

lemma buy_refused:
  assumes "reliable_redis (ev_call ev) kv" "in_int64 (pi_limit_per_user info)" "0 < sa_quantity a"
    "shop_ok (\<lambda>_. max_int64) (kv (w_redis w))"
    "seckill_buy ev gen now later a info g w = (g', w', Inl e)"
    "e \<noteq> GoPanic" "e \<noteq> NewSeckillError ErrRedisDown [] 503"
  shows "shop_view (kv (w_redis w')) = shop_view (kv (w_redis w))"
proof -
  let ?u = "sa_user a" and ?p = "sa_product a" and ?q = "sa_quantity a"
  obtain w1 r1 where c: "on_redis (DecrStockAndIncrPurchaseWithIdempotent (ev_call ev) ?u ?p
      ?q (pi_limit_per_user info) (pi_end_time info - now) (sa_idem a)) w = (w1, r1)"
    by fastforce
  obtain x y z where r1: "r1 = Inr (x, y, z)"
    using assms(5-7) c by (cases r1) (auto simp: seckill_buy_def Let_def split: if_splits)
  note bought = reliable_redis.purchase_answered [OF assms(1) on_redisD [OF c, unfolded r1] assms(4,3,2)
      in_int64_max [OF assms(2)]]
  let ?seen = "idem_seen (kv (w_redis w)) ?u ?p (sa_idem a)"
  show ?thesis
  proof (cases "z = 1")
    case False
    then have "shop_view (kv (w_redis w1)) = shop_view (kv (w_redis w))"
      using bought(1) by (auto simp: submit_def buy_def Let_def split: if_splits option.splits)
    moreover have "z \<in> {-1, -2, -3, -4}"
      using bought(1) False by (auto simp: submit_def buy_def Let_def split: if_splits option.splits)
    then have "w_redis w' = w_redis w1"
      using assms(5) c r1 by (auto simp: seckill_buy_def Let_def split: if_splits)
    ultimately show ?thesis by simp
  next
    case True
    have buy: "buy ?u ?p ?q (pi_limit_per_user info) (shop_view (kv (w_redis w))) =
        (shop_view (kv (w_redis w1)), (x, y, 1))"
      using bought(1) True by (auto simp: submit_def split: if_splits)
    obtain st where st: "int_at (kv (w_redis w)) (stock_key ?p) = Some st"
      "int_at (kv (w_redis w1)) (stock_key ?p) = Some (st - ?q)"
      using buy_stock [OF buy] that by auto
    have "in_int64 (count_at (kv (w_redis w1)) (stock_key ?p) + ?q)"
      using shop_ok_int64(1) [OF assms(4), of ?p] st by (simp add: int_at_count)
    from reliable_redis.undo_view [OF assms(1) refl bought(2) assms(3) this]
    have undo: "shop_view (kv (w_redis (undo_purchase ev a w1))) = shop_view (kv (w_redis w))"
      using buy_undone [OF buy] shop_okD(4) [OF assms(4)] by simp
    obtain g1 no where g: "gen g = (g1, no)" by fastforce
    have "w_redis w' = w_redis (undo_purchase ev a w1)"
    proof (cases no)
      case (Inl e')
      then show ?thesis using assms(5) c r1 True g by (auto simp: seckill_buy_def)
    next
      case (Inr no')
      then have "seckill_publish ev now later a info no' w1 = (w', Inl e)"
        using assms(5) c r1 True g by (simp add: seckill_buy_def)
      then show ?thesis using assms(6) by (rule publish_refused)
    qed
    with undo show ?thesis by simp
  qed
qed

text \<open>
  C8. A refused request leaves the shop as it was: over a Redis that answers, when
  \<open>ExecuteSeckill\<close> returns an error (the product or its window, the limit, the stock, the order
  number, the queue with the fallback: any but the one that reports Redis itself, and no panic),
  every stock and every purchase counter is what it was before the call.
\<close>

theorem seckill_failure_neutral:
  assumes "reliable_redis (ev_call ev) kv" "db_server (ev_db ev) view" "limits_ok (view (w_db w))"
    "0 < sa_quantity a" "shop_ok (\<lambda>_. max_int64) (kv (w_redis w))"
    "svc_ExecuteSeckill ev spec gen now later a g w = (g', w', Inl e)"
    "e \<noteq> GoPanic" "e \<noteq> NewSeckillError ErrRedisDown [] 503"
  shows "shop_view (kv (w_redis w')) = shop_view (kv (w_redis w))"
proof -
  note rs = reliable_redis.axioms(1) [OF assms(1)]
  obtain w1 r1 where prod: "seckill_product ev now (sa_product a) w = (w1, r1)" by fastforce
  note facts = seckill_product_facts [OF rs assms(2,3) prod]
  note same = same_shop_eqs(7) [OF facts(1)] and ok1 = same_shop_ok [OF facts(1) assms(5)]
  show ?thesis
  proof (cases "\<exists>info w2 info1. r1 = Inr info \<and> seckill_admit ev spec now a info w1 = (w2, Inr info1)")
    case False
    with assms(6) prod have "w_redis w' = w_redis w1"
      by (auto simp: svc_ExecuteSeckill_def dest: seckill_admit_redis split: sum.splits prod.splits)
    with same show ?thesis by simp
  next
    case True
    then obtain info w2 info1 where adm: "r1 = Inr info" "seckill_admit ev spec now a info w1 = (w2, Inr info1)"
      by blast
    have re: "w_redis w2 = w_redis w1" and lim: "in_int64 (pi_limit_per_user info1)"
      using seckill_admit_redis [OF adm(2)] seckill_admit_limit [OF adm(2) facts(2) [OF adm(1)]] by simp_all
    have "seckill_buy ev gen now later a info1 g w2 = (g', w', Inl e)"
      using assms(6) prod adm by (simp add: svc_ExecuteSeckill_def)
    from buy_refused [OF assms(1) lim assms(4) _ this assms(7,8)] same re ok1 show ?thesis
      by simp
  qed
qed

text \<open>A request that is refused after its purchase went through: the generator has no number.\<close>

definition plain_env :: "(keyspace, database, demo_broker) env" where
  "plain_env = \<lparr>ev_call = plain_call, ev_db = plain_ops, ev_amqp = demo_amqp, ev_tf = demo_layout,
     ev_shards = 16, ev_rabbit = ev_rabbit demo_env, ev_instance = ''node1'', ev_port = 8080\<rparr>"

definition plain_world :: "(keyspace, database, demo_broker) world" where
  "plain_world = \<lparr>w_redis = fs_ks demo_redis, w_db = demo_db, w_mq = w_mq demo_world, w_mon = w_mon demo_world,
     w_kafka = []\<rparr>"

lemma plain_sel [simp]:
  "ev_call plain_env = plain_call" "ev_db plain_env = plain_ops" "ev_tf plain_env = demo_layout"
  "w_redis plain_world = fs_ks demo_redis" "w_db plain_world = demo_db"
  by (simp_all add: plain_env_def plain_world_def)

lemma plain_product:
  "seckill_product plain_env 1000 1 plain_world = (plain_world\<lparr>w_redis := fs_ks demo_cached\<rparr>, Inr demo_sale_info)"
  by (simp add: seckill_product_def on_redis_def on_db_def GetProductCache_def SetProductCache_def plain_call_def
      demo_hash decode_product_def product_fields_def demo_product_row demo_cached_def Let_def flip: demo_sale_info_def)

lemma plain_purchase:
  "\<exists>s'. DecrStockAndIncrPurchaseWithIdempotent plain_call 7 1 2 3 89000 ''k'' (fs_ks demo_cached) = (s', Inr (8, 2, 1))"
  by (simp add: client_op_defs plain_call_def demo_cached_def demo_redis_ks put_ttl_def
      purchase_idem_lua_def purchase_lua_def lua_call_def lua_get_def lua_count_def lua_return_def
      decode_purchase_def Seconds_def redis_simps in_int64_def live_def empty_keyspace_def put_def)

theorem seckill_failure_neutral_witness:
  "\<exists>w'. svc_ExecuteSeckill plain_env (\<lambda>_. None) (\<lambda>n. (n, Inl (Errf ''clock moved backwards''))) 1000 1001 demo_args (0::nat) plain_world
      = (0, w', Inl (Wrapf ''order number generation failed'' (Errf ''clock moved backwards''))) \<and>
    shop_view (w_redis w') = shop_view (fs_ks demo_redis)"
proof -
  have info: "pi_limit_per_user demo_sale_info = 3" "pi_end_time demo_sale_info = 90000"
    by (simp_all add: demo_sale_info_def info_of_product_def demo_product_def)
  have adm: "seckill_admit plain_env spec 1000 demo_args demo_sale_info w = (w, Inr demo_sale_info)" for spec w
    by (simp add: seckill_admit_def seckill_sku_def demo_sale_info_def info_of_product_def demo_product_def Let_def)
  obtain s' where s': "DecrStockAndIncrPurchaseWithIdempotent plain_call 7 1 2 3 89000 ''k'' (fs_ks demo_cached)
      = (s', Inr (8, 2, 1))"
    using plain_purchase by blast
  then obtain w' where w': "svc_ExecuteSeckill plain_env (\<lambda>_. None) (\<lambda>n. (n, Inl (Errf ''clock moved backwards''))) 1000 1001 demo_args
      (0::nat) plain_world = (0, w', Inl (Wrapf ''order number generation failed'' (Errf ''clock moved backwards'')))"
    by (simp add: svc_ExecuteSeckill_def plain_product adm seckill_buy_def on_redis_def info Let_def)
  show ?thesis
    using seckill_failure_neutral [of plain_env id id, OF _ _ _ _ _ w']
      plain_redis.reliable_redis_axioms plain_mysql.db_server_axioms demo_redis_sale w'
    by (auto simp: limits_ok_def demo_db_def demo_product_def in_int64_def NewSeckillError_def)
qed

end
