(* ===== verification/Reconciler.thy ===== *)
theory Reconciler
  imports Seckill_Recovery
begin

text \<open>
  \<^verbatim>\<open>cron/reconciler.go\<close>: one run of the reconciliation task, which copies the remaining
  stock of MySQL over the stock of Redis. \<open>now\<close> gives the clock at a state of the world; the
  sleeps between attempts and the log lines have no other effect. The pair of counters is the
  pair \<open>diffCount\<close>, \<open>fixCount\<close> of the run.
\<close>

section \<open>The task\<close>

definition recon_lock_key :: "string \<Rightarrow> key" where
  "recon_lock_key instanceID = ''reconciler:lock:'' @ instanceID"

definition reconcileSingleProduct ::
  "('r, 'd, 'q) env \<Rightarrow> int \<Rightarrow> product \<Rightarrow> int \<times> int \<Rightarrow> ('r, 'd, 'q) world
     \<Rightarrow> ('r, 'd, 'q) world \<times> (int \<times> int) \<times> unit result" where
  "reconcileSingleProduct ev now x counts w =
     (let (diffCount, fixCount) = counts in
      case on_redis (GetStock (ev_call ev) (p_id x)) w of
        (w1, Inl err) \<Rightarrow> (w1, counts, Inl (Wrapf ''get redis stock failed'' err))
      | (w1, Inr redisStock) \<Rightarrow>
          (let mysqlStock = p_remain_stock x in
           if redisStock \<noteq> mysqlStock
           then (let diffCount = diffCount + 1; diff = redisStock - mysqlStock;
                     reconDiff = \<lparr>rd_id = 0, rd_product_id = p_id x, rd_redis_stock = redisStock,
                       rd_mysql_stock = mysqlStock, rd_diff = diff, rd_auto_corrected = False,
                       rd_corrected_at = None, rd_created_at = 0\<rparr>
                 in case on_db (InsertReconDiff (ev_db ev) now reconDiff) w1 of
                      (w2, Inl err) \<Rightarrow> (w2, (diffCount, fixCount), Inl (Wrapf ''record diff failed'' err))
                    | (w2, Inr row) \<Rightarrow>
                        (case on_redis (PreloadStock (ev_call ev) (p_id x) mysqlStock) w2 of
                           (w3, Inl err) \<Rightarrow> (w3, (diffCount, fixCount), Inl (Wrapf ''correct redis stock failed'' err))
                         | (w3, Inr _) \<Rightarrow>
                             (fst (on_db (UpdateReconDiffCorrected (ev_db ev) now (rd_id row)) w3),
                              (diffCount, fixCount + 1), Inr ())))
           else (w1, counts, Inr ())))"

text \<open>The attempts left for one product.\<close>

fun reconcile_attempts ::
  "('r, 'd, 'q) env \<Rightarrow> (('r, 'd, 'q) world \<Rightarrow> int) \<Rightarrow> product \<Rightarrow> nat \<Rightarrow> int \<times> int \<Rightarrow> ('r, 'd, 'q) world
     \<Rightarrow> ('r, 'd, 'q) world \<times> (int \<times> int) \<times> bool" where
  "reconcile_attempts ev now x 0 counts w = (w, counts, False)"
| "reconcile_attempts ev now x (Suc n) counts w =
     (case reconcileSingleProduct ev (now w) x counts w of
        (w1, counts1, Inr _) \<Rightarrow> (w1, counts1, True)
      | (w1, counts1, Inl _) \<Rightarrow> reconcile_attempts ev now x n counts1 w1)"

fun reconcile_products ::
  "('r, 'd, 'q) env \<Rightarrow> (('r, 'd, 'q) world \<Rightarrow> int) \<Rightarrow> product list \<Rightarrow> int \<times> int \<Rightarrow> ('r, 'd, 'q) world
     \<Rightarrow> ('r, 'd, 'q) world \<times> (int \<times> int)" where
  "reconcile_products ev now [] counts w = (w, counts)"
| "reconcile_products ev now (x # xs) counts w =
     (case reconcile_attempts ev now x 3 counts w of
        (w1, counts1, _) \<Rightarrow> reconcile_products ev now xs counts1 w1)"

text \<open>The result is the pair of counters that is logged, none when the run ended early.\<close>

definition runReconciliation ::
  "('r, 'd, 'q) env \<Rightarrow> (('r, 'd, 'q) world \<Rightarrow> int) \<Rightarrow> ('r, 'd, 'q) world
     \<Rightarrow> ('r, 'd, 'q) world \<times> (int \<times> int) option" where
  "runReconciliation ev now w =
     (let lockKey = recon_lock_key (ev_instance ev) in
      case on_redis (\<lambda>s. case ev_call ev s (SETNX lockKey ''1'' (setnx_ttl 60000)) of
             (s', r) \<Rightarrow> (s', reply_Bool r)) w of
        (w1, Inl err) \<Rightarrow> (w1, None)
      | (w1, Inr locked) \<Rightarrow>
          if \<not> locked then (w1, None)
          else (let (w2, out) = (case on_db (GetAllProducts (ev_db ev)) w1 of
                      (w2, Inl err) \<Rightarrow> (w2, None)
                    | (w2, Inr products) \<Rightarrow>
                        (case reconcile_products ev now products (0, 0) w2 of (w3, counts) \<Rightarrow> (w3, Some counts)))
                in (fst (on_redis (\<lambda>s. ev_call ev s (DEL lockKey)) w2), out)))"

section \<open>A run brings Redis to MySQL\<close>

lemma recon_lock_free [simp]: "recon_lock_key i \<noteq> stock_key p" "stock_key p \<noteq> recon_lock_key i"
  by (auto simp: recon_lock_key_def key_defs)

definition synced :: "keyspace \<Rightarrow> product \<Rightarrow> bool" where
  "synced ks x \<longleftrightarrow> count_at ks (stock_key (p_id x)) = p_remain_stock x"

text \<open>Numbers on every stock key: what \<open>GetStock\<close> can read.\<close>

definition stocks_numeric :: "keyspace \<Rightarrow> bool" where
  "stocks_numeric ks \<longleftrightarrow> (\<forall>p. numeric ks (stock_key p))"

context reliable_redis
begin

lemma GetStock_reads:
  assumes "GetStock call p s = (s', r)" "stocks_numeric (kv s)"
  shows "kv s' = kv s" "r = Inr (count_at (kv s) (stock_key p))"
proof -
  obtain a where a: "call s (GET (stock_key p)) = (s', a)" "r = (if reply_Int a = Inl RedisNil then Inr 0 else reply_Int a)"
    using assms(1) by (auto simp: GetStock_def split: prod.splits)
  have "numeric (kv s) (stock_key p)"
    using assms(2) by (simp add: stocks_numeric_def)
  with answers [OF a(1)] show "kv s' = kv s" "r = Inr (count_at (kv s) (stock_key p))"
    by (auto elim!: numeric_cases simp: a(2))
qed

lemma PreloadStock_writes:
  assumes "PreloadStock call p n s = (s', r)"
  shows "kv s' = put (kv s) (stock_key p) (RStr (fmt_d n)) None" "r = Inr ()"
  using assms
  by (auto simp: PreloadStock_def set_ttl_def put_ttl_def dest!: answers split: prod.splits)

end

lemma stocks_numeric_put: "stocks_numeric ks \<Longrightarrow> in_int64 n \<Longrightarrow> stocks_numeric (put ks (stock_key p) (RStr (fmt_d n)) None)"
  unfolding stocks_numeric_def by (metis numeric_put numeric_put_same)

text \<open>Fresh ids in the table of differences, so that recording one succeeds.\<close>

definition diffs_ok :: "database \<Rightarrow> bool" where
  "diffs_ok v \<longleftrightarrow> (\<forall>r \<in> set (t_rows (db_diffs v)). rd_id r < t_next (db_diffs v))"

context reliable_db
begin

lemma InsertReconDiff_records:
  assumes "InsertReconDiff ops now r d = (d', res)" "diffs_ok (view d)" "rd_id r = 0"
  shows "diffs_ok (view d')" "\<exists>row. res = Inr row"
proof -
  let ?r = "r\<lparr>rd_created_at := or_default now (rd_created_at r)\<rparr>"
  obtain a where a: "on_diff ops (Create [?r]) d = (d', a)"
    "res = (case answer_rows a of Inl e \<Rightarrow> Inl e | Inr [] \<Rightarrow> Inl bad_answer | Inr (x # _) \<Rightarrow> Inr x)"
    using assms(1) by (auto simp: InsertReconDiff_def split: prod.splits)
  have "\<forall>x \<in> set (t_rows (db_diffs (view d))). rd_id x \<noteq> t_next (db_diffs (view d))"
    using assms(2) by (auto simp: diffs_ok_def)
  then have "exec_diff (Create [?r]) (view d) = (view d\<lparr>db_diffs := \<lparr>t_rows = t_rows (db_diffs (view d)) @
      [?r\<lparr>rd_id := t_next (db_diffs (view d))\<rparr>], t_next = t_next (db_diffs (view d)) + 1\<rparr>\<rparr>,
      Rows [?r\<lparr>rd_id := t_next (db_diffs (view d))\<rparr>])"
    using assms(3) by (simp add: exec_diff_def diff_schema_def Let_def)
  with diff_answers [OF a(1)] have "view d' = view d\<lparr>db_diffs := \<lparr>t_rows = t_rows (db_diffs (view d)) @
      [?r\<lparr>rd_id := t_next (db_diffs (view d))\<rparr>], t_next = t_next (db_diffs (view d)) + 1\<rparr>\<rparr>"
    "a = Rows [?r\<lparr>rd_id := t_next (db_diffs (view d))\<rparr>]"
    by simp_all
  then show "diffs_ok (view d')" "\<exists>row. res = Inr row"
    using assms(2) a(2) by (auto simp: diffs_ok_def)
qed

lemma UpdateReconDiff_keeps:
  assumes "UpdateReconDiffCorrected ops now i d = (d', res)" "diffs_ok (view d)"
  shows "diffs_ok (view d')"
  using assms
  by (auto simp: UpdateReconDiffCorrected_def diffs_ok_def exec_diff_def dest!: diff_answers
      split: prod.splits)

end

text \<open>One product: it is in step afterwards, products with other ids are not touched.\<close>

lemma single_synced:
  assumes "reliable_redis (ev_call ev) kv" "reliable_db (ev_db ev) view" "stocks_numeric (kv (w_redis w))"
    "diffs_ok (view (w_db w))" "in_int64 (p_remain_stock x)"
    "reconcileSingleProduct ev now x counts w = (w', counts', r)"
  shows "r = Inr () \<and> synced (kv (w_redis w')) x \<and> stocks_numeric (kv (w_redis w')) \<and> diffs_ok (view (w_db w')) \<and>
    (\<forall>y. p_id y \<noteq> p_id x \<longrightarrow> synced (kv (w_redis w')) y = synced (kv (w_redis w)) y)"
proof -
  let ?ks = "kv (w_redis w)"
  obtain w1 g where g: "on_redis (GetStock (ev_call ev) (p_id x)) w = (w1, g)" by fastforce
  note read = reliable_redis.GetStock_reads [OF assms(1) on_redisD [OF g] assms(3)]
  show ?thesis
  proof (cases "count_at ?ks (stock_key (p_id x)) = p_remain_stock x")
    case True
    with assms(3-6) g read show ?thesis
      by (auto simp: reconcileSingleProduct_def synced_def on_frame split: prod.splits)
  next
    case False
    let ?d = "\<lparr>rd_id = 0, rd_product_id = p_id x, rd_redis_stock = count_at ?ks (stock_key (p_id x)),
      rd_mysql_stock = p_remain_stock x, rd_diff = count_at ?ks (stock_key (p_id x)) - p_remain_stock x,
      rd_auto_corrected = False, rd_corrected_at = None, rd_created_at = 0\<rparr>"
    obtain w2 i where i: "on_db (InsertReconDiff (ev_db ev) now ?d) w1 = (w2, i)" by fastforce
    have db1: "w_db w1 = w_db w" using on_frame(1) [OF g] by simp
    obtain row where row: "i = Inr row" "diffs_ok (view (w_db w2))"
      using reliable_db.InsertReconDiff_records [OF assms(2) on_dbD [OF i]] assms(4) db1 by auto
    obtain w3 p where p: "on_redis (PreloadStock (ev_call ev) (p_id x) (p_remain_stock x)) w2 = (w3, p)" by fastforce
    note wr = reliable_redis.PreloadStock_writes [OF assms(1) on_redisD [OF p]]
    obtain w4 u where u: "on_db (UpdateReconDiffCorrected (ev_db ev) now (rd_id row)) w3 = (w4, u)" by fastforce
    have res: "w' = w4" "r = Inr ()"
      using assms(6) g read False i row(1) p wr(2) u by (simp_all add: reconcileSingleProduct_def Let_def split: prod.splits)
    have ks: "kv (w_redis w4) = put ?ks (stock_key (p_id x)) (RStr (fmt_d (p_remain_stock x))) None"
      using on_frame(2) [OF u] on_frame(2) [OF i] wr(1) read(1) by simp
    have "diffs_ok (view (w_db w4))"
      using reliable_db.UpdateReconDiff_keeps [OF assms(2) on_dbD [OF u]] row(2) on_frame(1) [OF p] by simp
    then show ?thesis
      using assms(3,5) by (auto simp: res ks synced_def stocks_numeric_put count_at_def redis_simps)
  qed
qed

lemma attempts_synced:
  assumes "reliable_redis (ev_call ev) kv" "reliable_db (ev_db ev) view" "stocks_numeric (kv (w_redis w))"
    "diffs_ok (view (w_db w))" "in_int64 (p_remain_stock x)"
    "reconcile_attempts ev now x 3 counts w = (w', counts', ok)"
  shows "synced (kv (w_redis w')) x \<and> stocks_numeric (kv (w_redis w')) \<and> diffs_ok (view (w_db w')) \<and>
    (\<forall>y. p_id y \<noteq> p_id x \<longrightarrow> synced (kv (w_redis w')) y = synced (kv (w_redis w)) y)"
proof -
  obtain w1 counts1 r where s: "reconcileSingleProduct ev (now w) x counts w = (w1, counts1, r)"
    by (cases "reconcileSingleProduct ev (now w) x counts w") auto
  from single_synced [OF assms(1-5) s] show ?thesis
    using assms(6) s by (simp add: numeral_3_eq_3)
qed

lemma products_synced:
  assumes "reliable_redis (ev_call ev) kv" "reliable_db (ev_db ev) view" "distinct (map p_id xs)"
    "\<forall>x \<in> set xs. in_int64 (p_remain_stock x)"
    "reconcile_products ev now xs counts w = (w', counts')" "stocks_numeric (kv (w_redis w))" "diffs_ok (view (w_db w))"
  shows "(\<forall>x \<in> set xs. synced (kv (w_redis w')) x) \<and>
    (\<forall>y. p_id y \<notin> p_id ` set xs \<longrightarrow> synced (kv (w_redis w')) y = synced (kv (w_redis w)) y)"
  using assms(3-7)
proof (induction xs arbitrary: counts w)
  case (Cons x xs)
  obtain w1 counts1 ok where a: "reconcile_attempts ev now x 3 counts w = (w1, counts1, ok)"
    by (cases "reconcile_attempts ev now x 3 counts w") auto
  have x: "synced (kv (w_redis w1)) x" "stocks_numeric (kv (w_redis w1))" "diffs_ok (view (w_db w1))"
    "\<And>y. p_id y \<noteq> p_id x \<Longrightarrow> synced (kv (w_redis w1)) y = synced (kv (w_redis w)) y"
    using attempts_synced [OF assms(1,2) Cons.prems(4,5) _ a] Cons.prems(2) by simp_all
  have "reconcile_products ev now xs counts1 w1 = (w', counts')"
    using Cons.prems(3) a by simp
  from Cons.IH [OF _ _ this x(2,3)] Cons.prems(1,2) x(1,4) show ?case
    by auto
qed simp

section \<open>Properties\<close>

lemma put_lock_shop:
  "k \<noteq> stock_key p \<Longrightarrow> count_at (put ks k v x) (stock_key p) = count_at ks (stock_key p)"
  "k \<noteq> stock_key p \<Longrightarrow> count_at (drop_key ks k) (stock_key p) = count_at ks (stock_key p)"
  by (auto simp: redis_simps)

lemma stocks_numeric_put_other: "(\<And>p. k \<noteq> stock_key p) \<Longrightarrow> stocks_numeric (put ks k v x) = stocks_numeric ks"
  by (metis numeric_put stocks_numeric_def)

lemma synced_lock [simp]:
  "synced (put ks (recon_lock_key i) v x) y = synced ks y" "synced (drop_key ks (recon_lock_key i)) y = synced ks y"
  by (simp_all add: synced_def put_lock_shop)

lemma all_products:
  assumes "reliable_db ops view" "GetAllProducts ops d = (d', Inr xs)"
  shows "view d' = view d" "set xs = {x \<in> set (t_rows (db_products (view d))). p_deleted_at x = None}"
    "distinct (map p_id (t_rows (db_products (view d)))) \<Longrightarrow> distinct (map p_id xs)"
proof -
  obtain a where a: "on_product ops (Find (\<lambda>_. True) False 0 None) d = (d', a)" "answer_rows a = Inr xs"
    using assms(2) by (auto simp: GetAllProducts_def split: prod.splits)
  have "exec_product (Find (\<lambda>_. True) False 0 None) (view d) = (view d', a)"
    using reliable_db.product_answers [OF assms(1) a(1)] by simp
  then have v: "view d' = view d" and xs: "xs = matching product_schema (db_products (view d)) (\<lambda>_. True)"
    using a(2) by (auto simp: exec_product_def page_of_def)
  show "view d' = view d" by (rule v)
  show "set xs = {x \<in> set (t_rows (db_products (view d))). p_deleted_at x = None}"
    by (auto simp: xs matching_def selected_def product_schema_def)
  show "distinct (map p_id xs)" if "distinct (map p_id (t_rows (db_products (view d))))"
  proof -
    have "mset xs = mset (filter (selected product_schema (\<lambda>_. True)) (t_rows (db_products (view d))))"
      by (simp add: xs matching_def)
    then have "mset (map p_id xs) = mset (map p_id (filter (selected product_schema (\<lambda>_. True)) (t_rows (db_products (view d)))))"
      by simp
    then show ?thesis
      using distinct_map_filter [OF that] by (metis mset_eq_imp_distinct_iff)
  qed
qed

lemma reconcile_run_syncs:
  assumes "reliable_redis (ev_call ev) kv" "reliable_db (ev_db ev) view" "stocks_numeric (kv (w_redis w))"
    "diffs_ok (view (w_db w))" "distinct (map p_id (t_rows (db_products (view (w_db w)))))"
    "\<forall>x \<in> set (t_rows (db_products (view (w_db w)))). in_int64 (p_remain_stock x)"
    "runReconciliation ev now w = (w', Some counts)"
    "x \<in> set (t_rows (db_products (view (w_db w))))" "p_deleted_at x = None"
  shows "count_at (kv (w_redis w')) (stock_key (p_id x)) = p_remain_stock x"
proof -
  let ?k = "recon_lock_key (ev_instance ev)"
  obtain w1 a where a: "on_redis (\<lambda>s. case ev_call ev s (SETNX ?k ''1'' (setnx_ttl 60000)) of
      (s', r) \<Rightarrow> (s', reply_Bool r)) w = (w1, a)" by fastforce
  obtain r where "ev_call ev (w_redis w) (SETNX ?k ''1'' (setnx_ttl 60000)) = (w_redis w1, r)"
    using on_redisD [OF a] by (auto split: prod.splits)
  from reliable_redis.answers [OF assms(1) this]
  have "kv (w_redis w1) \<in> {kv (w_redis w), put (kv (w_redis w)) ?k (RStr ''1'') (Some (ks_clock (kv (w_redis w)) + 60000))}"
    by (auto simp: setnx_ttl_def put_ttl_def split: option.splits)
  then have lk: "stocks_numeric (kv (w_redis w1))"
    using assms(3) by (auto simp: stocks_numeric_put_other)
  have db1: "w_db w1 = w_db w" using on_frame(1) [OF a] by simp
  obtain w2 r2 where g: "on_db (GetAllProducts (ev_db ev)) w1 = (w2, r2)" by fastforce
  obtain xs w3 where xs: "r2 = Inr xs" "reconcile_products ev now xs (0, 0) w2 = (w3, counts)"
    and w': "w' = fst (on_redis (\<lambda>s. ev_call ev s (DEL ?k)) w3)"
    using assms(7) a g by (auto simp: runReconciliation_def Let_def split: sum.splits if_splits prod.splits)
  note all = all_products [OF assms(2) on_dbD [OF g [unfolded xs(1)]], unfolded db1]
  have re2: "w_redis w2 = w_redis w1" using on_frame(2) [OF g] by simp
  have "synced (kv (w_redis w3)) x"
    using products_synced [OF assms(1,2) all(3) _ xs(2)] all(1,2) assms(4-6,8,9) lk re2 by auto
  moreover obtain w4 r4 where d: "on_redis (\<lambda>s. ev_call ev s (DEL ?k)) w3 = (w4, r4)" by fastforce
  have "kv (w_redis w4) = drop_key (kv (w_redis w3)) ?k"
    using reliable_redis.answers [OF assms(1) on_redisD [OF d]] by simp
  ultimately show ?thesis
    using w' d by (simp add: put_lock_shop synced_def)
qed

lemma demo_cached_ok: "shop_ok (\<lambda>_. max_int64) (fs_ks demo_cached)"
  unfolding demo_cached_def using same_shop_ok [OF same_shop_put demo_redis_sale] by simp

text \<open>
  C21. Reconciliation works: over servers that answer, a run that gets its lock ends, for every
  product that is not deleted, with the Redis stock equal to the remaining stock of its MySQL
  row (a missing key counts as 0).
\<close>

theorem reconcile_syncs:
  assumes "reliable_redis (ev_call ev) kv" "reliable_db (ev_db ev) view" "stocks_numeric (kv (w_redis w))"
    "diffs_ok (view (w_db w))" "distinct (map p_id (t_rows (db_products (view (w_db w)))))"
    "\<forall>x \<in> set (t_rows (db_products (view (w_db w)))). in_int64 (p_remain_stock x)"
    "runReconciliation ev now w = (w', Some counts)"
    "x \<in> set (t_rows (db_products (view (w_db w))))" "p_deleted_at x = None"
  shows "count_at (kv (w_redis w')) (stock_key (p_id x)) = p_remain_stock x"
  using assms by (rule reconcile_run_syncs)

lemma plain_reconciliation:
  assumes "w_db w = demo_db" "live (w_redis w) (recon_lock_key ''node1'') = None"
  shows "\<exists>w' counts. runReconciliation plain_env (\<lambda>_. 2000) w = (w', Some counts)"
proof -
  have "GetAllProducts plain_ops demo_db = (demo_db, Inr [demo_product])"
    by (simp add: GetAllProducts_def exec_product_def matching_def demo_db_def selected_def product_schema_def
        demo_product_def page_of_def)
  moreover have "ev_instance plain_env = ''node1''"
    by (simp add: plain_env_def)
  ultimately have "\<exists>counts. snd (runReconciliation plain_env (\<lambda>_. 2000) w) = Some counts"
    using assms by (simp add: runReconciliation_def on_redis_def on_db_def plain_call_def setnx_ttl_def put_ttl_def reply_Bool_def
        Let_def split: prod.split)
  then show ?thesis
    by (metis prod.collapse)
qed

lemma demo_db_synced_facts:
  "x \<in> set (t_rows (db_products demo_db)) \<longleftrightarrow> x = demo_product"
  "diffs_ok demo_db" "in_int64 (p_remain_stock demo_product)" "p_deleted_at demo_product = None"
  "distinct (map p_id (t_rows (db_products demo_db)))"
  by (simp_all add: diffs_ok_def demo_db_def empty_table_def demo_product_def in_int64_def)

theorem reconcile_syncs_witness:
  "\<exists>w' counts. runReconciliation plain_env (\<lambda>_. 2000) plain_world = (w', Some counts) \<and>
    count_at (w_redis w') (stock_key 1) = 10"
proof -
  have "live (fs_ks demo_redis) (recon_lock_key ''node1'') = None"
    by (simp add: demo_redis_ks put_ttl_def live_def empty_keyspace_def put_def recon_lock_key_def key_defs)
  moreover have "stocks_numeric (fs_ks demo_redis)"
    using demo_redis_sale by (simp add: stocks_numeric_def shop_ok_def)
  ultimately have w: "w_db plain_world = demo_db" "live (w_redis plain_world) (recon_lock_key ''node1'') = None"
      "stocks_numeric (w_redis plain_world)"
    by (simp_all add: plain_world_def)
  obtain w' counts where run: "runReconciliation plain_env (\<lambda>_. 2000) plain_world = (w', Some counts)"
    using plain_reconciliation [OF w(1,2)] by blast
  have "count_at (id (w_redis w')) (stock_key (p_id demo_product)) = p_remain_stock demo_product"
    by (rule reconcile_syncs [OF _ _ _ _ _ _ run, of id id])
      (use w plain_redis.reliable_redis_axioms plain_mysql.reliable_db_axioms in
        \<open>simp_all add: demo_db_synced_facts plain_env_def\<close>)
  then show ?thesis
    using run by (simp add: demo_product_def)
qed

lemma plain_purchase_run:
  "\<exists>s'. DecrStockAndIncrPurchaseWithIdempotent plain_call 7 1 2 3 89000 ''k'' (fs_ks demo_cached) = (s', Inr (8, 2, 1)) \<and>
     live s' (recon_lock_key i) = None"
  by (simp add: client_op_defs plain_call_def demo_cached_def demo_redis_ks put_ttl_def
      purchase_idem_lua_def purchase_lua_def lua_call_def lua_get_def lua_count_def lua_return_def
      decode_purchase_def Seconds_def redis_simps in_int64_def live_def empty_keyspace_def put_def recon_lock_key_def key_defs)

text \<open>A request of the small deployment, up to the message in its queue.\<close>

lemma plain_seckill:
  "\<exists>w1. svc_ExecuteSeckill plain_env (\<lambda>_. None) demo_gen 1000 1001 demo_args 0 plain_world
      = (1, w1, Inr (queued_response ''A1'')) \<and> w_db w1 = demo_db \<and> count_at (w_redis w1) (stock_key 1) = 8 \<and>
    stocks_numeric (w_redis w1) \<and> live (w_redis w1) (recon_lock_key ''node1'') = None"
proof -
  obtain s' where s': "DecrStockAndIncrPurchaseWithIdempotent plain_call 7 1 2 3 89000 ''k'' (fs_ks demo_cached)
      = (s', Inr (8, 2, 1))" "live s' (recon_lock_key ''node1'') = None"
    using plain_purchase_run by blast
  have cached: "shop_ok (\<lambda>_. max_int64) (id (fs_ks demo_cached))"
    using demo_cached_ok by simp
  have buy: "(shop_view s', 8, 2, 1) = submit (idem_seen (fs_ks demo_cached) 7 1 ''k'') 7 1 2 3 (shop_view (fs_ks demo_cached))"
    and ok: "shop_ok (\<lambda>_. max_int64) s'"
    using plain_redis.purchase_answered [OF s'(1) cached] by (simp_all add: in_int64_def max_int64_def)
  have num: "stocks_numeric s'"
    using ok by (auto simp: stocks_numeric_def)
  have "int_at (fs_ks demo_cached) (stock_key 1) = Some 10"
    by (simp add: demo_cached_def redis_simps demo_redis_at)
  then have st: "count_at s' (stock_key 1) = 8"
    using buy_stock [of 7 1 2 3 "shop_view (fs_ks demo_cached)" "shop_view s'" 8 2] buy
    by (auto simp: submit_def count_at_def split: if_splits)
  have info: "pi_limit_per_user demo_sale_info = 3" "pi_end_time demo_sale_info = 90000"
    by (simp_all add: demo_sale_info_def info_of_product_def demo_product_def)
  have adm: "seckill_admit plain_env spec 1000 demo_args demo_sale_info w = (w, Inr demo_sale_info)" for spec w
    by (simp add: seckill_admit_def seckill_sku_def demo_sale_info_def info_of_product_def demo_product_def Let_def)
  obtain q' where q': "PublishOrder demo_amqp (rx_order (rb_exchange (ev_rabbit demo_env)))
      (rq_order (rb_queue (ev_rabbit demo_env))) (JsonBody (queued_body demo_args demo_sale_info 1000 ''A1''))
      (demo_mq_state []) = (q', Inr ())"
    using demo_publish by blast
  have mq: "w_mq plain_world = demo_mq_state []" "ev_amqp plain_env = demo_amqp" "ev_rabbit plain_env = ev_rabbit demo_env"
    by (simp_all add: plain_world_def plain_env_def)
  show ?thesis
    using s' q' st num by (simp add: svc_ExecuteSeckill_def plain_product adm seckill_buy_def on_redis_def info mq
        demo_gen_def seckill_publish_def json_Marshal_def on_mq_def trackBehavior_def seckill_succeeded_def Let_def split: prod.splits)
qed

end
