(* ===== verification/Product_Service.thy ===== *)
theory Product_Service
  imports World
begin

text \<open>
  \<^verbatim>\<open>service/product_service.go\<close>: creating, changing and listing products and their
  configurations (SKUs). \<open>codec\<close> holds what the service takes from \<^verbatim>\<open>time\<close> and
  \<^verbatim>\<open>encoding/json\<close>: parsing a local time, and writing and reading a specification. A map is
  read as the pairs in the order the loop over it meets them. \<open>now\<close> is the clock of the call.
\<close>

record spec_codec =
  sc_parse_local :: "string \<Rightarrow> int option"
  sc_marshal :: "(string \<times> string) list \<Rightarrow> string option"
  sc_unmarshal :: "string \<Rightarrow> (string \<times> string) list option"

section \<open>Building SKUs\<close>

definition sku_of_input :: "spec_codec \<Rightarrow> int \<Rightarrow> sku_input \<Rightarrow> product_sku option" where
  "sku_of_input cd productID inp =
     (case sc_marshal cd (si_spec inp) of
        None \<Rightarrow> None
      | Some specJSON \<Rightarrow>
          if length (si_spec inp) = 0 then None
          else Some \<lparr>k_id = 0, k_product_id = productID, k_spec = specJSON, k_price = si_price inp,
                 k_stock = si_stock inp, k_status = 1, k_created_at = 0, k_updated_at = 0, k_deleted_at = None\<rparr>)"

definition buildSKUs :: "spec_codec \<Rightarrow> int \<Rightarrow> sku_input list \<Rightarrow> product_sku list" where
  "buildSKUs cd productID inputs = List.map_filter (sku_of_input cd productID) inputs"

section \<open>Creating\<close>

definition product_of_request :: "create_product_request \<Rightarrow> int \<Rightarrow> int \<Rightarrow> product" where
  "product_of_request req startTime endTime =
     \<lparr>p_id = 0, p_name = cp_name req, p_description = cp_description req, p_price = cp_price req,
      p_seckill_price = cp_seckill_price req, p_total_stock = cp_total_stock req,
      p_remain_stock = cp_total_stock req, p_start_time = startTime, p_end_time = endTime, p_status = 1,
      p_image_url = cp_image_url req,
      p_limit_per_user = (if cp_limit_per_user req \<le> 0 then 1 else cp_limit_per_user req),
      p_pay_timeout = 0, p_created_at = 0, p_updated_at = 0, p_deleted_at = None\<rparr>"

definition svc_CreateProduct ::
  "('r, 'd, 'q) env \<Rightarrow> spec_codec \<Rightarrow> int \<Rightarrow> create_product_request \<Rightarrow> ('r, 'd, 'q) world
     \<Rightarrow> ('r, 'd, 'q) world \<times> product result" where
  "svc_CreateProduct ev cd now req w =
     (case sc_parse_local cd (cp_start_time req) of
        None \<Rightarrow> (w, Inl (Errf ''start time format error''))
      | Some startTime \<Rightarrow>
     (case sc_parse_local cd (cp_end_time req) of
        None \<Rightarrow> (w, Inl (Errf ''end time format error''))
      | Some endTime \<Rightarrow>
          if endTime < startTime then (w, Inl (Errf ''end time before start time''))
          else (case on_db (CreateProduct (ev_db ev) now (product_of_request req startTime endTime)) w of
                  (w1, Inl err) \<Rightarrow> (w1, Inl (Wrapf ''create product failed'' err))
                | (w1, Inr x) \<Rightarrow>
                    (case (if length (cp_skus req) > 0
                           then on_db (ReplaceProductSKUs (ev_db ev) now (p_id x) (buildSKUs cd (p_id x) (cp_skus req))) w1
                           else (w1, Inr ())) of
                       (w2, Inl err) \<Rightarrow> (w2, Inl (Wrapf ''save product configuration failed'' err))
                     | (w2, Inr _) \<Rightarrow>
                         (fst (on_redis (PreloadStock (ev_call ev) (p_id x) (p_total_stock x)) w2), Inr x)))))"

fun svc_BatchImportProducts ::
  "('r, 'd, 'q) env \<Rightarrow> spec_codec \<Rightarrow> int \<Rightarrow> create_product_request list \<Rightarrow> int \<Rightarrow> int \<Rightarrow> ('r, 'd, 'q) world
     \<Rightarrow> ('r, 'd, 'q) world \<times> int \<times> int" where
  "svc_BatchImportProducts ev cd now [] successCount failCount w = (w, successCount, failCount)"
| "svc_BatchImportProducts ev cd now (req # reqs) successCount failCount w =
     (case svc_CreateProduct ev cd now req w of
        (w1, Inl _) \<Rightarrow> svc_BatchImportProducts ev cd now reqs successCount (failCount + 1) w1
      | (w1, Inr _) \<Rightarrow> svc_BatchImportProducts ev cd now reqs (successCount + 1) failCount w1)"

section \<open>Changing\<close>

text \<open>One entry of the map of updates: the column and what it sets, when the request names it.\<close>

type_synonym product_update = "string \<times> (product \<Rightarrow> product)"

definition upd :: "string \<Rightarrow> 'a option \<Rightarrow> ('a \<Rightarrow> product \<Rightarrow> product) \<Rightarrow> product_update list" where
  "upd column v f = (case v of None \<Rightarrow> [] | Some x \<Rightarrow> [(column, f x)])"

definition stock_updates :: "product \<Rightarrow> int option \<Rightarrow> product_update list" where
  "stock_updates oldProduct ts =
     (case ts of
        None \<Rightarrow> []
      | Some t \<Rightarrow>
          (''total_stock'', p_total_stock_update (\<lambda>_. t)) #
          (if t \<noteq> p_total_stock oldProduct
           then (let diff = t - p_total_stock oldProduct in
                 if diff > 0 then [(''remain_stock'', p_remain_stock_update (\<lambda>_. p_remain_stock oldProduct + diff))]
                 else [(''remain_stock'', p_remain_stock_update (\<lambda>_. p_remain_stock oldProduct))])
           else []))"

text \<open>The two times stop the call when they do not parse.\<close>

definition time_update ::
  "spec_codec \<Rightarrow> string \<Rightarrow> string option \<Rightarrow> (int \<Rightarrow> product \<Rightarrow> product) \<Rightarrow> go_error \<Rightarrow> product_update list result" where
  "time_update cd column v f err =
     (case v of None \<Rightarrow> Inr []
      | Some s \<Rightarrow> (case sc_parse_local cd s of None \<Rightarrow> Inl err | Some t \<Rightarrow> Inr [(column, f t)]))"

definition product_updates :: "spec_codec \<Rightarrow> product \<Rightarrow> update_product_request \<Rightarrow> product_update list result" where
  "product_updates cd oldProduct req =
     (case time_update cd ''start_time'' (up_start_time req) (\<lambda>t. p_start_time_update (\<lambda>_. t))
             (Errf ''start time format error'') of
        Inl e \<Rightarrow> Inl e
      | Inr st \<Rightarrow>
     (case time_update cd ''end_time'' (up_end_time req) (\<lambda>t. p_end_time_update (\<lambda>_. t))
             (Errf ''end time format error'') of
        Inl e \<Rightarrow> Inl e
      | Inr et \<Rightarrow> Inr (
          upd ''name'' (up_name req) (\<lambda>x. p_name_update (\<lambda>_. x)) @
          upd ''description'' (up_description req) (\<lambda>x. p_description_update (\<lambda>_. x)) @
          upd ''price'' (up_price req) (\<lambda>x. p_price_update (\<lambda>_. x)) @
          upd ''seckill_price'' (up_seckill_price req) (\<lambda>x. p_seckill_price_update (\<lambda>_. x)) @
          stock_updates oldProduct (up_total_stock req) @
          upd ''status'' (up_status req) (\<lambda>x. p_status_update (\<lambda>_. x)) @
          upd ''limit_per_user'' (up_limit_per_user req) (\<lambda>x. p_limit_per_user_update (\<lambda>_. x)) @
          upd ''image_url'' (up_image_url req) (\<lambda>x. p_image_url_update (\<lambda>_. x)) @ st @ et)))"

definition apply_updates :: "product_update list \<Rightarrow> product \<Rightarrow> product" where
  "apply_updates us x = fold snd us x"

definition svc_UpdateProduct ::
  "('r, 'd, 'q) env \<Rightarrow> spec_codec \<Rightarrow> int \<Rightarrow> int \<Rightarrow> update_product_request \<Rightarrow> ('r, 'd, 'q) world
     \<Rightarrow> ('r, 'd, 'q) world \<times> unit result" where
  "svc_UpdateProduct ev cd now i req w =
     (case on_db (GetProductByID (ev_db ev) i) w of
        (w1, Inl err) \<Rightarrow> (w1, Inl (Wrapf ''product does not exist'' err))
      | (w1, Inr oldProduct) \<Rightarrow>
     (case product_updates cd oldProduct req of
        Inl e \<Rightarrow> (w1, Inl e)
      | Inr updates \<Rightarrow>
          if length updates = 0 \<and> up_skus req = None then (w1, Inl (Errf ''nothing to update''))
          else
     (case (if length updates > 0 then on_db (UpdateProduct (ev_db ev) now i (apply_updates updates)) w1 else (w1, Inr ())) of
        (w2, Inl err) \<Rightarrow> (w2, Inl err)
      | (w2, Inr _) \<Rightarrow>
     (case (case up_skus req of None \<Rightarrow> (w2, Inr ())
              | Some ks \<Rightarrow> on_db (ReplaceProductSKUs (ev_db ev) now i (buildSKUs cd i ks)) w2) of
        (w3, Inl err) \<Rightarrow> (w3, Inl (Wrapf ''save product configuration failed'' err))
      | (w3, Inr _) \<Rightarrow>
          (let w4 = fst (on_redis (DeleteProductCache (ev_call ev) i) w3) in
           case on_db (GetProductByID (ev_db ev) i) w4 of
             (w5, Inl _) \<Rightarrow> (w5, Inr ())
           | (w5, Inr x) \<Rightarrow>
               if p_status x = 1
               then (fst (on_redis (PreloadStock (ev_call ev) i (p_remain_stock x)) w5), Inr ())
               else (w5, Inr ()))))))"

section \<open>Listing\<close>

record sku_attr =
  at_name :: string
  at_values :: "string list"

record attr_groups =
  ag_order :: "string list"
  ag_groups :: "string \<rightharpoonup> string list"
  ag_seen :: "string \<Rightarrow> string set"

definition add_attr :: "string \<times> string \<Rightarrow> attr_groups \<Rightarrow> attr_groups" where
  "add_attr nv g =
     (let (name, value) = nv;
          g1 = (case ag_groups g name of
                  None \<Rightarrow> g\<lparr>ag_groups := (ag_groups g)(name \<mapsto> []), ag_order := ag_order g @ [name],
                           ag_seen := (ag_seen g)(name := {})\<rparr>
                | Some _ \<Rightarrow> g)
      in if value \<notin> ag_seen g1 name
         then g1\<lparr>ag_seen := (ag_seen g1)(name := insert value (ag_seen g1 name)),
                 ag_groups := (ag_groups g1)(name \<mapsto> the (ag_groups g1 name) @ [value])\<rparr>
         else g1)"

definition add_sku :: "spec_codec \<Rightarrow> product_sku \<Rightarrow> attr_groups \<Rightarrow> attr_groups" where
  "add_sku cd sku g = (case sc_unmarshal cd (k_spec sku) of None \<Rightarrow> g | Some spec \<Rightarrow> fold add_attr spec g)"

definition BuildSKUAttrs :: "spec_codec \<Rightarrow> product_sku list \<Rightarrow> sku_attr list" where
  "BuildSKUAttrs cd skus =
     (let g = fold (add_sku cd) skus \<lparr>ag_order = [], ag_groups = Map.empty, ag_seen = (\<lambda>_. {})\<rparr>
      in map (\<lambda>name. \<lparr>at_name = name, at_values = the (ag_groups g name)\<rparr>) (ag_order g))"

record product_detail =
  pd_product :: product
  pd_skus :: "product_sku list"
  pd_attrs :: "sku_attr list"

definition svc_GetProductDetail ::
  "('r, 'd, 'q) env \<Rightarrow> spec_codec \<Rightarrow> int \<Rightarrow> ('r, 'd, 'q) world \<Rightarrow> ('r, 'd, 'q) world \<times> product_detail result" where
  "svc_GetProductDetail ev cd productID w =
     (case on_db (GetProductByID (ev_db ev) productID) w of
        (w1, Inl err) \<Rightarrow> (w1, Inl err)
      | (w1, Inr x) \<Rightarrow>
          (case on_db (GetProductSKUs (ev_db ev) productID) w1 of
             (w2, found) \<Rightarrow>
               (let skus = (case found of Inl _ \<Rightarrow> [] | Inr ks \<Rightarrow> ks)
                in (w2, Inr \<lparr>pd_product = x, pd_skus = skus, pd_attrs = BuildSKUAttrs cd skus\<rparr>))))"

definition svc_GetActiveProductsWithSKU ::
  "('r, 'd, 'q) env \<Rightarrow> spec_codec \<Rightarrow> int \<Rightarrow> ('r, 'd, 'q) world \<Rightarrow> ('r, 'd, 'q) world \<times> product_detail list result" where
  "svc_GetActiveProductsWithSKU ev cd now w =
     (case on_db (GetActiveProducts (ev_db ev) now) w of
        (w1, Inl err) \<Rightarrow> (w1, Inl err)
      | (w1, Inr products) \<Rightarrow>
          (case on_db (GetProductSKUsMap (ev_db ev) (map p_id products)) w1 of
             (w2, Inl _) \<Rightarrow> (w2, Inr (map (\<lambda>x. \<lparr>pd_product = x, pd_skus = [], pd_attrs = []\<rparr>) products))
           | (w2, Inr skuMap) \<Rightarrow>
               (w2, Inr (map (\<lambda>x. let skus = skuMap (p_id x)
                  in \<lparr>pd_product = x, pd_skus = skus, pd_attrs = BuildSKUAttrs cd skus\<rparr>) products))))"

definition svc_GetProductList ::
  "('r, 'd, 'q) env \<Rightarrow> int \<Rightarrow> int \<Rightarrow> ('r, 'd, 'q) world \<Rightarrow> ('r, 'd, 'q) world \<times> (product list \<times> int) result" where
  "svc_GetProductList ev page pageSize = on_db (GetProductList (ev_db ev) page pageSize)"

definition svc_GetActiveProducts ::
  "('r, 'd, 'q) env \<Rightarrow> int \<Rightarrow> ('r, 'd, 'q) world \<Rightarrow> ('r, 'd, 'q) world \<times> product list result" where
  "svc_GetActiveProducts ev now = on_db (GetActiveProducts (ev_db ev) now)"

section \<open>The attributes of a list of SKUs\<close>

text \<open>The pairs of a list of SKUs that can be read.\<close>

definition sku_pairs :: "spec_codec \<Rightarrow> product_sku list \<Rightarrow> (string \<times> string) list" where
  "sku_pairs cd skus = concat (map (\<lambda>k. case sc_unmarshal cd (k_spec k) of None \<Rightarrow> [] | Some ps \<Rightarrow> ps) skus)"

definition groups_of :: "attr_groups \<Rightarrow> (string \<times> string) set \<Rightarrow> bool" where
  "groups_of g ps \<longleftrightarrow>
     distinct (ag_order g) \<and> set (ag_order g) = dom (ag_groups g) \<and> dom (ag_groups g) = fst ` ps \<and>
     (\<forall>n vs. ag_groups g n = Some vs \<longrightarrow> distinct vs \<and> ag_seen g n = set vs \<and> set vs = {v. (n, v) \<in> ps})"

lemma groups_ofD:
  assumes "groups_of g ps"
  shows "distinct (ag_order g)" "set (ag_order g) = dom (ag_groups g)" "dom (ag_groups g) = fst ` ps"
    "ag_groups g n = Some vs \<Longrightarrow> distinct vs \<and> ag_seen g n = set vs \<and> set vs = {v. (n, v) \<in> ps}"
  using assms by (simp_all add: groups_of_def)

lemma add_attr_groups:
  assumes "groups_of g ps"
  shows "groups_of (add_attr (n, v) g) (insert (n, v) ps)"
proof (cases "ag_groups g n")
  case None
  then have n: "n \<notin> fst ` ps" "n \<notin> set (ag_order g)"
    using groups_ofD(2,3) [OF assms] by (metis domIff)+
  then have new: "{x. (n, x) \<in> insert (n, v) ps} = {v}" by force
  have g1: "add_attr (n, v) g = g\<lparr>ag_groups := (ag_groups g)(n \<mapsto> [v]), ag_order := ag_order g @ [n],
      ag_seen := (ag_seen g)(n := {v})\<rparr>"
    using None by (simp add: add_attr_def Let_def)
  show ?thesis
    unfolding groups_of_def
  proof (intro conjI allI impI)
    fix m vs assume m: "ag_groups (add_attr (n, v) g) m = Some vs"
    have "distinct vs \<and> ag_seen (add_attr (n, v) g) m = set vs \<and> set vs = {x. (m, x) \<in> insert (n, v) ps}"
    proof (cases "m = n")
      case True
      with m have "vs = [v]" by (simp add: g1)
      moreover have "ag_seen (add_attr (n, v) g) n = {v}" by (simp add: g1)
      ultimately show ?thesis using new True by (simp del: insert_iff)
    next
      case False
      with m groups_ofD(4) [OF assms, of m vs] show ?thesis by (simp add: g1)
    qed
    then show "distinct vs" "ag_seen (add_attr (n, v) g) m = set vs" "set vs = {x. (m, x) \<in> insert (n, v) ps}"
      by blast+
  qed (use n groups_ofD(1-3) [OF assms] in \<open>simp_all add: g1\<close>)
next
  case (Some vs)
  note vs = groups_ofD(4) [OF assms Some]
  have n: "n \<in> fst ` ps"
    using groups_ofD(3) [OF assms] Some by auto
  show ?thesis
  proof (cases "v \<in> set vs")
    case True
    then have "insert (n, v) ps = ps" using vs by auto
    with True Some vs assms show ?thesis by (simp add: add_attr_def Let_def)
  next
    case False
    have g1: "add_attr (n, v) g = g\<lparr>ag_groups := (ag_groups g)(n \<mapsto> vs @ [v]), ag_seen := (ag_seen g)(n := insert v (set vs))\<rparr>"
      using Some False vs by (simp add: add_attr_def Let_def)
    show ?thesis
      unfolding groups_of_def
    proof (intro conjI allI impI)
      fix m ws assume m: "ag_groups (add_attr (n, v) g) m = Some ws"
      have "distinct ws \<and> ag_seen (add_attr (n, v) g) m = set ws \<and> set ws = {x. (m, x) \<in> insert (n, v) ps}"
      proof (cases "m = n")
        case True
        with m have ws: "ws = vs @ [v]" by (simp add: g1)
        have "ag_seen (add_attr (n, v) g) n = insert v (set vs)" by (simp add: g1)
        moreover have "insert v (set vs) = {x. (n, x) \<in> insert (n, v) ps}" using vs by blast
        ultimately show ?thesis using vs False ws True by simp
      next
        case neq: False
        with m groups_ofD(4) [OF assms, of m ws] show ?thesis by (simp add: g1)
      qed
      then show "distinct ws" "ag_seen (add_attr (n, v) g) m = set ws" "set ws = {x. (m, x) \<in> insert (n, v) ps}"
        by blast+
    qed (use n groups_ofD(1-3) [OF assms] in \<open>simp_all add: g1 insert_absorb\<close>)
  qed
qed

lemma fold_attr_groups: "groups_of g ps \<Longrightarrow> groups_of (fold add_attr nvs g) (set nvs \<union> ps)"
proof (induction nvs arbitrary: g ps)
  case (Cons nv nvs)
  show ?case
    using Cons.IH [OF add_attr_groups [OF Cons.prems, of "fst nv" "snd nv"]] by simp
qed simp

lemma fold_sku_groups: "groups_of g ps \<Longrightarrow> groups_of (fold (add_sku cd) skus g) (set (sku_pairs cd skus) \<union> ps)"
proof (induction skus arbitrary: g ps)
  case (Cons k ks)
  let ?p = "case sc_unmarshal cd (k_spec k) of None \<Rightarrow> [] | Some ps \<Rightarrow> ps"
  have "groups_of (add_sku cd k g) (set ?p \<union> ps)"
    using Cons.prems fold_attr_groups by (auto simp: add_sku_def split: option.splits)
  from Cons.IH [OF this] show ?case
    by (simp add: sku_pairs_def Un_ac)
qed (simp add: sku_pairs_def)

text \<open>
  The attribute selector shows exactly the configurations there are: \<open>BuildSKUAttrs\<close> lists
  every attribute name once, under it every value once, and a name with a value if and only if
  some readable SKU has that value for that name, whatever the order in which maps are iterated.
\<close>

theorem sku_attrs_correct:
  "distinct (map at_name (BuildSKUAttrs cd skus)) \<and>
   (\<forall>a \<in> set (BuildSKUAttrs cd skus). distinct (at_values a) \<and> at_values a \<noteq> []) \<and>
   ((\<exists>a \<in> set (BuildSKUAttrs cd skus). at_name a = n \<and> v \<in> set (at_values a)) \<longleftrightarrow>
    (\<exists>k \<in> set skus. \<exists>ps. sc_unmarshal cd (k_spec k) = Some ps \<and> (n, v) \<in> set ps))"
proof -
  let ?g = "fold (add_sku cd) skus \<lparr>ag_order = [], ag_groups = Map.empty, ag_seen = (\<lambda>_. {})\<rparr>"
  have g: "groups_of ?g (set (sku_pairs cd skus))"
    using fold_sku_groups [of "\<lparr>ag_order = [], ag_groups = Map.empty, ag_seen = (\<lambda>_. {})\<rparr>" "{}" cd skus]
    by (simp add: groups_of_def)
  have names: "map at_name (BuildSKUAttrs cd skus) = ag_order ?g"
    by (simp add: BuildSKUAttrs_def Let_def comp_def)
  have vals: "distinct (at_values a) \<and> set (at_values a) = {v. (at_name a, v) \<in> set (sku_pairs cd skus)} \<and>
      at_name a \<in> fst ` set (sku_pairs cd skus)" if m: "a \<in> set (BuildSKUAttrs cd skus)" for a
  proof -
    obtain n where n: "n \<in> set (ag_order ?g)" "a = \<lparr>at_name = n, at_values = the (ag_groups ?g n)\<rparr>"
      using m by (auto simp: BuildSKUAttrs_def Let_def)
    then obtain vs where "ag_groups ?g n = Some vs" "n \<in> fst ` set (sku_pairs cd skus)"
      using groups_ofD(2,3) [OF g] by (metis domD)
    with n groups_ofD(4) [OF g, of n vs] show ?thesis by simp
  qed
  have "at_values a \<noteq> []" if "a \<in> set (BuildSKUAttrs cd skus)" for a
    using vals [OF that] by auto
  moreover have "(\<exists>a \<in> set (BuildSKUAttrs cd skus). at_name a = n \<and> v \<in> set (at_values a)) \<longleftrightarrow> (n, v) \<in> set (sku_pairs cd skus)"
  proof
    assume "(n, v) \<in> set (sku_pairs cd skus)"
    then have "n \<in> set (map at_name (BuildSKUAttrs cd skus))"
      using groups_ofD(2,3) [OF g] names by (metis fst_conv image_eqI)
    with vals \<open>(n, v) \<in> set (sku_pairs cd skus)\<close>
    show "\<exists>a \<in> set (BuildSKUAttrs cd skus). at_name a = n \<and> v \<in> set (at_values a)" by auto
  qed (use vals in auto)
  moreover have "(n, v) \<in> set (sku_pairs cd skus) \<longleftrightarrow>
      (\<exists>k \<in> set skus. \<exists>ps. sc_unmarshal cd (k_spec k) = Some ps \<and> (n, v) \<in> set ps)"
    unfolding sku_pairs_def by (force split: option.splits)
  moreover have "distinct (map at_name (BuildSKUAttrs cd skus))"
    unfolding names by (rule groups_ofD(1) [OF g])
  ultimately show ?thesis
    using vals by blast
qed

text \<open>Two configurations of a phone and a codec that reads their specifications.\<close>

definition demo_codec :: spec_codec where
  "demo_codec = \<lparr>sc_parse_local = (\<lambda>_. None), sc_marshal = (\<lambda>_. None),
     sc_unmarshal = [''A'' \<mapsto> [(''color'', ''red''), (''size'', ''S'')], ''B'' \<mapsto> [(''size'', ''M''), (''color'', ''red'')]]\<rparr>"

definition demo_variant :: "int \<Rightarrow> string \<Rightarrow> product_sku" where
  "demo_variant i spec = \<lparr>k_id = i, k_product_id = 1, k_spec = spec, k_price = 10, k_stock = 5, k_status = 1,
     k_created_at = 0, k_updated_at = 0, k_deleted_at = None\<rparr>"

theorem sku_attrs_correct_witness:
  "(\<exists>a \<in> set (BuildSKUAttrs demo_codec [demo_variant 1 ''A'', demo_variant 2 ''B'']).
      at_name a = ''size'' \<and> ''M'' \<in> set (at_values a)) \<and>
   \<not> (\<exists>a \<in> set (BuildSKUAttrs demo_codec [demo_variant 1 ''A'', demo_variant 2 ''B'']).
      at_name a = ''color'' \<and> ''M'' \<in> set (at_values a))"
proof -
  let ?ks = "[demo_variant 1 ''A'', demo_variant 2 ''B'']"
  have iff: "(\<exists>a \<in> set (BuildSKUAttrs demo_codec ?ks). at_name a = n \<and> v \<in> set (at_values a)) \<longleftrightarrow>
      (\<exists>k \<in> set ?ks. \<exists>ps. sc_unmarshal demo_codec (k_spec k) = Some ps \<and> (n, v) \<in> set ps)" for n v
    by (rule conjunct2 [OF conjunct2 [OF sku_attrs_correct]])
  show ?thesis
    unfolding iff by (simp add: demo_codec_def demo_variant_def)
qed

end
