(* ===== verification/Activity_Service.thy ===== *)
theory Activity_Service
  imports Product_Service Reconciler
begin

text \<open>
  \<^verbatim>\<open>service/activity_service.go\<close>: putting products on and off sale, warming the caches and
  saving the configuration of an activity. A time of a saved configuration reaches MySQL as the
  text of the request; \<open>db_time\<close> is MySQL's reading of it.
\<close>

section \<open>Operations\<close>

definition act_GetActiveProducts ::
  "('r, 'd, 'q) env \<Rightarrow> int \<Rightarrow> ('r, 'd, 'q) world \<Rightarrow> ('r, 'd, 'q) world \<times> product list result" where
  "act_GetActiveProducts ev now = on_db (GetActiveProducts (ev_db ev) now)"

definition svc_UpdateActivity ::
  "('r, 'd, 'q) env \<Rightarrow> int \<Rightarrow> int \<Rightarrow> int \<Rightarrow> ('r, 'd, 'q) world \<Rightarrow> ('r, 'd, 'q) world \<times> unit result" where
  "svc_UpdateActivity ev now productID status w =
     (case on_db (UpdateProduct (ev_db ev) now productID (p_status_update (\<lambda>_. status))) w of
        (w1, Inl err) \<Rightarrow> (w1, Inl (Wrapf ''update activity failed'' err))
      | (w1, Inr _) \<Rightarrow>
          if status = 1
          then (case on_db (GetProductByID (ev_db ev) productID) w1 of
                  (w2, Inl _) \<Rightarrow> (w2, Inr ())
                | (w2, Inr x) \<Rightarrow> (fst (on_redis (PreloadStock (ev_call ev) (p_id x) (p_remain_stock x)) w2), Inr ()))
          else (w1, Inr ()))"

fun warm_up :: "('r, 'd, 'q) env \<Rightarrow> int \<Rightarrow> product list \<Rightarrow> int \<Rightarrow> ('r, 'd, 'q) world \<Rightarrow> ('r, 'd, 'q) world \<times> int" where
  "warm_up ev now [] successCount w = (w, successCount)"
| "warm_up ev now (x # xs) successCount w =
     (case on_redis (PreloadStock (ev_call ev) (p_id x) (p_remain_stock x)) w of
        (w1, Inl _) \<Rightarrow> warm_up ev now xs successCount w1
      | (w1, Inr _) \<Rightarrow>
          (let ttl = p_end_time x - now;
               info = \<lparr>pi_name = p_name x, pi_seckill_price = p_seckill_price x, pi_limit_per_user = p_limit_per_user x,
                 pi_status = p_status x, pi_start_time = p_start_time x, pi_end_time = p_end_time x\<rparr>;
               w2 = (if ttl > 0 then fst (on_redis (SetProductCache (ev_call ev) (ev_tf ev) (p_id x) info ttl) w1) else w1)
           in warm_up ev now xs (successCount + 1) w2))"

definition svc_CacheWarmUp ::
  "('r, 'd, 'q) env \<Rightarrow> int \<Rightarrow> ('r, 'd, 'q) world \<Rightarrow> ('r, 'd, 'q) world \<times> int result" where
  "svc_CacheWarmUp ev now w =
     (case on_db (GetActiveProducts (ev_db ev) now) w of
        (w1, Inl err) \<Rightarrow> (w1, Inl (Wrapf ''get active products failed'' err))
      | (w1, Inr products) \<Rightarrow> (case warm_up ev now products 0 w1 of (w2, n) \<Rightarrow> (w2, Inr n)))"

definition config_updates :: "(string \<Rightarrow> int) \<Rightarrow> activity_config_request \<Rightarrow> product_update list result" where
  "config_updates db_time req =
     (if (case ac_limit_per_user req of Some n \<Rightarrow> n < 1 | None \<Rightarrow> False) then Inl (Errf ''limit must be positive'')
      else if (case ac_seckill_price req of Some x \<Rightarrow> x \<le> 0 | None \<Rightarrow> False) then Inl (Errf ''price must be positive'')
      else Inr (
        upd ''limit_per_user'' (ac_limit_per_user req) (\<lambda>x. p_limit_per_user_update (\<lambda>_. x)) @
        upd ''status'' (ac_status req) (\<lambda>x. p_status_update (\<lambda>_. x)) @
        upd ''seckill_price'' (ac_seckill_price req) (\<lambda>x. p_seckill_price_update (\<lambda>_. x)) @
        upd ''start_time'' (ac_start_time req) (\<lambda>x. p_start_time_update (\<lambda>_. db_time x)) @
        upd ''end_time'' (ac_end_time req) (\<lambda>x. p_end_time_update (\<lambda>_. db_time x))))"

definition svc_SaveActivityConfig ::
  "('r, 'd, 'q) env \<Rightarrow> (string \<Rightarrow> int) \<Rightarrow> int \<Rightarrow> activity_config_request \<Rightarrow> ('r, 'd, 'q) world
     \<Rightarrow> ('r, 'd, 'q) world \<times> unit result" where
  "svc_SaveActivityConfig ev db_time now req w =
     (case on_db (GetProductByID (ev_db ev) (ac_product_id req)) w of
        (w1, Inl err) \<Rightarrow> (w1, Inl (Wrapf ''product does not exist'' err))
      | (w1, Inr old) \<Rightarrow>
     (case config_updates db_time req of
        Inl e \<Rightarrow> (w1, Inl e)
      | Inr updates \<Rightarrow>
          if length updates = 0 then (w1, Inl (Errf ''nothing to update''))
          else
     (case on_db (UpdateProduct (ev_db ev) now (ac_product_id req) (apply_updates updates)) w1 of
        (w2, Inl err) \<Rightarrow> (w2, Inl (Wrapf ''save activity failed'' err))
      | (w2, Inr _) \<Rightarrow>
          if p_status old = 1
          then (case on_db (GetProductByID (ev_db ev) (ac_product_id req)) w2 of
                  (w3, Inl _) \<Rightarrow> (w3, Inr ())
                | (w3, Inr x) \<Rightarrow>
                    (fst (on_redis (PreloadStock (ev_call ev) (ac_product_id req) (p_remain_stock x)) w3), Inr ()))
          else (w2, Inr ()))))"

section \<open>The cache that outlives the activity\<close>

text \<open>Preloading the stock of a product leaves its cached description alone.\<close>

context redis_server
begin

lemma PreloadStock_cache:
  assumes "PreloadStock call p n s = (s', r)"
  shows "hash_at (kv s') (product_key p') = hash_at (kv s) (product_key p')"
proof -
  obtain a where a: "call s (SET (stock_key p) (fmt_d n) (set_ttl 0)) = (s', a)"
    using assms by (auto simp: PreloadStock_def split: prod.splits)
  show ?thesis
    by (rule call_keeps [OF a, where I = "\<lambda>ks. hash_at ks (product_key p') = hash_at (kv s) (product_key p')"])
      (simp_all add: set_ttl_def put_ttl_def hash_at_def live_put)
qed

end

context reliable_redis
begin

lemma GetProductCache_reads:
  assumes "GetProductCache call tf p s = (s', r)"
  shows "kv s' = kv s" "r = decode_product tf (snd (redis_exec (kv s) (HMGET (product_key p) product_fields)))"
proof -
  obtain a where a: "call s (HMGET (product_key p) product_fields) = (s', a)" "r = decode_product tf a"
    using assms by (auto simp: GetProductCache_def split: prod.splits)
  from answers [OF a(1)] have e: "redis_exec (kv s) (HMGET (product_key p) product_fields) = (kv s', a)" .
  then have "fst (redis_exec (kv s) (HMGET (product_key p) product_fields)) = kv s'"
    by simp
  then show "kv s' = kv s" by (simp split: option.splits)
  show "r = decode_product tf (snd (redis_exec (kv s) (HMGET (product_key p) product_fields)))"
    using a(2) e by simp
qed

lemma cache_frame:
  assumes "GetProductCache call tf p s = (s1, Inr info)" "hash_at (kv s') (product_key p) = hash_at (kv s) (product_key p)"
    "GetProductCache call tf p s' = (s2, r)"
  shows "r = Inr info"
  using GetProductCache_reads(2) [OF assms(1)] GetProductCache_reads(2) [OF assms(3)] assms(2)
  by (cases "hash_at (kv s) (product_key p)") simp_all

end

text \<open>The effect of the two operations on the Redis keys: at most a stock is preloaded.\<close>

lemma UpdateActivity_cache:
  assumes "redis_server (ev_call ev) kv" "svc_UpdateActivity ev now p st w = (w', r)"
  shows "hash_at (kv (w_redis w')) (product_key p') = hash_at (kv (w_redis w)) (product_key p')"
  using assms(2)
  by (auto simp: svc_UpdateActivity_def on_db_def on_redis_def dest!: redis_server.PreloadStock_cache [OF assms(1)]
      split: prod.splits sum.splits if_splits)

lemma SaveActivityConfig_cache:
  assumes "redis_server (ev_call ev) kv" "svc_SaveActivityConfig ev db_time now req w = (w', r)"
  shows "hash_at (kv (w_redis w')) (product_key p') = hash_at (kv (w_redis w)) (product_key p')"
  using assms(2)
  by (auto simp: svc_SaveActivityConfig_def on_db_def on_redis_def dest!: redis_server.PreloadStock_cache [OF assms(1)]
      split: prod.splits sum.splits if_splits)

text \<open>
  Neither operation reaches the sale while the product is cached: after an activity was
  updated (a product taken off sale, say) or its configuration saved (price, limit, times),
  \<open>ExecuteSeckill\<close> still works with the description that was in the Redis cache before, which has
  no lifetime.
\<close>

theorem activity_changes_not_seen:
  assumes "reliable_redis (ev_call ev) kv"
    "GetProductCache (ev_call ev) (ev_tf ev) p (w_redis w) = (s1, Inr info)"
    "svc_UpdateActivity ev now p st w = (w', r) \<or> svc_SaveActivityConfig ev db_time now req w = (w', r)"
  shows "snd (seckill_product ev later p w') = Inr info"
proof -
  have same: "hash_at (kv (w_redis w')) (product_key p) = hash_at (kv (w_redis w)) (product_key p)"
    using assms(3) UpdateActivity_cache [OF reliable_redis.axioms(1) [OF assms(1)]]
      SaveActivityConfig_cache [OF reliable_redis.axioms(1) [OF assms(1)]] by blast
  obtain s2 r2 where g: "GetProductCache (ev_call ev) (ev_tf ev) p (w_redis w') = (s2, r2)"
    by fastforce
  have "r2 = Inr info"
    by (rule reliable_redis.cache_frame [OF assms(1,2) same g])
  with g show ?thesis
    by (simp add: seckill_product_def on_redis_def)
qed

text \<open>
  The first call of the sale fills the cache; the product is then taken off sale, and the next
  call still gets the description of a product on sale.
\<close>

theorem activity_changes_not_seen_witness:
  "\<exists>w'. svc_UpdateActivity plain_env 1500 1 0 (plain_world\<lparr>w_redis := fs_ks demo_cached\<rparr>) = (w', Inr ()) \<and>
     p_status (hd (t_rows (db_products (w_db w')))) = 0 \<and>
     (\<exists>info. snd (seckill_product plain_env 2000 1 w') = Inr info \<and> pi_status info = 1)"
proof -
  let ?w = "plain_world\<lparr>w_redis := fs_ks demo_cached\<rparr>"
  have up: "svc_UpdateActivity plain_env 1500 1 0 ?w =
      (?w\<lparr>w_db := demo_db\<lparr>db_products := \<lparr>t_rows = [demo_product\<lparr>p_status := 0, p_updated_at := 1500\<rparr>], t_next = 2\<rparr>\<rparr>\<rparr>, Inr ())"
    by (simp add: svc_UpdateActivity_def on_db_def UpdateProduct_def exec_product_def product_schema_def selected_def
        demo_db_def demo_product_def)
  have h: "hash_at (fs_ks demo_cached) (product_key 1) = Some (map_of (rev (encode_product demo_layout demo_sale_info)))"
    by (simp add: demo_cached_def hash_at_def live_put)
  obtain s1 info where g: "GetProductCache plain_call demo_layout 1 (w_redis ?w) = (s1, Inr info)" "pi_status info = 1"
    using h decode_encode_product [of demo_layout demo_sale_info Map.empty]
    by (auto simp: GetProductCache_def plain_call_def demo_layout_def demo_sale_info_def info_of_product_def
        demo_product_def in_int64_def)
  have "snd (seckill_product plain_env 2000 1 (fst (svc_UpdateActivity plain_env 1500 1 0 ?w))) = Inr info"
    using activity_changes_not_seen [of plain_env id, OF _ _ disjI1 [OF prod.collapse [symmetric]]] g(1)
      plain_redis.reliable_redis_axioms by simp
  with g(2) show ?thesis
    unfolding up by simp
qed

end
