(* ===== verification/Auth.thy ===== *)
theory Auth
  imports World "HOL-Library.Countable"
begin

text \<open>
  Passwords and tokens of \<^verbatim>\<open>utils/utils.go\<close>. The bcrypt and JWT packages are parameters
  (\<open>crypto\<close>); what the program relies on is the locale \<open>auth_lib\<close>: a hash checks against its
  password, and a token reads back as the claims it was signed with, for the key the callback
  returns and until the claims expire. Times of claims are whole seconds.
\<close>

section \<open>Claims and managers\<close>

record jwt_claims =
  jc_user_id :: int
  jc_username :: string
  jc_role :: string
  jc_issuer :: string
  jc_issued_at :: int
  jc_expires_at :: int
  jc_subject :: string

record jwt_manager =
  jm_secret :: string
  jm_expire_hours :: int
  jm_issuer :: string

text \<open>
  \<open>cr_hash\<close> is bcrypt with a salt and a cost, \<open>cr_sign\<close> signs with a named method, \<open>cr_parse\<close>
  takes the callback that maps the method of the token to a key, and the clock.
\<close>

record crypto =
  cr_hash :: "nat \<Rightarrow> int \<Rightarrow> string \<Rightarrow> string result"
  cr_compare :: "string \<Rightarrow> string \<Rightarrow> bool"
  cr_sign :: "string \<Rightarrow> jwt_claims \<Rightarrow> string \<Rightarrow> string result"
  cr_parse :: "string \<Rightarrow> (string \<Rightarrow> string result) \<Rightarrow> int \<Rightarrow> jwt_claims result"

definition NewJWTManager :: "string \<Rightarrow> int \<Rightarrow> string \<Rightarrow> jwt_manager" where
  "NewJWTManager secret expireHours issuer = \<lparr>jm_secret = secret, jm_expire_hours = expireHours, jm_issuer = issuer\<rparr>"

text \<open>\<open>now\<close> is in milliseconds.\<close>

definition token_claims :: "jwt_manager \<Rightarrow> int \<Rightarrow> int \<Rightarrow> string \<Rightarrow> string \<Rightarrow> jwt_claims" where
  "token_claims m now userID username role =
     \<lparr>jc_user_id = userID, jc_username = username, jc_role = role, jc_issuer = jm_issuer m,
      jc_issued_at = now div 1000, jc_expires_at = (now + jm_expire_hours m * 3600000) div 1000,
      jc_subject = fmt_d userID\<rparr>"

definition GenerateToken :: "crypto \<Rightarrow> jwt_manager \<Rightarrow> int \<Rightarrow> int \<Rightarrow> string \<Rightarrow> string \<Rightarrow> string result" where
  "GenerateToken cr m now userID username role =
     cr_sign cr ''HS256'' (token_claims m now userID username role) (jm_secret m)"

definition key_func :: "jwt_manager \<Rightarrow> string \<Rightarrow> string result" where
  "key_func m alg =
     (if alg \<in> {''HS256'', ''HS384'', ''HS512''} then Inr (jm_secret m)
      else Inl (Errf ''unexpected signing method''))"

definition ParseToken :: "crypto \<Rightarrow> jwt_manager \<Rightarrow> int \<Rightarrow> string \<Rightarrow> jwt_claims result" where
  "ParseToken cr m now tokenString =
     (case cr_parse cr tokenString (key_func m) now of
        Inl err \<Rightarrow> Inl (Wrapf ''JWT parse failed'' err)
      | Inr claims \<Rightarrow> Inr claims)"

definition HashPassword :: "crypto \<Rightarrow> nat \<Rightarrow> string \<Rightarrow> string result" where
  "HashPassword cr salt password =
     (case cr_hash cr salt 12 password of
        Inl err \<Rightarrow> Inl (Wrapf ''password hashing failed'' err)
      | Inr h \<Rightarrow> Inr h)"

definition CheckPassword :: "crypto \<Rightarrow> string \<Rightarrow> string \<Rightarrow> bool" where
  "CheckPassword cr password hash = cr_compare cr hash password"

section \<open>What the program relies on\<close>

locale auth_lib =
  fixes cr :: crypto
  assumes hash_compares: "cr_hash cr salt cost password = Inr h \<Longrightarrow> cr_compare cr h password"
    and sign_parses: "cr_sign cr alg c key = Inr t \<Longrightarrow> kf alg = Inr key \<Longrightarrow> now < 1000 * jc_expires_at c \<Longrightarrow>
       cr_parse cr t kf now = Inr c"
begin

lemma token_roundtrip:
  assumes "GenerateToken cr m now userID username role = Inr t" "now \<le> later"
    "later < 1000 * ((now + jm_expire_hours m * 3600000) div 1000)"
  shows "ParseToken cr m later t = Inr (token_claims m now userID username role)"
  using sign_parses [OF assms(1) [unfolded GenerateToken_def], of "key_func m" later] assms(3)
  by (simp add: ParseToken_def key_func_def token_claims_def)

end

text \<open>A crypto library that meets the laws: the hash is the marked password, a token the number of its parts.\<close>

definition demo_crypto :: crypto where
  "demo_crypto = \<lparr>cr_hash = (\<lambda>salt cost p. Inr (CHR ''h'' # p)), cr_compare = (\<lambda>h p. h = CHR ''h'' # p),
     cr_sign = (\<lambda>alg c key. Inr (fmt_d (int (to_nat (alg, key, (jc_user_id c, jc_username c, jc_role c, jc_issuer c,
        jc_issued_at c, jc_expires_at c, jc_subject c)))))),
     cr_parse = (\<lambda>t kf now. case parse_int t of None \<Rightarrow> Inl JsonErr | Some n \<Rightarrow>
        (let (alg, key, u, n, r, i, a, e, s) =
             (from_nat (nat n) :: string \<times> string \<times> int \<times> string \<times> string \<times> string \<times> int \<times> int \<times> string)
         in if kf alg = Inr key \<and> now < 1000 * e
            then Inr \<lparr>jc_user_id = u, jc_username = n, jc_role = r, jc_issuer = i, jc_issued_at = a, jc_expires_at = e, jc_subject = s\<rparr>
            else Inl JsonErr))\<rparr>"

interpretation demo_auth: auth_lib demo_crypto
proof
  fix salt cost password h
  assume "cr_hash demo_crypto salt cost password = Inr h"
  then show "cr_compare demo_crypto h password"
    by (auto simp: demo_crypto_def)
next
  fix alg c key t and kf :: "string \<Rightarrow> string result" and now
  assume "cr_sign demo_crypto alg c key = Inr t" "kf alg = Inr key" "now < 1000 * jc_expires_at c"
  then show "cr_parse demo_crypto t kf now = Inr c"
    by (auto simp: demo_crypto_def)
qed

section \<open>Page sizes\<close>

definition MaxPageSize :: int where
  "MaxPageSize = 100"

definition ClampPageSize :: "int \<Rightarrow> int" where
  "ClampPageSize pageSize = (if pageSize \<le> 0 then 10 else if pageSize > MaxPageSize then MaxPageSize else pageSize)"

lemma ClampPageSize_range: "1 \<le> ClampPageSize n \<and> ClampPageSize n \<le> MaxPageSize"
  by (simp add: ClampPageSize_def MaxPageSize_def)

end
