(* ===== verification/User_Service.thy ===== *)
theory User_Service
  imports Auth Reliable_Db
begin

text \<open>
  \<^verbatim>\<open>service/user_service.go\<close>, \<^verbatim>\<open>service/blacklist_service.go\<close> and
  \<^verbatim>\<open>service/audit_service.go\<close>: accounts, the list of banned values and the audit log. \<open>salt\<close>
  is the randomness of one call of bcrypt.
\<close>

section \<open>Requests\<close>

record forgot_password_request =
  fq_username :: string
  fq_phone :: string
  fq_new_password :: string

record user_list_response =
  ul_id :: int
  ul_username :: string
  ul_nickname :: string
  ul_phone :: string
  ul_role :: string
  ul_status :: int
  ul_created_at :: int

section \<open>Accounts\<close>

definition svc_Register ::
  "('r, 'd, 'q) env \<Rightarrow> crypto \<Rightarrow> nat \<Rightarrow> int \<Rightarrow> register_request \<Rightarrow> ('r, 'd, 'q) world
     \<Rightarrow> ('r, 'd, 'q) world \<times> user result" where
  "svc_Register ev cr salt now req w =
     (case on_db (GetUserByUsername (ev_db ev) (rq_username req)) w of
        (w1, Inr existing) \<Rightarrow> (w1, Inl (Errf ''username exists''))
      | (w1, Inl err) \<Rightarrow>
          if err \<noteq> RecordNotFound then (w1, Inl (Errf ''system busy''))
          else (case HashPassword cr salt (rq_password req) of
                  Inl err \<Rightarrow> (w1, Inl (Wrapf ''password encryption failed'' err))
                | Inr hashedPassword \<Rightarrow>
                    (case on_db (CreateUser (ev_db ev) now
                        \<lparr>u_id = 0, u_username = rq_username req, u_password = hashedPassword,
                         u_nickname = rq_nickname req, u_phone = rq_phone req, u_email = [], u_role = [], u_status = 1,
                         u_created_at = 0, u_updated_at = 0, u_deleted_at = None\<rparr>) w1 of
                       (w2, Inl err) \<Rightarrow> (w2, Inl (Wrapf ''create user failed'' err))
                     | (w2, Inr u) \<Rightarrow> (w2, Inr u))))"

definition svc_Login ::
  "('r, 'd, 'q) env \<Rightarrow> crypto \<Rightarrow> jwt_manager \<Rightarrow> int \<Rightarrow> login_request \<Rightarrow> ('r, 'd, 'q) world
     \<Rightarrow> ('r, 'd, 'q) world \<times> login_response result" where
  "svc_Login ev cr m now req w =
     (case on_db (GetUserByUsername (ev_db ev) (lq_username req)) w of
        (w1, Inl err) \<Rightarrow> (w1, Inl (Errf ''wrong username or password''))
      | (w1, Inr u) \<Rightarrow>
          if u_status u \<noteq> 1 then (w1, Inl (Errf ''account disabled''))
          else if \<not> CheckPassword cr (lq_password req) (u_password u)
          then (w1, Inl (Errf ''wrong username or password''))
          else (case GenerateToken cr m now (u_id u) (u_username u) (u_role u) of
                  Inl err \<Rightarrow> (w1, Inl (Wrapf ''token generation failed'' err))
                | Inr token \<Rightarrow> (w1, Inr \<lparr>lr_token = token, lr_user_id = u_id u, lr_username = u_username u,
                    lr_nickname = u_nickname u, lr_role = u_role u\<rparr>)))"

definition svc_GetUserList ::
  "('r, 'd, 'q) env \<Rightarrow> int \<Rightarrow> int \<Rightarrow> ('r, 'd, 'q) world \<Rightarrow> ('r, 'd, 'q) world \<times> (user_list_response list \<times> int) result" where
  "svc_GetUserList ev page pageSize w =
     (case on_db (GetUserList (ev_db ev) page pageSize) w of
        (w1, Inl err) \<Rightarrow> (w1, Inl err)
      | (w1, Inr (users, ntotal)) \<Rightarrow>
          (w1, Inr (map (\<lambda>u. \<lparr>ul_id = u_id u, ul_username = u_username u, ul_nickname = u_nickname u,
             ul_phone = u_phone u, ul_role = u_role u, ul_status = u_status u, ul_created_at = u_created_at u\<rparr>) users,
             ntotal)))"

definition svc_UpdateUserRole ::
  "('r, 'd, 'q) env \<Rightarrow> int \<Rightarrow> int \<Rightarrow> string \<Rightarrow> ('r, 'd, 'q) world \<Rightarrow> ('r, 'd, 'q) world \<times> unit result" where
  "svc_UpdateUserRole ev now userID role = on_db (UpdateUserRole (ev_db ev) now userID role)"

definition svc_GetUserInfo ::
  "('r, 'd, 'q) env \<Rightarrow> int \<Rightarrow> ('r, 'd, 'q) world \<Rightarrow> ('r, 'd, 'q) world \<times> user result" where
  "svc_GetUserInfo ev userID w =
     (case on_db (GetUserByID (ev_db ev) userID) w of
        (w1, Inl err) \<Rightarrow> (w1, Inl (Errf ''user does not exist''))
      | (w1, Inr u) \<Rightarrow> (w1, Inr u))"

definition svc_ChangePassword ::
  "('r, 'd, 'q) env \<Rightarrow> crypto \<Rightarrow> nat \<Rightarrow> int \<Rightarrow> int \<Rightarrow> string \<Rightarrow> string \<Rightarrow> ('r, 'd, 'q) world
     \<Rightarrow> ('r, 'd, 'q) world \<times> unit result" where
  "svc_ChangePassword ev cr salt now userID oldPassword newPassword w =
     (case on_db (GetUserByID (ev_db ev) userID) w of
        (w1, Inl err) \<Rightarrow> (w1, Inl (Errf ''user does not exist''))
      | (w1, Inr u) \<Rightarrow>
          if \<not> CheckPassword cr oldPassword (u_password u) then (w1, Inl (Errf ''wrong old password''))
          else (case HashPassword cr salt newPassword of
                  Inl err \<Rightarrow> (w1, Inl (Errf ''password encryption failed''))
                | Inr hashedPassword \<Rightarrow>
                    (case on_db (UpdatePassword (ev_db ev) now userID hashedPassword) w1 of
                       (w2, Inl err) \<Rightarrow> (w2, Inl (Wrapf ''password change failed'' err))
                     | (w2, Inr _) \<Rightarrow> (w2, Inr ()))))"

definition svc_ForgotPassword ::
  "('r, 'd, 'q) env \<Rightarrow> crypto \<Rightarrow> nat \<Rightarrow> int \<Rightarrow> forgot_password_request \<Rightarrow> ('r, 'd, 'q) world
     \<Rightarrow> ('r, 'd, 'q) world \<times> unit result" where
  "svc_ForgotPassword ev cr salt now req w =
     (case on_db (GetUserByUsername (ev_db ev) (fq_username req)) w of
        (w1, Inl err) \<Rightarrow> (w1, Inl (Errf (if err = RecordNotFound then ''username does not exist'' else ''system busy'')))
      | (w1, Inr u) \<Rightarrow>
          if u_phone u = [] then (w1, Inl (Errf ''no phone bound''))
          else if u_phone u \<noteq> fq_phone req then (w1, Inl (Errf ''phone differs''))
          else if u_status u \<noteq> 1 then (w1, Inl (Errf ''account disabled''))
          else (case HashPassword cr salt (fq_new_password req) of
                  Inl err \<Rightarrow> (w1, Inl (Errf ''password encryption failed''))
                | Inr hashedPassword \<Rightarrow>
                    (case on_db (UpdatePassword (ev_db ev) now (u_id u) hashedPassword) w1 of
                       (w2, Inl err) \<Rightarrow> (w2, Inl (Wrapf ''password reset failed'' err))
                     | (w2, Inr _) \<Rightarrow> (w2, Inr ()))))"

section \<open>Banned values and the audit log\<close>

definition svc_GetBlacklist :: "('r, 'd, 'q) env \<Rightarrow> ('r, 'd, 'q) world \<Rightarrow> ('r, 'd, 'q) world \<times> blacklist list result" where
  "svc_GetBlacklist ev = on_db (GetBlacklist (ev_db ev))"

definition svc_AddBlacklist ::
  "('r, 'd, 'q) env \<Rightarrow> int \<Rightarrow> string \<Rightarrow> string \<Rightarrow> string \<Rightarrow> ('r, 'd, 'q) world \<Rightarrow> ('r, 'd, 'q) world \<times> unit result" where
  "svc_AddBlacklist ev now typ v reason =
     on_db (CreateBlacklist (ev_db ev) now \<lparr>b_id = 0, b_type = typ, b_value = v, b_reason = reason, b_created_at = 0\<rparr>)"

definition svc_RemoveBlacklist ::
  "('r, 'd, 'q) env \<Rightarrow> int \<Rightarrow> int \<Rightarrow> ('r, 'd, 'q) world \<Rightarrow> ('r, 'd, 'q) world \<times> unit result" where
  "svc_RemoveBlacklist ev now i = on_db (DeleteBlacklist (ev_db ev) i now)"

definition svc_CheckBlacklist ::
  "('r, 'd, 'q) env \<Rightarrow> string \<Rightarrow> string \<Rightarrow> ('r, 'd, 'q) world \<Rightarrow> ('r, 'd, 'q) world \<times> bool result" where
  "svc_CheckBlacklist ev typ v = on_db (CheckBlacklist (ev_db ev) typ v)"

definition svc_CreateAuditLog ::
  "('r, 'd, 'q) env \<Rightarrow> int \<Rightarrow> audit_log \<Rightarrow> ('r, 'd, 'q) world \<Rightarrow> ('r, 'd, 'q) world \<times> unit result" where
  "svc_CreateAuditLog ev now l = on_db (CreateAuditLog (ev_db ev) now l)"

definition svc_GetAuditLogs ::
  "('r, 'd, 'q) env \<Rightarrow> int \<Rightarrow> int \<Rightarrow> int \<Rightarrow> string \<Rightarrow> ('r, 'd, 'q) world
     \<Rightarrow> ('r, 'd, 'q) world \<times> (audit_log list \<times> int) result" where
  "svc_GetAuditLogs ev page pageSize operatorID action = on_db (GetAuditLogs (ev_db ev) page pageSize operatorID action)"

section \<open>Who can log in\<close>

lemma first_row:
  "table_exec sc t (First P) = (t', a) \<Longrightarrow> answer_row a = Inr r \<Longrightarrow> r \<in> set (t_rows t) \<and> selected sc P r"
proof -
  assume "table_exec sc t (First P) = (t', a)" "answer_row a = Inr r"
  then have "r \<in> set (matching sc t P)"
    by (cases "matching sc t P") auto
  then show ?thesis by (auto simp: matching_def)
qed

context db_server
begin

lemma found_user:
  assumes "GetUserByUsername ops n d = (d', Inr u)"
  shows "u \<in> set (t_rows (db_users (view d)))" "u_deleted_at u = None" "db_weight ops (u_username u) = db_weight ops n"
proof -
  obtain a where a: "on_user ops (First (\<lambda>u. db_weight ops (u_username u) = db_weight ops n)) d = (d', a)" "answer_row a = Inr u"
    using assms by (auto simp: GetUserByUsername_def split: prod.splits)
  then have "(view d', a) = exec_user (db_weight ops) (First (\<lambda>u. db_weight ops (u_username u) = db_weight ops n)) (view d)"
    using user_stmt [OF a(1)] by (auto simp: db_outcome_def)
  then obtain t where "table_exec (user_schema (db_weight ops)) (db_users (view d)) (First (\<lambda>u. db_weight ops (u_username u) = db_weight ops n)) = (t, a)"
    by (auto simp: exec_user_def split: prod.splits)
  from first_row [OF this a(2)]
  show "u \<in> set (t_rows (db_users (view d)))" "u_deleted_at u = None" "db_weight ops (u_username u) = db_weight ops n"
    by (auto simp: selected_def user_schema_def)
qed

end

text \<open>
  C23. A token is only given to who knows a password: when \<open>Login\<close> answers with a token, there is
  an enabled, not deleted account whose name is the given one under the collation of the column (which
  may ignore the case) and whose stored hash matches the given password, and the token was made for the
  id and the role of that account.
\<close>

theorem login_needs_password:
  assumes "db_server (ev_db ev) view" "svc_Login ev cr m now req w = (w', Inr resp)"
  shows "\<exists>u \<in> set (t_rows (db_users (view (w_db w)))). db_weight (ev_db ev) (u_username u) = db_weight (ev_db ev) (lq_username req) \<and> u_deleted_at u = None \<and>
    u_status u = 1 \<and> CheckPassword cr (lq_password req) (u_password u) \<and> lr_user_id resp = u_id u \<and>
    lr_role resp = u_role u \<and> GenerateToken cr m now (u_id u) (u_username u) (u_role u) = Inr (lr_token resp)"
proof -
  obtain w1 found where g: "on_db (GetUserByUsername (ev_db ev) (lq_username req)) w = (w1, found)"
    by fastforce
  then obtain u t where u: "found = Inr u" "u_status u = 1" "CheckPassword cr (lq_password req) (u_password u)"
    "GenerateToken cr m now (u_id u) (u_username u) (u_role u) = Inr t"
    "resp = \<lparr>lr_token = t, lr_user_id = u_id u, lr_username = u_username u, lr_nickname = u_nickname u, lr_role = u_role u\<rparr>"
    using assms(2) by (auto simp: svc_Login_def split: sum.splits if_splits)
  with db_server.found_user [OF assms(1) on_dbD [OF g [unfolded u(1)]]] show ?thesis
    by (intro bexI [of _ u]) simp_all
qed

section \<open>From registration to the claims of a request\<close>

text \<open>The ids given out so far, so that a new row gets a fresh one.\<close>

definition users_ok :: "database \<Rightarrow> bool" where
  "users_ok v \<longleftrightarrow> (\<forall>u \<in> set (t_rows (db_users v)). u_id u < t_next (db_users v))"

context reliable_db
begin

lemma found_exact:
  assumes "GetUserByUsername ops n d = (d', r)"
  shows "view d' = view d"
    "r = (case matching (user_schema (db_weight ops)) (db_users (view d)) (\<lambda>u. db_weight ops (u_username u) = db_weight ops n) of [] \<Rightarrow> Inl RecordNotFound | u # _ \<Rightarrow> Inr u)"
proof -
  obtain a where a: "on_user ops (First (\<lambda>u. db_weight ops (u_username u) = db_weight ops n)) d = (d', a)" "r = answer_row a"
    using assms by (auto simp: GetUserByUsername_def split: prod.splits)
  from user_answers [OF a(1)] show "view d' = view d"
    "r = (case matching (user_schema (db_weight ops)) (db_users (view d)) (\<lambda>u. db_weight ops (u_username u) = db_weight ops n) of [] \<Rightarrow> Inl RecordNotFound | u # _ \<Rightarrow> Inr u)"
    using a(2) by (auto simp: exec_user_def split: list.splits)
qed

lemma created_user:
  assumes "CreateUser ops now u d = (d', Inr r)" "users_ok (view d)" "u_id u = 0"
  shows "r = (new_user now u)\<lparr>u_id := t_next (db_users (view d))\<rparr>"
    "t_rows (db_users (view d')) = t_rows (db_users (view d)) @ [r]"
    "\<forall>x \<in> set (t_rows (db_users (view d))). db_weight ops (u_username x) \<noteq> db_weight ops (u_username u)"
proof -
  let ?u = "new_user now u"
  obtain a where a: "on_user ops (Create [?u]) d = (d', a)"
    "(case answer_rows a of Inl e \<Rightarrow> Inl e | Inr [] \<Rightarrow> Inl bad_answer | Inr (x # _) \<Rightarrow> Inr x) = Inr r"
    using assms(1) by (auto simp: CreateUser_def split: prod.splits)
  have u: "u_id ?u = 0" "u_username ?u = u_username u"
    using assms(3) by (simp_all add: new_user_def)
  have e: "exec_user (db_weight ops) (Create [?u]) (view d) = (view d', a)"
    using user_answers [OF a(1)] by simp
  let ?T = "db_users (view d)"
  have fresh: "\<forall>x \<in> set (t_rows ?T). db_weight ops (u_username x) \<noteq> db_weight ops (u_username u) \<and> u_id x \<noteq> t_next ?T"
    using e a(2) u by (auto simp: exec_user_def user_schema_def Let_def split: if_splits)
  then have "exec_user (db_weight ops) (Create [?u]) (view d) = (view d\<lparr>db_users := \<lparr>t_rows = t_rows ?T @ [?u\<lparr>u_id := t_next ?T\<rparr>],
      t_next = t_next ?T + 1\<rparr>\<rparr>, Rows [?u\<lparr>u_id := t_next ?T\<rparr>])"
    using u by (auto simp: exec_user_def user_schema_def Let_def)
  with e have "view d' = view d\<lparr>db_users := \<lparr>t_rows = t_rows ?T @ [?u\<lparr>u_id := t_next ?T\<rparr>], t_next = t_next ?T + 1\<rparr>\<rparr>"
    "a = Rows [?u\<lparr>u_id := t_next ?T\<rparr>]" by simp_all
  with a(2) fresh show "r = ?u\<lparr>u_id := t_next ?T\<rparr>" "t_rows (db_users (view d')) = t_rows ?T @ [r]"
    "\<forall>x \<in> set (t_rows ?T). db_weight ops (u_username x) \<noteq> db_weight ops (u_username u)" by simp_all
qed

lemma registered_found:
  assumes "svc_Register ev cr salt now req w = (w1, Inr u)" "ev_db ev = ops" "users_ok (view (w_db w))"
    "GetUserByUsername ops (rq_username req) (w_db w1) = (d', r)"
  shows "r = Inr u" "u_status u = 1" "u_role u = ''user''" "u_username u = rq_username req"
    "cr_hash cr salt 12 (rq_password req) = Inr (u_password u)"
proof -
  obtain w0 found where g: "on_db (GetUserByUsername ops (rq_username req)) w = (w0, found)" by fastforce
  obtain h w2 where h: "found = Inl RecordNotFound" "HashPassword cr salt (rq_password req) = Inr h"
    and c: "on_db (CreateUser ops now \<lparr>u_id = 0, u_username = rq_username req, u_password = h,
        u_nickname = rq_nickname req, u_phone = rq_phone req, u_email = [], u_role = [], u_status = 1,
        u_created_at = 0, u_updated_at = 0, u_deleted_at = None\<rparr>) w0 = (w1, Inr u)"
    using assms(1,2) g by (auto simp: svc_Register_def split: sum.splits if_splits prod.splits)
  have v0: "view (w_db w0) = view (w_db w)"
    using found_exact(1) [OF on_dbD [OF g]] .
  note made = created_user [OF on_dbD [OF c], simplified, unfolded v0, OF assms(3)]
  have sel: "selected (user_schema (db_weight ops)) (\<lambda>x. db_weight ops (u_username x) = db_weight ops (rq_username req)) u"
    by (simp add: made(1) selected_def user_schema_def new_user_def or_default_def)
  have "filter (selected (user_schema (db_weight ops)) (\<lambda>x. db_weight ops (u_username x) = db_weight ops (rq_username req))) (t_rows (db_users (view (w_db w)))) = []"
    using made(3) by (auto simp: filter_empty_conv selected_def)
  then have "matching (user_schema (db_weight ops)) (db_users (view (w_db w1))) (\<lambda>x. db_weight ops (u_username x) = db_weight ops (rq_username req)) = [u]"
    using sel made(2) by (simp add: matching_def)
  with found_exact(2) [OF assms(4)] show "r = Inr u" by simp
  show "u_status u = 1" "u_role u = ''user''" "u_username u = rq_username req"
    by (simp_all add: made(1) new_user_def or_default_def)
  show "cr_hash cr salt 12 (rq_password req) = Inr (u_password u)"
    using h(2) by (auto simp: made(1) new_user_def HashPassword_def split: sum.splits)
qed

end

text \<open>
  C24. Registration, login and the check of a request fit together: after \<open>Register\<close> succeeded,
  \<open>Login\<close> with the same name and password succeeds (when the token can be signed), and the token it
  returns reads back, until it expires, as claims with the id of the new account and the role
  \<open>user\<close>.
\<close>

theorem register_login_roundtrip:
  assumes "reliable_db (ev_db ev) view" "auth_lib cr" "users_ok (view (w_db w))"
    "svc_Register ev cr salt now req w = (w1, Inr u)"
    "svc_Login ev cr m now1 \<lparr>lq_username = rq_username req, lq_password = rq_password req\<rparr> w1 = (w2, res)"
    "GenerateToken cr m now1 (u_id u) (rq_username req) ''user'' = Inr t"
    "now1 \<le> now2" "now2 < 1000 * ((now1 + jm_expire_hours m * 3600000) div 1000)"
  shows "\<exists>resp claims. res = Inr resp \<and> lr_user_id resp = u_id u \<and>
    ParseToken cr m now2 (lr_token resp) = Inr claims \<and> jc_user_id claims = u_id u \<and>
    jc_username claims = rq_username req \<and> jc_role claims = ''user''"
proof -
  obtain w3 r where g: "on_db (GetUserByUsername (ev_db ev) (rq_username req)) w1 = (w3, r)" by fastforce
  note u = reliable_db.registered_found [OF assms(1,4) refl assms(3) on_dbD [OF g]]
  have "CheckPassword cr (rq_password req) (u_password u)"
    using auth_lib.hash_compares [OF assms(2) u(5)] by (simp add: CheckPassword_def)
  then have "res = Inr \<lparr>lr_token = t, lr_user_id = u_id u, lr_username = u_username u, lr_nickname = u_nickname u,
      lr_role = u_role u\<rparr>"
    using assms(5,6) g u by (simp add: svc_Login_def)
  with auth_lib.token_roundtrip [OF assms(2,6-8)] show ?thesis
    by (simp add: token_claims_def)
qed

text \<open>A new account of the small deployment logs in.\<close>

definition demo_register :: register_request where
  "demo_register = \<lparr>rq_username = ''alice'', rq_password = ''secret1'', rq_nickname = ''al'', rq_phone = []\<rparr>"

lemma demo_registered:
  "\<exists>w1 u. svc_Register demo_env demo_crypto 0 1000 demo_register demo_world = (w1, Inr u) \<and> u_id u = 1"
  by (simp add: svc_Register_def on_db_def GetUserByUsername_def exec_user_def matching_def demo_db_def empty_table_def
      HashPassword_def demo_crypto_def CreateUser_def user_schema_def new_user_def or_default_def demo_register_def Let_def)

definition demo_manager :: jwt_manager where
  "demo_manager = NewJWTManager ''key'' 24 ''shop''"

definition demo_login :: login_request where
  "demo_login = \<lparr>lq_username = rq_username demo_register, lq_password = rq_password demo_register\<rparr>"

lemma demo_token: "\<exists>t. GenerateToken demo_crypto demo_manager now i n r = Inr t"
  by (simp add: GenerateToken_def demo_crypto_def)

theorem register_login_roundtrip_witness:
  "\<exists>w1 u w2 resp claims. svc_Register demo_env demo_crypto 0 1000 demo_register demo_world = (w1, Inr u) \<and>
     svc_Login demo_env demo_crypto demo_manager 2000 demo_login w1 = (w2, Inr resp) \<and>
     ParseToken demo_crypto demo_manager 3000 (lr_token resp) = Inr claims \<and> jc_user_id claims = 1 \<and> jc_role claims = ''user''"
proof -
  obtain w1 u where r: "svc_Register demo_env demo_crypto 0 1000 demo_register demo_world = (w1, Inr u)" "u_id u = 1"
    using demo_registered by blast
  obtain w2 res where l: "svc_Login demo_env demo_crypto demo_manager 2000 demo_login w1 = (w2, res)" by fastforce
  obtain t where t: "GenerateToken demo_crypto demo_manager 2000 (u_id u) (rq_username demo_register) ''user'' = Inr t"
    using demo_token by blast
  have "users_ok (id (w_db demo_world))"
    by (simp add: users_ok_def demo_db_def empty_table_def)
  from register_login_roundtrip [of demo_env id, OF _ demo_auth.auth_lib_axioms this r(1) l [unfolded demo_login_def] t, of 3000]
  show ?thesis
    using r l plain_mysql.reliable_db_axioms by (auto simp: demo_manager_def NewJWTManager_def)
qed

text \<open>The account table of a deployment with one registered user.\<close>

definition alice :: user where
  "alice = \<lparr>u_id = 1, u_username = ''alice'', u_password = ''hsecret1'', u_nickname = ''al'', u_phone = [],
     u_email = [], u_role = ''user'', u_status = 1, u_created_at = 1000, u_updated_at = 1000, u_deleted_at = None\<rparr>"

lemma alice_sel:
  "u_id alice = 1" "u_username alice = ''alice''" "u_role alice = ''user''" "u_status alice = 1"
  "CheckPassword demo_crypto ''secret1'' (u_password alice)"
  by (simp_all add: alice_def CheckPassword_def demo_crypto_def)

definition alice_world :: "(faulty_server, database, demo_broker) world" where
  "alice_world = demo_world\<lparr>w_db := demo_db\<lparr>db_users := \<lparr>t_rows = [alice], t_next = 2\<rparr>\<rparr>\<rparr>"

text \<open>The name is found whatever its case.\<close>

definition shout_login :: login_request where
  "shout_login = \<lparr>lq_username = ''ALICE'', lq_password = ''secret1''\<rparr>"

lemma lower_alice: "ignore_case ''ALICE'' = ignore_case ''alice''"
  by code_simp

theorem login_needs_password_witness:
  "\<exists>w2 resp. svc_Login demo_env demo_crypto demo_manager 2000 shout_login alice_world = (w2, Inr resp) \<and>
     (\<exists>u \<in> set (t_rows (db_users (w_db alice_world))). ignore_case (u_username u) = ignore_case ''ALICE'' \<and> u_status u = 1 \<and>
        CheckPassword demo_crypto ''secret1'' (u_password u) \<and> lr_user_id resp = u_id u)"
proof -
  obtain t where t: "GenerateToken demo_crypto demo_manager 2000 1 ''alice'' ''user'' = Inr t"
    using demo_token by blast
  have db: "GetUserByUsername plain_ops ''ALICE'' (w_db alice_world) = (w_db alice_world, Inr alice)"
    unfolding GetUserByUsername_def plain_ops_sel lower_alice
    by (simp add: exec_user_def matching_def alice_world_def selected_def user_schema_def alice_def)
  obtain w2 resp where l: "svc_Login demo_env demo_crypto demo_manager 2000 shout_login alice_world = (w2, Inr resp)"
    using t by (simp add: svc_Login_def on_db_def shout_login_def db alice_sel)
  from login_needs_password [of demo_env id, OF _ this] l show ?thesis
    using plain_mysql.db_server_axioms by (auto simp: shout_login_def)
qed

end
