(* ===== verification/Middleware.thy ===== *)
theory Middleware
  imports User_Service "HOL-Library.Word"
begin

text \<open>
  The gin middlewares of \<^verbatim>\<open>middleware/middleware.go\<close>, \<^verbatim>\<open>sign.go\<close>, \<^verbatim>\<open>rate_limit.go\<close> and
  \<^verbatim>\<open>token_blacklist.go\<close>. A middleware reads the request, may set keys and response headers of
  the context, and either passes the request on (\<open>Next\<close>) or ends it with a code (\<open>Abort\<close>).
  HMAC-SHA256 in hexadecimal is the parameter \<open>hmac\<close>.
\<close>

section \<open>Requests\<close>

record http_request =
  hr_method :: string
  hr_path :: string
  hr_raw_path :: string
  hr_headers :: "string \<rightharpoonup> string"
  hr_body :: "string option"
  hr_content_length :: int
  hr_client_ip :: string

record gin_context =
  gc_user_id :: "int option"
  gc_username :: "string option"
  gc_role :: "string option"
  gc_trace_id :: "string option"
  gc_headers :: "string \<rightharpoonup> string"

datatype passage = Next | Abort int

text \<open>A missing header reads as the empty string.\<close>

definition GetHeader :: "http_request \<Rightarrow> string \<Rightarrow> string" where
  "GetHeader r k = (case hr_headers r k of None \<Rightarrow> [] | Some v \<Rightarrow> v)"

definition set_header :: "string \<Rightarrow> string \<Rightarrow> gin_context \<Rightarrow> gin_context" where
  "set_header k v c = c\<lparr>gc_headers := (if v = [] then (gc_headers c)(k := None) else (gc_headers c)(k \<mapsto> v))\<rparr>"

definition has_prefix :: "string \<Rightarrow> string \<Rightarrow> bool" where
  "has_prefix p s \<longleftrightarrow> take (length p) s = p"

section \<open>Trace id, CORS, body size\<close>

definition TraceIDMiddleware :: "string \<Rightarrow> http_request \<Rightarrow> gin_context \<Rightarrow> gin_context \<times> passage" where
  "TraceIDMiddleware generated r c =
     (let traceID = (if GetHeader r ''X-Trace-ID'' = [] then generated else GetHeader r ''X-Trace-ID'')
      in (set_header ''X-Trace-ID'' traceID (c\<lparr>gc_trace_id := Some traceID\<rparr>), Next))"

text \<open>\<^verbatim>\<open>strings.Join\<close> with a comma.\<close>

fun join_comma :: "string list \<Rightarrow> string" where
  "join_comma [] = []"
| "join_comma [s] = s"
| "join_comma (s # t # ss) = s @ '', '' @ join_comma (t # ss)"

definition CORSMiddleware :: "cors_config \<Rightarrow> http_request \<Rightarrow> gin_context \<Rightarrow> gin_context \<times> passage" where
  "CORSMiddleware cfg r c =
     (let origin = GetHeader r ''Origin'';
          isAllowed = (origin \<in> set (co_allowed_origins cfg));
          c1 = (if isAllowed
                then set_header ''Access-Control-Allow-Credentials'' ''true'' (set_header ''Access-Control-Allow-Origin'' origin c)
                else set_header ''Access-Control-Allow-Origin'' [] c);
          c2 = set_header ''Access-Control-Allow-Headers'' (join_comma (co_allowed_headers cfg))
                 (set_header ''Access-Control-Allow-Methods'' (join_comma (co_allowed_methods cfg)) c1);
          c3 = set_header ''X-XSS-Protection'' ''1; mode=block'' (set_header ''X-Content-Type-Options'' ''nosniff''
                 (set_header ''X-Frame-Options'' ''DENY'' c2))
      in (c3, if hr_method r = ''OPTIONS'' then Abort 204 else Next))"

definition BodyLimitMiddleware :: "int \<Rightarrow> http_request \<Rightarrow> gin_context \<Rightarrow> gin_context \<times> passage" where
  "BodyLimitMiddleware maxBytes r c =
     (let maxBytes = (if maxBytes \<le> 0 then 1048576 else maxBytes) in
      if hr_method r \<in> {''POST'', ''PUT'', ''PATCH''} \<and> hr_content_length r > maxBytes then (c, Abort 413)
      else (c, Next))"

section \<open>Authentication\<close>

definition auth_whitelist :: "string list" where
  "auth_whitelist = [''/api/v1/user/login'', ''/api/v1/user/register'', ''/metrics'', ''/health'']"

text \<open>\<^verbatim>\<open>strings.SplitN(s, " ", 2)\<close>: the part before the first space and the rest, if there is one.\<close>

definition split_space :: "string \<Rightarrow> (string \<times> string) option" where
  "split_space s = (case dropWhile (\<lambda>ch. ch \<noteq> CHR '' '') s of
      [] \<Rightarrow> None | _ # rest \<Rightarrow> Some (takeWhile (\<lambda>ch. ch \<noteq> CHR '' '') s, rest))"

definition AuthMiddleware ::
  "crypto \<Rightarrow> jwt_manager \<Rightarrow> int \<Rightarrow> http_request \<Rightarrow> gin_context \<Rightarrow> gin_context \<times> passage" where
  "AuthMiddleware cr m now r c =
     (if hr_path r \<in> set auth_whitelist then (c, Next)
      else let authHeader = GetHeader r ''Authorization'' in
           if authHeader = [] then (c, Abort 401)
           else (case split_space authHeader of
                   None \<Rightarrow> (c, Abort 401)
                 | Some (scheme, token) \<Rightarrow>
                     if scheme \<noteq> ''Bearer'' then (c, Abort 401)
                     else (case ParseToken cr m now token of
                             Inl _ \<Rightarrow> (c, Abort 401)
                           | Inr claims \<Rightarrow>
                               (c\<lparr>gc_user_id := Some (jc_user_id claims), gc_username := Some (jc_username claims),
                                 gc_role := Some (if jc_role claims = [] then ''user'' else jc_role claims)\<rparr>, Next))))"

section \<open>Signatures\<close>

definition sign_whitelist :: "string list" where
  "sign_whitelist = [''/health'', ''/metrics'', ''/api/v1/user/login'', ''/api/v1/user/register'', ''/api/v1/product/upload'']"

definition staticPrefixes :: "string list" where
  "staticPrefixes = [''/uploads/'']"

definition sign_secret :: "string \<Rightarrow> string" where
  "sign_secret configured = (if configured = [] then ''default-dev-sign-secret-change-in-production'' else configured)"

text \<open>\<^verbatim>\<open>abs\<close> on \<^verbatim>\<open>int64\<close>.\<close>

definition abs64 :: "64 word \<Rightarrow> 64 word" where
  "abs64 n = (if n <s 0 then - n else n)"

definition sign_expired :: "64 word \<Rightarrow> 64 word \<Rightarrow> bool" where
  "sign_expired now ts \<longleftrightarrow> 60 <s abs64 (now - ts)"

definition body_text :: "http_request \<Rightarrow> string" where
  "body_text r = (case hr_body r of None \<Rightarrow> [] | Some b \<Rightarrow> b)"

definition SignMiddleware ::
  "(string \<Rightarrow> string \<Rightarrow> string) \<Rightarrow> string \<Rightarrow> 64 word \<Rightarrow> http_request \<Rightarrow> gin_context \<Rightarrow> gin_context \<times> passage" where
  "SignMiddleware hmac configured now r c =
     (if hr_path r \<in> set sign_whitelist \<or> hr_raw_path r \<in> set sign_whitelist then (c, Next)
      else if list_ex (\<lambda>p. has_prefix p (hr_path r)) staticPrefixes then (c, Next)
      else let timestamp = GetHeader r ''X-Timestamp''; sign = GetHeader r ''X-Sign'' in
           if timestamp = [] \<or> sign = [] then (c, Abort 401)
           else (case Atoi timestamp of
                   None \<Rightarrow> (c, Abort 401)
                 | Some ts \<Rightarrow>
                     if sign_expired now (word_of_int ts) then (c, Abort 401)
                     else (let payload = timestamp @ hr_method r @ hr_path r @ body_text r;
                               expectedSign = hmac payload (sign_secret configured)
                           in if sign \<noteq> expectedSign then (c, Abort 401) else (c, Next))))"

definition GenerateSign :: "(string \<Rightarrow> string \<Rightarrow> string) \<Rightarrow> int \<Rightarrow> string \<Rightarrow> string \<Rightarrow> string \<Rightarrow> string \<Rightarrow> string" where
  "GenerateSign hmac timestamp method path bd secret = hmac (fmt_d timestamp @ method @ path @ bd) secret"

section \<open>Rate limit of the login\<close>

definition rate_key :: "string \<Rightarrow> key" where
  "rate_key clientIP = ''rate_limit:login:'' @ clientIP"

definition reset_key :: "string \<Rightarrow> key" where
  "reset_key clientIP = ''rate_limit:login:'' @ clientIP @ '':reset''"

definition rate_headers :: "int \<Rightarrow> int \<Rightarrow> int \<Rightarrow> gin_context \<Rightarrow> gin_context" where
  "rate_headers maxAttempts remaining resetAt c =
     set_header ''X-RateLimit-Reset'' (fmt_d resetAt) (set_header ''X-RateLimit-Remaining'' (fmt_d remaining)
       (set_header ''X-RateLimit-Limit'' (fmt_d maxAttempts) c))"

text \<open>
  \<open>unixNow\<close> is the clock in seconds. The results of EXPIRE, SET and GET are not looked at; a
  failed GET or TTL reads as 0. Redis answers TTL in seconds, rounded, or with -1 or -2; go-redis
  makes a \<^verbatim>\<open>time.Duration\<close> of it, where -1 and -2 stay nanoseconds.
\<close>

definition ttl_nanos :: "int \<Rightarrow> int" where
  "ttl_nanos n = (if n = -1 \<or> n = -2 then n else n * 1000000000)"

definition whole_seconds :: "int \<Rightarrow> int" where
  "whole_seconds nanos = sgn nanos * (\<bar>nanos\<bar> div 1000000000)"

definition LoginRateLimitMiddleware ::
  "'r redis \<Rightarrow> int \<Rightarrow> int \<Rightarrow> int \<Rightarrow> http_request \<Rightarrow> gin_context \<Rightarrow> 'r \<Rightarrow> 'r \<times> gin_context \<times> passage" where
  "LoginRateLimitMiddleware call maxAttempts0 windowSeconds0 unixNow r c s =
     (let maxAttempts = (if maxAttempts0 \<le> 0 then 10 else maxAttempts0);
          windowSeconds = (if windowSeconds0 \<le> 0 then 60 else windowSeconds0);
          k = rate_key (hr_client_ip r); rk = reset_key (hr_client_ip r)
      in case call s (INCRBY k 1) of (s1, a) \<Rightarrow>
        (case reply_Int a of
           Inl _ \<Rightarrow> (s1, c, Next)
         | Inr cnt \<Rightarrow>
             (let s3 = (if cnt = 1
                  then fst (call (fst (call s1 (EXPIRE k (1000 * windowSeconds))))
                    (SET rk (fmt_d (unixNow + windowSeconds)) (set_ttl (1000 * windowSeconds))))
                  else s1);
                  (s4, g) = call s3 (GET rk);
                  resetAt = ignore_err 0 (reply_Int g);
                  remaining = max 0 (maxAttempts - cnt);
                  c1 = rate_headers maxAttempts remaining resetAt c
              in if cnt > maxAttempts
                 then (let (s5, t) = call s4 (TTL k);
                           ttl = ignore_err 0 (map_sum id ttl_nanos (reply_Int t));
                           retryAfter = (if whole_seconds ttl < 0 then windowSeconds else whole_seconds ttl)
                       in (s5, set_header ''Retry-After'' (fmt_d retryAfter) c1, Abort 429))
                 else (s4, c1, Next))))"

section \<open>Revoked tokens\<close>

text \<open>
  The map of revoked tokens with the goroutines that will delete an entry: a token and the time
  it wakes up.
\<close>

record token_blacklist =
  tb_entries :: "string \<rightharpoonup> int"
  tb_timers :: "(string \<times> int) list"

definition AddToBlacklist :: "int \<Rightarrow> string \<Rightarrow> int \<Rightarrow> token_blacklist \<Rightarrow> token_blacklist" where
  "AddToBlacklist now token expiry b =
     b\<lparr>tb_entries := (tb_entries b)(token \<mapsto> now + expiry), tb_timers := tb_timers b @ [(token, now + expiry)]\<rparr>"

text \<open>The goroutines that are due at \<open>now\<close> run.\<close>

definition fire_timers :: "int \<Rightarrow> token_blacklist \<Rightarrow> token_blacklist" where
  "fire_timers now b =
     b\<lparr>tb_entries := (\<lambda>t. if \<exists>x \<in> set (tb_timers b). fst x = t \<and> snd x \<le> now then None else tb_entries b t),
       tb_timers := filter (\<lambda>x. now < snd x) (tb_timers b)\<rparr>"

definition IsBlacklisted :: "token_blacklist \<Rightarrow> string \<Rightarrow> bool" where
  "IsBlacklisted b token \<longleftrightarrow> tb_entries b token \<noteq> None"

definition CleanExpiredBlacklist :: "int \<Rightarrow> token_blacklist \<Rightarrow> token_blacklist" where
  "CleanExpiredBlacklist now b =
     b\<lparr>tb_entries := (\<lambda>t. case tb_entries b t of None \<Rightarrow> None | Some e \<Rightarrow> if now > e then None else Some e)\<rparr>"

definition TokenBlacklistMiddleware :: "token_blacklist \<Rightarrow> http_request \<Rightarrow> gin_context \<Rightarrow> gin_context \<times> passage" where
  "TokenBlacklistMiddleware b r c =
     (let authHeader = GetHeader r ''Authorization'' in
      if authHeader = [] then (c, Next)
      else let token = (if length authHeader > 7 \<and> take 7 authHeader = ''Bearer '' then drop 7 authHeader else [])
           in if token \<noteq> [] \<and> IsBlacklisted b token then (c, Abort 401) else (c, Next))"

section \<open>Metrics\<close>

text \<open>The counters of a request, without the Prometheus part: before and after the handler.\<close>

definition visitor_key :: "http_request \<Rightarrow> gin_context \<Rightarrow> string" where
  "visitor_key r c = (case gc_user_id c of
      Some i \<Rightarrow> if i > 0 then ''u_'' @ fmt_d i else hr_client_ip r
    | None \<Rightarrow> hr_client_ip r)"

definition MetricsMiddleware :: "(monitor \<Rightarrow> monitor \<times> gin_context) \<Rightarrow> int \<Rightarrow> http_request \<Rightarrow> monitor \<Rightarrow> monitor" where
  "MetricsMiddleware handler latencyMs r mo =
     (let (mo1, c) = handler (with_engine RecordRequest mo);
          mo2 = with_engine (RecordRequestLatency (of_int latencyMs)) mo1
      in if has_prefix ''/api/'' (hr_path r) then with_engine (RecordVisit (visitor_key r c)) mo2 else mo2)"

end
