(* ===== verification/Access_Control.thy ===== *)
theory Access_Control
  imports Middleware Seckill_Recovery
begin

text \<open>
  What the middlewares promise: who passes the token check and the signature check, and how many
  logins of one address pass in a window.
\<close>

section \<open>The token check\<close>

lemma split_space_Bearer:
  "split_space h = Some (a, t) \<longleftrightarrow> h = a @ CHR '' '' # t \<and> CHR '' '' \<notin> set a"
proof
  assume h: "split_space h = Some (a, t)"
  then obtain x where d: "dropWhile (\<lambda>ch. ch \<noteq> CHR '' '') h = x # t" and a: "a = takeWhile (\<lambda>ch. ch \<noteq> CHR '' '') h"
    by (auto simp: split_space_def split: list.splits)
  have "x = CHR '' ''"
    using hd_dropWhile [of "\<lambda>ch. ch \<noteq> CHR '' ''" h] d by simp
  moreover have "h = a @ x # t"
    using takeWhile_dropWhile_id [of "\<lambda>ch. ch \<noteq> CHR '' ''" h] d a by simp
  moreover have "CHR '' '' \<notin> set a"
    unfolding a by (auto dest: set_takeWhileD)
  ultimately show "h = a @ CHR '' '' # t \<and> CHR '' '' \<notin> set a"
    by blast
next
  assume "h = a @ CHR '' '' # t \<and> CHR '' '' \<notin> set a"
  then show "split_space h = Some (a, t)"
    by (auto simp: split_space_def dropWhile_append takeWhile_append)
qed

lemma Bearer_header: "split_space h = Some (''Bearer'', t) \<longleftrightarrow> h = ''Bearer '' @ t"
  by (simp add: split_space_Bearer)

lemma auth_passes:
  assumes "hr_path r \<notin> set auth_whitelist"
  shows "AuthMiddleware cr m now r c = (c', Next) \<longleftrightarrow>
    (\<exists>t claims. GetHeader r ''Authorization'' = ''Bearer '' @ t \<and> ParseToken cr m now t = Inr claims \<and>
      c' = c\<lparr>gc_user_id := Some (jc_user_id claims), gc_username := Some (jc_username claims),
             gc_role := Some (if jc_role claims = [] then ''user'' else jc_role claims)\<rparr>)"
proof -
  let ?h = "GetHeader r ''Authorization''"
  show ?thesis
  proof (cases "\<exists>t. split_space ?h = Some (''Bearer'', t)")
    case True
    then obtain t where t: "split_space ?h = Some (''Bearer'', t)" by blast
    then have h: "?h = ''Bearer '' @ t" by (simp only: Bearer_header)
    have "(\<exists>t' claims. ?h = ''Bearer '' @ t' \<and> P t' claims) \<longleftrightarrow> (\<exists>claims. P t claims)" for P
      unfolding h by auto
    then show ?thesis
      using t assms h by (auto simp: AuthMiddleware_def Let_def split: sum.splits)
  next
    case False
    then have "\<forall>t. ?h \<noteq> ''Bearer '' @ t" by (simp only: Bearer_header) simp
    with False assms show ?thesis
      by (auto simp: AuthMiddleware_def Let_def split: option.splits)
  qed
qed

text \<open>
  C22. The token check admits exactly the requests with a valid token: outside the four open paths
  a request passes if and only if its Authorization header is \<open>Bearer\<close>, one space and a token that
  \<open>ParseToken\<close> accepts; the handler then sees the id and name of the claims, and a role that is
  never empty.
\<close>

theorem auth_gate:
  assumes "hr_path r \<notin> set auth_whitelist"
  shows "AuthMiddleware cr m now r c = (c', Next) \<longleftrightarrow>
    (\<exists>t claims. GetHeader r ''Authorization'' = ''Bearer '' @ t \<and> ParseToken cr m now t = Inr claims \<and>
      c' = c\<lparr>gc_user_id := Some (jc_user_id claims), gc_username := Some (jc_username claims),
             gc_role := Some (if jc_role claims = [] then ''user'' else jc_role claims)\<rparr>)"
  using assms by (rule auth_passes)

definition demo_request :: "string \<Rightarrow> http_request" where
  "demo_request token = \<lparr>hr_method = ''GET'', hr_path = ''/api/v1/order/list'', hr_raw_path = [],
     hr_headers = [''Authorization'' \<mapsto> ''Bearer '' @ token], hr_body = None, hr_content_length = 0,
     hr_client_ip = ''10.0.0.1''\<rparr>"

definition empty_context :: gin_context where
  "empty_context = \<lparr>gc_user_id = None, gc_username = None, gc_role = None, gc_trace_id = None, gc_headers = Map.empty\<rparr>"

theorem auth_gate_witness:
  "\<exists>t c'. GenerateToken demo_crypto demo_manager 2000 1 ''alice'' ''user'' = Inr t \<and>
    AuthMiddleware demo_crypto demo_manager 3000 (demo_request t) empty_context = (c', Next) \<and> gc_user_id c' = Some 1"
proof -
  obtain t where t: "GenerateToken demo_crypto demo_manager 2000 1 ''alice'' ''user'' = Inr t"
    using demo_token by blast
  have p: "ParseToken demo_crypto demo_manager 3000 t = Inr (token_claims demo_manager 2000 1 ''alice'' ''user'')"
    by (rule demo_auth.token_roundtrip [OF t]) (simp_all add: demo_manager_def NewJWTManager_def)
  have "hr_path (demo_request t) \<notin> set auth_whitelist" "GetHeader (demo_request t) ''Authorization'' = ''Bearer '' @ t"
    by (simp_all add: demo_request_def auth_whitelist_def GetHeader_def)
  with auth_gate [of "demo_request t" demo_crypto demo_manager 3000 empty_context] p
  have "AuthMiddleware demo_crypto demo_manager 3000 (demo_request t) empty_context =
      (empty_context\<lparr>gc_user_id := Some 1, gc_username := Some ''alice'', gc_role := Some ''user''\<rparr>, Next)"
    by (simp add: token_claims_def)
  with t show ?thesis by auto
qed

section \<open>The signature check\<close>

lemma sint_diff:
  assumes "- (2 ^ 63) \<le> x" "x < 2 ^ 63"
  shows "sint (word_of_int x :: 64 word) = x"
proof -
  have "(x + 2 ^ 63) mod 2 ^ 64 = x + 2 ^ 63"
    using assms by (intro mod_pos_pos_trivial) simp_all
  then show ?thesis
    by (simp add: int_word_sint)
qed

lemma sint_abs64: "sint (abs64 x) = (if sint x = - (2 ^ 63) then - (2 ^ 63) else \<bar>sint x\<bar>)"
proof -
  have r: "- (2 ^ 63) \<le> sint x" "sint x < 2 ^ 63"
    using sint_ge [of x] sint_lt [of x] by simp_all
  have m: "- x = word_of_int (- sint x)"
    by simp
  have "sint (- x) = - sint x" if "sint x \<noteq> - (2 ^ 63)"
    unfolding m by (rule sint_diff) (use r that in simp_all)
  moreover have "sint (- x) = sint x" if "sint x = - (2 ^ 63)"
  proof -
    have "x = word_of_int (- (2 ^ 63))"
      unfolding that [symmetric] by simp
    then show ?thesis by simp
  qed
  ultimately show ?thesis
    by (auto simp: abs64_def word_sless_alt)
qed

text \<open>
  The age test on 64 bits: it accepts a distance of at most 60 seconds and, because \<open>abs\<close> of the
  least integer is negative, the one timestamp \<open>2 ^ 63\<close> seconds in the past.
\<close>

lemma sign_window:
  assumes "0 \<le> now" "now < 2 ^ 62" "in_int64 ts"
  shows "sign_expired (word_of_int now) (word_of_int ts) \<longleftrightarrow> \<not> (\<bar>now - ts\<bar> \<le> 60 \<or> ts = now - 2 ^ 63)"
proof -
  let ?d = "now - ts" and ?x = "word_of_int now - word_of_int ts :: 64 word"
  have w: "?x = word_of_int ?d" by simp
  have rng: "- (2 ^ 63) < ?d" "?d \<le> 2 ^ 63 + now"
    using assms by (auto simp: in_int64_def)
  have small: "sint ?x = ?d" if "?d < 2 ^ 63"
    unfolding w by (rule sint_diff) (use rng that in simp_all)
  have big: "sint ?x = ?d - 2 ^ 64" if "2 ^ 63 \<le> ?d"
  proof -
    have e: "?x = word_of_int (?d - 2 ^ 64)"
      by (simp add: word_of_int_eq_iff take_bit_eq_mod mod_diff_eq)
    show ?thesis
      unfolding e by (rule sint_diff) (use that rng assms in simp_all)
  qed
  have "sign_expired (word_of_int now) (word_of_int ts) \<longleftrightarrow> 60 < sint (abs64 ?x)"
    by (simp add: sign_expired_def word_sless_alt)
  also have "\<dots> \<longleftrightarrow> \<not> (\<bar>?d\<bar> \<le> 60 \<or> ?d = 2 ^ 63)"
    using small big rng assms(1,2) by (cases "?d < 2 ^ 63") (auto simp: sint_abs64)
  finally show ?thesis
    by auto
qed

lemma sign_passes:
  assumes "0 \<le> now" "now < 2 ^ 62" "hr_path r \<notin> set sign_whitelist" "hr_raw_path r \<notin> set sign_whitelist"
    "\<not> has_prefix ''/uploads/'' (hr_path r)"
  shows "snd (SignMiddleware hmac configured (word_of_int now) r c) = Next \<longleftrightarrow>
    GetHeader r ''X-Timestamp'' \<noteq> [] \<and> GetHeader r ''X-Sign'' \<noteq> [] \<and>
    (\<exists>ts. Atoi (GetHeader r ''X-Timestamp'') = Some ts \<and> (\<bar>now - ts\<bar> \<le> 60 \<or> ts = now - 2 ^ 63)) \<and>
    GetHeader r ''X-Sign'' = hmac (GetHeader r ''X-Timestamp'' @ hr_method r @ hr_path r @ body_text r) (sign_secret configured)"
proof (cases "Atoi (GetHeader r ''X-Timestamp'')")
  case None
  with assms show ?thesis
    by (auto simp: SignMiddleware_def staticPrefixes_def Let_def)
next
  case (Some ts)
  then have "in_int64 ts"
    by (auto simp: Atoi_def split: option.splits if_splits)
  from sign_window [OF assms(1,2) this] Some assms(3-5) show ?thesis
    by (auto simp: SignMiddleware_def staticPrefixes_def Let_def)
qed

text \<open>
  C26. The signature check admits exactly signed and fresh requests: outside the open paths a request
  passes if and only if its timestamp is an integer at most 60 seconds away from the clock (or the
  one value that overflows \<open>abs\<close>) and its signature is the HMAC of timestamp, method, path and body
  under the secret.
\<close>

theorem sign_gate:
  assumes "0 \<le> now" "now < 2 ^ 62" "hr_path r \<notin> set sign_whitelist" "hr_raw_path r \<notin> set sign_whitelist"
    "\<not> has_prefix ''/uploads/'' (hr_path r)"
  shows "snd (SignMiddleware hmac configured (word_of_int now) r c) = Next \<longleftrightarrow>
    GetHeader r ''X-Timestamp'' \<noteq> [] \<and> GetHeader r ''X-Sign'' \<noteq> [] \<and>
    (\<exists>ts. Atoi (GetHeader r ''X-Timestamp'') = Some ts \<and> (\<bar>now - ts\<bar> \<le> 60 \<or> ts = now - 2 ^ 63)) \<and>
    GetHeader r ''X-Sign'' = hmac (GetHeader r ''X-Timestamp'' @ hr_method r @ hr_path r @ body_text r) (sign_secret configured)"
  using assms by (rule sign_passes)

definition demo_hmac :: "string \<Rightarrow> string \<Rightarrow> string" where
  "demo_hmac data k = ''mac'' @ k @ data"

definition signed_request :: "(string \<Rightarrow> string \<Rightarrow> string) \<Rightarrow> string \<Rightarrow> int \<Rightarrow> http_request" where
  "signed_request hmac secret ts = \<lparr>hr_method = ''POST'', hr_path = ''/api/v1/seckill'', hr_raw_path = [],
     hr_headers = [''X-Timestamp'' \<mapsto> fmt_d ts, ''X-Sign'' \<mapsto> GenerateSign hmac ts ''POST'' ''/api/v1/seckill'' ''{}'' secret],
     hr_body = Some ''{}'', hr_content_length = 2, hr_client_ip = ''10.0.0.1''\<rparr>"

text \<open>A request signed with \<open>GenerateSign\<close> 10 seconds ago passes.\<close>

theorem sign_gate_witness:
  "snd (SignMiddleware demo_hmac ''k'' (word_of_int 1000) (signed_request demo_hmac ''k'' 990) empty_context) = Next"
proof -
  let ?r = "signed_request demo_hmac ''k'' 990"
  have sel: "hr_path ?r = ''/api/v1/seckill''" "hr_raw_path ?r = []" "GetHeader ?r ''X-Timestamp'' = fmt_d 990"
    "GetHeader ?r ''X-Sign'' = demo_hmac (fmt_d 990 @ ''POST'' @ ''/api/v1/seckill'' @ ''{}'') ''k''" "hr_method ?r = ''POST''"
    "body_text ?r = ''{}''"
    by (simp_all add: signed_request_def GetHeader_def GenerateSign_def body_text_def)
  have "Atoi (fmt_d 990) = Some 990"
    by (rule Atoi_fmt_d) (simp add: in_int64_def)
  then show ?thesis
    using sign_gate [of 1000 ?r demo_hmac "''k''" empty_context]
    by (simp add: sel sign_whitelist_def has_prefix_def sign_secret_def) (simp add: demo_hmac_def)
qed

text \<open>The payload has no separators: a part of the body can move to the end of the path.\<close>

lemma sign_split_ambiguous:
  "path @ bd = path' @ bd' \<Longrightarrow> GenerateSign hmac ts method path bd secret = GenerateSign hmac ts method path' bd' secret"
  by (simp add: GenerateSign_def)

section \<open>The limit on logins\<close>

text \<open>
  Attempts of one address and waits between them; \<open>t\<close> is the time that passed, \<open>k\<close> the number of
  attempts and \<open>n\<close> the number of those that passed.
\<close>

inductive login_run ::
  "'r redis \<Rightarrow> ('r \<Rightarrow> keyspace) \<Rightarrow> int \<Rightarrow> int \<Rightarrow> string \<Rightarrow> 'r \<Rightarrow> int \<Rightarrow> int \<Rightarrow> int \<Rightarrow> 'r \<Rightarrow> bool"
  for call kv mx win ip s where
  begin_run: "login_run call kv mx win ip s 0 0 0 s"
| attempt: "login_run call kv mx win ip s t k n s1 \<Longrightarrow> hr_client_ip r = ip \<Longrightarrow>
    LoginRateLimitMiddleware call mx win unixNow r c s1 = (s2, c2, v) \<Longrightarrow>
    login_run call kv mx win ip s t (k + 1) (n + (if v = Next then 1 else 0)) s2"
| pause: "login_run call kv mx win ip s t k n s1 \<Longrightarrow> kv s2 = tick d (kv s1) \<Longrightarrow> 0 \<le> d \<Longrightarrow>
    login_run call kv mx win ip s (t + d) k n s2"

lemma rate_keys [simp]: "rate_key ip \<noteq> reset_key ip" "reset_key ip \<noteq> rate_key ip"
  by (auto simp: rate_key_def reset_key_def)

text \<open>One attempt on a counter at \<open>m\<close>: it counts and passes while the count is at most \<open>mx\<close>.\<close>

definition rate_state :: "keyspace \<Rightarrow> string \<Rightarrow> int \<Rightarrow> int \<Rightarrow> bool" where
  "rate_state ks ip m expiry \<longleftrightarrow> live ks (rate_key ip) = Some \<lparr>e_val = RStr (fmt_d m), e_exp = Some expiry\<rparr>"

lemma rate_state_clock: "rate_state ks ip m x \<Longrightarrow> ks_clock ks < x"
  by (auto simp: rate_state_def dest: live_exp)

context reliable_redis
begin

lemma answers_fst: "call s c = (s', r) \<Longrightarrow> kv s' = fst (redis_exec (kv s) c) \<and> r = snd (redis_exec (kv s) c)"
  by (drule answers) simp

lemma limit_reads:
  assumes "call s (GET k) = (s', g)" shows "kv s' = kv s"
  using answers_fst [OF assms] by simp

lemma ttl_reads:
  assumes "call s (TTL k) = (s', g)" shows "kv s' = kv s"
  using answers_fst [OF assms] by simp

lemma first_attempt:
  assumes "LoginRateLimitMiddleware call mx win unixNow r c s = (s', c', v)" "live (kv s) (rate_key (hr_client_ip r)) = None"
    "0 < mx" "0 < win"
  shows "rate_state (kv s') (hr_client_ip r) 1 (ks_clock (kv s) + 1000 * win) \<and> ks_clock (kv s') = ks_clock (kv s) \<and> v = Next"
proof -
  let ?k = "rate_key (hr_client_ip r)" and ?rk = "reset_key (hr_client_ip r)"
  obtain s1 a where a: "call s (INCRBY ?k 1) = (s1, a)" by fastforce
  have 1: "kv s1 = put (kv s) ?k (RStr (fmt_d 1)) None" "a = RInt 1"
    using answers_fst [OF a] assms(2) by (simp_all add: in_int64_def)
  obtain s2 b where b: "call s1 (EXPIRE ?k (1000 * win)) = (s2, b)" by fastforce
  have 2: "kv s2 = put (kv s1) ?k (RStr (fmt_d 1)) (Some (ks_clock (kv s) + 1000 * win))"
    using answers_fst [OF b] assms(4) by (simp add: 1 live_put ks_clock_put)
  obtain s3 d where d: "call s2 (SET ?rk (fmt_d (unixNow + win)) (set_ttl (1000 * win))) = (s3, d)" by fastforce
  have 3: "kv s3 = put (kv s2) ?rk (RStr (fmt_d (unixNow + win))) (Some (ks_clock (kv s2) + 1000 * win))"
    using answers_fst [OF d] assms(4) by (simp add: set_ttl_def put_ttl_def)
  obtain s4 g where g: "call s3 (GET ?rk) = (s4, g)" by fastforce
  have "s' = s4" "v = Next"
    using assms(1,3,4) a 1(2) b d g by (simp_all add: LoginRateLimitMiddleware_def Let_def)
  then show ?thesis
    using limit_reads [OF g] assms(4) by (simp add: 1(1) 2 3 rate_state_def live_put ks_clock_put)
qed

lemma later_attempt:
  assumes "LoginRateLimitMiddleware call mx win unixNow r c s = (s', c', v)" "rate_state (kv s) (hr_client_ip r) m x"
    "1 \<le> m" "m + 1 < 2 ^ 63" "0 < mx" "0 < win"
  shows "rate_state (kv s') (hr_client_ip r) (m + 1) x \<and> ks_clock (kv s') = ks_clock (kv s) \<and> (v = Next \<longleftrightarrow> m + 1 \<le> mx)"
proof -
  let ?k = "rate_key (hr_client_ip r)" and ?rk = "reset_key (hr_client_ip r)"
  have i: "in_int64 (m + 1)" "in_int64 m"
    using assms(3,4) by (simp_all add: in_int64_def)
  obtain s1 a where a: "call s (INCRBY ?k 1) = (s1, a)" by fastforce
  have 1: "kv s1 = put (kv s) ?k (RStr (fmt_d (m + 1))) (Some x)" "a = RInt (m + 1)"
    using answers_fst [OF a] assms(2) i by (simp_all add: rate_state_def)
  obtain s4 g where g: "call s1 (GET ?rk) = (s4, g)" by fastforce
  obtain s5 t where t: "call s4 (TTL ?k) = (s5, t)" by fastforce
  have "s' = (if m + 1 \<le> mx then s4 else s5)" "v = Next \<longleftrightarrow> m + 1 \<le> mx"
    using assms(1,3,5,6) a 1(2) g t by (auto simp: LoginRateLimitMiddleware_def Let_def split: if_splits)
  then show ?thesis
    using limit_reads [OF g] ttl_reads [OF t] rate_state_clock [OF assms(2)]
    by (auto simp: 1(1) rate_state_def live_put ks_clock_put)
qed

lemma login_run_counts:
  assumes "login_run call kv mx win ip s t k n s'" "live (kv s) (rate_key ip) = None" "0 < mx" "0 < win" "k < 2 ^ 62"
    "t < 1000 * win"
  shows "0 \<le> t \<and> 0 \<le> k \<and> ks_clock (kv s') = ks_clock (kv s) + t \<and> n = min k mx \<and>
    (if k = 0 then live (kv s') (rate_key ip) = None
     else \<exists>x. ks_clock (kv s) + 1000 * win \<le> x \<and> rate_state (kv s') ip k x)"
  using assms(1,5,6)
proof induction
  case begin_run
  with assms(2,3) show ?case by simp
next
  case (attempt t k n s1 r unixNow c s2 c2 v)
  then have IH: "0 \<le> t \<and> 0 \<le> k \<and> ks_clock (kv s1) = ks_clock (kv s) + t \<and> n = min k mx \<and>
    (if k = 0 then live (kv s1) (rate_key ip) = None
     else \<exists>x. ks_clock (kv s) + 1000 * win \<le> x \<and> rate_state (kv s1) ip k x)"
    by simp
  show ?case
  proof (cases "k = 0")
    case True
    with IH first_attempt [OF attempt(3) _ assms(3,4)] attempt(2) assms(3) show ?thesis
      by (auto intro!: exI [of _ "ks_clock (kv s1) + 1000 * win"])
  next
    case False
    then obtain x where x: "ks_clock (kv s) + 1000 * win \<le> x" "rate_state (kv s1) ip k x"
      using IH by auto
    with later_attempt [OF attempt(3), of k x] attempt(2,5) IH False assms(3,4) show ?thesis
      by (auto split: if_splits)
  qed
next
  case (pause t k n s1 s2 d)
  then have IH: "0 \<le> t \<and> 0 \<le> k \<and> ks_clock (kv s1) = ks_clock (kv s) + t \<and> n = min k mx \<and>
    (if k = 0 then live (kv s1) (rate_key ip) = None
     else \<exists>x. ks_clock (kv s) + 1000 * win \<le> x \<and> rate_state (kv s1) ip k x)"
    by simp
  have "live (kv s2) (rate_key ip) = live (kv s1) (rate_key ip)" if "k = 0 \<or> (\<exists>x. ks_clock (kv s) + 1000 * win \<le> x \<and> rate_state (kv s1) ip k x)"
    using that IH pause(2,3,6) by (auto simp: tick_live rate_state_def)
  with IH pause(2,3) show ?case
    by (auto simp: tick_def rate_state_def split: if_splits)
qed

end

text \<open>
  C25. The login limit holds: from an address without a counter, within one window (and before 2 ^ 62
  attempts), exactly the first \<open>mx\<close> attempts pass, whatever the times between them.
\<close>

theorem rate_limit_bound:
  assumes "reliable_redis call kv" "login_run call kv mx win ip s t k n s'" "live (kv s) (rate_key ip) = None"
    "0 < mx" "0 < win" "k < 2 ^ 62" "t < 1000 * win"
  shows "n = min k mx"
  using reliable_redis.login_run_counts [OF assms] by simp

theorem rate_limit_bound_witness:
  "\<exists>n s'. login_run plain_call id 1 60 ''10.0.0.1'' empty_keyspace 0 2 n s' \<and> n = 1"
proof -
  let ?r = "demo_request []"
  obtain s1 c1 v1 where 1: "LoginRateLimitMiddleware plain_call 1 60 0 ?r empty_context empty_keyspace = (s1, c1, v1)"
    by (cases "LoginRateLimitMiddleware plain_call 1 60 0 ?r empty_context empty_keyspace") auto
  obtain s2 c2 v2 where 2: "LoginRateLimitMiddleware plain_call 1 60 0 ?r empty_context s1 = (s2, c2, v2)"
    by (cases "LoginRateLimitMiddleware plain_call 1 60 0 ?r empty_context s1") auto
  have ip: "hr_client_ip ?r = ''10.0.0.1''"
    by (simp add: demo_request_def)
  have "\<exists>n. login_run plain_call id 1 60 ''10.0.0.1'' empty_keyspace 0 (0 + 1 + 1) n s2"
    using login_run.attempt [OF login_run.attempt [OF login_run.begin_run ip 1] ip 2] by blast
  then obtain n where "login_run plain_call id 1 60 ''10.0.0.1'' empty_keyspace 0 2 n s2"
    by auto
  with rate_limit_bound [OF plain_redis.reliable_redis_axioms this] show ?thesis
    by (auto simp: live_def empty_keyspace_def)
qed

text \<open>
  The window starts with EXPIRE, whose result is not looked at: a counter that got no lifetime (its
  EXPIRE was lost) and has reached the limit refuses every later attempt, however much time passes.
\<close>

lemma rate_limit_lockout:
  assumes "reliable_redis call kv" "live (kv s) (rate_key (hr_client_ip r)) = Some \<lparr>e_val = RStr (fmt_d m), e_exp = None\<rparr>"
    "mx \<le> m" "0 < mx" "0 < win" "m + 1 < 2 ^ 63"
    "LoginRateLimitMiddleware call mx win unixNow r c s = (s', c', v)"
  shows "v = Abort 429 \<and> live (kv s') (rate_key (hr_client_ip r)) = Some \<lparr>e_val = RStr (fmt_d (m + 1)), e_exp = None\<rparr>"
proof -
  let ?k = "rate_key (hr_client_ip r)" and ?rk = "reset_key (hr_client_ip r)"
  have i: "in_int64 (m + 1)" "in_int64 m"
    using assms(3,4,6) by (simp_all add: in_int64_def)
  obtain s1 a where a: "call s (INCRBY ?k 1) = (s1, a)" by fastforce
  have 1: "kv s1 = put (kv s) ?k (RStr (fmt_d (m + 1))) None" "a = RInt (m + 1)"
    using reliable_redis.answers_fst [OF assms(1) a] assms(2) i by simp_all
  obtain s4 g where g: "call s1 (GET ?rk) = (s4, g)" by fastforce
  obtain s5 t where t: "call s4 (TTL ?k) = (s5, t)" by fastforce
  have "s' = s5" "v = Abort 429"
    using assms(3-5,7) a 1(2) g t by (auto simp: LoginRateLimitMiddleware_def Let_def)
  then show ?thesis
    using reliable_redis.limit_reads [OF assms(1) g] reliable_redis.ttl_reads [OF assms(1) t] by (simp add: 1(1) live_put)
qed

section \<open>Revoked tokens\<close>

text \<open>
  A token added once stays refused until its time; a token added again with a longer time is
  released by the first goroutine.
\<close>

lemma revoked_until_expiry:
  "IsBlacklisted (fire_timers t (AddToBlacklist now token expiry b)) token \<longleftrightarrow> t < now + expiry"
  if "\<forall>x \<in> set (tb_timers b). fst x \<noteq> token"
  using that by (auto simp: IsBlacklisted_def fire_timers_def AddToBlacklist_def)

lemma readded_released_early:
  "now1 + d1 \<le> t \<Longrightarrow> \<not> IsBlacklisted (fire_timers t (AddToBlacklist now2 token d2 (AddToBlacklist now1 token d1 b))) token"
  by (auto simp: IsBlacklisted_def fire_timers_def AddToBlacklist_def)

end
