(* ===== verification/Detector.thy ===== *)
theory Detector
  imports Prelude
begin

text \<open>
  The anomaly detector of \<^verbatim>\<open>detector/anomaly.go\<close>: a profile of each user with a ring buffer
  of the last requests, running averages over all users, a score made of five signs, and a ban
  when the score reaches 70. Times are nanoseconds; the float64 operations are the parameter
  \<open>floats\<close>, so that every lemma holds for any rounding. The score itself is a sum of small
  whole numbers, which float64 holds exactly, and is an \<open>int\<close>. A call holds the mutex of the
  profile and is one step, at the place of its update of the running averages; what it reads of them
  afterwards, when other calls may have updated them again, is the argument \<open>later\<close>. The texts of
  the reasons are given in English.
\<close>

section \<open>Floats and times\<close>

record 'f floats =
  fl_rat :: "rat \<Rightarrow> 'f"   \<comment> \<open>literals and conversions\<close>
  fl_add :: "'f \<Rightarrow> 'f \<Rightarrow> 'f"
  fl_sub :: "'f \<Rightarrow> 'f \<Rightarrow> 'f"
  fl_mul :: "'f \<Rightarrow> 'f \<Rightarrow> 'f"
  fl_div :: "'f \<Rightarrow> 'f \<Rightarrow> 'f"
  fl_less :: "'f \<Rightarrow> 'f \<Rightarrow> bool"
  fl_max :: "'f \<Rightarrow> 'f \<Rightarrow> 'f"
  fl_abs :: "'f \<Rightarrow> 'f"
  fl_sqrt :: "'f \<Rightarrow> 'f"

definition zero_time :: int where
  "zero_time = - 62135596800000000000"

definition minutes :: "int \<Rightarrow> int" where
  "minutes n = n * 60000000000"

text \<open>\<^verbatim>\<open>Time.Sub\<close> saturates; \<^verbatim>\<open>Duration.Seconds\<close> adds whole seconds and the rest.\<close>

definition time_Sub :: "int \<Rightarrow> int \<Rightarrow> int" where
  "time_Sub t u = max (- (2 ^ 63)) (min (2 ^ 63 - 1) (t - u))"

definition duration_seconds :: "'f floats \<Rightarrow> int \<Rightarrow> 'f" where
  "duration_seconds fl d = fl_add fl (fl_rat fl (of_int (sgn d * (\<bar>d\<bar> div 1000000000))))
     (fl_div fl (fl_rat fl (of_int (sgn d * (\<bar>d\<bar> mod 1000000000)))) (fl_rat fl 1000000000))"

section \<open>Data\<close>

record 'f behavior_sample =
  bs_timestamp :: int
  bs_interval :: 'f
  bs_success :: bool
  bs_ip_changed :: bool
  bs_request_count :: int

text \<open>The write position and the window size of a profile are never negative.\<close>

record 'f user_profile =
  up_user_id :: int
  up_samples :: "'f behavior_sample list"
  up_window_size :: nat
  up_idx :: nat
  up_last_ip :: string
  up_last_time :: int
  up_blocked_until :: int
  up_block_reason :: string

record 'f anomaly_config =
  ac_window_size :: int
  ac_freq_threshold :: 'f
  ac_interval_threshold :: 'f
  ac_success_threshold :: 'f
  ac_block_duration :: int
  ac_min_samples :: int

definition DefaultConfig :: "'f floats \<Rightarrow> 'f anomaly_config" where
  "DefaultConfig fl = \<lparr>ac_window_size = 20, ac_freq_threshold = fl_rat fl 3, ac_interval_threshold = fl_rat fl (5/2),
     ac_success_threshold = fl_rat fl (3/10), ac_block_duration = minutes 5, ac_min_samples = 5\<rparr>"

record 'f anomaly_result =
  ar_score :: int
  ar_is_anomaly :: bool
  ar_reasons :: "string list"
  ar_freq_z_score :: 'f
  ar_interval_std :: 'f
  ar_success_rate :: 'f

record 'f global_stats =
  gs_freq_mean :: 'f
  gs_freq_std :: 'f
  gs_interval_mean :: 'f
  gs_interval_std :: 'f
  gs_count :: int

record 'f anomaly_detector =
  ad_profiles :: "int \<rightharpoonup> 'f user_profile"
  ad_config :: "'f anomaly_config"
  ad_global :: "'f global_stats"

definition NewAnomalyDetector :: "'f floats \<Rightarrow> 'f anomaly_config \<Rightarrow> 'f anomaly_detector" where
  "NewAnomalyDetector fl cfg =
     (let d = DefaultConfig fl;
          cfg1 = (if ac_window_size cfg \<le> 0 then cfg\<lparr>ac_window_size := ac_window_size d\<rparr> else cfg);
          cfg2 = (if ac_min_samples cfg1 \<le> 0 then cfg1\<lparr>ac_min_samples := ac_min_samples d\<rparr> else cfg1);
          cfg3 = (if ac_block_duration cfg2 \<le> 0 then cfg2\<lparr>ac_block_duration := ac_block_duration d\<rparr> else cfg2);
          z = fl_rat fl 0
      in \<lparr>ad_profiles = Map.empty, ad_config = cfg3,
          ad_global = \<lparr>gs_freq_mean = z, gs_freq_std = z, gs_interval_mean = z, gs_interval_std = z, gs_count = 0\<rparr>\<rparr>)"

section \<open>The ring buffer\<close>

definition zero_sample :: "'f floats \<Rightarrow> 'f behavior_sample" where
  "zero_sample fl = \<lparr>bs_timestamp = zero_time, bs_interval = fl_rat fl 0, bs_success = False,
     bs_ip_changed = False, bs_request_count = 0\<rparr>"

definition new_profile :: "'f floats \<Rightarrow> 'f anomaly_config \<Rightarrow> int \<Rightarrow> string \<Rightarrow> int \<Rightarrow> 'f user_profile" where
  "new_profile fl cfg userID clientIP requestTime =
     \<lparr>up_user_id = userID, up_samples = replicate (nat (ac_window_size cfg)) (zero_sample fl),
      up_window_size = nat (ac_window_size cfg), up_idx = 0, up_last_ip = clientIP, up_last_time = requestTime,
      up_blocked_until = zero_time, up_block_reason = []\<rparr>"

definition make_sample :: "'f floats \<Rightarrow> bool \<Rightarrow> string \<Rightarrow> int \<Rightarrow> 'f user_profile \<Rightarrow> 'f behavior_sample" where
  "make_sample fl success clientIP requestTime p =
     \<lparr>bs_timestamp = requestTime,
      bs_interval = (if up_last_time p \<noteq> zero_time then duration_seconds fl (time_Sub requestTime (up_last_time p))
                     else fl_rat fl 0),
      bs_success = success,
      bs_ip_changed = (up_last_ip p \<noteq> [] \<and> up_last_ip p \<noteq> clientIP),
      bs_request_count = 0\<rparr>"

definition push_sample :: "'f behavior_sample \<Rightarrow> string \<Rightarrow> int \<Rightarrow> 'f user_profile \<Rightarrow> 'f user_profile" where
  "push_sample s clientIP requestTime p =
     p\<lparr>up_samples := (up_samples p)[up_idx p mod up_window_size p := s], up_idx := up_idx p + 1,
       up_last_ip := clientIP, up_last_time := requestTime\<rparr>"

text \<open>The samples in the window, oldest first: position \<open>size - 1 - i\<close> is read \<open>i\<close> places back.\<close>

definition valid_samples :: "'f user_profile \<Rightarrow> 'f behavior_sample list" where
  "valid_samples p =
     (let size = min (up_idx p) (up_window_size p)
      in rev (map (\<lambda>i. up_samples p ! ((up_idx p - 1 - i + up_window_size p) mod up_window_size p)) [0..<size]))"

section \<open>Statistics\<close>

definition calcIntervalStats :: "'f floats \<Rightarrow> 'f behavior_sample list \<Rightarrow> 'f \<times> 'f" where
  "calcIntervalStats fl samples =
     (if length samples < 2 then (fl_rat fl 0, fl_rat fl 0)
      else let intervals = filter (\<lambda>v. fl_less fl (fl_rat fl 0) v \<and> fl_less fl v (fl_rat fl 300)) (map bs_interval (tl samples))
           in if intervals = [] then (fl_rat fl 0, fl_rat fl 0)
              else let n = fl_rat fl (of_nat (length intervals));
                       mean = fl_div fl (foldl (fl_add fl) (fl_rat fl 0) intervals) n;
                       variance = foldl (\<lambda>a v. fl_add fl a (fl_mul fl (fl_sub fl v mean) (fl_sub fl v mean))) (fl_rat fl 0) intervals
                   in (mean, fl_sqrt fl (fl_div fl variance n)))"

definition updateGlobalStats :: "'f floats \<Rightarrow> 'f \<Rightarrow> 'f \<Rightarrow> 'f global_stats \<Rightarrow> 'f global_stats" where
  "updateGlobalStats fl freq intervalMean g0 =
     (let g = g0\<lparr>gs_count := gs_count g0 + 1\<rparr>;
          alpha = fl_rat fl (1/100); beta = fl_sub fl (fl_rat fl 1) alpha;
          ema = (\<lambda>x old. fl_add fl (fl_mul fl alpha x) (fl_mul fl beta old))
      in if gs_count g = 1
         then g\<lparr>gs_freq_mean := freq, gs_freq_std := fl_rat fl 0, gs_interval_mean := intervalMean, gs_interval_std := fl_rat fl 0\<rparr>
         else let fm = ema freq (gs_freq_mean g);
                  fs = ema (fl_abs fl (fl_sub fl freq fm)) (gs_freq_std g);
                  im = ema intervalMean (gs_interval_mean g);
                  is' = ema (fl_abs fl (fl_sub fl intervalMean im)) (gs_interval_std g)
              in g\<lparr>gs_freq_mean := fm, gs_freq_std := fs, gs_interval_mean := im, gs_interval_std := is'\<rparr>)"

fun joinReasons :: "string list \<Rightarrow> string" where
  "joinReasons [] = []"
| "joinReasons (r # rs) = foldl (\<lambda>result x. result @ ''; '' @ x) r rs"

section \<open>The verdict\<close>

text \<open>The five signs, from the window, the running averages and the configuration.\<close>

definition success_rate :: "'f floats \<Rightarrow> 'f behavior_sample list \<Rightarrow> 'f" where
  "success_rate fl vs = fl_div fl (fl_rat fl (of_nat (length (filter bs_success vs)))) (fl_rat fl (of_nat (length vs)))"

definition freq_per_sec :: "'f floats \<Rightarrow> 'f behavior_sample list \<Rightarrow> 'f" where
  "freq_per_sec fl vs = fl_div fl (fl_rat fl (of_nat (length vs)))
     (fl_max fl (duration_seconds fl (time_Sub (bs_timestamp (last vs)) (bs_timestamp (hd vs)))) (fl_rat fl (1/10)))"

definition freq_high :: "'f floats \<Rightarrow> 'f anomaly_config \<Rightarrow> 'f global_stats \<Rightarrow> 'f \<Rightarrow> bool" where
  "freq_high fl cfg g freq \<longleftrightarrow> fl_less fl (fl_rat fl 0) (gs_freq_std g) \<and> 10 < gs_count g \<and>
     fl_less fl (ac_freq_threshold cfg) (fl_div fl (fl_sub fl freq (gs_freq_mean g)) (gs_freq_std g))"

definition interval_odd :: "'f floats \<Rightarrow> 'f anomaly_config \<Rightarrow> 'f global_stats \<Rightarrow> 'f \<Rightarrow> bool" where
  "interval_odd fl cfg g std \<longleftrightarrow> fl_less fl (fl_rat fl 0) (gs_interval_std g) \<and> 10 < gs_count g \<and>
     fl_less fl (ac_interval_threshold cfg) (fl_div fl (fl_abs fl (fl_sub fl std (gs_interval_mean g))) (gs_interval_std g))"

definition success_low :: "'f floats \<Rightarrow> 'f anomaly_config \<Rightarrow> 'f behavior_sample list \<Rightarrow> bool" where
  "success_low fl cfg vs \<longleftrightarrow> fl_less fl (success_rate fl vs) (ac_success_threshold cfg)"

definition ip_hopping :: "'f behavior_sample list \<Rightarrow> bool" where
  "ip_hopping vs \<longleftrightarrow> length vs div 2 < length (filter bs_ip_changed vs)"

definition extreme_freq :: "'f floats \<Rightarrow> 'f \<Rightarrow> bool" where
  "extreme_freq fl freq \<longleftrightarrow> fl_less fl (fl_rat fl 50) freq"

definition anomaly_score :: "bool \<Rightarrow> bool \<Rightarrow> bool \<Rightarrow> bool \<Rightarrow> bool \<Rightarrow> int" where
  "anomaly_score high strange low hop extreme =
     (if high then 25 else 0) + (if strange then 20 else 0) + (if low then 25 else 0) + (if hop then 15 else 0)
     + (if extreme then 40 else 0)"

definition anomaly_reasons :: "bool \<Rightarrow> bool \<Rightarrow> bool \<Rightarrow> bool \<Rightarrow> bool \<Rightarrow> bool \<Rightarrow> string list" where
  "anomaly_reasons high strange regular low hop extreme =
     (if high then [''request rate too high''] else []) @
     (if strange then [if regular then ''requests too regular'' else ''request intervals unstable''] else []) @
     (if low then [''success rate too low''] else []) @
     (if hop then [''address changes too often''] else []) @
     (if extreme then [''extreme request rate''] else [])"

text \<open>
  \<^verbatim>\<open>Record\<close>: \<open>now1\<close> is the clock when the ban is looked up, \<open>now2\<close> when a new ban is set.
\<close>

definition profile_of :: "'f floats \<Rightarrow> int \<Rightarrow> string \<Rightarrow> int \<Rightarrow> 'f anomaly_detector \<Rightarrow> 'f user_profile" where
  "profile_of fl userID clientIP requestTime ad =
     (case ad_profiles ad userID of
        None \<Rightarrow> new_profile fl (ad_config ad) userID clientIP requestTime | Some p \<Rightarrow> p)"

definition set_profile :: "int \<Rightarrow> 'f user_profile \<Rightarrow> 'f anomaly_detector \<Rightarrow> 'f anomaly_detector" where
  "set_profile u p ad = ad\<lparr>ad_profiles := (ad_profiles ad)(u \<mapsto> p)\<rparr>"

text \<open>
  The averages are updated under \<^verbatim>\<open>globalStatsMu\<close>, then read under a second acquisition of
  it, and their count is read twice without it. In between other users' requests may update them, so
  the values read are given as a function of the averages the call has left behind: the averages,
  the count in the first test and the count in the second. \<open>read_now\<close> is a call that nobody comes between.
\<close>

type_synonym 'f later_reads = "'f global_stats \<Rightarrow> 'f global_stats \<times> int \<times> int"

definition read_now :: "'f later_reads" where
  "read_now g = (g, gs_count g, gs_count g)"

definition seen_freq :: "'f later_reads \<Rightarrow> 'f global_stats \<Rightarrow> 'f global_stats" where
  "seen_freq later g = (case later g of (seen, c1, c2) \<Rightarrow> seen\<lparr>gs_count := c1\<rparr>)"

definition seen_interval :: "'f later_reads \<Rightarrow> 'f global_stats \<Rightarrow> 'f global_stats" where
  "seen_interval later g = (case later g of (seen, c1, c2) \<Rightarrow> seen\<lparr>gs_count := c2\<rparr>)"

definition judge :: "'f floats \<Rightarrow> 'f later_reads \<Rightarrow> int \<Rightarrow> int \<Rightarrow> 'f user_profile \<Rightarrow> 'f anomaly_detector \<Rightarrow>
    'f anomaly_detector \<times> 'f anomaly_result" where
  "judge fl later userID now2 p ad =
     (let cfg = ad_config ad; vs = valid_samples p;
          freq = freq_per_sec fl vs; (mean, std) = calcIntervalStats fl vs;
          g = updateGlobalStats fl freq mean (ad_global ad);
          g1 = seen_freq later g; g2 = seen_interval later g;
          high = freq_high fl cfg g1 freq; strange = interval_odd fl cfg g2 std; low = success_low fl cfg vs;
          hop = ip_hopping vs; extreme = extreme_freq fl freq;
          score = anomaly_score high strange low hop extreme;
          reasons = anomaly_reasons high strange (fl_less fl std (gs_interval_std g2)) low hop extreme;
          isAnomaly = (50 \<le> score);
          p' = (if isAnomaly \<and> 70 \<le> score
                then p\<lparr>up_blocked_until := now2 + ac_block_duration cfg,
                       up_block_reason := ''banned by anomaly detection: '' @ joinReasons reasons\<rparr> else p)
      in (set_profile userID p' (ad\<lparr>ad_global := g\<rparr>),
          \<lparr>ar_score = min score 100, ar_is_anomaly = isAnomaly, ar_reasons = reasons,
           ar_freq_z_score = fl_div fl (fl_sub fl freq (gs_freq_mean g1)) (fl_max fl (gs_freq_std g1) (fl_rat fl (1/1000))),
           ar_interval_std = std, ar_success_rate = success_rate fl vs\<rparr>))"

definition plain_result :: "'f floats \<Rightarrow> int \<Rightarrow> bool \<Rightarrow> string list \<Rightarrow> 'f anomaly_result" where
  "plain_result fl score anomaly reasons =
     \<lparr>ar_score = score, ar_is_anomaly = anomaly, ar_reasons = reasons, ar_freq_z_score = fl_rat fl 0,
      ar_interval_std = fl_rat fl 0, ar_success_rate = fl_rat fl 0\<rparr>"

definition Record :: "'f floats \<Rightarrow> 'f later_reads \<Rightarrow> int \<Rightarrow> bool \<Rightarrow> string \<Rightarrow> int \<Rightarrow> int \<Rightarrow> int \<Rightarrow> 'f anomaly_detector \<Rightarrow>
    'f anomaly_detector \<times> 'f anomaly_result" where
  "Record fl later userID success clientIP requestTime now1 now2 ad =
     (let p = profile_of fl userID clientIP requestTime ad in
      if now1 < up_blocked_until p
      then (set_profile userID p ad, plain_result fl 100 True [up_block_reason p])
      else let p1 = push_sample (make_sample fl success clientIP requestTime p) clientIP requestTime p in
           if int (up_idx p1) < ac_min_samples (ad_config ad)
           then (set_profile userID p1 ad, plain_result fl 0 False [])
           else judge fl later userID now2 p1 ad)"

definition IsBlocked :: "int \<Rightarrow> int \<Rightarrow> 'f anomaly_detector \<Rightarrow> bool \<times> string" where
  "IsBlocked userID now ad = (case ad_profiles ad userID of
      None \<Rightarrow> (False, [])
    | Some p \<Rightarrow> if now < up_blocked_until p then (True, up_block_reason p) else (False, []))"

definition GetProfile :: "int \<Rightarrow> 'f anomaly_detector \<Rightarrow> 'f user_profile option" where
  "GetProfile userID ad = ad_profiles ad userID"

definition ProfileCount :: "'f anomaly_detector \<Rightarrow> nat" where
  "ProfileCount ad = card (dom (ad_profiles ad))"

text \<open>One round of \<^verbatim>\<open>cleanupLoop\<close>.\<close>

definition cleanup_profiles :: "int \<Rightarrow> 'f anomaly_detector \<Rightarrow> 'f anomaly_detector" where
  "cleanup_profiles now ad = ad\<lparr>ad_profiles := (\<lambda>u. case ad_profiles ad u of
      None \<Rightarrow> None
    | Some p \<Rightarrow> if minutes 30 < time_Sub now (up_last_time p) then None else Some p)\<rparr>"

section \<open>The window\<close>

text \<open>The last \<open>n\<close> elements of a list.\<close>

definition last_n :: "nat \<Rightarrow> 'a list \<Rightarrow> 'a list" where
  "last_n n xs = drop (length xs - n) xs"

definition profile_ok :: "nat \<Rightarrow> 'f user_profile \<Rightarrow> bool" where
  "profile_ok n p \<longleftrightarrow> 0 < n \<and> up_window_size p = n \<and> length (up_samples p) = n"

definition detector_ok :: "'f anomaly_detector \<Rightarrow> bool" where
  "detector_ok ad \<longleftrightarrow> 0 < ac_window_size (ad_config ad) \<and>
     (\<forall>u p. ad_profiles ad u = Some p \<longrightarrow> profile_ok (nat (ac_window_size (ad_config ad))) p)"

lemma valid_samples_upt:
  assumes "0 < up_window_size p"
  shows "valid_samples p = map (\<lambda>k. up_samples p ! (k mod up_window_size p))
           [up_idx p - min (up_idx p) (up_window_size p) ..< up_idx p]"
    (is "_ = map ?f [?a ..< ?n]")
proof (rule nth_equalityI)
  let ?w = "up_window_size p"
  let ?m = "min ?n ?w"
  show "length (valid_samples p) = length (map ?f [?a ..< ?n])"
    by (simp add: valid_samples_def Let_def)
  fix i assume "i < length (valid_samples p)"
  then have i: "i < ?m"
    by (simp add: valid_samples_def Let_def)
  then have e: "?n - Suc (?m - Suc i) = ?a + i" "?m - Suc i < ?m" "i < ?n - ?a"
    by linarith+
  have "rev (map g [0..<?m]) ! i = g (?m - Suc i)" for g :: "nat \<Rightarrow> 'a behavior_sample"
    using i e(2) by (simp add: rev_nth)
  moreover have "map ?f [?a ..< ?n] ! i = ?f (?a + i)"
    using e(3) by (rule nth_map_upt)
  ultimately show "valid_samples p ! i = map ?f [?a ..< ?n] ! i"
    unfolding valid_samples_def Let_def using e(1) by simp
qed

lemma push_window:
  assumes "profile_ok n p"
  shows "valid_samples (push_sample s ip t p) = last_n n (valid_samples p @ [s])"
    and "profile_ok n (push_sample s ip t p)"
proof -
  have n: "0 < n" "up_window_size p = n" "length (up_samples p) = n"
    using assms by (auto simp: profile_ok_def)
  let ?i = "up_idx p"
  let ?a = "Suc ?i - min (Suc ?i) n"
  have old: "(up_samples p)[?i mod n := s] ! (k mod n) = up_samples p ! (k mod n)" if "k \<in> {?a ..< ?i}" for k
  proof -
    have "?i - k < n" "k < ?i" using that by auto
    then have "k mod n \<noteq> ?i mod n"
      by (metis gr_implies_not0 less_imp_le_nat mod_eq_dvd_iff_nat nat_dvd_not_less zero_less_diff)
    then show ?thesis by (simp add: nth_list_update_neq)
  qed
  have "[?a ..< Suc ?i] = [?a ..< ?i] @ [?i]"
    using n(1) by (subst upt_Suc_append) auto
  then have "valid_samples (push_sample s ip t p) = map (\<lambda>k. up_samples p ! (k mod n)) [?a ..< ?i] @ [s]"
    using n old by (simp add: valid_samples_upt push_sample_def)
  also have "\<dots> = last_n n (valid_samples p @ [s])"
    using n by (simp add: valid_samples_upt last_n_def drop_map drop_upt min_def)
  finally show "valid_samples (push_sample s ip t p) = last_n n (valid_samples p @ [s])" .
  show "profile_ok n (push_sample s ip t p)"
    using n by (simp add: profile_ok_def push_sample_def)
qed

lemma profile_of_ok:
  assumes "detector_ok ad"
  shows "profile_ok (nat (ac_window_size (ad_config ad))) (profile_of fl u ip t ad)"
  using assms by (auto simp: detector_ok_def profile_of_def new_profile_def profile_ok_def split: option.splits)

lemma NewAnomalyDetector_ok: "detector_ok (NewAnomalyDetector fl cfg)"
  by (simp add: detector_ok_def NewAnomalyDetector_def DefaultConfig_def Let_def)

lemma detector_ok_set:
  "detector_ok ad \<Longrightarrow> profile_ok (nat (ac_window_size (ad_config ad))) p \<Longrightarrow> detector_ok (set_profile u p ad)"
  by (simp add: detector_ok_def set_profile_def)

lemma detector_ok_global [simp]: "detector_ok (ad\<lparr>ad_global := g\<rparr>) = detector_ok ad"
  by (simp add: detector_ok_def)

lemma cleanup_ok: "detector_ok ad \<Longrightarrow> detector_ok (cleanup_profiles now ad)"
  by (auto simp: detector_ok_def cleanup_profiles_def split: option.splits if_splits)

lemma set_profile_sel [simp]:
  "ad_profiles (set_profile u p ad) = (ad_profiles ad)(u \<mapsto> p)" "ad_config (set_profile u p ad) = ad_config ad"
  by (simp_all add: set_profile_def)

lemma profile_update_window [simp]:
  "valid_samples (p\<lparr>up_blocked_until := a, up_block_reason := b\<rparr>) = valid_samples p"
  "profile_ok n (p\<lparr>up_blocked_until := a, up_block_reason := b\<rparr>) = profile_ok n p"
  by (simp_all add: valid_samples_def profile_ok_def Let_def)

lemma judgeE:
  assumes "judge fl later u now2 p ad = (ad', r)"
  obtains (Ban) reason g where "ad' = set_profile u (p\<lparr>up_blocked_until := now2 + ac_block_duration (ad_config ad),
      up_block_reason := reason\<rparr>) (ad\<lparr>ad_global := g\<rparr>)" "70 \<le> ar_score r" "ar_is_anomaly r"
  | (Pass) g where "ad' = set_profile u p (ad\<lparr>ad_global := g\<rparr>)" "ar_score r < 70"
  using assms by (auto simp: judge_def Let_def split: prod.splits if_splits)

text \<open>What a recorded request does to the detector.\<close>

lemma RecordE:
  assumes "Record fl later u ok ip t now1 now2 ad = (ad', r)"
  obtains (Banned) "now1 < up_blocked_until (profile_of fl u ip t ad)" "ad' = set_profile u (profile_of fl u ip t ad) ad"
      "ar_score r = 100" "ar_is_anomaly r"
  | (Seen) p g where "\<not> now1 < up_blocked_until (profile_of fl u ip t ad)"
      "p = push_sample (make_sample fl ok ip t (profile_of fl u ip t ad)) ip t (profile_of fl u ip t ad)"
      "ad' = set_profile u p (ad\<lparr>ad_global := g\<rparr>)" "ar_score r < 70"
  | (New_Ban) p g reason where "\<not> now1 < up_blocked_until (profile_of fl u ip t ad)"
      "p = push_sample (make_sample fl ok ip t (profile_of fl u ip t ad)) ip t (profile_of fl u ip t ad)"
      "ad' = set_profile u (p\<lparr>up_blocked_until := now2 + ac_block_duration (ad_config ad), up_block_reason := reason\<rparr>)
        (ad\<lparr>ad_global := g\<rparr>)" "70 \<le> ar_score r" "ar_is_anomaly r"
proof (cases "now1 < up_blocked_until (profile_of fl u ip t ad)")
  case True
  with assms show thesis
    by (intro Banned) (auto simp: Record_def plain_result_def Let_def)
next
  case False
  let ?p = "push_sample (make_sample fl ok ip t (profile_of fl u ip t ad)) ip t (profile_of fl u ip t ad)"
  show thesis
  proof (cases "int (up_idx ?p) < ac_min_samples (ad_config ad)")
    case True
    with assms False have "ad' = set_profile u ?p ad" "ar_score r = 0"
      by (auto simp: Record_def plain_result_def Let_def)
    then show thesis
      using Seen [OF False refl, of "ad_global ad"] by simp
  next
    case enough: False
    with assms False have "judge fl later u now2 ?p ad = (ad', r)"
      by (simp add: Record_def Let_def)
    then show thesis
      by (cases rule: judgeE) (use Seen [OF False refl] New_Ban [OF False refl] in blast)+
  qed
qed

text \<open>
  C37. The window of a user is what it is meant to be: a request that is not refused by a ban
  turns the window into the last \<open>WindowSize\<close> elements of the old window with the new sample, a
  refused request leaves it as it is, and the windows of the other users do not change.
\<close>

theorem window_refines_last_requests:
  assumes "detector_ok ad" "Record fl later u ok ip t now1 now2 ad = (ad', r)"
  shows "detector_ok ad' \<and> (\<exists>p'. ad_profiles ad' u = Some p' \<and> valid_samples p' =
      (let p = profile_of fl u ip t ad in
       if now1 < up_blocked_until p then valid_samples p
       else last_n (nat (ac_window_size (ad_config ad))) (valid_samples p @ [make_sample fl ok ip t p]))) \<and>
    (\<forall>v. v = u \<or> ad_profiles ad' v = ad_profiles ad v)"
  using assms(2)
proof (cases rule: RecordE)
  case Banned
  then show ?thesis
    using detector_ok_set [OF assms(1) profile_of_ok [OF assms(1)]] by (simp add: Let_def)
next
  case (Seen p g)
  then show ?thesis
    using push_window [OF profile_of_ok [OF assms(1)]] assms(1) by (simp add: detector_ok_set Let_def)
next
  case (New_Ban p g reason)
  then show ?thesis
    using push_window [OF profile_of_ok [OF assms(1)]] assms(1) by (simp add: detector_ok_set Let_def)
qed

section \<open>Bans\<close>

lemma anomaly_score_ban:
  "70 \<le> anomaly_score high strange low hop extreme \<longleftrightarrow>
     (high \<and> strange \<and> low) \<or> (extreme \<and> 2 \<le> length (filter id [high, strange, low, hop]))"
  "anomaly_score high strange low hop extreme \<ge> 0"
  by (auto simp: anomaly_score_def)

lemma judge_score:
  assumes "judge fl later u now2 p ad = (ad', r)"
  defines "vs \<equiv> valid_samples p" and "cfg \<equiv> ad_config ad" and "g \<equiv> ad_global ad'"
  shows "ar_score r = min 100 (anomaly_score (freq_high fl cfg (seen_freq later g) (freq_per_sec fl vs))
      (interval_odd fl cfg (seen_interval later g) (snd (calcIntervalStats fl vs))) (success_low fl cfg vs) (ip_hopping vs)
      (extreme_freq fl (freq_per_sec fl vs)))"
proof -
  obtain m sd where ms: "calcIntervalStats fl vs = (m, sd)" by fastforce
  then have g: "g = updateGlobalStats fl (freq_per_sec fl vs) m (ad_global ad)"
    using assms(1) by (auto simp: judge_def Let_def vs_def g_def set_profile_def)
  show ?thesis
    using assms(1) ms unfolding g by (auto simp: judge_def Let_def vs_def cfg_def min.commute)
qed

text \<open>
  C35. When a ban is set: for a user who is not banned and has enough samples, the request bans
  the user exactly if rate, intervals and success rate are all abnormal, or if the rate is extreme
  and at least two of the other four signs show; no single sign bans, and without an extreme rate
  a user with a normal success rate is never banned. Banned means a score of 70 or more in the
  result and a ban from the same moment on. The rate and the intervals are compared with the
  averages as the request read them, whatever other requests did to them after its own update.
\<close>

theorem ban_rule:
  assumes "Record fl later u ok ip t now1 now2 ad = (ad', r)" "\<not> now1 < up_blocked_until (profile_of fl u ip t ad)"
    "now1 \<le> now2" "0 < ac_block_duration (ad_config ad)"
    "p = push_sample (make_sample fl ok ip t (profile_of fl u ip t ad)) ip t (profile_of fl u ip t ad)"
    "ac_min_samples (ad_config ad) \<le> int (up_idx p)"
  defines "vs \<equiv> valid_samples p" and "cfg \<equiv> ad_config ad"
  defines "high \<equiv> freq_high fl cfg (seen_freq later (ad_global ad')) (freq_per_sec fl vs)"
    and "strange \<equiv> interval_odd fl cfg (seen_interval later (ad_global ad')) (snd (calcIntervalStats fl vs))"
    and "low \<equiv> success_low fl cfg vs" and "hop \<equiv> ip_hopping vs" and "extreme \<equiv> extreme_freq fl (freq_per_sec fl vs)"
  shows "(70 \<le> ar_score r \<longleftrightarrow> (high \<and> strange \<and> low) \<or> (extreme \<and> 2 \<le> length (filter id [high, strange, low, hop]))) \<and>
    (fst (IsBlocked u now2 ad') \<longleftrightarrow> 70 \<le> ar_score r)"
proof
  have judged: "judge fl later u now2 p ad = (ad', r)"
    using assms(1,2,6) unfolding assms(5) by (simp add: Record_def Let_def)
  have sc: "ar_score r = min 100 (anomaly_score high strange low hop extreme)"
    unfolding high_def strange_def low_def hop_def extreme_def vs_def cfg_def by (rule judge_score [OF judged])
  then show "70 \<le> ar_score r \<longleftrightarrow> (high \<and> strange \<and> low) \<or> (extreme \<and> 2 \<le> length (filter id [high, strange, low, hop]))"
    using anomaly_score_ban(1) [of high strange low hop extreme] by auto
  have same: "up_blocked_until p = up_blocked_until (profile_of fl u ip t ad)"
    unfolding assms(5) by (simp add: push_sample_def)
  show "fst (IsBlocked u now2 ad') \<longleftrightarrow> 70 \<le> ar_score r"
    using judged
  proof (cases rule: judgeE)
    case (Ban reason g)
    then show ?thesis using assms(4) by (simp add: IsBlocked_def)
  next
    case (Pass g)
    then show ?thesis using assms(2,3) same by (simp add: IsBlocked_def)
  qed
qed

text \<open>What can happen to a detector, with the clock readings of each event.\<close>

datatype 'f detector_event =
    Recorded int bool string int int int "'f later_reads"
  | Cleaned int

definition detector_step :: "'f floats \<Rightarrow> 'f detector_event \<Rightarrow> 'f anomaly_detector \<Rightarrow> 'f anomaly_detector" where
  "detector_step fl e ad = (case e of
      Recorded u ok ip t now1 now2 later \<Rightarrow> fst (Record fl later u ok ip t now1 now2 ad)
    | Cleaned now \<Rightarrow> cleanup_profiles now ad)"

fun event_clock :: "'f detector_event \<Rightarrow> int" where
  "event_clock (Recorded u ok ip t now1 now2 later) = now1"
| "event_clock (Cleaned now) = now"

lemma step_keeps_ban:
  assumes "ad_profiles ad u = Some p" "event_clock e < up_blocked_until p"
    "up_blocked_until p \<le> up_last_time p + minutes 30"
  shows "ad_profiles (detector_step fl e ad) u = Some p"
proof (cases e)
  case (Recorded v ok ip t now1 now2 later)
  obtain ad' r where R: "Record fl later v ok ip t now1 now2 ad = (ad', r)" by fastforce
  have clock: "now1 < up_blocked_until p" using assms(2) Recorded by simp
  have "ad_profiles ad' u = Some p"
    using R
  proof (cases rule: RecordE)
    case Banned
    then show ?thesis using assms(1) by (cases "u = v") (simp_all add: profile_of_def)
  qed (use assms(1) clock in \<open>cases "u = v"; simp add: profile_of_def\<close>)+
  then show ?thesis using R Recorded by (simp add: detector_step_def)
next
  case (Cleaned now)
  then have "\<not> minutes 30 < time_Sub now (up_last_time p)"
    using assms(2,3) by (simp add: time_Sub_def minutes_def)
  then show ?thesis using assms(1) Cleaned by (simp add: detector_step_def cleanup_profiles_def)
qed

lemma run_keeps_ban:
  assumes "ad_profiles ad u = Some p" "\<forall>e \<in> set es. event_clock e < up_blocked_until p"
    "up_blocked_until p \<le> up_last_time p + minutes 30"
  shows "ad_profiles (fold (detector_step fl) es ad) u = Some p"
  using assms(1,2) by (induction es arbitrary: ad) (auto intro: step_keeps_ban [OF _ _ assms(3)])

text \<open>
  C36. A ban holds for its time: after the request that sets it, and whatever requests of any
  user and cleanup rounds happen before its end, the user is blocked exactly until
  \<open>BlockDuration\<close> has passed, and every request of the user is answered with score 100. This needs
  \<open>BlockDuration\<close> to end within 30 minutes of the request: the cleanup drops older profiles.
\<close>

theorem ban_lasts:
  assumes "Record fl later u ok ip t now1 now2 ad = (ad', r)" "\<not> now1 < up_blocked_until (profile_of fl u ip t ad)"
    "70 \<le> ar_score r" "now2 + ac_block_duration (ad_config ad) \<le> t + minutes 30"
    "\<forall>e \<in> set es. event_clock e < now2 + ac_block_duration (ad_config ad)"
  shows "(fst (IsBlocked u now (fold (detector_step fl) es ad')) \<longleftrightarrow> now < now2 + ac_block_duration (ad_config ad)) \<and>
    (now < now2 + ac_block_duration (ad_config ad) \<longrightarrow>
      ar_score (snd (Record fl later' u ok' ip' t' now now' (fold (detector_step fl) es ad'))) = 100)"
  using assms(1)
proof (cases rule: RecordE)
  case (New_Ban p g reason)
  let ?p = "p\<lparr>up_blocked_until := now2 + ac_block_duration (ad_config ad), up_block_reason := reason\<rparr>"
  have "ad_profiles ad' u = Some ?p" "up_last_time ?p = t"
    using New_Ban by (simp_all add: push_sample_def)
  then have "ad_profiles (fold (detector_step fl) es ad') u = Some ?p"
    by (intro run_keeps_ban) (use assms(4,5) in auto)
  then show ?thesis
    by (simp add: IsBlocked_def Record_def profile_of_def plain_result_def Let_def)
qed (use assms(2,3) in simp_all)

text \<open>A longer ban is lifted by the first cleanup more than 30 minutes after the request.\<close>

lemma long_ban_dropped:
  assumes "ad_profiles ad u = Some p" "up_last_time p + minutes 30 < now" "now < up_blocked_until p"
  shows "fst (IsBlocked u now ad) \<and> \<not> fst (IsBlocked u now (cleanup_profiles now ad))"
proof -
  have "minutes 30 < time_Sub now (up_last_time p)"
    using assms(2) by (simp add: time_Sub_def minutes_def)
  then show ?thesis using assms by (simp add: IsBlocked_def cleanup_profiles_def)
qed

section \<open>A small detector\<close>

text \<open>Exact reals as floats, and a detector after five failed requests from changing addresses.\<close>

definition real_floats :: "real floats" where
  "real_floats = \<lparr>fl_rat = of_rat, fl_add = (+), fl_sub = (-), fl_mul = (*), fl_div = (/), fl_less = (<), fl_max = max,
     fl_abs = abs, fl_sqrt = sqrt\<rparr>"

definition demo_anomaly_config :: "real anomaly_config" where
  "demo_anomaly_config = (DefaultConfig real_floats)\<lparr>ac_window_size := 6, ac_min_samples := 6\<rparr>"

definition demo_sample :: "bool \<Rightarrow> real behavior_sample" where
  "demo_sample changed = \<lparr>bs_timestamp = 1000, bs_interval = 0, bs_success = False, bs_ip_changed = changed, bs_request_count = 0\<rparr>"

definition demo_profile :: "real user_profile" where
  "demo_profile = \<lparr>up_user_id = 7, up_samples = [demo_sample False, demo_sample True, demo_sample True, demo_sample True, demo_sample True, zero_sample real_floats],
     up_window_size = 6, up_idx = 5, up_last_ip = ''a'', up_last_time = 1000, up_blocked_until = zero_time, up_block_reason = []\<rparr>"

definition demo_detector :: "real anomaly_detector" where
  "demo_detector = (NewAnomalyDetector real_floats demo_anomaly_config)\<lparr>ad_profiles := [7 \<mapsto> demo_profile]\<rparr>"

lemmas detector_run = Record_def profile_of_def new_profile_def make_sample_def push_sample_def set_profile_def
  plain_result_def real_floats_def zero_time_def duration_seconds_def time_Sub_def Let_def

lemma NewAnomalyDetector_demo [simp]:
  "ad_profiles (NewAnomalyDetector real_floats demo_anomaly_config) = Map.empty"
  "ad_config (NewAnomalyDetector real_floats demo_anomaly_config) = demo_anomaly_config"
  by (simp_all add: NewAnomalyDetector_def demo_anomaly_config_def DefaultConfig_def Let_def minutes_def)

lemma demo_config_sel [simp]:
  "ac_window_size demo_anomaly_config = 6" "ac_min_samples demo_anomaly_config = 6"
  "ac_block_duration demo_anomaly_config = 300000000000"
  "ac_success_threshold demo_anomaly_config = 3/10"
  by (simp_all add: demo_anomaly_config_def DefaultConfig_def minutes_def real_floats_def of_rat_divide)

lemma demo_detector_sel [simp]:
  "ad_profiles demo_detector = [7 \<mapsto> demo_profile]" "ad_config demo_detector = demo_anomaly_config"
  by (simp_all add: demo_detector_def)

theorem window_refines_last_requests_witness:
  "\<exists>p. ad_profiles (fst (Record real_floats read_now 7 False ''b'' 1000 1000 1000 (NewAnomalyDetector real_floats demo_anomaly_config))) 7 = Some p \<and>
     map bs_timestamp (valid_samples p) = [1000]"
proof -
  let ?ad = "NewAnomalyDetector real_floats demo_anomaly_config"
  have "detector_ok ?ad"
    by (rule NewAnomalyDetector_ok)
  from window_refines_last_requests [OF this prod.collapse [symmetric], of real_floats read_now 7 False "''b''" 1000 1000 1000]
  obtain p where p: "ad_profiles (fst (Record real_floats read_now 7 False ''b'' 1000 1000 1000 ?ad)) 7 = Some p"
    "valid_samples p = last_n 6 [make_sample real_floats False ''b'' 1000 (profile_of real_floats 7 ''b'' 1000 ?ad)]"
    by (auto simp: Let_def profile_of_def new_profile_def zero_time_def valid_samples_def)
  then show ?thesis
    by (auto simp: last_n_def make_sample_def)
qed

text \<open>The sixth such request: an extreme rate, no success and changing addresses.\<close>

definition demo_pushed :: "real user_profile" where
  "demo_pushed = push_sample (demo_sample True) ''b'' 1000 demo_profile"

lemma demo_pushed_step:
  "profile_of real_floats 7 ''b'' 1000 demo_detector = demo_profile"
  "make_sample real_floats False ''b'' 1000 demo_profile = demo_sample True"
  by (simp_all add: profile_of_def make_sample_def demo_profile_def demo_sample_def real_floats_def zero_time_def
      duration_seconds_def time_Sub_def)

lemma upt_six: "[0 ..< 6] = [0, 1, 2, 3, 4, 5 :: nat]"
  by code_simp

lemma demo_pushed_window: "valid_samples demo_pushed = [demo_sample False, demo_sample True, demo_sample True, demo_sample True, demo_sample True, demo_sample True]"
proof -
  have "valid_samples demo_pushed = map (\<lambda>k. up_samples demo_pushed ! (k mod 6)) [0, 1, 2, 3, 4, 5]"
    by (subst valid_samples_upt) (simp_all add: demo_pushed_def demo_profile_def push_sample_def upt_six)
  also have "\<dots> = [demo_sample False, demo_sample True, demo_sample True, demo_sample True, demo_sample True, demo_sample True]"
    by (simp add: demo_pushed_def demo_profile_def push_sample_def)
  finally show ?thesis .
qed

lemma demo_pushed_signs:
  "freq_per_sec real_floats (valid_samples demo_pushed) = 60" "success_low real_floats demo_anomaly_config (valid_samples demo_pushed)"
  "ip_hopping (valid_samples demo_pushed)"
  by (simp_all add: demo_pushed_window freq_per_sec_def success_low_def success_rate_def ip_hopping_def demo_sample_def
      duration_seconds_def time_Sub_def real_floats_def of_rat_divide)

lemma demo_pushed_facts:
  "\<not> 1000 < up_blocked_until (profile_of real_floats 7 ''b'' 1000 demo_detector)" "up_idx demo_pushed = 6"
  "demo_pushed = push_sample (make_sample real_floats False ''b'' 1000 (profile_of real_floats 7 ''b'' 1000 demo_detector))
     ''b'' 1000 (profile_of real_floats 7 ''b'' 1000 demo_detector)"
  unfolding demo_pushed_step
  by (simp_all add: demo_profile_def demo_pushed_def push_sample_def zero_time_def)

lemma demo_ban: "70 \<le> ar_score (snd (Record real_floats read_now 7 False ''b'' 1000 1000 1000 demo_detector))"
proof -
  obtain ad' r where j: "judge real_floats read_now 7 1000 demo_pushed demo_detector = (ad', r)" by fastforce
  have ar: "Record real_floats read_now 7 False ''b'' 1000 1000 1000 demo_detector = (ad', r)"
    using j demo_pushed_facts(1,2) unfolding demo_pushed_facts(3) [symmetric] by (simp add: Record_def Let_def flip: demo_pushed_facts(3))
  have "extreme_freq real_floats 60"
    by (simp add: extreme_freq_def real_floats_def)
  then have "70 \<le> ar_score r"
    using judge_score [OF j] demo_pushed_signs by (simp add: anomaly_score_def)
  then show ?thesis using ar by simp
qed

theorem ban_rule_witness:
  "fst (IsBlocked 7 1000 (fst (Record real_floats read_now 7 False ''b'' 1000 1000 1000 demo_detector)))"
  using ban_rule [OF prod.collapse [symmetric] demo_pushed_facts(1) _ _ demo_pushed_facts(3)] demo_ban demo_pushed_facts(2)
  by simp

theorem ban_lasts_witness:
  "fst (IsBlocked 7 300000000000 (fold (detector_step real_floats) [Cleaned 200000000000, Recorded 7 True ''a'' 5 1500 1500 read_now]
     (fst (Record real_floats read_now 7 False ''b'' 1000 1000 1000 demo_detector)))) \<and>
   \<not> fst (IsBlocked 7 300000001000 (fold (detector_step real_floats) [Cleaned 200000000000, Recorded 7 True ''a'' 5 1500 1500 read_now]
     (fst (Record real_floats read_now 7 False ''b'' 1000 1000 1000 demo_detector))))"
  using ban_lasts [OF prod.collapse [symmetric] demo_pushed_facts(1) demo_ban,
      of "[Cleaned 200000000000, Recorded 7 True ''a'' 5 1500 1500 read_now]"]
  by (simp add: minutes_def)

end
