(* ===== verification/Ws_Hub.thy ===== *)
theory Ws_Hub
  imports Prelude
begin

text \<open>
  The WebSocket hub of \<^verbatim>\<open>websocket/hub.go\<close>: the clients by user, the three channels of the event
  loop, the pump goroutines of each connection and the push operations, as a step relation. A
  step is one section under the lock of the hub, one channel operation or one atomic access. A
  client is a pointer (a \<open>nat\<close>); \<open>json.Marshal\<close> is the parameter \<open>marshal\<close>, and what the network
  does (upgrades that fail, connections that break) is a choice of the step.
\<close>

section \<open>State\<close>

datatype MessageType = MsgSeckillResult | MsgOrderStatus | MsgSystemAlert | MsgSeckillStart | MsgSeckillEnd | MsgHeartbeat

record 'a push_message =
  pm_type :: MessageType
  pm_data :: 'a
  pm_timestamp :: int

text \<open>
  \<open>wc_reader\<close> holds until \<^verbatim>\<open>readPump\<close> has returned, \<open>wc_writer\<close> until \<^verbatim>\<open>writePump\<close> has;
  \<open>wc_open\<close> and \<open>wc_buf\<close> are the channel \<^verbatim>\<open>Send\<close>.
\<close>

record ws_client =
  wc_id :: int
  wc_user :: int
  wc_conn :: bool
  wc_open :: bool
  wc_buf :: "string list"
  wc_reader :: bool
  wc_writer :: bool

definition sendBufSize :: nat where "sendBufSize = 256"
definition maxConnections :: int where "maxConnections = 5000"

text \<open>
  Panics: closing a closed channel happens in the event loop and ends the process; sending on a
  closed channel happens in the goroutine of a request, where the recovery middleware catches it.
\<close>

datatype hub_panic = CloseOfClosed | SendOnClosed

text \<open>
  \<open>hb_objs\<close> is the heap of clients. The last four fields are the goroutines at work: upgrades past
  the limit check, handlers that wait to register their client, calls of \<^verbatim>\<open>unregisterClient\<close>
  that have been started, and pushes that have looked up their client.
\<close>

record 'a hub =
  hb_clients :: "int \<rightharpoonup> nat"
  hb_conn_count :: int
  hb_register :: "nat list"
  hb_unregister :: "nat list"
  hb_broadcast :: "'a push_message list"
  hb_objs :: "nat \<rightharpoonup> ws_client"
  hb_panic :: "hub_panic option"
  hb_upgrading :: "int list"
  hb_waiting :: "nat list"
  hb_drops :: "nat list"
  hb_pushes :: "(nat \<times> string) list"

definition NewHub :: "'a hub" where
  "NewHub = \<lparr>hb_clients = Map.empty, hb_conn_count = 0, hb_register = [], hb_unregister = [], hb_broadcast = [],
     hb_objs = Map.empty, hb_panic = None, hb_upgrading = [], hb_waiting = [], hb_drops = [], hb_pushes = []\<rparr>"

section \<open>Operations\<close>

definition upd_client :: "nat \<Rightarrow> (ws_client \<Rightarrow> ws_client) \<Rightarrow> 'a hub \<Rightarrow> 'a hub" where
  "upd_client c f h = h\<lparr>hb_objs := (hb_objs h)(c := map_option f (hb_objs h c))\<rparr>"

definition user_of :: "nat \<Rightarrow> 'a hub \<Rightarrow> int" where
  "user_of c h = (case hb_objs h c of None \<Rightarrow> 0 | Some cl \<Rightarrow> wc_user cl)"

definition close_send :: "nat \<Rightarrow> 'a hub \<Rightarrow> 'a hub" where
  "close_send c h = (case hb_objs h c of
      None \<Rightarrow> h
    | Some cl \<Rightarrow> if wc_open cl then upd_client c (wc_open_update (\<lambda>_. False)) h else h\<lparr>hb_panic := Some CloseOfClosed\<rparr>)"

definition close_conn :: "nat \<Rightarrow> 'a hub \<Rightarrow> 'a hub" where
  "close_conn c h = upd_client c (wc_conn_update (\<lambda>_. False)) h"

text \<open>A non-blocking send; the result says whether the message fitted.\<close>

definition try_send :: "nat \<Rightarrow> string \<Rightarrow> 'a hub \<Rightarrow> 'a hub \<times> bool" where
  "try_send c payload h = (case hb_objs h c of
      None \<Rightarrow> (h, True)
    | Some cl \<Rightarrow>
        if \<not> wc_open cl then (h\<lparr>hb_panic := Some SendOnClosed\<rparr>, True)
        else if length (wc_buf cl) < sendBufSize then (upd_client c (wc_buf_update (\<lambda>b. b @ [payload])) h, True)
        else (h, False))"

text \<open>The three cases of the event loop \<^verbatim>\<open>Run\<close>.\<close>

definition run_register :: "nat \<Rightarrow> 'a hub \<Rightarrow> 'a hub" where
  "run_register client h =
     (let h1 = (case hb_clients h (user_of client h) of
          None \<Rightarrow> h | Some old \<Rightarrow> close_conn old (close_send old h))
      in h1\<lparr>hb_clients := (hb_clients h1)(user_of client h \<mapsto> client)\<rparr>)"

definition run_unregister :: "nat \<Rightarrow> 'a hub \<Rightarrow> 'a hub" where
  "run_unregister client h =
     (if hb_clients h (user_of client h) = Some client
      then close_send client (h\<lparr>hb_clients := (hb_clients h)(user_of client h := None)\<rparr>) else h)"

fun broadcast_loop :: "string \<Rightarrow> nat list \<Rightarrow> 'a hub \<Rightarrow> 'a hub" where
  "broadcast_loop data [] h = h"
| "broadcast_loop data (client # rest) h =
     (case try_send client data h of (h1, sent) \<Rightarrow>
        broadcast_loop data rest (if sent then h1 else h1\<lparr>hb_drops := hb_drops h1 @ [client]\<rparr>))"

text \<open>\<open>order\<close> is the order in which Go iterates over the map.\<close>

definition run_broadcast :: "('a push_message \<Rightarrow> string option) \<Rightarrow> 'a push_message \<Rightarrow> nat list \<Rightarrow> 'a hub \<Rightarrow> 'a hub" where
  "run_broadcast marshal msg order h = (case marshal msg of None \<Rightarrow> h | Some data \<Rightarrow> broadcast_loop data order h)"

text \<open>\<^verbatim>\<open>HandleWebSocket\<close>: the check of the limit, and what follows a successful upgrade.\<close>

definition may_connect :: "'a hub \<Rightarrow> bool" where
  "may_connect h \<longleftrightarrow> \<not> maxConnections \<le> hb_conn_count h"

definition new_client :: "int \<Rightarrow> 'a hub \<Rightarrow> ws_client" where
  "new_client userID h = \<lparr>wc_id = hb_conn_count h + 1, wc_user = userID, wc_conn = True, wc_open = True, wc_buf = [],
     wc_reader = True, wc_writer = True\<rparr>"

definition upgraded :: "nat \<Rightarrow> int \<Rightarrow> 'a hub \<Rightarrow> 'a hub" where
  "upgraded c userID h = h\<lparr>hb_objs := (hb_objs h)(c \<mapsto> new_client userID h), hb_conn_count := hb_conn_count h + 1,
     hb_waiting := hb_waiting h @ [c]\<rparr>"

text \<open>The deferred calls of \<^verbatim>\<open>readPump\<close>, and \<^verbatim>\<open>unregisterClient\<close>.\<close>

definition readPump_exit :: "nat \<Rightarrow> 'a hub \<Rightarrow> 'a hub" where
  "readPump_exit c h = (close_conn c (upd_client c (wc_reader_update (\<lambda>_. False)) (h\<lparr>hb_unregister := hb_unregister h @ [c]\<rparr>)))
     \<lparr>hb_conn_count := hb_conn_count h - 1\<rparr>"

definition unregisterClient :: "nat \<Rightarrow> 'a hub \<Rightarrow> 'a hub" where
  "unregisterClient client h =
     (if hb_clients h (user_of client h) = Some client
      then (close_conn client (close_send client (h\<lparr>hb_clients := (hb_clients h)(user_of client h := None)\<rparr>)))
             \<lparr>hb_conn_count := hb_conn_count h - 1\<rparr>
      else h)"

text \<open>
  \<^verbatim>\<open>writePump\<close>: a message goes out, or the pump returns because the write failed or because the
  channel is closed and empty.
\<close>

definition writePump_message :: "nat \<Rightarrow> 'a hub \<Rightarrow> 'a hub" where
  "writePump_message c h = upd_client c (wc_buf_update tl) h"

definition writePump_exit :: "nat \<Rightarrow> 'a hub \<Rightarrow> 'a hub" where
  "writePump_exit c h = close_conn c (upd_client c (wc_writer_update (\<lambda>_. False)) h)"

definition PushToUser_lookup :: "('a push_message \<Rightarrow> string option) \<Rightarrow> int \<Rightarrow> 'a push_message \<Rightarrow> 'a hub \<Rightarrow> 'a hub" where
  "PushToUser_lookup marshal userID msg h = (case hb_clients h userID of
      None \<Rightarrow> h
    | Some client \<Rightarrow> (case marshal msg of None \<Rightarrow> h | Some payload \<Rightarrow> h\<lparr>hb_pushes := hb_pushes h @ [(client, payload)]\<rparr>))"

definition PushToUser_send :: "nat \<times> string \<Rightarrow> 'a hub \<Rightarrow> 'a hub" where
  "PushToUser_send p h = fst (try_send (fst p) (snd p) h)"

fun push_loop :: "string \<Rightarrow> nat list \<Rightarrow> 'a hub \<Rightarrow> 'a hub" where
  "push_loop payload [] h = h"
| "push_loop payload (client # rest) h = push_loop payload rest (fst (try_send client payload h))"

definition PushToRole :: "('a push_message \<Rightarrow> string option) \<Rightarrow> (int \<Rightarrow> bool) \<Rightarrow> 'a push_message \<Rightarrow> nat list \<Rightarrow> 'a hub \<Rightarrow> 'a hub" where
  "PushToRole marshal roleChecker msg order h = (case marshal msg of None \<Rightarrow> h
    | Some payload \<Rightarrow> push_loop payload (filter (\<lambda>c. roleChecker (user_of c h)) order) h)"

definition hub_Stats :: "'a hub \<Rightarrow> nat \<times> int \<times> int" where
  "hub_Stats h = (card (dom (hb_clients h)), hb_conn_count h, maxConnections)"

section \<open>Steps\<close>

inductive hub_step :: "('a push_message \<Rightarrow> string option) \<Rightarrow> 'a hub \<Rightarrow> 'a hub \<Rightarrow> bool" for marshal where
  Check: "hb_panic h \<noteq> Some CloseOfClosed \<Longrightarrow> may_connect h \<Longrightarrow> hub_step marshal h (h\<lparr>hb_upgrading := hb_upgrading h @ [u]\<rparr>)"
| Upgrade_Fails: "hb_panic h \<noteq> Some CloseOfClosed \<Longrightarrow> hb_upgrading h = us @ u # us' \<Longrightarrow> hub_step marshal h (h\<lparr>hb_upgrading := us @ us'\<rparr>)"
| Upgrade: "hb_panic h \<noteq> Some CloseOfClosed \<Longrightarrow> hb_upgrading h = us @ u # us' \<Longrightarrow> hb_objs h c = None \<Longrightarrow>
    hub_step marshal h (upgraded c u (h\<lparr>hb_upgrading := us @ us'\<rparr>))"
| Register: "hb_panic h \<noteq> Some CloseOfClosed \<Longrightarrow> hb_waiting h = cs @ c # cs' \<Longrightarrow> length (hb_register h) < 256 \<Longrightarrow>
    hub_step marshal h (h\<lparr>hb_waiting := cs @ cs', hb_register := hb_register h @ [c]\<rparr>)"
| Run_Register: "hb_panic h \<noteq> Some CloseOfClosed \<Longrightarrow> hb_register h = c # cs \<Longrightarrow> hub_step marshal h (run_register c (h\<lparr>hb_register := cs\<rparr>))"
| Run_Unregister: "hb_panic h \<noteq> Some CloseOfClosed \<Longrightarrow> hb_unregister h = c # cs \<Longrightarrow> hub_step marshal h (run_unregister c (h\<lparr>hb_unregister := cs\<rparr>))"
| Run_Broadcast: "hb_panic h \<noteq> Some CloseOfClosed \<Longrightarrow> hb_broadcast h = m # ms \<Longrightarrow> distinct order \<Longrightarrow> set order = ran (hb_clients h) \<Longrightarrow>
    hub_step marshal h (run_broadcast marshal m order (h\<lparr>hb_broadcast := ms\<rparr>))"
| Reader_Exits: "hb_panic h \<noteq> Some CloseOfClosed \<Longrightarrow> hb_objs h c = Some cl \<Longrightarrow> wc_reader cl \<Longrightarrow> c \<notin> set (hb_waiting h) \<Longrightarrow>
    length (hb_unregister h) < 256 \<Longrightarrow> hub_step marshal h (readPump_exit c h)"
| Drop: "hb_panic h \<noteq> Some CloseOfClosed \<Longrightarrow> hb_drops h = cs @ c # cs' \<Longrightarrow> hub_step marshal h (unregisterClient c (h\<lparr>hb_drops := cs @ cs'\<rparr>))"
| Write: "hb_panic h \<noteq> Some CloseOfClosed \<Longrightarrow> hb_objs h c = Some cl \<Longrightarrow> wc_writer cl \<Longrightarrow> c \<notin> set (hb_waiting h) \<Longrightarrow> wc_buf cl \<noteq> [] \<Longrightarrow>
    hub_step marshal h (writePump_message c h)"
| Writer_Exits: "hb_panic h \<noteq> Some CloseOfClosed \<Longrightarrow> hb_objs h c = Some cl \<Longrightarrow> wc_writer cl \<Longrightarrow> c \<notin> set (hb_waiting h) \<Longrightarrow>
    hub_step marshal h (writePump_exit c h)"
| Push_Lookup: "hb_panic h \<noteq> Some CloseOfClosed \<Longrightarrow> hub_step marshal h (PushToUser_lookup marshal u m h)"
| Push_Send: "hb_panic h \<noteq> Some CloseOfClosed \<Longrightarrow> hb_pushes h = ps @ q # ps' \<Longrightarrow> hub_step marshal h (PushToUser_send q (h\<lparr>hb_pushes := ps @ ps'\<rparr>))"
| Broadcast: "hb_panic h \<noteq> Some CloseOfClosed \<Longrightarrow> length (hb_broadcast h) < 1024 \<Longrightarrow> hub_step marshal h (h\<lparr>hb_broadcast := hb_broadcast h @ [m]\<rparr>)"
| Push_Role: "hb_panic h \<noteq> Some CloseOfClosed \<Longrightarrow> distinct order \<Longrightarrow> set order = ran (hb_clients h) \<Longrightarrow>
    hub_step marshal h (PushToRole marshal chk m order h)"

inductive hub_reachable :: "('a push_message \<Rightarrow> string option) \<Rightarrow> 'a hub \<Rightarrow> bool" for marshal where
  start: "hub_reachable marshal NewHub"
| step: "hub_reachable marshal h \<Longrightarrow> hub_step marshal h h' \<Longrightarrow> hub_reachable marshal h'"

section \<open>The invariant\<close>

definition live_readers :: "'a hub \<Rightarrow> nat set" where
  "live_readers h = {c. \<exists>cl. hb_objs h c = Some cl \<and> wc_reader cl}"

definition hub_ok :: "'a hub \<Rightarrow> bool" where
  "hub_ok h \<longleftrightarrow> hb_panic h \<noteq> Some CloseOfClosed \<and>
     (\<forall>u c. hb_clients h u = Some c \<longrightarrow> (\<exists>cl. hb_objs h c = Some cl \<and> wc_user cl = u \<and> wc_open cl)) \<and>
     (\<forall>c \<in> set (hb_register h @ hb_waiting h). (\<exists>cl. hb_objs h c = Some cl \<and> wc_open cl) \<and> (\<forall>u. hb_clients h u \<noteq> Some c)) \<and>
     distinct (hb_register h @ hb_waiting h) \<and>
     (\<forall>c cl. hb_objs h c = Some cl \<longrightarrow> length (wc_buf cl) \<le> sendBufSize) \<and>
     finite (dom (hb_objs h)) \<and> hb_conn_count h \<le> int (card (live_readers h))"

lemma upd_client_sel [simp]:
  "hb_clients (upd_client c f h) = hb_clients h" "hb_conn_count (upd_client c f h) = hb_conn_count h"
  "hb_register (upd_client c f h) = hb_register h" "hb_unregister (upd_client c f h) = hb_unregister h"
  "hb_broadcast (upd_client c f h) = hb_broadcast h" "hb_panic (upd_client c f h) = hb_panic h"
  "hb_upgrading (upd_client c f h) = hb_upgrading h" "hb_waiting (upd_client c f h) = hb_waiting h"
  "hb_drops (upd_client c f h) = hb_drops h" "hb_pushes (upd_client c f h) = hb_pushes h"
  "hb_objs (upd_client c f h) = (hb_objs h)(c := map_option f (hb_objs h c))"
  by (simp_all add: upd_client_def)

text \<open>Changes of a client that keep the user and do not reopen or fill its channel.\<close>

definition tame :: "(ws_client \<Rightarrow> ws_client) \<Rightarrow> bool" where
  "tame f \<longleftrightarrow> (\<forall>cl. wc_user (f cl) = wc_user cl \<and> wc_open (f cl) = wc_open cl \<and> wc_reader (f cl) = wc_reader cl)"

lemma live_upd:
  assumes "\<And>cl. wc_reader (f cl) = wc_reader cl"
  shows "live_readers (upd_client c f h) = live_readers h"
  using assms by (auto simp: live_readers_def split: if_splits)

lemma hub_ok_upd:
  assumes "hub_ok h" "tame f" "\<And>cl. hb_objs h c = Some cl \<Longrightarrow> length (wc_buf (f cl)) \<le> sendBufSize"
  shows "hub_ok (upd_client c f h)"
proof -
  have "live_readers (upd_client c f h) = live_readers h"
    using assms(2) by (intro live_upd) (simp add: tame_def)
  moreover have "\<exists>cl. hb_objs (upd_client c f h) d = Some cl \<and> P (wc_user cl) (wc_open cl)"
    if "\<exists>cl. hb_objs h d = Some cl \<and> P (wc_user cl) (wc_open cl)" for d P
    using that assms(2) by (auto simp: tame_def)
  note this [of _ "\<lambda>u ok. u = _ \<and> ok"] this [of _ "\<lambda>u ok. ok"]
  ultimately show ?thesis
    using assms(1,3) by (simp add: hub_ok_def del: upd_client_sel(11)) (auto simp: upd_client_def split: if_splits)
qed

lemma hub_ok_queues [simp]:
  "hub_ok (h\<lparr>hb_upgrading := a\<rparr>) = hub_ok h" "hub_ok (h\<lparr>hb_unregister := b\<rparr>) = hub_ok h"
  "hub_ok (h\<lparr>hb_broadcast := d\<rparr>) = hub_ok h" "hub_ok (h\<lparr>hb_drops := b\<rparr>) = hub_ok h"
  "hub_ok (h\<lparr>hb_pushes := e\<rparr>) = hub_ok h"
  by (simp_all add: hub_ok_def live_readers_def)

lemma try_send_ok:
  assumes "hub_ok h"
  shows "hub_ok (fst (try_send c payload h))"
proof (cases "hb_objs h c")
  case (Some cl)
  have "hub_ok (upd_client c (wc_buf_update (\<lambda>b. b @ [payload])) h)" if "length (wc_buf cl) < sendBufSize"
    using assms by (rule hub_ok_upd) (use that Some in \<open>auto simp: tame_def\<close>)
  moreover have "hub_ok (h\<lparr>hb_panic := Some SendOnClosed\<rparr>)"
    using assms by (simp add: hub_ok_def live_readers_def)
  ultimately show ?thesis
    using assms Some by (simp add: try_send_def)
qed (use assms in \<open>simp add: try_send_def\<close>)

lemma broadcast_ok: "hub_ok h \<Longrightarrow> hub_ok (broadcast_loop data cs h)"
proof (induction data cs h rule: broadcast_loop.induct)
  case (2 data c rest h)
  then show ?case
    using try_send_ok [OF 2(2), of c data] by (auto split: prod.splits)
qed simp

lemma push_loop_ok: "hub_ok h \<Longrightarrow> hub_ok (push_loop payload cs h)"
  by (induction payload cs h rule: push_loop.induct) (simp_all add: try_send_ok)

lemma close_conn_ok: "hub_ok h \<Longrightarrow> hub_ok (close_conn c h)"
  unfolding close_conn_def by (rule hub_ok_upd) (auto simp: tame_def hub_ok_def)

lemma hub_okD:
  assumes "hub_ok h"
  shows "hb_clients h u = Some c \<Longrightarrow> \<exists>cl. hb_objs h c = Some cl \<and> wc_user cl = u \<and> wc_open cl"
    and "c \<in> set (hb_register h @ hb_waiting h) \<Longrightarrow> \<exists>cl. hb_objs h c = Some cl \<and> wc_open cl"
    and "c \<in> set (hb_register h @ hb_waiting h) \<Longrightarrow> hb_clients h u \<noteq> Some c"
    and "hb_objs h c = Some cl \<Longrightarrow> length (wc_buf cl) \<le> sendBufSize"
  using assms unfolding hub_ok_def by blast+

lemma hub_okI:
  assumes "hb_panic h \<noteq> Some CloseOfClosed"
    "\<And>u c. hb_clients h u = Some c \<Longrightarrow> \<exists>cl. hb_objs h c = Some cl \<and> wc_user cl = u \<and> wc_open cl"
    "\<And>c. c \<in> set (hb_register h @ hb_waiting h) \<Longrightarrow> \<exists>cl. hb_objs h c = Some cl \<and> wc_open cl"
    "\<And>c u. c \<in> set (hb_register h @ hb_waiting h) \<Longrightarrow> hb_clients h u \<noteq> Some c"
    "distinct (hb_register h @ hb_waiting h)"
    "\<And>c cl. hb_objs h c = Some cl \<Longrightarrow> length (wc_buf cl) \<le> sendBufSize"
    "finite (dom (hb_objs h))" "hb_conn_count h \<le> int (card (live_readers h))"
  shows "hub_ok h"
  using assms unfolding hub_ok_def by blast

text \<open>Taking a registered client out of the map and closing its channel.\<close>

lemma remove_client_ok:
  assumes "hub_ok h" "hb_clients h u = Some c"
  shows "hub_ok (close_send c (h\<lparr>hb_clients := (hb_clients h)(u := None)\<rparr>))"
    "close_send c (h\<lparr>hb_clients := (hb_clients h)(u := None)\<rparr>) =
      upd_client c (wc_open_update (\<lambda>_. False)) (h\<lparr>hb_clients := (hb_clients h)(u := None)\<rparr>)"
proof -
  obtain cl where cl: "hb_objs h c = Some cl" "wc_user cl = u" "wc_open cl"
    using assms by (auto simp: hub_ok_def)
  then show eq: "close_send c (h\<lparr>hb_clients := (hb_clients h)(u := None)\<rparr>) =
      upd_client c (wc_open_update (\<lambda>_. False)) (h\<lparr>hb_clients := (hb_clients h)(u := None)\<rparr>)"
    by (simp add: close_send_def)
  let ?h = "upd_client c (wc_open_update (\<lambda>_. False)) (h\<lparr>hb_clients := (hb_clients h)(u := None)\<rparr>)"
  have live: "live_readers ?h = live_readers h"
    by (auto simp: live_readers_def split: if_splits)
  have other: "d \<noteq> c" if "hb_clients h v = Some d" "v \<noteq> u" for v d
    using hub_okD(1) [OF assms(1) that(1)] that(2) cl by auto
  have queued: "d \<noteq> c" if "d \<in> set (hb_register h @ hb_waiting h)" for d
    using hub_okD(3) [OF assms(1) that] assms(2) by metis
  show "hub_ok (close_send c (h\<lparr>hb_clients := (hb_clients h)(u := None)\<rparr>))"
    unfolding eq
  proof (rule hub_okI)
    fix v d assume "hb_clients ?h v = Some d"
    then show "\<exists>cl. hb_objs ?h d = Some cl \<and> wc_user cl = v \<and> wc_open cl"
      using hub_okD(1) [OF assms(1), of v d] other [of v d] by (auto split: if_splits)
  next
    fix d assume "d \<in> set (hb_register ?h @ hb_waiting ?h)"
    then have d: "d \<in> set (hb_register h @ hb_waiting h)" by simp
    from queued [OF d] hub_okD(2) [OF assms(1) d]
    show "\<exists>cl. hb_objs ?h d = Some cl \<and> wc_open cl" by simp
    show "hb_clients ?h v \<noteq> Some d" for v
      using hub_okD(3) [OF assms(1) d] by simp
  qed (use assms(1) cl live in \<open>auto simp: hub_ok_def split: if_splits\<close>)
qed

lemma run_unregister_ok: "hub_ok h \<Longrightarrow> hub_ok (run_unregister c h)"
  by (simp add: run_unregister_def remove_client_ok(1))

lemma count_less_ok:
  "hub_ok h \<Longrightarrow> n \<le> hb_conn_count h \<Longrightarrow> hub_ok (h\<lparr>hb_conn_count := n\<rparr>)"
  by (auto simp: hub_ok_def live_readers_def)

lemma unregisterClient_ok:
  assumes "hub_ok h"
  shows "hub_ok (unregisterClient c h)"
proof (cases "hb_clients h (user_of c h) = Some c")
  case True
  let ?h = "close_send c (h\<lparr>hb_clients := (hb_clients h)(user_of c h := None)\<rparr>)"
  have "hub_ok (close_conn c ?h)"
    by (intro close_conn_ok remove_client_ok(1) assms True)
  moreover have "hb_conn_count (close_conn c ?h) = hb_conn_count h"
    unfolding remove_client_ok(2) [OF assms True] by (simp add: close_conn_def)
  ultimately show ?thesis
    using True by (simp add: unregisterClient_def count_less_ok)
qed (use assms in \<open>simp add: unregisterClient_def\<close>)

lemma run_register_ok:
  assumes "hub_ok h" "hb_register h = c # cs"
  shows "hub_ok (run_register c (h\<lparr>hb_register := cs\<rparr>))"
proof -
  let ?h0 = "h\<lparr>hb_register := cs\<rparr>" and ?u = "user_of c h"
  obtain cl where cl: "hb_objs h c = Some cl" "wc_open cl"
    using hub_okD(2) [OF assms(1), of c] assms(2) by auto
  then have u: "user_of c ?h0 = ?u" "?u = wc_user cl" by (simp_all add: user_of_def)
  have h0: "hub_ok ?h0"
    using assms by (simp add: hub_ok_def live_readers_def)
  have c: "c \<notin> set (hb_register ?h0 @ hb_waiting ?h0)"
    using assms by (auto simp: hub_ok_def)
  obtain h1 where h1: "hub_ok h1" "c \<notin> set (hb_register h1 @ hb_waiting h1)" "hb_objs h1 c = Some cl"
      "hb_clients h1 = (hb_clients h)(?u := None)"
      "run_register c ?h0 = h1\<lparr>hb_clients := (hb_clients h1)(?u \<mapsto> c)\<rparr>"
  proof (cases "hb_clients h ?u")
    case None
    then have "hb_clients ?h0 = (hb_clients h)(?u := None)" by (simp add: fun_upd_idem)
    then show thesis
      using that [of ?h0] h0 c cl None u by (simp add: run_register_def Let_def)
  next
    case (Some old)
    then have old: "old \<noteq> c"
      using hub_okD(3) [OF assms(1), of c] assms(2) by auto
    obtain ol where ol: "hb_objs ?h0 old = Some ol" "wc_open ol"
      using hub_okD(1) [OF h0, of ?u old] Some by auto
    let ?h1 = "close_conn old (close_send old (?h0\<lparr>hb_clients := (hb_clients ?h0)(?u := None)\<rparr>))"
    have "hub_ok ?h1"
      by (intro close_conn_ok remove_client_ok(1) h0) (simp add: Some)
    moreover have "run_register c ?h0 = ?h1\<lparr>hb_clients := (hb_clients ?h1)(?u \<mapsto> c)\<rparr>"
      using ol Some u by (simp add: run_register_def close_send_def close_conn_def upd_client_def Let_def)
    ultimately show thesis
      using that [of ?h1] c cl old ol by (simp add: close_send_def close_conn_def)
  qed
  show ?thesis
    unfolding h1(5)
  proof (rule hub_okI)
    fix v d assume "hb_clients (h1\<lparr>hb_clients := (hb_clients h1)(?u \<mapsto> c)\<rparr>) v = Some d"
    then show "\<exists>cl. hb_objs (h1\<lparr>hb_clients := (hb_clients h1)(?u \<mapsto> c)\<rparr>) d = Some cl \<and> wc_user cl = v \<and> wc_open cl"
      using hub_okD(1) [OF h1(1), of v d] h1(3) cl u by (auto split: if_splits)
  next
    fix d assume "d \<in> set (hb_register (h1\<lparr>hb_clients := (hb_clients h1)(?u \<mapsto> c)\<rparr>) @ hb_waiting (h1\<lparr>hb_clients := (hb_clients h1)(?u \<mapsto> c)\<rparr>))"
    then have d: "d \<in> set (hb_register h1 @ hb_waiting h1)" by simp
    show "\<exists>cl. hb_objs (h1\<lparr>hb_clients := (hb_clients h1)(?u \<mapsto> c)\<rparr>) d = Some cl \<and> wc_open cl"
      using hub_okD(2) [OF h1(1) d] by simp
    have "d \<noteq> c" using d h1(2) by metis
    then show "hb_clients (h1\<lparr>hb_clients := (hb_clients h1)(?u \<mapsto> c)\<rparr>) v \<noteq> Some d" for v
      using hub_okD(3) [OF h1(1) d, of v] by simp
  qed (use h1(1) in \<open>auto simp: hub_ok_def live_readers_def\<close>)
qed

lemma upgraded_ok:
  assumes "hub_ok h" "hb_objs h c = None"
  shows "hub_ok (upgraded c u h)"
proof (rule hub_okI)
  let ?h = "upgraded c u h"
  have fresh: "hb_clients h v \<noteq> Some c" "c \<notin> set (hb_register h @ hb_waiting h)" for v
    using hub_okD(1,2) [OF assms(1)] assms(2) by fastforce+
  fix v d assume "hb_clients ?h v = Some d"
  then show "\<exists>cl. hb_objs ?h d = Some cl \<and> wc_user cl = v \<and> wc_open cl"
    using hub_okD(1) [OF assms(1), of v d] fresh(1) by (auto simp: upgraded_def)
next
  let ?h = "upgraded c u h"
  have fresh: "hb_clients h v \<noteq> Some c" for v
    using hub_okD(1) [OF assms(1)] assms(2) by fastforce
  fix d assume "d \<in> set (hb_register ?h @ hb_waiting ?h)"
  then have d: "d \<in> set (hb_register h @ hb_waiting h) \<or> d = c" by (auto simp: upgraded_def)
  then show "\<exists>cl. hb_objs ?h d = Some cl \<and> wc_open cl"
    using hub_okD(2) [OF assms(1), of d] by (auto simp: upgraded_def new_client_def)
  show "hb_clients ?h v \<noteq> Some d" for v
    using hub_okD(3) [OF assms(1), of d v] d fresh by (auto simp: upgraded_def)
next
  let ?h = "upgraded c u h"
  have "live_readers ?h = insert c (live_readers h)" "c \<notin> live_readers h" "finite (live_readers h)"
    using assms finite_subset [of "live_readers h" "dom (hb_objs h)"]
    by (auto simp: live_readers_def upgraded_def new_client_def hub_ok_def split: if_splits)
  then show "hb_conn_count ?h \<le> int (card (live_readers ?h))"
    using assms(1) by (simp add: hub_ok_def upgraded_def)
qed (use assms hub_okD(2) [OF assms(1), of c] in \<open>auto simp: hub_ok_def upgraded_def new_client_def split: if_splits\<close>)

lemma readPump_exit_ok:
  assumes "hub_ok h" "hb_objs h c = Some cl" "wc_reader cl"
  shows "hub_ok (readPump_exit c h)"
proof -
  let ?h = "upd_client c (wc_reader_update (\<lambda>_. False)) (h\<lparr>hb_unregister := hb_unregister h @ [c]\<rparr>)"
  have "live_readers ?h = live_readers h - {c}" "c \<in> live_readers h" "finite (live_readers h)"
    using assms finite_subset [of "live_readers h" "dom (hb_objs h)"]
    by (auto simp: live_readers_def hub_ok_def split: if_splits)
  then have "hb_conn_count h - 1 \<le> int (card (live_readers ?h))"
    using assms(1) card_gt_0_iff [of "live_readers h"] by (auto simp: hub_ok_def of_nat_diff)
  moreover have "live_readers (?h\<lparr>hb_conn_count := hb_conn_count h - 1\<rparr>) = live_readers ?h"
    by (simp add: live_readers_def)
  ultimately have "hub_ok (?h\<lparr>hb_conn_count := hb_conn_count h - 1\<rparr>)"
    using assms(1,2) by (intro hub_okI) (use hub_okD [OF assms(1)] in \<open>fastforce simp: hub_ok_def split: if_splits\<close>)+
  then have "hub_ok (close_conn c (?h\<lparr>hb_conn_count := hb_conn_count h - 1\<rparr>))"
    by (rule close_conn_ok)
  moreover have "readPump_exit c h = close_conn c (?h\<lparr>hb_conn_count := hb_conn_count h - 1\<rparr>)"
    by (cases h) (simp add: readPump_exit_def close_conn_def upd_client_def)
  ultimately show ?thesis by simp
qed

lemma hub_step_ok:
  assumes "hub_step marshal h h'" "hub_ok h"
  shows "hub_ok h'"
  using assms
proof (induction rule: hub_step.induct)
  case (Register h cs c cs')
  have "set (hb_register h @ [c] @ cs @ cs') = set (hb_register h @ hb_waiting h)"
    "distinct ((hb_register h @ [c]) @ cs @ cs')"
    using Register by (auto simp: hub_ok_def)
  with Register.prems show ?case
    by (intro hub_okI) (auto simp: hub_ok_def live_readers_def)
next
  case (Run_Broadcast h m ms order)
  then show ?case by (simp add: run_broadcast_def broadcast_ok split: option.split)
next
  case (Write h c cl)
  show ?case
    unfolding writePump_message_def using Write.prems
    by (rule hub_ok_upd) (use hub_okD(4) [OF Write.prems, of c] in \<open>auto simp: tame_def\<close>)
next
  case (Writer_Exits h c cl)
  have "hub_ok (upd_client c (wc_writer_update (\<lambda>_. False)) h)"
    using Writer_Exits.prems by (rule hub_ok_upd) (use hub_okD(4) [OF Writer_Exits.prems, of c] in \<open>auto simp: tame_def\<close>)
  then show ?case unfolding writePump_exit_def by (rule close_conn_ok)
next
  case (Push_Role h order chk m)
  then show ?case by (simp add: PushToRole_def push_loop_ok split: option.split)
next
  case (Push_Lookup h u m)
  then show ?case by (simp add: PushToUser_lookup_def split: option.split)
qed (simp_all add: upgraded_ok run_register_ok run_unregister_ok readPump_exit_ok unregisterClient_ok PushToUser_send_def try_send_ok)

text \<open>The sends of the event loop find every registered client open.\<close>

definition is_open :: "'a hub \<Rightarrow> nat \<Rightarrow> bool" where
  "is_open h c \<longleftrightarrow> (\<exists>cl. hb_objs h c = Some cl \<and> wc_open cl)"

lemma try_send_open:
  assumes "is_open h c"
  shows "hb_panic (fst (try_send c payload h)) = hb_panic h" "is_open (fst (try_send c payload h)) d = is_open h d"
  using assms by (auto simp: is_open_def try_send_def split: option.split)

lemma broadcast_no_panic:
  "(\<And>c. c \<in> set cs \<Longrightarrow> is_open h c) \<Longrightarrow> hb_panic (broadcast_loop data cs h) = hb_panic h"
proof (induction data cs h rule: broadcast_loop.induct)
  case (2 data c rest h)
  obtain h1 sent where t: "try_send c data h = (h1, sent)" by fastforce
  have c: "is_open h c" using "2.prems" by simp
  let ?h = "if sent then h1 else h1\<lparr>hb_drops := hb_drops h1 @ [c]\<rparr>"
  have keeps: "hb_panic ?h = hb_panic h" "is_open ?h d = is_open h d" for d
    using try_send_open [OF c, of data] t by (simp_all add: is_open_def)
  have "hb_panic (broadcast_loop data rest ?h) = hb_panic ?h"
    by (rule "2.IH" [OF t [symmetric]]) (use "2.prems" keeps in auto)
  then show ?case using keeps(1) t by simp
qed simp

lemma registered_open: "hub_ok h \<Longrightarrow> c \<in> ran (hb_clients h) \<Longrightarrow> is_open h c"
  using hub_okD(1) by (fastforce simp: is_open_def ran_def)

lemma hub_reachable_ok: "hub_reachable marshal h \<Longrightarrow> hub_ok h"
proof (induction rule: hub_reachable.induct)
  case start
  show ?case by (simp add: hub_ok_def NewHub_def)
next
  case (step h h')
  then show ?case using hub_step_ok by blast
qed

text \<open>
  C27. The hub keeps its clients sound, in every interleaving of the event loop, the pumps, the
  handlers and the pushes: the client registered for a user is a client of that user whose channel
  is open, so every channel is closed at most once and a broadcast never panics; no buffer exceeds
  its size; and the connection counter is never more than the number of connections whose
  \<^verbatim>\<open>readPump\<close> still runs.
\<close>

theorem hub_clients_sound:
  assumes "hub_reachable marshal h"
  shows "hb_panic h \<noteq> Some CloseOfClosed \<and>
    (\<forall>u c. hb_clients h u = Some c \<longrightarrow> (\<exists>cl. hb_objs h c = Some cl \<and> wc_user cl = u \<and> wc_open cl)) \<and>
    (\<forall>c cl. hb_objs h c = Some cl \<longrightarrow> length (wc_buf cl) \<le> sendBufSize) \<and>
    hb_conn_count h \<le> int (card (live_readers h)) \<and>
    (\<forall>data order. set order \<subseteq> ran (hb_clients h) \<longrightarrow> hb_panic (broadcast_loop data order h) = hb_panic h)"
proof -
  note ok = hub_reachable_ok [OF assms]
  have "hb_panic (broadcast_loop data order h) = hb_panic h" if "set order \<subseteq> ran (hb_clients h)" for data order
    using registered_open [OF ok] that by (intro broadcast_no_panic) blast
  then show ?thesis
    using ok by (simp add: hub_ok_def)
qed

section \<open>Runs of the hub\<close>

text \<open>A connection of user 1, with \<open>n\<close> messages waiting in its channel.\<close>

abbreviation one_message :: "unit push_message \<Rightarrow> string option" where
  "one_message \<equiv> (\<lambda>_. Some ''{}'')"

definition demo_message :: "unit push_message" where
  "demo_message = \<lparr>pm_type = MsgSystemAlert, pm_data = (), pm_timestamp = 0\<rparr>"

definition demo_client :: "nat \<Rightarrow> ws_client" where
  "demo_client n = \<lparr>wc_id = 1, wc_user = 1, wc_conn = True, wc_open = True, wc_buf = replicate n ''{}'', wc_reader = True, wc_writer = True\<rparr>"

definition demo_hub :: "nat \<Rightarrow> unit hub" where
  "demo_hub n = NewHub\<lparr>hb_clients := [1 \<mapsto> 0], hb_conn_count := 1, hb_objs := [0 \<mapsto> demo_client n]\<rparr>"

definition connected :: "nat \<Rightarrow> int \<Rightarrow> 'a hub \<Rightarrow> 'a hub" where
  "connected c u h = run_register c (h\<lparr>hb_objs := (hb_objs h)(c \<mapsto> new_client u h), hb_conn_count := hb_conn_count h + 1\<rparr>)"

lemma connect_reachable:
  assumes "hub_reachable marshal h" "hb_panic h = None" "may_connect h" "hb_upgrading h = []" "hb_waiting h = []"
    "hb_register h = []" "hb_objs h c = None"
  shows "hub_reachable marshal (connected c u h)"
proof -
  let ?h1 = "h\<lparr>hb_upgrading := [u]\<rparr>"
  have "hub_step marshal h ?h1"
    using hub_step.Check [of h marshal u] assms by simp
  with assms(1) have 1: "hub_reachable marshal ?h1" by (rule hub_reachable.step)
  let ?h2 = "h\<lparr>hb_objs := (hb_objs h)(c \<mapsto> new_client u h), hb_conn_count := hb_conn_count h + 1, hb_waiting := [c]\<rparr>"
  have "hub_step marshal ?h1 ?h2"
    using hub_step.Upgrade [of ?h1 "[]" u "[]" c marshal] assms by (cases h) (simp add: upgraded_def new_client_def)
  with 1 have 2: "hub_reachable marshal ?h2" by (rule hub_reachable.step)
  let ?h3 = "h\<lparr>hb_objs := (hb_objs h)(c \<mapsto> new_client u h), hb_conn_count := hb_conn_count h + 1, hb_register := [c]\<rparr>"
  have "hub_step marshal ?h2 ?h3"
    using hub_step.Register [of ?h2 "[]" c "[]" marshal] assms by (cases h) simp
  with 2 have 3: "hub_reachable marshal ?h3" by (rule hub_reachable.step)
  have "hub_step marshal ?h3 (connected c u h)"
    using hub_step.Run_Register [of ?h3 c "[]" marshal] assms by (cases h) (simp add: connected_def)
  with 3 show ?thesis by (rule hub_reachable.step)
qed

lemma demo_hub_connected: "hub_reachable one_message (demo_hub 0)"
proof -
  have "connected 0 1 NewHub = demo_hub 0"
    by (simp add: connected_def run_register_def user_of_def new_client_def NewHub_def demo_hub_def demo_client_def Let_def)
  then show ?thesis
    using connect_reachable [OF hub_reachable.start [of one_message], of 0 1]
    by (simp add: NewHub_def may_connect_def maxConnections_def)
qed

text \<open>One more broadcast that the client does not read.\<close>

lemma demo_broadcast:
  assumes "hub_reachable one_message (demo_hub n)"
  shows "hub_reachable one_message (broadcast_loop ''{}'' [0] (demo_hub n))"
proof -
  let ?h = "(demo_hub n)\<lparr>hb_broadcast := [demo_message]\<rparr>"
  have "hub_step one_message (demo_hub n) ?h"
    using hub_step.Broadcast [of "demo_hub n" one_message demo_message] by (simp add: demo_hub_def NewHub_def)
  with assms have 1: "hub_reachable one_message ?h" by (rule hub_reachable.step)
  have "hub_step one_message ?h (broadcast_loop ''{}'' [0] (demo_hub n))"
    using hub_step.Run_Broadcast [of ?h demo_message "[]" "[0]" one_message]
    by (simp add: demo_hub_def NewHub_def run_broadcast_def)
  with 1 show ?thesis by (rule hub_reachable.step)
qed

lemma demo_hub_fills: "n \<le> 256 \<Longrightarrow> hub_reachable one_message (demo_hub n)"
proof (induction n)
  case (Suc n)
  have "broadcast_loop ''{}'' [0] (demo_hub n) = demo_hub (Suc n)"
    using Suc.prems by (simp add: try_send_def demo_hub_def demo_client_def NewHub_def sendBufSize_def upd_client_def
        replicate_append_same)
  then show ?case
    using demo_broadcast [of n] Suc by simp
qed (simp add: demo_hub_connected)

theorem hub_clients_sound_witness:
  "hb_conn_count (demo_hub 256) = 1 \<and> 1 \<le> int (card (live_readers (demo_hub 256))) \<and> hb_panic (demo_hub 256) \<noteq> Some CloseOfClosed"
  using hub_clients_sound [OF demo_hub_fills [of 256]] by (simp add: demo_hub_def)

text \<open>
  A slow client is counted off twice: when its buffer is full the hub drops it and lowers the
  counter, and its \<^verbatim>\<open>readPump\<close>, whose connection is now closed, lowers it again. From one
  connection the hub comes to no connection at all with a counter of -1, so the limit of 5000
  grows by one with every such client.
\<close>

theorem slow_client_counted_twice:
  "\<exists>h. hub_reachable one_message h \<and> hb_clients h = Map.empty \<and> live_readers h = {} \<and> hb_conn_count h = -1"
proof -
  let ?h = "(demo_hub 256)\<lparr>hb_drops := [0]\<rparr>"
  have "broadcast_loop ''{}'' [0] (demo_hub 256) = ?h"
    by (simp add: try_send_def demo_hub_def demo_client_def NewHub_def sendBufSize_def)
  then have 1: "hub_reachable one_message ?h"
    using demo_broadcast [OF demo_hub_fills [of 256]] by simp
  let ?h2 = "unregisterClient 0 (demo_hub 256)"
  have "hub_step one_message ?h ?h2"
    using hub_step.Drop [of ?h "[]" 0 "[]" one_message] by (simp add: demo_hub_def NewHub_def)
  with 1 have 2: "hub_reachable one_message ?h2" by (rule hub_reachable.step)
  have h2: "hb_objs ?h2 = [0 \<mapsto> (demo_client 256)\<lparr>wc_open := False, wc_conn := False\<rparr>]" "hb_clients ?h2 = Map.empty"
    "hb_conn_count ?h2 = 0" "hb_panic ?h2 = None" "hb_waiting ?h2 = []" "hb_unregister ?h2 = []"
    by (simp_all add: unregisterClient_def user_of_def demo_hub_def demo_client_def NewHub_def close_send_def close_conn_def upd_client_def)
  have "hub_step one_message ?h2 (readPump_exit 0 ?h2)"
    using h2 hub_step.Reader_Exits [of ?h2 0 "(demo_client 256)\<lparr>wc_open := False, wc_conn := False\<rparr>" one_message]
    by (simp add: demo_client_def)
  with 2 have "hub_reachable one_message (readPump_exit 0 ?h2)" by (rule hub_reachable.step)
  moreover have "hb_clients (readPump_exit 0 ?h2) = Map.empty" "hb_conn_count (readPump_exit 0 ?h2) = -1"
    "live_readers (readPump_exit 0 ?h2) = {}"
    using h2 by (simp_all add: readPump_exit_def close_conn_def live_readers_def)
  ultimately show ?thesis by blast
qed

text \<open>
  A push can panic: \<^verbatim>\<open>PushToUser\<close> reads the client under the lock and sends after
  releasing it; when the same user connects again in between, the hub has closed the old channel
  and the send panics.
\<close>

theorem push_to_replaced_client_panics:
  "\<exists>h. hub_reachable one_message h \<and> hb_panic h = Some SendOnClosed"
proof -
  let ?h = "(demo_hub 0)\<lparr>hb_pushes := [(0, ''{}'')]\<rparr>"
  have "hub_step one_message (demo_hub 0) ?h"
    using hub_step.Push_Lookup [of "demo_hub 0" one_message 1 demo_message]
    by (simp add: demo_hub_def NewHub_def PushToUser_lookup_def)
  with demo_hub_connected have "hub_reachable one_message ?h" by (rule hub_reachable.step)
  then have 1: "hub_reachable one_message (connected 1 1 ?h)"
    by (rule connect_reachable) (simp_all add: demo_hub_def NewHub_def may_connect_def maxConnections_def)
  have h: "hb_pushes (connected 1 1 ?h) = [(0, ''{}'')]" "hb_panic (connected 1 1 ?h) = None"
    "hb_objs (connected 1 1 ?h) 0 = Some ((demo_client 0)\<lparr>wc_open := False, wc_conn := False\<rparr>)"
    by (simp_all add: connected_def run_register_def user_of_def new_client_def demo_hub_def demo_client_def NewHub_def
        close_send_def close_conn_def upd_client_def Let_def)
  then have "hub_step one_message (connected 1 1 ?h) (PushToUser_send (0, ''{}'') ((connected 1 1 ?h)\<lparr>hb_pushes := []\<rparr>))"
    using hub_step.Push_Send [of "connected 1 1 ?h" "[]" "(0, ''{}'')" "[]" one_message] by simp
  with 1 have "hub_reachable one_message (PushToUser_send (0, ''{}'') ((connected 1 1 ?h)\<lparr>hb_pushes := []\<rparr>))"
    by (rule hub_reachable.step)
  moreover have "hb_panic (PushToUser_send (0, ''{}'') ((connected 1 1 ?h)\<lparr>hb_pushes := []\<rparr>)) = Some SendOnClosed"
    using h by (simp add: PushToUser_send_def try_send_def)
  ultimately show ?thesis by blast
qed

end
