(* ===== verification/Sentinel_Guard.thy ===== *)
theory Sentinel_Guard
  imports Config
begin

text \<open>
  Flow control: \<^verbatim>\<open>sentinel/sentinel.go\<close>, which hands the configured rules to the sentinel-golang
  library and asks it for entries, and the list of rules that \<^verbatim>\<open>service/sentinel_service.go\<close> keeps
  for the front end. The library is the parameter \<open>sentinel_lib\<close>; the locale \<open>sentinel_rules\<close> states
  what its documentation promises of loading rules.
\<close>

section \<open>Rules and the library\<close>

record flow_rule =
  fr_resource :: string
  fr_threshold :: rat
  fr_interval_ms :: int

record hot_rule =
  ht_resource :: string
  ht_param_index :: int
  ht_threshold :: int
  ht_duration_sec :: int

datatype breaker_strategy = SlowRequestRatio | ErrorRatio

record breaker_rule =
  br_resource :: string
  br_strategy :: breaker_strategy
  br_retry_timeout_ms :: int
  br_min_request_amount :: int
  br_stat_interval_ms :: int
  br_max_allowed_rt_ms :: int
  br_threshold :: rat

record ('l, 'e) sentinel_lib =
  sl_init :: "string \<Rightarrow> string \<Rightarrow> 'l \<Rightarrow> 'l \<times> unit result"
  sl_load_flow :: "flow_rule list \<Rightarrow> 'l \<Rightarrow> 'l \<times> unit result"
  sl_load_hot :: "hot_rule list \<Rightarrow> 'l \<Rightarrow> 'l \<times> unit result"
  sl_load_breaker :: "breaker_rule list \<Rightarrow> 'l \<Rightarrow> 'l \<times> unit result"
  sl_entry :: "string \<Rightarrow> int list \<Rightarrow> 'l \<Rightarrow> 'l \<times> 'e option"   \<comment> \<open>\<open>None\<close>: blocked\<close>
  sl_exit :: "'e \<Rightarrow> 'l \<Rightarrow> 'l"

record 'l sentinel_state =
  ss_enabled :: bool
  ss_once :: bool
  ss_lib :: 'l

section \<open>Loading the rules\<close>

definition flow_rules :: "sentinel_config \<Rightarrow> flow_rule list" where
  "flow_rules cfg =
     [\<lparr>fr_resource = ''seckill_api'', fr_threshold = of_int (sc_seckill_qps cfg), fr_interval_ms = 1000\<rparr>,
      \<lparr>fr_resource = ''global_api'', fr_threshold = of_int (sc_global_qps cfg), fr_interval_ms = 1000\<rparr>]"

definition hot_rules :: "sentinel_config \<Rightarrow> hot_rule list" where
  "hot_rules cfg =
     [\<lparr>ht_resource = ''seckill_product'', ht_param_index = 0, ht_threshold = hp_threshold (sc_hot_param cfg),
       ht_duration_sec = hp_duration_sec (sc_hot_param cfg)\<rparr>]"

text \<open>The conversions to \<^verbatim>\<open>uint32\<close> and \<^verbatim>\<open>uint64\<close> wrap.\<close>

definition breaker_rules :: "sentinel_config \<Rightarrow> breaker_rule list" where
  "breaker_rules cfg =
     (let cb = sc_circuit_breaker cfg in
      [\<lparr>br_resource = ''seckill_api'', br_strategy = SlowRequestRatio,
        br_retry_timeout_ms = cb_recovery_timeout_ms cb mod 2 ^ 32, br_min_request_amount = cb_min_request_amount cb mod 2 ^ 64,
        br_stat_interval_ms = cb_stat_interval_ms cb mod 2 ^ 32, br_max_allowed_rt_ms = cb_max_rt_ms cb mod 2 ^ 64,
        br_threshold = cb_max_rt_ratio cb\<rparr>,
       \<lparr>br_resource = ''seckill_api'', br_strategy = ErrorRatio,
        br_retry_timeout_ms = cb_recovery_timeout_ms cb mod 2 ^ 32, br_min_request_amount = cb_min_request_amount cb mod 2 ^ 64,
        br_stat_interval_ms = cb_stat_interval_ms cb mod 2 ^ 32, br_max_allowed_rt_ms = 0, br_threshold = 1 / 2\<rparr>])"

definition load_sentinel_rules :: "('l, 'e) sentinel_lib \<Rightarrow> sentinel_config \<Rightarrow> 'l \<Rightarrow> 'l \<times> unit result" where
  "load_sentinel_rules lib cfg l =
     (case sl_load_flow lib (flow_rules cfg) l of
        (l1, Inl err) \<Rightarrow> (l1, Inl (Wrapf ''loading the flow rules failed'' err))
      | (l1, Inr _) \<Rightarrow> (case sl_load_hot lib (hot_rules cfg) l1 of
            (l2, Inl err) \<Rightarrow> (l2, Inl (Wrapf ''loading the hot parameter rules failed'' err))
          | (l2, Inr _) \<Rightarrow> (case sl_load_breaker lib (breaker_rules cfg) l2 of
                (l3, Inl err) \<Rightarrow> (l3, Inl (Wrapf ''loading the breaker rules failed'' err))
              | (l3, Inr _) \<Rightarrow> (l3, Inr ()))))"

text \<open>\<^verbatim>\<open>Init\<close>: the body runs once; a later call returns nil.\<close>

definition sentinel_Init :: "('l, 'e) sentinel_lib \<Rightarrow> sentinel_config \<Rightarrow> 'l sentinel_state \<Rightarrow> 'l sentinel_state \<times> unit result" where
  "sentinel_Init lib cfg s =
     (if \<not> sc_enabled cfg then (s\<lparr>ss_enabled := False\<rparr>, Inr ())
      else if ss_once s then (s\<lparr>ss_enabled := True\<rparr>, Inr ())
      else let s1 = s\<lparr>ss_enabled := True, ss_once := True\<rparr> in
        (case sl_init lib (sc_log_dir cfg) (sc_app_name cfg) (ss_lib s) of
           (l1, Inl err) \<Rightarrow> (s1\<lparr>ss_lib := l1\<rparr>, Inl (Wrapf ''Sentinel initialisation failed'' err))
         | (l1, Inr _) \<Rightarrow> (case load_sentinel_rules lib cfg l1 of (l2, r) \<Rightarrow> (s1\<lparr>ss_lib := l2\<rparr>, r))))"

definition ReloadRules :: "('l, 'e) sentinel_lib \<Rightarrow> sentinel_config \<Rightarrow> 'l sentinel_state \<Rightarrow> 'l sentinel_state \<times> unit result" where
  "ReloadRules lib cfg s =
     (if \<not> sc_enabled cfg \<or> \<not> ss_enabled s then (s, Inr ())
      else case load_sentinel_rules lib cfg (ss_lib s) of (l, r) \<Rightarrow> (s\<lparr>ss_lib := l\<rparr>, r))"

definition UpdateFlowRule :: "('l, 'e) sentinel_lib \<Rightarrow> string \<Rightarrow> rat \<Rightarrow> 'l sentinel_state \<Rightarrow> 'l sentinel_state \<times> unit result" where
  "UpdateFlowRule lib resource n s =
     (if \<not> ss_enabled s then (s, Inl (Errf ''Sentinel is not enabled''))
      else case sl_load_flow lib [\<lparr>fr_resource = resource, fr_threshold = n, fr_interval_ms = 1000\<rparr>] (ss_lib s) of
          (l, Inl err) \<Rightarrow> (s\<lparr>ss_lib := l\<rparr>, Inl (Wrapf ''updating the flow rule failed'' err))
        | (l, Inr _) \<Rightarrow> (s\<lparr>ss_lib := l\<rparr>, Inr ()))"

text \<open>
  An entry: \<open>Inr None\<close> when Sentinel is off (the nil entry), \<open>Inr (Some e)\<close> when admitted.
\<close>

definition EntryWithArgs :: "('l, 'e) sentinel_lib \<Rightarrow> string \<Rightarrow> int list \<Rightarrow> 'l sentinel_state \<Rightarrow> 'l sentinel_state \<times> 'e option result" where
  "EntryWithArgs lib resource args s =
     (if \<not> ss_enabled s then (s, Inr None)
      else case sl_entry lib resource args (ss_lib s) of
          (l, None) \<Rightarrow> (s\<lparr>ss_lib := l\<rparr>, Inl (Errf ''blocked''))
        | (l, Some e) \<Rightarrow> (s\<lparr>ss_lib := l\<rparr>, Inr (Some e)))"

definition Entry :: "('l, 'e) sentinel_lib \<Rightarrow> string \<Rightarrow> 'l sentinel_state \<Rightarrow> 'l sentinel_state \<times> 'e option result" where
  "Entry lib resource s = EntryWithArgs lib resource [] s"

definition exit_entry :: "('l, 'e) sentinel_lib \<Rightarrow> 'e option \<Rightarrow> 'l sentinel_state \<Rightarrow> 'l sentinel_state" where
  "exit_entry lib e s = (case e of None \<Rightarrow> s | Some x \<Rightarrow> s\<lparr>ss_lib := sl_exit lib x (ss_lib s)\<rparr>)"

section \<open>What loading does\<close>

text \<open>
  Loading the rules of a kind replaces all rules of that kind by the valid ones of the list and
  leaves the other kinds alone.
\<close>

locale sentinel_rules =
  fixes lib :: "('l, 'e) sentinel_lib"
    and flows :: "'l \<Rightarrow> flow_rule list" and hots :: "'l \<Rightarrow> hot_rule list" and breakers :: "'l \<Rightarrow> breaker_rule list"
    and flow_valid :: "flow_rule \<Rightarrow> bool" and hot_valid :: "hot_rule \<Rightarrow> bool" and breaker_valid :: "breaker_rule \<Rightarrow> bool"
  assumes load_flow: "sl_load_flow lib fs l = (l', Inr ()) \<Longrightarrow>
      flows l' = filter flow_valid fs \<and> hots l' = hots l \<and> breakers l' = breakers l"
    and load_hot: "sl_load_hot lib hs l = (l', Inr ()) \<Longrightarrow>
      hots l' = filter hot_valid hs \<and> flows l' = flows l \<and> breakers l' = breakers l"
    and load_breaker: "sl_load_breaker lib bs l = (l', Inr ()) \<Longrightarrow>
      breakers l' = filter breaker_valid bs \<and> flows l' = flows l \<and> hots l' = hots l"
begin

definition in_force :: "sentinel_config \<Rightarrow> 'l \<Rightarrow> bool" where
  "in_force cfg l \<longleftrightarrow> flows l = filter flow_valid (flow_rules cfg) \<and> hots l = filter hot_valid (hot_rules cfg) \<and>
     breakers l = filter breaker_valid (breaker_rules cfg)"

lemma load_rules_in_force: "load_sentinel_rules lib cfg l = (l', Inr ()) \<Longrightarrow> in_force cfg l'"
  by (auto simp: load_sentinel_rules_def in_force_def split: prod.splits sum.splits
      dest!: load_flow load_hot load_breaker)

lemma Init_in_force:
  "sentinel_Init lib cfg s = (s', Inr ()) \<Longrightarrow> sc_enabled cfg \<Longrightarrow> \<not> ss_once s \<Longrightarrow> in_force cfg (ss_lib s') \<and> ss_enabled s'"
  by (auto simp: sentinel_Init_def Let_def split: prod.splits sum.splits dest!: load_rules_in_force)

lemma Reload_in_force:
  "ReloadRules lib cfg s = (s', Inr ()) \<Longrightarrow> sc_enabled cfg \<Longrightarrow> ss_enabled s \<Longrightarrow> in_force cfg (ss_lib s')"
  by (auto simp: ReloadRules_def split: prod.splits dest!: load_rules_in_force)

text \<open>Changing one limit drops the limits of all other resources.\<close>

lemma update_drops_other_limits:
  "UpdateFlowRule lib resource n s = (s', Inr ()) \<Longrightarrow> r \<in> set (flows (ss_lib s')) \<Longrightarrow> fr_resource r = resource"
  by (auto simp: UpdateFlowRule_def split: if_splits prod.splits sum.splits dest!: load_flow)

end

text \<open>A library that keeps the rules it is given and admits everything.\<close>

type_synonym rule_store = "flow_rule list \<times> hot_rule list \<times> breaker_rule list"

definition store_lib :: "(rule_store, string) sentinel_lib" where
  "store_lib = \<lparr>sl_init = (\<lambda>_ _ l. (l, Inr ())),
     sl_load_flow = (\<lambda>fs (_, h, b). ((fs, h, b), Inr ())), sl_load_hot = (\<lambda>hs (f, _, b). ((f, hs, b), Inr ())),
     sl_load_breaker = (\<lambda>bs (f, h, _). ((f, h, bs), Inr ())), sl_entry = (\<lambda>r _ l. (l, Some r)), sl_exit = (\<lambda>_ l. l)\<rparr>"

interpretation store: sentinel_rules store_lib fst "\<lambda>l. fst (snd l)" "\<lambda>l. snd (snd l)" "\<lambda>_. True" "\<lambda>_. True" "\<lambda>_. True"
  by unfold_locales (auto simp: store_lib_def split: prod.splits)

section \<open>The rules shown to the front end\<close>

record sentinel_rule =
  sr_id :: int
  sr_resource :: string
  sr_grade :: int
  sr_count :: int
  sr_strategy :: int
  sr_control_behavior :: int
  sr_limit_app :: string
  sr_warm_up_period_sec :: int
  sr_max_queueing_time_ms :: int

text \<open>The request has the same fields without the id.\<close>

record sentinel_rule_request =
  sx_resource :: string
  sx_grade :: int
  sx_count :: int
  sx_strategy :: int
  sx_control_behavior :: int
  sx_limit_app :: string
  sx_warm_up_period_sec :: int
  sx_max_queueing_time_ms :: int

record sentinel_service =
  sv_rules :: "sentinel_rule list"
  sv_next_id :: int

definition default_rule :: "int \<Rightarrow> string \<Rightarrow> int \<Rightarrow> sentinel_rule" where
  "default_rule i resource n = \<lparr>sr_id = i, sr_resource = resource, sr_grade = 0, sr_count = n, sr_strategy = 0,
     sr_control_behavior = 0, sr_limit_app = ''default'', sr_warm_up_period_sec = 0, sr_max_queueing_time_ms = 0\<rparr>"

definition GetSentinelService :: sentinel_service where
  "GetSentinelService = \<lparr>sv_rules = [default_rule 1 ''seckill_api'' 100, default_rule 2 ''global_api'' 500], sv_next_id = 3\<rparr>"

definition rule_of_request :: "int \<Rightarrow> sentinel_rule_request \<Rightarrow> sentinel_rule" where
  "rule_of_request i q = \<lparr>sr_id = i, sr_resource = sx_resource q, sr_grade = sx_grade q, sr_count = sx_count q,
     sr_strategy = sx_strategy q, sr_control_behavior = sx_control_behavior q, sr_limit_app = sx_limit_app q,
     sr_warm_up_period_sec = sx_warm_up_period_sec q, sr_max_queueing_time_ms = sx_max_queueing_time_ms q\<rparr>"

definition svc_GetRules :: "sentinel_service \<Rightarrow> sentinel_rule list" where
  "svc_GetRules s = sv_rules s"

definition svc_AddRule :: "sentinel_rule_request \<Rightarrow> sentinel_service \<Rightarrow> sentinel_service \<times> sentinel_rule" where
  "svc_AddRule q s =
     (let rule = rule_of_request (sv_next_id s) q
      in (s\<lparr>sv_next_id := sv_next_id s + 1, sv_rules := sv_rules s @ [rule]\<rparr>, rule))"

text \<open>The first rule with the id.\<close>

fun index_of_rule :: "int \<Rightarrow> sentinel_rule list \<Rightarrow> nat option" where
  "index_of_rule i [] = None"
| "index_of_rule i (r # rs) = (if sr_id r = i then Some 0 else map_option Suc (index_of_rule i rs))"

definition svc_DeleteRule :: "int \<Rightarrow> sentinel_service \<Rightarrow> sentinel_service \<times> bool" where
  "svc_DeleteRule i s = (case index_of_rule i (sv_rules s) of
      None \<Rightarrow> (s, False)
    | Some k \<Rightarrow> (s\<lparr>sv_rules := take k (sv_rules s) @ drop (Suc k) (sv_rules s)\<rparr>, True))"

definition svc_UpdateRule :: "int \<Rightarrow> sentinel_rule_request \<Rightarrow> sentinel_service \<Rightarrow> sentinel_service \<times> sentinel_rule option" where
  "svc_UpdateRule i q s = (case index_of_rule i (sv_rules s) of
      None \<Rightarrow> (s, None)
    | Some k \<Rightarrow> (let rule = rule_of_request (sr_id (sv_rules s ! k)) q
                 in (s\<lparr>sv_rules := (sv_rules s)[k := rule]\<rparr>, Some rule)))"

text \<open>The rules as a table by id.\<close>

definition rule_table :: "sentinel_service \<Rightarrow> int \<rightharpoonup> sentinel_rule" where
  "rule_table s i = find (\<lambda>r. sr_id r = i) (sv_rules s)"

definition rules_ok :: "sentinel_service \<Rightarrow> bool" where
  "rules_ok s \<longleftrightarrow> distinct (map sr_id (sv_rules s)) \<and> (\<forall>r \<in> set (sv_rules s). sr_id r < sv_next_id s)"

abbreviation by_id :: "sentinel_rule list \<Rightarrow> int \<rightharpoonup> sentinel_rule" where
  "by_id rs \<equiv> (\<lambda>i. find (\<lambda>r. sr_id r = i) rs)"

lemma by_id_None: "by_id rs i = None \<longleftrightarrow> i \<notin> sr_id ` set rs"
  by (induction rs) auto

lemma index_of_rule_None: "index_of_rule i rs = None \<longleftrightarrow> i \<notin> sr_id ` set rs"
  by (induction rs) auto

lemma by_id_append: "by_id rs (sr_id r) = None \<Longrightarrow> by_id (rs @ [r]) = (by_id rs)(sr_id r \<mapsto> r)"
proof -
  have "by_id (rs @ [r]) i = (case by_id rs i of None \<Rightarrow> if sr_id r = i then Some r else None | Some x \<Rightarrow> Some x)" for i
    by (induction rs) auto
  then show "by_id rs (sr_id r) = None \<Longrightarrow> by_id (rs @ [r]) = (by_id rs)(sr_id r \<mapsto> r)"
    by (auto simp: fun_eq_iff split: option.split)
qed

lemma by_id_delete:
  assumes "distinct (map sr_id rs)" "index_of_rule i rs = Some k"
  shows "by_id (take k rs @ drop (Suc k) rs) = (by_id rs)(i := None)"
  using assms
proof (induction rs arbitrary: k)
  case (Cons r rs)
  then have "by_id rs (sr_id r) = None" by (simp add: by_id_None)
  with Cons show ?case by (auto simp: fun_eq_iff split: if_splits)
qed simp

lemma by_id_update:
  assumes "index_of_rule i rs = Some k" "sr_id r' = i"
  shows "k < length rs" "sr_id (rs ! k) = i" "by_id (rs[k := r']) = (by_id rs)(i \<mapsto> r')"
    "map sr_id (rs[k := r']) = map sr_id rs"
  using assms
proof (induction rs arbitrary: k)
  case (Cons r rs)
  {
    case 1 with Cons show ?case by (auto split: if_splits)
  next
    case 2 with Cons show ?case by (auto split: if_splits)
  next
    case 3 with Cons show ?case by (auto simp: fun_eq_iff split: if_splits)
  next
    case 4 with Cons show ?case by (auto split: if_splits)
  }
qed simp_all

lemma AddRule_table:
  assumes "rules_ok s"
  shows "rule_table s (sv_next_id s) = None"
    "rule_table (fst (svc_AddRule q s)) = (rule_table s)(sv_next_id s \<mapsto> snd (svc_AddRule q s))"
    "rules_ok (fst (svc_AddRule q s))"
proof -
  let ?r = "rule_of_request (sv_next_id s) q"
  have r: "sr_id ?r = sv_next_id s" by (simp add: rule_of_request_def)
  show fresh: "rule_table s (sv_next_id s) = None"
    using assms by (force simp: rule_table_def by_id_None rules_ok_def)
  have "by_id (sv_rules s @ [?r]) = (by_id (sv_rules s))(sr_id ?r \<mapsto> ?r)"
    by (rule by_id_append) (use fresh r in \<open>simp add: rule_table_def\<close>)
  then show "rule_table (fst (svc_AddRule q s)) = (rule_table s)(sv_next_id s \<mapsto> snd (svc_AddRule q s))"
    using r by (simp add: fun_eq_iff rule_table_def svc_AddRule_def Let_def)
  show "rules_ok (fst (svc_AddRule q s))"
    using assms r by (force simp: rules_ok_def svc_AddRule_def Let_def)
qed

lemma DeleteRule_table:
  assumes "rules_ok s"
  shows "rule_table (fst (svc_DeleteRule i s)) = (rule_table s)(i := None)"
    "snd (svc_DeleteRule i s) = (rule_table s i \<noteq> None)" "rules_ok (fst (svc_DeleteRule i s))"
proof -
  have hit: "index_of_rule i (sv_rules s) = None \<longleftrightarrow> rule_table s i = None"
    unfolding rule_table_def index_of_rule_None by_id_None ..
  show "rule_table (fst (svc_DeleteRule i s)) = (rule_table s)(i := None)"
    using by_id_delete [of "sv_rules s" i] assms hit
    by (auto simp: rule_table_def fun_eq_iff svc_DeleteRule_def rules_ok_def split: option.splits)
  show "snd (svc_DeleteRule i s) = (rule_table s i \<noteq> None)"
    using hit by (auto simp: svc_DeleteRule_def split: option.splits)
  have "distinct (map sr_id (take k (sv_rules s) @ drop (Suc k) (sv_rules s)))" for k
    using assms by (auto simp: rules_ok_def take_map [symmetric] drop_map [symmetric] simp del: take_map drop_map
        dest: set_take_disj_set_drop_if_distinct [of _ k "Suc k"])
  then show "rules_ok (fst (svc_DeleteRule i s))"
    using assms by (auto simp: rules_ok_def svc_DeleteRule_def dest: in_set_takeD in_set_dropD split: option.splits)
qed

lemma UpdateRule_table:
  assumes "rules_ok s"
  shows "rule_table (fst (svc_UpdateRule i q s)) =
      (if rule_table s i = None then rule_table s else (rule_table s)(i \<mapsto> rule_of_request i q))"
    "rules_ok (fst (svc_UpdateRule i q s))"
proof -
  have hit: "index_of_rule i (sv_rules s) = None \<longleftrightarrow> rule_table s i = None"
    unfolding rule_table_def index_of_rule_None by_id_None ..
  have id: "sr_id (rule_of_request i q) = i" by (simp add: rule_of_request_def)
  note u = by_id_update [OF _ id, of "sv_rules s"]
  show "rule_table (fst (svc_UpdateRule i q s)) =
      (if rule_table s i = None then rule_table s else (rule_table s)(i \<mapsto> rule_of_request i q))"
    using u(2,3) hit by (auto simp: svc_UpdateRule_def rule_table_def fun_eq_iff Let_def split: option.splits)
  have "\<forall>r \<in> set ((sv_rules s)[k := rule_of_request i q]). sr_id r < sv_next_id s"
    if "index_of_rule i (sv_rules s) = Some k" for k
  proof -
    have "sr_id ` set ((sv_rules s)[k := rule_of_request i q]) = sr_id ` set (sv_rules s)"
      using u(4) [OF that] by (metis list.set_map)
    then show ?thesis using assms unfolding rules_ok_def by (metis image_iff)
  qed
  then show "rules_ok (fst (svc_UpdateRule i q s))"
    using assms u(2,4) by (auto simp: rules_ok_def svc_UpdateRule_def Let_def split: option.splits)
qed

text \<open>
  The rules of the front end are a table with fresh keys: a new rule gets an id that no rule has
  and is found under it, deletion removes exactly the rule with the id and reports whether there
  was one, an update replaces exactly that rule, and the ids stay distinct throughout.
\<close>

theorem sentinel_rules_table:
  assumes "rules_ok s"
  shows "rule_table s (sv_next_id s) = None \<and>
    rule_table (fst (svc_AddRule q s)) = (rule_table s)(sv_next_id s \<mapsto> snd (svc_AddRule q s)) \<and>
    rules_ok (fst (svc_AddRule q s)) \<and>
    rule_table (fst (svc_DeleteRule i s)) = (rule_table s)(i := None) \<and>
    snd (svc_DeleteRule i s) = (rule_table s i \<noteq> None) \<and> rules_ok (fst (svc_DeleteRule i s)) \<and>
    rule_table (fst (svc_UpdateRule i q s)) =
      (if rule_table s i = None then rule_table s else (rule_table s)(i \<mapsto> rule_of_request i q)) \<and>
    rules_ok (fst (svc_UpdateRule i q s))"
  using AddRule_table [OF assms] DeleteRule_table [OF assms] UpdateRule_table [OF assms] by simp

definition demo_rule_request :: sentinel_rule_request where
  "demo_rule_request = \<lparr>sx_resource = ''order_api'', sx_grade = 0, sx_count = 50, sx_strategy = 0, sx_control_behavior = 0,
     sx_limit_app = ''default'', sx_warm_up_period_sec = 0, sx_max_queueing_time_ms = 0\<rparr>"

theorem sentinel_rules_table_witness:
  "rule_table (fst (svc_AddRule demo_rule_request GetSentinelService)) 3 = Some (rule_of_request 3 demo_rule_request) \<and>
   rule_table (fst (svc_DeleteRule 1 GetSentinelService)) 1 = None \<and> snd (svc_DeleteRule 1 GetSentinelService)"
proof -
  have "rules_ok GetSentinelService"
    by (simp add: rules_ok_def GetSentinelService_def default_rule_def)
  from sentinel_rules_table [OF this, of demo_rule_request 1] show ?thesis
    by (simp add: GetSentinelService_def svc_AddRule_def rule_table_def default_rule_def Let_def)
qed

text \<open>
  After the start with a configuration and a change of one limit, the limit of the other
  resource is gone.
\<close>

lemma start_then_update:
  assumes "sc_enabled cfg"
  defines "s1 \<equiv> fst (sentinel_Init store_lib cfg \<lparr>ss_enabled = False, ss_once = False, ss_lib = ([], [], [])\<rparr>)"
  defines "s2 \<equiv> fst (UpdateFlowRule store_lib ''seckill_api'' 10 s1)"
  shows "map fr_resource (fst (ss_lib s1)) = [''seckill_api'', ''global_api'']"
    and "map fr_resource (fst (ss_lib s2)) = [''seckill_api'']"
  unfolding s2_def s1_def
  by (simp_all add: sentinel_Init_def load_sentinel_rules_def UpdateFlowRule_def store_lib_def flow_rules_def assms(1) Let_def)

end
