(* ===== verification/Notify.thy ===== *)
theory Notify
  imports Config Model
begin

text \<open>
  What leaves the program besides orders: behaviour records to Kafka (\<^verbatim>\<open>kafka/producer.go\<close>,
  \<^verbatim>\<open>kafka/consumer.go\<close>) and alerts to DingTalk (\<^verbatim>\<open>utils/dingtalk.go\<close>). The sarama and HTTP
  clients, \<^verbatim>\<open>json\<close>, HMAC and Base64 are parameters.
\<close>

section \<open>Loops that may return\<close>

text \<open>
  The body of a counted loop ends with its effects, either to go on or to return from the
  function.
\<close>

datatype 'e iteration = Continue "'e list" | Return "'e list"

function for_upto :: "nat \<Rightarrow> nat \<Rightarrow> (nat \<Rightarrow> 'e iteration) \<Rightarrow> 'e list" where
  "for_upto i n body = (if i < n
     then (case body i of Continue es \<Rightarrow> es @ for_upto (Suc i) n body | Return es \<Rightarrow> es) else [])"
  by pat_completeness auto
termination by (relation "measure (\<lambda>(i, n, _). n - i)") auto

declare for_upto.simps [simp del]

section \<open>Kafka producer\<close>

datatype kafka_effect =
    Produced string string string   \<comment> \<open>topic, key, value\<close>
  | Warned string
  | Logged_Error string
  | Slept_ms int

text \<open>
  The producer handle: \<open>None\<close> before \<^verbatim>\<open>InitProducer\<close> succeeds. \<open>connect\<close> is
  \<^verbatim>\<open>sarama.NewAsyncProducer\<close>; the body runs once.
\<close>

record 'p kafka_state =
  ks_producer :: "'p option"
  ks_once :: bool

definition InitProducer :: "(kafka_config \<Rightarrow> 'p result) \<Rightarrow> kafka_config \<Rightarrow> 'p kafka_state \<Rightarrow> 'p kafka_state \<times> unit result" where
  "InitProducer connect cfg s =
     (if ks_once s then (s, Inr ())
      else case connect cfg of
          Inl err \<Rightarrow> (s\<lparr>ks_once := True\<rparr>, Inl (Wrapf ''creating the Kafka producer failed'' err))
        | Inr p \<Rightarrow> (s\<lparr>ks_once := True, ks_producer := Some p\<rparr>, Inr ()))"

definition GetProducer :: "'p kafka_state \<Rightarrow> 'p option" where
  "GetProducer s = ks_producer s"

text \<open>
  \<open>accepts i\<close> says whether the channel of the producer takes the message in round \<open>i\<close> before the
  context of five seconds ends, \<open>dlq_accepts\<close> the same for the dead letter.
\<close>

definition track_round ::
  "(nat \<Rightarrow> bool) \<Rightarrow> bool \<Rightarrow> string \<Rightarrow> string \<Rightarrow> string \<Rightarrow> nat \<Rightarrow> kafka_effect iteration" where
  "track_round accepts dlq_accepts topic k v i =
     (if accepts i then Return [Produced topic k v]
      else Return
        (if i = 3 - 1
         then Warned ''retries used up, dead letter'' #
           (if dlq_accepts then [Produced (topic @ ''_dlq'') k v] else [Logged_Error ''dead letter failed''])
         else [Warned ''sending failed, retrying'', Slept_ms (500 * (int i + 1))]))"

definition TrackBehavior ::
  "(behavior_track \<Rightarrow> string) \<Rightarrow> 'p kafka_state \<Rightarrow> (nat \<Rightarrow> bool) \<Rightarrow> bool \<Rightarrow> behavior_track \<Rightarrow> string \<Rightarrow> kafka_effect list" where
  "TrackBehavior to_json s accepts dlq_accepts track topic =
     (if ks_producer s = None then []
      else for_upto 0 3 (track_round accepts dlq_accepts topic (fmt_d (bt_user_id track)) (to_json track)))"

text \<open>\<open>close_client\<close> is \<^verbatim>\<open>producer.Close\<close>.\<close>

definition kafka_Close :: "('p \<Rightarrow> unit result) \<Rightarrow> 'p kafka_state \<Rightarrow> unit result" where
  "kafka_Close close_client s = (case ks_producer s of None \<Rightarrow> Inr () | Some p \<Rightarrow> close_client p)"

section \<open>Kafka consumer\<close>

text \<open>The messages marked as read and the records logged, in order.\<close>

fun ConsumeClaim :: "(string \<Rightarrow> behavior_track option) \<Rightarrow> string list \<Rightarrow> string list \<times> behavior_track list" where
  "ConsumeClaim parse [] = ([], [])"
| "ConsumeClaim parse (m # ms) =
     (case parse m of
        None \<Rightarrow> (case ConsumeClaim parse ms of (marked, seen) \<Rightarrow> (m # marked, seen))
      | Some t \<Rightarrow> (case ConsumeClaim parse ms of (marked, seen) \<Rightarrow> (m # marked, t # seen)))"

definition consumer_starts :: "kafka_config \<Rightarrow> bool" where
  "consumer_starts cfg \<longleftrightarrow> kf_brokers cfg \<noteq> []"

section \<open>DingTalk\<close>

datatype post_outcome = Post_Failed string | Answered int string

record ding_message =
  dm_title :: string
  dm_text :: string

text \<open>
  \<open>post\<close> sends a message to an address, \<open>pause\<close> waits. The attempts are 1, 2 and 3; \<open>lastErr\<close> is the
  error of the attempt before.
\<close>

definition ding_pause :: "(int \<Rightarrow> 's \<Rightarrow> 's) \<Rightarrow> nat \<Rightarrow> 's \<Rightarrow> 's" where
  "ding_pause pause attempt s = (if attempt < 3 then pause (int attempt * 500) s else s)"

fun ding_attempts ::
  "('s \<Rightarrow> 's \<times> post_outcome) \<Rightarrow> (int \<Rightarrow> 's \<Rightarrow> 's) \<Rightarrow> nat list \<Rightarrow> go_error option \<Rightarrow> 's \<Rightarrow> 's \<times> unit result" where
  "ding_attempts post pause [] lastErr s =
     (s, Inl (case lastErr of None \<Rightarrow> Errf ''sending failed'' | Some e \<Rightarrow> Wrapf ''sending failed after 3 attempts'' e))"
| "ding_attempts post pause (attempt # rest) lastErr s =
     (case post s of
        (s1, Post_Failed e) \<Rightarrow> ding_attempts post pause rest (Some (Errf e)) (ding_pause pause attempt s1)
      | (s1, Answered status body) \<Rightarrow>
          if status \<noteq> 200
          then ding_attempts post pause rest (Some (Errf (''status '' @ fmt_d status @ '' '' @ body))) (ding_pause pause attempt s1)
          else (s1, Inr ()))"

text \<open>\<open>mac\<close> is the Base64 text of HMAC-SHA256 of a message under a key.\<close>

definition DingTalkSign :: "(string \<Rightarrow> string \<Rightarrow> string) \<Rightarrow> string \<Rightarrow> int \<Rightarrow> string" where
  "DingTalkSign mac secret timestamp = mac (fmt_d timestamp @ [CHR 0x0A] @ secret) secret"

definition ding_url :: "(string \<Rightarrow> string \<Rightarrow> string) \<Rightarrow> dingtalk_config \<Rightarrow> int \<Rightarrow> string" where
  "ding_url mac cfg timestamp =
     dt_webhook_url cfg @ ''&timestamp='' @ fmt_d timestamp @ ''&sign='' @ DingTalkSign mac (dt_secret cfg) timestamp"

definition SendDingTalkAlert ::
  "(string \<Rightarrow> string \<Rightarrow> string) \<Rightarrow> dingtalk_config \<Rightarrow> (string \<Rightarrow> ding_message \<Rightarrow> 's \<Rightarrow> 's \<times> post_outcome) \<Rightarrow> (int \<Rightarrow> 's \<Rightarrow> 's)
     \<Rightarrow> int \<Rightarrow> string \<Rightarrow> string \<Rightarrow> 's \<Rightarrow> 's \<times> unit result" where
  "SendDingTalkAlert mac cfg post pause timestamp title content s =
     (if \<not> dt_enabled cfg then (s, Inr ())
      else ding_attempts (post (ding_url mac cfg timestamp) \<lparr>dm_title = title, dm_text = content\<rparr>) pause [1, 2, 3] None s)"

section \<open>What they do\<close>

text \<open>
  The behaviour records are sent at most once: whatever the producer accepts, \<open>TrackBehavior\<close>
  either hands the record over in its first round or warns that it is retrying and gives up; it
  never reaches a second round and never sends a dead letter.
\<close>

theorem track_never_retries:
  "TrackBehavior to_json s accepts dlq_accepts track topic =
     (if ks_producer s = None then []
      else if accepts 0 then [Produced topic (fmt_d (bt_user_id track)) (to_json track)]
      else [Warned ''sending failed, retrying'', Slept_ms 500])"
  by (simp add: TrackBehavior_def for_upto.simps [of 0] track_round_def)

text \<open>A messenger that answers from a script and counts the posts.\<close>

type_synonym script = "post_outcome list \<times> nat"

definition scripted :: "string \<Rightarrow> ding_message \<Rightarrow> script \<Rightarrow> script \<times> post_outcome" where
  "scripted url m s = (case s of
      ([], n) \<Rightarrow> (([], Suc n), Post_Failed ''no answer'')
    | (a # as, n) \<Rightarrow> ((as, Suc n), a))"

lemma scripted_Cons [simp]: "scripted url m (a # as, n) = ((as, Suc n), a)"
  by (simp add: scripted_def)

fun good_answer :: "post_outcome \<Rightarrow> bool" where
  "good_answer (Answered status _) = (status = 200)"
| "good_answer (Post_Failed _) = False"

lemma ding_attempts_scripted:
  assumes "ding_attempts (scripted url m) (\<lambda>_ s. s) as e (os, n) = (s', r)" "length as \<le> length os"
  shows "(r = Inr ()) = (\<exists>a \<in> set (take (length as) os). good_answer a) \<and>
     snd s' = n + min (length as) (length (takeWhile (\<lambda>a. \<not> good_answer a) os) + 1)"
  using assms
proof (induction as arbitrary: os n e)
  case (Cons a as)
  then obtain x xs where os: "os = x # xs" "length as \<le> length xs" by (cases os) auto
  show ?case
  proof (cases "good_answer x")
    case True
    then show ?thesis
      using Cons.prems os by (cases x) auto
  next
    case False
    obtain e' where "ding_attempts (scripted url m) (\<lambda>_ s. s) as e' (xs, Suc n) = (s', r)"
      using Cons.prems(1) os False by (cases x) (auto simp: ding_pause_def)
    from Cons.IH [OF this os(2)] show ?thesis
      using os(1) False by auto
  qed
qed (auto split: option.splits)

text \<open>
  An alert is tried at most three times and stops at the first answer with status 200: for any
  three answers of the server, the call succeeds exactly if one of them is good, and it has
  posted once more than there are bad answers before the first good one, at most three times. A
  disabled alert posts nothing and succeeds.
\<close>

theorem alert_tried_three_times:
  assumes "SendDingTalkAlert mac cfg scripted (\<lambda>_ s. s) timestamp title content (os, 0) = (s', r)" "3 \<le> length os"
  shows "if dt_enabled cfg
    then (r = Inr () \<longleftrightarrow> (\<exists>a \<in> set (take 3 os). good_answer a)) \<and>
      snd s' = min 3 (length (takeWhile (\<lambda>a. \<not> good_answer a) os) + 1)
    else r = Inr () \<and> snd s' = 0"
  using assms ding_attempts_scripted
    [of "ding_url mac cfg timestamp" "\<lparr>dm_title = title, dm_text = content\<rparr>" "[1, 2, 3]" None os 0 s' r]
  by (auto simp: SendDingTalkAlert_def numeral_3_eq_3 split: if_splits)

definition demo_ding :: dingtalk_config where
  "demo_ding = \<lparr>dt_enabled = True, dt_webhook_url = ''url'', dt_secret = ''s'',
     dt_alert = \<lparr>da_error_rate_threshold = 0, da_qps_threshold = 0, da_mq_backlog_threshold = 0,
     da_circuit_breaker_trigger = False\<rparr>\<rparr>"

theorem alert_tried_three_times_witness:
  "\<exists>s'. SendDingTalkAlert (\<lambda>_ _. ''mac'') demo_ding scripted (\<lambda>_ s. s) 0 ''t'' ''c''
       ([Post_Failed ''down'', Answered 200 [], Answered 500 []], 0) = (s', Inr ()) \<and> snd s' = 2"
  using alert_tried_three_times [OF prod.collapse [symmetric], where mac = "\<lambda>_ _. ''mac''" and cfg = demo_ding
      and os = "[Post_Failed ''down'', Answered 200 [], Answered 500 []]" and timestamp = 0 and title = "''t''" and content = "''c''"]
  by (simp add: prod_eq_iff demo_ding_def numeral_3_eq_3)

end
