(* ===== verification/Http_Api.thy ===== *)
theory Http_Api
  imports Middleware Activity_Service Sentinel_Guard
begin

text \<open>
  The HTTP handlers of \<^verbatim>\<open>controller/user_controller.go\<close>, \<^verbatim>\<open>order_controller.go\<close>,
  \<^verbatim>\<open>product_controller.go\<close>, \<^verbatim>\<open>activity_controller.go\<close>, \<^verbatim>\<open>blacklist_controller.go\<close>,
  \<^verbatim>\<open>audit_controller.go\<close> and \<^verbatim>\<open>sentinel_controller.go\<close>, and the responses of
  \<^verbatim>\<open>utils/utils.go\<close>. A handler gets the context that the middlewares have filled, the decoded
  request (\<open>None\<close> when the body is not JSON of the right shape) and the world, and answers with a
  response. The texts of messages are given in English.
\<close>

section \<open>Responses and requests\<close>

text \<open>A message is a literal, or a literal with the text of an error after it.\<close>

datatype message = Lit string | Err_Text string go_error

record 'a response =
  rs_code :: int
  rs_message :: message
  rs_data :: "'a option"
  rs_trace :: string

definition GetTraceID :: "gin_context \<Rightarrow> string" where
  "GetTraceID c = (case gc_trace_id c of None \<Rightarrow> [] | Some t \<Rightarrow> t)"

definition Success :: "gin_context \<Rightarrow> 'a \<Rightarrow> 'a response" where
  "Success c d = \<lparr>rs_code = 200, rs_message = Lit ''success'', rs_data = Some d, rs_trace = GetTraceID c\<rparr>"

definition SuccessWithMessage :: "gin_context \<Rightarrow> string \<Rightarrow> 'a option \<Rightarrow> 'a response" where
  "SuccessWithMessage c m d = \<lparr>rs_code = 200, rs_message = Lit m, rs_data = d, rs_trace = GetTraceID c\<rparr>"

definition Error_response :: "gin_context \<Rightarrow> int \<Rightarrow> message \<Rightarrow> 'a response" where
  "Error_response c code m = \<lparr>rs_code = code, rs_message = m, rs_data = None, rs_trace = GetTraceID c\<rparr>"

definition InternalError :: "gin_context \<Rightarrow> message \<Rightarrow> 'a response" where
  "InternalError c m = Error_response c 500 m"

definition BadRequest :: "gin_context \<Rightarrow> message \<Rightarrow> 'a response" where
  "BadRequest c m = Error_response c 400 m"

definition Unauthorized :: "gin_context \<Rightarrow> message \<Rightarrow> 'a response" where
  "Unauthorized c m = Error_response c 401 m"

definition NotFound :: "gin_context \<Rightarrow> message \<Rightarrow> 'a response" where
  "NotFound c m = Error_response c 404 m"

text \<open>\<^verbatim>\<open>ShouldBindJSON\<close>: decoding, then the binding rules.\<close>

definition bind_json :: "('q \<Rightarrow> bool) \<Rightarrow> 'q option \<Rightarrow> 'q option" where
  "bind_json valid body = (case body of None \<Rightarrow> None | Some q \<Rightarrow> if valid q then Some q else None)"

definition bad_parameters :: "gin_context \<Rightarrow> 'a response" where
  "bad_parameters c = BadRequest c (Err_Text ''bad parameters: '' JsonErr)"

text \<open>A query parameter read with \<^verbatim>\<open>fmt.Sscanf(s, "%d", &n)\<close> into a variable that has a default.\<close>

definition query_int :: "(string \<rightharpoonup> string) \<Rightarrow> string \<Rightarrow> int \<Rightarrow> int" where
  "query_int query k dflt_value = (case query k of None \<Rightarrow> dflt_value
     | Some s \<Rightarrow> (case Sscanf_d s of None \<Rightarrow> dflt_value
         | Some n \<Rightarrow> if in_int64 n then n else dflt_value))"

record 'a page =
  pg_list :: "'a list"
  pg_total :: int
  pg_page :: int
  pg_page_size :: int

definition page_reply :: "gin_context \<Rightarrow> int \<Rightarrow> int \<Rightarrow> 'a list \<times> int \<Rightarrow> 'a page response" where
  "page_reply c page pageSize r = Success c \<lparr>pg_list = fst r, pg_total = snd r, pg_page = page, pg_page_size = pageSize\<rparr>"

section \<open>Users\<close>

record update_role_request =
  uq_user_id :: int
  uq_role :: string

definition valid_update_role :: "update_role_request \<Rightarrow> bool" where
  "valid_update_role q \<longleftrightarrow> 0 < uq_user_id q \<and>
     uq_role q \<in> {''super_admin'', ''operator'', ''monitor_readonly'', ''risk_control'', ''admin'', ''user''}"

record change_password_request =
  cq_old_password :: string
  cq_new_password :: string

definition valid_change_password :: "change_password_request \<Rightarrow> bool" where
  "valid_change_password q \<longleftrightarrow> cq_old_password q \<noteq> [] \<and> 6 \<le> length (cq_new_password q)"

definition valid_forgot_password :: "forgot_password_request \<Rightarrow> bool" where
  "valid_forgot_password q \<longleftrightarrow> 3 \<le> length (fq_username q) \<and> length (fq_username q) \<le> 64 \<and>
     0 < length (fq_phone q) \<and> length (fq_phone q) \<le> 20 \<and>
     6 \<le> length (fq_new_password q) \<and> length (fq_new_password q) \<le> 64"

definition ctl_Register ::
  "('r, 'd, 'q) env \<Rightarrow> crypto \<Rightarrow> nat \<Rightarrow> int \<Rightarrow> gin_context \<Rightarrow> register_request option \<Rightarrow> ('r, 'd, 'q) world
     \<Rightarrow> ('r, 'd, 'q) world \<times> (int \<times> string) response" where
  "ctl_Register ev cr salt now c body w =
     (case bind_json valid_register body of
        None \<Rightarrow> (w, bad_parameters c)
      | Some req \<Rightarrow> (case svc_Register ev cr salt now req w of
            (w1, Inl err) \<Rightarrow> (w1, Error_response c 400 (Err_Text [] err))
          | (w1, Inr u) \<Rightarrow> (w1, SuccessWithMessage c ''registered'' (Some (u_id u, u_username u)))))"

definition ctl_Login ::
  "('r, 'd, 'q) env \<Rightarrow> crypto \<Rightarrow> jwt_manager \<Rightarrow> int \<Rightarrow> gin_context \<Rightarrow> login_request option \<Rightarrow> ('r, 'd, 'q) world
     \<Rightarrow> ('r, 'd, 'q) world \<times> login_response response" where
  "ctl_Login ev cr m now c body w =
     (case bind_json valid_login body of
        None \<Rightarrow> (w, bad_parameters c)
      | Some req \<Rightarrow> (case svc_Login ev cr m now req w of
            (w1, Inl err) \<Rightarrow> (w1, Error_response c 400 (Err_Text [] err))
          | (w1, Inr resp) \<Rightarrow> (w1, Success c resp)))"

definition ctl_GetUserList ::
  "('r, 'd, 'q) env \<Rightarrow> gin_context \<Rightarrow> (string \<rightharpoonup> string) \<Rightarrow> ('r, 'd, 'q) world
     \<Rightarrow> ('r, 'd, 'q) world \<times> user_list_response page response" where
  "ctl_GetUserList ev c query w =
     (let page = query_int query ''page'' 1; pageSize = ClampPageSize (query_int query ''page_size'' 10)
      in case svc_GetUserList ev page pageSize w of
           (w1, Inl err) \<Rightarrow> (w1, InternalError c (Err_Text [] err))
         | (w1, Inr r) \<Rightarrow> (w1, page_reply c page pageSize r))"

definition ctl_UpdateUserRole ::
  "('r, 'd, 'q) env \<Rightarrow> int \<Rightarrow> gin_context \<Rightarrow> update_role_request option \<Rightarrow> ('r, 'd, 'q) world
     \<Rightarrow> ('r, 'd, 'q) world \<times> unit response" where
  "ctl_UpdateUserRole ev now c body w =
     (case bind_json valid_update_role body of
        None \<Rightarrow> (w, bad_parameters c)
      | Some req \<Rightarrow> (case svc_UpdateUserRole ev now (uq_user_id req) (uq_role req) w of
            (w1, Inl err) \<Rightarrow> (w1, Error_response c 400 (Err_Text [] err))
          | (w1, Inr _) \<Rightarrow> (w1, SuccessWithMessage c ''role updated'' None)))"

text \<open>Handlers that need the user of the token.\<close>

definition with_user ::
  "gin_context \<Rightarrow> (int \<Rightarrow> ('r, 'd, 'q) world \<Rightarrow> ('r, 'd, 'q) world \<times> 'a response) \<Rightarrow> ('r, 'd, 'q) world
     \<Rightarrow> ('r, 'd, 'q) world \<times> 'a response" where
  "with_user c f w = (case gc_user_id c of
      None \<Rightarrow> (w, Unauthorized c (Lit ''log in first''))
    | Some uid \<Rightarrow> f uid w)"

definition ctl_GetUserInfo ::
  "('r, 'd, 'q) env \<Rightarrow> gin_context \<Rightarrow> ('r, 'd, 'q) world \<Rightarrow> ('r, 'd, 'q) world \<times> user_list_response response" where
  "ctl_GetUserInfo ev c = with_user c (\<lambda>uid w.
     case svc_GetUserInfo ev uid w of
       (w1, Inl err) \<Rightarrow> (w1, NotFound c (Err_Text [] err))
     | (w1, Inr u) \<Rightarrow> (w1, Success c \<lparr>ul_id = u_id u, ul_username = u_username u, ul_nickname = u_nickname u,
         ul_phone = u_phone u, ul_role = u_role u, ul_status = u_status u, ul_created_at = u_created_at u\<rparr>))"

definition ctl_ChangePassword ::
  "('r, 'd, 'q) env \<Rightarrow> crypto \<Rightarrow> nat \<Rightarrow> int \<Rightarrow> gin_context \<Rightarrow> change_password_request option \<Rightarrow> ('r, 'd, 'q) world
     \<Rightarrow> ('r, 'd, 'q) world \<times> unit response" where
  "ctl_ChangePassword ev cr salt now c body = with_user c (\<lambda>uid w.
     case bind_json valid_change_password body of
       None \<Rightarrow> (w, bad_parameters c)
     | Some req \<Rightarrow> (case svc_ChangePassword ev cr salt now uid (cq_old_password req) (cq_new_password req) w of
           (w1, Inl err) \<Rightarrow> (w1, Error_response c 400 (Err_Text [] err))
         | (w1, Inr _) \<Rightarrow> (w1, SuccessWithMessage c ''password changed'' None)))"

definition ctl_ForgotPassword ::
  "('r, 'd, 'q) env \<Rightarrow> crypto \<Rightarrow> nat \<Rightarrow> int \<Rightarrow> gin_context \<Rightarrow> forgot_password_request option \<Rightarrow> ('r, 'd, 'q) world
     \<Rightarrow> ('r, 'd, 'q) world \<times> unit response" where
  "ctl_ForgotPassword ev cr salt now c body w =
     (case bind_json valid_forgot_password body of
        None \<Rightarrow> (w, bad_parameters c)
      | Some req \<Rightarrow> (case svc_ForgotPassword ev cr salt now req w of
            (w1, Inl err) \<Rightarrow> (w1, Error_response c 400 (Err_Text [] err))
          | (w1, Inr _) \<Rightarrow> (w1, SuccessWithMessage c ''password reset'' None)))"

section \<open>Orders\<close>

text \<open>
  A query bound with \<^verbatim>\<open>ShouldBindQuery\<close>: the fields as decoded, and whether decoding worked. When
  decoding or the rules fail, only page and page size are replaced.
\<close>

record order_query =
  oq_page :: int
  oq_page_size :: int
  oq_status :: string

record admin_order_query =
  aq_page :: int
  aq_page_size :: int
  aq_status :: "int option"
  aq_order_no :: string
  aq_user_id :: "int option"

definition valid_page :: "int \<Rightarrow> int \<Rightarrow> bool" where
  "valid_page page pageSize \<longleftrightarrow> 1 \<le> page \<and> 1 \<le> pageSize \<and> pageSize \<le> 100"

definition ctl_GetUserOrders ::
  "('r, 'd, 'q) env \<Rightarrow> gin_context \<Rightarrow> order_query \<times> bool \<Rightarrow> ('r, 'd, 'q) world \<Rightarrow> ('r, 'd, 'q) world \<times> order page response" where
  "ctl_GetUserOrders ev c query = with_user c (\<lambda>uid w.
     let (q, decoded) = query;
         ok = (decoded \<and> valid_page (oq_page q) (oq_page_size q));
         page = (if ok then oq_page q else 1);
         pageSize = ClampPageSize (if ok then oq_page_size q else 10)
     in case svc_GetUserOrders ev uid page pageSize (oq_status q) w of
          (w1, Inl err) \<Rightarrow> (w1, InternalError c (Err_Text [] err))
        | (w1, Inr r) \<Rightarrow> (w1, page_reply c page pageSize r))"

definition ctl_GetOrderDetail ::
  "('r, 'd, 'q) env \<Rightarrow> gin_context \<Rightarrow> string \<Rightarrow> ('r, 'd, 'q) world \<Rightarrow> ('r, 'd, 'q) world \<times> order response" where
  "ctl_GetOrderDetail ev c orderNo = with_user c (\<lambda>uid w.
     case svc_GetOrderDetail ev orderNo uid w of
       (w1, Inl err) \<Rightarrow> (w1, NotFound c (Lit ''order does not exist''))
     | (w1, Inr r) \<Rightarrow> (w1, Success c r))"

record order_reason_request =
  or_order_no :: string
  or_reason :: string

definition ctl_CancelOrder ::
  "('r, 'd, 'q) env \<Rightarrow> int \<Rightarrow> gin_context \<Rightarrow> order_reason_request option \<Rightarrow> ('r, 'd, 'q) world
     \<Rightarrow> ('r, 'd, 'q) world \<times> unit response" where
  "ctl_CancelOrder ev now c body = with_user c (\<lambda>uid w.
     case bind_json (\<lambda>q. or_order_no q \<noteq> []) body of
       None \<Rightarrow> (w, bad_parameters c)
     | Some req \<Rightarrow> (case svc_CancelOrder ev now (or_order_no req) uid (or_reason req) w of
           (w1, Inl err) \<Rightarrow> (w1, Error_response c 400 (Err_Text [] err))
         | (w1, Inr _) \<Rightarrow> (w1, SuccessWithMessage c ''cancelled'' None)))"

definition admin_page :: "int \<Rightarrow> admin_order_query \<times> bool \<Rightarrow> int \<times> int" where
  "admin_page dflt_size query =
     (let (q, decoded) = query in
      if decoded \<and> valid_page (aq_page q) (aq_page_size q) then (aq_page q, aq_page_size q) else (1, dflt_size))"

definition ctl_GetAllOrders ::
  "('r, 'd, 'q) env \<Rightarrow> gin_context \<Rightarrow> admin_order_query \<times> bool \<Rightarrow> ('r, 'd, 'q) world \<Rightarrow> ('r, 'd, 'q) world \<times> order page response" where
  "ctl_GetAllOrders ev c query w =
     (let (page, size) = admin_page 10 query; q = fst query; pageSize = ClampPageSize size
      in case svc_GetAllOrders ev page pageSize (aq_status q) (aq_order_no q) (aq_user_id q) w of
           (w1, Inl err) \<Rightarrow> (w1, InternalError c (Err_Text [] err))
         | (w1, Inr r) \<Rightarrow> (w1, page_reply c page pageSize r))"

text \<open>The export writes one line of CSV for each order; \<open>fmt_time\<close> formats a time.\<close>

fun status_text :: "order_status \<Rightarrow> string" where
  "status_text Paid = ''paid''"
| "status_text Cancelled = ''cancelled''"
| "status_text Refunded = ''refunded''"
| "status_text Timeout = ''timed out''"
| "status_text Pending = ''waiting for payment''"

definition csv_line :: "(int \<Rightarrow> string) \<Rightarrow> order \<Rightarrow> string" where
  "csv_line fmt_time r = o_order_no r @ '','' @ fmt_d (o_user_id r) @ '','' @ o_product_name r @ '','' @ fmt_2f (o_seckill_price r)
     @ '','' @ fmt_d (o_quantity r) @ '','' @ fmt_2f (o_total_amount r) @ '','' @ status_text (o_status r) @ '','' @
     fmt_time (o_created_at r)"

definition ctl_ExportOrders ::
  "('r, 'd, 'q) env \<Rightarrow> (int \<Rightarrow> string) \<Rightarrow> gin_context \<Rightarrow> admin_order_query \<times> bool \<Rightarrow> ('r, 'd, 'q) world
     \<Rightarrow> ('r, 'd, 'q) world \<times> (unit response + string list)" where
  "ctl_ExportOrders ev fmt_time c query w =
     (let (page, pageSize) = admin_page 10000 query; q = fst query
      in case svc_GetAllOrders ev page pageSize (aq_status q) (aq_order_no q) (aq_user_id q) w of
           (w1, Inl err) \<Rightarrow> (w1, Inl (InternalError c (Err_Text [] err)))
         | (w1, Inr r) \<Rightarrow> (w1, Inr (map (csv_line fmt_time) (fst r))))"

definition ctl_GetReconDiff ::
  "('r, 'd, 'q) env \<Rightarrow> gin_context \<Rightarrow> (string \<rightharpoonup> string) \<Rightarrow> ('r, 'd, 'q) world
     \<Rightarrow> ('r, 'd, 'q) world \<times> recon_diff page response" where
  "ctl_GetReconDiff ev c query w =
     (let page = query_int query ''page'' 1; pageSize = ClampPageSize (query_int query ''page_size'' 10)
      in case svc_GetReconDiffList ev page pageSize w of
           (w1, Inl err) \<Rightarrow> (w1, InternalError c (Err_Text [] err))
         | (w1, Inr r) \<Rightarrow> (w1, page_reply c page pageSize r))"

definition ctl_FixReconDiff ::
  "('r, 'd, 'q) env \<Rightarrow> int \<Rightarrow> gin_context \<Rightarrow> int option \<Rightarrow> ('r, 'd, 'q) world \<Rightarrow> ('r, 'd, 'q) world \<times> unit response" where
  "ctl_FixReconDiff ev now c body w =
     (case bind_json (\<lambda>i. i \<noteq> 0) body of
        None \<Rightarrow> (w, bad_parameters c)
      | Some i \<Rightarrow> (case svc_FixReconDiff ev now i w of
            (w1, Inl err) \<Rightarrow> (w1, Error_response c 400 (Err_Text [] err))
          | (w1, Inr _) \<Rightarrow> (w1, SuccessWithMessage c ''fixed'' None)))"

text \<open>A panic of the service leaves the handler: \<open>None\<close>.\<close>

definition ctl_ImportOrders ::
  "('r, 'd, 'q) env \<Rightarrow> int \<Rightarrow> gin_context \<Rightarrow> msg list option \<Rightarrow> ('r, 'd, 'q) world
     \<Rightarrow> ('r, 'd, 'q) world \<times> (int \<times> int \<times> int) response option" where
  "ctl_ImportOrders ev now c body w =
     (case body of
        None \<Rightarrow> (w, Some (bad_parameters c))
      | Some orders \<Rightarrow>
          if length orders = 0 then (w, Some (BadRequest c (Lit ''nothing to import'')))
          else (case svc_BatchImportOrders ev now orders 0 0 w of
                  (w1, Inl err) \<Rightarrow> (w1, None)
                | (w1, Inr (successCount, failCount)) \<Rightarrow>
                    (w1, Some (SuccessWithMessage c ''imported'' (Some (successCount, failCount, int (length orders)))))))"

record pay_callback_request =
  pq_order_no :: string
  pq_pay_sign :: string

definition ctl_PayCallback ::
  "('r, 'd, 'q) env \<Rightarrow> int \<Rightarrow> gin_context \<Rightarrow> pay_callback_request option \<Rightarrow> ('r, 'd, 'q) world
     \<Rightarrow> ('r, 'd, 'q) world \<times> unit response" where
  "ctl_PayCallback ev now c body = with_user c (\<lambda>uid w.
     case bind_json (\<lambda>q. pq_order_no q \<noteq> []) body of
       None \<Rightarrow> (w, bad_parameters c)
     | Some req \<Rightarrow>
         if pq_pay_sign req = [] then (w, Error_response c 400 (Lit ''the signature of the payment is wrong''))
         else (case svc_PayCallback ev now (pq_order_no req) uid now w of
                 (w1, Inl err) \<Rightarrow> (w1, Error_response c 400 (Err_Text [] err))
               | (w1, Inr _) \<Rightarrow> (w1, SuccessWithMessage c ''paid'' None)))"

definition ctl_Refund ::
  "('r, 'd, 'q) env \<Rightarrow> int \<Rightarrow> gin_context \<Rightarrow> order_reason_request option \<Rightarrow> ('r, 'd, 'q) world
     \<Rightarrow> ('r, 'd, 'q) world \<times> unit response" where
  "ctl_Refund ev now c body = with_user c (\<lambda>uid w.
     case bind_json (\<lambda>q. or_order_no q \<noteq> []) body of
       None \<Rightarrow> (w, bad_parameters c)
     | Some req \<Rightarrow> (case svc_Refund ev now (or_order_no req) uid (or_reason req) w of
           (w1, Inl err) \<Rightarrow> (w1, Error_response c 400 (Err_Text [] err))
         | (w1, Inr _) \<Rightarrow> (w1, SuccessWithMessage c ''refunded'' None)))"

section \<open>Products\<close>

definition ctl_CreateProduct ::
  "('r, 'd, 'q) env \<Rightarrow> spec_codec \<Rightarrow> int \<Rightarrow> gin_context \<Rightarrow> create_product_request option \<Rightarrow> ('r, 'd, 'q) world
     \<Rightarrow> ('r, 'd, 'q) world \<times> product response" where
  "ctl_CreateProduct ev cd now c body w =
     (case bind_json valid_create_product body of
        None \<Rightarrow> (w, bad_parameters c)
      | Some req \<Rightarrow> (case svc_CreateProduct ev cd now req w of
            (w1, Inl err) \<Rightarrow> (w1, Error_response c 400 (Err_Text [] err))
          | (w1, Inr x) \<Rightarrow> (w1, SuccessWithMessage c ''created'' (Some x))))"

text \<open>\<open>param\<close> is the \<^verbatim>\<open>:id\<close> of the path.\<close>

definition ctl_UpdateProduct ::
  "('r, 'd, 'q) env \<Rightarrow> spec_codec \<Rightarrow> int \<Rightarrow> gin_context \<Rightarrow> string \<Rightarrow> update_product_request option \<Rightarrow> ('r, 'd, 'q) world
     \<Rightarrow> ('r, 'd, 'q) world \<times> unit response" where
  "ctl_UpdateProduct ev cd now c param body w =
     (case Atoi param of
        None \<Rightarrow> (w, BadRequest c (Lit ''bad product id''))
      | Some i \<Rightarrow> (case body of
            None \<Rightarrow> (w, bad_parameters c)
          | Some req \<Rightarrow> (case svc_UpdateProduct ev cd now i req w of
                (w1, Inl err) \<Rightarrow> (w1, Error_response c 400 (Err_Text [] err))
              | (w1, Inr _) \<Rightarrow> (w1, SuccessWithMessage c ''updated'' None))))"

text \<open>
  \<^verbatim>\<open>page, _ := strconv.Atoi(c.DefaultQuery(k, d))\<close>: 0 when it is not a number, the nearest
  bound when it does not fit.
\<close>

definition default_query_int :: "(string \<rightharpoonup> string) \<Rightarrow> string \<Rightarrow> string \<Rightarrow> int" where
  "default_query_int query k d = (case parse_int (case query k of None \<Rightarrow> d | Some s \<Rightarrow> s) of
      None \<Rightarrow> 0
    | Some n \<Rightarrow> max (- (2 ^ 63)) (min (2 ^ 63 - 1) n))"

definition ctl_GetProductList ::
  "('r, 'd, 'q) env \<Rightarrow> gin_context \<Rightarrow> (string \<rightharpoonup> string) \<Rightarrow> ('r, 'd, 'q) world \<Rightarrow> ('r, 'd, 'q) world \<times> product page response" where
  "ctl_GetProductList ev c query w =
     (let page = default_query_int query ''page'' ''1'';
          pageSize = ClampPageSize (default_query_int query ''page_size'' ''10'')
      in case svc_GetProductList ev page pageSize w of
           (w1, Inl err) \<Rightarrow> (w1, InternalError c (Err_Text [] err))
         | (w1, Inr r) \<Rightarrow> (w1, page_reply c page pageSize r))"

definition ctl_GetActiveProducts ::
  "('r, 'd, 'q) env \<Rightarrow> spec_codec \<Rightarrow> int \<Rightarrow> gin_context \<Rightarrow> ('r, 'd, 'q) world \<Rightarrow> ('r, 'd, 'q) world \<times> product_detail list response" where
  "ctl_GetActiveProducts ev cd now c w =
     (case svc_GetActiveProductsWithSKU ev cd now w of
        (w1, Inl err) \<Rightarrow> (w1, InternalError c (Err_Text [] err))
      | (w1, Inr xs) \<Rightarrow> (w1, Success c xs))"

definition ctl_GetProductDetail ::
  "('r, 'd, 'q) env \<Rightarrow> spec_codec \<Rightarrow> gin_context \<Rightarrow> string \<Rightarrow> ('r, 'd, 'q) world \<Rightarrow> ('r, 'd, 'q) world \<times> product_detail response" where
  "ctl_GetProductDetail ev cd c param w =
     (case Atoi param of
        None \<Rightarrow> (w, BadRequest c (Lit ''bad product id''))
      | Some i \<Rightarrow> (case svc_GetProductDetail ev cd i w of
            (w1, Inl err) \<Rightarrow> (w1, NotFound c (Lit ''product does not exist''))
          | (w1, Inr x) \<Rightarrow> (w1, Success c x)))"

text \<open>gin validates the elements of a bound slice, too.\<close>

definition ctl_BatchImportProducts ::
  "('r, 'd, 'q) env \<Rightarrow> spec_codec \<Rightarrow> int \<Rightarrow> gin_context \<Rightarrow> create_product_request list option \<Rightarrow> ('r, 'd, 'q) world
     \<Rightarrow> ('r, 'd, 'q) world \<times> (int \<times> int \<times> int) response" where
  "ctl_BatchImportProducts ev cd now c body w =
     (case bind_json (list_all valid_create_product) body of
        None \<Rightarrow> (w, bad_parameters c)
      | Some reqs \<Rightarrow>
          if length reqs = 0 then (w, BadRequest c (Lit ''nothing to import''))
          else (case svc_BatchImportProducts ev cd now reqs 0 0 w of
                  (w1, successCount, failCount) \<Rightarrow>
                    (w1, SuccessWithMessage c ''imported'' (Some (successCount, failCount, int (length reqs))))))"

text \<open>\<^verbatim>\<open>filepath.Ext\<close>: from the last dot of the last path element on; empty without one.\<close>

definition filepath_Ext :: "string \<Rightarrow> string" where
  "filepath_Ext path = (let base = rev (takeWhile (\<lambda>ch. ch \<noteq> CHR ''/'') (rev path)) in
     if CHR ''.'' \<in> set base then CHR ''.'' # rev (takeWhile (\<lambda>ch. ch \<noteq> CHR ''.'') (rev base)) else [])"

definition allowedExts :: "string list" where
  "allowedExts = [''.jpg'', ''.jpeg'', ''.png'', ''.gif'', ''.webp'']"

definition upload_name :: "int \<Rightarrow> string \<Rightarrow> string \<Rightarrow> string" where
  "upload_name unixNano traceID ext = fmt_d unixNano @ ''_'' @ take 8 traceID @ ext"

text \<open>
  An uploaded file is its size and name; \<open>mkdir\<close>, \<open>open_src\<close>, \<open>create\<close> and \<open>copy\<close> say which steps on
  the file system succeed. The answer carries the URL and the name of the stored file.
\<close>

definition ctl_UploadImage ::
  "int \<Rightarrow> string \<Rightarrow> gin_context \<Rightarrow> (int \<times> string) option \<Rightarrow> bool \<Rightarrow> bool \<Rightarrow> bool \<Rightarrow> bool \<Rightarrow> (string \<times> string) response" where
  "ctl_UploadImage unixNano traceID c file mkdir open_src create copy =
     (case file of
        None \<Rightarrow> BadRequest c (Lit ''choose a file'')
      | Some (sz, filename) \<Rightarrow>
          if sz > 5 * 1024 * 1024 then BadRequest c (Lit ''the file is larger than 5 MB'')
          else let ext = filepath_Ext filename in
            if ext \<notin> set allowedExts then BadRequest c (Lit ''the format is not supported'')
            else if \<not> mkdir then InternalError c (Lit ''creating the directory failed'')
            else let newFileName = upload_name unixNano traceID ext in
              if \<not> open_src then InternalError c (Lit ''reading the file failed'')
              else if \<not> create then InternalError c (Lit ''creating the file failed'')
              else if \<not> copy then InternalError c (Lit ''saving the file failed'')
              else SuccessWithMessage c ''uploaded'' (Some (''/uploads/'' @ newFileName, newFileName)))"

section \<open>Activities\<close>

definition ctl_GetActivity ::
  "('r, 'd, 'q) env \<Rightarrow> int \<Rightarrow> gin_context \<Rightarrow> ('r, 'd, 'q) world \<Rightarrow> ('r, 'd, 'q) world \<times> (product list \<times> int) response" where
  "ctl_GetActivity ev now c w =
     (case act_GetActiveProducts ev now w of
        (w1, Inl err) \<Rightarrow> (w1, InternalError c (Err_Text ''reading the activity failed: '' err))
      | (w1, Inr xs) \<Rightarrow> (w1, Success c (xs, int (length xs))))"

record update_activity_request =
  ua_product_id :: int
  ua_status :: int

text \<open>\<^verbatim>\<open>required\<close> refuses 0, so of \<^verbatim>\<open>oneof=0 1\<close> only 1 is left.\<close>

definition valid_update_activity :: "update_activity_request \<Rightarrow> bool" where
  "valid_update_activity q \<longleftrightarrow> ua_product_id q \<noteq> 0 \<and> 0 < ua_product_id q \<and> ua_status q \<noteq> 0 \<and> ua_status q \<in> {0, 1}"

definition ctl_UpdateActivity ::
  "('r, 'd, 'q) env \<Rightarrow> int \<Rightarrow> gin_context \<Rightarrow> update_activity_request option \<Rightarrow> ('r, 'd, 'q) world
     \<Rightarrow> ('r, 'd, 'q) world \<times> (int \<times> int) response" where
  "ctl_UpdateActivity ev now c body w =
     (case bind_json valid_update_activity body of
        None \<Rightarrow> (w, bad_parameters c)
      | Some req \<Rightarrow> (case svc_UpdateActivity ev now (ua_product_id req) (ua_status req) w of
            (w1, Inl err) \<Rightarrow> (w1, Error_response c 400 (Err_Text [] err))
          | (w1, Inr _) \<Rightarrow> (w1, SuccessWithMessage c
              (''activity updated: product '' @ (if ua_status req = 1 then ''on sale'' else ''off sale''))
              (Some (ua_product_id req, ua_status req)))))"

definition ctl_CacheWarmUp ::
  "('r, 'd, 'q) env \<Rightarrow> int \<Rightarrow> gin_context \<Rightarrow> ('r, 'd, 'q) world \<Rightarrow> ('r, 'd, 'q) world \<times> int response" where
  "ctl_CacheWarmUp ev now c w =
     (case svc_CacheWarmUp ev now w of
        (w1, Inl err) \<Rightarrow> (w1, InternalError c (Err_Text ''warming the caches failed: '' err))
      | (w1, Inr n) \<Rightarrow> (w1, SuccessWithMessage c ''caches warmed'' (Some n)))"

definition ctl_SaveActivityConfig ::
  "('r, 'd, 'q) env \<Rightarrow> (string \<Rightarrow> int) \<Rightarrow> int \<Rightarrow> gin_context \<Rightarrow> activity_config_request option \<Rightarrow> ('r, 'd, 'q) world
     \<Rightarrow> ('r, 'd, 'q) world \<times> int response" where
  "ctl_SaveActivityConfig ev db_time now c body w =
     (case bind_json valid_activity_config body of
        None \<Rightarrow> (w, bad_parameters c)
      | Some req \<Rightarrow> (case svc_SaveActivityConfig ev db_time now req w of
            (w1, Inl err) \<Rightarrow> (w1, Error_response c 400 (Err_Text [] err))
          | (w1, Inr _) \<Rightarrow> (w1, SuccessWithMessage c ''activity saved, in effect at once'' (Some (ac_product_id req)))))"

definition ctl_GetAllProducts ::
  "('r, 'd, 'q) env \<Rightarrow> int \<Rightarrow> gin_context \<Rightarrow> ('r, 'd, 'q) world \<Rightarrow> ('r, 'd, 'q) world \<times> product page response" where
  "ctl_GetAllProducts ev now c w =
     (let page = 1; pageSize = ClampPageSize 100
      in case act_GetActiveProducts ev now w of
           (w1, Inl err) \<Rightarrow> (w1, InternalError c (Err_Text ''reading the products failed: '' err))
         | (w1, Inr xs) \<Rightarrow>
             (let ntotal = int (length xs); start = (page - 1) * pageSize in
              if start \<ge> ntotal then (w1, page_reply c page pageSize ([], ntotal))
              else let end' = min (start + pageSize) ntotal
                   in (w1, page_reply c page pageSize (take (nat (end' - start)) (drop (nat start) xs), ntotal))))"

section \<open>Banned values, audit log, flow rules\<close>

record blacklist_request =
  bq_type :: string
  bq_value :: string
  bq_reason :: string

definition valid_blacklist :: "blacklist_request \<Rightarrow> bool" where
  "valid_blacklist q \<longleftrightarrow> bq_type q \<in> {''ip'', ''user''} \<and> bq_value q \<noteq> [] \<and> length (bq_value q) \<le> 256 \<and>
     length (bq_reason q) \<le> 512"

definition ctl_GetBlacklist ::
  "('r, 'd, 'q) env \<Rightarrow> gin_context \<Rightarrow> ('r, 'd, 'q) world \<Rightarrow> ('r, 'd, 'q) world \<times> blacklist list response" where
  "ctl_GetBlacklist ev c w = (case svc_GetBlacklist ev w of
      (w1, Inl err) \<Rightarrow> (w1, InternalError c (Err_Text [] err))
    | (w1, Inr xs) \<Rightarrow> (w1, Success c xs))"

definition ctl_AddBlacklist ::
  "('r, 'd, 'q) env \<Rightarrow> int \<Rightarrow> gin_context \<Rightarrow> blacklist_request option \<Rightarrow> ('r, 'd, 'q) world \<Rightarrow> ('r, 'd, 'q) world \<times> unit response" where
  "ctl_AddBlacklist ev now c body w =
     (case bind_json valid_blacklist body of
        None \<Rightarrow> (w, bad_parameters c)
      | Some q \<Rightarrow> (case svc_AddBlacklist ev now (bq_type q) (bq_value q) (bq_reason q) w of
            (w1, Inl err) \<Rightarrow> (w1, Error_response c 400 (Err_Text [] err))
          | (w1, Inr _) \<Rightarrow> (w1, SuccessWithMessage c ''added'' None)))"

definition ctl_RemoveBlacklist ::
  "('r, 'd, 'q) env \<Rightarrow> int \<Rightarrow> gin_context \<Rightarrow> string \<Rightarrow> ('r, 'd, 'q) world \<Rightarrow> ('r, 'd, 'q) world \<times> unit response" where
  "ctl_RemoveBlacklist ev now c param w =
     (case Atoi param of
        None \<Rightarrow> (w, bad_parameters c)
      | Some i \<Rightarrow> (case svc_RemoveBlacklist ev now i w of
            (w1, Inl err) \<Rightarrow> (w1, Error_response c 400 (Err_Text [] err))
          | (w1, Inr _) \<Rightarrow> (w1, SuccessWithMessage c ''removed'' None)))"

definition ctl_CheckBlacklist ::
  "('r, 'd, 'q) env \<Rightarrow> gin_context \<Rightarrow> string \<Rightarrow> string \<Rightarrow> ('r, 'd, 'q) world \<Rightarrow> ('r, 'd, 'q) world \<times> bool response" where
  "ctl_CheckBlacklist ev c typ v w =
     (if typ = [] \<or> v = [] then (w, BadRequest c (Lit ''bad parameters''))
      else case svc_CheckBlacklist ev typ v w of
          (w1, Inl err) \<Rightarrow> (w1, InternalError c (Err_Text [] err))
        | (w1, Inr e) \<Rightarrow> (w1, Success c e))"

definition ctl_GetAuditLogs ::
  "('r, 'd, 'q) env \<Rightarrow> gin_context \<Rightarrow> (string \<rightharpoonup> string) \<Rightarrow> ('r, 'd, 'q) world \<Rightarrow> ('r, 'd, 'q) world \<times> audit_log page response" where
  "ctl_GetAuditLogs ev c query w =
     (let page = query_int query ''page'' 1; pageSize = ClampPageSize (query_int query ''page_size'' 10);
          operatorID = query_int query ''operator_id'' 0; action = (case query ''action'' of None \<Rightarrow> [] | Some a \<Rightarrow> a)
      in case svc_GetAuditLogs ev page pageSize operatorID action w of
           (w1, Inl err) \<Rightarrow> (w1, InternalError c (Err_Text [] err))
         | (w1, Inr r) \<Rightarrow> (w1, page_reply c page pageSize r))"

definition WriteAuditLog ::
  "('r, 'd, 'q) env \<Rightarrow> int \<Rightarrow> int \<Rightarrow> string \<Rightarrow> string \<Rightarrow> string \<Rightarrow> string \<Rightarrow> string \<Rightarrow> ('r, 'd, 'q) world \<Rightarrow> ('r, 'd, 'q) world" where
  "WriteAuditLog ev now operatorID operatorName action component detail clientIP w =
     fst (svc_CreateAuditLog ev now \<lparr>a_id = 0, a_user_id = operatorID, a_username = operatorName, a_action = action,
       a_module = component, a_target_id = [], a_detail = detail, a_client_ip = clientIP, a_trace_id = [], a_created_at = 0\<rparr> w)"

definition valid_rule_request :: "sentinel_rule_request \<Rightarrow> bool" where
  "valid_rule_request q \<longleftrightarrow> sx_resource q \<noteq> [] \<and> 0 < sx_count q"

definition ctl_GetRules :: "gin_context \<Rightarrow> sentinel_service \<Rightarrow> sentinel_service \<times> sentinel_rule list response" where
  "ctl_GetRules c s = (s, Success c (svc_GetRules s))"

definition ctl_AddRule :: "gin_context \<Rightarrow> sentinel_rule_request option \<Rightarrow> sentinel_service \<Rightarrow> sentinel_service \<times> sentinel_rule response" where
  "ctl_AddRule c body s = (case bind_json valid_rule_request body of
      None \<Rightarrow> (s, bad_parameters c)
    | Some q \<Rightarrow> (case svc_AddRule q s of (s1, rule) \<Rightarrow> (s1, SuccessWithMessage c ''added'' (Some rule))))"

definition ctl_DeleteRule :: "gin_context \<Rightarrow> string \<Rightarrow> sentinel_service \<Rightarrow> sentinel_service \<times> unit response" where
  "ctl_DeleteRule c param s = (case Atoi param of
      None \<Rightarrow> (s, bad_parameters c)
    | Some i \<Rightarrow> (case svc_DeleteRule i s of
          (s1, found) \<Rightarrow> if \<not> found then (s1, NotFound c (Lit ''rule does not exist''))
                          else (s1, SuccessWithMessage c ''deleted'' None)))"

definition ctl_UpdateRule ::
  "gin_context \<Rightarrow> string \<Rightarrow> sentinel_rule_request option \<Rightarrow> sentinel_service \<Rightarrow> sentinel_service \<times> sentinel_rule response" where
  "ctl_UpdateRule c param body s = (case Atoi param of
      None \<Rightarrow> (s, bad_parameters c)
    | Some i \<Rightarrow> (case bind_json valid_rule_request body of
          None \<Rightarrow> (s, bad_parameters c)
        | Some q \<Rightarrow> (case svc_UpdateRule i q s of
              (s1, None) \<Rightarrow> (s1, NotFound c (Lit ''rule does not exist''))
            | (s1, Some rule) \<Rightarrow> (s1, SuccessWithMessage c ''updated'' (Some rule)))))"

section \<open>The routes\<close>

text \<open>Middlewares in order; the first that ends the request answers it.\<close>

fun run_chain :: "(gin_context \<Rightarrow> gin_context \<times> passage) list \<Rightarrow> gin_context \<Rightarrow> gin_context \<times> passage" where
  "run_chain [] c = (c, Next)"
| "run_chain (m # ms) c = (case m c of (c1, Next) \<Rightarrow> run_chain ms c1 | (c1, Abort code) \<Rightarrow> (c1, Abort code))"

text \<open>
  What the router is built with: configuration values, the MAC of the signatures, the tokens and
  the list of revoked tokens.
\<close>

record router =
  ro_performance :: bool
  ro_cors :: cors_config
  ro_max_body :: int
  ro_hmac :: "string \<Rightarrow> string \<Rightarrow> string"
  ro_sign_secret :: string
  ro_crypto :: crypto
  ro_jwt :: jwt_manager
  ro_revoked :: token_blacklist

text \<open>
  The middlewares of a route of the group \<^verbatim>\<open>/api/v1\<close> that can change or end a request; \<open>now\<close> is
  the clock in milliseconds, \<open>generated\<close> a new trace id.
\<close>

definition api_chain :: "router \<Rightarrow> int \<Rightarrow> string \<Rightarrow> http_request \<Rightarrow> (gin_context \<Rightarrow> gin_context \<times> passage) list" where
  "api_chain ro now generated r =
     (if ro_performance ro then [] else [TraceIDMiddleware generated r, CORSMiddleware (ro_cors ro) r]) @
     [BodyLimitMiddleware (ro_max_body ro) r,
      SignMiddleware (ro_hmac ro) (ro_sign_secret ro) (word_of_int (now div 1000)) r,
      TokenBlacklistMiddleware (ro_revoked ro) r,
      AuthMiddleware (ro_crypto ro) (ro_jwt ro) now r]"

definition fresh_context :: gin_context where
  "fresh_context = \<lparr>gc_user_id = None, gc_username = None, gc_role = None, gc_trace_id = None, gc_headers = Map.empty\<rparr>"

end
