(* ===== verification/Seckill_Api.thy ===== *)
theory Seckill_Api
  imports Http_Api Detector Ws_Hub
begin

text \<open>
  The handlers of \<^verbatim>\<open>controller/seckill_controller.go\<close>: the flash-sale request with all its guards
  (flow control, path token, captcha, hot product, anomaly detection, request coalescing), the
  purchase counters, path tokens, captchas and the health check. The handler joins the world of
  the services with the anomaly detector, the WebSocket hub and flow control.
\<close>

section \<open>The site\<close>

record ('r, 'd, 'q, 'f, 'l) site =
  st_world :: "('r, 'd, 'q) world"
  st_detector :: "'f anomaly_detector"
  st_hub :: "(string \<times> int) hub"
  st_sentinel :: "'l sentinel_state"

text \<open>The message pushed after a success carries the order number and the product.\<close>

record ('r, 'd, 'q, 'f, 'l, 'e) site_env =
  se_env :: "('r, 'd, 'q) env"
  se_floats :: "'f floats"
  se_lib :: "('l, 'e) sentinel_lib"
  se_marshal :: "(string \<times> int) push_message \<Rightarrow> string option"
  se_spec :: "string \<Rightarrow> (string \<times> string) list option"

text \<open>
  The clock readings of one request: of the service in milliseconds, of the two calls of the
  detector (request time, ban check, new ban) in nanoseconds, and of the push.
\<close>

record request_clock =
  ck_now :: int
  ck_later :: int
  ck_first :: "int \<times> int \<times> int"
  ck_second :: "int \<times> int \<times> int"
  ck_push :: int

definition on_world ::
  "(('r, 'd, 'q) world \<Rightarrow> ('r, 'd, 'q) world \<times> 'a) \<Rightarrow> ('r, 'd, 'q, 'f, 'l) site \<Rightarrow> ('r, 'd, 'q, 'f, 'l) site \<times> 'a" where
  "on_world f s = (case f (st_world s) of (w, a) \<Rightarrow> (s\<lparr>st_world := w\<rparr>, a))"

definition on_sentinel ::
  "('l sentinel_state \<Rightarrow> 'l sentinel_state \<times> 'a) \<Rightarrow> ('r, 'd, 'q, 'f, 'l) site \<Rightarrow> ('r, 'd, 'q, 'f, 'l) site \<times> 'a" where
  "on_sentinel f s = (case f (st_sentinel s) of (l, a) \<Rightarrow> (s\<lparr>st_sentinel := l\<rparr>, a))"

definition leave ::
  "('r, 'd, 'q, 'f, 'l, 'e) site_env \<Rightarrow> 'e option \<Rightarrow> ('r, 'd, 'q, 'f, 'l) site \<Rightarrow> ('r, 'd, 'q, 'f, 'l) site" where
  "leave se e s = s\<lparr>st_sentinel := exit_entry (se_lib se) e (st_sentinel s)\<rparr>"

section \<open>The guards\<close>

definition admin_role :: "string \<Rightarrow> bool" where
  "admin_role r \<longleftrightarrow> r = ''admin'' \<or> r = ''super_admin''"

text \<open>The role of the token, or else the role in the database.\<close>

definition seckill_is_admin ::
  "('r, 'd, 'q) env \<Rightarrow> gin_context \<Rightarrow> ('r, 'd, 'q) world \<Rightarrow> ('r, 'd, 'q) world \<times> bool" where
  "seckill_is_admin ev c w =
     (if (case gc_role c of None \<Rightarrow> False | Some r \<Rightarrow> admin_role r) then (w, True)
      else case gc_user_id c of
          None \<Rightarrow> (w, False)
        | Some uid \<Rightarrow> (case on_db (GetUserByID (ev_db ev) uid) w of
              (w1, Inl _) \<Rightarrow> (w1, False)
            | (w1, Inr u) \<Rightarrow> (w1, admin_role (u_role u))))"

definition too_busy :: "gin_context \<Rightarrow> 'a response" where
  "too_busy c = Error_response c 429 (Lit ''too many buyers, try again later'')"

text \<open>Path token (not for administrators) and captcha; \<open>None\<close> is a request that passes.\<close>

definition seckill_tickets ::
  "'r redis \<Rightarrow> bool \<Rightarrow> gin_context \<Rightarrow> int \<Rightarrow> seckill_request \<Rightarrow> 'r \<Rightarrow> 'r \<times> 'a response option" where
  "seckill_tickets call isAdmin c uid req s =
     (let (s1, path_ok) = (if isAdmin then (s, True)
            else case GetAndVerifySeckillPath call uid (sq_product_id req) (sq_path_token req) s of
                (s', Inl _) \<Rightarrow> (s', False) | (s', Inr valid) \<Rightarrow> (s', valid))
      in if \<not> path_ok then (s1, Some (Error_response c 400 (Lit ''the address of the sale has expired'')))
         else case sq_captcha_code req of
             None \<Rightarrow> (s1, Some (Error_response c 400 (Lit ''solve the captcha first'')))
           | Some code \<Rightarrow>
               if sq_captcha_id req = [] then (s1, Some (Error_response c 400 (Lit ''solve the captcha first'')))
               else (case GetAndVerifyCaptcha call (sq_captcha_id req) code s1 of
                       (s2, Inr True) \<Rightarrow> (s2, None)
                     | (s2, _) \<Rightarrow> (s2, Some (Error_response c 400 (Lit ''wrong or expired captcha'')))))"

section \<open>After the purchase\<close>

text \<open>The response for each business error.\<close>

definition seckill_error :: "gin_context \<Rightarrow> go_error \<Rightarrow> 'a response" where
  "seckill_error c err =
     (if errors_is err ErrStockInsufficient then Error_response c 400 (Lit ''out of stock'')
      else if errors_is err ErrRedisDown then Error_response c 503 (Lit ''Redis is down'')
      else if errors_is err ErrMQDown then Error_response c 503 (Lit ''the message queue is down'')
      else if errors_is err ErrProductOffline then Error_response c 400 (Lit ''the product is off sale'')
      else if errors_is err ErrNotInSeckillTime then Error_response c 400 (Lit ''not in the time of the sale'')
      else if errors_is err ErrAlreadyPurchased then Error_response c 400 (Err_Text [] err)
      else if errors_is err ErrExceedLimit then Error_response c 400 (Err_Text [] err)
      else if errors_is err ErrDuplicateSubmit then Error_response c 400 (Err_Text [] err)
      else if errors_is err ErrSeckillOverloaded then too_busy c
      else Error_response c 500 (Err_Text [] err))"

text \<open>The requests of a site are steps one after the other: no other call comes between the update and
  the reading of the averages.\<close>

definition record_behavior ::
  "'f floats \<Rightarrow> int \<Rightarrow> bool \<Rightarrow> string \<Rightarrow> int \<times> int \<times> int \<Rightarrow> ('r, 'd, 'q, 'f, 'l) site
     \<Rightarrow> ('r, 'd, 'q, 'f, 'l) site \<times> 'f anomaly_result" where
  "record_behavior fl uid success ip clocks s =
     (let (requestTime, now1, now2) = clocks
      in case Record fl read_now uid success ip requestTime now1 now2 (st_detector s) of (ad, r) \<Rightarrow> (s\<lparr>st_detector := ad\<rparr>, r))"

text \<open>\<^verbatim>\<open>PushToUser\<close> without another step in between.\<close>

definition push_now :: "('a push_message \<Rightarrow> string option) \<Rightarrow> int \<Rightarrow> 'a push_message \<Rightarrow> 'a hub \<Rightarrow> 'a hub" where
  "push_now marshal userID msg h =
     (case drop (length (hb_pushes h)) (hb_pushes (PushToUser_lookup marshal userID msg h)) of
        [] \<Rightarrow> h | p # _ \<Rightarrow> PushToUser_send p h)"

definition seckill_accepted ::
  "('r, 'd, 'q, 'f, 'l, 'e) site_env \<Rightarrow> request_clock \<Rightarrow> bool \<Rightarrow> gin_context \<Rightarrow> string \<Rightarrow> int \<Rightarrow> seckill_request
     \<Rightarrow> seckill_response \<Rightarrow> ('r, 'd, 'q, 'f, 'l) site \<Rightarrow> ('r, 'd, 'q, 'f, 'l) site \<times> seckill_response response" where
  "seckill_accepted se ck isAdmin c ip uid req resp s =
     (let s1 = (if isAdmin then s else fst (record_behavior (se_floats se) uid True ip (ck_second ck) s));
          msg = \<lparr>pm_type = MsgSeckillResult, pm_data = (sr_order_no resp, sq_product_id req), pm_timestamp = ck_push ck\<rparr>
      in (s1\<lparr>st_hub := push_now (se_marshal se) uid msg (st_hub s1)\<rparr>, Success c resp))"

text \<open>
  The coalesced call: the requests of one user for one product that are in flight together share
  one execution. \<open>flight\<close> is the result of the call this request joins; \<open>None\<close> when it leads and
  runs the service itself. A panic of the service leaves the handler (\<open>None\<close>).
\<close>

definition merge_key :: "int \<Rightarrow> int \<Rightarrow> string" where
  "merge_key uid productID = ''seckill:'' @ fmt_d uid @ '':'' @ fmt_d productID"

definition args_of_request :: "gin_context \<Rightarrow> string \<Rightarrow> int \<Rightarrow> seckill_request \<Rightarrow> seckill_args" where
  "args_of_request c ip uid req = \<lparr>sa_user = uid, sa_product = sq_product_id req, sa_quantity = sq_quantity req,
     sa_sku = sq_sku_id req, sa_idem = sq_idempotent_key req, sa_ip = ip, sa_trace = GetTraceID c\<rparr>"

definition seckill_merged ::
  "('r, 'd, 'q, 'f, 'l, 'e) site_env \<Rightarrow> request_clock \<Rightarrow> ('g \<Rightarrow> 'g \<times> string result) \<Rightarrow> seckill_response result option
     \<Rightarrow> seckill_args \<Rightarrow> 'g \<Rightarrow> ('r, 'd, 'q) world \<Rightarrow> 'g \<times> ('r, 'd, 'q) world \<times> seckill_response result" where
  "seckill_merged se ck gen flight a g w = (case flight of
      Some r \<Rightarrow> (g, w, r)
    | None \<Rightarrow> svc_ExecuteSeckill (se_env se) (se_spec se) gen (ck_now ck) (ck_later ck) a g w)"

definition seckill_execute ::
  "('r, 'd, 'q, 'f, 'l, 'e) site_env \<Rightarrow> request_clock \<Rightarrow> ('g \<Rightarrow> 'g \<times> string result) \<Rightarrow> seckill_response result option
     \<Rightarrow> bool \<Rightarrow> gin_context \<Rightarrow> string \<Rightarrow> int \<Rightarrow> seckill_request \<Rightarrow> 'g \<Rightarrow> ('r, 'd, 'q, 'f, 'l) site
     \<Rightarrow> 'g \<times> ('r, 'd, 'q, 'f, 'l) site \<times> seckill_response response option" where
  "seckill_execute se ck gen flight isAdmin c ip uid req g s =
     (case seckill_merged se ck gen flight (args_of_request c ip uid req) g (st_world s) of
        (g1, w1, Inl err) \<Rightarrow>
          (g1, s\<lparr>st_world := w1\<rparr>, if err = GoPanic then None else Some (seckill_error c err))
      | (g1, w1, Inr resp) \<Rightarrow>
          (case seckill_accepted se ck isAdmin c ip uid req resp (s\<lparr>st_world := w1\<rparr>) of (s2, a) \<Rightarrow> (g1, s2, Some a)))"

section \<open>The request\<close>

text \<open>Hot product and anomaly check, for users who are not administrators.\<close>

definition seckill_screened ::
  "('r, 'd, 'q, 'f, 'l, 'e) site_env \<Rightarrow> request_clock \<Rightarrow> ('g \<Rightarrow> 'g \<times> string result) \<Rightarrow> seckill_response result option
     \<Rightarrow> bool \<Rightarrow> gin_context \<Rightarrow> string \<Rightarrow> int \<Rightarrow> seckill_request \<Rightarrow> 'g \<Rightarrow> ('r, 'd, 'q, 'f, 'l) site
     \<Rightarrow> 'g \<times> ('r, 'd, 'q, 'f, 'l) site \<times> seckill_response response option" where
  "seckill_screened se ck gen flight isAdmin c ip uid req g s =
     (if isAdmin then seckill_execute se ck gen flight isAdmin c ip uid req g s
      else case on_sentinel (EntryWithArgs (se_lib se) ''seckill_product'' [sq_product_id req]) s of
          (s1, Inl _) \<Rightarrow> (g, fst (on_world (\<lambda>w. (on_mon IncSentinelReject w, ())) s1), Some (too_busy c))
        | (s1, Inr hotEntry) \<Rightarrow>
            (case record_behavior (se_floats se) uid False ip (ck_first ck) s1 of
               (s2, r) \<Rightarrow>
                 if ar_is_anomaly r \<and> 70 \<le> ar_score r
                 then (g, leave se hotEntry s2, Some (Error_response c 429 (Lit ''abnormal behaviour, limited for a while'')))
                 else (case seckill_execute se ck gen flight isAdmin c ip uid req g s2 of
                         (g1, s3, a) \<Rightarrow> (g1, leave se hotEntry s3, a))))"

definition seckill_checked ::
  "('r, 'd, 'q, 'f, 'l, 'e) site_env \<Rightarrow> request_clock \<Rightarrow> ('g \<Rightarrow> 'g \<times> string result) \<Rightarrow> seckill_response result option
     \<Rightarrow> bool \<Rightarrow> gin_context \<Rightarrow> string \<Rightarrow> seckill_request option \<Rightarrow> 'g \<Rightarrow> ('r, 'd, 'q, 'f, 'l) site
     \<Rightarrow> 'g \<times> ('r, 'd, 'q, 'f, 'l) site \<times> seckill_response response option" where
  "seckill_checked se ck gen flight isAdmin c ip body g s =
     (case bind_json valid_seckill body of
        None \<Rightarrow> (g, s, Some (bad_parameters c))
      | Some req \<Rightarrow> (case gc_user_id c of
            None \<Rightarrow> (g, s, Some (Unauthorized c (Lit ''log in first'')))
          | Some uid \<Rightarrow>
              (case on_world (on_redis (seckill_tickets (ev_call (se_env se)) isAdmin c uid req)) s of
                 (s1, Some refused) \<Rightarrow> (g, s1, Some refused)
               | (s1, None) \<Rightarrow> seckill_screened se ck gen flight isAdmin c ip uid req g s1)))"

definition ctl_Seckill ::
  "('r, 'd, 'q, 'f, 'l, 'e) site_env \<Rightarrow> request_clock \<Rightarrow> ('g \<Rightarrow> 'g \<times> string result) \<Rightarrow> seckill_response result option
     \<Rightarrow> gin_context \<Rightarrow> string \<Rightarrow> seckill_request option \<Rightarrow> 'g \<Rightarrow> ('r, 'd, 'q, 'f, 'l) site
     \<Rightarrow> 'g \<times> ('r, 'd, 'q, 'f, 'l) site \<times> seckill_response response option" where
  "ctl_Seckill se ck gen flight c ip body g s =
     (case on_world (seckill_is_admin (se_env se) c) s of
        (s1, isAdmin) \<Rightarrow>
          if isAdmin then seckill_checked se ck gen flight isAdmin c ip body g s1
          else (case on_sentinel (Entry (se_lib se) ''seckill_api'') s1 of
                  (s2, Inl _) \<Rightarrow> (g, fst (on_world (\<lambda>w. (on_mon IncSentinelReject w, ())) s2), Some (too_busy c))
                | (s2, Inr entry) \<Rightarrow>
                    (case seckill_checked se ck gen flight isAdmin c ip body g s2 of
                       (g1, s3, a) \<Rightarrow> (g1, leave se entry s3, a))))"

section \<open>Purchase counters\<close>

text \<open>\<^verbatim>\<open>strings.Split(ids, ",")\<close>.\<close>

fun split_comma :: "string \<Rightarrow> string list" where
  "split_comma [] = [[]]"
| "split_comma (ch # s) = (if ch = CHR '','' then [] # split_comma s
     else (ch # hd (split_comma s)) # tl (split_comma s))"

fun parse_ids :: "string list \<Rightarrow> int list option" where
  "parse_ids [] = Some []"
| "parse_ids (x # xs) =
     (let s = TrimSpace x in
      if s = [] then parse_ids xs
      else case Atoi s of
          None \<Rightarrow> None
        | Some i \<Rightarrow> if i \<le> 0 then None else map_option ((#) i) (parse_ids xs))"

text \<open>A counter that cannot be read counts as 0.\<close>

fun read_counts ::
  "'r redis \<Rightarrow> int \<Rightarrow> int list \<Rightarrow> (string \<rightharpoonup> int) \<Rightarrow> 'r \<Rightarrow> 'r \<times> (string \<rightharpoonup> int)" where
  "read_counts call uid [] result s = (s, result)"
| "read_counts call uid (pid # pids) result s =
     (case GetUserPurchaseCount call uid pid s of (s1, r) \<Rightarrow>
        read_counts call uid pids (result(fmt_d pid \<mapsto> (case r of Inl _ \<Rightarrow> 0 | Inr n \<Rightarrow> n))) s1)"

definition GetInt64_user :: "gin_context \<Rightarrow> int" where
  "GetInt64_user c = (case gc_user_id c of None \<Rightarrow> 0 | Some uid \<Rightarrow> uid)"

definition ctl_GetPurchasedCounts ::
  "'r redis \<Rightarrow> gin_context \<Rightarrow> (string \<rightharpoonup> string) \<Rightarrow> 'r \<Rightarrow> 'r \<times> (string \<rightharpoonup> int) response" where
  "ctl_GetPurchasedCounts call c query s =
     (let ids = (case query ''product_ids'' of None \<Rightarrow> [] | Some v \<Rightarrow> v) in
      case (if ids \<noteq> [] then parse_ids (split_comma ids) else Some []) of
        None \<Rightarrow> (s, BadRequest c (Lit ''bad product id''))
      | Some [] \<Rightarrow> (s, BadRequest c (Lit ''product_ids must not be empty''))
      | Some pids \<Rightarrow> (case read_counts call (GetInt64_user c) pids Map.empty s of
            (s1, result) \<Rightarrow> (s1, Success c result)))"

section \<open>Path tokens and captchas\<close>

definition parseProductID :: "(string \<rightharpoonup> string) \<Rightarrow> int result" where
  "parseProductID query = (case query ''product_id'' of
      None \<Rightarrow> Inl (Errf ''product_id is missing'')
    | Some pid \<Rightarrow>
        if pid = [] then Inl (Errf ''product_id is missing'')
        else case Sscanf_d pid of
            None \<Rightarrow> Inl (Errf ''product_id is invalid'')
          | Some i \<Rightarrow> if \<not> in_int64 i \<or> i \<le> 0 then Inl (Errf ''product_id is invalid'') else Inr i)"

text \<open>\<^verbatim>\<open>hex.EncodeToString\<close> of the bytes that \<^verbatim>\<open>crypto/rand\<close> returned.\<close>

definition hex_digit :: "nat \<Rightarrow> char" where
  "hex_digit n = char_of (if n < 10 then 48 + n else 87 + n)"

definition EncodeToString :: "8 word list \<Rightarrow> string" where
  "EncodeToString bs = concat (map (\<lambda>b. [hex_digit (unat b div 16), hex_digit (unat b mod 16)]) bs)"

definition ctl_GetSeckillPath ::
  "'r redis \<Rightarrow> 8 word list \<Rightarrow> gin_context \<Rightarrow> (string \<rightharpoonup> string) \<Rightarrow> 'r \<Rightarrow> 'r \<times> (string \<times> int) response" where
  "ctl_GetSeckillPath call random c query s =
     (case parseProductID query of
        Inl err \<Rightarrow> (s, BadRequest c (Err_Text [] err))
      | Inr productID \<Rightarrow>
          (let token = EncodeToString random in
           case SetSeckillPath call (GetInt64_user c) productID token 60000 s of
             (s1, Inl err) \<Rightarrow> (s1, Error_response c 500 (Lit ''system busy''))
           | (s1, Inr _) \<Rightarrow> (s1, Success c (token, 60))))"

text \<open>The expression and its answer, from three random bytes.\<close>

definition generateMathExpression :: "8 word \<Rightarrow> 8 word \<Rightarrow> 8 word \<Rightarrow> string \<times> int" where
  "generateMathExpression b1 b2 b3 =
     (let n1 = int (unat (b1 mod 9)) + 1; n2 = int (unat (b2 mod 9)) + 1;
          op = [CHR ''+'', CHR ''-''] ! (unat b3 mod 2);
          (m1, m2) = (if op = CHR ''-'' \<and> n2 > n1 then (n2, n1) else (n1, n2));
          expr = fmt_d m1 @ [op] @ fmt_d m2
      in (expr, if op = CHR ''+'' then m1 + m2 else m1 - m2))"

definition ctl_GetCaptcha ::
  "'r redis \<Rightarrow> 8 word \<times> 8 word \<times> 8 word \<Rightarrow> 8 word list \<Rightarrow> gin_context \<Rightarrow> (string \<rightharpoonup> string) \<Rightarrow> 'r
     \<Rightarrow> 'r \<times> (string \<times> int \<times> string) response" where
  "ctl_GetCaptcha call bytes random c query s =
     (case parseProductID query of
        Inl err \<Rightarrow> (s, BadRequest c (Err_Text [] err))
      | Inr _ \<Rightarrow>
          (let (b1, b2, b3) = bytes; (expr, answer) = generateMathExpression b1 b2 b3; captchaID = EncodeToString random in
           case SetCaptcha call captchaID answer 120000 s of
             (s1, Inl err) \<Rightarrow> (s1, Error_response c 500 (Lit ''system busy''))
           | (s1, Inr _) \<Rightarrow> (s1, Success c (expr, 120, captchaID))))"

section \<open>Health\<close>

text \<open>
  \<^verbatim>\<open>dao.Ping\<close>: \<open>db\<close> is whether the pool exists, whether it gives its connections, and the result of
  its ping.
\<close>

definition dao_Ping :: "bool \<Rightarrow> unit result \<Rightarrow> unit result \<Rightarrow> unit result" where
  "dao_Ping initialised get ping =
     (if \<not> initialised then Inl (Errf ''database not initialised'')
      else case get of Inl err \<Rightarrow> Inl (Wrapf ''no database connection'' err) | Inr _ \<Rightarrow> ping)"

record health_report =
  hl_status :: string
  hl_type :: string
  hl_deps :: "(string \<times> go_error option) list"

text \<open>The HTTP status and the report; \<open>None\<close> as an error is a server that is up.\<close>

definition Health ::
  "'r redis \<Rightarrow> 'b amqp \<Rightarrow> unit result \<Rightarrow> (string \<rightharpoonup> string) \<Rightarrow> 'b mq_state \<Rightarrow> 'r \<Rightarrow> 'r \<times> int \<times> health_report" where
  "Health call am mysql query q s =
     (let checkType = (case query ''type'' of None \<Rightarrow> ''liveness'' | Some t \<Rightarrow> t) in
      if checkType = ''liveness'' then (s, 200, \<lparr>hl_status = ''ok'', hl_type = ''liveness'', hl_deps = []\<rparr>)
      else case call s PING of (s1, r) \<Rightarrow>
        (let down = (\<lambda>x. case x of Inl err \<Rightarrow> Some err | Inr _ \<Rightarrow> None);
             deps = [(''mysql'', down mysql), (''redis'', down (reply_Err r)), (''rabbitmq'', down (mq_Ping am q))];
             healthy = list_all (\<lambda>(_, e). e = None) deps
         in (s1, if healthy then 200 else 503,
             \<lparr>hl_status = if healthy then ''ok'' else ''degraded'', hl_type = ''readiness'', hl_deps = deps\<rparr>)))"

end
