(* ===== verification/Routes.thy ===== *)
theory Routes
  imports Seckill_Api Notify
begin

text \<open>
  The router that \<^verbatim>\<open>cmd/main.go\<close> builds: the table of its routes with the guard of each, the
  middlewares every request passes, the recovery from a panic of a handler, and the alert it sends.
  Which route a request belongs to is decided by gin: a parameter, with the law
  that it answers a registered route of the method whose pattern matches the path.
\<close>

section \<open>The table\<close>

text \<open>
  \<open>Limited n t\<close> is \<open>LoginRateLimitMiddleware(n, t)\<close>, \<open>Authenticated\<close> is \<open>AuthMiddleware\<close>. A static
  directory registers GET and HEAD.
\<close>

datatype route_guard = Open | Limited int int | Authenticated

datatype route = Route (rt_method: string) (rt_path: string) (rt_guard: route_guard) (rt_handler: string)

definition open_routes :: "route list" where
  "open_routes =
    [Route ''GET'' ''/health'' Open ''Health'',
     Route ''GET'' ''/ws'' Authenticated ''HandleWebSocket'',
     Route ''GET'' ''/swagger/*any'' Open ''Swagger'',
     Route ''GET'' ''/uploads/*filepath'' Open ''Static'',
     Route ''HEAD'' ''/uploads/*filepath'' Open ''Static'',
     Route ''POST'' ''/api/v1/user/register'' (Limited 10 60) ''Register'',
     Route ''POST'' ''/api/v1/user/login'' (Limited 10 60) ''Login'',
     Route ''POST'' ''/api/v1/user/forgot-password'' (Limited 5 60) ''ForgotPassword'']"

definition api_routes :: "route list" where
  "api_routes =
    [Route ''POST'' ''/api/v1/product'' Authenticated ''CreateProduct'',
     Route ''PUT'' ''/api/v1/product/:id'' Authenticated ''UpdateProduct'',
     Route ''GET'' ''/api/v1/product/list'' Authenticated ''GetProductList'',
     Route ''GET'' ''/api/v1/product/active'' Authenticated ''GetActiveProducts'',
     Route ''GET'' ''/api/v1/product/:id'' Authenticated ''GetProductDetail'',
     Route ''POST'' ''/api/v1/product/batch'' Authenticated ''BatchImportProducts'',
     Route ''POST'' ''/api/v1/product/upload'' Authenticated ''UploadImage'',
     Route ''POST'' ''/api/v1/seckill'' Authenticated ''Seckill'',
     Route ''GET'' ''/api/v1/seckill/path'' Authenticated ''GetSeckillPath'',
     Route ''GET'' ''/api/v1/seckill/captcha'' Authenticated ''GetCaptcha'',
     Route ''GET'' ''/api/v1/seckill/purchased'' Authenticated ''GetPurchasedCounts'',
     Route ''GET'' ''/api/v1/order/list'' Authenticated ''GetUserOrders'',
     Route ''GET'' ''/api/v1/order/:order_no'' Authenticated ''GetOrderDetail'',
     Route ''POST'' ''/api/v1/order/cancel'' Authenticated ''CancelOrder'',
     Route ''POST'' ''/api/v1/order/pay-callback'' Authenticated ''PayCallback'',
     Route ''POST'' ''/api/v1/order/refund'' Authenticated ''Refund'',
     Route ''GET'' ''/api/v1/user/list'' Authenticated ''GetUserList'',
     Route ''PUT'' ''/api/v1/user/role'' Authenticated ''UpdateUserRole'',
     Route ''GET'' ''/api/v1/user/info'' Authenticated ''GetUserInfo'',
     Route ''PUT'' ''/api/v1/user/password'' Authenticated ''ChangePassword'',
     Route ''GET'' ''/api/v1/order/all'' Authenticated ''GetAllOrders'',
     Route ''GET'' ''/api/v1/order/export'' Authenticated ''ExportOrders'',
     Route ''POST'' ''/api/v1/order/import'' Authenticated ''ImportOrders'',
     Route ''GET'' ''/api/v1/order/recon-diff'' Authenticated ''GetReconDiff'',
     Route ''POST'' ''/api/v1/order/recon-fix'' Authenticated ''FixReconDiff'',
     Route ''GET'' ''/api/v1/sentinel/blacklist'' Authenticated ''GetBlacklist'',
     Route ''POST'' ''/api/v1/sentinel/blacklist'' Authenticated ''AddBlacklist'',
     Route ''DELETE'' ''/api/v1/sentinel/blacklist/:id'' Authenticated ''RemoveBlacklist'',
     Route ''GET'' ''/api/v1/sentinel/rules'' Authenticated ''GetRules'',
     Route ''POST'' ''/api/v1/sentinel/rule'' Authenticated ''AddRule'',
     Route ''PUT'' ''/api/v1/sentinel/rule/:id'' Authenticated ''UpdateRule'',
     Route ''DELETE'' ''/api/v1/sentinel/rule/:id'' Authenticated ''DeleteRule'',
     Route ''GET'' ''/api/v1/monitor/metrics'' Authenticated ''GetMetrics'',
     Route ''GET'' ''/api/v1/monitor/qps'' Authenticated ''GetQPS'',
     Route ''GET'' ''/api/v1/monitor/middleware'' Authenticated ''GetMiddlewareStatus'',
     Route ''GET'' ''/api/v1/monitor/alarms'' Authenticated ''GetAlarms'',
     Route ''GET'' ''/api/v1/monitor/slow-api'' Authenticated ''GetSlowAPIs'',
     Route ''GET'' ''/api/v1/seckill/stats'' Authenticated ''GetSeckillStats'',
     Route ''GET'' ''/api/v1/activity'' Authenticated ''GetActivity'',
     Route ''PUT'' ''/api/v1/activity'' Authenticated ''UpdateActivity'',
     Route ''POST'' ''/api/v1/activity/cache-warmup'' Authenticated ''CacheWarmUp'',
     Route ''POST'' ''/api/v1/activity/config'' Authenticated ''SaveActivityConfig'',
     Route ''GET'' ''/api/v1/audit/list'' Authenticated ''GetAuditLogs'',
     Route ''GET'' ''/api/v1/monitor/anomaly'' Authenticated ''GetAnomalyStats'',
     Route ''GET'' ''/api/v1/monitor/ws-stats'' Authenticated ''GetWSStats'',
     Route ''GET'' ''/api/v1/monitor/pvuv'' Authenticated ''GetPVUV'',
     Route ''GET'' ''/api/v1/monitor/hot-products'' Authenticated ''GetHotProducts'',
     Route ''GET'' ''/api/v1/monitor/inventory'' Authenticated ''GetInventory'']"

definition routes :: "route list" where
  "routes = open_routes @ api_routes"

section \<open>Matching a path\<close>

text \<open>The parts of a path between its slashes.\<close>

fun split_slash :: "string \<Rightarrow> string list" where
  "split_slash [] = [[]]"
| "split_slash (ch # s) = (if ch = CHR ''/'' then [] # split_slash s
     else (case split_slash s of [] \<Rightarrow> [[ch]] | x # xs \<Rightarrow> (ch # x) # xs))"

text \<open>\<^verbatim>\<open>:name\<close> stands for one part that is not empty, \<^verbatim>\<open>*name\<close> for the rest of the path.\<close>

fun parts_match :: "string list \<Rightarrow> string list \<Rightarrow> bool" where
  "parts_match [] xs = (xs = [])"
| "parts_match (p # ps) [] = False"
| "parts_match (p # ps) (x # xs) =
     (if take 1 p = ''*'' then True
      else if take 1 p = '':'' then x \<noteq> [] \<and> parts_match ps xs
      else p = x \<and> parts_match ps xs)"

definition path_matches :: "string \<Rightarrow> string \<Rightarrow> bool" where
  "path_matches pattern path = parts_match (split_slash pattern) (split_slash path)"

type_synonym route_finder = "route list \<Rightarrow> string \<Rightarrow> string \<Rightarrow> route option"

section \<open>Recovery from a panic\<close>

text \<open>The alert is sent by a goroutine of its own.\<close>

record panic_alert =
  pa_trace :: string
  pa_path :: string

definition SendPanicAlert ::
  "(string \<Rightarrow> string \<Rightarrow> string) \<Rightarrow> dingtalk_config \<Rightarrow> (string \<Rightarrow> ding_message \<Rightarrow> 's \<Rightarrow> 's \<times> post_outcome) \<Rightarrow> (int \<Rightarrow> 's \<Rightarrow> 's)
     \<Rightarrow> (int \<Rightarrow> string) \<Rightarrow> int \<Rightarrow> panic_alert \<Rightarrow> string \<Rightarrow> 's \<Rightarrow> 's" where
  "SendPanicAlert mac cfg post pause fmt_time now a panicErr s =
     (let content = ''## panic of the service; time: '' @ fmt_time now @ ''; TraceID: '' @ pa_trace a @ ''; path: '' @ pa_path a @
            ''; error: '' @ panicErr
      in fst (SendDingTalkAlert mac cfg post pause now ''panic of the service'' content s))"

definition SendDingTalkAlertWithTrace ::
  "(string \<Rightarrow> string \<Rightarrow> string) \<Rightarrow> dingtalk_config \<Rightarrow> (string \<Rightarrow> ding_message \<Rightarrow> 's \<Rightarrow> 's \<times> post_outcome) \<Rightarrow> (int \<Rightarrow> 's \<Rightarrow> 's)
     \<Rightarrow> (int \<Rightarrow> string) \<Rightarrow> int \<Rightarrow> string \<Rightarrow> string \<Rightarrow> string \<Rightarrow> string \<Rightarrow> 's \<Rightarrow> 's" where
  "SendDingTalkAlertWithTrace mac cfg post pause fmt_time now title content traceID errorLog s =
     (if \<not> dt_enabled cfg then s
      else fst (SendDingTalkAlert mac cfg post pause now title
        (''## '' @ title @ ''; time: '' @ fmt_time now @ ''; TraceID: '' @ traceID @ ''; details: '' @ content @ '' '' @ errorLog) s))"

text \<open>
  What a request comes to: a middleware refused it with a code (404 when gin has no route, which
  may also redirect), its handler answered, or its handler panicked.
\<close>

datatype 'a outcome =
    Refused int
  | Handled string "'a response"
  | Panicked string "'a response" panic_alert

definition RecoveryMiddleware :: "gin_context \<Rightarrow> http_request \<Rightarrow> string \<Rightarrow> 'a response option \<Rightarrow> 'a outcome" where
  "RecoveryMiddleware c r handler res = (case res of
      Some a \<Rightarrow> Handled handler a
    | None \<Rightarrow> Panicked handler (InternalError c (Lit ''internal error, try again later'')) \<lparr>pa_trace = GetTraceID c, pa_path = hr_path r\<rparr>)"

section \<open>Serving a request\<close>

text \<open>
  The middlewares of every route; those that only observe a request (request log, metrics, and tracing,
  which replaces its trace id when it is enabled) are left out. \<open>now\<close> is the clock in milliseconds, \<open>generated\<close> a new trace id.
\<close>

definition global_chain :: "router \<Rightarrow> int \<Rightarrow> string \<Rightarrow> http_request \<Rightarrow> (gin_context \<Rightarrow> gin_context \<times> passage) list" where
  "global_chain ro now generated r =
     (if ro_performance ro then [] else [TraceIDMiddleware generated r, CORSMiddleware (ro_cors ro) r]) @
     [BodyLimitMiddleware (ro_max_body ro) r,
      SignMiddleware (ro_hmac ro) (ro_sign_secret ro) (word_of_int (now div 1000)) r,
      TokenBlacklistMiddleware (ro_revoked ro) r]"

definition run_guard ::
  "route_guard \<Rightarrow> router \<Rightarrow> 'r redis \<Rightarrow> int \<Rightarrow> http_request \<Rightarrow> gin_context \<Rightarrow> 'r \<Rightarrow> 'r \<times> gin_context \<times> passage" where
  "run_guard guard ro call now r c s = (case guard of
      Open \<Rightarrow> (s, c, Next)
    | Limited maxAttempts windowSeconds \<Rightarrow> LoginRateLimitMiddleware call maxAttempts windowSeconds (now div 1000) r c s
    | Authenticated \<Rightarrow> (s, AuthMiddleware (ro_crypto ro) (ro_jwt ro) now r c))"

definition serve_http ::
  "route_finder \<Rightarrow> router \<Rightarrow> 'r redis \<Rightarrow> int \<Rightarrow> string
     \<Rightarrow> (string \<Rightarrow> gin_context \<Rightarrow> ('r, 'd, 'q, 'f, 'l) site \<Rightarrow> ('r, 'd, 'q, 'f, 'l) site \<times> 'a response option)
     \<Rightarrow> http_request \<Rightarrow> ('r, 'd, 'q, 'f, 'l) site \<Rightarrow> ('r, 'd, 'q, 'f, 'l) site \<times> 'a outcome" where
  "serve_http gin ro call now generated handlers r s =
     (case run_chain (global_chain ro now generated r) fresh_context of
        (c, Abort code) \<Rightarrow> (s, Refused code)
      | (c, Next) \<Rightarrow>
          (case gin routes (hr_method r) (hr_path r) of
             None \<Rightarrow> (s, Refused 404)
           | Some rt \<Rightarrow>
               (case on_world (on_redis (run_guard (rt_guard rt) ro call now r c)) s of
                  (s1, c1, Abort code) \<Rightarrow> (s1, Refused code)
                | (s1, c1, Next) \<Rightarrow>
                    (case handlers (rt_handler rt) c1 s1 of
                       (s2, res) \<Rightarrow> (s2, RecoveryMiddleware c1 r (rt_handler rt) res)))))"

section \<open>The interface of gin\<close>

locale gin_router =
  fixes gin :: route_finder
  assumes found: "gin rs m p = Some rt \<Longrightarrow> rt \<in> set rs \<and> rt_method rt = m \<and> path_matches (rt_path rt) p"
    and complete: "gin rs m p = None \<Longrightarrow> rt \<in> set rs \<Longrightarrow> rt_method rt = m \<Longrightarrow> \<not> path_matches (rt_path rt) p"
begin

lemma finds_some:
  assumes "rt \<in> set rs" "rt_method rt = m" "path_matches (rt_path rt) p"
  obtains rt' where "gin rs m p = Some rt'" "rt' \<in> set rs" "rt_method rt' = m" "path_matches (rt_path rt') p"
  using assms found complete by (cases "gin rs m p") blast+

end

text \<open>
  The first route that matches. In the table the fixed paths come before the patterns with a
  parameter, which gin prefers whatever the order.
\<close>

definition first_route :: route_finder where
  "first_route rs m p = List.find (\<lambda>rt. rt_method rt = m \<and> path_matches (rt_path rt) p) rs"

interpretation first: gin_router first_route
  by unfold_locales (auto simp: first_route_def find_Some_iff find_None_iff)

end
