(* ===== verification/Api_Access.thy ===== *)
theory Api_Access
  imports Routes Access_Control
begin

text \<open>
  The middlewares of the group \<^verbatim>\<open>/api/v1\<close> of \<^verbatim>\<open>cmd/main.go\<close> in a row, signed requests to a small
  deployment, and small guarantees of single handlers.
\<close>

section \<open>Who reaches a handler\<close>

lemma run_chain_append:
  "run_chain (ms @ ms') c = (case run_chain ms c of (c1, Next) \<Rightarrow> run_chain ms' c1 | (c1, Abort code) \<Rightarrow> (c1, Abort code))"
  by (induction ms arbitrary: c) (auto split: prod.splits passage.splits)

lemma api_chain_passes:
  assumes "run_chain (api_chain ro now generated r) c = (c', Next)"
  obtains c1 c2 c3 where "snd (SignMiddleware (ro_hmac ro) (ro_sign_secret ro) (word_of_int (now div 1000)) r c1) = Next"
    "TokenBlacklistMiddleware (ro_revoked ro) r c2 = (c3, Next)"
    "AuthMiddleware (ro_crypto ro) (ro_jwt ro) now r c3 = (c', Next)"
  using assms that unfolding api_chain_def run_chain_append
  by (auto split: prod.splits passage.splits) (metis snd_conv)+

lemma api_chain_split:
  "api_chain ro now generated r = global_chain ro now generated r @ [AuthMiddleware (ro_crypto ro) (ro_jwt ro) now r]"
  by (simp add: api_chain_def global_chain_def)

section \<open>Requests to a small deployment\<close>

definition demo_router :: router where
  "demo_router = \<lparr>ro_performance = True, ro_cors = \<lparr>co_allowed_origins = [], co_allowed_methods = [], co_allowed_headers = []\<rparr>,
     ro_max_body = 0, ro_hmac = demo_hmac, ro_sign_secret = ''k'', ro_crypto = demo_crypto, ro_jwt = demo_manager,
     ro_revoked = \<lparr>tb_entries = Map.empty, tb_timers = []\<rparr>\<rparr>"

definition api_request :: "string \<Rightarrow> string \<Rightarrow> string \<Rightarrow> string \<Rightarrow> http_request" where
  "api_request token method path body = \<lparr>hr_method = method, hr_path = path, hr_raw_path = [],
     hr_headers = [''Authorization'' \<mapsto> ''Bearer '' @ token, ''X-Timestamp'' \<mapsto> ''3'',
       ''X-Sign'' \<mapsto> demo_hmac (''3'' @ method @ path @ body) ''k''],
     hr_body = Some body, hr_content_length = int (length body), hr_client_ip = ''10.0.0.1''\<rparr>"

lemma api_request_sel:
  "hr_path (api_request t method path body) = path" "hr_raw_path (api_request t method path body) = []"
  "hr_method (api_request t method path body) = method"
  "GetHeader (api_request t method path body) ''X-Timestamp'' = ''3''"
  "GetHeader (api_request t method path body) ''Authorization'' = ''Bearer '' @ t" "body_text (api_request t method path body) = body"
  "GetHeader (api_request t method path body) ''X-Sign'' = demo_hmac (''3'' @ method @ path @ body) ''k''"
  "hr_content_length (api_request t method path body) = int (length body)"
  by (simp_all add: api_request_def GetHeader_def body_text_def)

definition user_context :: "int \<Rightarrow> string \<Rightarrow> string \<Rightarrow> gin_context" where
  "user_context i name role = fresh_context\<lparr>gc_user_id := Some i, gc_username := Some name, gc_role := Some role\<rparr>"

lemma three: "Atoi ''3'' = Some 3"
proof -
  have "fmt_d 3 = ''3''" by code_simp
  then show ?thesis using Atoi_fmt_d [of 3] by (simp add: in_int64_def)
qed

lemma demo_global_chain:
  assumes "path \<notin> set sign_whitelist" "\<not> has_prefix ''/uploads/'' path" "length body \<le> 1048576"
  shows "run_chain (global_chain demo_router 3000 [] (api_request t method path body)) fresh_context = (fresh_context, Next)"
proof -
  let ?r = "api_request t method path body"
  have "snd (SignMiddleware demo_hmac ''k'' (word_of_int 3) ?r fresh_context) = Next"
    using sign_passes [of 3 ?r demo_hmac "''k''" fresh_context] assms(1,2) three
    by (simp add: sign_secret_def demo_hmac_def sign_whitelist_def api_request_sel)
  moreover have "fst (SignMiddleware demo_hmac ''k'' (word_of_int 3) ?r fresh_context) = fresh_context"
    by (simp add: SignMiddleware_def Let_def split: option.split)
  ultimately have sg: "SignMiddleware demo_hmac ''k'' 3 ?r fresh_context = (fresh_context, Next)"
    by (simp add: prod_eq_iff)
  have "TokenBlacklistMiddleware (ro_revoked demo_router) ?r fresh_context = (fresh_context, Next)"
    "BodyLimitMiddleware 0 ?r fresh_context = (fresh_context, Next)"
    using assms(3) by (simp_all add: TokenBlacklistMiddleware_def IsBlacklisted_def demo_router_def BodyLimitMiddleware_def
        api_request_sel Let_def)
  with sg show ?thesis
    by (simp add: global_chain_def demo_router_def)
qed

lemma demo_parsed:
  assumes "GenerateToken demo_crypto demo_manager 2000 i name role = Inr t"
  shows "ParseToken (ro_crypto demo_router) (ro_jwt demo_router) 3000 t = Inr (token_claims demo_manager 2000 i name role)"
  unfolding demo_router_def router.simps
  by (rule demo_auth.token_roundtrip [OF assms]) (simp_all add: demo_manager_def NewJWTManager_def)

lemma demo_authenticated:
  assumes "GenerateToken demo_crypto demo_manager 2000 i name role = Inr t" "role \<noteq> []" "path \<notin> set auth_whitelist"
  shows "AuthMiddleware (ro_crypto demo_router) (ro_jwt demo_router) 3000 (api_request t method path body) fresh_context
    = (user_context i name role, Next)"
  using auth_passes [of "api_request t method path body" "ro_crypto demo_router" "ro_jwt demo_router" 3000 fresh_context]
    assms(2,3) demo_parsed [OF assms(1)]
  by (auto simp: user_context_def token_claims_def api_request_sel)

lemma demo_api_chain:
  assumes "GenerateToken demo_crypto demo_manager 2000 i name role = Inr t" "role \<noteq> []"
    "path \<notin> set auth_whitelist" "path \<notin> set sign_whitelist" "\<not> has_prefix ''/uploads/'' path" "length body \<le> 1048576"
  shows "run_chain (api_chain demo_router 3000 [] (api_request t method path body)) fresh_context = (user_context i name role, Next)"
  unfolding api_chain_split
  using demo_global_chain [OF assms(4-6)] demo_authenticated [OF assms(1-3)] by (simp add: run_chain_append)

section \<open>Small guarantees of the handlers\<close>

text \<open>A stored upload has one of the five extensions and stays in its directory.\<close>

lemma fmt_nat_no_slash: "CHR ''/'' \<notin> set (fmt_nat n)"
proof (induction n rule: fmt_nat.induct)
  case (1 n)
  have "digit k \<noteq> CHR ''/''" if "k < 10" for k
  proof -
    have "of_char (digit k) = 48 + k" using that by (simp add: digit_def of_char_of)
    then show ?thesis by auto
  qed
  from this [of n] this [of "n mod 10"] 1 show ?case
    by (subst fmt_nat.simps) (auto dest: sym)
qed

lemma upload_stays_in_directory:
  assumes "ctl_UploadImage nanos traceID c (Some (sz, filename)) a b d e = r" "rs_data r = Some (url, stored)"
    "CHR ''/'' \<notin> set traceID"
  shows "CHR ''/'' \<notin> set stored \<and> url = ''/uploads/'' @ stored \<and> sz \<le> 5242880 \<and>
    (\<exists>ext \<in> set allowedExts. \<exists>p. stored = p @ ext \<and> filepath_Ext filename = ext)"
proof -
  let ?x = "filepath_Ext filename"
  have r: "?x \<in> set allowedExts" "stored = upload_name nanos traceID ?x" "url = ''/uploads/'' @ stored" "sz \<le> 5242880"
    using assms(1,2) by (auto simp: ctl_UploadImage_def BadRequest_def InternalError_def Error_response_def SuccessWithMessage_def
        Let_def split: if_splits)
  have "CHR ''/'' \<notin> set ?x" using r(1) by (auto simp: allowedExts_def)
  moreover have "CHR ''/'' \<notin> set (take 8 traceID)" using assms(3) by (meson in_set_takeD)
  ultimately have "CHR ''/'' \<notin> set stored"
    using r(2) fmt_nat_no_slash by (auto simp: upload_name_def fmt_d_def)
  with r show ?thesis by (auto simp: upload_name_def)
qed

text \<open>The route that should take a product off sale refuses to.\<close>

lemma off_sale_refused: "snd (ctl_UpdateActivity ev now c (Some \<lparr>ua_product_id = i, ua_status = 0\<rparr>) w) = bad_parameters c"
  by (simp add: ctl_UpdateActivity_def bind_json_def valid_update_activity_def)

end
