(* ===== verification/Seckill_Gate.thy ===== *)
theory Seckill_Gate
  imports Seckill_Api Seckill_Recovery
begin

text \<open>
  What the sale handler guarantees: no request reaches the service without a correct captcha and,
  for ordinary users, the path token that was issued to them; both are used up; a request that is
  refused before the service sells nothing. The responses carry the codes of the service's errors,
  and the captcha is a correct sum.
\<close>

section \<open>Tickets\<close>

text \<open>What the handler asks for, and what is left of it.\<close>

definition ticket_ok :: "keyspace \<Rightarrow> bool \<Rightarrow> int \<Rightarrow> seckill_request \<Rightarrow> bool" where
  "ticket_ok ks isAdmin uid req \<longleftrightarrow>
     (isAdmin \<or> str_at ks (path_key uid (sq_product_id req)) = Some (sq_path_token req)) \<and>
     sq_captcha_id req \<noteq> [] \<and>
     (\<exists>code v. sq_captcha_code req = Some code \<and> str_at ks (captcha_key (sq_captcha_id req)) = Some v \<and> parse_int v = Some code)"

definition ticket_used :: "keyspace \<Rightarrow> bool \<Rightarrow> int \<Rightarrow> seckill_request \<Rightarrow> bool" where
  "ticket_used ks isAdmin uid req \<longleftrightarrow>
     (isAdmin \<or> str_at ks (path_key uid (sq_product_id req)) = None) \<and> str_at ks (captcha_key (sq_captcha_id req)) = None"

text \<open>No path token or captcha key holds a hash.\<close>

definition tickets_plain :: "keyspace \<Rightarrow> bool" where
  "tickets_plain ks \<longleftrightarrow> (\<forall>u p. no_hash ks (path_key u p)) \<and> (\<forall>i. no_hash ks (captcha_key i))"

lemma code_of_refusal [simp]:
  "rs_code (Error_response c n m) = n" "rs_code (bad_parameters c) = 400" "rs_code (Unauthorized c m) = 401"
  "rs_code (too_busy c) = 429" "rs_code (Success c d) = 200"
  by (simp_all add: Error_response_def bad_parameters_def BadRequest_def Unauthorized_def too_busy_def Success_def)

context redis_server
begin

lemma captcha_step:
  assumes "GetAndVerifyCaptcha call i code s = (s', r)" "tickets_plain (kv s)"
  shows "same_shop (kv s) (kv s') \<and>
    (r = Inr True \<longrightarrow> (\<exists>v. str_at (kv s) (captcha_key i) = Some v \<and> parse_int v = Some code) \<and>
       kv s' = drop_key (kv s) (captcha_key i))"
  using assms(1)
  by (rule captcha_cases) (use assms(2) in \<open>auto simp: tickets_plain_def\<close>)

lemma path_step:
  assumes "GetAndVerifySeckillPath call u p tok s = (s', r)" "tickets_plain (kv s)"
  shows "same_shop (kv s) (kv s') \<and> tickets_plain (kv s') \<and> (\<forall>i. str_at (kv s') (captcha_key i) = str_at (kv s) (captcha_key i)) \<and>
    (r = Inr True \<longrightarrow> str_at (kv s) (path_key u p) = Some tok \<and> str_at (kv s') (path_key u p) = None)"
  using assms(1)
  by (rule path_cases) (use assms(2) in \<open>auto simp: tickets_plain_def redis_simps key_simps\<close>)

lemma tickets_step:
  assumes "seckill_tickets call isAdmin c uid req s = (s', r)" "tickets_plain (kv s)"
  shows "same_shop (kv s) (kv s') \<and>
    (case r of None \<Rightarrow> ticket_ok (kv s) isAdmin uid req \<and> ticket_used (kv s') isAdmin uid req
             | Some a \<Rightarrow> rs_code a = 400)"
proof -
  obtain s1 ok where p: "(if isAdmin then (s, True)
            else case GetAndVerifySeckillPath call uid (sq_product_id req) (sq_path_token req) s of
                (s', Inl _) \<Rightarrow> (s', False) | (s', Inr valid) \<Rightarrow> (s', valid)) = (s1, ok)"
    by (rule prod.exhaust)
  then have s1: "same_shop (kv s) (kv s1)" "tickets_plain (kv s1)"
      "str_at (kv s1) (captcha_key i) = str_at (kv s) (captcha_key i)"
      "ok \<Longrightarrow> isAdmin \<or> str_at (kv s) (path_key uid (sq_product_id req)) = Some (sq_path_token req) \<and>
         str_at (kv s1) (path_key uid (sq_product_id req)) = None" for i
    using assms(2) by (auto split: if_splits prod.splits sum.splits dest!: path_step)
  show ?thesis
  proof (cases "ok \<and> sq_captcha_id req \<noteq> [] \<and> sq_captcha_code req \<noteq> None")
    case False
    with assms(1) p s1(1) show ?thesis
      by (auto simp: seckill_tickets_def split: option.splits if_splits)
  next
    case True
    then obtain code where code: "ok" "sq_captcha_id req \<noteq> []" "sq_captcha_code req = Some code" by blast
    obtain s2 v where v: "GetAndVerifyCaptcha call (sq_captcha_id req) code s1 = (s2, v)" by (rule prod.exhaust)
    note st = captcha_step [OF v s1(2)]
    with s1(1) have same: "same_shop (kv s) (kv s2)" by (blast intro: same_shop_trans)
    have res: "s' = s2 \<and> (if v = Inr True then r = None else \<exists>m. r = Some (Error_response c 400 m))"
      using assms(1) p code v by (auto simp: seckill_tickets_def split: sum.splits bool.splits)
    show ?thesis
    proof (cases "v = Inr True")
      case False
      with res same show ?thesis by auto
    next
      case True
      with st s1(3) [of "sq_captcha_id req"] have "ticket_ok (kv s) isAdmin uid req"
        using s1(4) code by (auto simp: ticket_ok_def)
      moreover have "ticket_used (kv s2) isAdmin uid req"
        using st True s1(4) code(1) by (auto simp: ticket_used_def redis_simps key_simps)
      ultimately show ?thesis using res same True by simp
    qed
  qed
qed

end

section \<open>The handler\<close>

text \<open>Nothing was sold on the way from \<open>w\<close> to \<open>w'\<close>.\<close>

definition sold_nothing ::
  "('r \<Rightarrow> keyspace) \<Rightarrow> ('d \<Rightarrow> database) \<Rightarrow> ('r, 'd, 'q) world \<Rightarrow> ('r, 'd, 'q) world \<Rightarrow> bool" where
  "sold_nothing kv view w w' \<longleftrightarrow> same_shop (kv (w_redis w)) (kv (w_redis w')) \<and> view (w_db w') = view (w_db w) \<and>
     w_mq w' = w_mq w"

text \<open>The service ran from the world \<open>w\<close>, or the call joined one in flight, and the response is that of its result.\<close>

definition served ::
  "('r, 'd, 'q, 'f, 'l, 'e) site_env \<Rightarrow> request_clock \<Rightarrow> ('g \<Rightarrow> 'g \<times> string result) \<Rightarrow> seckill_response result option
     \<Rightarrow> gin_context \<Rightarrow> seckill_args \<Rightarrow> 'g \<Rightarrow> ('r, 'd, 'q) world \<Rightarrow> 'g \<Rightarrow> ('r, 'd, 'q) world
     \<Rightarrow> seckill_response response option \<Rightarrow> bool" where
  "served se ck gen flight c a g w g' w' r \<longleftrightarrow>
     (\<exists>res. seckill_merged se ck gen flight a g w = (g', w', res) \<and>
        r = (case res of Inl err \<Rightarrow> if err = GoPanic then None else Some (seckill_error c err)
                       | Inr resp \<Rightarrow> Some (Success c resp)))"

lemma site_world [simp]:
  "st_world (leave se e s) = st_world s" "st_world (s\<lparr>st_hub := h\<rparr>) = st_world s"
  by (simp_all add: leave_def)

lemma on_sentinel_world: "on_sentinel f s = (s', a) \<Longrightarrow> st_world s' = st_world s"
  by (auto simp: on_sentinel_def split: prod.splits)

lemma record_behavior_world: "record_behavior fl uid ok ip ck s = (s', a) \<Longrightarrow> st_world s' = st_world s"
  by (auto simp: record_behavior_def split: prod.splits)

lemma rejected_sells_nothing [simp]:
  "sold_nothing kv view w (st_world (fst (on_world (\<lambda>w. (on_mon f w, ())) s))) = sold_nothing kv view w (st_world s)"
  by (simp add: on_world_def sold_nothing_def)

lemma sold_nothing_refl [simp]: "sold_nothing kv view w w"
  by (simp add: sold_nothing_def)

lemma sold_nothing_trans: "sold_nothing kv view w1 w2 \<Longrightarrow> sold_nothing kv view w2 w3 \<Longrightarrow> sold_nothing kv view w1 w3"
  unfolding sold_nothing_def by (auto intro: same_shop_trans)

lemma execute_served:
  assumes "seckill_execute se ck gen flight isAdmin c ip uid req g s = (g', s', r)"
  shows "served se ck gen flight c (args_of_request c ip uid req) g (st_world s) g' (st_world s') r"
proof -
  obtain g1 w1 res where m: "seckill_merged se ck gen flight (args_of_request c ip uid req) g (st_world s) = (g1, w1, res)"
    by (rule prod_cases3)
  show ?thesis
  proof (cases res)
    case (Inl err)
    with assms m show ?thesis by (auto simp: seckill_execute_def served_def)
  next
    case (Inr resp)
    then have r: "g' = g1" "(s', r) = (case seckill_accepted se ck isAdmin c ip uid req resp (s\<lparr>st_world := w1\<rparr>) of (s2, a) \<Rightarrow> (s2, Some a))"
      using assms m by (auto simp: seckill_execute_def split: prod.splits)
    have "st_world (fst (record_behavior fl uid True ip k (s\<lparr>st_world := w1\<rparr>))) = w1" for fl k
      using record_behavior_world [OF surjective_pairing, of fl uid True ip k "s\<lparr>st_world := w1\<rparr>"] by simp
    with r(2) have "st_world s' = w1" "r = Some (Success c resp)"
      by (auto simp: seckill_accepted_def Let_def)
    with m r(1) Inr show ?thesis by (auto simp: served_def)
  qed
qed

lemma screened_step:
  assumes "seckill_screened se ck gen flight isAdmin c ip uid req g s = (g', s', r)"
  shows "g' = g \<and> sold_nothing kv view (st_world s) (st_world s') \<and> (\<exists>a. r = Some a \<and> rs_code a = 429) \<or>
    served se ck gen flight c (args_of_request c ip uid req) g (st_world s) g' (st_world s') r"
proof (cases isAdmin)
  case True
  with assms show ?thesis by (auto simp: seckill_screened_def dest: execute_served)
next
  case False
  obtain s1 e where e: "on_sentinel (EntryWithArgs (se_lib se) ''seckill_product'' [sq_product_id req]) s = (s1, e)"
    by (rule prod.exhaust)
  note w1 = on_sentinel_world [OF e]
  show ?thesis
  proof (cases e)
    case (Inl err)
    with assms False e w1 show ?thesis by (auto simp: seckill_screened_def)
  next
    case (Inr hot)
    obtain s2 v where v: "record_behavior (se_floats se) uid False ip (ck_first ck) s1 = (s2, v)" by (rule prod.exhaust)
    obtain g3 s3 a where x: "seckill_execute se ck gen flight isAdmin c ip uid req g s2 = (g3, s3, a)" by (rule prod_cases3)
    from record_behavior_world [OF v] w1 have "st_world s2 = st_world s" by simp
    with execute_served [OF x] assms False e Inr v x show ?thesis
      by (auto simp: seckill_screened_def split: if_splits)
  qed
qed

lemma is_admin_step:
  assumes "db_server (ev_db ev) view" "seckill_is_admin ev c w = (w', b)"
  shows "w_redis w' = w_redis w \<and> w_mq w' = w_mq w \<and> view (w_db w') = view (w_db w)"
proof -
  have "view d' = view d" if "GetUserByID (ev_db ev) uid d = (d', a)" for uid d d' a
    using that db_server.user_read_stmt [OF assms(1)]
    by (fastforce simp: GetUserByID_def db_outcome_def exec_user_def split: prod.splits)
  then have "w_redis w1 = w_redis w \<and> w_mq w1 = w_mq w \<and> view (w_db w1) = view (w_db w)"
    if "on_db (GetUserByID (ev_db ev) uid) w = (w1, a)" for uid w1 a
    using on_dbD [OF that] on_frame(2) [OF that] by blast
  then show ?thesis
    using assms(2) by (fastforce simp: seckill_is_admin_def split: if_splits option.splits prod.splits sum.splits)
qed

lemma checked_step:
  assumes "redis_server (ev_call (se_env se)) kv" "tickets_plain (kv (w_redis (st_world s)))"
    "seckill_checked se ck gen flight isAdmin c ip body g s = (g', s', r)"
  shows "g' = g \<and> sold_nothing kv view (st_world s) (st_world s') \<and> (\<exists>a. r = Some a \<and> rs_code a \<in> {400, 401, 429}) \<or>
    (\<exists>req uid w. body = Some req \<and> valid_seckill req \<and> gc_user_id c = Some uid \<and>
       ticket_ok (kv (w_redis (st_world s))) isAdmin uid req \<and> ticket_used (kv (w_redis w)) isAdmin uid req \<and>
       sold_nothing kv view (st_world s) w \<and>
       served se ck gen flight c (args_of_request c ip uid req) g w g' (st_world s') r)"
proof (cases "\<exists>req uid. bind_json valid_seckill body = Some req \<and> gc_user_id c = Some uid")
  case False
  with assms(3) show ?thesis by (auto simp: seckill_checked_def split: option.splits)
next
  case True
  then obtain req uid where q: "bind_json valid_seckill body = Some req" "gc_user_id c = Some uid" by blast
  then have body: "body = Some req" "valid_seckill req" by (auto simp: bind_json_def split: option.splits if_splits)
  obtain w1 and v :: "seckill_response response option" where t: "on_redis (seckill_tickets (ev_call (se_env se)) isAdmin c uid req) (st_world s) = (w1, v)"
    by (rule prod.exhaust)
  have t': "on_world (on_redis (seckill_tickets (ev_call (se_env se)) isAdmin c uid req)) s = (s\<lparr>st_world := w1\<rparr>, v)"
    by (simp add: on_world_def t)
  note step = redis_server.tickets_step [OF assms(1) on_redisD [OF t] assms(2)]
  with on_frame(1) [OF t] have none: "sold_nothing kv view (st_world s) w1" by (simp add: sold_nothing_def)
  show ?thesis
  proof (cases v)
    case (Some a)
    with assms(3) q t' step none show ?thesis by (auto simp: seckill_checked_def)
  next
    case None
    with assms(3) q t' have "seckill_screened se ck gen flight isAdmin c ip uid req g (s\<lparr>st_world := w1\<rparr>) = (g', s', r)"
      by (simp add: seckill_checked_def)
    from screened_step [OF this, of kv view] show ?thesis
    proof
      assume "g' = g \<and> sold_nothing kv view (st_world (s\<lparr>st_world := w1\<rparr>)) (st_world s') \<and> (\<exists>a. r = Some a \<and> rs_code a = 429)"
      with none show ?thesis by (auto intro: sold_nothing_trans)
    next
      assume "served se ck gen flight c (args_of_request c ip uid req) g (st_world (s\<lparr>st_world := w1\<rparr>)) g' (st_world s') r"
      with body q(2) step None none show ?thesis by auto
    qed
  qed
qed

lemma gate_cases:
  assumes "redis_server (ev_call (se_env se)) kv" "db_server (ev_db (se_env se)) view"
    "tickets_plain (kv (w_redis (st_world s)))" "ctl_Seckill se ck gen flight c ip body g s = (g', s', r)"
    "isAdmin = snd (seckill_is_admin (se_env se) c (st_world s))"
  shows "g' = g \<and> sold_nothing kv view (st_world s) (st_world s') \<and> (\<exists>a. r = Some a \<and> rs_code a \<in> {400, 401, 429}) \<or>
    (\<exists>req uid w. body = Some req \<and> valid_seckill req \<and> gc_user_id c = Some uid \<and>
       ticket_ok (kv (w_redis (st_world s))) isAdmin uid req \<and> ticket_used (kv (w_redis w)) isAdmin uid req \<and>
       sold_nothing kv view (st_world s) w \<and>
       served se ck gen flight c (args_of_request c ip uid req) g w g' (st_world s') r)"
proof -
  obtain w1 where a: "seckill_is_admin (se_env se) c (st_world s) = (w1, isAdmin)"
    using assms(5) by (cases "seckill_is_admin (se_env se) c (st_world s)") simp
  note same = is_admin_step [OF assms(2) a]
  then have none: "sold_nothing kv view (st_world s) w1" by (simp add: sold_nothing_def)
  let ?s1 = "s\<lparr>st_world := w1\<rparr>"
  have a': "on_world (seckill_is_admin (se_env se) c) s = (?s1, isAdmin)" by (simp add: on_world_def a)
  obtain s2 e where e: "on_sentinel (Entry (se_lib se) ''seckill_api'') ?s1 = (s2, e)" by (rule prod.exhaust)
  note w2 = on_sentinel_world [OF e]
  show ?thesis
  proof (cases "\<not> isAdmin \<and> (\<exists>err. e = Inl err)")
    case True
    with assms(4) a' e w2 none show ?thesis by (auto simp: ctl_Seckill_def)
  next
    case False
    then obtain s0 s3 where x: "seckill_checked se ck gen flight isAdmin c ip body g s0 = (g', s3, r)"
      "st_world s0 = w1" "st_world s' = st_world s3"
      using assms(4) a' e w2 by (cases e) (auto simp: ctl_Seckill_def split: if_splits prod.splits)
    have "tickets_plain (kv (w_redis (st_world s0)))" using assms(3) same x(2) by simp
    moreover have "sold_nothing kv view (st_world s0) = sold_nothing kv view (st_world s)"
      using same x(2) by (simp add: fun_eq_iff sold_nothing_def)
    ultimately show ?thesis
      using checked_step [OF assms(1) _ x(1), of view] same x(2,3) by simp
  qed
qed

text \<open>
  C10. No request is sold past the guards: either it is refused with 400, 401 or 429, no order
  number is used, and stock, counters, database and queue are as before; or it has a valid body, its
  user is known, it presented the captcha's answer and (unless the user is an administrator) the
  path token that Redis holds for that user and product, both were gone from Redis before the service
  ran, and the response is the one of the service's result for that user and request.
\<close>

theorem seckill_gate:
  assumes "redis_server (ev_call (se_env se)) kv" "db_server (ev_db (se_env se)) view"
    "tickets_plain (kv (w_redis (st_world s)))" "ctl_Seckill se ck gen flight c ip body g s = (g', s', r)"
    "isAdmin = snd (seckill_is_admin (se_env se) c (st_world s))"
  shows "g' = g \<and> sold_nothing kv view (st_world s) (st_world s') \<and> (\<exists>a. r = Some a \<and> rs_code a \<in> {400, 401, 429}) \<or>
    (\<exists>req uid w. body = Some req \<and> valid_seckill req \<and> gc_user_id c = Some uid \<and>
       ticket_ok (kv (w_redis (st_world s))) isAdmin uid req \<and> ticket_used (kv (w_redis w)) isAdmin uid req \<and>
       sold_nothing kv view (st_world s) w \<and>
       served se ck gen flight c (args_of_request c ip uid req) g w g' (st_world s') r)"
  using assms by (rule gate_cases)

text \<open>An administrator who joins a call in flight.\<close>

definition demo_ticket_redis :: faulty_server where
  "demo_ticket_redis = \<lparr>fs_ks = put empty_keyspace (captcha_key ''id'') (RStr (fmt_d 7)) None, fs_faults = []\<rparr>"

definition demo_site :: "(faulty_server, database, demo_broker, real, rule_store) site" where
  "demo_site = \<lparr>st_world = demo_world\<lparr>w_redis := demo_ticket_redis\<rparr>, st_detector = demo_detector, st_hub = NewHub,
     st_sentinel = \<lparr>ss_enabled = False, ss_once = True, ss_lib = ([], [], [])\<rparr>\<rparr>"

definition demo_site_env :: "(faulty_server, database, demo_broker, real, rule_store, string) site_env" where
  "demo_site_env = \<lparr>se_env = demo_env, se_floats = real_floats, se_lib = store_lib, se_marshal = (\<lambda>_. Some ''{}''), se_spec = (\<lambda>_. None)\<rparr>"

definition demo_clock :: request_clock where
  "demo_clock = \<lparr>ck_now = 1000, ck_later = 1001, ck_first = (1000, 1000, 1000), ck_second = (1001, 1001, 1001), ck_push = 1\<rparr>"

definition demo_seckill_request :: seckill_request where
  "demo_seckill_request = \<lparr>sq_product_id = 1, sq_quantity = 2, sq_idempotent_key = ''k'', sq_path_token = [],
     sq_captcha_code = Some 7, sq_captcha_id = ''id'', sq_sku_id = 0\<rparr>"

definition root_context :: gin_context where
  "root_context = fresh_context\<lparr>gc_user_id := Some 7, gc_username := Some ''root'', gc_role := Some ''admin''\<rparr>"

lemma demo_tickets:
  "tickets_plain (fs_ks demo_ticket_redis)"
  "\<exists>s'. seckill_tickets faulty_call True c 7 demo_seckill_request demo_ticket_redis = (s', None)"
  by (auto simp: tickets_plain_def demo_ticket_redis_def no_hash_def live_put live_def empty_keyspace_def redis_simps
      seckill_tickets_def demo_seckill_request_def GetAndVerifyCaptcha_def faulty_call_def verify_captcha_eval str_at_def put_def)

lemma demo_joined_call:
  assumes "gc_role c = Some ''admin''" "gc_user_id c = Some 7"
  shows "\<exists>s'. ctl_Seckill demo_site_env demo_clock demo_gen (Some (Inr resp)) c ip (Some demo_seckill_request) 0 demo_site
      = (0, s', Some (Success c resp))"
proof -
  obtain s' where t: "seckill_tickets faulty_call True c 7 demo_seckill_request demo_ticket_redis
      = (s', None :: seckill_response response option)"
    using demo_tickets(2) by blast
  have "valid_seckill demo_seckill_request" by (simp add: valid_seckill_def demo_seckill_request_def)
  with t assms show ?thesis
    by (simp add: ctl_Seckill_def on_world_def seckill_is_admin_def admin_role_def seckill_checked_def bind_json_def
        demo_site_env_def demo_env_def demo_site_def on_redis_def seckill_screened_def seckill_execute_def
        seckill_merged_def seckill_accepted_def Let_def)
qed

theorem seckill_gate_witness:
  "\<exists>s'. \<exists>w :: (faulty_server, database, demo_broker) world. ctl_Seckill demo_site_env demo_clock demo_gen (Some (Inr (queued_response ''A1''))) root_context ''10.0.0.1''
       (Some demo_seckill_request) 0 demo_site = (0, s', Some (Success root_context (queued_response ''A1''))) \<and>
     ticket_ok (fs_ks demo_ticket_redis) True 7 demo_seckill_request \<and> ticket_used (fs_ks (w_redis w)) True 7 demo_seckill_request"
proof -
  let ?c = "root_context"
  have c: "gc_role ?c = Some ''admin''" "gc_user_id ?c = Some 7" by (simp_all add: root_context_def)
  obtain s' where s': "ctl_Seckill demo_site_env demo_clock demo_gen (Some (Inr (queued_response ''A1''))) ?c ''10.0.0.1''
      (Some demo_seckill_request) 0 demo_site = (0, s', Some (Success ?c (queued_response ''A1'')))"
    using demo_joined_call [OF c] by blast
  have sel: "se_env demo_site_env = demo_env" "ev_call demo_env = faulty_call" "ev_db demo_env = plain_ops"
    "w_redis (st_world demo_site) = demo_ticket_redis" "snd (seckill_is_admin demo_env ?c w) = True" for w
    by (simp_all add: demo_site_env_def demo_env_def demo_site_def seckill_is_admin_def c admin_role_def)
  obtain uid and w :: "(faulty_server, database, demo_broker) world" where "gc_user_id ?c = Some uid" "ticket_ok (fs_ks demo_ticket_redis) True uid demo_seckill_request"
    "ticket_used (fs_ks (w_redis w)) True uid demo_seckill_request"
    using seckill_gate [of demo_site_env fs_ks id demo_site, unfolded sel, OF _ _ _ s' refl]
      faulty.redis_server_axioms plain_mysql.db_server_axioms demo_tickets(1) by (auto simp: sel)
  with s' c(2) show ?thesis by auto
qed

section \<open>The responses for errors\<close>

lemma product_error: "seckill_product ev now p w = (w', Inl e) \<Longrightarrow> e = Errf ''product does not exist''"
  by (auto simp: seckill_product_def Let_def split: prod.splits sum.splits)

lemma sku_error: "seckill_sku ev spec a info w = (w', Inl e) \<Longrightarrow> e = SeckillError ErrProductOffline [] 400"
  by (auto simp: seckill_sku_def NewSeckillError_def Let_def split: prod.splits sum.splits if_splits)

lemma admit_error:
  "seckill_admit ev spec now a info w = (w', Inl e) \<Longrightarrow>
    \<exists>t m. e = SeckillError t m 400 \<and> t \<in> {ErrProductOffline, ErrNotInSeckillTime, ErrExceedLimit}"
  by (auto simp: seckill_admit_def NewSeckillError_def Let_def dest!: sku_error split: prod.splits sum.splits if_splits)

lemma publish_error:
  "seckill_publish ev now later a info no w = (w', Inl e) \<Longrightarrow> e = GoPanic \<or> e = SeckillError ErrMQDown [] 503"
  by (auto simp: seckill_publish_def seckill_fallback_def json_Marshal_def NewSeckillError_def Let_def split: prod.splits sum.splits if_splits)

lemma buy_error:
  assumes "seckill_buy ev gen now later a info g w = (g', w', Inl e)"
  shows "e = GoPanic \<or> (\<exists>t m. e = SeckillError t m 400 \<and> t \<in> {ErrDuplicateSubmit, ErrStockInsufficient, ErrAlreadyPurchased}) \<or>
    (\<exists>t. e = SeckillError t [] 503 \<and> t \<in> {ErrRedisDown, ErrMQDown}) \<or>
    (\<exists>e0 g0 g1. e = Wrapf ''order number generation failed'' e0 \<and> gen g0 = (g1, Inl e0))"
  using assms
  by (auto simp: seckill_buy_def NewSeckillError_def Let_def dest!: publish_error split: prod.splits sum.splits if_splits)

lemma seckill_error_code:
  "rs_code (seckill_error c (SeckillError t m n)) =
    (if t \<in> {ErrRedisDown, ErrMQDown} then 503
     else if t \<in> {ErrStockInsufficient, ErrProductOffline, ErrNotInSeckillTime, ErrAlreadyPurchased, ErrExceedLimit, ErrDuplicateSubmit}
     then 400 else if t = ErrSeckillOverloaded then 429 else 500)"
  "rs_code (seckill_error c (Errf x)) = 500"
  by (auto simp: seckill_error_def)

text \<open>
  C13. Every error of the service gets its own code: an error that carries an HTTP code is answered with
  that code; the only others are an unknown product and a failure of the order number generator, and
  the unknown product is answered with 500.
\<close>

theorem seckill_error_codes:
  assumes "svc_ExecuteSeckill ev spec gen now later a g w = (g', w', Inl err)" "err \<noteq> GoPanic"
  shows "(\<exists>e m n. err = SeckillError e m n \<and> rs_code (seckill_error c err) = n \<and> n \<in> {400, 503}) \<or>
    err = Errf ''product does not exist'' \<and> rs_code (seckill_error c err) = 500 \<or>
    (\<exists>e0 g0 g1. err = Wrapf ''order number generation failed'' e0 \<and> gen g0 = (g1, Inl e0))"
proof -
  consider "err = Errf ''product does not exist''"
    | t m where "err = SeckillError t m 400" "t \<in> {ErrProductOffline, ErrNotInSeckillTime, ErrExceedLimit}"
    | info g0 w0 where "seckill_buy ev gen now later a info g0 w0 = (g', w', Inl err)"
    using assms(1) by (auto simp: svc_ExecuteSeckill_def dest!: product_error admit_error split: prod.splits sum.splits)
  then show ?thesis
  proof cases
    case 1
    then show ?thesis by (simp add: seckill_error_code)
  next
    case 2
    then have "rs_code (seckill_error c err) = 400" by (auto simp: seckill_error_code)
    with 2(1) show ?thesis by blast
  next
    case 3
    from buy_error [OF 3] assms(2) show ?thesis by (auto simp: seckill_error_code)
  qed
qed

theorem seckill_error_codes_witness:
  "\<exists>g' w' e m n. svc_ExecuteSeckill demo_env (\<lambda>_. None) demo_gen 1000 1001 (demo_args\<lparr>sa_quantity := 9\<rparr>) 0 demo_world
      = (g', w', Inl (SeckillError e m n)) \<and> rs_code (seckill_error fresh_context (SeckillError e m n)) = n"
proof -
  have "svc_ExecuteSeckill demo_env (\<lambda>_. None) demo_gen 1000 1001 (demo_args\<lparr>sa_quantity := 9\<rparr>) 0 demo_world
      = (0, demo_world\<lparr>w_redis := demo_cached\<rparr>, Inl (SeckillError ErrExceedLimit [3] 400))"
    by (simp add: svc_ExecuteSeckill_def demo_seckill_product seckill_admit_def seckill_sku_def demo_sale_info_def
        info_of_product_def demo_product_def NewSeckillError_def Let_def)
  with seckill_error_codes [OF this, of fresh_context] show ?thesis by auto
qed

section \<open>The captcha\<close>

text \<open>What the user is asked for: the value of a text of the form number, sign, number.\<close>

definition eval_sum :: "string \<Rightarrow> int option" where
  "eval_sum s = (case dropWhile is_digit s of
      [] \<Rightarrow> None
    | sign # rest \<Rightarrow> (case (parse_int (takeWhile is_digit s), parse_int rest) of
          (Some m, Some n) \<Rightarrow> if sign = CHR ''+'' then Some (m + n) else if sign = CHR ''-'' then Some (m - n) else None
        | _ \<Rightarrow> None))"

lemma fmt_d_run:
  assumes "0 \<le> m" "\<not> is_digit sign"
  shows "takeWhile is_digit (fmt_d m @ sign # rest) = fmt_d m" "dropWhile is_digit (fmt_d m @ sign # rest) = sign # rest"
  using fmt_nat_digits [of "nat m"] assms
  by (auto simp: fmt_d_def list_all_iff takeWhile_append2 dropWhile_append2)

lemma eval_sum_fmt:
  assumes "0 \<le> m" "sign = CHR ''+'' \<or> sign = CHR ''-''"
  shows "eval_sum (fmt_d m @ sign # fmt_d n) = Some (if sign = CHR ''+'' then m + n else m - n)"
proof -
  have "\<not> is_digit sign" using assms(2) by (auto simp: is_digit_def)
  from fmt_d_run [OF assms(1) this] assms(2) show ?thesis by (auto simp: eval_sum_def)
qed

lemma byte_mod_nine: "int (unat ((b :: 8 word) mod 9)) < 9"
  by (simp add: unat_mod)

lemma difference_value:
  assumes "1 \<le> m" "m \<le> 9" "1 \<le> n" "n \<le> 9"
    "(expr, answer) = (if n > m then (fmt_d n @ CHR ''-'' # fmt_d m, n - m) else (fmt_d m @ CHR ''-'' # fmt_d n, m - n))"
  shows "eval_sum expr = Some answer \<and> 0 \<le> answer \<and> answer \<le> 18"
  using assms by (auto simp: eval_sum_fmt split: if_splits)

lemma math_expression:
  assumes "generateMathExpression b1 b2 b3 = (expr, answer)"
  shows "eval_sum expr = Some answer \<and> 0 \<le> answer \<and> answer \<le> 18"
proof -
  let ?n1 = "int (unat (b1 mod 9)) + 1" and ?n2 = "int (unat (b2 mod 9)) + 1"
  have n: "1 \<le> ?n1" "?n1 \<le> 9" "1 \<le> ?n2" "?n2 \<le> 9"
    using byte_mod_nine [of b1] byte_mod_nine [of b2] by simp_all
  have "unat b3 mod 2 = 0 \<or> unat b3 mod 2 = 1" by presburger
  then show ?thesis
  proof
    assume "unat b3 mod 2 = 0"
    with assms have "expr = fmt_d ?n1 @ CHR ''+'' # fmt_d ?n2" "answer = ?n1 + ?n2"
      by (auto simp: generateMathExpression_def Let_def)
    with n show ?thesis by (simp add: eval_sum_fmt)
  next
    assume "unat b3 mod 2 = 1"
    with assms have "(expr, answer) = (if ?n2 > ?n1 then (fmt_d ?n2 @ CHR ''-'' # fmt_d ?n1, ?n2 - ?n1)
        else (fmt_d ?n1 @ CHR ''-'' # fmt_d ?n2, ?n1 - ?n2))"
      by (auto simp: generateMathExpression_def Let_def)
    with n show ?thesis by (rule difference_value)
  qed
qed

context reliable_redis
begin

lemma captcha_answer:
  assumes "SetCaptcha call i answer 120000 s = (s1, Inr v)"
  shows "snd (GetAndVerifyCaptcha call i code s1) = Inr (code = answer)"
proof -
  obtain r where r: "call s (SET (captcha_key i) (fmt_d answer) (Some 120000)) = (s1, r)"
    using assms by (auto simp: SetCaptcha_def set_ttl_def split: prod.splits)
  from answers [OF r] have ks: "kv s1 = put (kv s) (captcha_key i) (RStr (fmt_d answer)) (Some (ks_clock (kv s) + 120000))"
    by (simp add: put_ttl_def)
  have at: "no_hash (kv s1) (captcha_key i)" "str_at (kv s1) (captcha_key i) = Some (fmt_d answer)"
    by (simp_all add: ks redis_simps)
  obtain s2 r2 where r2: "call s1 (EVAL (verify_captcha_lua (captcha_key i) code)) = (s2, r2)" by (rule prod.exhaust)
  from answers [OF r2] at show ?thesis
    by (auto simp: GetAndVerifyCaptcha_def r2 verify_captcha_eval split: if_splits)
qed

end

text \<open>
  The captcha is solvable and its check exact: the expression that \<open>GetCaptcha\<close> sends is a sum or
  difference with a value between 0 and 18, and over a Redis that answers, the stored captcha
  accepts that value and no other.
\<close>

theorem captcha_solvable:
  assumes "reliable_redis call kv" "ctl_GetCaptcha call bytes random c query s = (s1, a)"
    "rs_data a = Some (expr, ttl, captchaID)"
  shows "\<exists>v. eval_sum expr = Some v \<and> 0 \<le> v \<and> v \<le> 18 \<and>
    (\<forall>code. snd (GetAndVerifyCaptcha call captchaID code s1) = Inr (code = v))"
proof -
  obtain b1 b2 b3 where b: "bytes = (b1, b2, b3)" by (rule prod_cases3)
  obtain e v where e: "generateMathExpression b1 b2 b3 = (e, v)" by (rule prod.exhaust)
  obtain s' r where set: "SetCaptcha call (EncodeToString random) v 120000 s = (s', r)" by (rule prod.exhaust)
  have "expr = e \<and> captchaID = EncodeToString random \<and> s1 = s' \<and> (\<exists>u. r = Inr u)"
    using assms(2,3) b e set
    by (auto simp: ctl_GetCaptcha_def BadRequest_def Error_response_def Success_def split: sum.splits)
  with math_expression [OF e] reliable_redis.captcha_answer [OF assms(1)] set show ?thesis by blast
qed

theorem captcha_solvable_witness:
  "\<exists>s1 a v. ctl_GetCaptcha plain_call (3, 5, 7) [0xAB] fresh_context [''product_id'' \<mapsto> ''1''] empty_keyspace = (s1, a) \<and>
     rs_data a = Some (''6-4'', 120, ''ab'') \<and> eval_sum ''6-4'' = Some v \<and>
     snd (GetAndVerifyCaptcha plain_call ''ab'' 2 s1) = Inr (2 = v)"
proof -
  have "parseProductID [''product_id'' \<mapsto> ''1''] = Inr 1" "generateMathExpression 3 5 7 = (''6-4'', 2)" "EncodeToString [0xAB] = ''ab''"
    by code_simp+
  then obtain s1 where s1: "ctl_GetCaptcha plain_call (3, 5, 7) [0xAB] fresh_context [''product_id'' \<mapsto> ''1''] empty_keyspace
      = (s1, Success fresh_context (''6-4'', 120, ''ab''))"
    by (auto simp: ctl_GetCaptcha_def SetCaptcha_def plain_call_def set_ttl_def put_ttl_def Let_def)
  with captcha_solvable [OF plain_redis.reliable_redis_axioms s1, of "''6-4''" 120 "''ab''"] show ?thesis
    by (auto simp: Success_def)
qed

text \<open>A wrong answer leaves the captcha in Redis: it may be guessed until it expires.\<close>

lemma wrong_answer_kept:
  assumes "str_at ks (captcha_key i) = Some v" "parse_int v \<noteq> Some code" "no_hash ks (captcha_key i)"
  shows "GetAndVerifyCaptcha plain_call i code ks = (ks, Inr False)"
  using assms by (simp add: GetAndVerifyCaptcha_def plain_call_def verify_captcha_eval)

end
