(* ===== verification/Sale_Flow.thy ===== *)
theory Sale_Flow
  imports Seckill_Gate
begin

text \<open>
  The way of one sale through the components: the request handler, the service, the order queue
  and the consumer.
\<close>

lemma refusals_have_no_data: "rs_data (seckill_error c err) = None"
  by (simp add: seckill_error_def Error_response_def too_busy_def)

text \<open>A request that was answered with an order led its call to the service, or joined another.\<close>

lemma answered_request:
  assumes "redis_server (ev_call (se_env se)) kv" "db_server (ev_db (se_env se)) view"
    "tickets_plain (kv (w_redis (st_world s)))" "ctl_Seckill se ck gen None c ip (Some req) g s = (g', s', Some a)"
    "rs_code a = 200"
  obtains uid w resp where "gc_user_id c = Some uid" "a = Success c resp" "valid_seckill req" "sold_nothing kv view (st_world s) w"
    "svc_ExecuteSeckill (se_env se) (se_spec se) gen (ck_now ck) (ck_later ck) (args_of_request c ip uid req) g w
       = (g', st_world s', Inr resp)"
proof -
  have no: "rs_code (seckill_error c err) \<noteq> 200" for err
    by (simp add: seckill_error_def)
  from gate_cases [OF assms(1-4) refl] assms(5) obtain uid w where u: "gc_user_id c = Some uid"
    "valid_seckill req" "sold_nothing kv view (st_world s) w"
    "served se ck gen None c (args_of_request c ip uid req) g w g' (st_world s') (Some a)"
    by auto
  then obtain res where res: "svc_ExecuteSeckill (se_env se) (se_spec se) gen (ck_now ck) (ck_later ck)
      (args_of_request c ip uid req) g w = (g', st_world s', res)"
    "Some a = (case res of Inl err \<Rightarrow> if err = GoPanic then None else Some (seckill_error c err) | Inr resp \<Rightarrow> Some (Success c resp))"
    by (auto simp: served_def seckill_merged_def)
  with no assms(5) obtain resp where "res = Inr resp" "a = Success c resp"
    by (cases res) (auto split: if_splits)
  with u(1-3) res(1) that show thesis by blast
qed

context db_server
begin

text \<open>A row stays while the consumer works.\<close>

lemma consume_grows:
  assumes "ev_db ev = ops" "orders_ok (view (w_db w))" "consume settle (order_consumer ev now) n q w = (q', w', tr)"
  shows "orders_evolve (view (w_db w)) (view (w_db w'))"
proof -
  note handler = service_handles_orders [of ev view, unfolded assms(1), OF db_server_axioms]
  have "grows_ok view w w" using assms(2) by (simp add: grows_ok_def)
  then have "grows_ok view w w'"
    using order_handler.consume_keeps [OF handler [of now w] _ assms(3) [unfolded order_consumer_def]]
      order_handler.handle_order_keeps [OF handler [of now w]] by blast
  then show ?thesis by (simp add: grows_ok_def)
qed

end

section \<open>A sale from the request to the order\<close>

definition sale_context :: gin_context where
  "sale_context = root_context\<lparr>gc_trace_id := Some ''t1''\<rparr>"

definition sale_site :: "(faulty_server, database, demo_broker, real, rule_store) site" where
  "sale_site = demo_site\<lparr>st_world := demo_world\<lparr>w_redis := \<lparr>fs_ks = put (fs_ks demo_redis) (captcha_key ''id'') (RStr (fmt_d 7)) None,
     fs_faults = []\<rparr>\<rparr>\<rparr>"

abbreviation sale_exchange :: string where "sale_exchange \<equiv> rx_order (rb_exchange (ev_rabbit demo_env))"
abbreviation sale_queues :: rabbit_queue_config where "sale_queues \<equiv> rb_queue (ev_rabbit demo_env)"

definition sale_message :: msg where "sale_message = queued_body demo_args demo_sale_info 1000 ''A1''"

lemma put_then_drop: "ks_data ks k = None \<Longrightarrow> drop_key (put ks k v x) k = ks"
  by (simp add: put_def drop_key_def fun_upd_idem)

lemma sale_config: "sale_exchange \<noteq> []" "rq_delay sale_queues \<noteq> []" "rq_delay sale_queues \<noteq> rq_order sale_queues"
  by (simp_all add: demo_config_def)

lemma sale_published:
  "\<exists>w'. svc_ExecuteSeckill demo_env (\<lambda>_. None) demo_gen 1000 1001 demo_args 0 demo_world
      = (1, w', Inr (queued_response ''A1'')) \<and> w_db w' = demo_db \<and>
    set (mq_sent bk_sent (w_mq w')) \<subseteq> {(sale_exchange, rq_order sale_queues, JsonBody sale_message),
      (sale_exchange, rq_delay sale_queues, JsonBody (delay_body demo_args ''A1''))} \<and>
    (sale_exchange, rq_order sale_queues, JsonBody sale_message) \<in> set (mq_sent bk_sent (w_mq w'))"
proof -
  obtain s' where s': "DecrStockAndIncrPurchaseWithIdempotent faulty_call 7 1 2 3 89000 ''k'' demo_cached = (s', Inr (8, 2, 1))"
    using demo_purchase_cached by blast
  have info: "pi_limit_per_user demo_sale_info = 3" "pi_end_time demo_sale_info = 90000"
    by (simp_all add: demo_sale_info_def info_of_product_def demo_product_def)
  obtain q1 where q1: "PublishOrder demo_amqp sale_exchange (rq_order sale_queues) (JsonBody sale_message) (demo_mq_state [])
      = (q1, Inr ())"
    using demo_publish by blast
  obtain q2 r2 where q2: "PublishDelay demo_amqp sale_exchange (rq_delay sale_queues) (JsonBody (delay_body demo_args ''A1'')) q1
      = (q2, r2)"
    by (rule prod.exhaust)
  have "mq_sent bk_sent (demo_mq_state []) = []" by (simp add: mq_sent_def demo_mq_state_def fresh_broker_def)
  then have "set (mq_sent bk_sent q2) \<subseteq> {(sale_exchange, rq_order sale_queues, JsonBody sale_message),
      (sale_exchange, rq_delay sale_queues, JsonBody (delay_body demo_args ''A1''))}"
    using demo_mq.PublishOrder_sent(1) [OF q1] demo_mq.PublishDelay_sent [OF q2 sale_config(1,2)] by auto
  moreover have "(sale_exchange, rq_order sale_queues, JsonBody sale_message) \<in> set (mq_sent bk_sent q2)"
    using demo_mq.PublishOrder_sent(1) [OF q1] demo_mq.PublishDelay_sent [OF q2 sale_config(1,2)] by auto
  ultimately show ?thesis
    using s' q1 q2 by (simp add: svc_ExecuteSeckill_def demo_seckill_product demo_admit seckill_buy_def on_redis_def info
        demo_gen_def seckill_publish_def json_Marshal_def on_mq_def Let_def trackBehavior_def seckill_succeeded_def
        flip: sale_message_def)
qed

lemma demo_no_captcha: "ks_data (fs_ks demo_redis) (captcha_key ''id'') = None"
  by (simp add: demo_redis_ks put_def empty_keyspace_def key_simps)

lemma sale_tickets:
  "tickets_plain (fs_ks (w_redis (st_world sale_site)))"
  "on_redis (seckill_tickets faulty_call True c 7 demo_seckill_request) (st_world sale_site) = (demo_world, None)"
proof -
  have plain: "no_hash (fs_ks demo_redis) (path_key u p)" "no_hash (fs_ks demo_redis) (captcha_key i)" for u p i
    by (simp_all add: demo_redis_ks put_def key_simps no_hash_def live_def empty_keyspace_def)
  then show "tickets_plain (fs_ks (w_redis (st_world sale_site)))"
    by (auto simp: tickets_plain_def sale_site_def redis_simps)
  have w: "demo_world\<lparr>w_redis := \<lparr>fs_ks = fs_ks demo_redis, fs_faults = []\<rparr>\<rparr> = demo_world"
    using demo_redis_faults by (cases "demo_redis") (simp add: demo_world_def)
  show "on_redis (seckill_tickets faulty_call True c 7 demo_seckill_request) (st_world sale_site) = (demo_world, None)"
    using plain w by (simp add: on_redis_def sale_site_def seckill_tickets_def demo_seckill_request_def GetAndVerifyCaptcha_def
        faulty_call_def verify_captcha_eval redis_simps put_then_drop demo_no_captcha)
qed

lemma sale_answered:
  "\<exists>s'. ctl_Seckill demo_site_env demo_clock demo_gen None sale_context ''10.0.0.1'' (Some demo_seckill_request) 0 sale_site
      = (1, s', Some (Success sale_context (queued_response ''A1''))) \<and> w_db (st_world s') = demo_db \<and>
    set (mq_sent bk_sent (w_mq (st_world s'))) \<subseteq> {(sale_exchange, rq_order sale_queues, JsonBody sale_message),
      (sale_exchange, rq_delay sale_queues, JsonBody (delay_body demo_args ''A1''))} \<and>
    (sale_exchange, rq_order sale_queues, JsonBody sale_message) \<in> set (mq_sent bk_sent (w_mq (st_world s')))"
proof -
  obtain w' where w': "svc_ExecuteSeckill demo_env (\<lambda>_. None) demo_gen 1000 1001 demo_args 0 demo_world
      = (1, w', Inr (queued_response ''A1''))" "w_db w' = demo_db"
    "set (mq_sent bk_sent (w_mq w')) \<subseteq> {(sale_exchange, rq_order sale_queues, JsonBody sale_message),
      (sale_exchange, rq_delay sale_queues, JsonBody (delay_body demo_args ''A1''))}"
    "(sale_exchange, rq_order sale_queues, JsonBody sale_message) \<in> set (mq_sent bk_sent (w_mq w'))"
    using sale_published by blast
  have a: "args_of_request sale_context ''10.0.0.1'' 7 demo_seckill_request = demo_args"
    by (simp add: args_of_request_def demo_args_def demo_seckill_request_def sale_context_def GetTraceID_def)
  have c: "gc_role sale_context = Some ''admin''" "gc_user_id sale_context = Some 7"
    by (simp_all add: sale_context_def root_context_def)
  have "valid_seckill demo_seckill_request" by (simp add: valid_seckill_def demo_seckill_request_def)
  with w' a c sale_tickets(2) [of sale_context, where 'a = seckill_response] show ?thesis
    by (simp add: ctl_Seckill_def on_world_def seckill_is_admin_def admin_role_def seckill_checked_def bind_json_def
        demo_site_env_def seckill_screened_def seckill_execute_def demo_clock_def
        seckill_merged_def seckill_accepted_def Let_def)
qed

lemma sale_consumed:
  assumes "w_db w = demo_db"
  shows "\<exists>w'. consume rabbit_settle (order_consumer demo_env (\<lambda>_. 5)) 1 [\<lparr>dl_body = JsonBody sale_message, dl_headers = None\<rparr>] w
      = ([], w', [(\<lparr>dl_body = JsonBody sale_message, dl_headers = None\<rparr>, Ack)])"
proof -
  have "parse_order_msg sale_message = Inr \<lparr>om_order_no = ''A1'', om_user_id = 7, om_product_id = 1,
      om_product_name = ''phone'', om_seckill_price = 20, om_quantity = 2, om_total_amount = 40\<rparr>"
    by (simp add: sale_message_def parse_order_msg_def queued_body_def order_body_def get_string_def get_float_def
        float_to_int_def demo_sale_info_def info_of_product_def demo_product_def)
  with assms have "\<exists>w1. svc_CreateOrder demo_env 5 sale_message w = (w1, Inr ())"
    by (simp add: svc_CreateOrder_def on_db_def demo_get demo_create_row demo_deduct)
  then show ?thesis
    by (auto simp: One_nat_def order_consumer_def handle_order_def create_handler_def rabbit_settle_def)
qed

end
