(* ===== verification/Monitor_Service.thy ===== *)
theory Monitor_Service
  imports World Config
begin

text \<open>
  The dashboard of \<^verbatim>\<open>service/monitor_service.go\<close>: slow requests, the probes of the servers with
  their cache, alarms, traffic, sale statistics, best sellers and stock levels. A TCP dial is the
  parameter \<open>dial\<close>; the memory statistics and the number of goroutines are arguments. \<^verbatim>\<open>sort.Slice\<close>
  does not fix the order of equal elements; the model keeps the order of the list. Float64
  values are rationals.
\<close>

section \<open>State\<close>

record slow_api_record =
  sp_path :: string
  sp_method :: string
  sp_duration_ms :: int
  sp_time :: string

record middleware_status =
  mw_name :: string
  mw_status :: string
  mw_address :: string
  mw_uptime :: string

text \<open>The recorded slow requests, the cached statuses (\<open>None\<close> before the first probe) and their time.\<close>

record dashboard =
  da_slow :: "slow_api_record list"
  da_status :: "middleware_status list option"
  da_status_at :: int

definition maxSlowAPIRecords :: nat where "maxSlowAPIRecords = 100"

section \<open>Slow requests\<close>

definition RecordSlowAPI ::
  "int \<Rightarrow> string \<Rightarrow> string \<Rightarrow> string \<Rightarrow> int \<Rightarrow> dashboard \<times> stats_engine \<Rightarrow> dashboard \<times> stats_engine" where
  "RecordSlowAPI now timeOfDay path method durationMs de =
     (let (d, e) = de;
          recs = da_slow d @ [\<lparr>sp_path = path, sp_method = method, sp_duration_ms = durationMs, sp_time = timeOfDay\<rparr>]
      in (d\<lparr>da_slow := (if length recs > maxSlowAPIRecords then drop (length recs - maxSlowAPIRecords) recs else recs)\<rparr>,
          RecordAlarm now ''warning'' ''slow request'' (path @ '' took '' @ fmt_d durationMs @ ''ms'') e))"

definition GetSlowAPIs :: "dashboard \<Rightarrow> slow_api_record list" where
  "GetSlowAPIs d = (let result = sort_key (\<lambda>r. - sp_duration_ms r) (da_slow d) in
     if length result > 20 then take 20 result else result)"

section \<open>Metrics\<close>

record monitor_metrics =
  mm_reject_count :: int
  mm_pass_count :: int
  mm_avg_rt :: rat
  mm_qps :: rat
  mm_cpu_usage :: rat
  mm_mem_usage :: rat
  mm_active_conns :: int

definition svc_GetMetrics :: "int \<Rightarrow> int \<Rightarrow> int \<Rightarrow> monitor \<Rightarrow> monitor_metrics" where
  "svc_GetMetrics alloc sys goroutines m =
     (let (ntotal, avgMs) = GetRequestStats (mo_engine m);
          memUsage = (if sys > 0 then of_int alloc / of_int sys * 100 else 0)
      in \<lparr>mm_reject_count = sm_sentinel_reject (mo_metrics m), mm_pass_count = ntotal, mm_avg_rt = avgMs,
          mm_qps = GetQPS (mo_engine m), mm_cpu_usage = - 1, mm_mem_usage = memUsage, mm_active_conns = goroutines\<rparr>)"

section \<open>Probes\<close>

text \<open>\<^verbatim>\<open>net.JoinHostPort\<close>: a host with a colon or a percent sign is put into brackets.\<close>

definition JoinHostPort :: "string \<Rightarrow> string \<Rightarrow> string" where
  "JoinHostPort host port =
     (if CHR '':'' \<in> set host \<or> CHR ''%'' \<in> set host then ''['' @ host @ '']:'' @ port else host @ '':'' @ port)"

text \<open>
  Host and port of \<^verbatim>\<open>url.Parse\<close>: the authority after \<^verbatim>\<open>://\<close> up to a slash, question mark or hash,
  without user and password; an address in brackets keeps its colons; a port that is no number is
  an error. Escapes in the host are not decoded.
\<close>

fun after_scheme :: "string \<Rightarrow> string" where
  "after_scheme [] = []"
| "after_scheme (ch # s) = (if take 3 (ch # s) = ''://'' then drop 3 (ch # s) else after_scheme s)"

definition url_host :: "string \<Rightarrow> string" where
  "url_host raw = (let auth = takeWhile (\<lambda>ch. ch \<notin> set ''/?#'') (after_scheme raw)
     in rev (takeWhile (\<lambda>ch. ch \<noteq> CHR ''@'') (rev auth)))"

definition split_host :: "string \<Rightarrow> string \<times> string" where
  "split_host h =
     (if h \<noteq> [] \<and> hd h = CHR ''[''
      then (takeWhile (\<lambda>ch. ch \<noteq> CHR '']'') (tl h), drop 2 (dropWhile (\<lambda>ch. ch \<noteq> CHR '']'') h))
      else if CHR '':'' \<in> set h
      then (rev (drop 1 (dropWhile (\<lambda>ch. ch \<noteq> CHR '':'') (rev h))), rev (takeWhile (\<lambda>ch. ch \<noteq> CHR '':'') (rev h)))
      else (h, []))"

definition parseAMQPAddress :: "string \<Rightarrow> (string \<times> string) result" where
  "parseAMQPAddress raw =
     (let (host, port) = split_host (url_host raw) in
      if \<not> list_all is_digit port then Inl (Errf ''invalid port'')
      else Inr (host, if port = [] then ''5672'' else port))"

definition builtin :: string where "builtin = ''builtin''"

definition buildMWTargets :: "config \<Rightarrow> (string \<times> string) list" where
  "buildMWTargets cfg =
     (if my_host (my_master (cf_mysql cfg)) \<noteq> []
      then [(''MySQL'', JoinHostPort (my_host (my_master (cf_mysql cfg))) (fmt_d (my_port (my_master (cf_mysql cfg)))))] else []) @
     (case rd_addrs (cf_redis cfg) of [] \<Rightarrow> [] | a # _ \<Rightarrow> [(''Redis Cluster'', a)]) @
     (case rb_urls (cf_rabbit cfg) of [] \<Rightarrow> []
        | u # _ \<Rightarrow> (case parseAMQPAddress u of Inl _ \<Rightarrow> [] | Inr (host, port) \<Rightarrow> [(''RabbitMQ'', JoinHostPort host port)])) @
     (case kf_brokers (cf_kafka cfg) of [] \<Rightarrow> [] | b # _ \<Rightarrow> [(''Kafka'', b)]) @
     (case et_endpoints (cf_etcd cfg) of [] \<Rightarrow> [] | a # _ \<Rightarrow> [(''Etcd'', a)]) @
     [(''Sentinel'', builtin)]"

definition probeMWStatus :: "(string \<Rightarrow> bool) \<Rightarrow> string \<Rightarrow> config \<Rightarrow> middleware_status list" where
  "probeMWStatus dial uptime cfg =
     map (\<lambda>(name, address). \<lparr>mw_name = name, mw_status = (if address = builtin \<or> dial address then ''up'' else ''down''),
            mw_address = address, mw_uptime = uptime\<rparr>) (buildMWTargets cfg)"

definition GetMiddlewareStatus ::
  "(string \<Rightarrow> bool) \<Rightarrow> string \<Rightarrow> config \<Rightarrow> int \<Rightarrow> dashboard \<Rightarrow> dashboard \<times> middleware_status list" where
  "GetMiddlewareStatus dial uptime cfg now d =
     (case da_status d of
        Some cached \<Rightarrow> if now - da_status_at d < 5000 then (d, cached)
          else (let r = probeMWStatus dial uptime cfg in (d\<lparr>da_status := Some r, da_status_at := now\<rparr>, r))
      | None \<Rightarrow> (let r = probeMWStatus dial uptime cfg in (d\<lparr>da_status := Some r, da_status_at := now\<rparr>, r)))"

section \<open>Alarms and traffic\<close>

record alarm =
  am_id :: int
  am_level :: string
  am_message :: string
  am_source :: string
  am_created_at :: int

definition alarm_of_item :: "alarm_item \<Rightarrow> alarm" where
  "alarm_of_item it = \<lparr>am_id = 0, am_level = al_level it, am_message = al_message it, am_source = al_source it,
     am_created_at = al_time it\<rparr>"

definition svc_GetAlarms ::
  "(string \<Rightarrow> bool) \<Rightarrow> string \<Rightarrow> config \<Rightarrow> int \<Rightarrow> monitor \<Rightarrow> dashboard \<Rightarrow> dashboard \<times> alarm list" where
  "svc_GetAlarms dial uptime cfg now m d =
     (let items = GetStatsAlarms 50 (mo_engine m) in
      case GetMiddlewareStatus dial uptime cfg now d of (d1, status) \<Rightarrow>
        (d1, map alarm_of_item items @
           map (\<lambda>mw. \<lparr>am_id = 0, am_level = ''critical'', am_message = mw_name mw @ '' connection failed ('' @ mw_address mw @ '')'',
                       am_source = ''middleware probe'', am_created_at = now\<rparr>)
             (filter (\<lambda>mw. mw_status mw \<noteq> ''up'') status)))"

definition GetQPSHistory :: "monitor \<Rightarrow> (string \<times> rat) list" where
  "GetQPSHistory m = (case GetQPSHistorySeconds 60 (mo_engine m) of (ts, vs) \<Rightarrow> zip ts vs)"

text \<open>Page views, visitors, requests per second, and the requests of each second with its time.\<close>

definition svc_GetPVUV :: "monitor \<Rightarrow> int \<times> int \<times> rat \<times> (string \<times> int) list" where
  "svc_GetPVUV m =
     (case GetPVUV (mo_engine m) of (pv, uv, qps, perSecond) \<Rightarrow>
        (let ts = fst (GetQPSHistorySeconds (int (length perSecond)) (mo_engine m))
         in (pv, uv, qps, map (\<lambda>i. (if i < length ts then ts ! i else [], perSecond ! i)) [0 ..< length perSecond])))"

record seckill_stats =
  sk_total_orders :: int
  sk_success_rate :: rat
  sk_qps :: rat
  sk_mq_backlog :: int
  sk_pv :: int
  sk_uv :: int
  sk_conversion_rate :: rat
  sk_requests :: int
  sk_success :: int
  sk_fail :: int
  sk_order_timeout :: int
  sk_mq_published :: int
  sk_mq_consumed :: int
  sk_mq_connected :: bool

definition GetSeckillStats :: "'b amqp \<Rightarrow> monitor \<Rightarrow> 'b mq_state \<Rightarrow> seckill_stats" where
  "GetSeckillStats am m q =
     (let (success, fail, created, timeouts) = GetSeckillMetrics m; requests = success + fail;
          successRate = (if requests > 0 then of_int success / of_int requests * 100 else 0);
          (pv, uv, _, _) = GetPVUV (mo_engine m);
          conversion = (if uv > 0 then of_int success / of_int uv * 100 else 0);
          mqStats = GetMQStats am q
      in \<lparr>sk_total_orders = created, sk_success_rate = successRate, sk_qps = GetQPS (mo_engine m),
          sk_mq_backlog = mt_backlog mqStats, sk_pv = pv, sk_uv = uv, sk_conversion_rate = conversion,
          sk_requests = requests, sk_success = success, sk_fail = fail, sk_order_timeout = timeouts,
          sk_mq_published = mt_published mqStats, sk_mq_consumed = mt_consumed mqStats, sk_mq_connected = mt_connected mqStats\<rparr>)"

section \<open>Best sellers and stock\<close>

record hot_product =
  hp_product_id :: int
  hp_product_name :: string
  hp_sold_quantity :: int
  hp_seckill_price :: rat
  hp_redis_stock :: int
  hp_db_remain_stock :: int
  hp_total_stock :: int
  hp_stock_percent :: rat
  hp_status :: int

record inventory_item =
  iv_product_id :: int
  iv_product_name :: string
  iv_redis_stock :: int
  iv_db_remain_stock :: int
  iv_total_stock :: int
  iv_stock_percent :: rat
  iv_warning_level :: string

text \<open>The stock in Redis, or the one of the row when Redis has none.\<close>

definition shown_stock :: "('r, 'd, 'q) env \<Rightarrow> product \<Rightarrow> ('r, 'd, 'q) world \<Rightarrow> ('r, 'd, 'q) world \<times> int" where
  "shown_stock ev p w = (case on_redis (GetStock (ev_call ev) (p_id p)) w of
      (w1, Inr stock) \<Rightarrow> (w1, stock) | (w1, Inl _) \<Rightarrow> (w1, p_remain_stock p))"

definition hot_product_of ::
  "('r, 'd, 'q) env \<Rightarrow> (int \<rightharpoonup> product) \<Rightarrow> hot_item \<Rightarrow> ('r, 'd, 'q) world \<Rightarrow> ('r, 'd, 'q) world \<times> hot_product" where
  "hot_product_of ev productMap h w =
     (let item = \<lparr>hp_product_id = ht_product_id h, hp_product_name = ht_product_name h,
            hp_sold_quantity = ht_sold_quantity h, hp_seckill_price = 0, hp_redis_stock = 0, hp_db_remain_stock = 0,
            hp_total_stock = 0, hp_stock_percent = 0, hp_status = 0\<rparr>
      in case productMap (ht_product_id h) of
           None \<Rightarrow> (w, item)
         | Some p \<Rightarrow> (case shown_stock ev p w of
               (w1, stock) \<Rightarrow> (w1, item\<lparr>hp_product_name := p_name p, hp_seckill_price := p_seckill_price p,
                 hp_db_remain_stock := p_remain_stock p, hp_total_stock := p_total_stock p, hp_status := p_status p,
                 hp_redis_stock := stock,
                 hp_stock_percent := (if p_total_stock p > 0 then of_int stock / of_int (p_total_stock p) * 100 else 0)\<rparr>)))"

fun map_world :: "('a \<Rightarrow> 'w \<Rightarrow> 'w \<times> 'b) \<Rightarrow> 'a list \<Rightarrow> 'w \<Rightarrow> 'w \<times> 'b list" where
  "map_world f [] w = (w, [])"
| "map_world f (x # xs) w = (case f x w of (w1, y) \<Rightarrow> (case map_world f xs w1 of (w2, ys) \<Rightarrow> (w2, y # ys)))"

text \<open>\<open>ks\<close> enumerates the keys of the sales map.\<close>

definition svc_GetHotProducts ::
  "('r, 'd, 'q) env \<Rightarrow> int list \<Rightarrow> int \<Rightarrow> int \<Rightarrow> ('r, 'd, 'q) world \<Rightarrow> ('r, 'd, 'q) world \<times> hot_product list" where
  "svc_GetHotProducts ev ks now topN w =
     (let hot = GetHotProducts ks topN (mo_engine (w_mon w)) in
      case on_db (GetActiveProducts (ev_db ev) now) w of (w1, r) \<Rightarrow>
        (let productMap = (case r of Inl _ \<Rightarrow> Map.empty | Inr ps \<Rightarrow> map_of (rev (map (\<lambda>p. (p_id p, p)) ps)))
         in map_world (hot_product_of ev productMap) hot w1))"

definition warning_level :: "int \<Rightarrow> rat \<Rightarrow> string" where
  "warning_level redisStock percent =
     (if redisStock \<le> 0 then ''soldout''
      else if percent < 10 then ''danger''
      else if percent < 30 then ''warning''
      else ''normal'')"

definition inventory_item_of ::
  "('r, 'd, 'q) env \<Rightarrow> product \<Rightarrow> ('r, 'd, 'q) world \<Rightarrow> ('r, 'd, 'q) world \<times> inventory_item" where
  "inventory_item_of ev p w = (case shown_stock ev p w of (w1, redisStock) \<Rightarrow>
      (let percent = (if p_total_stock p > 0 then of_int redisStock / of_int (p_total_stock p) * 100 else 100)
       in (w1, \<lparr>iv_product_id = p_id p, iv_product_name = p_name p, iv_redis_stock = redisStock,
              iv_db_remain_stock = p_remain_stock p, iv_total_stock = p_total_stock p, iv_stock_percent = percent,
              iv_warning_level = warning_level redisStock percent\<rparr>)))"

definition GetInventory ::
  "('r, 'd, 'q) env \<Rightarrow> int \<Rightarrow> ('r, 'd, 'q) world \<Rightarrow> ('r, 'd, 'q) world \<times> inventory_item list" where
  "GetInventory ev now w = (case on_db (GetActiveProducts (ev_db ev) now) w of
      (w1, Inl _) \<Rightarrow> (w1, [])
    | (w1, Inr products) \<Rightarrow> (case map_world (inventory_item_of ev) products w1 of
          (w2, items) \<Rightarrow> (w2, sort_key iv_stock_percent items)))"

end
