(* ===== verification/Monitor_Api.thy ===== *)
theory Monitor_Api
  imports Monitor_Service Http_Api Detector Ws_Hub Reconciler
begin

text \<open>
  The handlers of \<^verbatim>\<open>controller/monitor_controller.go\<close>, the slow request log of
  \<^verbatim>\<open>RequestLogMiddleware\<close>, and what the dashboard shows: the slowest of the last hundred slow
  requests, statuses at most five seconds old, and the stock of Redis with its warning level.
\<close>

section \<open>Handlers\<close>

text \<open>\<open>duration\<close> is the time of the handler in nanoseconds; the log line itself is not modelled.\<close>

definition RequestLogMiddleware ::
  "int \<Rightarrow> int \<Rightarrow> string \<Rightarrow> http_request \<Rightarrow> dashboard \<times> stats_engine \<Rightarrow> dashboard \<times> stats_engine" where
  "RequestLogMiddleware duration now timeOfDay r de =
     (if duration > 500 * 1000000 then RecordSlowAPI now timeOfDay (hr_path r) (hr_method r) (duration div 1000000) de else de)"

definition ctl_GetMetrics :: "gin_context \<Rightarrow> int \<Rightarrow> int \<Rightarrow> int \<Rightarrow> monitor \<Rightarrow> monitor_metrics response" where
  "ctl_GetMetrics c alloc sys goroutines m = Success c (svc_GetMetrics alloc sys goroutines m)"

definition ctl_GetQPS :: "gin_context \<Rightarrow> monitor \<Rightarrow> (string \<times> rat) list response" where
  "ctl_GetQPS c m = Success c (GetQPSHistory m)"

definition ctl_GetMiddlewareStatus ::
  "gin_context \<Rightarrow> (string \<Rightarrow> bool) \<Rightarrow> string \<Rightarrow> config \<Rightarrow> int \<Rightarrow> dashboard \<Rightarrow> dashboard \<times> middleware_status list response" where
  "ctl_GetMiddlewareStatus c dial uptime cfg now d =
     (case GetMiddlewareStatus dial uptime cfg now d of (d1, st) \<Rightarrow> (d1, Success c st))"

definition ctl_GetAlarms ::
  "gin_context \<Rightarrow> (string \<Rightarrow> bool) \<Rightarrow> string \<Rightarrow> config \<Rightarrow> int \<Rightarrow> monitor \<Rightarrow> dashboard \<Rightarrow> dashboard \<times> alarm list response" where
  "ctl_GetAlarms c dial uptime cfg now m d =
     (case svc_GetAlarms dial uptime cfg now m d of (d1, alarms) \<Rightarrow> (d1, Success c alarms))"

definition ctl_GetSeckillStats :: "gin_context \<Rightarrow> 'b amqp \<Rightarrow> monitor \<Rightarrow> 'b mq_state \<Rightarrow> seckill_stats response" where
  "ctl_GetSeckillStats c am m q = Success c (GetSeckillStats am m q)"

definition ctl_GetSlowAPIs :: "gin_context \<Rightarrow> dashboard \<Rightarrow> slow_api_record list response" where
  "ctl_GetSlowAPIs c d = Success c (GetSlowAPIs d)"

record anomaly_stats =
  as_profile_count :: nat
  as_window_size :: int
  as_block_duration_min :: int

definition ctl_GetAnomalyStats :: "gin_context \<Rightarrow> 'f anomaly_detector \<Rightarrow> anomaly_stats response" where
  "ctl_GetAnomalyStats c ad = Success c \<lparr>as_profile_count = ProfileCount ad, as_window_size = 20, as_block_duration_min = 5\<rparr>"

definition ctl_GetWSStats :: "gin_context \<Rightarrow> 'a hub \<Rightarrow> (nat \<times> int \<times> int) response" where
  "ctl_GetWSStats c h = Success c (hub_Stats h)"

definition ctl_GetPVUV :: "gin_context \<Rightarrow> monitor \<Rightarrow> (int \<times> int \<times> rat \<times> (string \<times> int) list) response" where
  "ctl_GetPVUV c m = Success c (svc_GetPVUV m)"

definition top_query :: "(string \<rightharpoonup> string) \<Rightarrow> int" where
  "top_query query = (case query ''top'' of
      None \<Rightarrow> 10
    | Some v \<Rightarrow> if v = [] then 10
                else (case Atoi v of None \<Rightarrow> 10 | Some n \<Rightarrow> if 0 < n \<and> n \<le> 50 then n else 10))"

definition ctl_GetHotProducts ::
  "('r, 'd, 'q) env \<Rightarrow> int list \<Rightarrow> int \<Rightarrow> gin_context \<Rightarrow> (string \<rightharpoonup> string) \<Rightarrow> ('r, 'd, 'q) world
     \<Rightarrow> ('r, 'd, 'q) world \<times> hot_product list response" where
  "ctl_GetHotProducts ev ks now c query w =
     (case svc_GetHotProducts ev ks now (top_query query) w of (w1, xs) \<Rightarrow> (w1, Success c xs))"

definition ctl_GetInventory ::
  "('r, 'd, 'q) env \<Rightarrow> int \<Rightarrow> gin_context \<Rightarrow> ('r, 'd, 'q) world \<Rightarrow> ('r, 'd, 'q) world \<times> inventory_item list response" where
  "ctl_GetInventory ev now c w = (case GetInventory ev now w of (w1, items) \<Rightarrow> (w1, Success c items))"

section \<open>Slow requests\<close>

definition slow_step :: "int \<times> string \<times> string \<times> string \<times> int \<Rightarrow> dashboard \<times> stats_engine \<Rightarrow> dashboard \<times> stats_engine" where
  "slow_step ev de = (case ev of (now, t, path, m, ms) \<Rightarrow> RecordSlowAPI now t path m ms de)"

definition slow_record :: "int \<times> string \<times> string \<times> string \<times> int \<Rightarrow> slow_api_record" where
  "slow_record ev = (case ev of (now, t, path, m, ms) \<Rightarrow>
     \<lparr>sp_path = path, sp_method = m, sp_duration_ms = ms, sp_time = t\<rparr>)"

lemma keep_last_append: "keep_last n (keep_last n xs @ ys) = keep_last n (xs @ ys)"
  by (auto simp: keep_last_def add.commute)

lemma slow_step_keeps: "da_slow (fst (slow_step ev de)) = keep_last 100 (da_slow (fst de) @ [slow_record ev])"
  by (cases ev) (auto simp: slow_step_def slow_record_def RecordSlowAPI_def keep_last_def maxSlowAPIRecords_def Let_def split: prod.splits)

lemma slow_run_keeps:
  "da_slow (fst (fold slow_step evs (d, e))) = keep_last 100 (da_slow d @ map slow_record evs) \<or> evs = []"
proof (induction evs rule: rev_induct)
  case (snoc ev evs)
  then show ?case by (auto simp: slow_step_keeps keep_last_append)
qed simp

text \<open>
  The list of slow requests has at most twenty entries, slowest first, all of them among the last
  hundred that were recorded, and none of those that are left out is slower than one that is shown.
\<close>

theorem slowest_of_the_last_hundred:
  assumes "evs \<noteq> []" "d' = fst (fold slow_step evs (d, e))"
  shows "let recent = keep_last 100 (da_slow d @ map slow_record evs) in
    length (GetSlowAPIs d') \<le> 20 \<and> sorted (map (\<lambda>r. - sp_duration_ms r) (GetSlowAPIs d')) \<and>
    mset (GetSlowAPIs d') \<subseteq># mset recent \<and>
    (\<forall>r \<in># mset recent - mset (GetSlowAPIs d'). \<forall>q \<in> set (GetSlowAPIs d'). sp_duration_ms r \<le> sp_duration_ms q)"
proof -
  let ?recent = "keep_last 100 (da_slow d @ map slow_record evs)"
  let ?s = "sort_key (\<lambda>r. - sp_duration_ms r) ?recent"
  have d': "da_slow d' = ?recent" using slow_run_keeps [of evs d e] assms by auto
  have top: "GetSlowAPIs d' = take 20 ?s" by (simp add: GetSlowAPIs_def d' Let_def)
  have m: "mset ?recent = mset (take 20 ?s) + mset (drop 20 ?s)"
    by (metis append_take_drop_id mset_append mset_sort)
  have sorted: "sorted (map (\<lambda>r. - sp_duration_ms r) (take 20 ?s @ drop 20 ?s))" by simp
  then have "sp_duration_ms r \<le> sp_duration_ms q" if "r \<in> set (drop 20 ?s)" "q \<in> set (take 20 ?s)" for r q
    using that unfolding map_append sorted_append by fastforce
  moreover have "mset ?recent - mset (take 20 ?s) = mset (drop 20 ?s)" unfolding m by simp
  moreover have "mset (take 20 ?s) \<subseteq># mset ?recent" unfolding m by simp
  moreover have "sorted (map (\<lambda>r. - sp_duration_ms r) (take 20 ?s))"
    using sorted unfolding map_append sorted_append by blast
  ultimately show ?thesis unfolding Let_def top by simp
qed

section \<open>Statuses\<close>

text \<open>What a status was, it was at most five seconds before it is shown.\<close>

lemma status_is_fresh:
  assumes "GetMiddlewareStatus dial uptime cfg now d = (d', st)"
  shows "st = probeMWStatus dial uptime cfg \<and> da_status_at d' = now \<or>
    d' = d \<and> da_status d = Some st \<and> now - da_status_at d < 5000"
  using assms by (auto simp: GetMiddlewareStatus_def Let_def split: option.splits if_splits)

section \<open>Stock\<close>

definition shown_item :: "keyspace \<Rightarrow> product \<Rightarrow> inventory_item" where
  "shown_item ks p =
     (let n = count_at ks (stock_key (p_id p)); percent = (if p_total_stock p > 0 then of_int n / of_int (p_total_stock p) * 100 else 100)
      in \<lparr>iv_product_id = p_id p, iv_product_name = p_name p, iv_redis_stock = n, iv_db_remain_stock = p_remain_stock p,
          iv_total_stock = p_total_stock p, iv_stock_percent = percent, iv_warning_level = warning_level n percent\<rparr>)"

lemma inventory_items:
  assumes "reliable_redis (ev_call ev) kv" "stocks_numeric (kv (w_redis w))"
    "map_world (inventory_item_of ev) ps w = (w', items)"
  shows "items = map (shown_item (kv (w_redis w))) ps \<and> kv (w_redis w') = kv (w_redis w)"
  using assms(2,3)
proof (induction ps arbitrary: w w' items)
  case (Cons p ps)
  obtain w1 r where g: "on_redis (GetStock (ev_call ev) (p_id p)) w = (w1, r)" by (rule prod.exhaust)
  note r = reliable_redis.GetStock_reads [OF assms(1) on_redisD [OF g] Cons.prems(1)]
  obtain w2 rest where m: "map_world (inventory_item_of ev) ps w1 = (w2, rest)" by (rule prod.exhaust)
  from Cons.IH [OF _ m] r(1) Cons.prems(1) have "rest = map (shown_item (kv (w_redis w))) ps \<and> kv (w_redis w2) = kv (w_redis w)"
    by simp
  moreover have "inventory_item_of ev p w = (w1, shown_item (kv (w_redis w)) p)"
    using g r(2) by (simp add: inventory_item_of_def shown_stock_def shown_item_def Let_def)
  ultimately show ?case using Cons.prems(2) m by auto
qed simp

lemma level_soldout: "warning_level n percent = ''soldout'' \<longleftrightarrow> n \<le> 0"
  by (simp add: warning_level_def)

text \<open>
  Over a Redis that answers, the inventory lists every product on sale once, lowest share of the stock first,
  with the stock that Redis holds; a product whose stock key is missing is shown with 0 and as
  sold out, whatever its row says.
\<close>

theorem inventory_report:
  assumes "reliable_redis (ev_call ev) kv" "stocks_numeric (kv (w_redis w))"
    "on_db (GetActiveProducts (ev_db ev) now) w = (w1, Inr ps)" "GetInventory ev now w = (w', items)"
  shows "mset items = mset (map (shown_item (kv (w_redis w))) ps) \<and> sorted (map iv_stock_percent items) \<and>
    (\<forall>it \<in> set items. iv_warning_level it = ''soldout'' \<longleftrightarrow> count_at (kv (w_redis w)) (stock_key (iv_product_id it)) \<le> 0)"
proof -
  have same: "w_redis w1 = w_redis w" using on_frame(2) [OF assms(3)] by simp
  obtain w2 xs where m: "map_world (inventory_item_of ev) ps w1 = (w2, xs)" by (rule prod.exhaust)
  have xs: "xs = map (shown_item (kv (w_redis w))) ps"
    using inventory_items [OF assms(1) _ m] assms(2) by (simp add: same)
  have items: "items = sort_key iv_stock_percent xs" using assms(3,4) m by (simp add: GetInventory_def)
  have "iv_warning_level it = ''soldout'' \<longleftrightarrow> count_at (kv (w_redis w)) (stock_key (iv_product_id it)) \<le> 0" if "it \<in> set items" for it
    using that by (auto simp: items xs shown_item_def level_soldout Let_def)
  then show ?thesis by (simp add: items xs)
qed

end
