(* ===== verification/Load_Client.thy ===== *)
theory Load_Client
  imports Routes
begin

text \<open>
  The load generator of \<^verbatim>\<open>stress_test/cmd/main.go\<close>: signed requests, test users and their token
  pool, the handshake of a sale (path token and captcha), the workers of a test with their
  statistics, and the check of the stock at the end. The server and the clock are functions on
  the state of the world; the goroutines of a batch run in the order in which they are started.
  The texts of messages are given in English.
\<close>

section \<open>JSON\<close>

text \<open>
  \<^verbatim>\<open>json.Marshal\<close> of a string without the bytes of other scripts, and of a map of strings, whose keys
  it sorts.
\<close>

definition hex_escape :: "char \<Rightarrow> string" where
  "hex_escape c = (let n = of_char c :: nat in
     CHR 0x5C # ''u00'' @ [hex_digit (n div 16), hex_digit (n mod 16)])"

definition json_char :: "char \<Rightarrow> string" where
  "json_char c =
     (if c = CHR 0x22 \<or> c = CHR 0x5C then [CHR 0x5C, c]
      else if c = CHR 0x0A then CHR 0x5C # ''n'' else if c = CHR 0x0D then CHR 0x5C # ''r''
      else if c = CHR 0x09 then CHR 0x5C # ''t'' else if c = CHR 0x08 then CHR 0x5C # ''b''
      else if c = CHR 0x0C then CHR 0x5C # ''f''
      else if (of_char c :: nat) < 32 \<or> c \<in> {CHR ''<'', CHR ''>'', CHR ''&''} then hex_escape c
      else [c])"

definition json_string :: "string \<Rightarrow> string" where
  "json_string s = CHR 0x22 # concat (map json_char s) @ [CHR 0x22]"

fun join_with :: "string \<Rightarrow> string list \<Rightarrow> string" where
  "join_with sep [] = []"
| "join_with sep [s] = s"
| "join_with sep (s # t # ss) = s @ sep @ join_with sep (t # ss)"

definition json_object :: "(string \<times> string) list \<Rightarrow> string" where
  "json_object kvs = ''{'' @ join_with '','' (map (\<lambda>(k, v). json_string k @ '':'' @ v) kvs) @ ''}''"

definition json_map :: "(string \<times> string) list \<Rightarrow> string" where
  "json_map kvs = json_object (map (\<lambda>(k, v). (k, json_string v)) kvs)"

text \<open>
  \<^verbatim>\<open>json.Unmarshal\<close> into a struct: a field that is missing or has another type keeps its zero value;
  of a repeated key the last one counts.
\<close>

fun jfield :: "string \<Rightarrow> json \<Rightarrow> json option" where
  "jfield k (JObj kvs) = map_of (rev kvs) k"
| "jfield k _ = None"

definition jstring :: "string \<Rightarrow> json \<Rightarrow> string" where
  "jstring k j = (case jfield k j of Some (JStr s) \<Rightarrow> s | _ \<Rightarrow> [])"

definition jint :: "string \<Rightarrow> json \<Rightarrow> int" where
  "jint k j = (case jfield k j of
      Some (JNum q) \<Rightarrow> if of_int \<lfloor>q\<rfloor> = q \<and> in_int64 \<lfloor>q\<rfloor> then \<lfloor>q\<rfloor> else 0
    | _ \<Rightarrow> 0)"

definition jdata :: "json \<Rightarrow> json" where
  "jdata j = (case jfield ''data'' j of None \<Rightarrow> JNull | Some d \<Rightarrow> d)"

text \<open>The body of a reply is JSON or not; \<^verbatim>\<open>Unmarshal\<close> of other text leaves the struct empty.\<close>

definition body_json :: "json option \<Rightarrow> json" where
  "body_json b = (case b of None \<Rightarrow> JNull | Some j \<Rightarrow> j)"

section \<open>Signed requests\<close>

definition Secret :: string where "Secret = ''miaosha-sign-secret-2026''"
definition TestUser :: string where "TestUser = ''admin''"
definition TestUserPrefix :: string where "TestUserPrefix = ''stress_user_''"
definition MaxTestUsers :: int where "MaxTestUsers = 1000"

text \<open>
  \<open>send\<close> is the HTTP client with the server behind it: the request, its query and the state of the
  world give the new state and the status with the body, or no answer. The clocks are readings of
  the world in seconds and in microseconds.
\<close>

type_synonym 's transport = "http_request \<Rightarrow> string \<Rightarrow> 's \<Rightarrow> 's \<times> (int \<times> json option) option"

record 's load_env =
  le_hmac :: "string \<Rightarrow> string \<Rightarrow> string"
  le_send :: "'s transport"
  le_unix :: "'s \<Rightarrow> int"
  le_micros :: "'s \<Rightarrow> int"
  le_ip :: string
  le_keys :: "string \<Rightarrow> 's \<Rightarrow> 's \<times> string list result"
  le_del :: "string list \<Rightarrow> 's \<Rightarrow> 's"

definition genSign :: "(string \<Rightarrow> string \<Rightarrow> string) \<Rightarrow> int \<Rightarrow> string \<Rightarrow> string \<Rightarrow> string \<Rightarrow> string" where
  "genSign hmac ts method path bd = hmac (fmt_d ts @ method @ path @ bd) Secret"

definition before_query :: "string \<Rightarrow> string" where
  "before_query path = takeWhile (\<lambda>c. c \<noteq> CHR ''?'') path"

definition after_query :: "string \<Rightarrow> string" where
  "after_query path = drop 1 (dropWhile (\<lambda>c. c \<noteq> CHR ''?'') path)"

definition load_request ::
  "(string \<Rightarrow> string \<Rightarrow> string) \<Rightarrow> string \<Rightarrow> int \<Rightarrow> string \<Rightarrow> string \<Rightarrow> string \<Rightarrow> string \<Rightarrow> http_request" where
  "load_request hmac ip ts method path bd token =
     \<lparr>hr_method = method, hr_path = before_query path, hr_raw_path = [],
       hr_headers = (let h = [''Content-Type'' \<mapsto> ''application/json'', ''X-Timestamp'' \<mapsto> fmt_d ts,
                         ''X-Sign'' \<mapsto> genSign hmac ts method (before_query path) bd]
                     in if token \<noteq> [] then h(''Authorization'' \<mapsto> ''Bearer '' @ token) else h),
       hr_body = Some bd, hr_content_length = int (length bd), hr_client_ip = ip\<rparr>"

definition doRequest ::
  "'s load_env \<Rightarrow> string \<Rightarrow> string \<Rightarrow> string \<Rightarrow> string \<Rightarrow> 's \<Rightarrow> 's \<times> int \<times> (int \<times> json option) option" where
  "doRequest le method path bd token s =
     (case le_send le (load_request (le_hmac le) (le_ip le) (le_unix le s) method path bd token) (after_query path) s of
        (s1, reply) \<Rightarrow> (s1, le_micros le s1 - le_micros le s, reply))"

text \<open>The counters of the login limit are deleted before a batch; errors are ignored.\<close>

definition resetLoginRateLimit :: "'s load_env \<Rightarrow> 's \<Rightarrow> 's" where
  "resetLoginRateLimit le s =
     (case le_keys le ''rate_limit:login:*'' s of
        (s1, Inl _) \<Rightarrow> s1
      | (s1, Inr ks) \<Rightarrow> if ks \<noteq> [] then le_del le ks s1 else s1)"

section \<open>Test users\<close>

text \<open>\<^verbatim>\<open>%08d\<close> of a number that is not negative.\<close>

definition fmt_08d :: "nat \<Rightarrow> string" where
  "fmt_08d n = replicate (8 - length (fmt_nat n)) CHR ''0'' @ fmt_nat n"

definition test_user :: "nat \<Rightarrow> string" where
  "test_user idx = TestUserPrefix @ fmt_nat idx"

text \<open>The UTF-8 bytes of the two-character phrase for an existing user name.\<close>

definition already_there :: string where
  "already_there = [CHR 0xE5, CHR 0xB7, CHR 0xB2, CHR 0xE5, CHR 0xAD, CHR 0x98, CHR 0xE5, CHR 0x9C, CHR 0xA8]"

definition contains :: "string \<Rightarrow> string \<Rightarrow> bool" where
  "contains s sub \<longleftrightarrow> (\<exists>i \<in> set [0..<Suc (length s)]. take (length sub) (drop i s) = sub)"

definition registerTestUser :: "'s load_env \<Rightarrow> nat \<Rightarrow> string \<Rightarrow> 's \<Rightarrow> 's \<times> unit result" where
  "registerTestUser le idx token s =
     (let bd = json_map [(''email'', test_user idx @ ''@test.com''), (''password'', ''test123''),
                 (''phone'', ''138'' @ fmt_08d idx), (''username'', test_user idx)]
      in case doRequest le ''POST'' ''/api/v1/user/register'' bd token s of
           (s1, _, None) \<Rightarrow> (s1, Inl (Errf ''no answer''))
         | (s1, _, Some (status, b)) \<Rightarrow>
             if status \<noteq> 200 then (s1, Inl (Errf ''registration failed''))
             else if jint ''code'' (body_json b) = 200 \<or> contains (jstring ''message'' (body_json b)) already_there then (s1, Inr ())
             else (s1, Inl (Errf ''registration failed'')))"

definition login_token :: "json option \<Rightarrow> string" where
  "login_token b = jstring ''token'' (jdata (body_json b))"

definition loginTestUser :: "'s load_env \<Rightarrow> nat \<Rightarrow> 's \<Rightarrow> 's \<times> string result" where
  "loginTestUser le idx s =
     (let bd = json_map [(''password'', ''test123''), (''username'', test_user idx)]
      in case doRequest le ''POST'' ''/api/v1/user/login'' bd [] s of
           (s1, _, None) \<Rightarrow> (s1, Inl (Errf ''no answer''))
         | (s1, _, Some (status, b)) \<Rightarrow>
             if status \<noteq> 200 \<or> login_token b = [] then (s1, Inl (Errf ''login failed'')) else (s1, Inr (login_token b)))"

record token_pool =
  tp_tokens :: "string list"
  tp_idx :: nat

text \<open>An empty pool panics with a division by zero.\<close>

definition TokenPool_Next :: "token_pool \<Rightarrow> (token_pool \<times> string) option" where
  "TokenPool_Next p =
     (if tp_tokens p = [] then None
      else Some (p\<lparr>tp_idx := tp_idx p + 1\<rparr>, tp_tokens p ! (tp_idx p mod length (tp_tokens p))))"

fun register_batch :: "'s load_env \<Rightarrow> string \<Rightarrow> nat list \<Rightarrow> 's \<Rightarrow> 's" where
  "register_batch le token [] s = s"
| "register_batch le token (idx # idxs) s = register_batch le token idxs (fst (registerTestUser le idx token s))"

fun login_batch :: "'s load_env \<Rightarrow> nat list \<Rightarrow> token_pool \<times> nat \<Rightarrow> 's \<Rightarrow> 's \<times> token_pool \<times> nat" where
  "login_batch le [] (p, loginErrs) s = (s, p, loginErrs)"
| "login_batch le (idx # idxs) (p, loginErrs) s =
     (case loginTestUser le idx s of
        (s1, Inl _) \<Rightarrow> login_batch le idxs (p, loginErrs + 1) s1
      | (s1, Inr tok) \<Rightarrow> login_batch le idxs (p\<lparr>tp_tokens := tp_tokens p @ [tok]\<rparr>, loginErrs) s1)"

definition batchSize :: nat where "batchSize = 8"

function prepare_batches :: "'s load_env \<Rightarrow> string \<Rightarrow> nat \<Rightarrow> nat \<Rightarrow> token_pool \<times> nat \<Rightarrow> 's \<Rightarrow> 's \<times> token_pool \<times> nat" where
  "prepare_batches le adminToken users start acc s =
     (if start < users
      then let idxs = [start..<min (start + batchSize) users];
               s1 = register_batch le adminToken idxs (resetLoginRateLimit le s)
           in case login_batch le idxs acc (resetLoginRateLimit le s1) of
                (s2, acc1) \<Rightarrow> prepare_batches le adminToken users (start + batchSize) acc1 s2
      else (s, acc))"
  by pat_completeness auto
termination
  by (relation "measure (\<lambda>(le, adminToken, users, start, acc, s). users - start)") (auto simp: batchSize_def)

declare prepare_batches.simps [simp del]

definition prepareTokenPool :: "'s load_env \<Rightarrow> string \<Rightarrow> nat \<Rightarrow> 's \<Rightarrow> 's \<times> token_pool" where
  "prepareTokenPool le adminToken users s =
     (case prepare_batches le adminToken users 0 (\<lparr>tp_tokens = [], tp_idx = 0\<rparr>, 0) s of (s1, p, _) \<Rightarrow> (s1, p))"

section \<open>The handshake of a sale\<close>

record load_product =
  lp_id :: int
  lp_name :: string
  lp_remain_stock :: int

definition decode_load_product :: "json \<Rightarrow> load_product" where
  "decode_load_product j = \<lparr>lp_id = jint ''id'' j, lp_name = jstring ''name'' j, lp_remain_stock = jint ''remain_stock'' j\<rparr>"

definition getActiveProducts :: "'s load_env \<Rightarrow> string \<Rightarrow> 's \<Rightarrow> 's \<times> load_product list result" where
  "getActiveProducts le token s =
     (case doRequest le ''GET'' ''/api/v1/product/active'' [] token s of
        (s1, _, None) \<Rightarrow> (s1, Inl (Errf ''no answer''))
      | (s1, _, Some (status, b)) \<Rightarrow>
          if status \<noteq> 200 then (s1, Inl (Errf ''no list of products''))
          else (s1, Inr (case jdata (body_json b) of JArr xs \<Rightarrow> map decode_load_product xs | _ \<Rightarrow> [])))"

text \<open>
  \<^verbatim>\<open>n, _ := strconv.Atoi(s)\<close>: 0 when \<open>s\<close> is no number, the nearest \<^verbatim>\<open>int\<close> when it is out of range.
  Sums wrap around.
\<close>

definition Atoi_value :: "string \<Rightarrow> int" where
  "Atoi_value s = (case parse_int s of
      None \<Rightarrow> 0
    | Some i \<Rightarrow> max (- 9223372036854775808) (min i 9223372036854775807))"

definition wrap64 :: "int \<Rightarrow> int" where
  "wrap64 i = sint (word_of_int i :: 64 word)"

definition TrimSuffix :: "string \<Rightarrow> string \<Rightarrow> string" where
  "TrimSuffix s suf = (if length suf \<le> length s \<and> drop (length s - length suf) s = suf
     then take (length s - length suf) s else s)"

definition solveExpr :: "string \<Rightarrow> int" where
  "solveExpr expr0 =
     (let expr = TrimSuffix (TrimSpace expr0) ''=?'';
          left = (\<lambda>op. Atoi_value (TrimSpace (takeWhile (\<lambda>c. c \<noteq> op) expr)));
          right = (\<lambda>op. Atoi_value (TrimSpace (drop 1 (dropWhile (\<lambda>c. c \<noteq> op) expr))))
      in if CHR ''+'' \<in> set expr then wrap64 (left CHR ''+'' + right CHR ''+'')
         else if CHR ''-'' \<in> set expr then wrap64 (left CHR ''-'' - right CHR ''-'')
         else 0)"

definition fetchPathCaptcha :: "'s load_env \<Rightarrow> string \<Rightarrow> int \<Rightarrow> 's \<Rightarrow> 's \<times> (string \<times> string \<times> int) result" where
  "fetchPathCaptcha le token productID s =
     (case doRequest le ''GET'' (''/api/v1/seckill/path?product_id='' @ fmt_d productID) [] token s of
        (s1, _, None) \<Rightarrow> (s1, Inl (Errf ''no path token''))
      | (s1, _, Some (_, ptBody)) \<Rightarrow>
          (let pathToken = jstring ''path_token'' (jdata (body_json ptBody)) in
           if pathToken = [] then (s1, Inl (Errf ''path token not read''))
           else case doRequest le ''GET'' (''/api/v1/seckill/captcha?product_id='' @ fmt_d productID) [] token s1 of
               (s2, _, None) \<Rightarrow> (s2, Inl (Errf ''no captcha''))
             | (s2, _, Some (_, cpBody)) \<Rightarrow>
                 (let d = jdata (body_json cpBody); captchaID = jstring ''captcha_id'' d in
                  if captchaID = [] then (s2, Inl (Errf ''captcha not read''))
                  else (s2, Inr (pathToken, captchaID, solveExpr (jstring ''expression'' d))))))"

section \<open>A test\<close>

record sale_body =
  sb_product_id :: int
  sb_quantity :: int
  sb_idempotent_key :: string
  sb_path_token :: string
  sb_captcha_id :: string
  sb_captcha_code :: int

definition seckill_req_text :: "sale_body \<Rightarrow> string" where
  "seckill_req_text q = json_object [(''product_id'', fmt_d (sb_product_id q)), (''quantity'', fmt_d (sb_quantity q)),
     (''idempotent_key'', json_string (sb_idempotent_key q)), (''path_token'', json_string (sb_path_token q)),
     (''captcha_id'', json_string (sb_captcha_id q)), (''captcha_code'', fmt_d (sb_captcha_code q))]"

text \<open>Latencies in milliseconds. The rate of a test of no duration is \<open>None\<close> (infinite).\<close>

record test_result =
  tr_concurrency :: nat
  tr_total :: nat
  tr_success :: int
  tr_fail :: int
  tr_latencies :: "rat list"
  tr_errors :: "string \<rightharpoonup> int"
  tr_qps :: "rat option"
  tr_p50 :: rat
  tr_p99 :: rat
  tr_avg :: rat
  tr_success_rate :: rat

definition count_error :: "string \<Rightarrow> test_result \<Rightarrow> test_result" where
  "count_error k r = r\<lparr>tr_fail := tr_fail r + 1,
     tr_errors := (tr_errors r)(k \<mapsto> (case tr_errors r k of None \<Rightarrow> 0 | Some n \<Rightarrow> n) + 1)\<rparr>"

definition http_error_key :: "int \<Rightarrow> string" where
  "http_error_key status = (if status = 429 then ''rate limit (429)'' else if status = 503 then ''circuit open (503)''
     else ''HTTP '' @ fmt_d status)"

definition note_reply :: "(int \<times> json option) option \<Rightarrow> test_result \<Rightarrow> test_result" where
  "note_reply reply r = (case reply of
      None \<Rightarrow> count_error ''network error'' r
    | Some (status, b) \<Rightarrow>
        if status = 200
        then (if jint ''code'' (body_json b) = 200 then r\<lparr>tr_success := tr_success r + 1\<rparr>
              else count_error (''business error('' @ jstring ''message'' (body_json b) @ '')'') r)
        else count_error (http_error_key status) r)"

text \<open>One goroutine of a test: \<open>None\<close> is a panic of \<open>Next\<close>. \<open>nanos\<close> is the clock of the key.\<close>

definition load_worker ::
  "'s load_env \<Rightarrow> ('s \<Rightarrow> int) \<Rightarrow> int \<Rightarrow> bool \<Rightarrow> nat \<Rightarrow> token_pool \<times> test_result \<Rightarrow> 's \<Rightarrow> ('s \<times> token_pool \<times> test_result) option" where
  "load_worker le nanos productID needCaptcha idx pr s = (case pr of (p, r) \<Rightarrow>
     (case TokenPool_Next p of
        None \<Rightarrow> None
      | Some (p1, token) \<Rightarrow>
          (let key = ''stress_test_'' @ fmt_d productID @ ''_'' @ fmt_nat idx @ ''_'' @ fmt_d (nanos s);
               (s1, tickets) = (if needCaptcha then fetchPathCaptcha le token productID s else (s, Inr ([], [], 0)))
           in case tickets of
                Inl _ \<Rightarrow> Some (s1, p1, count_error ''captcha handshake failed'' r)
              | Inr (ptok, cid, ans) \<Rightarrow>
                  (let bd = seckill_req_text \<lparr>sb_product_id = productID, sb_quantity = 1, sb_idempotent_key = key,
                              sb_path_token = ptok, sb_captcha_id = cid, sb_captcha_code = ans\<rparr>
                   in case doRequest le ''POST'' ''/api/v1/seckill'' bd token s1 of
                        (s2, micros, reply) \<Rightarrow>
                          Some (s2, p1, note_reply reply (r\<lparr>tr_latencies := tr_latencies r @ [of_int micros / 1000]\<rparr>))))))"

fun load_workers ::
  "'s load_env \<Rightarrow> ('s \<Rightarrow> int) \<Rightarrow> int \<Rightarrow> bool \<Rightarrow> nat list \<Rightarrow> token_pool \<times> test_result \<Rightarrow> 's \<Rightarrow> ('s \<times> token_pool \<times> test_result) option" where
  "load_workers le nanos productID needCaptcha [] pr s = Some (s, pr)"
| "load_workers le nanos productID needCaptcha (idx # idxs) pr s =
     (case load_worker le nanos productID needCaptcha idx pr s of
        None \<Rightarrow> None
      | Some (s1, pr1) \<Rightarrow> load_workers le nanos productID needCaptcha idxs pr1 s1)"

definition fresh_result :: "nat \<Rightarrow> test_result" where
  "fresh_result n = \<lparr>tr_concurrency = n, tr_total = 0, tr_success = 0, tr_fail = 0, tr_latencies = [], tr_errors = Map.empty,
     tr_qps = Some 0, tr_p50 = 0, tr_p99 = 0, tr_avg = 0, tr_success_rate = 0\<rparr>"

definition percentile :: "nat \<Rightarrow> rat list \<Rightarrow> rat" where
  "percentile k ls = ls ! (length ls * k div 100)"

text \<open>The statistics after the last worker; \<open>micros\<close> is the duration of the test.\<close>

definition finish_result :: "nat \<Rightarrow> int \<Rightarrow> test_result \<Rightarrow> test_result" where
  "finish_result concurrency micros r =
     (let r1 = r\<lparr>tr_total := concurrency\<rparr>; ls = sort (tr_latencies r1);
          r2 = (if ls \<noteq> []
            then r1\<lparr>tr_latencies := ls,
                    tr_qps := (if micros = 0 then None else Some (of_nat concurrency / (of_int micros / 1000000))),
                    tr_p50 := percentile 50 ls, tr_p99 := percentile 99 ls, tr_avg := sum_list ls / of_nat (length ls)\<rparr>
            else r1)
      in r2\<lparr>tr_success_rate := of_int (tr_success r2) / of_nat concurrency * 100\<rparr>)"

definition runSeckillTest ::
  "'s load_env \<Rightarrow> ('s \<Rightarrow> int) \<Rightarrow> token_pool \<Rightarrow> int \<Rightarrow> nat \<Rightarrow> bool \<Rightarrow> 's \<Rightarrow> ('s \<times> token_pool \<times> test_result) option" where
  "runSeckillTest le nanos p productID concurrency needCaptcha s =
     (case load_workers le nanos productID needCaptcha [0..<concurrency] (p, fresh_result concurrency) s of
        None \<Rightarrow> None
      | Some (s1, p1, r) \<Rightarrow> Some (s1, p1, finish_result concurrency (le_micros le s1 - le_micros le s) r))"

section \<open>The main program\<close>

definition envStr :: "(string \<Rightarrow> string) \<Rightarrow> string \<Rightarrow> string \<Rightarrow> string" where
  "envStr getenv k d = (if getenv k \<noteq> [] then getenv k else d)"

definition envInt :: "(string \<Rightarrow> string) \<Rightarrow> string \<Rightarrow> int \<Rightarrow> int" where
  "envInt getenv k d = (if getenv k \<noteq> []
     then (case Atoi (getenv k) of Some n \<Rightarrow> if n > 0 then n else d | None \<Rightarrow> d) else d)"

definition envConcurrencies :: "(string \<Rightarrow> string) \<Rightarrow> string \<Rightarrow> string \<Rightarrow> int list" where
  "envConcurrencies getenv k d =
     (let v = (if getenv k = [] then d else getenv k);
          out = List.map_filter (\<lambda>p. case Atoi (TrimSpace p) of Some n \<Rightarrow> if n > 0 then Some n else None | None \<Rightarrow> None)
                  (split_comma v)
      in if out = [] then [100] else out)"

fun newest_product :: "load_product \<Rightarrow> load_product list \<Rightarrow> load_product" where
  "newest_product t [] = t"
| "newest_product t (p # ps) = newest_product (if lp_id p > lp_id t then p else t) ps"

fun run_levels ::
  "'s load_env \<Rightarrow> ('s \<Rightarrow> int) \<Rightarrow> int \<Rightarrow> int list \<Rightarrow> token_pool \<Rightarrow> 's \<Rightarrow> ('s \<times> test_result list) option" where
  "run_levels le nanos productID [] p s = Some (s, [])"
| "run_levels le nanos productID (c # cs) p s =
     (case runSeckillTest le nanos p productID (nat c) True s of
        None \<Rightarrow> None
      | Some (s1, p1, r) \<Rightarrow> map_option (\<lambda>(s2, rs). (s2, r # rs)) (run_levels le nanos productID cs p1 s1))"

definition stock_verdict :: "int \<Rightarrow> test_result list \<Rightarrow> int \<Rightarrow> bool" where
  "stock_verdict initialRemain allResults finalRemain \<longleftrightarrow>
     (let consumed = sum_list (map tr_success allResults)
      in finalRemain = initialRemain - consumed \<and> 0 \<le> finalRemain)"

text \<open>\<open>load_main\<close> gives the exit status of the program and the results of the tests; \<open>None\<close> is a panic.\<close>

definition load_tests ::
  "'s load_env \<Rightarrow> ('s \<Rightarrow> int) \<Rightarrow> string \<Rightarrow> load_product \<Rightarrow> int list \<Rightarrow> token_pool \<Rightarrow> 's \<Rightarrow> ('s \<times> int \<times> test_result list) option" where
  "load_tests le nanos adminToken target concurrencies p s =
     (case run_levels le nanos (lp_id target) concurrencies p s of
        None \<Rightarrow> None
      | Some (s1, rs) \<Rightarrow>
          (case doRequest le ''GET'' (''/api/v1/product/'' @ fmt_d (lp_id target)) [] adminToken s1 of
             (s2, _, reply) \<Rightarrow>
               (let b = (case reply of None \<Rightarrow> None | Some (_, b) \<Rightarrow> b);
                    finalRemain = jint ''remain_stock'' (jdata (body_json b))
                in Some (s2, if stock_verdict (lp_remain_stock target) rs finalRemain then 0 else 1, rs))))"

definition load_main ::
  "'s load_env \<Rightarrow> ('s \<Rightarrow> int) \<Rightarrow> (string \<Rightarrow> string) \<Rightarrow> 's \<Rightarrow> ('s \<times> int \<times> test_result list) option" where
  "load_main le nanos getenv s =
     (let pass = envStr getenv ''STRESS_ADMIN_PASSWORD'' ''admin123'';
          maxConcurrency = envInt getenv ''STRESS_USERS'' MaxTestUsers;
          concurrencies = envConcurrencies getenv ''STRESS_CONCURRENCIES'' ''100,300,500,1000'';
          bd = json_map [(''password'', pass), (''username'', TestUser)]
      in case doRequest le ''POST'' ''/api/v1/user/login'' bd [] (resetLoginRateLimit le s) of
           (s1, _, None) \<Rightarrow> Some (s1, 1, [])
         | (s1, _, Some (_, b)) \<Rightarrow>
             if login_token b = [] then Some (s1, 1, [])
             else (case getActiveProducts le (login_token b) s1 of
                     (s2, Inl _) \<Rightarrow> Some (s2, 0, [])
                   | (s2, Inr []) \<Rightarrow> Some (s2, 0, [])
                   | (s2, Inr (p # ps)) \<Rightarrow>
                       (case prepareTokenPool le (login_token b) (nat maxConcurrency) s2 of
                          (s3, pool) \<Rightarrow>
                            if tp_tokens pool = [] then Some (s3, 0, [])
                            else load_tests le nanos (login_token b) (newest_product p (p # ps)) concurrencies pool s3)))"

end
