(* ===== verification/Load_Server.thy ===== *)
theory Load_Server
  imports Load_Client
begin

text \<open>
  The server as its HTTP clients see it: the JSON of \<^verbatim>\<open>utils.Response\<close> and of the path and captcha
  responses, the query of a URL, and the status line. \<open>text\<close> gives the text of a message.
\<close>

definition response_json :: "(message \<Rightarrow> string) \<Rightarrow> json response \<Rightarrow> json" where
  "response_json txt a = JObj ([(''code'', JNum (of_int (rs_code a))), (''message'', JStr (txt (rs_message a)))] @
     (case rs_data a of None \<Rightarrow> [] | Some d \<Rightarrow> [(''data'', d)]) @
     (if rs_trace a = [] then [] else [(''trace_id'', JStr (rs_trace a))]))"

definition encode_response :: "('a \<Rightarrow> json) \<Rightarrow> 'a response \<Rightarrow> json response" where
  "encode_response f a = \<lparr>rs_code = rs_code a, rs_message = rs_message a, rs_data = map_option f (rs_data a), rs_trace = rs_trace a\<rparr>"

definition path_json :: "string \<times> int \<Rightarrow> json" where
  "path_json x = JObj [(''path_token'', JStr (fst x)), (''expire_sec'', JNum (of_int (snd x)))]"

definition captcha_json :: "string \<times> int \<times> string \<Rightarrow> json" where
  "captcha_json x = (case x of (expression, expireSec, captchaID) \<Rightarrow>
     JObj [(''expression'', JStr expression), (''expire_sec'', JNum (of_int expireSec)), (''captcha_id'', JStr captchaID)])"

text \<open>The fields of a query without escapes; of a repeated field the first one counts.\<close>

fun split_amp :: "string \<Rightarrow> string list" where
  "split_amp [] = [[]]"
| "split_amp (ch # s) = (if ch = CHR ''&'' then [] # split_amp s
     else (case split_amp s of [] \<Rightarrow> [[ch]] | x # xs \<Rightarrow> (ch # x) # xs))"

definition parse_query :: "string \<Rightarrow> string \<rightharpoonup> string" where
  "parse_query q = map_of (map (\<lambda>f. (takeWhile (\<lambda>c. c \<noteq> CHR ''='') f, drop 1 (dropWhile (\<lambda>c. c \<noteq> CHR ''='') f))) (split_amp q))"

text \<open>
  The handlers of the handshake; \<open>rnd\<close> draws the bytes of a path token, of a captcha and of its id
  from the state. The other handlers are \<open>others\<close>.
\<close>

record 's randomness =
  rn_path :: "'s \<Rightarrow> 8 word list"
  rn_captcha :: "'s \<Rightarrow> 8 word \<times> 8 word \<times> 8 word"
  rn_captcha_id :: "'s \<Rightarrow> 8 word list"

definition sale_handlers ::
  "'r redis \<Rightarrow> ('r, 'd, 'q, 'f, 'l) site randomness
     \<Rightarrow> (string \<Rightarrow> gin_context \<Rightarrow> ('r, 'd, 'q, 'f, 'l) site \<Rightarrow> ('r, 'd, 'q, 'f, 'l) site \<times> json response option)
     \<Rightarrow> string \<Rightarrow> string \<Rightarrow> gin_context \<Rightarrow> ('r, 'd, 'q, 'f, 'l) site \<Rightarrow> ('r, 'd, 'q, 'f, 'l) site \<times> json response option" where
  "sale_handlers call rnd others query h c s =
     (if h = ''GetSeckillPath''
      then map_prod id (\<lambda>a. Some (encode_response path_json a))
        (on_world (on_redis (ctl_GetSeckillPath call (rn_path rnd s) c (parse_query query))) s)
      else if h = ''GetCaptcha''
      then map_prod id (\<lambda>a. Some (encode_response captcha_json a))
        (on_world (on_redis (ctl_GetCaptcha call (rn_captcha rnd s) (rn_captcha_id rnd s) c (parse_query query))) s)
      else others h c s)"

text \<open>
  Every answer has the status 200 with its code in the body, but the preflight answer 204 and the
  missing route. The trace id of a refusal is left out.
\<close>

definition outcome_reply :: "(message \<Rightarrow> string) \<Rightarrow> json outcome \<Rightarrow> int \<times> json option" where
  "outcome_reply txt res = (case res of
      Refused code \<Rightarrow> if code = 204 \<or> code = 404 then (code, None)
        else (200, Some (response_json txt (Error_response fresh_context code (Lit ''refused''))))
    | Handled _ a \<Rightarrow> (200, Some (response_json txt a))
    | Panicked _ a _ \<Rightarrow> (200, Some (response_json txt a)))"

definition http_server ::
  "route_finder \<Rightarrow> router \<Rightarrow> 'r redis \<Rightarrow> (message \<Rightarrow> string) \<Rightarrow> (('r, 'd, 'q, 'f, 'l) site \<Rightarrow> int)
     \<Rightarrow> (string \<Rightarrow> string \<Rightarrow> gin_context \<Rightarrow> ('r, 'd, 'q, 'f, 'l) site \<Rightarrow> ('r, 'd, 'q, 'f, 'l) site \<times> json response option)
     \<Rightarrow> ('r, 'd, 'q, 'f, 'l) site transport" where
  "http_server gin ro call txt clk handlers r query s =
     (case serve_http gin ro call (clk s) [] (handlers query) r s of (s1, res) \<Rightarrow> (s1, Some (outcome_reply txt res)))"

lemma server_status:
  assumes "http_server gin ro call txt clk handlers r query s = (s1, Some (status, b))"
  shows "status \<in> {200, 204, 404}"
  using assms by (auto simp: http_server_def outcome_reply_def split: prod.splits outcome.splits if_splits)

end
