(* ===== verification/Route_Access.thy ===== *)
theory Route_Access
  imports Api_Access Seckill_Gate
begin

text \<open>
  Who reaches the handlers of the router: the table of the routes, the middlewares before it and
  the guards of the routes together.
\<close>

section \<open>The table\<close>

definition open_handlers :: "string list" where
  "open_handlers = [''Health'', ''Swagger'', ''Static'', ''Register'', ''Login'', ''ForgotPassword'']"

lemma table_checked:
  "list_all (\<lambda>rt. if rt_guard rt = Authenticated
     then list_all (\<lambda>p. \<not> path_matches (rt_path rt) p) auth_whitelist \<and>
       list_all (\<lambda>p. path_matches (rt_path rt) p \<longrightarrow> p = ''/api/v1/product/upload'') sign_whitelist
     else rt_handler rt \<in> set open_handlers) routes"
  by code_simp

lemma guarded_route:
  assumes "rt \<in> set routes" "rt_guard rt = Authenticated" "path_matches (rt_path rt) p"
  shows "p \<notin> set auth_whitelist" "p \<in> set sign_whitelist \<Longrightarrow> p = ''/api/v1/product/upload''"
  using table_checked assms unfolding list_all_iff by auto

lemma open_route:
  "rt \<in> set routes \<Longrightarrow> rt_guard rt \<noteq> Authenticated \<Longrightarrow> rt_handler rt \<in> set open_handlers"
  using table_checked unfolding list_all_iff by auto

text \<open>No guarded route lies in the directory of the uploads.\<close>

lemma split_slash_head: "CHR ''/'' \<notin> set a \<Longrightarrow> split_slash (a @ CHR ''/'' # b) = a # split_slash b"
  by (induction a) auto

lemma uploads_split: "has_prefix ''/uploads/'' p \<Longrightarrow> \<exists>xs. split_slash p = [] # ''uploads'' # xs"
proof -
  assume "has_prefix ''/uploads/'' p"
  then have "p = ''/uploads/'' @ drop 9 p"
    unfolding has_prefix_def by (metis append_take_drop_id list.size(3,4) One_nat_def Suc_eq_plus1 numeral_nat add_Suc)
  then have "p = CHR ''/'' # ''uploads'' @ CHR ''/'' # drop 9 p" by simp
  then have "split_slash p = [] # split_slash (''uploads'' @ CHR ''/'' # drop 9 p)"
    by (metis split_slash.simps(2))
  then show ?thesis
    using split_slash_head [of "''uploads''" "drop 9 p"] by auto
qed

lemma table_roots:
  "list_all (\<lambda>rt. rt_guard rt = Authenticated \<longrightarrow> (case split_slash (rt_path rt) of
     _ # p # _ \<Rightarrow> take 1 p \<noteq> ''*'' \<and> take 1 p \<noteq> '':'' \<and> p \<noteq> ''uploads'' | _ \<Rightarrow> False) \<and> take 1 (rt_path rt) = ''/'') routes"
  by code_simp

lemma guarded_not_uploads:
  assumes "rt \<in> set routes" "rt_guard rt = Authenticated" "path_matches (rt_path rt) p"
  shows "\<not> has_prefix ''/uploads/'' p"
proof
  assume "has_prefix ''/uploads/'' p"
  then obtain xs where xs: "split_slash p = [] # ''uploads'' # xs" using uploads_split by blast
  from table_roots assms(1,2) have root: "case split_slash (rt_path rt) of
     _ # q # _ \<Rightarrow> take 1 q \<noteq> ''*'' \<and> take 1 q \<noteq> '':'' \<and> q \<noteq> ''uploads'' | _ \<Rightarrow> False" "take 1 (rt_path rt) = ''/''"
    unfolding list_all_iff by blast+
  then obtain cs where "rt_path rt = CHR ''/'' # cs" by (cases "rt_path rt") auto
  then have "split_slash (rt_path rt) = [] # split_slash cs" by simp
  with root(1) xs assms(3) show False
    by (auto simp: path_matches_def split: list.splits)
qed

section \<open>Who a handler acts for\<close>

text \<open>
  The request carries a token that \<open>ParseToken\<close> accepts and that is not revoked, the context has the
  id and the role of its claims, and the request is signed; only the upload route needs no
  signature.
\<close>

definition acts_for :: "router \<Rightarrow> int \<Rightarrow> http_request \<Rightarrow> gin_context \<Rightarrow> bool" where
  "acts_for ro now r c \<longleftrightarrow> (\<exists>t claims. GetHeader r ''Authorization'' = ''Bearer '' @ t \<and>
     ParseToken (ro_crypto ro) (ro_jwt ro) now t = Inr claims \<and> (t = [] \<or> \<not> IsBlacklisted (ro_revoked ro) t) \<and>
     gc_user_id c = Some (jc_user_id claims) \<and> gc_role c = Some (if jc_role claims = [] then ''user'' else jc_role claims)) \<and>
   (hr_path r = ''/api/v1/product/upload'' \<or> GetHeader r ''X-Sign'' =
     ro_hmac ro (GetHeader r ''X-Timestamp'' @ hr_method r @ hr_path r @ body_text r) (sign_secret (ro_sign_secret ro)))"

lemma chain_acts_for:
  assumes "run_chain (global_chain ro now generated r) fresh_context = (c, Next)"
    "AuthMiddleware (ro_crypto ro) (ro_jwt ro) now r c = (c1, Next)"
    "hr_path r \<notin> set auth_whitelist" "hr_path r \<in> set sign_whitelist \<Longrightarrow> hr_path r = ''/api/v1/product/upload''"
    "hr_raw_path r \<notin> set sign_whitelist" "\<not> has_prefix ''/uploads/'' (hr_path r)" "0 \<le> now" "now < 2 ^ 62"
  shows "acts_for ro now r c1"
proof -
  have "run_chain (api_chain ro now generated r) fresh_context = (c1, Next)"
    using assms(1,2) by (simp add: api_chain_split run_chain_append)
  then obtain d1 d2 d3 where ok: "snd (SignMiddleware (ro_hmac ro) (ro_sign_secret ro) (word_of_int (now div 1000)) r d1) = Next"
      "TokenBlacklistMiddleware (ro_revoked ro) r d2 = (d3, Next)"
      "AuthMiddleware (ro_crypto ro) (ro_jwt ro) now r d3 = (c1, Next)"
    by (rule api_chain_passes)
  obtain t claims where t: "GetHeader r ''Authorization'' = ''Bearer '' @ t"
      "ParseToken (ro_crypto ro) (ro_jwt ro) now t = Inr claims" "gc_user_id c1 = Some (jc_user_id claims)"
      "gc_role c1 = Some (if jc_role claims = [] then ''user'' else jc_role claims)"
    using ok(3) auth_passes [OF assms(3)] by auto
  have live: "t = [] \<or> \<not> IsBlacklisted (ro_revoked ro) t"
    using ok(2) t(1) by (auto simp: TokenBlacklistMiddleware_def Let_def split: if_splits)
  have "0 \<le> now div 1000" "now div 1000 < 2 ^ 62" using assms(7,8) by auto
  then have "hr_path r = ''/api/v1/product/upload'' \<or> GetHeader r ''X-Sign'' =
      ro_hmac ro (GetHeader r ''X-Timestamp'' @ hr_method r @ hr_path r @ body_text r) (sign_secret (ro_sign_secret ro))"
    using ok(1) sign_passes [OF _ _ _ assms(5,6)] assms(4) by blast
  with t live show ?thesis
    unfolding acts_for_def by blast
qed

lemma guard_on_site:
  assumes "on_world (on_redis (run_guard guard ro call now r c)) s = (s1, c1, v)"
  shows "guard = Authenticated \<Longrightarrow> s1 = s \<and> AuthMiddleware (ro_crypto ro) (ro_jwt ro) now r c = (c1, v)"
    "v = Abort code \<Longrightarrow> s1 = s \<or> code = 429 \<and> s1 = s\<lparr>st_world := (st_world s)\<lparr>w_redis := w_redis (st_world s1)\<rparr>\<rparr> \<and>
       (\<exists>mx ws. LoginRateLimitMiddleware call mx ws (now div 1000) r c (w_redis (st_world s)) = (w_redis (st_world s1), c1, v))"
proof -
  obtain rs c2 v2 where g: "run_guard guard ro call now r c (w_redis (st_world s)) = (rs, c2, v2)"
    by (rule prod_cases3)
  then have s1: "s1 = s\<lparr>st_world := (st_world s)\<lparr>w_redis := rs\<rparr>\<rparr>" "c2 = c1" "v2 = v"
    using assms by (auto simp: on_world_def on_redis_def)
  show "guard = Authenticated \<Longrightarrow> s1 = s \<and> AuthMiddleware (ro_crypto ro) (ro_jwt ro) now r c = (c1, v)"
    using g s1 by (auto simp: run_guard_def)
  show "s1 = s \<or> code = 429 \<and> s1 = s\<lparr>st_world := (st_world s)\<lparr>w_redis := w_redis (st_world s1)\<rparr>\<rparr> \<and>
      (\<exists>mx ws. LoginRateLimitMiddleware call mx ws (now div 1000) r c (w_redis (st_world s)) = (w_redis (st_world s1), c1, v))"
    if v: "v = Abort code"
  proof (cases guard)
    case (Limited mx ws)
    then have l: "LoginRateLimitMiddleware call mx ws (now div 1000) r c (w_redis (st_world s)) = (rs, c1, v)"
      using g s1 by (simp add: run_guard_def)
    then have "code = 429"
      using v by (auto simp: LoginRateLimitMiddleware_def Let_def split: prod.splits sum.splits if_splits)
    with l s1(1) show ?thesis by auto
  next
    case Open
    with g s1 v show ?thesis by (simp add: run_guard_def)
  next
    case Authenticated
    with g s1 show ?thesis by (simp add: run_guard_def)
  qed
qed

lemma served_cases:
  assumes "serve_http gin ro call now generated handlers r s = (s', res)"
  obtains (refused) code where "res = Refused code" "s' = s"
  | (limited) mx ws c c1 v where "res = Refused 429" "s' = s\<lparr>st_world := (st_world s)\<lparr>w_redis := w_redis (st_world s')\<rparr>\<rparr>"
      "LoginRateLimitMiddleware call mx ws (now div 1000) r c (w_redis (st_world s)) = (w_redis (st_world s'), c1, v)"
  | (ran) c c1 rt s1 b where "run_chain (global_chain ro now generated r) fresh_context = (c, Next)"
      "gin routes (hr_method r) (hr_path r) = Some rt"
      "on_world (on_redis (run_guard (rt_guard rt) ro call now r c)) s = (s1, c1, Next)"
      "handlers (rt_handler rt) c1 s1 = (s', b)" "res = RecoveryMiddleware c1 r (rt_handler rt) b"
proof -
  obtain c v where c: "run_chain (global_chain ro now generated r) fresh_context = (c, v)" by (rule prod.exhaust)
  show thesis
  proof (cases v)
    case (Abort code)
    then show thesis using assms c refused by (auto simp: serve_http_def)
  next
    case Next
    show thesis
    proof (cases "gin routes (hr_method r) (hr_path r)")
      case None
      then show thesis using assms c Next refused by (auto simp: serve_http_def)
    next
      case (Some rt)
      obtain s1 c1 v1 where g: "on_world (on_redis (run_guard (rt_guard rt) ro call now r c)) s = (s1, c1, v1)"
        by (rule prod_cases3)
      show thesis
      proof (cases v1)
        case (Abort code)
        then have res: "res = Refused code" "s' = s1"
          using assms c Next Some g by (auto simp: serve_http_def)
        from guard_on_site(2) [OF g Abort] show thesis
        proof (elim disjE conjE exE)
          assume "s1 = s"
          with res show thesis by (intro refused) simp_all
        next
          fix mx ws
          assume "code = 429" "s1 = s\<lparr>st_world := (st_world s)\<lparr>w_redis := w_redis (st_world s1)\<rparr>\<rparr>"
            "LoginRateLimitMiddleware call mx ws (now div 1000) r c (w_redis (st_world s)) = (w_redis (st_world s1), c1, v1)"
          with res show thesis by (intro limited) simp_all
        qed
      next
        case v1: Next
        obtain s2 b where "handlers (rt_handler rt) c1 s1 = (s2, b)" by (rule prod.exhaust)
        then show thesis
          using assms c Next Some g v1 ran by (auto simp: serve_http_def)
      qed
    qed
  qed
qed

text \<open>The commands of the login limit touch the two keys of its client.\<close>

definition same_at :: "key \<Rightarrow> keyspace \<Rightarrow> keyspace \<Rightarrow> bool" where
  "same_at k ks ks' \<longleftrightarrow> ks_clock ks' = ks_clock ks \<and> ks_data ks' k = ks_data ks k"

context redis_server
begin

lemma limit_command:
  assumes "call s c = (s', a)" "c \<in> {INCRBY k0 n, EXPIRE k0 n, SET k0 x t, GET k0, TTL k0}" "k \<noteq> k0" "same_at k ks (kv s)"
  shows "same_at k ks (kv s')"
  by (rule keeps [OF assms(1), of "same_at k ks"])
    (use assms(2-4) in \<open>auto simp: same_at_def put_def drop_key_def put_ttl_def split: option.splits rdata.splits\<close>)

lemma limit_keeps:
  assumes "LoginRateLimitMiddleware call mx ws unixNow r c s = (s', c', v)"
    "k \<notin> {rate_key (hr_client_ip r), reset_key (hr_client_ip r)}"
  shows "same_at k (kv s) (kv s')"
proof -
  let ?k = "rate_key (hr_client_ip r)" and ?rk = "reset_key (hr_client_ip r)"
  have ne: "k \<noteq> ?k" "k \<noteq> ?rk" using assms(2) by simp_all
  have step: "same_at k (kv s) (kv s1) \<Longrightarrow> k0 \<in> {?k, ?rk} \<Longrightarrow> cmd \<in> {INCRBY k0 n, EXPIRE k0 n, SET k0 x t, GET k0, TTL k0} \<Longrightarrow>
      same_at k (kv s) (kv (fst (call s1 cmd)))" for s1 k0 n x t cmd
    using limit_command [of s1 cmd "fst (call s1 cmd)" "snd (call s1 cmd)" k0 n x t k "kv s"] ne by auto
  define w where "w = (if ws \<le> 0 then 60 else ws)"
  define s1 where "s1 = fst (call s (INCRBY ?k 1))"
  define s3 where "s3 = fst (call (fst (call s1 (EXPIRE ?k (1000 * w)))) (SET ?rk (fmt_d (unixNow + w)) (set_ttl (1000 * w))))"
  have 1: "same_at k (kv s) (kv s1)"
    unfolding s1_def by (rule step [of s ?k]) (simp_all add: same_at_def)
  then have 3: "same_at k (kv s) (kv s3)"
    unfolding s3_def by (intro step [of _ ?rk] step [of s1 ?k]) simp_all
  have 4: "same_at k (kv s) (kv (fst (call s2 (GET ?rk))))" if "same_at k (kv s) (kv s2)" for s2
    by (rule step [OF that, of ?rk]) simp_all
  have 5: "same_at k (kv s) (kv (fst (call s2 (TTL ?k))))" if "same_at k (kv s) (kv s2)" for s2
    by (rule step [OF that, of ?k]) simp_all
  have "s' \<in> {s1, fst (call s1 (GET ?rk)), fst (call s3 (GET ?rk)), fst (call (fst (call s1 (GET ?rk))) (TTL ?k)),
      fst (call (fst (call s3 (GET ?rk))) (TTL ?k))}"
    using assms(1) unfolding LoginRateLimitMiddleware_def Let_def s3_def s1_def w_def
    by (simp add: case_prod_beta split: sum.splits if_splits)
  with 1 3 4 5 show ?thesis by auto
qed

end

text \<open>
  C11. Every route but six acts for the user of a valid token: whichever route gin picks for a request,
  a handler other than those of health, documentation, uploaded files, registration, login and
  forgotten passwords ran, from the state the request found, with the id and the role of a token that
  \<open>ParseToken\<close> accepts and that is not revoked, from a request that is signed (uploads need no
  signature); its panic is answered with 500 and reported with the path. A refused request has changed
  nothing at all, or it was refused with 429 and only the two Redis keys that count the attempts of its
  address have changed: every other key is as before, and so are the database, the queue and the rest of the site.
  The clock lies between 1970 and the year 2^62 s, and the raw path that Go keeps for an escaped path is
  not one of the five paths that need no signature; the middleware looks at it too.
\<close>

theorem routed_request_identified:
  assumes "gin_router gin" "redis_server call kv" "serve_http gin ro call now generated handlers r s = (s', res)"
    "hr_raw_path r \<notin> set sign_whitelist" "0 \<le> now" "now < 2 ^ 62"
  shows "case res of
      Refused code \<Rightarrow> s' = s \<or> code = 429 \<and> s' = s\<lparr>st_world := (st_world s)\<lparr>w_redis := w_redis (st_world s')\<rparr>\<rparr> \<and>
        ks_clock (kv (w_redis (st_world s'))) = ks_clock (kv (w_redis (st_world s))) \<and>
        (\<forall>k. k \<noteq> rate_key (hr_client_ip r) \<and> k \<noteq> reset_key (hr_client_ip r) \<longrightarrow>
           ks_data (kv (w_redis (st_world s'))) k = ks_data (kv (w_redis (st_world s))) k)
    | Handled h a \<Rightarrow> h \<in> set open_handlers \<or> (\<exists>c. acts_for ro now r c \<and> handlers h c s = (s', Some a))
    | Panicked h a al \<Rightarrow> rs_code a = 500 \<and> pa_path al = hr_path r \<and>
        (h \<in> set open_handlers \<or> (\<exists>c. acts_for ro now r c \<and> handlers h c s = (s', None)))"
  using assms(3)
proof (cases rule: served_cases)
  case (refused code)
  then show ?thesis by simp
next
  case (limited mx ws c c1 v)
  note same = redis_server.limit_keeps [OF assms(2) limited(3), unfolded same_at_def]
  have "\<exists>k. k \<notin> {rate_key (hr_client_ip r), reset_key (hr_client_ip r)}"
    by (intro exI [of _ "[]"]) (simp add: rate_key_def reset_key_def)
  with same have "ks_clock (kv (w_redis (st_world s'))) = ks_clock (kv (w_redis (st_world s)))" by blast
  with same limited(1,2) show ?thesis by simp
next
  case (ran c c1 rt s1 b)
  have rt: "rt \<in> set routes" "path_matches (rt_path rt) (hr_path r)"
    using gin_router.found [OF assms(1) ran(2)] by simp_all
  have "rt_handler rt \<in> set open_handlers \<or> acts_for ro now r c1 \<and> handlers (rt_handler rt) c1 s = (s', b)"
  proof (cases "rt_guard rt = Authenticated")
    case True
    with guard_on_site(1) [OF ran(3)] have "s1 = s" and a: "AuthMiddleware (ro_crypto ro) (ro_jwt ro) now r c = (c1, Next)"
      by simp_all
    with chain_acts_for [OF ran(1) a guarded_route [OF rt(1) True rt(2)] assms(4) guarded_not_uploads [OF rt(1) True rt(2)] assms(5,6)]
      ran(4) show ?thesis by blast
  next
    case False
    with open_route [OF rt(1)] show ?thesis by simp
  qed
  with ran(5) show ?thesis
    by (cases b) (auto simp: RecoveryMiddleware_def InternalError_def Error_response_def)
qed

lemma serve_authenticated:
  assumes "run_chain (api_chain ro now generated r) fresh_context = (c1, Next)" "gin routes (hr_method r) (hr_path r) = Some rt"
    "rt_guard rt = Authenticated" "handlers (rt_handler rt) c1 s = (s', b)"
  shows "serve_http gin ro call now generated handlers r s = (s', RecoveryMiddleware c1 r (rt_handler rt) b)"
proof -
  obtain c where "run_chain (global_chain ro now generated r) fresh_context = (c, Next)"
      "AuthMiddleware (ro_crypto ro) (ro_jwt ro) now r c = (c1, Next)"
    using assms(1) by (auto simp: api_chain_split run_chain_append split: prod.splits passage.splits)
  then show ?thesis
    using assms(2-4) by (simp add: serve_http_def run_guard_def on_world_def on_redis_def)
qed

definition role_handlers :: "string \<Rightarrow> gin_context \<Rightarrow> 's \<Rightarrow> 's \<times> string option response option" where
  "role_handlers h c s = (s, Some (Success c (gc_role c)))"

lemma order_list_route:
  "first_route routes ''GET'' ''/api/v1/order/list'' = Some (Route ''GET'' ''/api/v1/order/list'' Authenticated ''GetUserOrders'')"
  "''/api/v1/order/list'' \<notin> set auth_whitelist" "''/api/v1/order/list'' \<notin> set sign_whitelist"
  "\<not> has_prefix ''/uploads/'' ''/api/v1/order/list''"
  by (simp_all add: first_route_def routes_def open_routes_def api_routes_def path_matches_def auth_whitelist_def
      sign_whitelist_def has_prefix_def)

theorem routed_request_identified_witness:
  "\<exists>t a c. GenerateToken demo_crypto demo_manager 2000 1 ''alice'' ''user'' = Inr t \<and>
     serve_http first_route demo_router faulty_call 3000 [] role_handlers (api_request t ''GET'' ''/api/v1/order/list'' []) demo_site
       = (demo_site, Handled ''GetUserOrders'' a) \<and>
     acts_for demo_router 3000 (api_request t ''GET'' ''/api/v1/order/list'' []) c \<and> rs_data a = Some (gc_role c)"
proof -
  obtain t where t: "GenerateToken demo_crypto demo_manager 2000 1 ''alice'' ''user'' = Inr t"
    using demo_token by blast
  let ?r = "api_request t ''GET'' ''/api/v1/order/list'' []" and ?c = "user_context 1 ''alice'' ''user''"
  have sel: "hr_method ?r = ''GET''" "hr_path ?r = ''/api/v1/order/list''" "hr_raw_path ?r = []"
    by (simp_all add: api_request_sel)
  have "run_chain (api_chain demo_router 3000 [] ?r) fresh_context = (?c, Next)"
    by (rule demo_api_chain [OF t _ order_list_route(2-4)]) simp_all
  then have run: "serve_http first_route demo_router faulty_call 3000 [] role_handlers ?r demo_site =
      (demo_site, Handled ''GetUserOrders'' (Success ?c (gc_role ?c)))"
    by (subst serve_authenticated) (auto simp: sel order_list_route(1) role_handlers_def RecoveryMiddleware_def)
  have "[] \<notin> set sign_whitelist" by (simp add: sign_whitelist_def)
  with routed_request_identified [OF first.gin_router_axioms faulty.redis_server_axioms run] obtain c where c:
      "acts_for demo_router 3000 ?r c" "role_handlers ''GetUserOrders'' c demo_site = (demo_site, Some (Success ?c (gc_role ?c)))"
    by (auto simp: sel open_handlers_def)
  then have "Success c (gc_role c) = Success ?c (gc_role ?c)"
    by (simp only: role_handlers_def prod.inject option.inject)
  then have "rs_data (Success ?c (gc_role ?c)) = Some (gc_role c)"
    by (simp add: Success_def)
  with t run c(1) show ?thesis by blast
qed

section \<open>The push connection of a browser\<close>

lemma get_passes:
  assumes "hr_method r = ''GET''"
  shows "\<exists>c1. TraceIDMiddleware generated r c = (c1, Next)" "\<exists>c1. CORSMiddleware cors r c = (c1, Next)"
    "BodyLimitMiddleware n r c = (c, Next)"
  using assms by (simp_all add: TraceIDMiddleware_def CORSMiddleware_def BodyLimitMiddleware_def Let_def)

lemma sign_code: "snd (SignMiddleware hmac configured now r c) \<in> {Next, Abort 401}"
  by (simp add: SignMiddleware_def Let_def split: option.split)

lemma blacklist_code: "snd (TokenBlacklistMiddleware b r c) \<in> {Next, Abort 401}"
  by (simp add: TokenBlacklistMiddleware_def Let_def)

lemma unsigned_refused:
  assumes "hr_path r \<notin> set sign_whitelist" "hr_raw_path r \<notin> set sign_whitelist" "\<not> has_prefix ''/uploads/'' (hr_path r)"
    "GetHeader r ''X-Sign'' = [] \<or> GetHeader r ''X-Timestamp'' = []"
  shows "snd (SignMiddleware hmac configured now r c) = Abort 401"
  using assms by (auto simp: SignMiddleware_def Let_def staticPrefixes_def)

text \<open>The middlewares before the route end a GET request with 401 or not at all.\<close>

lemma get_chain:
  assumes "hr_method r = ''GET''" "run_chain (global_chain ro now generated r) fresh_context = (c, v)"
  obtains (ended) "v = Abort 401"
    | (signed) d where "v = Next" "snd (SignMiddleware (ro_hmac ro) (ro_sign_secret ro) (word_of_int (now div 1000)) r d) = Next"
proof -
  have "\<exists>d. run_chain (if ro_performance ro then [] else [TraceIDMiddleware generated r, CORSMiddleware (ro_cors ro) r])
      fresh_context = (d, Next)"
  proof -
    obtain d1 where d1: "TraceIDMiddleware generated r fresh_context = (d1, Next)"
      using get_passes(1) [OF assms(1)] by blast
    obtain d2 where "CORSMiddleware (ro_cors ro) r d1 = (d2, Next)"
      using get_passes(2) [OF assms(1)] by blast
    with d1 show ?thesis by simp
  qed
  then obtain d where d: "run_chain (if ro_performance ro then [] else [TraceIDMiddleware generated r, CORSMiddleware (ro_cors ro) r])
      fresh_context = (d, Next)" ..
  obtain e u where e: "SignMiddleware (ro_hmac ro) (ro_sign_secret ro) (word_of_int (now div 1000)) r d = (e, u)"
    by (rule prod.exhaust)
  obtain f w where f: "TokenBlacklistMiddleware (ro_revoked ro) r e = (f, w)" by (rule prod.exhaust)
  have "u \<in> {Next, Abort 401}" "w \<in> {Next, Abort 401}"
    using sign_code [of "ro_hmac ro" _ _ r d] blacklist_code [of _ r e] e f by (metis snd_conv)+
  then have "v = Abort 401 \<or> v = Next \<and> u = Next"
    using assms(2) d e f get_passes(3) [OF assms(1)] by (auto simp: global_chain_def run_chain_append)
  with that(1) that(2) [of d] e show thesis by auto
qed

lemma ws_route:
  assumes "gin_router gin"
  obtains rt where "gin routes ''GET'' ''/ws'' = Some rt" "rt_guard rt = Authenticated"
proof -
  have ws: "Route ''GET'' ''/ws'' Authenticated ''HandleWebSocket'' \<in> set routes" "path_matches ''/ws'' ''/ws''"
    by (simp_all add: routes_def open_routes_def path_matches_def)
  from gin_router.finds_some [OF assms ws(1), of "''GET''" "''/ws''"] ws(2) obtain rt where rt:
      "gin routes ''GET'' ''/ws'' = Some rt" "rt \<in> set routes" "rt_method rt = ''GET''" "path_matches (rt_path rt) ''/ws''"
    by auto
  have "list_all (\<lambda>rt. rt_method rt = ''GET'' \<and> path_matches (rt_path rt) ''/ws'' \<longrightarrow> rt_guard rt = Authenticated) routes"
    by (simp add: routes_def open_routes_def api_routes_def path_matches_def)
  with rt(2-4) have "rt_guard rt = Authenticated" by (auto simp: list_all_iff)
  with rt(1) show thesis by (rule that)
qed

text \<open>
  No browser gets a push connection: the front end opens \<^verbatim>\<open>/ws\<close> with the token in the query,
  and a browser adds no headers of the page to a WebSocket request; without the header
  \<open>X-Sign\<close> or \<open>X-Timestamp\<close> the signature check ends the request with 401, whatever the token,
  and if it were signed, the route still takes the token from the header \<open>Authorization\<close> only.
\<close>

theorem browser_push_refused:
  assumes "hr_method r = ''GET''" "hr_path r = ''/ws''" "hr_raw_path r = []" "gin_router gin"
    "GetHeader r ''X-Sign'' = [] \<or> GetHeader r ''X-Timestamp'' = [] \<or> GetHeader r ''Authorization'' = []"
  shows "serve_http gin ro call now generated handlers r s = (s, Refused 401)"
proof (cases "run_chain (global_chain ro now generated r) fresh_context")
  case (Pair c v)
  have ws: "''/ws'' \<notin> set sign_whitelist" "[] \<notin> set sign_whitelist" "\<not> has_prefix ''/uploads/'' ''/ws''"
    "''/ws'' \<notin> set auth_whitelist"
    by (simp_all add: sign_whitelist_def has_prefix_def auth_whitelist_def)
  show ?thesis
    using assms(1) Pair
  proof (cases rule: get_chain)
    case ended
    then show ?thesis using Pair by (simp add: serve_http_def)
  next
    case (signed d)
    then have "\<not> (GetHeader r ''X-Sign'' = [] \<or> GetHeader r ''X-Timestamp'' = [])"
      using unsigned_refused [of r] ws(1-3) assms(2,3) by auto
    with assms(5) have no_token: "GetHeader r ''Authorization'' = []" by simp
    obtain rt where rt: "gin routes ''GET'' ''/ws'' = Some rt" "rt_guard rt = Authenticated"
      by (rule ws_route [OF assms(4)])
    with Pair signed(1) no_token ws(4) assms(1,2) show ?thesis
      by (simp add: serve_http_def run_guard_def on_world_def on_redis_def AuthMiddleware_def)
  qed
qed

definition browser_request :: http_request where
  "browser_request = \<lparr>hr_method = ''GET'', hr_path = ''/ws'', hr_raw_path = [],
     hr_headers = [''Upgrade'' \<mapsto> ''websocket'', ''Origin'' \<mapsto> ''http://localhost:5173''],
     hr_body = Some [], hr_content_length = 0, hr_client_ip = ''10.0.0.1''\<rparr>"

theorem browser_push_refused_witness:
  "serve_http first_route demo_router faulty_call 3000 [] role_handlers browser_request demo_site = (demo_site, Refused 401)"
  by (rule browser_push_refused [OF _ _ _ first.gin_router_axioms]) (simp_all add: browser_request_def GetHeader_def)

end
