(* ===== verification/Load_Checks.thy ===== *)
theory Load_Checks
  imports Load_Server Route_Access
begin

text \<open>
  What the load generator does: its accounts and percentiles, the rotation of the tokens, and
  the handshake with the server it is written for.
\<close>

section \<open>The accounts of a test\<close>

definition errors_total :: "(string \<rightharpoonup> int) \<Rightarrow> int" where
  "errors_total m = (\<Sum>k \<in> dom m. the (m k))"

lemma errors_total_add:
  assumes "finite (dom m)"
  shows "errors_total (m(k \<mapsto> (case m k of None \<Rightarrow> 0 | Some n \<Rightarrow> n) + 1)) = errors_total m + 1"
proof -
  let ?f = "\<lambda>j. the ((m(k \<mapsto> (case m k of None \<Rightarrow> 0 | Some n \<Rightarrow> n) + 1)) j)"
  have rest: "sum ?f (dom m - {k}) = sum (\<lambda>j. the (m j)) (dom m - {k})"
    by (rule sum.cong) auto
  have "sum ?f (insert k (dom m)) = ?f k + sum ?f (dom m - {k})"
    using assms by (simp add: sum.insert_remove)
  moreover have "errors_total m = (case m k of None \<Rightarrow> 0 | Some n \<Rightarrow> n) + sum (\<lambda>j. the (m j)) (dom m - {k})"
    using assms by (cases "k \<in> dom m") (auto simp: errors_total_def sum.remove domIff split: option.splits)
  ultimately show ?thesis
    using rest by (simp add: errors_total_def)
qed

text \<open>The state of the accounts after \<open>n\<close> workers.\<close>

definition accounts :: "nat \<Rightarrow> test_result \<Rightarrow> bool" where
  "accounts n r \<longleftrightarrow> tr_success r + tr_fail r = int n \<and> 0 \<le> tr_success r \<and> finite (dom (tr_errors r)) \<and>
     errors_total (tr_errors r) = tr_fail r \<and> length (tr_latencies r) \<le> n"

lemma accounts_fresh: "accounts 0 (fresh_result n)"
  by (simp add: accounts_def fresh_result_def errors_total_def)

lemma accounts_count_error: "accounts n r \<Longrightarrow> accounts (Suc n) (count_error k r)"
  by (simp add: accounts_def count_error_def errors_total_add)

lemma accounts_note_reply:
  assumes "accounts n r"
  shows "accounts (Suc n) (note_reply reply (r\<lparr>tr_latencies := tr_latencies r @ [x]\<rparr>))"
proof -
  let ?r = "r\<lparr>tr_latencies := tr_latencies r @ [x]\<rparr>"
  have e: "accounts (Suc n) (count_error k ?r)" for k
    using assms by (simp add: accounts_def count_error_def errors_total_add)
  have "accounts (Suc n) (?r\<lparr>tr_success := tr_success ?r + 1\<rparr>)"
    using assms by (simp add: accounts_def)
  with e show ?thesis
    by (auto simp: note_reply_def split: option.splits)
qed

lemma worker_step:
  assumes "load_worker le nanos productID needCaptcha idx (p, r) s = Some (s', p', r')" "accounts n r"
  shows "accounts (Suc n) r' \<and> tp_tokens p' = tp_tokens p \<and> tp_idx p' = Suc (tp_idx p)"
  using assms accounts_count_error [OF assms(2)] accounts_note_reply [OF assms(2)]
  by (auto simp: load_worker_def TokenPool_Next_def Let_def split: if_splits prod.splits sum.splits)

lemma workers_account:
  assumes "load_workers le nanos productID needCaptcha idxs (p, r) s = Some (s', p', r')" "accounts n r"
  shows "accounts (n + length idxs) r' \<and> tp_tokens p' = tp_tokens p \<and> tp_idx p' = tp_idx p + length idxs"
  using assms
proof (induction idxs arbitrary: p r s n)
  case (Cons idx idxs)
  obtain s1 p1 r1 where w: "load_worker le nanos productID needCaptcha idx (p, r) s = Some (s1, p1, r1)"
    "load_workers le nanos productID needCaptcha idxs (p1, r1) s1 = Some (s', p', r')"
    using Cons.prems(1) by (auto split: option.splits)
  note step = worker_step [OF w(1) Cons.prems(2)]
  from Cons.IH [OF w(2), of "Suc n"] step show ?case by simp
qed simp

section \<open>Percentiles\<close>

text \<open>
  The \<open>q\<close>-th percentile of the program: the least latency of the test such that more than \<open>q\<close>
  per cent of the requests took at most that long.
\<close>

definition is_percentile :: "nat \<Rightarrow> rat list \<Rightarrow> rat \<Rightarrow> bool" where
  "is_percentile q ls v \<longleftrightarrow> v \<in> set ls \<and> q * length ls < 100 * length (filter (\<lambda>x. x \<le> v) ls) \<and>
     (\<forall>u < v. 100 * length (filter (\<lambda>x. x \<le> u) ls) \<le> q * length ls)"

lemma sorted_rank:
  fixes ls :: "rat list"
  assumes "sorted ls" "k < length ls"
  shows "k < length (filter (\<lambda>x. x \<le> ls ! k) ls)" "u < ls ! k \<Longrightarrow> length (filter (\<lambda>x. x \<le> u) ls) \<le> k"
proof -
  have "\<forall>x \<in> set (take (Suc k) ls). x \<le> ls ! k"
    using assms sorted_nth_mono [OF assms(1)] by (auto simp: in_set_conv_nth less_Suc_eq_le)
  then have "filter (\<lambda>x. x \<le> ls ! k) (take (Suc k) ls) = take (Suc k) ls"
    by (simp add: filter_id_conv)
  moreover have "filter (\<lambda>x. x \<le> ls ! k) ls =
      filter (\<lambda>x. x \<le> ls ! k) (take (Suc k) ls) @ filter (\<lambda>x. x \<le> ls ! k) (drop (Suc k) ls)"
    by (metis append_take_drop_id filter_append)
  ultimately show "k < length (filter (\<lambda>x. x \<le> ls ! k) ls)"
    using assms(2) by simp
  assume u: "u < ls ! k"
  have "\<forall>x \<in> set (drop k ls). \<not> x \<le> u"
  proof
    fix x assume "x \<in> set (drop k ls)"
    then obtain i where "x = ls ! (k + i)" "k + i < length ls" by (auto simp: in_set_conv_nth)
    with sorted_nth_mono [OF assms(1), of k "k + i"] u show "\<not> x \<le> u" by simp
  qed
  then have "filter (\<lambda>x. x \<le> u) (drop k ls) = []" by (simp add: filter_empty_conv)
  moreover have "filter (\<lambda>x. x \<le> u) ls = filter (\<lambda>x. x \<le> u) (take k ls) @ filter (\<lambda>x. x \<le> u) (drop k ls)"
    by (metis append_take_drop_id filter_append)
  ultimately have "length (filter (\<lambda>x. x \<le> u) ls) \<le> length (take k ls)"
    by (metis append_Nil2 length_filter_le)
  then show "length (filter (\<lambda>x. x \<le> u) ls) \<le> k" by simp
qed

lemma sort_is_Nil [simp]: "sort xs = [] \<longleftrightarrow> xs = []"
  by (metis length_0_conv length_sort)

lemma percentile_rank:
  assumes "sorted ls" "ls \<noteq> []" "q < 100"
  shows "is_percentile q ls (percentile q ls)"
proof -
  let ?k = "length ls * q div 100"
  have k: "?k < length ls"
    using assms(2,3) by (simp add: div_less_iff_less_mult)
  have "q * length ls < 100 * Suc ?k"
    by (simp add: mult.commute [of q] dividend_less_div_times [of 100, simplified mult.commute])
  moreover have "100 * ?k \<le> q * length ls"
    by (simp add: mult.commute [of q])
  ultimately show ?thesis
    using sorted_rank [OF assms(1) k] k
    by (auto simp: is_percentile_def percentile_def) (meson Suc_leI less_le_trans mult_le_mono2 le_trans)+
qed

text \<open>
  The report of a test is sound: it counts every request once, as a success or a failure, the
  error table adds up to the failures, each worker has drawn one token, and the latencies are
  sorted, with P50 and P99 the least latencies within which more than 50 and 99 per cent of the
  measured requests were answered.
\<close>

theorem test_report_sound:
  assumes "runSeckillTest le nanos p productID concurrency needCaptcha s = Some (s', p', r)"
  shows "tr_success r + tr_fail r = int concurrency \<and> 0 \<le> tr_success r \<and> errors_total (tr_errors r) = tr_fail r \<and>
    tr_total r = concurrency \<and> tp_tokens p' = tp_tokens p \<and> tp_idx p' = tp_idx p + concurrency \<and>
    (tr_latencies r \<noteq> [] \<longrightarrow> sorted (tr_latencies r) \<and> length (tr_latencies r) \<le> concurrency \<and>
       is_percentile 50 (tr_latencies r) (tr_p50 r) \<and> is_percentile 99 (tr_latencies r) (tr_p99 r))"
proof -
  obtain r0 micros where w: "load_workers le nanos productID needCaptcha [0..<concurrency] (p, fresh_result concurrency) s
      = Some (s', p', r0)" and r: "r = finish_result concurrency micros r0"
    using assms by (auto simp: runSeckillTest_def split: option.splits)
  from workers_account [OF w accounts_fresh] have a: "accounts concurrency r0" "tp_tokens p' = tp_tokens p"
      "tp_idx p' = tp_idx p + concurrency"
    by simp_all
  have rank: "ls \<noteq> [] \<Longrightarrow> is_percentile q (sort ls) (percentile q (sort ls))" if "q < 100" for q ls
    by (rule percentile_rank) (use that in simp_all)
  show ?thesis
    using a rank [of 50 "tr_latencies r0"] rank [of 99 "tr_latencies r0"]
    by (auto simp: r finish_result_def Let_def accounts_def)
qed

text \<open>A server that accepts every other request, and takes a millisecond for each.\<close>

definition toy_load :: "nat load_env" where
  "toy_load = \<lparr>le_hmac = demo_hmac,
     le_send = (\<lambda>r q s. (s + 1, Some (200, Some (JObj [(''code'', JNum (if even s then 200 else 429))])))),
     le_unix = (\<lambda>s. 3), le_micros = (\<lambda>s. 1000 * int s), le_ip = ''10.0.0.1'',
     le_keys = (\<lambda>p s. (s, Inr [])), le_del = (\<lambda>ks s. s)\<rparr>"

theorem test_report_sound_witness:
  "\<exists>s' p' r. runSeckillTest toy_load int \<lparr>tp_tokens = [''a'', ''b''], tp_idx = 0\<rparr> 1 3 False 0 = Some (s', p', r) \<and>
     tr_success r = 2 \<and> tr_fail r = 1 \<and> tp_idx p' = 3 \<and> is_percentile 99 (tr_latencies r) (tr_p99 r) \<and> tr_p99 r = 1"
proof -
  obtain s' p' r where run: "runSeckillTest toy_load int \<lparr>tp_tokens = [''a'', ''b''], tp_idx = 0\<rparr> 1 3 False 0 = Some (s', p', r)"
      "tr_success r = 2" "tr_latencies r = [1, 1, 1]" "tr_p99 r = 1"
    by (simp add: runSeckillTest_def load_worker_def TokenPool_Next_def upt_rec doRequest_def toy_load_def note_reply_def
        Let_def jint_def body_json_def fresh_result_def finish_result_def percentile_def count_error_def in_int64_def)
  from test_report_sound [OF run(1)] run(2-4) show ?thesis
    by (intro exI [of _ s'] exI [of _ p'] exI [of _ r]) (simp add: run(1))
qed

section \<open>The rotation of the tokens\<close>

fun draws :: "nat \<Rightarrow> token_pool \<Rightarrow> (token_pool \<times> string list) option" where
  "draws 0 p = Some (p, [])"
| "draws (Suc n) p = (case TokenPool_Next p of
      None \<Rightarrow> None
    | Some (p1, t) \<Rightarrow> map_option (\<lambda>(p2, ts). (p2, t # ts)) (draws n p1))"

lemma draws_nth:
  assumes "draws n p = Some (p', ts)"
  shows "length ts = n \<and> (\<forall>i < n. ts ! i = tp_tokens p ! ((tp_idx p + i) mod length (tp_tokens p)))"
  using assms
proof (induction n arbitrary: p ts)
  case (Suc n)
  then obtain p1 t ts1 where d: "TokenPool_Next p = Some (p1, t)" "draws n p1 = Some (p', ts1)" "ts = t # ts1"
    by (auto split: option.splits)
  from Suc.IH [OF d(2)] d(1,3) show ?case
    by (auto simp: TokenPool_Next_def nth_Cons' split: if_splits)
qed simp

text \<open>While there are no more workers than tokens, no two workers share a user.\<close>

lemma workers_have_own_tokens:
  assumes "draws n p = Some (p', ts)" "distinct (tp_tokens p)" "n \<le> length (tp_tokens p)"
  shows "distinct ts"
proof -
  let ?l = "length (tp_tokens p)"
  have "(tp_idx p + i) mod ?l \<noteq> (tp_idx p + j) mod ?l" if "i < j" "j < n" for i j
  proof
    assume "(tp_idx p + i) mod ?l = (tp_idx p + j) mod ?l"
    then have "?l dvd j - i"
      using that by (metis add_diff_cancel_left mod_eq_dvd_iff_nat add_le_cancel_left less_imp_le)
    with that assms(3) show False by (auto dest: dvd_imp_le)
  qed
  moreover have "(tp_idx p + i) mod ?l < ?l" if "i < n" for i
    using that assms(3) by (intro mod_less_divisor) linarith
  ultimately have "ts ! i \<noteq> ts ! j" if "i < j" "j < n" for i j
    using draws_nth [OF assms(1)] assms(2) that by (simp add: nth_eq_iff_index_eq)
  then show ?thesis
    using draws_nth [OF assms(1)] by (metis distinct_conv_nth nat_neq_iff)
qed

section \<open>The solver and the captchas of the server\<close>

lemma digit_kinds: "is_digit c \<Longrightarrow> \<not> is_space c \<and> c \<noteq> CHR ''+'' \<and> c \<noteq> CHR ''-'' \<and> c \<noteq> CHR ''?'' \<and> c \<noteq> CHR ''&''"
  by (auto simp: is_digit_def is_space_def)

lemma fmt_d_digits: "0 \<le> m \<Longrightarrow> list_all is_digit (fmt_d m) \<and> fmt_d m \<noteq> []"
  using fmt_nat_digits [of "nat m"] by (simp add: fmt_d_def)

lemma TrimSpace_id:
  assumes "s \<noteq> []" "\<not> is_space (hd s)" "\<not> is_space (last s)"
  shows "TrimSpace s = s"
proof -
  have "dropWhile is_space s = s" "dropWhile is_space (rev s) = rev s"
    subgoal using assms(1,2) by (cases s) simp_all
    subgoal using assms(1,3) by (cases s rule: rev_cases) simp_all
    done
  then show ?thesis by (simp add: TrimSpace_def)
qed

lemma TrimSpace_fmt: "0 \<le> m \<Longrightarrow> TrimSpace (fmt_d m) = fmt_d m"
  using fmt_d_digits [of m] digit_kinds by (intro TrimSpace_id) (auto simp: list_all_iff)

lemma Atoi_value_fmt: "in_int64 m \<Longrightarrow> Atoi_value (fmt_d m) = m"
  by (simp add: Atoi_value_def in_int64_def)

lemma solve_sum:
  assumes "0 \<le> m" "m \<le> 9" "0 \<le> n" "n \<le> 9" "sign = CHR ''+'' \<or> sign = CHR ''-''"
  shows "solveExpr (fmt_d m @ sign # fmt_d n) = (if sign = CHR ''+'' then m + n else m - n)"
proof -
  let ?s = "fmt_d m @ sign # fmt_d n"
  have m: "list_all is_digit (fmt_d m)" "fmt_d m \<noteq> []" and n: "list_all is_digit (fmt_d n)" "fmt_d n \<noteq> []"
    using fmt_d_digits assms(1,3) by blast+
  have ends: "is_digit (hd ?s)" "is_digit (last ?s)"
    using m n by (auto simp: list_all_iff hd_append)
  have trim: "TrimSpace ?s = ?s"
    using ends digit_kinds by (intro TrimSpace_id) auto
  have "drop (length ?s - 2) ?s \<noteq> ''=?''"
  proof
    assume d: "drop (length ?s - 2) ?s = ''=?''"
    then have "length ?s - 2 < length ?s" by (metis drop_eq_Nil linorder_not_less list.discI)
    then have "last ?s = CHR ''?''" using d by (metis last.simps last_drop list.discI)
    with ends(2) digit_kinds show False by blast
  qed
  then have suffix: "TrimSuffix ?s ''=?'' = ?s" by (simp add: TrimSuffix_def)
  have off: "CHR ''+'' \<notin> set (fmt_d m)" "CHR ''-'' \<notin> set (fmt_d m)" "CHR ''+'' \<notin> set (fmt_d n)" "CHR ''-'' \<notin> set (fmt_d n)"
    using m(1) n(1) digit_kinds by (auto simp: list_all_iff)
  have parts: "takeWhile (\<lambda>c. c \<noteq> sign) ?s = fmt_d m" "drop 1 (dropWhile (\<lambda>c. c \<noteq> sign) ?s) = fmt_d n"
    using off assms(5) by (auto simp: takeWhile_append dropWhile_append takeWhile_eq_all_conv)
  have i: "in_int64 m" "in_int64 n" using assms(1-4) by (simp_all add: in_int64_def)
  have w: "wrap64 (m + n) = m + n" "wrap64 (m - n) = m - n"
    unfolding wrap64_def by (rule sint_diff; use assms(1-4) in simp)+
  show ?thesis
    using assms(5)
  proof
    assume "sign = CHR ''+''"
    with trim suffix parts TrimSpace_fmt assms(1,3) Atoi_value_fmt i w show ?thesis
      by (simp add: solveExpr_def Let_def)
  next
    assume "sign = CHR ''-''"
    with trim suffix parts TrimSpace_fmt assms(1,3) Atoi_value_fmt i w off show ?thesis
      by (simp add: solveExpr_def Let_def)
  qed
qed

lemma solver_agrees:
  assumes "generateMathExpression b1 b2 b3 = (expr, answer)"
  shows "solveExpr expr = answer"
proof -
  let ?n1 = "int (unat (b1 mod 9)) + 1" and ?n2 = "int (unat (b2 mod 9)) + 1"
  have n: "0 \<le> ?n1" "?n1 \<le> 9" "0 \<le> ?n2" "?n2 \<le> 9"
    using byte_mod_nine [of b1] byte_mod_nine [of b2] by simp_all
  have "unat b3 mod 2 = 0 \<or> unat b3 mod 2 = 1" by presburger
  then show ?thesis
  proof
    assume "unat b3 mod 2 = 0"
    with assms have "expr = fmt_d ?n1 @ CHR ''+'' # fmt_d ?n2" "answer = ?n1 + ?n2"
      by (auto simp: generateMathExpression_def Let_def)
    with solve_sum [OF n, of "CHR ''+''"] show ?thesis by simp
  next
    assume "unat b3 mod 2 = 1"
    with assms have e: "(expr, answer) = (if ?n2 > ?n1 then (fmt_d ?n2 @ CHR ''-'' # fmt_d ?n1, ?n2 - ?n1)
        else (fmt_d ?n1 @ CHR ''-'' # fmt_d ?n2, ?n1 - ?n2))"
      by (auto simp: generateMathExpression_def Let_def)
    note solve_sum [OF n, of "CHR ''-''"] solve_sum [OF n(3,4,1,2), of "CHR ''-''"]
    with e show ?thesis by (simp split: if_splits)
  qed
qed

section \<open>The tickets in Redis\<close>

context reliable_redis
begin

lemma tickets_pass:
  assumes "SetSeckillPath call u p tok 60000 s = (s1, Inr v)" "SetCaptcha call i answer 120000 s1 = (s2, Inr w)" "i \<noteq> []"
    "sq_product_id req = p" "sq_path_token req = tok" "sq_captcha_id req = i" "sq_captcha_code req = Some answer"
  shows "snd (seckill_tickets call False c u req s2) = None"
proof -
  obtain r where r: "call s (SET (path_key u p) tok (Some 60000)) = (s1, r)"
    using assms(1) by (auto simp: SetSeckillPath_def set_ttl_def split: prod.splits)
  have k1: "kv s1 = put (kv s) (path_key u p) (RStr tok) (Some (ks_clock (kv s) + 60000))"
    using answers [OF r] by (simp add: put_ttl_def)
  obtain r' where r': "call s1 (SET (captcha_key i) (fmt_d answer) (Some 120000)) = (s2, r')"
    using assms(2) by (auto simp: SetCaptcha_def set_ttl_def split: prod.splits)
  have k2: "kv s2 = put (kv s1) (captcha_key i) (RStr (fmt_d answer)) (Some (ks_clock (kv s1) + 120000))"
    using answers [OF r'] by (simp add: put_ttl_def)
  have at: "no_hash (kv s2) (path_key u p)" "str_at (kv s2) (path_key u p) = Some tok"
    by (simp_all add: k1 k2 redis_simps key_simps)
  obtain s3 b where v: "call s2 (EVAL (verify_path_lua (path_key u p) tok)) = (s3, b)" by (rule prod.exhaust)
  from answers [OF v] at have v3: "kv s3 = drop_key (kv s2) (path_key u p)" "b = RInt 1"
    by (auto simp: verify_path_eval)
  have at3: "no_hash (kv s3) (captcha_key i)" "str_at (kv s3) (captcha_key i) = Some (fmt_d answer)"
    by (simp_all add: v3 k1 k2 redis_simps key_simps)
  obtain s4 b4 where v4: "call s3 (EVAL (verify_captcha_lua (captcha_key i) answer)) = (s4, b4)" by (rule prod.exhaust)
  from answers [OF v4] at3 have "b4 = RInt 1"
    by (auto simp: verify_captcha_eval)
  with v v3(2) v4 assms(3-7) show ?thesis
    by (simp add: seckill_tickets_def GetAndVerifySeckillPath_def GetAndVerifyCaptcha_def)
qed

lemma set_answers:
  "\<exists>s1. SetSeckillPath call u p tok 60000 s = (s1, Inr ())" "\<exists>s1. SetCaptcha call i answer 120000 s = (s1, Inr ())"
proof -
  have ok: "\<exists>s1. call s (SET k v (Some d)) = (s1, ROk)" if "0 < d" for k v d
    using answers [of s "SET k v (Some d)"] that by (cases "call s (SET k v (Some d))") (auto simp: put_ttl_def)
  obtain s1 where "call s (SET (path_key u p) tok (Some 60000)) = (s1, ROk)" using ok by fastforce
  then show "\<exists>s1. SetSeckillPath call u p tok 60000 s = (s1, Inr ())"
    by (simp add: SetSeckillPath_def set_ttl_def)
  obtain s2 where "call s (SET (captcha_key i) (fmt_d answer) (Some 120000)) = (s2, ROk)" using ok by fastforce
  then show "\<exists>s1. SetCaptcha call i answer 120000 s = (s1, Inr ())"
    by (simp add: SetCaptcha_def set_ttl_def)
qed

end

section \<open>The handshake\<close>

text \<open>
  The setting of the load generator: it knows the secret of the signatures and the MAC, its clock
  is at most a minute off, and its token is valid and not revoked.
\<close>

definition client_of :: "'s load_env \<Rightarrow> router \<Rightarrow> ('s \<Rightarrow> int) \<Rightarrow> string \<Rightarrow> jwt_claims \<Rightarrow> bool" where
  "client_of le ro clk token claims \<longleftrightarrow> le_hmac le = ro_hmac ro \<and> sign_secret (ro_sign_secret ro) = Secret \<and>
     token \<noteq> [] \<and> \<not> IsBlacklisted (ro_revoked ro) token \<and> (\<forall>m k. ro_hmac ro m k \<noteq> []) \<and>
     (\<forall>s. 0 \<le> clk s \<and> clk s < 2 ^ 62 \<and> in_int64 (le_unix le s) \<and> \<bar>clk s div 1000 - le_unix le s\<bar> \<le> 60 \<and>
        ParseToken (ro_crypto ro) (ro_jwt ro) (clk s) token = Inr claims)"

lemma load_request_sel [simp]:
  "hr_method (load_request hmac ip ts method path bd token) = method"
  "hr_path (load_request hmac ip ts method path bd token) = before_query path"
  "hr_raw_path (load_request hmac ip ts method path bd token) = []"
  "body_text (load_request hmac ip ts method path bd token) = bd"
  "GetHeader (load_request hmac ip ts method path bd token) ''X-Timestamp'' = fmt_d ts"
  "GetHeader (load_request hmac ip ts method path bd token) ''X-Sign'' = genSign hmac ts method (before_query path) bd"
  "token \<noteq> [] \<Longrightarrow> GetHeader (load_request hmac ip ts method path bd token) ''Authorization'' = ''Bearer '' @ token"
  by (simp_all add: load_request_def body_text_def GetHeader_def Let_def)

text \<open>A signed GET of the load generator reaches its handler as the user of the token.\<close>

lemma client_passes:
  assumes "client_of le ro clk token claims" "before_query path \<notin> set auth_whitelist" "before_query path \<notin> set sign_whitelist"
    "\<not> has_prefix ''/uploads/'' (before_query path)"
  shows "\<exists>c. run_chain (api_chain ro (clk s) generated (load_request (le_hmac le) (le_ip le) (le_unix le s) ''GET'' path bd token))
    fresh_context = (c, Next) \<and> gc_user_id c = Some (jc_user_id claims)"
proof -
  let ?r = "load_request (le_hmac le) (le_ip le) (le_unix le s) ''GET'' path bd token"
  have k: "le_hmac le = ro_hmac ro" "sign_secret (ro_sign_secret ro) = Secret" "token \<noteq> []"
      "\<not> IsBlacklisted (ro_revoked ro) token" "0 \<le> clk s" "clk s < 2 ^ 62" "in_int64 (le_unix le s)"
      "\<bar>clk s div 1000 - le_unix le s\<bar> \<le> 60" "ParseToken (ro_crypto ro) (ro_jwt ro) (clk s) token = Inr claims"
      "\<And>m k. ro_hmac ro m k \<noteq> []"
    using assms(1) unfolding client_of_def by blast+
  have raw: "hr_raw_path ?r \<notin> set sign_whitelist" by (simp add: sign_whitelist_def)
  have now: "0 \<le> clk s div 1000" "clk s div 1000 < 2 ^ 62"
    using k(5,6) by linarith+
  obtain d1 where d1: "TraceIDMiddleware generated ?r fresh_context = (d1, Next)" using get_passes(1) [of ?r] by auto
  obtain d2 where d2: "CORSMiddleware (ro_cors ro) ?r d1 = (d2, Next)" using get_passes(2) [of ?r] by auto
  define d where "d = (if ro_performance ro then fresh_context else d2)"
  have chain: "run_chain (if ro_performance ro then [] else [TraceIDMiddleware generated ?r, CORSMiddleware (ro_cors ro) ?r])
      fresh_context = (d, Next)"
    using d1 d2 by (simp add: d_def)
  have given: "Atoi (fmt_d (le_unix le s)) = Some (le_unix le s)"
      "genSign (le_hmac le) (le_unix le s) ''GET'' (before_query path) bd =
        ro_hmac ro (fmt_d (le_unix le s) @ ''GET'' @ before_query path @ bd) (sign_secret (ro_sign_secret ro))"
    using k(1,2,7) by (simp_all add: genSign_def)
  have pass: "GetHeader ?r ''X-Sign'' \<noteq> [] \<Longrightarrow>
      snd (SignMiddleware (ro_hmac ro) (ro_sign_secret ro) (word_of_int (clk s div 1000)) ?r d) = Next"
    by (subst sign_passes [OF now _ raw]) (use assms(3,4) given k(8) in simp_all)
  have "snd (SignMiddleware (ro_hmac ro) (ro_sign_secret ro) (word_of_int (clk s div 1000)) ?r d) = Next"
    by (rule pass) (use k(10) given in simp)
  moreover have "fst (SignMiddleware (ro_hmac ro) (ro_sign_secret ro) (word_of_int (clk s div 1000)) ?r d) = d"
    by (simp add: SignMiddleware_def Let_def split: option.split)
  ultimately have sg: "SignMiddleware (ro_hmac ro) (ro_sign_secret ro) (word_of_int (clk s div 1000)) ?r d = (d, Next)"
    by (simp add: prod_eq_iff)
  have tb: "TokenBlacklistMiddleware (ro_revoked ro) ?r d = (d, Next)"
    using k by (simp add: TokenBlacklistMiddleware_def)
  obtain c where au: "AuthMiddleware (ro_crypto ro) (ro_jwt ro) (clk s) ?r d = (c, Next)" "gc_user_id c = Some (jc_user_id claims)"
    using auth_passes [of ?r "ro_crypto ro" "ro_jwt ro" "clk s" d] assms(2) k by auto
  show ?thesis
    using chain sg tb au get_passes(3) [of ?r] by (auto simp: api_chain_split global_chain_def run_chain_append)
qed

lemma client_get:
  assumes "client_of le ro clk token claims" "le_send le = http_server gin ro call txt clk handlers"
    "gin routes ''GET'' (before_query path) = Some rt" "rt_guard rt = Authenticated"
    "before_query path \<notin> set auth_whitelist" "before_query path \<notin> set sign_whitelist"
    "\<not> has_prefix ''/uploads/'' (before_query path)"
    "\<And>c. gc_user_id c = Some (jc_user_id claims) \<Longrightarrow>
      \<exists>s1 a. handlers (after_query path) (rt_handler rt) c s = (s1, Some a) \<and> P s1 a"
  shows "\<exists>s1 a m. doRequest le ''GET'' path [] token s = (s1, m, Some (200, Some (response_json txt a))) \<and> P s1 a"
proof -
  let ?r = "load_request (le_hmac le) (le_ip le) (le_unix le s) ''GET'' path [] token"
  obtain c where c: "run_chain (api_chain ro (clk s) [] ?r) fresh_context = (c, Next)" "gc_user_id c = Some (jc_user_id claims)"
    using client_passes [OF assms(1,5-7)] by blast
  obtain s1 a where a: "handlers (after_query path) (rt_handler rt) c s = (s1, Some a)" "P s1 a"
    using assms(8) [OF c(2)] by blast
  have "serve_http gin ro call (clk s) [] (handlers (after_query path)) ?r s = (s1, Handled (rt_handler rt) a)"
    using serve_authenticated [where gin = gin and handlers = "handlers (after_query path)", OF c(1) _ assms(4) a(1)] assms(3)
    by (simp add: RecoveryMiddleware_def)
  then have "doRequest le ''GET'' path [] token s =
      (s1, le_micros le s1 - le_micros le s, Some (200, Some (response_json txt a)))"
    by (simp add: doRequest_def assms(2) http_server_def outcome_reply_def)
  with a(2) show ?thesis by blast
qed

text \<open>The fields that the client reads from an answer.\<close>

lemma answer_data: "jdata (body_json (Some (response_json txt a))) = (case rs_data a of None \<Rightarrow> JNull | Some d \<Rightarrow> d)"
  by (simp add: jdata_def body_json_def response_json_def split: option.split)

lemma path_field: "jstring ''path_token'' (path_json x) = fst x"
  by (simp add: jstring_def path_json_def)

lemma captcha_fields:
  "jstring ''captcha_id'' (captcha_json (e, n, i)) = i" "jstring ''expression'' (captcha_json (e, n, i)) = e"
  by (simp_all add: jstring_def captcha_json_def)

lemma no_amp: "CHR ''&'' \<notin> set s \<Longrightarrow> split_amp s = [s]"
  by (induction s) auto

lemma product_query:
  assumes "0 < p" "in_int64 p"
  shows "parseProductID (parse_query (''product_id='' @ fmt_d p)) = Inr p"
proof -
  have "CHR ''&'' \<notin> set (fmt_d p)"
    using fmt_d_digits [of p] digit_kinds assms(1) by (auto simp: list_all_iff)
  then have "split_amp (''product_id='' @ fmt_d p) = [''product_id='' @ fmt_d p]"
    by (intro no_amp) simp
  then have "parse_query (''product_id='' @ fmt_d p) = [''product_id'' \<mapsto> fmt_d p]"
    by (simp add: parse_query_def)
  with assms show ?thesis by (simp add: parseProductID_def)
qed

text \<open>The two routes of the handshake.\<close>

lemma sole_route:
  assumes "gin_router gin" "Route m p Authenticated h \<in> set routes" "path_matches p path"
    "list_all (\<lambda>rt. rt_method rt = m \<and> path_matches (rt_path rt) path \<longrightarrow> rt_guard rt = Authenticated \<and> rt_handler rt = h) routes"
  obtains rt where "gin routes m path = Some rt" "rt_guard rt = Authenticated" "rt_handler rt = h"
proof -
  from gin_router.finds_some [OF assms(1,2), of m path] assms(3) obtain rt where
      "gin routes m path = Some rt" "rt \<in> set routes" "rt_method rt = m" "path_matches (rt_path rt) path"
    by auto
  with assms(4) that show thesis by (auto simp: list_all_iff)
qed

lemma handshake_routes:
  assumes "gin_router gin"
  shows "\<exists>rt. gin routes ''GET'' ''/api/v1/seckill/path'' = Some rt \<and> rt_guard rt = Authenticated \<and> rt_handler rt = ''GetSeckillPath''"
    "\<exists>rt. gin routes ''GET'' ''/api/v1/seckill/captcha'' = Some rt \<and> rt_guard rt = Authenticated \<and> rt_handler rt = ''GetCaptcha''"
  subgoal by (rule sole_route [OF assms, of "''GET''" "''/api/v1/seckill/path''" "''GetSeckillPath''"])
      (auto simp: routes_def open_routes_def api_routes_def path_matches_def)
  subgoal by (rule sole_route [OF assms, of "''GET''" "''/api/v1/seckill/captcha''" "''GetCaptcha''"])
      (auto simp: routes_def open_routes_def api_routes_def path_matches_def)
  done

lemma handshake_paths:
  "before_query (''/api/v1/seckill/path?product_id='' @ q) = ''/api/v1/seckill/path''"
  "after_query (''/api/v1/seckill/path?product_id='' @ q) = ''product_id='' @ q"
  "before_query (''/api/v1/seckill/captcha?product_id='' @ q) = ''/api/v1/seckill/captcha''"
  "after_query (''/api/v1/seckill/captcha?product_id='' @ q) = ''product_id='' @ q"
  "''/api/v1/seckill/path'' \<notin> set auth_whitelist" "''/api/v1/seckill/path'' \<notin> set sign_whitelist"
  "\<not> has_prefix ''/uploads/'' ''/api/v1/seckill/path''"
  "''/api/v1/seckill/captcha'' \<notin> set auth_whitelist" "''/api/v1/seckill/captcha'' \<notin> set sign_whitelist"
  "\<not> has_prefix ''/uploads/'' ''/api/v1/seckill/captcha''"
  by (simp_all add: before_query_def after_query_def auth_whitelist_def sign_whitelist_def has_prefix_def)

lemma path_answer:
  assumes "reliable_redis call kv" "0 < p" "in_int64 p" "gc_user_id c = Some uid"
  shows "\<exists>s1 a. sale_handlers call rnd others (''product_id='' @ fmt_d p) ''GetSeckillPath'' c s = (s1, Some a) \<and>
    SetSeckillPath call uid p (EncodeToString (rn_path rnd s)) 60000 (w_redis (st_world s)) = (w_redis (st_world s1), Inr ()) \<and>
    rs_data a = Some (path_json (EncodeToString (rn_path rnd s), 60))"
proof -
  obtain r1 where r1: "SetSeckillPath call uid p (EncodeToString (rn_path rnd s)) 60000 (w_redis (st_world s)) = (r1, Inr ())"
    using reliable_redis.set_answers(1) [OF assms(1)] by blast
  then show ?thesis
    using product_query [OF assms(2,3)] assms(4)
    by (simp add: sale_handlers_def ctl_GetSeckillPath_def GetInt64_user_def on_world_def on_redis_def encode_response_def
        Success_def Let_def)
qed

lemma captcha_reply:
  assumes "reliable_redis call kv" "0 < p" "in_int64 p"
  shows "\<exists>s1 a. sale_handlers call rnd others (''product_id='' @ fmt_d p) ''GetCaptcha'' c s = (s1, Some a) \<and>
    (\<exists>e. SetCaptcha call (EncodeToString (rn_captcha_id rnd s)) (solveExpr e) 120000 (w_redis (st_world s)) =
        (w_redis (st_world s1), Inr ()) \<and>
      rs_data a = Some (captcha_json (e, 120, EncodeToString (rn_captcha_id rnd s))))"
proof -
  obtain b1 b2 b3 where b: "rn_captcha rnd s = (b1, b2, b3)" by (rule prod_cases3)
  obtain e ans where e: "generateMathExpression b1 b2 b3 = (e, ans)" by (rule prod.exhaust)
  obtain r1 where r1: "SetCaptcha call (EncodeToString (rn_captcha_id rnd s)) ans 120000 (w_redis (st_world s)) = (r1, Inr ())"
    using reliable_redis.set_answers(2) [OF assms(1)] by blast
  let ?a = "encode_response captcha_json (Success c (e, 120, EncodeToString (rn_captcha_id rnd s)))"
  have "sale_handlers call rnd others (''product_id='' @ fmt_d p) ''GetCaptcha'' c s =
      (s\<lparr>st_world := (st_world s)\<lparr>w_redis := r1\<rparr>\<rparr>, Some ?a)"
    using product_query [OF assms(2,3)] b e r1
    by (simp add: sale_handlers_def ctl_GetCaptcha_def on_world_def on_redis_def Let_def)
  moreover have "rs_data ?a = Some (captcha_json (e, 120, EncodeToString (rn_captcha_id rnd s)))"
    by (simp add: encode_response_def Success_def)
  ultimately show ?thesis
    using r1 solver_agrees [OF e]
    by (intro exI [of _ "s\<lparr>st_world := (st_world s)\<lparr>w_redis := r1\<rparr>\<rparr>"] exI [of _ ?a] conjI exI [of _ e]) simp_all
qed

lemma hex_not_empty: "bs \<noteq> [] \<Longrightarrow> EncodeToString bs \<noteq> []"
  by (cases bs) (simp_all add: EncodeToString_def)

text \<open>
  C14. The handshake of the load generator opens the sale: sent through the router with its
  signature and token checks, over a Redis that answers, it ends with a path token, a captcha and
  an answer, and a sale request of that user with the three passes the ticket check of the sale
  handler: the signatures of both sides agree, the solver of the client agrees with the captchas
  of the server, and both tokens are stored where the handler looks for them.
\<close>

theorem handshake_opens_sale:
  assumes "gin_router gin" "reliable_redis call kv" "client_of le ro clk token claims"
    "le_send le = http_server gin ro call txt clk (sale_handlers call rnd others)"
    "0 < p" "in_int64 p" "\<forall>s. rn_path rnd s \<noteq> [] \<and> rn_captcha_id rnd s \<noteq> []"
  shows "\<exists>s' ptok cid ans. fetchPathCaptcha le token p s = (s', Inr (ptok, cid, ans)) \<and>
    (\<forall>req c. sq_product_id req = p \<and> sq_path_token req = ptok \<and> sq_captcha_id req = cid \<and> sq_captcha_code req = Some ans \<longrightarrow>
      snd (seckill_tickets call False c (jc_user_id claims) req (w_redis (st_world s'))) = None)"
proof -
  obtain rt1 where rt1: "gin routes ''GET'' ''/api/v1/seckill/path'' = Some rt1" "rt_guard rt1 = Authenticated"
      "rt_handler rt1 = ''GetSeckillPath''"
    using handshake_routes(1) [OF assms(1)] by blast
  obtain rt2 where rt2: "gin routes ''GET'' ''/api/v1/seckill/captcha'' = Some rt2" "rt_guard rt2 = Authenticated"
      "rt_handler rt2 = ''GetCaptcha''"
    using handshake_routes(2) [OF assms(1)] by blast
  let ?tok = "EncodeToString (rn_path rnd s)"
  obtain s1 a1 m1 where one: "doRequest le ''GET'' (''/api/v1/seckill/path?product_id='' @ fmt_d p) [] token s =
        (s1, m1, Some (200, Some (response_json txt a1)))"
      "SetSeckillPath call (jc_user_id claims) p ?tok 60000 (w_redis (st_world s)) = (w_redis (st_world s1), Inr ())"
      "rs_data a1 = Some (path_json (?tok, 60))"
    using client_get [OF assms(3,4), where path = "''/api/v1/seckill/path?product_id='' @ fmt_d p" and rt = rt1,
        unfolded handshake_paths rt1, OF refl refl handshake_paths(5-7) path_answer [OF assms(2,5,6)]] by blast
  let ?cid = "EncodeToString (rn_captcha_id rnd s1)"
  obtain s2 a2 m2 e where two: "doRequest le ''GET'' (''/api/v1/seckill/captcha?product_id='' @ fmt_d p) [] token s1 =
        (s2, m2, Some (200, Some (response_json txt a2)))"
      "SetCaptcha call ?cid (solveExpr e) 120000 (w_redis (st_world s1)) = (w_redis (st_world s2), Inr ())"
      "rs_data a2 = Some (captcha_json (e, 120, ?cid))"
    using client_get [OF assms(3,4), where path = "''/api/v1/seckill/captcha?product_id='' @ fmt_d p" and rt = rt2,
        unfolded handshake_paths rt2, OF refl refl handshake_paths(8-10) captcha_reply [OF assms(2,5,6)]] by blast
  have ne: "?tok \<noteq> []" "?cid \<noteq> []" using assms(7) hex_not_empty by blast+
  have "fetchPathCaptcha le token p s = (s2, Inr (?tok, ?cid, solveExpr e))"
    using one two ne by (simp add: fetchPathCaptcha_def answer_data path_field captcha_fields)
  moreover have "snd (seckill_tickets call False c (jc_user_id claims) req (w_redis (st_world s2))) = None"
    if "sq_product_id req = p \<and> sq_path_token req = ?tok \<and> sq_captcha_id req = ?cid \<and> sq_captcha_code req = Some (solveExpr e)" for req c
    by (rule reliable_redis.tickets_pass [OF assms(2) one(2) two(2) ne(2)]) (use that in simp_all)
  ultimately show ?thesis by blast
qed

definition load_router :: router where
  "load_router = demo_router\<lparr>ro_sign_secret := Secret\<rparr>"

definition load_site :: "(keyspace, database, demo_broker, real, rule_store) site" where
  "load_site = \<lparr>st_world = \<lparr>w_redis = empty_keyspace, w_db = w_db (st_world demo_site), w_mq = w_mq (st_world demo_site),
     w_mon = w_mon (st_world demo_site), w_kafka = []\<rparr>, st_detector = st_detector demo_site, st_hub = st_hub demo_site,
     st_sentinel = st_sentinel demo_site\<rparr>"

definition load_random :: "(keyspace, database, demo_broker, real, rule_store) site randomness" where
  "load_random = \<lparr>rn_path = (\<lambda>_. [7]), rn_captcha = (\<lambda>_. (3, 5, 7)), rn_captcha_id = (\<lambda>_. [0xAB])\<rparr>"

definition demo_load :: "(keyspace, database, demo_broker, real, rule_store) site load_env" where
  "demo_load = \<lparr>le_hmac = demo_hmac,
     le_send = http_server first_route load_router plain_call (\<lambda>_. []) (\<lambda>_. 3000)
       (sale_handlers plain_call load_random (\<lambda>_ _ s. (s, None))),
     le_unix = (\<lambda>_. 3), le_micros = (\<lambda>_. 0), le_ip = ''127.0.0.1'', le_keys = (\<lambda>_ s. (s, Inr [])), le_del = (\<lambda>_ s. s)\<rparr>"

theorem handshake_opens_sale_witness:
  "\<exists>t s' ptok cid ans. GenerateToken demo_crypto demo_manager 2000 7 ''bob'' ''user'' = Inr t \<and>
     fetchPathCaptcha demo_load t 1 load_site = (s', Inr (ptok, cid, ans)) \<and>
     snd (seckill_tickets plain_call False fresh_context 7 \<lparr>sq_product_id = 1, sq_quantity = 1, sq_idempotent_key = ''k'',
       sq_path_token = ptok, sq_captcha_code = Some ans, sq_captcha_id = cid, sq_sku_id = 0\<rparr> (w_redis (st_world s')))
       = (None :: unit response option)"
proof -
  obtain t where t: "GenerateToken demo_crypto demo_manager 2000 7 ''bob'' ''user'' = Inr t"
    using demo_token by blast
  let ?claims = "token_claims demo_manager 2000 7 ''bob'' ''user''"
  have p: "ParseToken demo_crypto demo_manager 3000 t = Inr ?claims"
    by (rule demo_auth.token_roundtrip [OF t]) (simp_all add: demo_manager_def NewJWTManager_def)
  have "t \<noteq> []"
    using t by (auto simp: GenerateToken_def demo_crypto_def)
  with p have c: "client_of demo_load load_router (\<lambda>_. 3000) t ?claims"
    by (simp add: client_of_def demo_load_def load_router_def demo_router_def demo_hmac_def IsBlacklisted_def in_int64_def
        sign_secret_def Secret_def)
  have send: "le_send demo_load = http_server first_route load_router plain_call (\<lambda>_. []) (\<lambda>_. 3000)
       (sale_handlers plain_call load_random (\<lambda>_ _ s. (s, None)))"
    by (simp add: demo_load_def)
  have rnd: "\<forall>s. rn_path load_random s \<noteq> [] \<and> rn_captcha_id load_random s \<noteq> []"
    by (simp add: load_random_def)
  have "jc_user_id ?claims = 7" by (simp add: token_claims_def)
  then obtain s' ptok cid ans where "fetchPathCaptcha demo_load t 1 load_site = (s', Inr (ptok, cid, ans))"
      "\<forall>req c. sq_product_id req = 1 \<and> sq_path_token req = ptok \<and> sq_captcha_id req = cid \<and> sq_captcha_code req = Some ans \<longrightarrow>
        snd (seckill_tickets plain_call False c 7 req (w_redis (st_world s'))) = (None :: unit response option)"
    using handshake_opens_sale [OF first.gin_router_axioms plain_redis.reliable_redis_axioms c send, of 1 load_site] rnd
    by (auto simp: in_int64_def)
  with t show ?thesis by auto
qed

end
