(* ===== verification/Load_Limit.thy ===== *)
theory Load_Limit
  imports Load_Client Seckill_Gate
begin

text \<open>
  The limit test of \<^verbatim>\<open>stress_test/cmd/limit/main.go\<close>: it raises the number of concurrent sale requests level by
  level until the knee (a success rate below 95 per cent or a P99 above five seconds) and reports the peak,
  the knee and its guesses at the bottleneck. It shares the shape of the load generator but not its code: it
  does not reset the login limit, logs in in batches of 20, and sends sale requests without path token and
  captcha. The rank of P99, a product of \<^verbatim>\<open>float64\<close>, is the
  parameter \<open>rank99\<close>; the other float64 values are rationals.
\<close>

section \<open>Requests\<close>

definition limit_MaxTestUsers :: nat where "limit_MaxTestUsers = 5000"

text \<open>The whole path is signed, with its query.\<close>

definition limit_request ::
  "(string \<Rightarrow> string \<Rightarrow> string) \<Rightarrow> string \<Rightarrow> int \<Rightarrow> string \<Rightarrow> string \<Rightarrow> string \<Rightarrow> string \<Rightarrow> http_request" where
  "limit_request hmac ip ts method path bd token =
     \<lparr>hr_method = method, hr_path = before_query path, hr_raw_path = [],
       hr_headers = (let h = [''Content-Type'' \<mapsto> ''application/json'', ''X-Timestamp'' \<mapsto> fmt_d ts,
                         ''X-Sign'' \<mapsto> genSign hmac ts method path bd]
                     in if token \<noteq> [] then h(''Authorization'' \<mapsto> ''Bearer '' @ token) else h),
       hr_body = Some bd, hr_content_length = int (length bd), hr_client_ip = ip\<rparr>"

definition limit_doRequest ::
  "'s load_env \<Rightarrow> string \<Rightarrow> string \<Rightarrow> string \<Rightarrow> string \<Rightarrow> 's \<Rightarrow> 's \<times> int \<times> (int \<times> json option) option" where
  "limit_doRequest le method path bd token s =
     (case le_send le (limit_request (le_hmac le) (le_ip le) (le_unix le s) method path bd token) (after_query path) s of
        (s1, reply) \<Rightarrow> (s1, le_micros le s1 - le_micros le s, reply))"

text \<open>An error status counts as an existing user.\<close>

definition limit_registerTestUser :: "'s load_env \<Rightarrow> nat \<Rightarrow> string \<Rightarrow> 's \<Rightarrow> 's \<times> unit result" where
  "limit_registerTestUser le idx token s =
     (let bd = json_map [(''email'', test_user idx @ ''@test.com''), (''password'', ''test123''),
                 (''phone'', ''138'' @ fmt_08d idx), (''username'', test_user idx)]
      in case limit_doRequest le ''POST'' ''/api/v1/user/register'' bd token s of
           (s1, _, None) \<Rightarrow> (s1, Inl (Errf ''no answer''))
         | (s1, _, Some (status, b)) \<Rightarrow>
             if status \<noteq> 200 then (s1, Inr ())
             else if jint ''code'' (body_json b) \<noteq> 200 \<and> jint ''code'' (body_json b) \<noteq> 409
             then (s1, Inl (Errf ''registration failed'')) else (s1, Inr ()))"

text \<open>A refused login with status 200 gives an empty token.\<close>

definition limit_loginTestUser :: "'s load_env \<Rightarrow> nat \<Rightarrow> 's \<Rightarrow> 's \<times> string result" where
  "limit_loginTestUser le idx s =
     (let bd = json_map [(''password'', ''test123''), (''username'', test_user idx)]
      in case limit_doRequest le ''POST'' ''/api/v1/user/login'' bd [] s of
           (s1, _, None) \<Rightarrow> (s1, Inl (Errf ''no answer''))
         | (s1, _, Some (status, b)) \<Rightarrow>
             if status \<noteq> 200 then (s1, Inl (Errf ''login failed'')) else (s1, Inr (login_token b)))"

fun limit_register_all :: "'s load_env \<Rightarrow> string \<Rightarrow> nat list \<Rightarrow> 's \<Rightarrow> 's" where
  "limit_register_all le token [] s = s"
| "limit_register_all le token (idx # idxs) s =
     limit_register_all le token idxs (fst (limit_registerTestUser le idx token s))"

fun limit_login_all :: "'s load_env \<Rightarrow> nat list \<Rightarrow> string list \<Rightarrow> 's \<Rightarrow> 's \<times> string list" where
  "limit_login_all le [] toks s = (s, toks)"
| "limit_login_all le (idx # idxs) toks s =
     (case limit_loginTestUser le idx s of
        (s1, Inl _) \<Rightarrow> limit_login_all le idxs toks s1
      | (s1, Inr tok) \<Rightarrow> limit_login_all le idxs (toks @ [tok]) s1)"

text \<open>\<open>pause\<close> waits 50 ms after each batch of 20.\<close>

function limit_batches :: "'s load_env \<Rightarrow> ('s \<Rightarrow> 's) \<Rightarrow> nat \<Rightarrow> nat \<Rightarrow> string list \<Rightarrow> 's \<Rightarrow> 's \<times> string list" where
  "limit_batches le pause users start toks s =
     (if start < users
      then (case limit_login_all le [start..<min (start + 20) users] toks s of
              (s1, toks1) \<Rightarrow> limit_batches le pause users (start + 20) toks1 (pause s1))
      else (s, toks))"
  by pat_completeness auto
termination
  by (relation "measure (\<lambda>(le, pause, users, start, toks, s). users - start)") auto

declare limit_batches.simps [simp del]

definition limit_prepareTokenPool :: "'s load_env \<Rightarrow> ('s \<Rightarrow> 's) \<Rightarrow> string \<Rightarrow> nat \<Rightarrow> 's \<Rightarrow> 's \<times> token_pool" where
  "limit_prepareTokenPool le pause adminToken users s =
     (case limit_batches le pause users 0 [] (limit_register_all le adminToken [0..<users] s) of
        (s1, toks) \<Rightarrow> (s1, \<lparr>tp_tokens = toks, tp_idx = 0\<rparr>))"

definition limit_getActiveProducts :: "'s load_env \<Rightarrow> string \<Rightarrow> 's \<Rightarrow> 's \<times> int list result" where
  "limit_getActiveProducts le token s =
     (case limit_doRequest le ''GET'' ''/api/v1/product/active'' [] token s of
        (s1, _, None) \<Rightarrow> (s1, Inl (Errf ''no answer''))
      | (s1, _, Some (status, b)) \<Rightarrow>
          if status \<noteq> 200 then (s1, Inl (Errf ''no list of products''))
          else (s1, Inr (case jdata (body_json b) of JArr xs \<Rightarrow> map (jint ''id'') xs | _ \<Rightarrow> [])))"

text \<open>The figures are asked for without a token; without data they are 0.\<close>

definition getSystemMetrics :: "'s load_env \<Rightarrow> 's \<Rightarrow> 's \<times> int \<times> rat" where
  "getSystemMetrics le s =
     (case limit_doRequest le ''GET'' ''/api/v1/monitor/metrics'' [] [] s of
        (s1, _, Some (status, b)) \<Rightarrow>
          if status \<noteq> 200 then (s1, 0, 0)
          else (s1, jint ''goroutines'' (jdata (body_json b)),
                 case jfield ''mem_alloc_mb'' (jdata (body_json b)) of Some (JNum q) \<Rightarrow> q | _ \<Rightarrow> 0)
      | (s1, _, None) \<Rightarrow> (s1, 0, 0))"

section \<open>A level\<close>

record limit_result =
  li_concurrency :: nat
  li_success :: int
  li_fail :: int
  li_latencies :: "rat list"
  li_errors :: "string \<rightharpoonup> int"
  li_qps :: "rat option"
  li_p50 :: rat
  li_p99 :: rat
  li_avg :: rat
  li_min :: rat
  li_max :: rat
  li_success_rate :: rat
  li_goroutines :: int
  li_mem_mb :: rat

definition limit_body :: "int \<Rightarrow> string \<Rightarrow> string" where
  "limit_body productID key = json_object [(''product_id'', fmt_d productID), (''quantity'', fmt_d 1),
     (''idempotent_key'', json_string key)]"

definition limit_failed :: "string \<Rightarrow> limit_result \<Rightarrow> limit_result" where
  "limit_failed k r = r\<lparr>li_fail := li_fail r + 1,
     li_errors := (li_errors r)(k \<mapsto> (case li_errors r k of None \<Rightarrow> 0 | Some n \<Rightarrow> n) + 1)\<rparr>"

definition limit_reply :: "(int \<times> json option) option \<Rightarrow> limit_result \<Rightarrow> limit_result" where
  "limit_reply reply r = (case reply of
      None \<Rightarrow> limit_failed ''network error'' r
    | Some (status, b) \<Rightarrow>
        if status = 200
        then (if jint ''code'' (body_json b) = 200 then r\<lparr>li_success := li_success r + 1\<rparr>
              else limit_failed (''business error('' @ fmt_d (jint ''code'' (body_json b)) @ '')'') r)
        else limit_failed (''HTTP '' @ fmt_d status) r)"

text \<open>\<open>None\<close> is the panic of an empty pool.\<close>

fun limit_workers ::
  "'s load_env \<Rightarrow> ('s \<Rightarrow> int) \<Rightarrow> int \<Rightarrow> nat list \<Rightarrow> token_pool \<times> limit_result \<Rightarrow> 's \<Rightarrow> ('s \<times> token_pool \<times> limit_result) option" where
  "limit_workers le nanos productID [] pr s = Some (s, pr)"
| "limit_workers le nanos productID (idx # idxs) (p, r) s =
     (case TokenPool_Next p of
        None \<Rightarrow> None
      | Some (p1, token) \<Rightarrow>
          (case limit_doRequest le ''POST'' ''/api/v1/seckill''
              (limit_body productID (''limit_'' @ fmt_d productID @ ''_'' @ fmt_nat idx @ ''_'' @ fmt_d (nanos s))) token s of
             (s1, micros, reply) \<Rightarrow>
               limit_workers le nanos productID idxs
                 (p1, limit_reply reply (r\<lparr>li_latencies := li_latencies r @ [of_int micros / 1000]\<rparr>)) s1))"

definition limit_fresh :: "nat \<Rightarrow> limit_result" where
  "limit_fresh n = \<lparr>li_concurrency = n, li_success = 0, li_fail = 0, li_latencies = [], li_errors = Map.empty, li_qps = Some 0,
     li_p50 = 0, li_p99 = 0, li_avg = 0, li_min = 0, li_max = 0, li_success_rate = 0, li_goroutines = 0, li_mem_mb = 0\<rparr>"

definition p99_index :: "(nat \<Rightarrow> nat) \<Rightarrow> nat \<Rightarrow> nat" where
  "p99_index rank99 n = (if n \<le> rank99 n then n - 1 else rank99 n)"

definition limit_finish :: "(nat \<Rightarrow> nat) \<Rightarrow> nat \<Rightarrow> int \<Rightarrow> limit_result \<Rightarrow> limit_result" where
  "limit_finish rank99 concurrency micros r =
     (let ls = sort (li_latencies r);
          r1 = (if ls \<noteq> []
            then r\<lparr>li_latencies := ls,
                    li_qps := (if micros = 0 then None else Some (of_nat concurrency / (of_int micros / 1000000))),
                    li_p50 := ls ! (length ls * 50 div 100), li_p99 := ls ! p99_index rank99 (length ls),
                    li_avg := sum_list ls / of_nat (length ls), li_min := hd ls, li_max := last ls\<rparr>
            else r)
      in r1\<lparr>li_success_rate := of_int (li_success r1) / of_nat concurrency * 100\<rparr>)"

definition limit_runSeckillTest ::
  "'s load_env \<Rightarrow> (nat \<Rightarrow> nat) \<Rightarrow> ('s \<Rightarrow> int) \<Rightarrow> token_pool \<Rightarrow> int \<Rightarrow> nat \<Rightarrow> 's \<Rightarrow> ('s \<times> token_pool \<times> limit_result) option" where
  "limit_runSeckillTest le rank99 nanos p productID concurrency s =
     (case limit_workers le nanos productID [0..<concurrency] (p, limit_fresh concurrency) s of
        None \<Rightarrow> None
      | Some (s1, p1, r) \<Rightarrow>
          (case getSystemMetrics le s1 of
             (s2, g, m) \<Rightarrow> Some (s2, p1, (limit_finish rank99 concurrency (le_micros le s1 - le_micros le s) r)
                \<lparr>li_goroutines := g, li_mem_mb := m\<rparr>)))"

section \<open>The levels and their analysis\<close>

definition knee :: "limit_result \<Rightarrow> bool" where
  "knee r \<longleftrightarrow> li_success_rate r < 95 \<or> 5000 < li_p99 r"

text \<open>\<open>cool\<close> waits between two levels.\<close>

fun limit_levels ::
  "(token_pool \<Rightarrow> nat \<Rightarrow> 's \<Rightarrow> ('s \<times> token_pool \<times> limit_result) option) \<Rightarrow> ('s \<Rightarrow> 's) \<Rightarrow> nat list \<Rightarrow> token_pool \<Rightarrow> 's
     \<Rightarrow> ('s \<times> limit_result list) option" where
  "limit_levels run cool [] p s = Some (s, [])"
| "limit_levels run cool (c # cs) p s =
     (case run p c s of
        None \<Rightarrow> None
      | Some (s1, p1, r) \<Rightarrow>
          if knee r then Some (s1, [r])
          else map_option (\<lambda>(s2, rs). (s2, r # rs)) (limit_levels run cool cs p1 (if cs = [] then s1 else cool s1)))"

definition concurrencies :: "nat list" where
  "concurrencies = [100, 500, 1000, 2000, 3000, 5000, 8000, 10000, 20000, 50000]"

text \<open>A rate of \<open>None\<close> is infinite.\<close>

definition faster :: "rat option \<Rightarrow> rat option \<Rightarrow> bool" where
  "faster a b = (case (a, b) of (Some x, Some y) \<Rightarrow> y < x | (None, Some _) \<Rightarrow> True | _ \<Rightarrow> False)"

fun peak_of :: "(rat option \<times> nat option) \<Rightarrow> limit_result list \<Rightarrow> rat option \<times> nat option" where
  "peak_of pk [] = pk"
| "peak_of pk (r # rs) = peak_of (if faster (li_qps r) (fst pk) then (li_qps r, Some (li_concurrency r)) else pk) rs"

record limit_analysis =
  la_peak_qps :: "rat option"
  la_peak_level :: "nat option"
  la_knee :: "limit_result option"
  la_flat :: bool
  la_queueing :: bool

definition qps_flat :: "limit_result \<Rightarrow> limit_result \<Rightarrow> bool" where
  "qps_flat r1 r2 = (case (li_qps r1, li_qps r2) of
      (Some a, Some b) \<Rightarrow> a \<noteq> 0 \<and> (b - a) / a * 100 <
        (of_int (int (li_concurrency r2) - int (li_concurrency r1)) / of_nat (li_concurrency r1) * 100) * (3 / 10)
    | _ \<Rightarrow> False)"

definition latency_grows :: "limit_result \<Rightarrow> limit_result \<Rightarrow> bool" where
  "latency_grows r1 r2 =
     (if li_p99 r1 = 0 then 0 < li_p99 r2 else 500 < (li_p99 r2 - li_p99 r1) / li_p99 r1 * 100)"

definition limit_analyse :: "limit_result list \<Rightarrow> limit_analysis" where
  "limit_analyse results = (case peak_of (Some 0, None) results of (q, l) \<Rightarrow>
     \<lparr>la_peak_qps = q, la_peak_level = l, la_knee = List.find knee results,
       la_flat = (3 \<le> length results \<and> qps_flat (hd results) (last results)),
       la_queueing = (2 \<le> length results \<and> latency_grows (hd results) (last results))\<rparr>)"

text \<open>The program ends with status 0 in any case; \<open>None\<close> is a panic.\<close>

definition limit_main ::
  "'s load_env \<Rightarrow> (nat \<Rightarrow> nat) \<Rightarrow> ('s \<Rightarrow> int) \<Rightarrow> ('s \<Rightarrow> 's) \<Rightarrow> ('s \<Rightarrow> 's) \<Rightarrow> 's \<Rightarrow> ('s \<times> limit_result list) option" where
  "limit_main le rank99 nanos pause cool s =
     (let bd = json_map [(''password'', ''admin123''), (''username'', TestUser)]
      in case limit_doRequest le ''POST'' ''/api/v1/user/login'' bd [] s of
           (s1, _, None) \<Rightarrow> Some (s1, [])
         | (s1, _, Some (_, b)) \<Rightarrow>
             if login_token b = [] then Some (s1, [])
             else (case limit_getActiveProducts le (login_token b) s1 of
                     (s2, Inl _) \<Rightarrow> Some (s2, [])
                   | (s2, Inr []) \<Rightarrow> Some (s2, [])
                   | (s2, Inr (p # ps)) \<Rightarrow>
                       (case limit_prepareTokenPool le pause (login_token b) limit_MaxTestUsers s2 of
                          (s3, pool) \<Rightarrow>
                            if tp_tokens pool = [] then Some (s3, [])
                            else limit_levels (\<lambda>pl c. limit_runSeckillTest le rank99 nanos pl (last (p # ps)) c) cool
                                   concurrencies pool s3)))"

section \<open>What the test reports\<close>

text \<open>Only the last level can be the knee, and the test goes on until then.\<close>

lemma levels_shape:
  assumes "limit_levels run cool cs p s = Some (s', rs)"
  shows "list_all (\<lambda>r. \<not> knee r) (butlast rs) \<and> (rs \<noteq> [] \<and> knee (last rs) \<or> length rs = length cs) \<and> (cs \<noteq> [] \<longrightarrow> rs \<noteq> [])"
  using assms
proof (induction cs arbitrary: p s s' rs)
  case (Cons c cs)
  obtain s1 p1 r where run: "run p c s = Some (s1, p1, r)" using Cons.prems by (auto split: option.splits)
  show ?case
  proof (cases "knee r")
    case True
    then show ?thesis using Cons.prems run by auto
  next
    case False
    then obtain s2 rs2 where rest: "limit_levels run cool cs p1 (if cs = [] then s1 else cool s1) = Some (s2, rs2)" "rs = r # rs2"
      using Cons.prems run by auto
    show ?thesis using Cons.IH [OF rest(1)] False rest(2) by (cases rs2) auto
  qed
qed simp

text \<open>The knee of the analysis is the level the test stopped at.\<close>

lemma analysed_knee:
  assumes "limit_levels run cool cs p s = Some (s', rs)" "cs \<noteq> []"
  shows "la_knee (limit_analyse rs) = (if knee (last rs) then Some (last rs) else None)"
proof -
  have rs: "rs \<noteq> []" "list_all (\<lambda>r. \<not> knee r) (butlast rs)" using levels_shape [OF assms(1)] assms(2) by simp_all
  have find: "List.find knee (xs @ [r]) = (if knee r then Some r else None)" if "list_all (\<lambda>r. \<not> knee r) xs" for xs r
    using that by (induction xs) auto
  have "List.find knee rs = (if knee (last rs) then Some (last rs) else None)"
    using find [OF rs(2), of "last rs"] rs(1) by simp
  then show ?thesis by (simp add: limit_analyse_def split: prod.split)
qed

text \<open>
  Against a server that refuses every sale request of the test, the first level is the knee and the last.
\<close>

definition refused_reply :: "(int \<times> json option) option \<Rightarrow> bool" where
  "refused_reply reply = (case reply of None \<Rightarrow> True | Some (status, b) \<Rightarrow> status \<noteq> 200 \<or> jint ''code'' (body_json b) \<noteq> 200)"

lemma refused_no_success: "refused_reply reply \<Longrightarrow> li_success (limit_reply reply r) = li_success r"
  by (auto simp: refused_reply_def limit_reply_def limit_failed_def split: option.splits prod.splits)

lemma workers_refused:
  assumes "\<And>key token s. refused_reply (snd (snd (limit_doRequest le ''POST'' ''/api/v1/seckill'' (limit_body productID key) token s)))"
    and "limit_workers le nanos productID idxs (p, r) s = Some (s', p', r')"
  shows "li_success r' = li_success r"
  using assms(2)
proof (induction idxs arbitrary: p r s)
  case (Cons idx idxs)
  obtain p1 token where next_token: "TokenPool_Next p = Some (p1, token)" using Cons.prems by (auto split: option.splits)
  let ?bd = "limit_body productID (''limit_'' @ fmt_d productID @ ''_'' @ fmt_nat idx @ ''_'' @ fmt_d (nanos s))"
  obtain s1 micros reply where call: "limit_doRequest le ''POST'' ''/api/v1/seckill'' ?bd token s = (s1, micros, reply)"
    by (metis prod_cases3)
  have "refused_reply reply" using assms(1) [of _ token s] call by (metis snd_conv)
  then show ?case
    using Cons.IH [of p1 "limit_reply reply (r\<lparr>li_latencies := li_latencies r @ [of_int micros / 1000]\<rparr>)" s1] Cons.prems
      next_token call refused_no_success [of reply] by simp
qed simp

lemma refused_level_is_knee:
  assumes "\<And>key token s. refused_reply (snd (snd (limit_doRequest le ''POST'' ''/api/v1/seckill'' (limit_body productID key) token s)))"
    and "limit_runSeckillTest le rank99 nanos p productID c s = Some (s', p', r)"
  shows "li_success r = 0 \<and> knee r"
proof -
  obtain s1 p1 r1 where w: "limit_workers le nanos productID [0..<c] (p, limit_fresh c) s = Some (s1, p1, r1)"
    using assms(2) by (auto simp: limit_runSeckillTest_def split: option.splits)
  have "li_success r1 = 0" using workers_refused [OF assms(1) w] by (simp add: limit_fresh_def)
  moreover obtain g m micros where
    "r = (limit_finish rank99 c micros r1)\<lparr>li_goroutines := g, li_mem_mb := m\<rparr>"
    using assms(2) w by (auto simp: limit_runSeckillTest_def split: prod.splits)
  ultimately show ?thesis by (simp add: knee_def limit_finish_def Let_def)
qed

lemma refused_test_stops_at_once:
  assumes "\<And>key token s. refused_reply (snd (snd (limit_doRequest le ''POST'' ''/api/v1/seckill'' (limit_body productID key) token s)))"
    and "limit_levels (\<lambda>pl c. limit_runSeckillTest le rank99 nanos pl productID c) cool (c # cs) p s = Some (s', rs)"
  shows "\<exists>r. rs = [r] \<and> li_success r = 0"
proof -
  obtain s1 p1 r where "limit_runSeckillTest le rank99 nanos p productID c s = Some (s1, p1, r)"
    using assms(2) by (auto split: option.splits)
  with refused_level_is_knee [OF assms(1) this] assms(2) show ?thesis by auto
qed

text \<open>
  The server is such a one: the requests of the test have no captcha, and the sale handler refuses those
  of every user, whatever else it finds.
\<close>

lemma tickets_need_captcha:
  assumes "sq_captcha_code req = None"
  shows "\<exists>s1 x. seckill_tickets call isAdmin c uid req s = (s1, Some (Error_response c 400 x))"
proof -
  obtain s1 ok where "(if isAdmin then (s, True) else case GetAndVerifySeckillPath call uid (sq_product_id req) (sq_path_token req) s of
      (s', Inl _) \<Rightarrow> (s', False) | (s', Inr valid) \<Rightarrow> (s', valid)) = (s1, ok)" by fastforce
  then show ?thesis using assms by (cases ok) (auto simp: seckill_tickets_def)
qed

lemma captcha_required:
  assumes "ctl_Seckill se ck gen flight c ip (Some req) g s = (g', s', Some a)" "sq_captcha_code req = None"
  shows "rs_code a \<noteq> 200 \<and> g' = g"
proof -
  have checked: "rs_code b \<noteq> 200 \<and> h = g"
    if "seckill_checked se ck gen flight isAdmin c ip (Some req) g s1 = (h, s2, Some b)" for isAdmin s1 h s2 b
  proof (cases "gc_user_id c")
    case None
    then show ?thesis
      using that by (auto simp: seckill_checked_def bind_json_def split: option.splits if_splits)
  next
    case (Some uid)
    obtain v x where "seckill_tickets (ev_call (se_env se)) isAdmin c uid req (w_redis (st_world s1)) =
        (v, Some (Error_response c 400 x :: seckill_response response))"
      using tickets_need_captcha [OF assms(2), of "ev_call (se_env se)" isAdmin c uid "w_redis (st_world s1)"] by (elim exE)
    then obtain w where "on_world (on_redis (seckill_tickets (ev_call (se_env se)) isAdmin c uid req)) s1 =
        (w, Some (Error_response c 400 x :: seckill_response response))" by (simp add: on_world_def on_redis_def)
    then show ?thesis using that Some by (auto simp: seckill_checked_def bind_json_def split: option.splits if_splits)
  qed
  show ?thesis
    using assms(1) checked by (auto simp: ctl_Seckill_def split: prod.splits sum.splits if_splits)
qed

end
