(* ===== verification/Load_Setup.thy ===== *)
theory Load_Setup
  imports Load_Limit
begin

text \<open>
  \<^verbatim>\<open>stress_test/cmd/setup/main.go\<close>, which makes a product for the load tests: login, creation of the product,
  opening and configuration of its activity, warm-up of the cache. Errors of the client are dropped, so
  a request without an answer is a nil pointer: \<open>None\<close>. \<open>fmt_now\<close> is the time of the request and
  \<open>fmt_end\<close> the time a day later, as text. The name and the description of the product are given in English.
\<close>

definition setup_token :: "json option \<Rightarrow> string" where
  "setup_token b = jstring ''token'' (jdata (body_json b))"

definition product_text :: "string \<Rightarrow> string \<Rightarrow> string" where
  "product_text start stop = json_object [(''description'', json_string ''product of the load test''),
     (''end_time'', json_string stop), (''image_url'', json_string []), (''limit_per_user'', ''3''),
     (''name'', json_string ''load test''), (''price'', ''99.99''), (''seckill_price'', ''9.99''),
     (''start_time'', json_string start), (''total_stock'', ''10000'')]"

definition activity_text :: "int \<Rightarrow> string" where
  "activity_text productID = json_object [(''product_id'', fmt_d productID), (''status'', ''1'')]"

definition activity_config_text :: "int \<Rightarrow> string \<Rightarrow> string \<Rightarrow> string" where
  "activity_config_text productID start stop = json_object [(''end_time'', json_string stop), (''limit_num'', ''3''),
     (''product_id'', fmt_d productID), (''start_time'', json_string start)]"

definition warmup_text :: "int \<Rightarrow> string" where
  "warmup_text productID = json_object [(''product_id'', fmt_d productID)]"

text \<open>How far the tool gets; the last steps print what they get.\<close>

datatype setup_end = Login_Failed | Creation_Failed | Activity_Failed | Ready_With int

definition setup_main ::
  "'s load_env \<Rightarrow> ('s \<Rightarrow> string) \<Rightarrow> ('s \<Rightarrow> string) \<Rightarrow> 's \<Rightarrow> ('s \<times> setup_end) option" where
  "setup_main le fmt_now fmt_end s =
     (let ask = (\<lambda>method path bd token s. case limit_doRequest le method path bd token s of (s1, _, reply) \<Rightarrow> (s1, reply));
          login = json_map [(''password'', ''admin123''), (''username'', TestUser)]
      in case ask ''POST'' ''/api/v1/user/login'' login [] s of
           (s1, None) \<Rightarrow> None
         | (s1, Some (status1, b1)) \<Rightarrow>
             if status1 \<noteq> 200 then Some (s1, Login_Failed)
             else (case ask ''POST'' ''/api/v1/product'' (product_text (fmt_now s1) (fmt_end s1)) (setup_token b1) s1 of
                (s2, None) \<Rightarrow> None
              | (s2, Some (status2, b2)) \<Rightarrow>
                  if status2 \<noteq> 200 then Some (s2, Creation_Failed)
                  else (let productID = jint ''id'' (jdata (body_json b2)) in
                    case ask ''PUT'' ''/api/v1/activity'' (activity_text productID) (setup_token b1) s2 of
                      (s3, None) \<Rightarrow> None
                    | (s3, Some (status3, _)) \<Rightarrow>
                        if status3 \<noteq> 200 then Some (s3, Activity_Failed)
                        else (case ask ''POST'' ''/api/v1/activity/config''
                              (activity_config_text productID (fmt_now s3) (fmt_end s3)) (setup_token b1) s3 of
                           (s4, None) \<Rightarrow> None
                         | (s4, Some _) \<Rightarrow>
                             (case ask ''POST'' ''/api/v1/activity/cache-warmup'' (warmup_text productID) (setup_token b1) s4 of
                                (s5, None) \<Rightarrow> None
                              | (s5, Some _) \<Rightarrow> Some (s5, Ready_With productID))))))"

text \<open>
  Against a server whose answers all have status 200 the tool reports success even when each of its
  requests is refused.
\<close>

lemma setup_always_ready:
  assumes "\<And>method path bd token s. \<exists>s' micros b. limit_doRequest le method path bd token s = (s', micros, Some (200, b))"
  shows "\<exists>s' productID. setup_main le fmt_now fmt_end s = Some (s', Ready_With productID)"
proof -
  let ?ask = "limit_doRequest le"
  let ?login = "json_map [(''password'', ''admin123''), (''username'', TestUser)]"
  obtain s1 m1 b1 where 1: "?ask ''POST'' ''/api/v1/user/login'' ?login [] s = (s1, m1, Some (200, b1))"
    using assms by blast
  obtain s2 m2 b2 where 2: "?ask ''POST'' ''/api/v1/product'' (product_text (fmt_now s1) (fmt_end s1)) (setup_token b1) s1
      = (s2, m2, Some (200, b2))" using assms by blast
  let ?p = "jint ''id'' (jdata (body_json b2))"
  obtain s3 m3 b3 where 3: "?ask ''PUT'' ''/api/v1/activity'' (activity_text ?p) (setup_token b1) s2 = (s3, m3, Some (200, b3))"
    using assms by blast
  obtain s4 m4 b4 where 4: "?ask ''POST'' ''/api/v1/activity/config'' (activity_config_text ?p (fmt_now s3) (fmt_end s3))
      (setup_token b1) s3 = (s4, m4, Some (200, b4))" using assms by blast
  obtain s5 m5 b5 where 5: "?ask ''POST'' ''/api/v1/activity/cache-warmup'' (warmup_text ?p) (setup_token b1) s4
      = (s5, m5, Some (200, b5))" using assms by blast
  show ?thesis using 1 2 3 4 5 by (simp add: setup_main_def Let_def)
qed

end
