(* ===== verification/Logger.thy ===== *)
theory Logger
  imports Config
begin

text \<open>
  \<^verbatim>\<open>log/logger.go\<close>: what the logger is set up to do. The zap and lumberjack packages take the result: a
  level, an encoding and the sinks; only the names of the choices are kept here.
\<close>

datatype zap_level = Debug_Level | Info_Level | Warn_Level | Error_Level

datatype encoding = Console_Encoding | Json_Encoding

record rotation =
  rt_filename :: string
  rt_max_size :: int
  rt_max_backups :: int
  rt_max_age :: int
  rt_compress :: bool

datatype sink = Standard_Output | Rotated_File rotation

record logger =
  lo_level :: zap_level
  lo_encoding :: encoding
  lo_sinks :: "sink list"

text \<open>The package variables: the global logger and the once flag.\<close>

record logger_state =
  ls_global :: "logger option"
  ls_once :: bool

definition zap_level_of :: "string \<Rightarrow> zap_level" where
  "zap_level_of level =
     (if level = ''debug'' then Debug_Level else if level = ''warn'' then Warn_Level
      else if level = ''error'' then Error_Level else Info_Level)"

definition rotation_of :: "log_config \<Rightarrow> rotation" where
  "rotation_of cfg = \<lparr>rt_filename = lg_file_path cfg, rt_max_size = dflt 0 100 (lg_max_size cfg),
     rt_max_backups = dflt 0 30 (lg_max_backups cfg), rt_max_age = dflt 0 7 (lg_max_age cfg), rt_compress = lg_compress cfg\<rparr>"

definition sinks_of :: "log_config \<Rightarrow> sink list" where
  "sinks_of cfg =
     (if lg_output cfg = ''file'' then [Rotated_File (rotation_of cfg)]
      else if lg_output cfg = ''both'' then [Standard_Output, Rotated_File (rotation_of cfg)]
      else [Standard_Output])"

definition log_Init :: "log_config \<Rightarrow> logger_state \<Rightarrow> logger_state \<times> unit result" where
  "log_Init cfg g =
     (if ls_once g then (g, Inr ())
      else (g\<lparr>ls_once := True,
               ls_global := Some \<lparr>lo_level = zap_level_of (lg_level cfg),
                 lo_encoding = (if lg_format cfg = ''console'' then Console_Encoding else Json_Encoding),
                 lo_sinks = sinks_of cfg\<rparr>\<rparr>, Inr ()))"

text \<open>Without a global logger every call makes a development logger: all levels, on the console.\<close>

definition log_L :: "logger_state \<Rightarrow> logger" where
  "log_L g = (case ls_global g of
      None \<Rightarrow> \<lparr>lo_level = Debug_Level, lo_encoding = Console_Encoding, lo_sinks = [Standard_Output]\<rparr>
    | Some l \<Rightarrow> l)"

definition log_Sync :: "logger_state \<Rightarrow> sink list" where
  "log_Sync g = (case ls_global g of None \<Rightarrow> [] | Some l \<Rightarrow> lo_sinks l)"

text \<open>The start of the server cannot fail at the logger, and a line always has somewhere to go.\<close>

lemma log_Init_succeeds: "snd (log_Init cfg g) = Inr ()"
  by (simp add: log_Init_def)

lemma log_has_sink:
  assumes "\<forall>l. ls_global g = Some l \<longrightarrow> lo_sinks l \<noteq> []"
  shows "lo_sinks (log_L (fst (log_Init cfg g))) \<noteq> []"
  using assms by (auto simp: log_L_def log_Init_def sinks_of_def split: option.splits)

text \<open>Only the first configuration counts.\<close>

lemma log_Init_once: "log_Init cfg' (fst (log_Init cfg g)) = (fst (log_Init cfg g), Inr ())"
  by (simp add: log_Init_def)

end
