(* ===== verification/Metrics.thy ===== *)
theory Metrics
  imports Monitor_Stats Config
begin

text \<open>
  The Prometheus side of \<^verbatim>\<open>monitor/prometheus.go\<close>: the collectors with their labels, their registration
  and the server that shows them, next to the counters in memory that the dashboard reads. A collector of
  the library is a map from labels to numbers; a histogram keeps its observations.
\<close>

section \<open>The collectors\<close>

record collectors =
  co_registered :: bool
  co_requests :: "string \<times> string \<Rightarrow> nat"
  co_durations :: "string \<times> string \<Rightarrow> rat list"
  co_errors :: "string \<times> string \<times> string \<Rightarrow> nat"
  co_sentinel_reject :: nat
  co_circuit_break :: nat
  co_seckill_success :: "string \<Rightarrow> nat"
  co_seckill_fail :: "string \<times> string \<Rightarrow> nat"
  co_redis_stock :: "string \<rightharpoonup> int"
  co_mq_backlog :: int
  co_seckill :: nat
  co_order_created :: nat
  co_order_timeout :: nat

definition new_collectors :: collectors where
  "new_collectors = \<lparr>co_registered = False, co_requests = (\<lambda>_. 0), co_durations = (\<lambda>_. []), co_errors = (\<lambda>_. 0),
     co_sentinel_reject = 0, co_circuit_break = 0, co_seckill_success = (\<lambda>_. 0), co_seckill_fail = (\<lambda>_. 0),
     co_redis_stock = Map.empty, co_mq_backlog = 0, co_seckill = 0, co_order_created = 0, co_order_timeout = 0\<rparr>"

text \<open>\<^verbatim>\<open>MustRegister\<close> panics when a collector is registered twice.\<close>

definition monitor_Init :: "collectors \<Rightarrow> collectors result" where
  "monitor_Init c = (if co_registered c then Inl GoPanic else Inr (c\<lparr>co_registered := True\<rparr>))"

text \<open>The address of the server; a server that cannot listen ends the process by a fatal log message.\<close>

definition StartMetricsServer :: "prometheus_config \<Rightarrow> (string \<times> string) option" where
  "StartMetricsServer cfg =
     (if \<not> pm_enabled cfg then None else Some ('':'' @ fmt_d (pm_metrics_port cfg), pm_metrics_path cfg))"

definition bump :: "'k \<Rightarrow> ('k \<Rightarrow> nat) \<Rightarrow> 'k \<Rightarrow> nat" where
  "bump k f = f(k := f k + 1)"

definition IncHTTPRequestTotal :: "string \<Rightarrow> string \<Rightarrow> collectors \<Rightarrow> collectors" where
  "IncHTTPRequestTotal method path c = c\<lparr>co_requests := bump (method, path) (co_requests c)\<rparr>"

definition ObserveHTTPRequestDuration :: "string \<Rightarrow> string \<Rightarrow> rat \<Rightarrow> collectors \<Rightarrow> collectors" where
  "ObserveHTTPRequestDuration method path duration c =
     c\<lparr>co_durations := (co_durations c)((method, path) := co_durations c (method, path) @ [duration])\<rparr>"

definition IncHTTPErrorTotal :: "string \<Rightarrow> string \<Rightarrow> string \<Rightarrow> collectors \<Rightarrow> collectors" where
  "IncHTTPErrorTotal method path statusCode c = c\<lparr>co_errors := bump (method, path, statusCode) (co_errors c)\<rparr>"

definition IncSentinelCircuitBreak :: "collectors \<Rightarrow> collectors" where
  "IncSentinelCircuitBreak c = c\<lparr>co_circuit_break := co_circuit_break c + 1\<rparr>"

definition SetRedisStock :: "string \<Rightarrow> int \<Rightarrow> collectors \<Rightarrow> collectors" where
  "SetRedisStock productID stock c = c\<lparr>co_redis_stock := (co_redis_stock c)(productID \<mapsto> stock)\<rparr>"

definition SetMQBacklog :: "int \<Rightarrow> collectors \<Rightarrow> collectors" where
  "SetMQBacklog backlog c = c\<lparr>co_mq_backlog := backlog\<rparr>"

section \<open>Both sides of a count\<close>

text \<open>The functions that count twice, on the collectors and on the counters of the process.\<close>

type_synonym metered = "collectors \<times> monitor"

definition reject_counted :: "metered \<Rightarrow> metered" where
  "reject_counted s = (case s of (c, m) \<Rightarrow> (c\<lparr>co_sentinel_reject := co_sentinel_reject c + 1\<rparr>, IncSentinelReject m))"

definition success_counted :: "int \<Rightarrow> metered \<Rightarrow> metered" where
  "success_counted productID s = (case s of (c, m) \<Rightarrow>
     (c\<lparr>co_seckill_success := bump (fmt_d productID) (co_seckill_success c), co_seckill := co_seckill c + 1\<rparr>,
      IncSeckillSuccess productID m))"

definition fail_counted :: "int \<Rightarrow> string \<Rightarrow> metered \<Rightarrow> metered" where
  "fail_counted productID reason s = (case s of (c, m) \<Rightarrow>
     (c\<lparr>co_seckill_fail := bump (fmt_d productID, reason) (co_seckill_fail c), co_seckill := co_seckill c + 1\<rparr>,
      IncSeckillFail productID reason m))"

definition created_counted :: "metered \<Rightarrow> metered" where
  "created_counted s = (case s of (c, m) \<Rightarrow> (c\<lparr>co_order_created := co_order_created c + 1\<rparr>, IncOrderCreated m))"

definition timeout_counted :: "metered \<Rightarrow> metered" where
  "timeout_counted s = (case s of (c, m) \<Rightarrow> (c\<lparr>co_order_timeout := co_order_timeout c + 1\<rparr>, IncOrderTimeout m))"

datatype metric_event =
    Rejected
  | Sold int
  | Not_Sold int string
  | Order_Created
  | Order_Timed_Out
  | Request string string rat
  | Stock_Shown string int

fun meter :: "metric_event \<Rightarrow> metered \<Rightarrow> metered" where
  "meter Rejected s = reject_counted s"
| "meter (Sold p) s = success_counted p s"
| "meter (Not_Sold p reason) s = fail_counted p reason s"
| "meter Order_Created s = created_counted s"
| "meter Order_Timed_Out s = timeout_counted s"
| "meter (Request method path d) s =
     (ObserveHTTPRequestDuration method path d (IncHTTPRequestTotal method path (fst s)), snd s)"
| "meter (Stock_Shown p n) s = (SetRedisStock p n (fst s), snd s)"

section \<open>The two sides agree\<close>

text \<open>
  The labels that were ever counted are finitely many, and their sums are the counters in memory; the
  total is the sum of successes and failures.
\<close>

definition total :: "('k \<Rightarrow> nat) \<Rightarrow> nat" where
  "total f = (\<Sum>k | 0 < f k. f k)"

lemma total_bump:
  assumes "finite {k. 0 < f k}"
  shows "total (bump k f) = total f + 1" "finite {k'. 0 < bump k f k'}"
proof -
  let ?K = "insert k {k. 0 < f k}"
  have fin: "finite ?K" using assms by simp
  show "finite {k'. 0 < bump k f k'}" by (rule finite_subset [OF _ fin]) (auto simp: bump_def)
  have "total (bump k f) = sum (bump k f) ?K" unfolding total_def by (rule sum.mono_neutral_left [OF fin]) (auto simp: bump_def)
  moreover have "total f = sum f ?K" unfolding total_def by (rule sum.mono_neutral_left [OF fin]) auto
  moreover have "sum (bump k f) ?K = bump k f k + sum (bump k f) (?K - {k})" using fin by (simp add: sum.remove [where x = k])
  moreover have "sum (bump k f) (?K - {k}) = sum f (?K - {k})" by (rule sum.cong) (auto simp: bump_def)
  moreover have "sum f ?K = f k + sum f (?K - {k})" using fin by (simp add: sum.remove [where x = k])
  ultimately show "total (bump k f) = total f + 1" by (simp add: bump_def)
qed

definition metrics_agree :: "metered \<Rightarrow> bool" where
  "metrics_agree s \<longleftrightarrow> (case s of (c, m) \<Rightarrow>
     finite {k. 0 < co_seckill_success c k} \<and> finite {k. 0 < co_seckill_fail c k} \<and>
     sm_seckill_success (mo_metrics m) = int (total (co_seckill_success c)) \<and>
     sm_seckill_fail (mo_metrics m) = int (total (co_seckill_fail c)) \<and>
     co_seckill c = total (co_seckill_success c) + total (co_seckill_fail c) \<and>
     sm_order_created (mo_metrics m) = int (co_order_created c) \<and>
     sm_order_timeout (mo_metrics m) = int (co_order_timeout c) \<and>
     sm_sentinel_reject (mo_metrics m) = int (co_sentinel_reject c))"

lemmas meter_defs = reject_counted_def success_counted_def fail_counted_def created_counted_def timeout_counted_def
  IncSentinelReject_def IncSeckillSuccess_def IncSeckillFail_def IncOrderCreated_def IncOrderTimeout_def
  ObserveHTTPRequestDuration_def IncHTTPRequestTotal_def SetRedisStock_def

lemma meter_agrees: "metrics_agree s \<Longrightarrow> metrics_agree (meter ev s)"
  by (cases s; cases ev) (simp_all add: metrics_agree_def meter_defs total_bump)

lemma metered_agree: "metrics_agree s \<Longrightarrow> metrics_agree (fold meter evs s)"
  by (induction evs arbitrary: s) (simp_all add: meter_agrees)

lemma fresh_agree:
  "metrics_agree (new_collectors, \<lparr>mo_engine = e, mo_metrics = \<lparr>sm_seckill_success = 0, sm_seckill_fail = 0,
     sm_order_created = 0, sm_order_timeout = 0, sm_sentinel_reject = 0\<rparr>\<rparr>)"
  by (simp add: metrics_agree_def new_collectors_def total_def)

text \<open>What the dashboard shows is what Prometheus counts.\<close>

lemma dashboard_counts:
  assumes "metrics_agree (c, m)"
  shows "GetSeckillMetrics m = (int (total (co_seckill_success c)), int (total (co_seckill_fail c)),
    int (co_order_created c), int (co_order_timeout c))"
  using assms by (simp add: metrics_agree_def GetSeckillMetrics_def)

end
