(* ===== verification/Tracing.thy ===== *)
theory Tracing
  imports Middleware
begin

text \<open>
  \<^verbatim>\<open>middleware/tracing.go\<close>: the set-up of the tracer and the middleware that wraps a request in a span. The
  OpenTelemetry library makes exporters, resources and the trace ids of spans: parameters.
\<close>

section \<open>Set-up\<close>

definition tracer_endpoint :: "string \<Rightarrow> string" where
  "tracer_endpoint endpoint = (if endpoint = [] then ''localhost:4318'' else endpoint)"

text \<open>The package variable \<open>tracer\<close> holds the name of the service; it stays as it is when the set-up fails.\<close>

definition InitTracer ::
  "(string \<Rightarrow> unit result) \<Rightarrow> (string \<Rightarrow> unit result) \<Rightarrow> string \<Rightarrow> string \<Rightarrow> string option \<Rightarrow> string option \<times> unit result" where
  "InitTracer new_exporter new_resource serviceName endpoint tracer =
     (case new_exporter (tracer_endpoint endpoint) of
        Inl err \<Rightarrow> (tracer, Inl (Wrapf ''no OTLP exporter'' err))
      | Inr _ \<Rightarrow>
          (case new_resource serviceName of
             Inl err \<Rightarrow> (tracer, Inl (Wrapf ''no resource'' err))
           | Inr _ \<Rightarrow> (Some serviceName, Inr ())))"

section \<open>The middleware\<close>

record span =
  sp_name :: string
  sp_attributes :: "string \<rightharpoonup> string"
  sp_status_code :: int
  sp_duration_ms :: int
  sp_error :: bool

text \<open>
  Before the handler: the span gets its name from the method and the pattern of the route, and the trace id
  of the span replaces the one in the context and in the header of the response. \<open>url\<close> is the whole address.
\<close>

definition span_start :: "http_request \<Rightarrow> string \<Rightarrow> string \<Rightarrow> span" where
  "span_start r fullPath url = \<lparr>sp_name = hr_method r @ '' '' @ fullPath,
     sp_attributes = [''http.method'' \<mapsto> hr_method r, ''http.url'' \<mapsto> url, ''http.target'' \<mapsto> hr_path r,
       ''http.client_ip'' \<mapsto> hr_client_ip r, ''http.user_agent'' \<mapsto> GetHeader r ''User-Agent''],
     sp_status_code = 0, sp_duration_ms = 0, sp_error = False\<rparr>"

definition TracingMiddleware :: "string option \<Rightarrow> string \<Rightarrow> gin_context \<Rightarrow> gin_context \<times> passage" where
  "TracingMiddleware tracer traceID c =
     (if tracer = None then (c, Next)
      else (set_header ''X-Trace-ID'' traceID (c\<lparr>gc_trace_id := Some traceID\<rparr>), Next))"

text \<open>After the handler: the HTTP status of the response and its error mark.\<close>

definition span_end :: "int \<Rightarrow> int \<Rightarrow> span \<Rightarrow> span" where
  "span_end status ms sp = sp\<lparr>sp_status_code := status, sp_duration_ms := ms, sp_error := (400 \<le> status)\<rparr>"

text \<open>
  Tracing lets every request pass and changes nothing but its trace id: the user, the role and the other
  headers are as before, so the guards after it decide as without it.
\<close>

lemma tracing_passes: "snd (TracingMiddleware tracer traceID c) = Next"
  by (simp add: TracingMiddleware_def)

lemma tracing_keeps_user:
  "gc_user_id (fst (TracingMiddleware tracer traceID c)) = gc_user_id c"
  "gc_username (fst (TracingMiddleware tracer traceID c)) = gc_username c"
  "gc_role (fst (TracingMiddleware tracer traceID c)) = gc_role c"
  "k \<noteq> ''X-Trace-ID'' \<Longrightarrow> gc_headers (fst (TracingMiddleware tracer traceID c)) k = gc_headers c k"
  by (simp_all add: TracingMiddleware_def set_header_def)

end
