(* ===== verification/Service_Registry.thy ===== *)
theory Service_Registry
  imports Config GoFmt
begin

text \<open>
  \<^verbatim>\<open>etcd/registry.go\<close>: the client that is opened once, the registration of an instance under a
  lease, its renewal and removal. The etcd client is a parameter; \<open>etcd_server\<close> states what it does
  to the keys and leases of the server, whatever answers get lost and however long a call takes within
  the deadline of its context. Times are in milliseconds; statements between the calls take none.
\<close>

section \<open>The registry\<close>

text \<open>
  The calls of the client, with the deadline of their context (the clock reads \<open>ec_now\<close>);
  \<open>Grant\<close> answers with the id of the lease.
\<close>

record 's etcd_client =
  ec_now :: "'s \<Rightarrow> int"
  ec_grant :: "int \<Rightarrow> int \<Rightarrow> 's \<Rightarrow> 's \<times> int result"
  ec_put :: "int \<Rightarrow> string \<Rightarrow> string \<Rightarrow> int \<Rightarrow> 's \<Rightarrow> 's \<times> unit result"
  ec_keep_alive :: "int \<Rightarrow> int \<Rightarrow> 's \<Rightarrow> 's \<times> unit result"
  ec_delete :: "int \<Rightarrow> string \<Rightarrow> 's \<Rightarrow> 's \<times> unit result"
  ec_close :: "'s \<Rightarrow> 's \<times> unit result"

record registry_state =
  rg_open :: bool
  rg_once :: bool
  rg_lease :: int

definition etcd_Init :: "(etcd_config \<Rightarrow> unit result) \<Rightarrow> etcd_config \<Rightarrow> registry_state \<Rightarrow> registry_state \<times> unit result" where
  "etcd_Init new cfg g =
     (if rg_once g then (g, Inr ())
      else (case new cfg of
          Inl err \<Rightarrow> (g\<lparr>rg_once := True\<rparr>, Inl (Wrapf ''etcd connection failed'' err))
        | Inr _ \<Rightarrow> (g\<lparr>rg_once := True, rg_open := True\<rparr>, Inr ())))"

definition service_key :: "server_config \<Rightarrow> etcd_config \<Rightarrow> string" where
  "service_key cfg etcdCfg = et_service_prefix etcdCfg @ sv_instance_id cfg"

definition service_address :: "string \<Rightarrow> server_config \<Rightarrow> string" where
  "service_address podIP cfg = (if podIP = [] then ''127.0.0.1'' else podIP) @ '':'' @ fmt_d (sv_port cfg)"

text \<open>
  A client that was never opened is a nil pointer. Both calls share one deadline. After a success the
  goroutine \<open>keepAlive\<close> is started for the key.
\<close>

definition RegisterService ::
  "'s etcd_client \<Rightarrow> string \<Rightarrow> server_config \<Rightarrow> etcd_config \<Rightarrow> registry_state \<times> 's \<Rightarrow> (registry_state \<times> 's) \<times> unit result" where
  "RegisterService ec podIP cfg etcdCfg gs = (case gs of (g, s) \<Rightarrow>
     let ctx = ec_now ec s + 1000 * et_dial_timeout etcdCfg in
     if \<not> rg_open g then ((g, s), Inl GoPanic)
     else (case ec_grant ec ctx (et_lease_ttl etcdCfg) s of
         (s1, Inl err) \<Rightarrow> ((g, s1), Inl (Wrapf ''lease not granted'' err))
       | (s1, Inr leaseID) \<Rightarrow>
           (case ec_put ec ctx (service_key cfg etcdCfg) (service_address podIP cfg) leaseID s1 of
              (s2, Inl err) \<Rightarrow> ((g\<lparr>rg_lease := leaseID\<rparr>, s2), Inl (Wrapf ''registration failed'' err))
            | (s2, Inr _) \<Rightarrow> ((g\<lparr>rg_lease := leaseID\<rparr>, s2), Inr ()))))"

text \<open>The period of the ticker; \<^verbatim>\<open>time.NewTicker\<close> panics when it is not positive.\<close>

definition go_div :: "int \<Rightarrow> int \<Rightarrow> int" where
  "go_div a b = sgn a * sgn b * (\<bar>a\<bar> div \<bar>b\<bar>)"

definition keepAlive_period :: "int \<Rightarrow> int result" where
  "keepAlive_period ttl = (let p = go_div ttl 3 in if p \<le> 0 then Inl GoPanic else Inr (1000 * p))"

text \<open>
  The loop over the ticks. The ticker fires at \<open>start + p\<close>, \<open>start + 2 * p\<close>, and so on; its channel keeps
  one tick and drops the others while it is full. After a receive at \<open>last\<close> the next tick is the first
  one later than \<open>last\<close>, and it is received at once when it fired during the call. The call has three
  seconds; its result is dropped.
\<close>

definition next_fire :: "int \<Rightarrow> int \<Rightarrow> int \<Rightarrow> int" where
  "next_fire start p last_recv = start + p * ((last_recv - start) div p + 1)"

definition keepAlive_receive :: "'s etcd_client \<Rightarrow> (int \<Rightarrow> 's \<Rightarrow> 's) \<Rightarrow> int \<Rightarrow> int \<Rightarrow> int \<times> 's \<Rightarrow> 's" where
  "keepAlive_receive ec wait start p ls = (case ls of (last_recv, s) \<Rightarrow>
     wait (max 0 (next_fire start p last_recv - ec_now ec s)) s)"

definition keepAlive_call :: "'s etcd_client \<Rightarrow> registry_state \<Rightarrow> 's \<Rightarrow> 's \<times> unit result" where
  "keepAlive_call ec g s = ec_keep_alive ec (ec_now ec s + 3000) (rg_lease g) s"

definition keepAlive_tick ::
  "'s etcd_client \<Rightarrow> (int \<Rightarrow> 's \<Rightarrow> 's) \<Rightarrow> registry_state \<Rightarrow> int \<Rightarrow> int \<Rightarrow> int \<times> 's \<Rightarrow> int \<times> 's" where
  "keepAlive_tick ec wait g start p ls =
     (let s1 = keepAlive_receive ec wait start p ls in (ec_now ec s1, fst (keepAlive_call ec g s1)))"

definition Deregister :: "'s etcd_client \<Rightarrow> registry_state \<Rightarrow> string \<Rightarrow> 's \<Rightarrow> 's \<times> unit result" where
  "Deregister ec g k s = (if \<not> rg_open g then (s, Inl GoPanic) else ec_delete ec (ec_now ec s + 3000) k s)"

definition etcd_Close :: "'s etcd_client \<Rightarrow> registry_state \<Rightarrow> 's \<Rightarrow> 's \<times> unit result" where
  "etcd_Close ec g s = (if rg_open g then ec_close ec s else (s, Inr ()))"

section \<open>Keys and leases of the server\<close>

text \<open>A lease is the pair of its lifetime and the time at which it ends; keys die with their lease.\<close>

record etcd_view =
  ev_time :: int
  ev_leases :: "int \<rightharpoonup> int \<times> int"
  ev_keys :: "string \<rightharpoonup> string \<times> int"

definition lease_granted :: "int \<Rightarrow> int \<Rightarrow> etcd_view \<Rightarrow> etcd_view" where
  "lease_granted leaseID ttl v = v\<lparr>ev_leases := (ev_leases v)(leaseID \<mapsto> (ttl, ev_time v + ttl))\<rparr>"

definition key_put :: "string \<Rightarrow> string \<Rightarrow> int \<Rightarrow> etcd_view \<Rightarrow> etcd_view" where
  "key_put k x leaseID v = v\<lparr>ev_keys := (ev_keys v)(k \<mapsto> (x, leaseID))\<rparr>"

definition lease_renewed :: "int \<Rightarrow> etcd_view \<Rightarrow> etcd_view" where
  "lease_renewed leaseID v = (case ev_leases v leaseID of
      None \<Rightarrow> v
    | Some (ttl, _) \<Rightarrow> v\<lparr>ev_leases := (ev_leases v)(leaseID \<mapsto> (ttl, ev_time v + ttl))\<rparr>)"

text \<open>After a while the leases whose time has come are gone, with their keys.\<close>

definition live_lease :: "etcd_view \<Rightarrow> int \<Rightarrow> bool" where
  "live_lease v i \<longleftrightarrow> (case ev_leases v i of None \<Rightarrow> False | Some (_, e) \<Rightarrow> ev_time v < e)"

definition drop_expired :: "etcd_view \<Rightarrow> etcd_view" where
  "drop_expired v = v\<lparr>ev_leases := (\<lambda>i. if live_lease v i then ev_leases v i else None),
     ev_keys := (\<lambda>k. case ev_keys v k of None \<Rightarrow> None | Some (x, i) \<Rightarrow> if live_lease v i then Some (x, i) else None)\<rparr>"

definition time_passed :: "int \<Rightarrow> etcd_view \<Rightarrow> etcd_view" where
  "time_passed d v = drop_expired (v\<lparr>ev_time := ev_time v + d\<rparr>)"

lemma time_passed_time [simp]: "ev_time (time_passed d v) = ev_time v + d"
  by (simp add: time_passed_def drop_expired_def)

lemma effect_time [simp]:
  "ev_time (lease_granted i t v) = ev_time v" "ev_time (key_put k x i v) = ev_time v" "ev_time (lease_renewed i v) = ev_time v"
  by (simp_all add: lease_granted_def key_put_def lease_renewed_def split: option.split)

text \<open>
  A call takes some time, has its effect, and takes some time to return, at its deadline at the latest.
\<close>

definition in_time :: "int \<Rightarrow> (etcd_view \<Rightarrow> bool) \<Rightarrow> (etcd_view \<Rightarrow> etcd_view) \<Rightarrow> etcd_view \<Rightarrow> etcd_view \<Rightarrow> bool" where
  "in_time deadline ok effect v v' \<longleftrightarrow> (\<exists>d1 d2. 0 \<le> d1 \<and> 0 \<le> d2 \<and> ok (time_passed d1 v) \<and>
     v' = time_passed d2 (effect (time_passed d1 v)) \<and> ev_time v' \<le> max deadline (ev_time v))"

text \<open>
  The server may grant a longer lifetime than it is asked for (in seconds). A call that fails may or may
  not have reached it. \<open>wait\<close> lets time pass. The keys are those that other clients leave alone.
\<close>

locale etcd_server =
  fixes ec :: "'s etcd_client"
    and wait :: "int \<Rightarrow> 's \<Rightarrow> 's"
    and view :: "'s \<Rightarrow> etcd_view"
  assumes clock: "ec_now ec s = ev_time (view s)"
    and grant: "ec_grant ec dl ttl s = (s', Inr i) \<Longrightarrow> 0 < ttl \<Longrightarrow>
       \<exists>t\<ge>1000 * ttl. in_time dl (\<lambda>_. True) (lease_granted i t) (view s) (view s')"
    and put: "ec_put ec dl k x i s = (s', Inr u) \<Longrightarrow> in_time dl (\<lambda>v. live_lease v i) (key_put k x i) (view s) (view s')"
    and renewed: "ec_keep_alive ec dl i s = (s', Inr u) \<Longrightarrow> in_time dl (\<lambda>_. True) (lease_renewed i) (view s) (view s')"
    and not_renewed: "ec_keep_alive ec dl i s = (s', Inl err) \<Longrightarrow>
       in_time dl (\<lambda>_. True) id (view s) (view s') \<or> in_time dl (\<lambda>_. True) (lease_renewed i) (view s) (view s')"
    and waited: "0 \<le> d \<Longrightarrow> view (wait d s) = time_passed d (view s)"

text \<open>The first \<open>n\<close> ticks of \<open>keepAlive\<close>, started in the state \<open>s\<close>: the last receive, and the state after the last call.\<close>

fun keepAlive_ticks :: "'s etcd_client \<Rightarrow> (int \<Rightarrow> 's \<Rightarrow> 's) \<Rightarrow> registry_state \<Rightarrow> int \<Rightarrow> nat \<Rightarrow> 's \<Rightarrow> int \<times> 's" where
  "keepAlive_ticks ec wait g p 0 s = (ec_now ec s, s)"
| "keepAlive_ticks ec wait g p (Suc n) s = keepAlive_tick ec wait g (ec_now ec s) p (keepAlive_ticks ec wait g p n s)"

text \<open>The renewal of the tick that follows \<open>n\<close> others was answered.\<close>

definition tick_answered :: "'s etcd_client \<Rightarrow> (int \<Rightarrow> 's \<Rightarrow> 's) \<Rightarrow> registry_state \<Rightarrow> int \<Rightarrow> 's \<Rightarrow> nat \<Rightarrow> bool" where
  "tick_answered ec wait g p s n \<longleftrightarrow>
     snd (keepAlive_call ec g (keepAlive_receive ec wait (ec_now ec s) p (keepAlive_ticks ec wait g p n s))) = Inr ()"

section \<open>The lease between two ticks\<close>

text \<open>The key is there, and its lease of \<open>ttl\<close> milliseconds does not end before \<open>e\<close>.\<close>

definition key_until :: "etcd_view \<Rightarrow> string \<Rightarrow> string \<Rightarrow> int \<Rightarrow> int \<Rightarrow> int \<Rightarrow> bool" where
  "key_until v k x i ttl e \<longleftrightarrow> ev_keys v k = Some (x, i) \<and> (\<exists>e'\<ge>e. ev_leases v i = Some (ttl, e'))"

lemma key_until_weaken: "key_until v k x i ttl e \<Longrightarrow> e' \<le> e \<Longrightarrow> key_until v k x i ttl e'"
  by (auto simp: key_until_def)

lemma key_until_passed:
  assumes "key_until v k x i ttl e" "ev_time v + d < e"
  shows "key_until (time_passed d v) k x i ttl e"
proof -
  obtain e' where "e \<le> e'" "ev_leases v i = Some (ttl, e')" "ev_keys v k = Some (x, i)"
    using assms(1) by (auto simp: key_until_def)
  with assms(2) show ?thesis
    by (simp add: key_until_def time_passed_def drop_expired_def live_lease_def)
qed

lemma key_until_renewed: "key_until v k x i ttl e \<Longrightarrow> key_until (lease_renewed i v) k x i ttl (ev_time v + ttl)"
  by (auto simp: key_until_def lease_renewed_def)

lemma renewal_in_time:
  assumes "key_until v k x i ttl e" "in_time dl ok (lease_renewed i) v v'" "max dl (ev_time v) < e" "max dl (ev_time v) < ev_time v + ttl"
  shows "key_until v' k x i ttl (ev_time v + ttl)" "ev_time v \<le> ev_time v'" "ev_time v' \<le> max dl (ev_time v)"
proof -
  obtain d1 d2 where d: "0 \<le> d1" "0 \<le> d2" "v' = time_passed d2 (lease_renewed i (time_passed d1 v))" "ev_time v' \<le> max dl (ev_time v)"
    using assms(2) by (auto simp: in_time_def)
  then have t: "ev_time v + d1 + d2 \<le> max dl (ev_time v)" by simp
  then have "ev_time v + d1 < e" "ev_time v + d1 + d2 < e"
    using d(1,2) assms(3) by linarith+
  have "key_until (time_passed d1 v) k x i ttl e"
    by (rule key_until_passed [OF assms(1)]) fact
  from key_until_weaken [OF key_until_renewed [OF this], of "ev_time v + ttl"] d(1)
  have "key_until (lease_renewed i (time_passed d1 v)) k x i ttl (ev_time v + ttl)" by simp
  then show "key_until v' k x i ttl (ev_time v + ttl)"
    unfolding d(3) by (rule key_until_passed) (use order_le_less_trans [OF t assms(4)] in simp)
  show "ev_time v \<le> ev_time v'" "ev_time v' \<le> max dl (ev_time v)"
    using d by simp_all
qed

lemma nothing_in_time:
  assumes "key_until v k x i ttl e" "in_time dl ok id v v'" "max dl (ev_time v) < e"
  shows "key_until v' k x i ttl e" "ev_time v \<le> ev_time v'" "ev_time v' \<le> max dl (ev_time v)"
proof -
  obtain d1 d2 where d: "0 \<le> d1" "0 \<le> d2" "v' = time_passed d2 (time_passed d1 v)" "ev_time v' \<le> max dl (ev_time v)"
    using assms(2) by (auto simp: in_time_def)
  then have t: "ev_time v + d1 + d2 \<le> max dl (ev_time v)" by simp
  then have "ev_time v + d1 < e" "ev_time v + d1 + d2 < e"
    using d(1,2) assms(3) by linarith+
  have "key_until (time_passed d1 v) k x i ttl e"
    by (rule key_until_passed [OF assms(1)]) fact
  then show "key_until v' k x i ttl e"
    unfolding d(3) by (rule key_until_passed) (use \<open>ev_time v + d1 + d2 < e\<close> in simp)
  show "ev_time v \<le> ev_time v'" "ev_time v' \<le> max dl (ev_time v)"
    using d by simp_all
qed

text \<open>The period is a third of the lifetime in whole seconds.\<close>

lemma go_div_third: "go_div ttl 3 = (if 0 \<le> ttl then ttl div 3 else - (- ttl div 3))"
  by (simp add: go_div_def sgn_if)

lemma period_bounds:
  assumes "keepAlive_period ttl = Inr p"
  shows "1000 \<le> p" "p = 1000 * (ttl div 3)" "0 < ttl"
proof -
  have pos: "0 < go_div ttl 3" and p: "p = 1000 * go_div ttl 3"
    using assms by (auto simp: keepAlive_period_def Let_def split: if_splits)
  then have "0 \<le> ttl" by (simp add: go_div_third split: if_splits)
  with pos p show "1000 \<le> p" "p = 1000 * (ttl div 3)" "0 < ttl"
    by (simp_all add: go_div_third)
qed

lemma short_lease_panics: "keepAlive_period ttl = Inl GoPanic \<longleftrightarrow> ttl < 3"
  by (auto simp: keepAlive_period_def Let_def go_div_third)

text \<open>A tick comes at most one period after the last receive.\<close>

lemma next_fire_bounds: "0 < p \<Longrightarrow> t < next_fire start p t \<and> next_fire start p t \<le> t + p"
proof -
  assume p: "0 < p"
  define q m where "q = (t - start) div p" and "m = (t - start) mod p"
  have "t - start = p * q + m" "0 \<le> m" "m < p"
    using p by (simp_all add: q_def m_def)
  moreover have "next_fire start p t = start + (p * q + p)"
    by (simp add: next_fire_def q_def distrib_left)
  ultimately show ?thesis by linarith
qed

context etcd_server
begin

lemma kept_wait:
  assumes "key_until (view s) k x i ttl e" "0 \<le> d" "ev_time (view s) + d < e"
  shows "key_until (view (wait d s)) k x i ttl e"
  using assms by (simp add: waited key_until_passed)

lemma kept_call:
  assumes "key_until (view s) k x (rg_lease g) ttl e" "ev_time (view s) + 3000 < e" "3000 < ttl" "keepAlive_call ec g s = (s', r)"
  shows "key_until (view s') k x (rg_lease g) ttl (if r = Inr () then ev_time (view s) + ttl else min e (ev_time (view s) + ttl))"
    "ev_time (view s) \<le> ev_time (view s')" "ev_time (view s') \<le> ev_time (view s) + 3000"
proof -
  have call: "ec_keep_alive ec (ev_time (view s) + 3000) (rg_lease g) s = (s', r)"
    using assms(4) by (simp add: keepAlive_call_def clock)
  have m: "max (ev_time (view s) + 3000) (ev_time (view s)) = ev_time (view s) + 3000" by simp
  note ren = renewal_in_time [OF assms(1), of "ev_time (view s) + 3000", unfolded m, OF _ assms(2)]
    and non = nothing_in_time [OF assms(1), of "ev_time (view s) + 3000", unfolded m, OF _ assms(2)]
  have "key_until (view s') k x (rg_lease g) ttl (if r = Inr () then ev_time (view s) + ttl else min e (ev_time (view s) + ttl)) \<and>
    ev_time (view s) \<le> ev_time (view s') \<and> ev_time (view s') \<le> ev_time (view s) + 3000"
  proof (cases r)
    case (Inr u)
    then show ?thesis
      using ren [OF renewed [OF call [unfolded Inr]]] assms(3) by simp
  next
    case (Inl err)
    from not_renewed [OF call [unfolded Inl]] show ?thesis
    proof
      assume "in_time (ev_time (view s) + 3000) (\<lambda>_. True) id (view s) (view s')"
      from non [OF this] Inl show ?thesis
        by (auto intro: key_until_weaken)
    next
      assume "in_time (ev_time (view s) + 3000) (\<lambda>_. True) (lease_renewed (rg_lease g)) (view s) (view s')"
      from ren [OF this] Inl assms(3) show ?thesis
        by (auto intro: key_until_weaken)
    qed
  qed
  then show "key_until (view s') k x (rg_lease g) ttl (if r = Inr () then ev_time (view s) + ttl else min e (ev_time (view s) + ttl))"
    "ev_time (view s) \<le> ev_time (view s')" "ev_time (view s') \<le> ev_time (view s) + 3000" by simp_all
qed

text \<open>A receive comes at most the longer of the period and the time limit of a call after the one before.\<close>

lemma received:
  fixes start :: int
  assumes "0 < p" "last_recv \<le> ev_time (view s)" "ev_time (view s) \<le> last_recv + 3000"
    "d = max 0 (next_fire start p last_recv - ec_now ec s)"
  shows "0 \<le> d" "ev_time (view s) + d \<le> last_recv + max p 3000" "last_recv < ev_time (view s) + d"
  using assms(2,3) next_fire_bounds [OF assms(1), of last_recv start] unfolding assms(4) clock by auto

lemma kept_by_ticks:
  assumes start: "key_until (view s) k x (rg_lease g) ttl (ev_time (view s) - d0 + ttl)"
    and p: "0 < p" "0 \<le> d0" "2 * max p 3000 + 3000 + d0 < ttl"
    and answered: "\<And>i. Suc i < n \<Longrightarrow> tick_answered ec wait g p s i \<or> tick_answered ec wait g p s (Suc i)"
    and run: "keepAlive_ticks ec wait g p n s = (t, sn)"
  shows "key_until (view sn) k x (rg_lease g) ttl
           (t + ttl - d0 - (if n = 0 \<or> tick_answered ec wait g p s (n - 1) then 0 else max p 3000)) \<and>
         t \<le> ev_time (view sn) \<and> ev_time (view sn) \<le> t + 3000"
  using answered run
proof (induction n arbitrary: t sn)
  case 0
  then show ?case using start clock by (auto simp: algebra_simps)
next
  case (Suc n)
  let ?G = "max p 3000"
  obtain t0 s0 where prev: "keepAlive_ticks ec wait g p n s = (t0, s0)" by fastforce
  let ?ok = "n = 0 \<or> tick_answered ec wait g p s (n - 1)"
  let ?e = "t0 + ttl - d0 - (if ?ok then 0 else ?G)"
  have IH: "key_until (view s0) k x (rg_lease g) ttl ?e" "t0 \<le> ev_time (view s0)" "ev_time (view s0) \<le> t0 + 3000"
    using Suc.IH [OF _ prev] Suc.prems(1) by auto
  define d where "d = max 0 (next_fire (ec_now ec s) p t0 - ec_now ec s0)"
  note d = received [OF p(1) IH(2,3) d_def]
  define s1 where "s1 = wait d s0"
  have recv: "keepAlive_receive ec wait (ec_now ec s) p (t0, s0) = s1"
    by (simp add: keepAlive_receive_def d_def s1_def)
  have t1: "ev_time (view s1) = ev_time (view s0) + d"
    using d(1) by (simp add: s1_def waited)
  have k1: "key_until (view s1) k x (rg_lease g) ttl ?e"
    unfolding s1_def by (rule kept_wait [OF IH(1) d(1)]) (use d(2) p in \<open>auto split: if_splits\<close>)
  obtain s2 r where call: "keepAlive_call ec g s1 = (s2, r)" by fastforce
  have now: "tick_answered ec wait g p s n \<longleftrightarrow> r = Inr ()"
    using call recv prev by (simp add: tick_answered_def)
  have res: "t = ev_time (view s1)" "sn = s2"
    using Suc.prems(2) prev recv call by (simp_all add: keepAlive_tick_def Let_def clock)
  have "3000 < ttl" "ev_time (view s1) + 3000 < ?e"
    using p d(2) t1 by auto
  note after = kept_call [OF k1 this(2,1) call]
  have "key_until (view s2) k x (rg_lease g) ttl (t + ttl - d0 - (if r = Inr () then 0 else ?G))"
  proof (cases "r = Inr ()")
    case True
    then show ?thesis
      using after(1) p(2) res(1) by (auto intro: key_until_weaken)
  next
    case False
    with now Suc.prems(1) [of "n - 1"] have "?ok" by (cases n) auto
    then have "t + ttl - d0 - ?G \<le> min ?e (t + ttl)"
      using d(2) t1 res(1) p(2) by auto
    with False after(1) res(1) show ?thesis
      by (auto intro: key_until_weaken)
  qed
  with after(2,3) res now show ?case by simp
qed

lemma registered_kept:
  assumes reg: "RegisterService ec podIP cfg etcdCfg (g, s) = ((g', s'), Inr ())" and ttl: "0 < et_lease_ttl etcdCfg"
    and fast: "ev_time (view s') < ev_time (view s) + 1000 * et_lease_ttl etcdCfg"
  obtains t where "1000 * et_lease_ttl etcdCfg \<le> t" "ev_time (view s) \<le> ev_time (view s')"
    "key_until (view s') (service_key cfg etcdCfg) (service_address podIP cfg) (rg_lease g') t (ev_time (view s) + t)"
proof -
  let ?dl = "ec_now ec s + 1000 * et_dial_timeout etcdCfg"
  obtain s1 i where g1: "ec_grant ec ?dl (et_lease_ttl etcdCfg) s = (s1, Inr i)"
    and p1: "ec_put ec ?dl (service_key cfg etcdCfg) (service_address podIP cfg) i s1 = (s', Inr ())"
    and g': "g' = g\<lparr>rg_lease := i\<rparr>"
    using reg by (auto simp: RegisterService_def Let_def split: if_splits prod.splits sum.splits)
  obtain t d1 d2 where t: "1000 * et_lease_ttl etcdCfg \<le> t" and d: "0 \<le> d1" "0 \<le> d2"
    and v1: "view s1 = time_passed d2 (lease_granted i t (time_passed d1 (view s)))"
    using grant [OF g1 ttl] by (auto simp: in_time_def)
  obtain d3 d4 where d': "0 \<le> d3" "0 \<le> d4"
    and v2: "view s' = time_passed d4 (key_put (service_key cfg etcdCfg) (service_address podIP cfg) i (time_passed d3 (view s1)))"
    using put [OF p1] by (auto simp: in_time_def)
  let ?e = "ev_time (view s) + t"
  have time: "ev_time (view s') = ev_time (view s) + d1 + d2 + d3 + d4"
    by (simp add: v1 v2)
  then have "ev_time (view s) + d1 + d2 + d3 + d4 < ?e"
    using fast t by simp
  then have "ev_leases (view s1) i = Some (t, ev_time (view s) + d1 + t)"
    "ev_leases (time_passed d3 (view s1)) i = Some (t, ev_time (view s) + d1 + t)"
    using d d' by (simp_all add: v1 time_passed_def drop_expired_def live_lease_def lease_granted_def)
  then have "key_until (key_put (service_key cfg etcdCfg) (service_address podIP cfg) i (time_passed d3 (view s1)))
      (service_key cfg etcdCfg) (service_address podIP cfg) i t ?e"
    using d by (simp add: key_until_def key_put_def)
  then have "key_until (view s') (service_key cfg etcdCfg) (service_address podIP cfg) i t ?e"
    unfolding v2 by (rule key_until_passed) (use time fast t in \<open>simp add: v1\<close>)
  with t time d d' g' show thesis
    by (intro that [of t]) simp_all
qed

text \<open>The key is there after every tick and at every moment up to the next.\<close>

lemma registered_present:
  assumes reg: "RegisterService ec podIP cfg etcdCfg (g, s) = ((g', s'), Inr ())"
    and period: "keepAlive_period (et_lease_ttl etcdCfg) = Inr p"
    and long: "2 * max p 3000 + 3000 + (ec_now ec s' - ec_now ec s) < 1000 * et_lease_ttl etcdCfg"
    and answered: "\<And>i. Suc i < n \<Longrightarrow> tick_answered ec wait g' p s' i \<or> tick_answered ec wait g' p s' (Suc i)"
    and run: "keepAlive_ticks ec wait g' p n s' = (t, sn)"
    and d: "0 \<le> d" "d \<le> max 0 (next_fire (ec_now ec s') p t - ec_now ec sn)"
  shows "ev_keys (view (wait d sn)) (service_key cfg etcdCfg) = Some (service_address podIP cfg, rg_lease g')"
proof -
  note p = period_bounds [OF period]
  obtain ttl where ttl: "1000 * et_lease_ttl etcdCfg \<le> ttl" "ev_time (view s) \<le> ev_time (view s')"
    "key_until (view s') (service_key cfg etcdCfg) (service_address podIP cfg) (rg_lease g') ttl (ev_time (view s) + ttl)"
    by (rule registered_kept [OF reg p(3)]) (use long p(1) in \<open>simp add: clock\<close>)
  let ?d0 = "ev_time (view s') - ev_time (view s)"
  have "key_until (view sn) (service_key cfg etcdCfg) (service_address podIP cfg) (rg_lease g') ttl
      (t + ttl - ?d0 - (if n = 0 \<or> tick_answered ec wait g' p s' (n - 1) then 0 else max p 3000)) \<and>
    t \<le> ev_time (view sn) \<and> ev_time (view sn) \<le> t + 3000"
    by (rule kept_by_ticks [OF _ _ _ _ answered run]) (use ttl p(1) long in \<open>simp_all add: clock\<close>)
  then have now: "key_until (view sn) (service_key cfg etcdCfg) (service_address podIP cfg) (rg_lease g') ttl
      (t + ttl - ?d0 - (if n = 0 \<or> tick_answered ec wait g' p s' (n - 1) then 0 else max p 3000))"
    and k: "t \<le> ev_time (view sn)" "ev_time (view sn) \<le> t + 3000" by simp_all
  have left: "key_until (view sn) (service_key cfg etcdCfg) (service_address podIP cfg) (rg_lease g') ttl (t + ttl - ?d0 - max p 3000)"
    by (rule key_until_weaken [OF now]) (use p(1) in \<open>simp add: max_def\<close>)
  have "0 < p" using p(1) by simp
  note r = received [OF this k refl, of "ec_now ec s'"]
  have "key_until (view (wait d sn)) (service_key cfg etcdCfg) (service_address podIP cfg) (rg_lease g') ttl (t + ttl - ?d0 - max p 3000)"
    by (rule kept_wait [OF left d(1)]) (use r(2) d(2) long ttl(1) p(1) in \<open>simp add: clock\<close>)
  then show ?thesis by (simp add: key_until_def)
qed

end

section \<open>A server of reference\<close>

text \<open>
  The state is the view and what happens to the next renewals: answered at once, or lost on the way there
  or back, so that the call waits for its deadline. Leases are numbered by the first free number; the
  other calls take 100 ms if their deadline allows.
\<close>

datatype delivery = Answered | Lost | Answer_Lost

type_synonym demo_etcd = "etcd_view \<times> int \<times> delivery list"

definition demo_keep_alive :: "int \<Rightarrow> int \<Rightarrow> demo_etcd \<Rightarrow> demo_etcd \<times> unit result" where
  "demo_keep_alive dl i s = (case s of (v, next, ds) \<Rightarrow>
     let left = max 0 (dl - ev_time v) in
     (case ds of
        Lost # rest \<Rightarrow> ((time_passed left v, next, rest), Inl ((Errf ''context deadline exceeded'')))
      | Answer_Lost # rest \<Rightarrow>
          ((time_passed left (lease_renewed i (time_passed 0 v)), next, rest), Inl ((Errf ''context deadline exceeded'')))
      | _ \<Rightarrow> if live_lease v i then ((time_passed 0 (lease_renewed i (time_passed 0 v)), next, tl ds), Inr ())
             else ((time_passed 0 v, next, tl ds), Inl ((Errf ''requested lease not found'')))))"

definition demo_etcd_client :: "demo_etcd etcd_client" where
  "demo_etcd_client = \<lparr>
     ec_now = (\<lambda>s. ev_time (fst s)),
     ec_grant = (\<lambda>dl ttl s. case s of (v, next, ds) \<Rightarrow>
       ((time_passed (max 0 (min 100 (dl - ev_time v))) (lease_granted next (1000 * ttl) (time_passed 0 v)), next + 1, ds), Inr next)),
     ec_put = (\<lambda>dl k x i s. case s of (v, next, ds) \<Rightarrow>
       if live_lease (time_passed 0 v) i
       then ((time_passed (max 0 (min 100 (dl - ev_time v))) (key_put k x i (time_passed 0 v)), next, ds), Inr ())
       else (s, Inl ((Errf ''requested lease not found'')))),
     ec_keep_alive = demo_keep_alive,
     ec_delete = (\<lambda>dl k s. case s of (v, next, ds) \<Rightarrow> ((v\<lparr>ev_keys := (ev_keys v)(k := None)\<rparr>, next, ds), Inr ())),
     ec_close = (\<lambda>s. (s, Inr ()))\<rparr>"

definition demo_etcd_wait :: "int \<Rightarrow> demo_etcd \<Rightarrow> demo_etcd" where
  "demo_etcd_wait d s = (time_passed d (fst s), snd s)"

lemma in_time_at:
  "0 \<le> d \<Longrightarrow> ok (time_passed 0 v) \<Longrightarrow> v' = time_passed d (effect (time_passed 0 v)) \<Longrightarrow> ev_time v' \<le> max dl (ev_time v) \<Longrightarrow>
    in_time dl ok effect v v'"
  unfolding in_time_def by (rule exI [of _ 0], rule exI [of _ d]) simp

lemma time_passed_0: "0 \<le> d \<Longrightarrow> time_passed d (time_passed 0 v) = time_passed d v"
  by (rule etcd_view.equality)
    (auto simp: time_passed_def drop_expired_def live_lease_def fun_eq_iff split: option.splits)

interpretation demo_registry: etcd_server demo_etcd_client demo_etcd_wait fst
proof
  fix dl ttl i and s s' :: demo_etcd
  assume "ec_grant demo_etcd_client dl ttl s = (s', Inr i)"
  then have "fst s' = time_passed (max 0 (min 100 (dl - ev_time (fst s)))) (lease_granted i (1000 * ttl) (time_passed 0 (fst s)))"
    by (auto simp: demo_etcd_client_def split: prod.splits)
  then have "in_time dl (\<lambda>_. True) (lease_granted i (1000 * ttl)) (fst s) (fst s')"
    by (intro in_time_at) auto
  then show "\<exists>t\<ge>1000 * ttl. in_time dl (\<lambda>_. True) (lease_granted i t) (fst s) (fst s')" by auto
next
  fix dl k x i u and s s' :: demo_etcd
  assume p: "ec_put demo_etcd_client dl k x i s = (s', Inr u)"
  then have "fst s' = time_passed (max 0 (min 100 (dl - ev_time (fst s)))) (key_put k x i (time_passed 0 (fst s)))"
    "live_lease (time_passed 0 (fst s)) i"
    by (auto simp: demo_etcd_client_def split: prod.splits if_splits)
  then show "in_time dl (\<lambda>v. live_lease v i) (key_put k x i) (fst s) (fst s')"
    by (intro in_time_at) auto
next
  fix dl i u and s s' :: demo_etcd
  assume "ec_keep_alive demo_etcd_client dl i s = (s', Inr u)"
  then have "fst s' = time_passed 0 (lease_renewed i (time_passed 0 (fst s)))"
    by (auto simp: demo_etcd_client_def demo_keep_alive_def Let_def split: prod.splits list.splits delivery.splits if_splits)
  then show "in_time dl (\<lambda>_. True) (lease_renewed i) (fst s) (fst s')"
    by (intro in_time_at) auto
next
  fix dl i err and s s' :: demo_etcd
  assume "ec_keep_alive demo_etcd_client dl i s = (s', Inl err)"
  then have "fst s' \<in> {time_passed 0 (fst s), time_passed (max 0 (dl - ev_time (fst s))) (fst s)} \<or>
      fst s' = time_passed (max 0 (dl - ev_time (fst s))) (lease_renewed i (time_passed 0 (fst s)))"
    by (auto simp: demo_etcd_client_def demo_keep_alive_def Let_def split: prod.splits list.splits delivery.splits if_splits)
  then show "in_time dl (\<lambda>_. True) id (fst s) (fst s') \<or> in_time dl (\<lambda>_. True) (lease_renewed i) (fst s) (fst s')"
  proof
    assume "fst s' \<in> {time_passed 0 (fst s), time_passed (max 0 (dl - ev_time (fst s))) (fst s)}"
    then consider "fst s' = time_passed 0 (fst s)" | "fst s' = time_passed (max 0 (dl - ev_time (fst s))) (fst s)"
      by blast
    then have "in_time dl (\<lambda>_. True) id (fst s) (fst s')"
    proof cases
      case 1
      then show ?thesis by (intro in_time_at [of 0]) (simp_all add: time_passed_0)
    next
      case 2
      then show ?thesis by (intro in_time_at [of "max 0 (dl - ev_time (fst s))"]) (simp_all add: time_passed_0)
    qed
    then show ?thesis ..
  next
    assume "fst s' = time_passed (max 0 (dl - ev_time (fst s))) (lease_renewed i (time_passed 0 (fst s)))"
    then have "in_time dl (\<lambda>_. True) (lease_renewed i) (fst s) (fst s')"
      by (intro in_time_at) auto
    then show ?thesis ..
  qed
qed (simp_all add: demo_etcd_client_def demo_etcd_wait_def)

definition empty_etcd :: "delivery list \<Rightarrow> demo_etcd" where
  "empty_etcd ds = (\<lparr>ev_time = 0, ev_leases = (\<lambda>_. None), ev_keys = (\<lambda>_. None)\<rparr>, 1, ds)"

definition demo_etcd_cfg :: etcd_config where
  "demo_etcd_cfg = \<lparr>et_endpoints = [], et_dial_timeout = 5, et_lease_ttl = 10, et_service_prefix = ''/miaosha/''\<rparr>"

text \<open>
  C28. A registered instance stays registered: after a successful registration, as long as of any two
  renewals in a row one is answered, the key of the instance is there with its address after every tick and
  at every moment up to the receive of the next. A renewal has the three seconds of its context, and the
  ticker drops ticks meanwhile, so the lease has to outlast two receives and a call: with \<open>p\<close> ms for a
  third of \<open>lease_ttl\<close> in whole seconds, \<open>2 * max p 3000 + 3000\<close> ms and the time the registration took must be
  less than the lease. So \<open>lease_ttl\<close> is at least 10 s (the configuration files have 10, and then the
  registration must take less than a second). For 3 and 4 s one lost renewal can lose the
  key (\<open>lost_renewal_loses_key\<close> and the findings).
\<close>

theorem registration_kept:
  assumes "etcd_server ec wait view"
    and "RegisterService ec podIP cfg etcdCfg (g, s) = ((g', s'), Inr ())"
    and "keepAlive_period (et_lease_ttl etcdCfg) = Inr p"
    and "2 * max p 3000 + 3000 + (ec_now ec s' - ec_now ec s) < 1000 * et_lease_ttl etcdCfg"
    and "\<And>i. Suc i < n \<Longrightarrow> tick_answered ec wait g' p s' i \<or> tick_answered ec wait g' p s' (Suc i)"
    and "keepAlive_ticks ec wait g' p n s' = (t, sn)"
    and "0 \<le> d" "d \<le> max 0 (next_fire (ec_now ec s') p t - ec_now ec sn)"
  shows "ev_keys (view (wait d sn)) (service_key cfg etcdCfg) = Some (service_address podIP cfg, rg_lease g')"
  using assms by (rule etcd_server.registered_present)

definition demo_instance :: server_config where
  "demo_instance = (cf_server (demo_config ''s3cret''))\<lparr>sv_port := 8080, sv_instance_id := ''pod-1''\<rparr>"

definition demo_open :: registry_state where
  "demo_open = \<lparr>rg_open = True, rg_once = True, rg_lease = 0\<rparr>"

definition demo_registered :: "int \<Rightarrow> delivery list \<Rightarrow> registry_state \<times> demo_etcd" where
  "demo_registered ttl ds = fst (RegisterService demo_etcd_client ''10.0.0.7'' demo_instance (demo_etcd_cfg\<lparr>et_lease_ttl := ttl\<rparr>)
     (demo_open, empty_etcd ds))"

text \<open>The view with the key of the instance, under a lease of \<open>ttl\<close> milliseconds that ends at \<open>e\<close>.\<close>

definition demo_view :: "int \<Rightarrow> int \<Rightarrow> int \<Rightarrow> etcd_view" where
  "demo_view ttl now e = \<lparr>ev_time = now, ev_leases = [1 \<mapsto> (ttl, e)],
     ev_keys = [''/miaosha/pod-1'' \<mapsto> (''10.0.0.7:'' @ fmt_d 8080, 1)]\<rparr>"

lemma demo_view_simps:
  "ev_time (demo_view ttl now e) = now" "live_lease (demo_view ttl now e) 1 \<longleftrightarrow> now < e"
  "lease_renewed 1 (demo_view ttl now e) = demo_view ttl now (now + ttl)"
  "ev_keys (demo_view ttl now e) ''/miaosha/pod-1'' = Some (''10.0.0.7:'' @ fmt_d 8080, 1)"
  by (simp_all add: demo_view_def live_lease_def lease_renewed_def)

lemma demo_view_passed:
  "now + d < e \<Longrightarrow> time_passed d (demo_view ttl now e) = demo_view ttl (now + d) e"
  "e \<le> now + d \<Longrightarrow> ev_keys (time_passed d (demo_view ttl now e)) k = None"
  by (simp_all add: demo_view_def time_passed_def drop_expired_def live_lease_def fun_eq_iff)

lemma demo_granted:
  assumes "1 \<le> ttl"
  shows "time_passed 100 (lease_granted 1 (1000 * ttl) (time_passed 0 (fst (empty_etcd ds)))) =
    \<lparr>ev_time = 100, ev_leases = [1 \<mapsto> (1000 * ttl, 1000 * ttl)], ev_keys = Map.empty\<rparr>"
  using assms by (simp add: empty_etcd_def time_passed_def drop_expired_def lease_granted_def live_lease_def fun_eq_iff)

lemma demo_put:
  assumes "1 \<le> ttl" "v = \<lparr>ev_time = 100, ev_leases = [1 \<mapsto> (1000 * ttl, 1000 * ttl)], ev_keys = Map.empty\<rparr>"
  shows "live_lease (time_passed 0 v) 1"
    "time_passed 100 (key_put ''/miaosha/pod-1'' (''10.0.0.7:'' @ fmt_d 8080) 1 (time_passed 0 v)) = demo_view (1000 * ttl) 200 (1000 * ttl)"
  using assms(1) unfolding assms(2)
  by (simp_all add: time_passed_def drop_expired_def live_lease_def key_put_def demo_view_def fun_eq_iff)

lemma demo_instance_entry:
  "service_key demo_instance (demo_etcd_cfg\<lparr>et_lease_ttl := ttl\<rparr>) = ''/miaosha/pod-1''"
  "service_address ''10.0.0.7'' demo_instance = ''10.0.0.7:'' @ fmt_d 8080"
  by (simp_all add: service_key_def service_address_def demo_instance_def demo_etcd_cfg_def demo_config_def)

lemma demo_registration:
  assumes "1 \<le> ttl"
  shows "demo_registered ttl ds = (demo_open\<lparr>rg_lease := 1\<rparr>, demo_view (1000 * ttl) 200 (1000 * ttl), 2, ds)"
    "RegisterService demo_etcd_client ''10.0.0.7'' demo_instance (demo_etcd_cfg\<lparr>et_lease_ttl := ttl\<rparr>) (demo_open, empty_etcd ds)
      = ((fst (demo_registered ttl ds), snd (demo_registered ttl ds)), Inr ())"
proof -
  let ?v = "\<lparr>ev_time = 100, ev_leases = [1 \<mapsto> (1000 * ttl, 1000 * ttl)], ev_keys = Map.empty\<rparr>"
  have cfg: "et_lease_ttl (demo_etcd_cfg\<lparr>et_lease_ttl := ttl\<rparr>) = ttl" "et_dial_timeout (demo_etcd_cfg\<lparr>et_lease_ttl := ttl\<rparr>) = 5"
    by (simp_all add: demo_etcd_cfg_def)
  have now: "ec_now demo_etcd_client (empty_etcd ds) = 0" "rg_open demo_open"
    by (simp_all add: demo_etcd_client_def empty_etcd_def demo_open_def)
  have g: "ec_grant demo_etcd_client 5000 ttl (empty_etcd ds) = ((?v, 2, ds), Inr 1)"
    using demo_granted [OF assms, of ds] by (simp add: demo_etcd_client_def empty_etcd_def)
  have p: "ec_put demo_etcd_client 5000 ''/miaosha/pod-1'' (''10.0.0.7:'' @ fmt_d 8080) 1 (?v, 2, ds)
      = ((demo_view (1000 * ttl) 200 (1000 * ttl), 2, ds), Inr ())"
    using demo_put [OF assms refl] by (simp add: demo_etcd_client_def)
  have run: "RegisterService demo_etcd_client ''10.0.0.7'' demo_instance (demo_etcd_cfg\<lparr>et_lease_ttl := ttl\<rparr>) (demo_open, empty_etcd ds)
      = ((demo_open\<lparr>rg_lease := 1\<rparr>, demo_view (1000 * ttl) 200 (1000 * ttl), 2, ds), Inr ())"
    using g p by (simp add: RegisterService_def cfg now demo_instance_entry)
  then show "demo_registered ttl ds = (demo_open\<lparr>rg_lease := 1\<rparr>, demo_view (1000 * ttl) 200 (1000 * ttl), 2, ds)"
    by (simp add: demo_registered_def)
  with run show "RegisterService demo_etcd_client ''10.0.0.7'' demo_instance (demo_etcd_cfg\<lparr>et_lease_ttl := ttl\<rparr>) (demo_open, empty_etcd ds)
      = ((fst (demo_registered ttl ds), snd (demo_registered ttl ds)), Inr ())"
    by simp
qed

lemma demo_client_sel:
  "ec_now demo_etcd_client s = ev_time (fst s)" "ec_keep_alive demo_etcd_client = demo_keep_alive"
  by (simp_all add: demo_etcd_client_def)

lemmas demo_tick_simps = keepAlive_tick_def keepAlive_receive_def keepAlive_call_def next_fire_def demo_etcd_wait_def
  demo_keep_alive_def demo_client_sel demo_view_simps demo_view_passed Let_def

text \<open>The first renewal is lost and takes its three seconds; the tick that fired meanwhile follows at once.\<close>

abbreviation demo_ticks :: "int \<Rightarrow> int \<Rightarrow> delivery list \<Rightarrow> nat \<Rightarrow> int \<times> demo_etcd" where
  "demo_ticks ttl p ds n \<equiv> keepAlive_ticks demo_etcd_client demo_etcd_wait (fst (demo_registered ttl ds)) p n (snd (demo_registered ttl ds))"

lemma demo_first_tick:
  "demo_ticks 10 3000 [Lost, Answered] 1 = (3200, demo_view 10000 6200 10000, 2, [Answered])"
  by (simp add: demo_registration demo_tick_simps)

lemma demo_second_tick:
  "tick_answered demo_etcd_client demo_etcd_wait (fst (demo_registered 10 [Lost, Answered])) 3000 (snd (demo_registered 10 [Lost, Answered])) 1"
  "demo_ticks 10 3000 [Lost, Answered] 2 = (6200, demo_view 10000 6200 16200, 2, [])"
proof -
  show "tick_answered demo_etcd_client demo_etcd_wait (fst (demo_registered 10 [Lost, Answered])) 3000 (snd (demo_registered 10 [Lost, Answered])) 1"
    unfolding tick_answered_def demo_first_tick by (simp add: demo_registration demo_tick_simps)
  have "demo_ticks 10 3000 [Lost, Answered] 2 = keepAlive_tick demo_etcd_client demo_etcd_wait (fst (demo_registered 10 [Lost, Answered]))
      (ec_now demo_etcd_client (snd (demo_registered 10 [Lost, Answered]))) 3000 (demo_ticks 10 3000 [Lost, Answered] 1)"
    by (simp add: numeral_2_eq_2)
  then show "demo_ticks 10 3000 [Lost, Answered] 2 = (6200, demo_view 10000 6200 16200, 2, [])"
    unfolding demo_first_tick by (simp add: demo_registration demo_tick_simps)
qed

theorem registration_kept_witness:
  "ev_keys (fst (demo_etcd_wait 3000 (snd (demo_ticks 10 3000 [Lost, Answered] 2)))) ''/miaosha/pod-1''
     = Some (''10.0.0.7:'' @ fmt_d 8080, 1)"
proof -
  let ?cfg = "demo_etcd_cfg\<lparr>et_lease_ttl := 10\<rparr>" and ?r = "demo_registered 10 [Lost, Answered]"
  have p: "keepAlive_period (et_lease_ttl ?cfg) = Inr 3000" by (simp add: keepAlive_period_def go_div_def)
  have reg: "RegisterService demo_etcd_client ''10.0.0.7'' demo_instance ?cfg (demo_open, empty_etcd [Lost, Answered])
      = ((fst ?r, snd ?r), Inr ())"
    by (rule demo_registration) simp
  have now: "ec_now demo_etcd_client (snd ?r) = 200" "ec_now demo_etcd_client (empty_etcd [Lost, Answered]) = 0"
    "rg_lease (fst ?r) = 1"
    by (simp_all add: demo_registration demo_client_sel demo_view_simps empty_etcd_def)
  have fast: "2 * max 3000 3000 + 3000 + (ec_now demo_etcd_client (snd ?r) - ec_now demo_etcd_client (empty_etcd [Lost, Answered]))
      < 1000 * et_lease_ttl ?cfg"
    by (simp add: now)
  have "(0 :: int) \<le> 3000" "3000 \<le> max 0 (next_fire (ec_now demo_etcd_client (snd ?r)) 3000 6200
      - ec_now demo_etcd_client (demo_view 10000 6200 16200, 2, []))"
    by (simp_all add: demo_registration next_fire_def demo_client_sel demo_view_simps)
  moreover have "tick_answered demo_etcd_client demo_etcd_wait (fst ?r) 3000 (snd ?r) i \<or>
      tick_answered demo_etcd_client demo_etcd_wait (fst ?r) 3000 (snd ?r) (Suc i)" if "Suc i < 2" for i
    using that demo_second_tick(1) by (simp add: One_nat_def)
  ultimately show ?thesis
    using registration_kept [OF demo_registry.etcd_server_axioms reg p fast _ demo_second_tick(2)]
    by (simp only: demo_second_tick(2) demo_instance_entry now snd_conv)
qed

text \<open>
  With 3 or 4 s the period is one second, and a single renewal that is lost waits past the end of the
  lease: the key is gone after the first tick, and later renewals find no lease.
\<close>

lemma lost_renewal_loses_key:
  assumes "ttl = 3 \<or> ttl = 4"
  shows "keepAlive_period ttl = Inr 1000"
    "ev_keys (fst (snd (demo_registered ttl (Lost # ds)))) ''/miaosha/pod-1'' = Some (''10.0.0.7:'' @ fmt_d 8080, 1)"
    "ev_keys (fst (snd (demo_ticks ttl 1000 (Lost # ds) 1))) ''/miaosha/pod-1'' = None"
proof -
  have "1 \<le> ttl" using assms by auto
  note reg = demo_registration(1) [OF this]
  show "keepAlive_period ttl = Inr 1000"
    using assms by (auto simp: keepAlive_period_def go_div_def)
  show "ev_keys (fst (snd (demo_registered ttl (Lost # ds)))) ''/miaosha/pod-1'' = Some (''10.0.0.7:'' @ fmt_d 8080, 1)"
    by (simp add: reg demo_view_simps)
  have "1200 < 1000 * ttl" "1000 * ttl \<le> 4200"
    using assms by auto
  then show "ev_keys (fst (snd (demo_ticks ttl 1000 (Lost # ds) 1))) ''/miaosha/pod-1'' = None"
    by (simp add: reg demo_tick_simps)
qed

end
