(* ===== verification/Behavior_Consumer.thy ===== *)
theory Behavior_Consumer
  imports Notify
begin

text \<open>
  \<^verbatim>\<open>StartBehaviorConsumer\<close> of \<^verbatim>\<open>kafka/consumer.go\<close> and the goroutine it starts, as a step relation. Of
  the consumer group of the library it uses what is documented: \<open>Consume\<close> calls \<open>Setup\<close>, hands out
  messages until the group is rebalanced or closed, calls \<open>Cleanup\<close> and returns; it may fail to join
  at any time, and on a closed group it does nothing but fail.
\<close>

section \<open>The consumer\<close>

datatype starter = Awaits_Ready | Has_Returned

record behavior_consumer =
  bc_ready_closed :: bool
  bc_starter :: starter
  bc_group_closed :: bool
  bc_session :: bool
  bc_marked :: "string list"
  bc_seen :: "behavior_track list"
  bc_errors :: nat
  bc_crashed :: bool

text \<open>\<open>Setup\<close> closes the channel \<open>ready\<close>; closing a closed channel panics.\<close>

definition consumer_Setup :: "behavior_consumer \<Rightarrow> behavior_consumer result" where
  "consumer_Setup c = (if bc_ready_closed c then Inl GoPanic else Inr (c\<lparr>bc_ready_closed := True\<rparr>))"

definition consumer_Cleanup :: "behavior_consumer \<Rightarrow> behavior_consumer result" where
  "consumer_Cleanup c = Inr c"

text \<open>The start: \<open>new\<close> makes the group. Without brokers or a group nothing is started.\<close>

definition StartBehaviorConsumer :: "(kafka_config \<Rightarrow> unit result) \<Rightarrow> kafka_config \<Rightarrow> behavior_consumer option" where
  "StartBehaviorConsumer new cfg =
     (if \<not> consumer_starts cfg then None
      else (case new cfg of
          Inl err \<Rightarrow> None
        | Inr _ \<Rightarrow> Some \<lparr>bc_ready_closed = False, bc_starter = Awaits_Ready, bc_group_closed = False, bc_session = False,
            bc_marked = [], bc_seen = [], bc_errors = 0, bc_crashed = False\<rparr>))"

text \<open>
  The starter waits for \<open>ready\<close> and returns; its deferred \<open>group.Close()\<close> runs then.
\<close>

definition starter_returns :: "behavior_consumer \<Rightarrow> behavior_consumer" where
  "starter_returns c = c\<lparr>bc_starter := Has_Returned, bc_group_closed := True\<rparr>"

text \<open>One turn of the loop begins a session: an unrecovered panic ends the process.\<close>

definition session_begins :: "behavior_consumer \<Rightarrow> behavior_consumer" where
  "session_begins c = (case consumer_Setup c of Inl _ \<Rightarrow> c\<lparr>bc_crashed := True\<rparr> | Inr c1 \<Rightarrow> c1\<lparr>bc_session := True\<rparr>)"

definition session_message :: "(string \<Rightarrow> behavior_track option) \<Rightarrow> string \<Rightarrow> behavior_consumer \<Rightarrow> behavior_consumer" where
  "session_message parse m c = (case ConsumeClaim parse [m] of (marked, seen) \<Rightarrow>
     c\<lparr>bc_marked := bc_marked c @ marked, bc_seen := bc_seen c @ seen\<rparr>)"

definition session_ends :: "behavior_consumer \<Rightarrow> behavior_consumer" where
  "session_ends c = (case consumer_Cleanup c of Inl _ \<Rightarrow> c\<lparr>bc_session := False, bc_errors := Suc (bc_errors c)\<rparr>
     | Inr c1 \<Rightarrow> c1\<lparr>bc_session := False\<rparr>)"

inductive consumer_step :: "(string \<Rightarrow> behavior_track option) \<Rightarrow> behavior_consumer \<Rightarrow> behavior_consumer \<Rightarrow> bool" for parse where
  Starter: "\<not> bc_crashed c \<Longrightarrow> bc_starter c = Awaits_Ready \<Longrightarrow> bc_ready_closed c \<Longrightarrow> consumer_step parse c (starter_returns c)"
| Consume_Fails: "\<not> bc_crashed c \<Longrightarrow> \<not> bc_session c \<Longrightarrow> consumer_step parse c (c\<lparr>bc_errors := Suc (bc_errors c)\<rparr>)"
| Session: "\<not> bc_crashed c \<Longrightarrow> \<not> bc_session c \<Longrightarrow> \<not> bc_group_closed c \<Longrightarrow> consumer_step parse c (session_begins c)"
| Message: "\<not> bc_crashed c \<Longrightarrow> bc_session c \<Longrightarrow> consumer_step parse c (session_message parse m c)"
| Session_Ends: "\<not> bc_crashed c \<Longrightarrow> bc_session c \<Longrightarrow> consumer_step parse c (session_ends c)"

inductive consumer_reachable :: "(string \<Rightarrow> behavior_track option) \<Rightarrow> kafka_config \<Rightarrow> behavior_consumer \<Rightarrow> bool" for parse cfg where
  start: "StartBehaviorConsumer new cfg = Some c \<Longrightarrow> consumer_reachable parse cfg c"
| step: "consumer_reachable parse cfg c \<Longrightarrow> consumer_step parse c c' \<Longrightarrow> consumer_reachable parse cfg c'"

section \<open>The group is closed by the function that made it\<close>

lemmas consumer_moves = starter_returns_def session_begins_def session_message_def session_ends_def consumer_Setup_def
  consumer_Cleanup_def

text \<open>
  The group is open as long as the starter waits; no message is read before \<open>ready\<close> is closed.
\<close>

definition consumer_ok :: "behavior_consumer \<Rightarrow> bool" where
  "consumer_ok c \<longleftrightarrow> (bc_group_closed c \<longleftrightarrow> bc_starter c = Has_Returned) \<and> (bc_group_closed c \<longrightarrow> bc_ready_closed c) \<and>
     (bc_session c \<longrightarrow> bc_ready_closed c) \<and> (\<not> bc_ready_closed c \<longrightarrow> bc_marked c = [] \<and> \<not> bc_crashed c)"

lemma consumer_step_ok: "consumer_step parse c c' \<Longrightarrow> consumer_ok c \<Longrightarrow> consumer_ok c'"
  by (induction rule: consumer_step.induct) (auto simp: consumer_ok_def consumer_moves split: prod.splits)

lemma reachable_consumer_ok: "consumer_reachable parse cfg c \<Longrightarrow> consumer_ok c"
  by (induction rule: consumer_reachable.induct)
    (auto simp: StartBehaviorConsumer_def consumer_ok_def split: if_splits sum.splits dest: consumer_step_ok [unfolded consumer_ok_def])

inductive_cases consumer_stepE: "consumer_step parse c c'"

text \<open>With the group closed and no session the loop only counts errors.\<close>

lemma closed_group_step:
  assumes "consumer_step parse c c'" "bc_group_closed c" "\<not> bc_session c" "bc_starter c = Has_Returned"
  shows "c' = c\<lparr>bc_errors := Suc (bc_errors c)\<rparr>"
  using assms by (auto elim: consumer_stepE)

lemma closed_group_steps:
  assumes "(consumer_step parse ^^ n) c c'" "bc_group_closed c" "\<not> bc_session c" "bc_starter c = Has_Returned"
  shows "c' = c\<lparr>bc_errors := bc_errors c + n\<rparr>"
  using assms
proof (induction n arbitrary: c')
  case (Suc n)
  then obtain c1 where "(consumer_step parse ^^ n) c c1" "consumer_step parse c1 c'" by auto
  moreover have "c1 = c\<lparr>bc_errors := bc_errors c + n\<rparr>" using Suc calculation(1) by blast
  ultimately show ?case using Suc.prems closed_group_step [of parse c1 c'] by simp
qed simp

lemma closed_group_runs:
  assumes "\<not> bc_crashed c" "\<not> bc_session c"
  shows "\<exists>c'. (consumer_step parse ^^ n) c c'"
proof -
  have "(consumer_step parse ^^ n) c (c\<lparr>bc_errors := bc_errors c + n\<rparr>)"
  proof (induction n)
    case (Suc n)
    then show ?case using assms consumer_step.Consume_Fails [of "c\<lparr>bc_errors := bc_errors c + n\<rparr>"]
      by (auto intro!: relcomppI)
  qed simp
  then show ?thesis by blast
qed

text \<open>A second session before the starter has returned ends the process.\<close>

lemma second_session_crashes: "bc_ready_closed c \<Longrightarrow> bc_crashed (session_begins c)"
  by (simp add: consumer_moves)

text \<open>
  The consumer of behaviour records shuts itself down: as soon as its first session has begun, the
  function that started it can return, and its deferred \<open>group.Close()\<close> ends the consumption for good.
  From then on, once that session is over, no message is read any more, and the loop goes on for ever
  with nothing but failing calls, one logged error for each. If the group is rebalanced before, the
  second \<open>Setup\<close> closes a closed channel and the panic ends the process.
\<close>

theorem behavior_consumer_stops:
  assumes "consumer_reachable parse cfg c" "bc_ready_closed c" "\<not> bc_crashed c" "\<not> bc_session c"
  shows "if bc_starter c = Has_Returned
     then (\<forall>n. \<exists>c'. (consumer_step parse ^^ n) c c') \<and>
       (\<forall>n c'. (consumer_step parse ^^ n) c c' \<longrightarrow>
          bc_marked c' = bc_marked c \<and> bc_seen c' = bc_seen c \<and> bc_errors c' = bc_errors c + n)
     else consumer_step parse c (starter_returns c) \<and> consumer_step parse c (session_begins c) \<and>
       bc_crashed (session_begins c)"
proof (cases "bc_starter c")
  case Awaits_Ready
  then have "\<not> bc_group_closed c" using reachable_consumer_ok [OF assms(1)] by (simp add: consumer_ok_def)
  then show ?thesis
    using Awaits_Ready assms consumer_step.Starter consumer_step.Session second_session_crashes by simp
next
  case Has_Returned
  then have "bc_group_closed c" using reachable_consumer_ok [OF assms(1)] by (simp add: consumer_ok_def)
  then have "bc_marked c' = bc_marked c \<and> bc_seen c' = bc_seen c \<and> bc_errors c' = bc_errors c + n"
    if "(consumer_step parse ^^ n) c c'" for n c'
    using Has_Returned assms closed_group_steps [OF that] by simp
  moreover have "\<exists>c'. (consumer_step parse ^^ n) c c'" for n using assms by (intro closed_group_runs)
  ultimately show ?thesis using Has_Returned by simp
qed

definition demo_kafka :: kafka_config where
  "demo_kafka = (cf_kafka (demo_config ''s3cret''))\<lparr>kf_brokers := [''kafka:9092'']\<rparr>"

definition demo_consumer :: behavior_consumer where
  "demo_consumer = \<lparr>bc_ready_closed = True, bc_starter = Has_Returned, bc_group_closed = True, bc_session = False,
     bc_marked = [''m1''], bc_seen = [], bc_errors = 0, bc_crashed = False\<rparr>"

lemma demo_consumer_reachable: "consumer_reachable (\<lambda>_. None) demo_kafka demo_consumer"
proof -
  let ?P = "\<lambda>_ :: string. None :: behavior_track option"
  let ?c = "\<lambda>ready st closed session marked. \<lparr>bc_ready_closed = ready, bc_starter = st, bc_group_closed = closed,
    bc_session = session, bc_marked = marked, bc_seen = [], bc_errors = 0, bc_crashed = False\<rparr>"
  have "StartBehaviorConsumer (\<lambda>_. Inr ()) demo_kafka = Some (?c False Awaits_Ready False False [])"
    by (simp add: StartBehaviorConsumer_def consumer_starts_def demo_kafka_def)
  then have 1: "consumer_reachable ?P demo_kafka (?c False Awaits_Ready False False [])" by (rule consumer_reachable.start)
  have "consumer_step ?P (?c False Awaits_Ready False False []) (?c True Awaits_Ready False True [])"
    using consumer_step.Session [of "?c False Awaits_Ready False False []" ?P] by (simp add: consumer_moves)
  with 1 have 2: "consumer_reachable ?P demo_kafka (?c True Awaits_Ready False True [])" by (rule consumer_reachable.step)
  have "consumer_step ?P (?c True Awaits_Ready False True []) (?c True Has_Returned True True [])"
    using consumer_step.Starter [of "?c True Awaits_Ready False True []" ?P] by (simp add: consumer_moves)
  with 2 have 3: "consumer_reachable ?P demo_kafka (?c True Has_Returned True True [])" by (rule consumer_reachable.step)
  have "consumer_step ?P (?c True Has_Returned True True []) (?c True Has_Returned True True [''m1''])"
    using consumer_step.Message [of "?c True Has_Returned True True []" ?P "''m1''"] by (simp add: consumer_moves)
  with 3 have 4: "consumer_reachable ?P demo_kafka (?c True Has_Returned True True [''m1''])" by (rule consumer_reachable.step)
  have "consumer_step ?P (?c True Has_Returned True True [''m1'']) demo_consumer"
    using consumer_step.Session_Ends [of "?c True Has_Returned True True [''m1'']" ?P]
    by (simp add: consumer_moves demo_consumer_def)
  with 4 show ?thesis by (rule consumer_reachable.step)
qed

theorem behavior_consumer_stops_witness:
  "\<exists>c'. (consumer_step (\<lambda>_. None) ^^ 7) demo_consumer c' \<and> bc_marked c' = [''m1''] \<and> bc_errors c' = 7"
proof -
  note stops = behavior_consumer_stops [OF demo_consumer_reachable, unfolded demo_consumer_def, simplified]
  obtain c' where "(consumer_step (\<lambda>_. None) ^^ 7) demo_consumer c'"
    unfolding demo_consumer_def using conjunct1 [OF stops] by blast
  moreover from this have "bc_marked c' = [''m1''] \<and> bc_errors c' = 7"
    unfolding demo_consumer_def using conjunct2 [OF stops] by blast
  ultimately show ?thesis by blast
qed

end
