(* ===== verification/Start_Up.thy ===== *)
theory Start_Up
  imports Service_Registry Behavior_Consumer Snowflake Order_Consumer Order_Stock
begin

text \<open>
  The start and the end of the server in \<^verbatim>\<open>cmd/main.go\<close>: what has to succeed, what is done
  without, the deferred calls that close what was opened, and the generator of the order numbers.
\<close>

section \<open>The start\<close>

text \<open>The results of the calls of the start; each is an operation of the package it is named after.\<close>

record init_results =
  ir_config :: "config result"
  ir_log :: "unit result"
  ir_db :: "unit result"
  ir_redis :: "unit result"
  ir_mq :: "unit result"
  ir_kafka :: "unit result"
  ir_etcd :: "unit result"
  ir_registered :: "unit result"
  ir_tracer :: "unit result"

datatype closer = Log_Sync | Redis_Close | Mq_Close | Kafka_Close | Etcd_Close | Tracer_Shutdown

text \<open>
  The deferred calls are a stack. \<open>kv_registered\<close> tells that \<open>keepAlive\<close> runs.
\<close>

record server =
  kv_deferred :: "closer list"
  kv_registered :: bool
  kv_generator :: buffered
  kv_reconciling :: bool
  kv_tracing :: bool
  kv_addr :: string

text \<open>A panic runs the deferred calls, a fatal log message ends the process without them.\<close>

datatype startup = Panics go_error | Fatal go_error | Serving server

definition defer_if :: "unit result \<Rightarrow> closer \<Rightarrow> closer list \<Rightarrow> closer list" where
  "defer_if r c cs = (case r of Inl _ \<Rightarrow> cs | Inr _ \<Rightarrow> c # cs)"

text \<open>\<open>idGen\<close>: the worker id is the port, modulo 1024.\<close>

definition start_id_generator :: "server_config \<Rightarrow> buffered result" where
  "start_id_generator cfg = (case NewSnowflake (word_of_int (go_rem (sv_port cfg) 1024)) of
      Inl err \<Rightarrow> Inl err
    | Inr sf \<Rightarrow> Inr (NewBufferedSnowflake sf 1024))"

definition StartReconciler :: "config \<Rightarrow> bool" where
  "StartReconciler cfg = rc_enabled (cf_reconciler cfg)"

definition main_serving :: "init_results \<Rightarrow> config \<Rightarrow> buffered \<Rightarrow> server" where
  "main_serving ir cfg idGen =
     (let traced = tc_enabled (cf_tracing cfg) \<and> ir_tracer ir = Inr ();
          opened = defer_if (ir_etcd ir) Etcd_Close (defer_if (ir_kafka ir) Kafka_Close
            (defer_if (ir_mq ir) Mq_Close [Redis_Close, Log_Sync]))
      in \<lparr>kv_deferred = (if traced then Tracer_Shutdown # opened else opened),
          kv_registered = (ir_etcd ir = Inr () \<and> ir_registered ir = Inr ()),
          kv_generator = idGen,
          kv_reconciling = StartReconciler cfg,
          kv_tracing = traced,
          kv_addr = '':'' @ fmt_d (sv_port (cf_server cfg))\<rparr>)"

definition main_start :: "init_results \<Rightarrow> startup" where
  "main_start ir = (case ir_config ir of
      Inl err \<Rightarrow> Panics err
    | Inr cfg \<Rightarrow>
        (case ir_log ir of
           Inl err \<Rightarrow> Panics err
         | Inr _ \<Rightarrow>
             (case ir_db ir of
                Inl err \<Rightarrow> Fatal err
              | Inr _ \<Rightarrow>
                  (case ir_redis ir of
                     Inl err \<Rightarrow> Fatal err
                   | Inr _ \<Rightarrow>
                       (case start_id_generator (cf_server cfg) of
                          Inl err \<Rightarrow> Fatal err
                        | Inr idGen \<Rightarrow> Serving (main_serving ir cfg idGen))))))"

section \<open>The end\<close>

text \<open>A signal stops the HTTP server and flushes the log; then \<open>main\<close> returns and the deferred calls run.\<close>

datatype shutdown_step = Http_Shutdown | Flush_Log | Deferred closer

definition main_exit :: "server \<Rightarrow> shutdown_step list" where
  "main_exit sv = [Http_Shutdown, Flush_Log] @ map Deferred (kv_deferred sv)"

section \<open>What has to succeed\<close>

text \<open>The generator fails for a negative port, which \<open>validateConfig\<close> lets through.\<close>

lemma start_id_generator_ok:
  "start_id_generator cfg = Inr b \<longleftrightarrow>
     0 \<le> go_rem (sv_port cfg) 1024 \<and>
     b = NewBufferedSnowflake \<lparr>sf_workerID = word_of_int (go_rem (sv_port cfg) 1024), sf_sequence = 0, sf_lastStamp = 0\<rparr> 1024"
proof -
  let ?r = "go_rem (sv_port cfg) 1024"
  have b: "\<bar>?r\<bar> < 1024" by (rule go_rem_bound) simp
  then have s: "sint (word_of_int ?r :: 64 word) = ?r"
    by (subst signed_of_int) (auto intro!: signed_take_bit_int_eq_self)
  show ?thesis
    using b by (auto simp: start_id_generator_def NewSnowflake_def word_sless_alt bit_consts s)
qed

lemma main_start_serving:
  "main_start ir = Serving sv \<longleftrightarrow>
     (\<exists>cfg b. ir_config ir = Inr cfg \<and> ir_log ir = Inr () \<and> ir_db ir = Inr () \<and> ir_redis ir = Inr () \<and>
        start_id_generator (cf_server cfg) = Inr b \<and> sv = main_serving ir cfg b)"
  by (auto simp: main_start_def split: sum.splits)

lemma defer_if_in: "c \<in> set (defer_if r c' cs) \<longleftrightarrow> (c = c' \<and> r = Inr ()) \<or> c \<in> set cs"
  by (auto simp: defer_if_def split: sum.splits)

lemma distinct_defer_if: "distinct (defer_if r c cs) \<longleftrightarrow> distinct cs \<and> (r = Inr () \<longrightarrow> c \<notin> set cs)"
  by (auto simp: defer_if_def split: sum.splits)

definition opened :: "init_results \<Rightarrow> config \<Rightarrow> closer set" where
  "opened ir cfg = {Log_Sync, Redis_Close} \<union> (if ir_mq ir = Inr () then {Mq_Close} else {}) \<union>
     (if ir_kafka ir = Inr () then {Kafka_Close} else {}) \<union> (if ir_etcd ir = Inr () then {Etcd_Close} else {}) \<union>
     (if tc_enabled (cf_tracing cfg) \<and> ir_tracer ir = Inr () then {Tracer_Shutdown} else {})"

lemma deferred_opened: "set (kv_deferred (main_serving ir cfg b)) = opened ir cfg"
  by (auto simp: main_serving_def opened_def Let_def defer_if_def split: sum.splits)

lemma deferred_once: "distinct (kv_deferred (main_serving ir cfg b))"
  by (simp add: main_serving_def Let_def distinct_defer_if defer_if_in)

lemma logs_last: "last (kv_deferred (main_serving ir cfg b)) = Log_Sync"
  by (simp add: main_serving_def Let_def defer_if_def split: sum.splits)

section \<open>Two instances with the same port\<close>

lemma same_port_same_generator: "sv_port cfg1 = sv_port cfg2 \<Longrightarrow> start_id_generator cfg1 = start_id_generator cfg2"
  by (simp add: start_id_generator_def)

text \<open>What a generator may have done since its start: the goroutine filled its channel, numbers were taken.\<close>

inductive generator_run :: "buffered \<Rightarrow> buffered \<Rightarrow> bool" where
  started: "generator_run b b"
| filled: "generator_run b b1 \<Longrightarrow> fill_step e b1 = Some b2 \<Longrightarrow> generator_run b b2"
| taken: "generator_run b b1 \<Longrightarrow> BufferedNextID fuel clk b1 = Some (b2, r) \<Longrightarrow> generator_run b b2"

lemma NextID_worker: "NextID fuel clk s = Some (s', r) \<Longrightarrow> sf_workerID s' = sf_workerID s"
  by (auto simp: NextID_def Let_def split: if_splits option.splits)

lemma fill_step_worker: "fill_step e b = Some b' \<Longrightarrow> sf_workerID (bs_sf b') = sf_workerID (bs_sf b)"
  by (cases e) (auto split: if_splits option.splits prod.splits sum.splits dest: NextID_worker)

lemma generator_run_worker: "generator_run b b' \<Longrightarrow> sf_workerID (bs_sf b') = sf_workerID (bs_sf b)"
proof (induction rule: generator_run.induct)
  case (filled b b1 e b2)
  then show ?case by (simp add: fill_step_worker)
next
  case (taken b b1 fuel clk b2 r)
  then show ?case
    by (auto simp: BufferedNextID_def split: list.splits option.splits prod.splits dest: NextID_worker)
qed simp

text \<open>At a reading of the clock later than its last, a generator starts the sequence of that millisecond.\<close>

lemma NextID_later: "sf_lastStamp s <s clk 0 \<Longrightarrow>
    NextID fuel clk s = Some (s\<lparr>sf_sequence := 0, sf_lastStamp := clk 0\<rparr>, Inr (compose_id (clk 0) (sf_workerID s) 0))"
  by (auto simp: NextID_def Let_def word_sless_alt)

lemma number_later:
  assumes "sf_lastStamp s <s clk 0" "GenerateOrderNo sf_gen (fuel, clk) s = Some (s', Inr no)"
  shows "no = ''MS'' @ fmt_d (sint (compose_id (clk 0) (sf_workerID s) 0))"
  using assms(2) NextID_later [of s clk fuel] assms(1) by (simp add: GenerateOrderNo_def sf_gen_def)

context reliable_db
begin

text \<open>A second order with the number of an existing row is taken for a redelivery of the first.\<close>

lemma number_taken:
  assumes "svc_CreateOrder ev now msg w = (w', r)" "ev_db ev = ops" "parse_order_msg msg = Inr x"
    and "GetOrderTableName (om_user_id x) (ev_shards ev) \<in> order_tables" "order_present ev (view (w_db w)) x"
  shows "r = Inr () \<and> view (w_db w') = view (w_db w)"
proof -
  obtain w1 ex where q: "on_db (GetOrderByOrderNo ops (ev_shards ev) (om_order_no x) (om_user_id x)) w = (w1, ex)"
    by fastforce
  note found = on_dbD [OF q]
  obtain r0 where "ex = Inr r0"
    using get_present [OF _ _ assms(4) found] assms(5) by (auto simp: order_present_def)
  then show ?thesis using assms(1-3) q get_order(1) [OF found] by (auto simp: svc_CreateOrder_def)
qed

end

text \<open>
  C29. Instances that are started with the same port number the orders alike, and orders get lost. Their
  generators have the same worker id whatever each has generated since its start, so when both next
  generate a number at the same reading \<open>T\<close> of the clock, later than their last ones, it is the same
  number. If no row of the table has it, the first buyer's order is created, and the
  second one, of another buyer in the same table, is then answered as done: yet the database is
  unchanged, no stock is deducted, and every row with the number is the first buyer's.
\<close>

theorem scaled_instances_lose_orders:
  assumes "reliable_db (ev_db ev) view" "sv_port cfg1 = sv_port cfg2"
    and "start_id_generator cfg1 = Inr b1" "start_id_generator cfg2 = Inr b2" "generator_run b1 g1" "generator_run b2 g2"
    and "clk1 0 = T" "clk2 0 = T" "sf_lastStamp (bs_sf g1) <s T" "sf_lastStamp (bs_sf g2) <s T"
    and "GenerateOrderNo sf_gen (fuel1, clk1) (bs_sf g1) = Some (s1, Inr no1)"
    and "GenerateOrderNo sf_gen (fuel2, clk2) (bs_sf g2) = Some (s2, Inr no2)"
    and "parse_order_msg m1 = Inr x1" "om_order_no x1 = no1" "parse_order_msg m2 = Inr x2" "om_order_no x2 = no2"
    and "om_user_id x1 \<noteq> om_user_id x2"
    and "GetOrderTableName (om_user_id x2) (ev_shards ev) = GetOrderTableName (om_user_id x1) (ev_shards ev)"
    and "GetOrderTableName (om_user_id x1) (ev_shards ev) \<in> order_tables"
    and "\<forall>row \<in> set (t_rows (db_orders (view (w_db w)) (GetOrderTableName (om_user_id x1) (ev_shards ev)))). o_order_no row \<noteq> no1"
    and "svc_CreateOrder ev t1 m1 w = (w1, Inr ())" "svc_CreateOrder ev t2 m2 w1 = (w2, r)"
  shows "no1 = no2 \<and> r = Inr () \<and> view (w_db w2) = view (w_db w1) \<and>
    (\<forall>row \<in> set (t_rows (db_orders (view (w_db w2)) (GetOrderTableName (om_user_id x2) (ev_shards ev)))).
       o_order_no row = no2 \<longrightarrow> o_user_id row = om_user_id x1 \<and> o_user_id row \<noteq> om_user_id x2)"
proof -
  note server = reliable_db.axioms(1) [OF assms(1)]
  have "b1 = b2"
    using assms(3,4) same_port_same_generator [OF assms(2)] by simp
  then have "sf_workerID (bs_sf g1) = sf_workerID (bs_sf g2)"
    using generator_run_worker [OF assms(5)] generator_run_worker [OF assms(6)] by simp
  then have no: "no1 = no2"
    using number_later [of "bs_sf g1" clk1 fuel1 s1 no1] number_later [of "bs_sf g2" clk2 fuel2 s2 no2] assms(7-12) by simp
  have "number_kept ev (view (w_db w)) x1"
    by (rule absent_number_kept) (use assms(14,20) in \<open>simp add: order_present_def\<close>)
  then have kept: "number_kept ev (view (w_db w1)) x1"
    by (rule db_server.create_keeps_number [OF server assms(21) refl]) (use assms(13) in simp)
  have "order_present ev (view (w_db w1)) x1"
    using db_server.created_present [OF server assms(21) refl assms(13)] .
  then have "order_present ev (view (w_db w1)) x2"
    using no assms(14,16,18) by (simp add: order_present_def)
  then have same: "r = Inr () \<and> view (w_db w2) = view (w_db w1)"
    using reliable_db.number_taken [OF assms(1,22) refl assms(15)] assms(18,19) by simp
  then show ?thesis
    using no kept assms(14,17,18) by (simp add: number_kept_def row_of_def)
qed

definition demo_number :: string where
  "demo_number = ''MS'' @ fmt_d (sint (compose_id 1704067200005 912 0))"

definition demo_second_msg :: msg where
  "demo_second_msg = (demo_order_msg demo_number (rat_of_int 1))(''user_id'' \<mapsto> JNum 23)"

lemma demo_second_parse:
  "parse_order_msg demo_second_msg = Inr \<lparr>om_order_no = demo_number, om_user_id = 23, om_product_id = 1,
     om_product_name = ''phone'', om_seckill_price = 20, om_quantity = 1, om_total_amount = 40\<rparr>"
  by (simp add: parse_order_msg_def demo_second_msg_def demo_order_msg_def get_string_def get_float_def float_to_int_def)

lemma demo_shard_23: "GetOrderTableName 23 16 = ''t_order_7''"
proof -
  have "GetOrderTableName 23 16 = GetOrderTableName 7 16" by (simp add: GetOrderTableName_def go_rem_def)
  then show ?thesis by simp
qed

theorem scaled_instances_lose_orders_witness:
  "\<exists>b s w1 w2. start_id_generator demo_instance = Inr b \<and>
     GenerateOrderNo sf_gen (1, demo_clock 1704067200005) (bs_sf b) = Some (s, Inr demo_number) \<and>
     svc_CreateOrder demo_env 5 (demo_order_msg demo_number (rat_of_int 2)) demo_world = (w1, Inr ()) \<and>
     svc_CreateOrder demo_env 6 demo_second_msg w1 = (w2, Inr ()) \<and> w_db w2 = w_db w1 \<and>
     (\<forall>row \<in> set (t_rows (db_orders (w_db w2) ''t_order_7'')). o_order_no row = demo_number \<longrightarrow> o_user_id row \<noteq> 23)"
proof -
  let ?b = "NewBufferedSnowflake \<lparr>sf_workerID = 912, sf_sequence = 0, sf_lastStamp = 0\<rparr> 1024"
  have gen: "start_id_generator demo_instance = Inr ?b"
    by (simp add: start_id_generator_ok demo_instance_def go_rem_def)
  obtain s where no: "GenerateOrderNo sf_gen (1, demo_clock 1704067200005) (bs_sf ?b) = Some (s, Inr demo_number)"
    by (simp add: sf_gen_def NextID_def demo_clock_def GenerateOrderNo_def word_sless_alt NewBufferedSnowflake_def demo_number_def)
  have T: "demo_clock 1704067200005 0 = 1704067200005" "sf_lastStamp (bs_sf ?b) <s 1704067200005"
    by (simp_all add: demo_clock_def NewBufferedSnowflake_def word_sless_alt)
  let ?w1 = "on_mon IncOrderCreated (demo_world\<lparr>w_db := demo_db_with [demo_row demo_number 2 5] (demo_taken 2 5)\<rparr>)"
  have first: "svc_CreateOrder demo_env 5 (demo_order_msg demo_number (rat_of_int 2)) demo_world = (?w1, Inr ())"
    unfolding svc_CreateOrder_def demo_parse by (simp add: on_db_def demo_get demo_create_row demo_deduct)
  obtain w2 r where second: "svc_CreateOrder demo_env 6 demo_second_msg ?w1 = (w2, r)" by fastforce
  have run: "generator_run ?b ?b" by (rule generator_run.started)
  have "demo_number = demo_number \<and> r = Inr () \<and> id (w_db w2) = id (w_db ?w1) \<and>
      (\<forall>row \<in> set (t_rows (db_orders (id (w_db w2)) (GetOrderTableName 23 (ev_shards demo_env)))).
         o_order_no row = demo_number \<longrightarrow> o_user_id row = 7 \<and> o_user_id row \<noteq> 23)"
    using scaled_instances_lose_orders [of demo_env id demo_instance demo_instance ?b ?b ?b ?b "demo_clock 1704067200005" "1704067200005"
        "demo_clock 1704067200005", OF _ refl gen gen run run T(1) T(1) T(2) T(2) no no demo_parse _ demo_second_parse _ _ _ _ _ first second]
      plain_mysql.reliable_db_axioms demo_shard_23 by (simp add: demo_db_def empty_table_def)
  then show ?thesis using gen no first second demo_shard_23 by auto
qed

end
