(* ===== verification/Replicas.thy ===== *)
theory Replicas
  imports Order_Stock
begin

text \<open>
  \<^verbatim>\<open>InitDB\<close> of \<^verbatim>\<open>dao/dao.go\<close> and the database it sets up when the configuration names slaves: statements
  that read (\<open>GetReadDB\<close>) go to a replica, the others (\<open>GetWriteDB\<close>) to the master. The replica follows
  the master with a delay, so what it answers may be out of date.
\<close>

section \<open>Set-up\<close>

text \<open>The package variables: whether the handle is set, the once flag, the addresses of the replicas.\<close>

record dao_state =
  ds_open :: bool
  ds_once :: bool
  ds_replicas :: "string list"

definition master_dsn :: "mysql_config \<Rightarrow> string" where
  "master_dsn cfg = GetDSN (my_master cfg) @ ''&readTimeout=5s&writeTimeout=5s''"

text \<open>
  \<open>open_db\<close> is \<^verbatim>\<open>gorm.Open\<close>, \<open>use\<close> registers the replicas. A failed migration is only printed.
\<close>

definition InitDB ::
  "(string \<Rightarrow> unit result) \<Rightarrow> (string list \<Rightarrow> unit result) \<Rightarrow> mysql_config \<Rightarrow> dao_state \<Rightarrow> dao_state \<times> unit result" where
  "InitDB open_db use cfg g =
     (if ds_once g then (g, Inr ())
      else let g1 = g\<lparr>ds_once := True\<rparr>; replicas = map GetDSN (my_slaves cfg) in
        (case open_db (master_dsn cfg) of
           Inl err \<Rightarrow> (g1, Inl (Wrapf ''master not connected'' err))
         | Inr _ \<Rightarrow>
             (case (if replicas = [] then Inr () else use replicas) of
                Inl err \<Rightarrow> (g1, Inl (Wrapf ''no read write split'' err))
              | Inr _ \<Rightarrow> (g1\<lparr>ds_open := True, ds_replicas := replicas\<rparr>, Inr ()))))"

section \<open>Reads from a replica\<close>

fun is_read :: "'row stmt \<Rightarrow> bool" where
  "is_read (First _) = True"
| "is_read (Find _ _ _ _) = True"
| "is_read (Count _) = True"
| "is_read _ = False"

text \<open>
  The state is the one of the master and the tables as the replica has them now. \<open>GetUserByUsername\<close> and
  the audit log read from the master, \<open>GetUserByID\<close> and \<open>GetUserList\<close> from the replica; a transaction runs
  on the master.
\<close>

definition read_split ::
  "('row stmt \<Rightarrow> database \<Rightarrow> database \<times> 'row answer) \<Rightarrow> ('row stmt \<Rightarrow> 'd \<Rightarrow> 'd \<times> 'row answer)
     \<Rightarrow> 'row stmt \<Rightarrow> 'd \<times> database \<Rightarrow> ('d \<times> database) \<times> 'row answer" where
  "read_split read write st s = (case s of (d, replica) \<Rightarrow>
     (if is_read st then ((d, replica), snd (read st replica))
      else (case write st d of (d', a) \<Rightarrow> ((d', replica), a))))"

definition on_master :: "('row stmt \<Rightarrow> 'd \<Rightarrow> 'd \<times> 'row answer) \<Rightarrow> 'row stmt \<Rightarrow> 'd \<times> database \<Rightarrow> ('d \<times> database) \<times> 'row answer" where
  "on_master write st s = (case s of (d, replica) \<Rightarrow> (case write st d of (d', a) \<Rightarrow> ((d', replica), a)))"

definition replicated :: "'d db_ops \<Rightarrow> ('d \<times> database) db_ops" where
  "replicated ops = \<lparr>db_weight = db_weight ops, on_user = on_master (on_user ops),
     on_user_read = read_split (exec_user (db_weight ops)) (on_user_read ops),
     on_product = read_split exec_product (on_product ops),
     on_sku = read_split exec_sku (on_sku ops),
     on_order = (\<lambda>name. read_split (exec_order name) (on_order ops name)),
     on_diff = read_split exec_diff (on_diff ops),
     on_black = read_split (exec_black (db_weight ops)) (on_black ops),
     on_audit = on_master (on_audit ops),
     in_tx = (\<lambda>body s. case in_tx ops (\<lambda>d. case body (d, snd s) of ((d', _), r) \<Rightarrow> (d', r)) (fst s) of
        (d', r) \<Rightarrow> ((d', snd s), r))\<rparr>"

text \<open>The updates of the order service reach the master, its reads the replica.\<close>

lemma replicated_order_update:
  "update_order (replicated ops) shards no u f (d, replica) =
     (case update_order ops shards no u f d of (d', r) \<Rightarrow> ((d', replica), r))"
  by (simp add: update_order_def replicated_def read_split_def split: prod.splits)

lemma replicated_rollback:
  "RollbackProductStock (replicated ops) now p q (d, replica) =
     (case RollbackProductStock ops now p q d of (d', r) \<Rightarrow> ((d', replica), r))"
  by (simp add: RollbackProductStock_def replicated_def read_split_def split: prod.splits)

lemma replicated_get:
  "GetOrderByOrderNo (replicated ops) shards no u (d, replica) =
     ((d, replica), snd (GetOrderByOrderNo plain_ops shards no u replica))"
  by (simp add: GetOrderByOrderNo_def replicated_def read_split_def split: prod.splits)

section \<open>A cancellation that reads an old row\<close>

lemma map_rows_row: "x \<in> set (t_rows (db_orders v n)) \<Longrightarrow> P x \<Longrightarrow> f x \<in> set (t_rows (db_orders (map_rows n P f v) n))"
  by (force simp: map_rows_def)

context reliable_db
begin

lemma replicated_give_back:
  assumes "ev_db ev = replicated ops" "w_db w = (d, replica)"
  shows "\<exists>d'. w_db (give_back_all ev now u p q w) = (d', replica) \<and> view d' = add_stock now p q (view d)"
proof -
  obtain d' r where b: "RollbackProductStock ops now p q d = (d', r)" by fastforce
  then have "w_db (give_back_all ev now u p q w) = (d', replica)"
    using assms by (simp add: give_back_all_def on_db_def replicated_rollback on_redis_def split: prod.splits)
  then show ?thesis using rollback_adds(1) [OF b] by blast
qed

lemma replicated_cancel:
  assumes "ev_db ev = replicated ops" "w_db w = (d, replica)" "GetOrderTableName u (ev_shards ev) \<in> order_tables"
    and r: "r \<in> set (t_rows (db_orders replica (GetOrderTableName u (ev_shards ev))))" "o_order_no r = no"
    and "orders_ok replica" "o_status r = Pending" "svc_CancelOrder ev now no u reason w = (w', res)"
  shows "res = Inr () \<and> (\<exists>d'. w_db w' = (d', replica) \<and>
    view d' = add_stock now (o_product_id r) (o_quantity r) (map_rows (GetOrderTableName u (ev_shards ev))
      (\<lambda>x. o_order_no x = no) (\<lambda>x. x\<lparr>o_status := Cancelled, o_cancel_time := Some now, o_cancel_reason := reason,
        o_updated_at := now\<rparr>) (view d)))"
proof -
  obtain d0 found where g: "GetOrderByOrderNo plain_ops (ev_shards ev) no u replica = (d0, found)" by fastforce
  obtain r' where "found = Inr r'" using plain_mysql.get_present [of r replica, unfolded id_def, OF r assms(3) g] by blast
  then have found: "found = Inr r"
    using orders_ok_unique [OF assms(6) r(1)] plain_mysql.get_order(2) [OF g, of r'] r(2) by simp
  have read: "on_db (GetOrderByOrderNo (ev_db ev) (ev_shards ev) no u) w = (w, Inr r)"
    using assms(1,2) g found by (simp add: on_db_def replicated_get)
  obtain d1 r1 where c: "update_order ops (ev_shards ev) no u
      (\<lambda>x. x\<lparr>o_status := Cancelled, o_cancel_time := Some now, o_cancel_reason := reason, o_updated_at := now\<rparr>) d = (d1, r1)"
    by fastforce
  then have u: "r1 = Inr ()" "view d1 = map_rows (GetOrderTableName u (ev_shards ev)) (\<lambda>x. o_order_no x = no)
      (\<lambda>x. x\<lparr>o_status := Cancelled, o_cancel_time := Some now, o_cancel_reason := reason, o_updated_at := now\<rparr>) (view d)"
    using assms(3) by (auto elim: update_answered)
  have "on_db (Dao.CancelOrder (ev_db ev) now (ev_shards ev) no u reason) w = (w\<lparr>w_db := (d1, replica)\<rparr>, Inr ())"
    using assms(1,2) c u(1) by (simp add: on_db_def Dao.CancelOrder_def replicated_order_update)
  then have "res = Inr ()" "w' = give_back_all ev now u (o_product_id r) (o_quantity r) (w\<lparr>w_db := (d1, replica)\<rparr>)"
    using assms(7,8) read by (simp_all add: svc_CancelOrder_def cancel_after_read_def)
  then show ?thesis
    using replicated_give_back [OF assms(1), of "w\<lparr>w_db := (d1, replica)\<rparr>" d1 replica] u(2) by simp
qed

end

text \<open>
  C40. With a replica, a paid order can be cancelled: when the replica still has the order as pending, a
  cancellation succeeds although the master already has it as paid. The row is then cancelled with its
  payment time kept, and the stock grows by the units that were paid for. \<open>CancelOrder\<close> reads through
  \<open>GetReadDB\<close>, and its update does not look at the status it replaces.
\<close>

theorem stale_read_cancels_paid_order:
  assumes "reliable_db ops view" "ev_db ev = replicated ops" "w_db w = (d, replica)"
    and "GetOrderTableName u (ev_shards ev) \<in> order_tables" "orders_ok replica"
    and "r \<in> set (t_rows (db_orders replica (GetOrderTableName u (ev_shards ev))))" "o_order_no r = no" "o_status r = Pending"
    and "x \<in> set (t_rows (db_orders (view d) (GetOrderTableName u (ev_shards ev))))" "o_order_no x = no" "o_status x = Paid"
    and "has_product (view d) (o_product_id r)"
    and "svc_CancelOrder ev now no u reason w = (w', res)"
  shows "res = Inr () \<and> (\<exists>d' y. w_db w' = (d', replica) \<and>
    y \<in> set (t_rows (db_orders (view d') (GetOrderTableName u (ev_shards ev)))) \<and> o_order_no y = no \<and>
    o_status y = Cancelled \<and> o_pay_time y = o_pay_time x \<and>
    remaining (view d') (o_product_id r) = remaining (view d) (o_product_id r) + o_quantity r)"
proof -
  let ?t = "GetOrderTableName u (ev_shards ev)"
  let ?f = "\<lambda>x. x\<lparr>o_status := Cancelled, o_cancel_time := Some now, o_cancel_reason := reason, o_updated_at := now\<rparr>"
  let ?v = "map_rows ?t (\<lambda>x. o_order_no x = no) ?f (view d)"
  obtain d' where d': "res = Inr ()" "w_db w' = (d', replica)" "view d' = add_stock now (o_product_id r) (o_quantity r) ?v"
    using reliable_db.replicated_cancel [OF assms(1-4,6,7,5,8,13)] by blast
  have "?f x \<in> set (t_rows (db_orders (view d') ?t))"
    using map_rows_row [OF assms(9), of "\<lambda>x. o_order_no x = no" ?f] assms(10) d'(3) by (simp add: add_stock_def)
  moreover have p: "db_products ?v = db_products (view d)" by (simp add: map_rows_def)
  then have "remaining (view d') (o_product_id r) = remaining (view d) (o_product_id r) + o_quantity r"
    using d'(3) assms(12) has_product_cong [OF p] remaining_cong [OF p] by (simp add: remaining_add)
  ultimately show ?thesis using d'(1,2) assms(10) by (intro conjI exI [of _ d'] exI [of _ "?f x"]) simp_all
qed

definition replica_env :: "(faulty_server, database \<times> database, demo_broker) env" where
  "replica_env = \<lparr>ev_call = faulty_call, ev_db = replicated plain_ops, ev_amqp = demo_amqp, ev_tf = demo_layout,
     ev_shards = 16, ev_rabbit = cf_rabbit (demo_config ''s3cret''), ev_instance = ''node1'', ev_port = 8080\<rparr>"

text \<open>The order of the demo deployment, paid at time 7; the replica has not heard of it.\<close>

definition paid_row :: order where
  "paid_row = (demo_row ''A1'' 2 5)\<lparr>o_status := Paid, o_pay_time := Some 7\<rparr>"

definition lagging_world :: "(faulty_server, database \<times> database, demo_broker) world" where
  "lagging_world = \<lparr>w_redis = demo_redis,
     w_db = (demo_db_with [paid_row] (demo_taken 2 5), demo_db_with [demo_row ''A1'' 2 5] (demo_taken 2 5)),
     w_mq = demo_mq_state [], w_mon = w_mon demo_world, w_kafka = []\<rparr>"

theorem stale_read_cancels_paid_order_witness:
  "\<exists>w' d' y. svc_CancelOrder replica_env 9 ''A1'' 7 [] lagging_world = (w', Inr ()) \<and>
     y \<in> set (t_rows (db_orders d' ''t_order_7'')) \<and> fst (w_db w') = d' \<and> o_status y = Cancelled \<and> o_pay_time y = Some 7 \<and>
     remaining d' 1 = 10"
proof -
  obtain w' res where run: "svc_CancelOrder replica_env 9 ''A1'' 7 [] lagging_world = (w', res)" by fastforce
  let ?m = "demo_db_with [paid_row] (demo_taken 2 5)" and ?r = "demo_row ''A1'' 2 5"
  have start: "has_product ?m 1" "remaining ?m 1 = 8"
    using demo_has_product [of "[paid_row]" 5 8]
    by (simp_all add: demo_taken_def remaining_def live_product_def demo_product_def)
  have "res = Inr () \<and> (\<exists>d' y. w_db w' = (d', demo_db_with [?r] (demo_taken 2 5)) \<and>
    y \<in> set (t_rows (db_orders (id d') (GetOrderTableName 7 (ev_shards replica_env)))) \<and> o_order_no y = ''A1'' \<and>
    o_status y = Cancelled \<and> o_pay_time y = o_pay_time paid_row \<and>
    remaining (id d') (o_product_id ?r) = remaining (id ?m) (o_product_id ?r) + o_quantity ?r)"
    by (rule stale_read_cancels_paid_order [OF plain_mysql.reliable_db_axioms, where w = lagging_world and d = ?m])
      (use run start in \<open>simp_all add: replica_env_def lagging_world_def paid_row_def demo_row_def demo_orders_ok\<close>)
  then show ?thesis using run start by (auto simp: replica_env_def paid_row_def demo_row_def)
qed

end
