(* ===== verification/Order_Effects.thy ===== *)
theory Order_Effects
  imports Sale_Flow Order_Stock
begin

text \<open>
  What the calls of the order service do to the tables, to the MySQL stock and to the Redis stock, over
  servers that answer: cancellation, timeout and refund return the same units to both stocks, a creation
  adds one row and takes its units when they are there.
\<close>

section \<open>Rows\<close>

text \<open>What the services never change in a row.\<close>

definition row_core :: "order \<Rightarrow> int \<times> string \<times> int \<times> int" where
  "row_core r = (o_id r, o_order_no r, o_product_id r, o_quantity r)"

definition rows_of :: "database \<Rightarrow> string \<Rightarrow> order list" where
  "rows_of v n = t_rows (db_orders v n)"

definition same_rows :: "database \<Rightarrow> database \<Rightarrow> bool" where
  "same_rows v v' \<longleftrightarrow> (\<forall>n. map row_core (rows_of v' n) = map row_core (rows_of v n) \<and>
     t_next (db_orders v' n) = t_next (db_orders v n))"

text \<open>Order numbers are unique, the next identifier of a table is free, quantities are positive.\<close>

definition tables_ok :: "database \<Rightarrow> bool" where
  "tables_ok v \<longleftrightarrow> orders_ok v \<and> (\<forall>n. \<forall>r \<in> set (rows_of v n). o_id r < t_next (db_orders v n) \<and> 0 < o_quantity r)"

definition numbered :: "database \<Rightarrow> string \<Rightarrow> string \<Rightarrow> bool" where
  "numbered v n no \<longleftrightarrow> no \<in> o_order_no ` set (rows_of v n)"

lemma same_rows_refl [simp]: "db_orders v' = db_orders v \<Longrightarrow> same_rows v v'"
  by (simp add: same_rows_def rows_of_def)

lemma same_rows_trans: "same_rows a b \<Longrightarrow> same_rows b c \<Longrightarrow> same_rows a c"
  by (simp add: same_rows_def)

lemma same_rows_set:
  assumes "same_rows v v'" "r \<in> set (rows_of v' n)"
  obtains r0 where "r0 \<in> set (rows_of v n)" "row_core r0 = row_core r"
proof -
  have "set (map row_core (rows_of v n)) = set (map row_core (rows_of v' n))"
    using assms(1) by (simp add: same_rows_def)
  then have "row_core r \<in> row_core ` set (rows_of v n)"
    using imageI [OF assms(2), of row_core] by simp
  with that show thesis by (elim imageE) simp
qed

lemma same_rows_nos:
  assumes "same_rows v v'"
  shows "map o_order_no (rows_of v' n) = map o_order_no (rows_of v n)"
proof -
  have core: "map o_order_no xs = map (fst \<circ> snd) (map row_core xs)" for xs
    by (simp add: row_core_def)
  have "map row_core (rows_of v' n) = map row_core (rows_of v n)"
    using assms by (simp add: same_rows_def)
  then show ?thesis
    unfolding core [of "rows_of v' n"] core [of "rows_of v n"] by (rule arg_cong)
qed

lemma same_rows_numbered:
  assumes "same_rows v v'"
  shows "numbered v' n no = numbered v n no"
  using arg_cong [OF same_rows_nos [OF assms, of n], of set] by (simp add: numbered_def)

lemma same_rows_ok:
  assumes "same_rows v v'" "tables_ok v"
  shows "tables_ok v'"
proof -
  have "o_id r < t_next (db_orders v' n) \<and> 0 < o_quantity r" if r: "r \<in> set (rows_of v' n)" for n r
  proof -
    obtain r0 where "r0 \<in> set (rows_of v n)" "row_core r0 = row_core r"
      by (rule same_rows_set [OF assms(1) r])
    moreover have "t_next (db_orders v' n) = t_next (db_orders v n)"
      using assms(1) by (simp add: same_rows_def)
    ultimately show ?thesis
      using assms(2) by (fastforce simp: tables_ok_def row_core_def)
  qed
  moreover have "orders_ok v'"
    using assms same_rows_nos [OF assms(1)] by (simp add: tables_ok_def orders_ok_def rows_of_def)
  ultimately show ?thesis by (simp add: tables_ok_def)
qed

lemma order_present_numbered:
  "order_present ev v x = numbered v (GetOrderTableName (om_user_id x) (ev_shards ev)) (om_order_no x)"
  by (auto simp: order_present_def numbered_def rows_of_def image_iff eq_commute)

section \<open>A stock update in Redis\<close>

text \<open>What an operation does to one stock key, when the key space keeps its form.\<close>

definition stock_is :: "keyspace \<Rightarrow> int \<Rightarrow> int \<Rightarrow> bool" where
  "stock_is ks p st \<longleftrightarrow> shop_ok (\<lambda>_. max_int64) ks \<and> persistent ks (stock_key p) \<and> int_at ks (stock_key p) = Some st"

lemma stock_is_nonneg: "stock_is ks p st \<Longrightarrow> 0 \<le> st"
  by (auto simp: stock_is_def dest: shop_ok_stock)

lemma stock_is_same_shop: "stock_is ks p st \<Longrightarrow> same_shop ks ks' \<Longrightarrow> stock_is ks' p st"
  using same_shop_ok [of ks ks' "\<lambda>_. max_int64"] same_shop_eqs(1) [of ks ks' p]
  by (simp add: stock_is_def persistent_def) (simp add: same_shop_def)

lemma stock_is_tick: "stock_is ks p st \<Longrightarrow> 0 \<le> d \<Longrightarrow> stock_is (tick d ks) p st"
  by (simp add: stock_is_def tick_shop_ok persistent_tick persistent_tick_int)

lemma stock_is_incr:
  assumes "stock_is ks p st" "0 \<le> q" "p' = p \<Longrightarrow> in_int64 (st + q)"
  shows "stock_is (fst (redis_exec ks (INCRBY (stock_key p') q))) p (st + (if p' = p then q else 0))"
proof (cases "in_int64 (count_at ks (stock_key p') + q)")
  case True
  have "shop_ok (\<lambda>_. max_int64) (fst (redis_exec ks (INCRBY (stock_key p') q)))"
    using incr_stock_keeps [of "\<lambda>_. max_int64" ks q p'] assms by (simp add: stock_is_def)
  with True assms show ?thesis
    using incrby_eval [OF shop_okD(1) True, of "\<lambda>_. max_int64"]
    by (cases "p' = p") (auto simp: stock_is_def redis_simps shop_okD persistent_add_at int_at_count)
next
  case False
  then have "p' \<noteq> p"
    using assms(1,3) by (auto simp: stock_is_def int_at_count)
  with False assms(1) show ?thesis
    using incrby_overflow [OF shop_okD(1) False, of "\<lambda>_. max_int64"] by (simp add: stock_is_def)
qed

context reliable_redis
begin

lemma undo_stock:
  assumes "ev_call ev = call" "stock_is (kv (w_redis w)) p st" "0 < sa_quantity a"
    "sa_product a = p \<Longrightarrow> in_int64 (st + sa_quantity a)"
  shows "stock_is (kv (w_redis (undo_purchase ev a w))) p (st + (if sa_product a = p then sa_quantity a else 0))"
proof -
  obtain w1 r1 where i: "on_redis (IncrStock call (sa_product a) (sa_quantity a)) w = (w1, r1)"
    by fastforce
  obtain w2 r2 where d: "on_redis (DecrUserPurchaseCount call (sa_user a) (sa_product a) (sa_quantity a)) w1 = (w2, r2)"
    by fastforce
  have "kv (w_redis w1) = fst (redis_exec (kv (w_redis w)) (INCRBY (stock_key (sa_product a)) (sa_quantity a)))"
    using on_redisD [OF i] by (auto simp: IncrStock_def simp del: redis_exec.simps dest!: answers split: prod.splits)
  then have 1: "stock_is (kv (w_redis w1)) p (st + (if sa_product a = p then sa_quantity a else 0))"
    using stock_is_incr [OF assms(2) _ assms(4)] assms(3) by (simp del: redis_exec.simps)
  have "kv (w_redis w2) = fst (decr_count_lua (user_key (sa_user a) (sa_product a)) (sa_quantity a) (kv (w_redis w1)))"
    using on_redisD [OF d] by (auto simp: DecrUserPurchaseCount_def dest!: answers split: prod.splits)
  then show ?thesis
    using 1 decr_count_stock [of "\<lambda>_. max_int64" "kv (w_redis w1)" "sa_quantity a" p]
      decr_count_lua_keeps [of "\<lambda>_. max_int64" "kv (w_redis w1)" "sa_quantity a"] assms(1,3) i d
    by (auto simp: undo_purchase_def stock_is_def)
qed

end

section \<open>Units that come back\<close>

definition return_args :: "int \<Rightarrow> int \<Rightarrow> int \<Rightarrow> seckill_args" where
  "return_args u p q = \<lparr>sa_user = u, sa_product = p, sa_quantity = q, sa_sku = 0, sa_idem = [], sa_ip = [], sa_trace = []\<rparr>"

lemma return_args_sel [simp]:
  "sa_user (return_args u p q) = u" "sa_product (return_args u p q) = p" "sa_quantity (return_args u p q) = q"
  by (simp_all add: return_args_def)

text \<open>A call that returns nothing, or the same units to both stocks.\<close>

definition returned :: "('r, 'd, 'q) env \<Rightarrow> ('d \<Rightarrow> database) \<Rightarrow> ('r, 'd, 'q) world \<Rightarrow> ('r, 'd, 'q) world \<Rightarrow> bool" where
  "returned ev view w w' \<longleftrightarrow> w_mq w' = w_mq w \<and> same_rows (view (w_db w)) (view (w_db w')) \<and>
     (w_redis w' = w_redis w \<and> db_products (view (w_db w')) = db_products (view (w_db w)) \<or>
      (\<exists>u p q now. 0 < q \<and> w_redis w' = w_redis (undo_purchase ev (return_args u p q) w) \<and>
         db_products (view (w_db w')) = db_products (add_stock now p q (view (w_db w)))))"

lemma returned_nothing:
  "w_mq w' = w_mq w \<Longrightarrow> w_redis w' = w_redis w \<Longrightarrow> view (w_db w') = view (w_db w) \<Longrightarrow> returned ev view w w'"
  by (simp add: returned_def)

lemma give_back_frame:
  "w_redis (give_back_all ev now u p q w) = w_redis (undo_purchase ev (return_args u p q) w)"
  "w_mq (give_back_all ev now u p q w) = w_mq w"
  by (simp_all add: give_back_all_def undo_purchase_def on_db_def on_redis_def Let_def case_prod_beta)

lemma add_stock_products_cong:
  "db_products v' = db_products v \<Longrightarrow> db_products (add_stock now p q v') = db_products (add_stock now p q v)"
  by (simp add: add_stock_def)

context reliable_db
begin

lemma update_rows:
  assumes "update_order ops shards no u f d = (d', res)" "\<And>r. row_core (f r) = row_core r"
  shows "same_rows (view d) (view d')" "db_products (view d') = db_products (view d)"
proof -
  have "same_rows (view d) (view d') \<and> db_products (view d') = db_products (view d)"
    using assms(1)
  proof (cases rule: update_order_cases)
    case updated
    show ?thesis
      unfolding updated(2) by (auto simp: same_rows_def rows_of_def map_rows_def assms(2))
  qed simp
  then show "same_rows (view d) (view d')" "db_products (view d') = db_products (view d)" by simp_all
qed

lemma status_rows:
  "UpdateOrderStatusWithPayTime ops now shards no u st pt d = (d', res) \<Longrightarrow>
     same_rows (view d) (view d') \<and> db_products (view d') = db_products (view d)"
  "CancelOrderWithStatus ops now shards no u reason st d = (d', res) \<Longrightarrow>
     same_rows (view d) (view d') \<and> db_products (view d') = db_products (view d)"
  "Dao.CancelOrder ops now shards no u reason d = (d', res) \<Longrightarrow>
     same_rows (view d) (view d') \<and> db_products (view d') = db_products (view d)"
  by (auto simp: UpdateOrderStatusWithPayTime_def CancelOrderWithStatus_def Dao.CancelOrder_def row_core_def
      dest: update_rows split: option.splits)

lemma give_back_returned:
  assumes "ev_db ev = ops" "0 < q" "w_mq w1 = w_mq w" "w_redis w1 = w_redis w"
    "same_rows (view (w_db w)) (view (w_db w1))" "db_products (view (w_db w1)) = db_products (view (w_db w))"
  shows "returned ev view w (give_back_all ev now u p q w1)"
proof -
  have "same_rows (view (w_db w)) (view (w_db (give_back_all ev now u p q w1)))"
    unfolding give_back_adds [OF assms(1)] by (rule same_rows_trans [OF assms(5)]) simp
  moreover have "w_redis (undo_purchase ev (return_args u p q) w1) = w_redis (undo_purchase ev (return_args u p q) w)"
    by (rule undo_purchase_cong [OF assms(4)])
  moreover have "db_products (view (w_db (give_back_all ev now u p q w1))) = db_products (add_stock now p q (view (w_db w)))"
    unfolding give_back_adds [OF assms(1)] by (rule add_stock_products_cong [OF assms(6)])
  ultimately show ?thesis
    using assms(2,3) unfolding returned_def give_back_frame by blast
qed

lemma order_quantity:
  assumes "GetOrderByOrderNo ops shards no u d = (d', Inr r)" "tables_ok (view d)"
  shows "0 < o_quantity r"
  using get_order(2) [OF assms(1) refl] assms(2) by (auto simp: tables_ok_def rows_of_def)

lemma cancel_returned:
  assumes "svc_CancelOrder ev now no u reason w = (w', res)" "ev_db ev = ops" "tables_ok (view (w_db w))"
  shows "returned ev view w w'"
proof -
  obtain w1 r1 where q: "on_db (GetOrderByOrderNo ops (ev_shards ev) no u) w = (w1, r1)"
    by fastforce
  note fr = on_frame(2) [OF q] and v1 = get_order(1) [OF on_dbD [OF q]]
  show ?thesis
  proof (cases "\<exists>r. r1 = Inr r \<and> o_status r = Pending")
    case False
    then show ?thesis
      using assms q v1 fr
      by (auto simp: svc_CancelOrder_def cancel_after_read_def split: sum.splits intro: returned_nothing)
  next
    case True
    then obtain r where r: "r1 = Inr r" "o_status r = Pending" by blast
    obtain w2 r2 where c: "on_db (Dao.CancelOrder ops now (ev_shards ev) no u reason) w1 = (w2, r2)"
      by fastforce
    note same = status_rows(3) [OF on_dbD [OF c]] and fr2 = on_frame(2) [OF c]
    show ?thesis
    proof (cases r2)
      case (Inl e)
      with on_dbD [OF c, unfolded Dao.CancelOrder_def] have "view (w_db w2) = view (w_db w1)"
        by (cases rule: update_answered) simp_all
      with assms q r c Inl v1 fr fr2 show ?thesis
        by (auto simp: svc_CancelOrder_def cancel_after_read_def intro: returned_nothing)
    next
      case (Inr x)
      then have "w' = give_back_all ev now u (o_product_id r) (o_quantity r) w2"
        using assms(1,2) q r c by (simp add: svc_CancelOrder_def cancel_after_read_def)
      with give_back_returned [OF assms(2) order_quantity [OF on_dbD [OF q [unfolded r(1)]] assms(3)]] same fr fr2 v1
      show ?thesis by simp
    qed
  qed
qed

lemma refund_returned:
  assumes "svc_Refund ev now no u reason w = (w', res)" "ev_db ev = ops" "tables_ok (view (w_db w))"
  shows "returned ev view w w'"
proof -
  obtain w1 r1 where q: "on_db (GetOrderByOrderNo ops (ev_shards ev) no u) w = (w1, r1)"
    by fastforce
  note fr = on_frame(2) [OF q] and v1 = get_order(1) [OF on_dbD [OF q]]
  show ?thesis
  proof (cases "\<exists>r. r1 = Inr r \<and> o_status r = Paid")
    case False
    then show ?thesis
      using assms q v1 fr by (auto simp: svc_Refund_def split: sum.splits intro: returned_nothing)
  next
    case True
    then obtain r where r: "r1 = Inr r" "o_status r = Paid" by blast
    obtain w2 r2 where c: "on_db (UpdateOrderStatusWithPayTime ops now (ev_shards ev) no u Refunded None) w1 = (w2, r2)"
      by fastforce
    note same = status_rows(1) [OF on_dbD [OF c]] and fr2 = on_frame(2) [OF c]
    show ?thesis
    proof (cases r2)
      case (Inl e)
      with on_dbD [OF c, unfolded UpdateOrderStatusWithPayTime_def] have "view (w_db w2) = view (w_db w1)"
        by (cases rule: update_answered) simp_all
      with assms q r c Inl v1 fr fr2 show ?thesis
        by (auto simp: svc_Refund_def intro: returned_nothing)
    next
      case (Inr x)
      then have "w' = give_back_all ev now u (o_product_id r) (o_quantity r) w2"
        using assms(1,2) q r c by (simp add: svc_Refund_def)
      with give_back_returned [OF assms(2) order_quantity [OF on_dbD [OF q [unfolded r(1)]] assms(3)]] same fr fr2 v1
      show ?thesis by simp
    qed
  qed
qed

lemma pay_returned:
  assumes "svc_PayCallback ev now no u payTime w = (w', res)" "ev_db ev = ops"
  shows "returned ev view w w'"
proof -
  obtain w1 r1 where q: "on_db (GetOrderByOrderNo ops (ev_shards ev) no u) w = (w1, r1)"
    by fastforce
  note fr = on_frame(2) [OF q] and v1 = get_order(1) [OF on_dbD [OF q]]
  obtain w2 r2 where c: "on_db (UpdateOrderStatusWithPayTime ops now (ev_shards ev) no u Paid (Some payTime)) w1 = (w2, r2)"
    by fastforce
  note same = status_rows(1) [OF on_dbD [OF c]] and fr2 = on_frame(2) [OF c]
  have "w' = w1 \<or> w' = w2"
    using assms q c by (auto simp: svc_PayCallback_def split: sum.splits if_splits)
  then show ?thesis
    using v1 same fr fr2 by (auto simp: returned_def)
qed

lemma timeout_returned:
  assumes "svc_ProcessTimeoutOrder ev now m w = (w', res)" "ev_db ev = ops" "tables_ok (view (w_db w))"
    "timeout_matches ev (view (w_db w)) m"
  shows "returned ev view w w'"
proof -
  obtain no uf pf qf where m: "get_string m ''order_no'' = Inr no" "get_float m ''user_id'' = Inr uf"
    "get_float m ''product_id'' = Inr pf" "get_float m ''quantity'' = Inr qf"
    using assms(4) by (auto simp: timeout_matches_def split: sum.splits)
  let ?u = "float_to_int uf" and ?p = "float_to_int pf" and ?q = "float_to_int qf"
  obtain w1 r1 where q: "on_db (GetOrderByOrderNo ops (ev_shards ev) no ?u) w = (w1, r1)"
    by fastforce
  note fr = on_frame(2) [OF q] and v1 = get_order(1) [OF on_dbD [OF q]]
  show ?thesis
  proof (cases "\<exists>r. r1 = Inr r \<and> o_status r = Pending")
    case False
    then show ?thesis
      using assms q v1 m fr by (auto simp: svc_ProcessTimeoutOrder_def Let_def split: sum.splits intro: returned_nothing)
  next
    case True
    then obtain r where r: "r1 = Inr r" "o_status r = Pending" by blast
    have qty: "0 < ?q"
      using order_quantity [OF on_dbD [OF q [unfolded r(1)]] assms(3)] get_order(2) [OF on_dbD [OF q] r(1)] assms(4) m v1
      by (auto simp: timeout_matches_def)
    obtain w2 r2 where c: "on_db (CancelOrderWithStatus ops now (ev_shards ev) no ?u ''payment timeout'' Timeout) w1 = (w2, r2)"
      by fastforce
    note same = status_rows(2) [OF on_dbD [OF c]] and fr2 = on_frame(2) [OF c]
    show ?thesis
    proof (cases r2)
      case (Inl e)
      with on_dbD [OF c, unfolded CancelOrderWithStatus_def] have "view (w_db w2) = view (w_db w1)"
        by (cases rule: update_answered) simp_all
      with assms q r c Inl m v1 fr fr2 show ?thesis
        by (auto simp: svc_ProcessTimeoutOrder_def Let_def intro: returned_nothing)
    next
      case (Inr x)
      obtain w3 r3 where b: "on_db (RollbackProductStock ops now ?p ?q) w2 = (w3, r3)"
        by fastforce
      note add = rollback_adds [OF on_dbD [OF b]] and fr3 = on_frame(2) [OF b]
      have w': "w_redis w' = w_redis (give_back_all ev now ?u ?p ?q w2)" "w_mq w' = w_mq w2"
        "w_db w' = w_db (give_back_all ev now ?u ?p ?q w2)"
        using assms(1,2) m q r c b Inr add(2) fr3
        by (auto simp: svc_ProcessTimeoutOrder_def give_back_all_def Let_def on_redis_def case_prod_beta)
      have "returned ev view w (give_back_all ev now ?u ?p ?q w2)"
        by (rule give_back_returned [OF assms(2) qty]) (use same fr fr2 v1 in simp_all)
      then show ?thesis
        unfolding returned_def using w' fr fr2 by (simp add: give_back_frame)
    qed
  qed
qed

text \<open>Creation: the row is new, and the stock of the product follows when there is enough of it.\<close>

lemma deduct_succeeds:
  assumes "DeductProductStock ops now p q d = (d', res)" "has_product (view d) p" "q \<le> remaining (view d) p" "q \<noteq> 0"
  shows "res = Inr ()"
proof -
  let ?P = "\<lambda>x. live_product p x \<and> q \<le> p_remain_stock x"
  obtain a where a: "on_product ops (deduct_stmt now p q) d = (d', a)"
    and res: "res = (case answer_affected a of Inl e \<Rightarrow> Inl e
         | Inr n \<Rightarrow> if n = 0 then Inl (Errf ''out of stock'') else Inr ())"
    using assms(1) by (auto simp: DeductProductStock_def split: prod.splits)
  have sel: "selected product_schema (\<lambda>x. p_id x = p \<and> q \<le> p_remain_stock x) = ?P"
    by (rule ext) (auto simp: selected_def product_schema_def live_product_def)
  have changed: "x\<lparr>p_remain_stock := p_remain_stock x - q, p_updated_at := now\<rparr> \<noteq> x" for x
  proof
    assume "x\<lparr>p_remain_stock := p_remain_stock x - q, p_updated_at := now\<rparr> = x"
    then have "p_remain_stock (x\<lparr>p_remain_stock := p_remain_stock x - q, p_updated_at := now\<rparr>) = p_remain_stock x"
      by (rule arg_cong)
    with assms(4) show False by simp
  qed
  have n: "a = Affected (int (length (filter ?P (t_rows (db_products (view d))))))"
    using product_answers [OF a] by (simp add: exec_product_def deduct_stmt_def sel changed)
  obtain x where x: "filter (live_product p) (t_rows (db_products (view d))) = [x]"
    using assms(2) by (auto simp: has_product_def length_Suc_conv)
  then have "x \<in> set (t_rows (db_products (view d)))" "live_product p x" "q \<le> p_remain_stock x"
    using assms(3) filter_eq_ConsD [OF x] by (auto simp: remaining_def)
  then have "filter ?P (t_rows (db_products (view d))) \<noteq> []"
    by (auto simp: filter_empty_conv)
  with n res show ?thesis by simp
qed

lemma create_effect:
  assumes "svc_CreateOrder ev now m w = (w', res)" "ev_db ev = ops" "parse_order_msg m = Inr x"
    "\<not> order_present ev (view (w_db w)) x" "GetOrderTableName (om_user_id x) (ev_shards ev) \<in> order_tables"
    "tables_ok (view (w_db w))" "0 < om_quantity x" "has_product (view (w_db w)) p"
  shows "tables_ok (view (w_db w'))" "has_product (view (w_db w')) p"
    "numbered (view (w_db w')) n no \<longleftrightarrow> numbered (view (w_db w)) n no \<or>
       n = GetOrderTableName (om_user_id x) (ev_shards ev) \<and> no = om_order_no x"
    "active (view (w_db w')) p = active (view (w_db w)) p + (if om_product_id x = p then om_quantity x else 0)"
    "om_product_id x = p \<Longrightarrow> om_quantity x \<le> remaining (view (w_db w)) p \<Longrightarrow>
       res = Inr () \<and> remaining (view (w_db w')) p = remaining (view (w_db w)) p - om_quantity x"
    "om_product_id x \<noteq> p \<Longrightarrow> remaining (view (w_db w')) p = remaining (view (w_db w)) p"
    "r \<in> set (rows_of (view (w_db w')) n) \<Longrightarrow> r \<in> set (rows_of (view (w_db w)) n) \<or>
       o_order_no r = om_order_no x \<and> o_product_id r = om_product_id x \<and> o_quantity r = om_quantity x"
proof -
  let ?t = "GetOrderTableName (om_user_id x) (ev_shards ev)"
  let ?row = "new_order now (order_of_msg x)" and ?T = "db_orders (view (w_db w)) (GetOrderTableName (om_user_id x) (ev_shards ev))"
  obtain w1 ex where q: "on_db (GetOrderByOrderNo ops (ev_shards ev) (om_order_no x) (om_user_id x)) w = (w1, ex)"
    by fastforce
  note v1 = get_order(1) [OF on_dbD [OF q]]
  have ex: "ex \<noteq> Inr r" for r
    using get_order(2) [OF on_dbD [OF q]] assms(4) by (auto simp: order_present_def)
  obtain w2 c where c: "on_db (Dao.CreateOrder ops now (ev_shards ev) (order_of_msg x)) w1 = (w2, c)"
    by fastforce
  obtain w3 r3 where d: "on_db (DeductProductStock ops now (om_product_id x) (om_quantity x)) w2 = (w3, r3)"
    by fastforce
  have ids: "o_id y < t_next ?T" if "y \<in> set (t_rows ?T)" for y
    using assms(6) that by (simp add: tables_ok_def rows_of_def)
  have fresh: "\<not> (\<exists>y \<in> set (t_rows ?T). o_id y = t_next ?T \<or> o_order_no y = om_order_no x)"
    using assms(4) by (auto simp: order_present_def dest: ids)
  obtain a where a: "on_order ops ?t (Create [?row]) (w_db w1) = (w_db w2, a)" and ca: "c = answer_unit a"
    using on_dbD [OF c] by (auto simp: Dao.CreateOrder_def order_of_msg_def split: prod.splits)
  have sel: "o_user_id (order_of_msg x) = om_user_id x" "o_id (order_of_msg x) = 0" "o_order_no (order_of_msg x) = om_order_no x"
    by (simp_all add: order_of_msg_def)
  have v2: "view (w_db w2) = (view (w_db w))\<lparr>db_orders := (db_orders (view (w_db w)))(?t :=
      \<lparr>t_rows = t_rows ?T @ [?row\<lparr>o_id := t_next ?T\<rparr>], t_next = t_next ?T + 1\<rparr>)\<rparr>" "c = Inr ()"
    using order_answers [OF a] exec_create_order [of "order_of_msg x" "ev_shards ev" now "view (w_db w)", unfolded sel] fresh assms(5) ca
    by (simp_all add: v1)
  have has2: "has_product (view (w_db w2)) p" "remaining (view (w_db w2)) p = remaining (view (w_db w)) p"
    using assms(8) v2(1) has_product_cong [of "view (w_db w2)" "view (w_db w)" p]
      remaining_cong [of "view (w_db w2)" "view (w_db w)" p] by simp_all
  have w': "w_db w' = w_db w3" "res = (case r3 of Inl e \<Rightarrow> Inl (Wrapf ''deduct mysql stock failed'' e) | Inr _ \<Rightarrow> Inr ())"
    using assms(1-3) q c d v2(2) ex by (auto simp: svc_CreateOrder_def split: sum.splits)
  note t = deduct_takes [OF on_dbD [OF d] has2(1), folded w'(1)]
  have q0: "om_quantity x \<noteq> 0" using assms(7) by simp
  show "has_product (view (w_db w')) p"
    by (rule t(1) [OF q0])
  have orders: "db_orders (view (w_db w')) = db_orders (view (w_db w2))"
    by (rule t(2) [OF q0])
  have row: "o_order_no ?row = om_order_no x" "o_quantity ?row = om_quantity x" "o_product_id ?row = om_product_id x"
    "o_status ?row = Pending"
    using q0 by (simp_all add: new_order_def order_of_msg_def or_default_def)
  show "tables_ok (view (w_db w'))"
    using assms(6,7) fresh row
    by (force simp: tables_ok_def orders_ok_def rows_of_def orders v2(1) image_iff)
  show "numbered (view (w_db w')) n no \<longleftrightarrow> numbered (view (w_db w)) n no \<or> n = ?t \<and> no = om_order_no x"
    using row by (auto simp: numbered_def rows_of_def orders v2(1))
  have "active (view (w_db w')) p = active (view (w_db w2)) p"
    by (rule active_cong [OF orders])
  also have "\<dots> = active (view (w_db w)) p + (if om_product_id x = p then om_quantity x else 0)"
    unfolding v2(1) by (subst active_update_table [OF assms(5)]) (simp add: holds_def row)
  finally show "active (view (w_db w')) p = active (view (w_db w)) p + (if om_product_id x = p then om_quantity x else 0)" .
  show "res = Inr () \<and> remaining (view (w_db w')) p = remaining (view (w_db w)) p - om_quantity x"
    if "om_product_id x = p" "om_quantity x \<le> remaining (view (w_db w)) p"
    using deduct_succeeds [OF on_dbD [OF d], unfolded that(1), OF has2(1) _ q0] that t(3) [OF q0] has2(2) w'(2) by simp
  show "remaining (view (w_db w')) p = remaining (view (w_db w)) p" if "om_product_id x \<noteq> p"
    using t(3,4) [OF q0] has2(2) that by (cases "r3 = Inr ()") simp_all
  show "r \<in> set (rows_of (view (w_db w)) n) \<or>
      o_order_no r = om_order_no x \<and> o_product_id r = om_product_id x \<and> o_quantity r = om_quantity x"
    if "r \<in> set (rows_of (view (w_db w')) n)"
    using that row by (auto simp: rows_of_def orders v2(1) split: if_splits)
qed

end

end
