(* ===== verification/Stock_In_Step.thy ===== *)
theory Stock_In_Step
  imports Order_Effects
begin

text \<open>
  The two stocks of a product, in Redis and in MySQL, over whole runs of the system: sales through
  the service, the order messages in the queue, their consumption in any order and any number of
  times, cancellations, timeouts, payments and refunds. Redis and MySQL answer; the queue may refuse
  messages, or write them and report an error. MySQL lags behind Redis by exactly the messages that
  are not yet orders.
\<close>

section \<open>Messages that are not yet orders\<close>

text \<open>The order messages among everything that was written to the exchanges.\<close>

definition order_entry :: "('r, 'd, 'q) env \<Rightarrow> string \<times> string \<times> body \<Rightarrow> order_msg option" where
  "order_entry ev e = (case e of (ex, key, bd) \<Rightarrow>
     if ex = rx_order (rb_exchange (ev_rabbit ev)) \<and> key = rq_order (rb_queue (ev_rabbit ev))
     then (case bd of JsonBody m \<Rightarrow> (case parse_order_msg m of Inl _ \<Rightarrow> None | Inr x \<Rightarrow> Some x) | OtherBody _ \<Rightarrow> None)
     else None)"

definition order_msgs :: "('r, 'd, 'q) env \<Rightarrow> (string \<times> string \<times> body) list \<Rightarrow> order_msg list" where
  "order_msgs ev es = List.map_filter (order_entry ev) es"

definition owed :: "('r, 'd, 'q) env \<Rightarrow> database \<Rightarrow> order_msg list \<Rightarrow> int \<Rightarrow> int" where
  "owed ev v xs p = sum_list (map om_quantity (filter (\<lambda>x. om_product_id x = p \<and> \<not> order_present ev v x) xs))"

lemma order_msgs_append [simp]: "order_msgs ev (xs @ ys) = order_msgs ev xs @ order_msgs ev ys"
  by (simp add: order_msgs_def map_filter_def)

lemma order_msgs_Nil [simp]: "order_msgs ev [] = []"
  by (simp add: order_msgs_def map_filter_def)

lemma order_msgs_one [simp]: "order_msgs ev [e] = (case order_entry ev e of None \<Rightarrow> [] | Some x \<Rightarrow> [x])"
  by (simp add: order_msgs_def map_filter_def split: option.split)

lemma owed_append [simp]: "owed ev v (xs @ ys) p = owed ev v xs p + owed ev v ys p"
  by (simp add: owed_def)

lemma owed_one [simp]:
  "owed ev v [x] p = (if om_product_id x = p \<and> \<not> order_present ev v x then om_quantity x else 0)"
  "owed ev v [] p = 0"
  by (simp_all add: owed_def)

lemma owed_cong:
  assumes "\<And>x. x \<in> set xs \<Longrightarrow> order_present ev v' x = order_present ev v x"
  shows "owed ev v' xs p = owed ev v xs p"
  unfolding owed_def using assms by (intro arg_cong [of _ _ sum_list] arg_cong [of _ _ "map om_quantity"] filter_cong) auto

lemma owed_nonneg: "\<forall>x \<in> set xs. 0 < om_quantity x \<Longrightarrow> 0 \<le> owed ev v xs p"
  unfolding owed_def by (rule sum_list_nonneg) auto

lemma owed_member:
  assumes "\<forall>x \<in> set xs. 0 < om_quantity x" "x \<in> set xs" "om_product_id x = p" "\<not> order_present ev v x"
  shows "om_quantity x \<le> owed ev v xs p"
proof -
  obtain ys zs where xs: "xs = ys @ [x] @ zs"
    using split_list [OF assms(2)] by auto
  then have "0 \<le> owed ev v ys p" "0 \<le> owed ev v zs p"
    using assms(1) by (auto intro!: owed_nonneg)
  with assms(3,4) show ?thesis
    unfolding xs owed_append by simp
qed

lemma owed_created:
  assumes "distinct (map om_order_no xs)" "x \<in> set xs" "\<not> order_present ev v x"
    "\<And>y. y \<in> set xs \<Longrightarrow> order_present ev v' y \<longleftrightarrow> order_present ev v y \<or> om_order_no y = om_order_no x"
  shows "owed ev v' xs p = owed ev v xs p - (if om_product_id x = p then om_quantity x else 0)"
proof -
  obtain ys zs where xs: "xs = ys @ [x] @ zs"
    using split_list [OF assms(2)] by auto
  have other: "om_order_no y \<noteq> om_order_no x" if "y \<in> set ys \<or> y \<in> set zs" for y
    using assms(1) that unfolding xs by (force simp: image_iff)
  have rest: "owed ev v' us p = owed ev v us p" if sub: "set us \<subseteq> set ys \<union> set zs" for us
  proof (rule owed_cong)
    fix y assume "y \<in> set us"
    with sub have y: "y \<in> set ys \<or> y \<in> set zs" by auto
    then have "y \<in> set xs" unfolding xs by auto
    with assms(4) [OF this] other [OF y] show "order_present ev v' y = order_present ev v y" by simp
  qed
  have "owed ev v' ys p = owed ev v ys p" "owed ev v' zs p = owed ev v zs p"
    by (rule rest, simp)+
  with assms(3) assms(4) [OF assms(2)] show ?thesis
    unfolding xs owed_append by simp
qed

section \<open>Tickets\<close>

text \<open>
  What an order message and the delay message of its order say alike: number, user, product, quantity. All
  tickets with one number agree, and an order that exists agrees with its tickets.
\<close>

type_synonym ticket = "string \<times> int \<times> int \<times> int"

definition ticket :: "msg \<Rightarrow> ticket option" where
  "ticket m = (case (get_string m ''order_no'', get_float m ''user_id'', get_float m ''product_id'', get_float m ''quantity'') of
     (Inr no, Inr u, Inr p, Inr q) \<Rightarrow> Some (no, float_to_int u, float_to_int p, float_to_int q) | _ \<Rightarrow> None)"

definition tickets :: "(string \<times> string \<times> body) list \<Rightarrow> ticket set" where
  "tickets es = {t. \<exists>ex key m. (ex, key, JsonBody m) \<in> set es \<and> ticket m = Some t}"

definition tickets_ok :: "('r, 'd, 'q) env \<Rightarrow> database \<Rightarrow> ticket set \<Rightarrow> bool" where
  "tickets_ok ev v T \<longleftrightarrow> (\<forall>s \<in> T. \<forall>t \<in> T. fst s = fst t \<longrightarrow> s = t) \<and>
     (\<forall>(no, u, p, q) \<in> T. \<forall>r \<in> set (rows_of v (GetOrderTableName u (ev_shards ev))).
        o_order_no r = no \<longrightarrow> o_product_id r = p \<and> o_quantity r = q)"

lemma tickets_okD:
  assumes "tickets_ok ev v T" "(no, u, p, q) \<in> T" "r \<in> set (rows_of v (GetOrderTableName u (ev_shards ev)))" "o_order_no r = no"
  shows "o_product_id r = p \<and> o_quantity r = q"
  using assms by (auto simp: tickets_ok_def)

lemma parsed_ticket:
  "parse_order_msg m = Inr x \<Longrightarrow> ticket m = Some (om_order_no x, om_user_id x, om_product_id x, om_quantity x)"
  by (auto simp: parse_order_msg_def ticket_def split: sum.splits)

lemma tickets_append: "tickets (xs @ ys) = tickets xs \<union> tickets ys"
  by (auto simp: tickets_def)

lemma tickets_Nil [simp]: "tickets [] = {}"
  by (simp add: tickets_def)

lemma ticket_matches:
  assumes "tickets_ok ev v (tickets es)" "(ex, key, JsonBody m) \<in> set es" "ticket m = Some t"
  shows "timeout_matches ev v m"
proof -
  have "t \<in> tickets es"
    using assms(2,3) by (auto simp: tickets_def)
  moreover obtain no u p q where "get_string m ''order_no'' = Inr no" "get_float m ''user_id'' = Inr u"
    "get_float m ''product_id'' = Inr p" "get_float m ''quantity'' = Inr q"
    "t = (no, float_to_int u, float_to_int p, float_to_int q)"
    using assms(3) by (auto simp: ticket_def split: sum.splits)
  ultimately show ?thesis
    using tickets_okD [OF assms(1)] by (auto simp: timeout_matches_def rows_of_def)
qed

lemma order_msg_ticket:
  assumes "x \<in> set (order_msgs ev es)"
  shows "(om_order_no x, om_user_id x, om_product_id x, om_quantity x) \<in> tickets es"
proof -
  obtain e where e: "e \<in> set es" "order_entry ev e = Some x"
    using assms by (auto simp: order_msgs_def map_filter_def)
  then obtain ex key m where "e = (ex, key, JsonBody m)" "parse_order_msg m = Inr x"
    by (auto simp: order_entry_def split: prod.splits if_splits body.splits sum.splits)
  with e(1) parsed_ticket show ?thesis
    unfolding tickets_def by blast
qed

lemma tickets_ok_same_rows:
  assumes "tickets_ok ev v T" "same_rows v v'"
  shows "tickets_ok ev v' T"
proof -
  have "o_product_id r = p \<and> o_quantity r = q"
    if t: "(no, u, p, q) \<in> T" and r: "r \<in> set (rows_of v' (GetOrderTableName u (ev_shards ev)))" "o_order_no r = no" for no u p q r
  proof -
    obtain r0 where "r0 \<in> set (rows_of v (GetOrderTableName u (ev_shards ev)))" "row_core r0 = row_core r"
      by (rule same_rows_set [OF assms(2) r(1)])
    with tickets_okD [OF assms(1) t] r(2) show ?thesis
      by (auto simp: row_core_def)
  qed
  with assms(1) show ?thesis
    by (auto simp: tickets_ok_def)
qed

lemma tickets_ok_row:
  assumes "tickets_ok ev v T" "\<And>t. t \<in> T \<Longrightarrow> fst t = no \<Longrightarrow> snd (snd t) = (p, q)"
    "\<And>n r. r \<in> set (rows_of v' n) \<Longrightarrow> r \<in> set (rows_of v n) \<or> o_order_no r = no \<and> o_product_id r = p \<and> o_quantity r = q"
  shows "tickets_ok ev v' T"
proof -
  have "o_product_id r = p' \<and> o_quantity r = q'"
    if t: "(no', u, p', q') \<in> T" and r: "r \<in> set (rows_of v' (GetOrderTableName u (ev_shards ev)))" "o_order_no r = no'"
    for no' u p' q' r
    using assms(3) [OF r(1)]
  proof (elim disjE conjE)
    assume "r \<in> set (rows_of v (GetOrderTableName u (ev_shards ev)))"
    from tickets_okD [OF assms(1) t this r(2)] show ?thesis .
  next
    assume "o_order_no r = no" "o_product_id r = p" "o_quantity r = q"
    with assms(2) [OF t] r(2) show ?thesis by simp
  qed
  with assms(1) show ?thesis
    by (auto simp: tickets_ok_def)
qed

lemma tickets_ok_new:
  assumes "tickets_ok ev v T" "T' \<subseteq> insert t T" "fst t \<notin> fst ` T" "\<And>n. \<not> numbered v n (fst t)"
  shows "tickets_ok ev v T'"
proof -
  have same: "s = t'" if "s \<in> T" "t' \<in> T" "fst s = fst t'" for s t'
    using assms(1) that unfolding tickets_ok_def by blast
  have new: "fst s \<noteq> fst t" if "s \<in> T" for s
    using assms(3) imageI [OF that, of fst] by metis
  have "s = t'" if "s \<in> T'" "t' \<in> T'" "fst s = fst t'" for s t'
  proof -
    have "s = t \<or> s \<in> T" "t' = t \<or> t' \<in> T"
      using that(1,2) assms(2) by auto
    then show ?thesis
      using same [OF _ _ that(3)] new [of s] new [of t'] that(3) by (elim disjE) simp_all
  qed
  moreover have "o_product_id r = p \<and> o_quantity r = q"
    if "(no, u, p, q) \<in> T'" "r \<in> set (rows_of v (GetOrderTableName u (ev_shards ev)))" "o_order_no r = no" for no u p q r
  proof -
    have "(no, u, p, q) \<noteq> t"
      using that(3) imageI [OF that(2), of o_order_no] assms(4) [of "GetOrderTableName u (ev_shards ev)"]
      by (auto simp: numbered_def)
    with that(1) assms(2) have "(no, u, p, q) \<in> T" by auto
    from tickets_okD [OF assms(1) this that(2,3)] show ?thesis .
  qed
  ultimately show ?thesis
    by (auto simp: tickets_ok_def)
qed

section \<open>Two stocks in step\<close>

text \<open>
  The state of a sale of product \<open>p\<close>: the tables are well formed, the numbers of the order messages are
  distinct, and MySQL still has what Redis has and what the messages without an order will take. \<open>n\<close> is
  the stock of the product with the units of its pending and paid orders.
\<close>

definition in_step ::
  "('r, 'd, 'q) env \<Rightarrow> ('r \<Rightarrow> keyspace) \<Rightarrow> ('d \<Rightarrow> database) \<Rightarrow> ('q \<Rightarrow> (string \<times> string \<times> body) list) \<Rightarrow> int \<Rightarrow> int
     \<Rightarrow> ('r, 'd, 'q) world \<Rightarrow> bool" where
  "in_step ev kv view sent p n w \<longleftrightarrow>
     (let v = view (w_db w); xs = order_msgs ev (mq_sent sent (w_mq w)) in
      tables_ok v \<and> has_product v p \<and> distinct (map om_order_no xs) \<and>
      (\<forall>x \<in> set xs. 0 < om_quantity x \<and> GetOrderTableName (om_user_id x) (ev_shards ev) \<in> order_tables) \<and>
      tickets_ok ev v (tickets (mq_sent sent (w_mq w))) \<and> remaining v p + active v p = n \<and>
      (\<exists>st. stock_is (kv (w_redis w)) p st \<and> remaining v p = st + owed ev v xs p))"

lemma active_nonneg: "tables_ok v \<Longrightarrow> 0 \<le> active v p"
  unfolding active_def by (intro sum_nonneg sum_list_nonneg) (auto simp: holds_def tables_ok_def rows_of_def dest: less_imp_le)

lemma returned_in_step:
  assumes "reliable_redis (ev_call ev) kv" "returned ev view w w'" "balanced p (view (w_db w)) (view (w_db w'))"
    "in_step ev kv view sent p n w" "n \<le> max_int64"
  shows "in_step ev kv view sent p n w'"
proof -
  let ?v = "view (w_db w)" and ?v' = "view (w_db w')" and ?xs = "order_msgs ev (mq_sent sent (w_mq w))"
  have mq: "w_mq w' = w_mq w" and rows: "same_rows ?v ?v'"
    using assms(2) by (simp_all add: returned_def)
  obtain st where st: "stock_is (kv (w_redis w)) p st" "remaining ?v p = st + owed ev ?v ?xs p"
    and good: "tables_ok ?v" "has_product ?v p" "distinct (map om_order_no ?xs)"
      "\<forall>x \<in> set ?xs. 0 < om_quantity x \<and> GetOrderTableName (om_user_id x) (ev_shards ev) \<in> order_tables"
      "remaining ?v p + active ?v p = n" "tickets_ok ev ?v (tickets (mq_sent sent (w_mq w)))"
    using assms(4) by (auto simp: in_step_def Let_def)
  have owed: "owed ev ?v' ?xs p = owed ev ?v ?xs p"
    by (rule owed_cong) (simp add: order_present_numbered same_rows_numbered [OF rows])
  have ok': "tables_ok ?v'" "has_product ?v' p" "remaining ?v' p + active ?v' p = n"
    using same_rows_ok [OF rows good(1)] assms(3) good(5) by (simp_all add: balanced_def balance_def)
  have "\<exists>st'. stock_is (kv (w_redis w')) p st' \<and> remaining ?v' p = st' + owed ev ?v ?xs p"
    using assms(2) unfolding returned_def
  proof (elim conjE disjE exE)
    assume "w_redis w' = w_redis w" "db_products ?v' = db_products ?v"
    with st remaining_cong [of ?v' ?v p] show ?thesis by auto
  next
    fix u p' q now
    assume a: "0 < q" "w_redis w' = w_redis (undo_purchase ev (return_args u p' q) w)"
      "db_products ?v' = db_products (add_stock now p' q ?v)"
    have rem: "remaining ?v' p = remaining ?v p + (if p = p' then q else 0)"
      using remaining_add [OF good(2), of now p' q] remaining_cong [OF a(3), of p] by simp
    have "in_int64 (st + q)" if "p' = p"
      using rem that st stock_is_nonneg [OF st(1)] owed_nonneg [of ?xs ev ?v p] good(4) ok'(3) active_nonneg [OF ok'(1), of p]
        assms(5) a(1) by (auto simp: in_int64_def max_int64_def)
    with reliable_redis.undo_stock [OF assms(1) refl st(1), of "return_args u p' q"] a rem st(2) show ?thesis
      by (intro exI [of _ "st + (if p' = p then q else 0)"]) auto
  qed
  with ok' good owed mq tickets_ok_same_rows [OF good(6) rows] show ?thesis
    by (auto simp: in_step_def Let_def)
qed

section \<open>The steps of a sale\<close>

lemma CreateOrder_mq: "svc_CreateOrder ev now m w = (w', r) \<Longrightarrow> w_mq w' = w_mq w"
  by (auto simp: svc_CreateOrder_def on_db_def split: sum.splits prod.splits)

context reliable_db
begin

lemma present_creates:
  assumes "svc_CreateOrder ev now m w = (w', res)" "ev_db ev = ops" "parse_order_msg m = Inr x"
    "order_present ev (view (w_db w)) x" "GetOrderTableName (om_user_id x) (ev_shards ev) \<in> order_tables"
  shows "res = Inr ()" "view (w_db w') = view (w_db w)"
proof -
  obtain w1 ex where q: "on_db (GetOrderByOrderNo ops (ev_shards ev) (om_order_no x) (om_user_id x)) w = (w1, ex)"
    by fastforce
  obtain r where "ex = Inr r"
    using get_present [OF _ _ assms(5) on_dbD [OF q]] assms(4) by (auto simp: order_present_def)
  then show "res = Inr ()" "view (w_db w') = view (w_db w)"
    using assms(1-3) q get_order(1) [OF on_dbD [OF q]] by (simp_all add: svc_CreateOrder_def)
qed

end

text \<open>The consumption of a message on the order queue, for the first time or again.\<close>

lemma order_entry_msgs:
  assumes "(rx_order (rb_exchange (ev_rabbit ev)), rq_order (rb_queue (ev_rabbit ev)), JsonBody m) \<in> set es"
    "parse_order_msg m = Inr x"
  shows "x \<in> set (order_msgs ev es)"
proof -
  have "order_entry ev (rx_order (rb_exchange (ev_rabbit ev)), rq_order (rb_queue (ev_rabbit ev)), JsonBody m) = Some x"
    by (simp add: order_entry_def assms(2))
  with assms(1) show ?thesis
    unfolding order_msgs_def map_filter_def by force
qed

lemma consumed_in_step:
  assumes "reliable_db (ev_db ev) view" "in_step ev kv view sent p n w"
    "(rx_order (rb_exchange (ev_rabbit ev)), rq_order (rb_queue (ev_rabbit ev)), JsonBody m) \<in> set (mq_sent sent (w_mq w))"
    "svc_CreateOrder ev now m w = (w', res)"
  shows "in_step ev kv view sent p n w'"
    "parse_order_msg m = Inr x \<Longrightarrow> om_product_id x = p \<Longrightarrow> res = Inr ()"
proof -
  let ?v = "view (w_db w)" and ?v' = "view (w_db w')" and ?xs = "order_msgs ev (mq_sent sent (w_mq w))"
  note re = CreateOrder_frame [OF assms(4)] and mq = CreateOrder_mq [OF assms(4)]
  obtain st where st: "stock_is (kv (w_redis w)) p st" "remaining ?v p = st + owed ev ?v ?xs p"
    and good: "tables_ok ?v" "has_product ?v p" "distinct (map om_order_no ?xs)"
      "\<forall>x \<in> set ?xs. 0 < om_quantity x \<and> GetOrderTableName (om_user_id x) (ev_shards ev) \<in> order_tables"
      "remaining ?v p + active ?v p = n" "tickets_ok ev ?v (tickets (mq_sent sent (w_mq w)))"
    using assms(2) by (auto simp: in_step_def Let_def)
  have "in_step ev kv view sent p n w' \<and> (\<forall>x. parse_order_msg m = Inr x \<longrightarrow> om_product_id x = p \<longrightarrow> res = Inr ())"
  proof (cases "parse_order_msg m")
    case (Inl e)
    with assms(2,4) show ?thesis by (simp add: svc_CreateOrder_def)
  next
    case x: (Inr x)
    have mem: "x \<in> set ?xs"
      by (rule order_entry_msgs [OF assms(3) x])
    with good(4) have pos: "0 < om_quantity x" and tab: "GetOrderTableName (om_user_id x) (ev_shards ev) \<in> order_tables"
      by simp_all
    show ?thesis
    proof (cases "order_present ev ?v x")
      case True
      note same = reliable_db.present_creates [OF assms(1,4) refl x True tab]
      with assms(2) re mq x show ?thesis by (simp add: in_step_def)
    next
      case False
      note eff = reliable_db.create_effect [OF assms(1,4) refl x False tab good(1) pos good(2)]
      have pres: "order_present ev ?v' y \<longleftrightarrow> order_present ev ?v y \<or> om_order_no y = om_order_no x" if "y \<in> set ?xs" for y
      proof -
        have "y = x" if "om_order_no y = om_order_no x"
          using good(3) \<open>y \<in> set ?xs\<close> mem that by (auto simp: distinct_map inj_on_def)
        then show ?thesis
          by (auto simp: order_present_numbered eff(3))
      qed
      have owed: "owed ev ?v' ?xs p = owed ev ?v ?xs p - (if om_product_id x = p then om_quantity x else 0)"
        by (rule owed_created [OF good(3) mem False pres])
      have enough: "om_quantity x \<le> remaining ?v p" if "om_product_id x = p"
        using owed_member [OF _ mem that False] good(4) stock_is_nonneg [OF st(1)] st(2) by auto
      have rem: "remaining ?v' p = remaining ?v p - (if om_product_id x = p then om_quantity x else 0)"
        using eff(5,6) enough by simp
      have "remaining ?v' p + active ?v' p = n" "remaining ?v' p = st + owed ev ?v' ?xs p"
        using rem eff(4) owed st(2) good(5) by simp_all
      moreover have "tickets_ok ev ?v' (tickets (mq_sent sent (w_mq w)))"
      proof (rule tickets_ok_row [OF good(6) _ eff(7)])
        fix t assume "t \<in> tickets (mq_sent sent (w_mq w))" "fst t = om_order_no x"
        with good(6) order_msg_ticket [OF mem] show "snd (snd t) = (om_product_id x, om_quantity x)"
          by (force simp: tickets_ok_def)
      qed
      ultimately have "in_step ev kv view sent p n w'"
        using st(1) good(3,4) eff(1,2) by (auto simp: in_step_def Let_def re mq)
      moreover have "res = Inr ()" if "om_product_id x = p"
        using eff(5) [OF that enough [OF that]] by simp
      ultimately show ?thesis using x by simp
    qed
  qed
  then show "in_step ev kv view sent p n w'"
    "parse_order_msg m = Inr x \<Longrightarrow> om_product_id x = p \<Longrightarrow> res = Inr ()" by simp_all
qed

text \<open>A call of the service, up to the publication of its message.\<close>

lemma submit_stock:
  "(sh', (a, b, c)) = submit seen u p' q lmt sh \<Longrightarrow> sh_stock sh p = Some st \<Longrightarrow>
    sh_stock sh' p = Some (st - (if p' = p \<and> c = 1 then q else 0))"
  by (auto simp: submit_def buy_def Let_def split: if_splits option.splits)

context reliable_redis
begin

lemma purchase_stock:
  assumes "DecrStockAndIncrPurchaseWithIdempotent call u p' q lmt x k s = (s', Inr (a, b, c))"
    "stock_is (kv s) p st" "0 < q" "in_int64 lmt"
  shows "stock_is (kv s') p (st - (if p' = p \<and> c = 1 then q else 0))" "c \<in> {1, -1, -2, -3, -4}"
proof -
  have ok: "shop_ok (\<lambda>_. max_int64) (kv s)" and pe: "persistent (kv s) (stock_key p)" and st: "int_at (kv s) (stock_key p) = Some st"
    using assms(2) by (simp_all add: stock_is_def)
  let ?f = "purchase_idem_lua (stock_key p') (user_key u p')
    (if k \<noteq> [] then idem_key u p' k else []) q (Seconds x) lmt 5"
  obtain r where r: "call s (EVAL ?f) = (s', r)"
    using assms(1) by (auto simp: client_op_defs Let_def split: prod.splits)
  have "?f (kv s) = (kv s', r)"
    using answers [OF r] by simp
  from purchase_idem_stock [OF ok assms(3,4) st pe this] have pe': "persistent (kv s') (stock_key p)" by simp
  have before: "sh_stock (shop_view (kv s)) p = Some st"
    using st by (simp add: shop_view_def)
  have "in_int64 lmt \<Longrightarrow> lmt \<le> max_int64" by (rule in_int64_max)
  note bought = purchase_answered [OF assms(1) ok assms(3,4) this [OF assms(4)]]
  have "sh_stock (shop_view (kv s')) p = Some (st - (if p' = p \<and> c = 1 then q else 0))"
    by (rule submit_stock [OF bought(1) before])
  with pe' bought(2) show "stock_is (kv s') p (st - (if p' = p \<and> c = 1 then q else 0))"
    by (simp add: stock_is_def shop_view_def)
  show "c \<in> {1, -1, -2, -3, -4}"
    by (rule purchase_code [OF assms(1) ok assms(3,4)])
qed

end

context db_server
begin

lemma GetProductByID_reads: "GetProductByID ops p d = (d', r) \<Longrightarrow> view d' = view d"
  by (auto simp: GetProductByID_def exec_product_def db_outcome_def dest!: product_stmt split: prod.splits)

lemma GetSKUByID_reads: "GetSKUByID ops k d = (d', r) \<Longrightarrow> view d' = view d"
  by (auto simp: GetSKUByID_def exec_sku_def db_outcome_def dest!: sku_stmt split: prod.splits)

lemma seckill_product_reads:
  assumes "seckill_product ev now p w = (w', r)" "ev_db ev = ops"
  shows "view (w_db w') = view (w_db w)" "w_mq w' = w_mq w"
  using assms(1) [unfolded seckill_product_def assms(2)]
  by (auto simp: on_redis_def on_db_def Let_def dest!: GetProductByID_reads split: prod.splits sum.splits)

lemma seckill_admit_reads:
  assumes "seckill_admit ev spec now a info w = (w', r)" "ev_db ev = ops"
  shows "view (w_db w') = view (w_db w)" "w_mq w' = w_mq w"
  using assms(1) [unfolded seckill_admit_def seckill_sku_def assms(2)]
  by (auto simp: on_db_def Let_def dest!: GetSKUByID_reads split: prod.splits sum.splits if_splits)

end

lemma notes_keep [simp]:
  "w_db (trackBehavior ev a act r st lt w) = w_db w" "w_mq (trackBehavior ev a act r st lt w) = w_mq w"
  "w_db (seckill_failed p r w) = w_db w" "w_mq (seckill_failed p r w) = w_mq w"
  "w_db (raise_alarm n m w) = w_db w" "w_mq (raise_alarm n m w) = w_mq w"
  "w_db (seckill_succeeded a info w) = w_db w" "w_mq (seckill_succeeded a info w) = w_mq w"
  by (simp_all add: trackBehavior_def seckill_failed_def raise_alarm_def seckill_succeeded_def)

lemma undo_purchase_keeps [simp]: "w_db (undo_purchase ev a w) = w_db w" "w_mq (undo_purchase ev a w) = w_mq w"
  by (simp_all add: undo_purchase_def on_redis_def Let_def case_prod_beta)

lemma buy_outcome:
  assumes "reliable_redis (ev_call ev) kv" "in_int64 (pi_limit_per_user info)" "0 < sa_quantity a"
    "stock_is (kv (w_redis w)) p st" "in_int64 st"
    "seckill_buy ev gen now later a info g w = (g', w', res)"
    "res \<noteq> Inl GoPanic" "res \<noteq> Inl (NewSeckillError ErrRedisDown [] 503)"
  obtains (refused) e where "res = Inl e" "stock_is (kv (w_redis w')) p st" "w_db w' = w_db w" "w_mq w' = w_mq w"
  | (bought) no w1 g1 where "gen g = (g1, Inr no)" "seckill_publish ev now later a info no w1 = (w', res)"
      "stock_is (kv (w_redis w1)) p (st - (if sa_product a = p then sa_quantity a else 0))"
      "w_db w1 = w_db w" "w_mq w1 = w_mq w"
proof -
  let ?q = "if sa_product a = p then sa_quantity a else 0"
  obtain w1 r1 where c: "on_redis (DecrStockAndIncrPurchaseWithIdempotent (ev_call ev) (sa_user a) (sa_product a)
      (sa_quantity a) (pi_limit_per_user info) (pi_end_time info - now) (sa_idem a)) w = (w1, r1)"
    by fastforce
  note fr = on_frame(1) [OF c]
  obtain x y z where r1: "r1 = Inr (x, y, z)"
    using assms(6-8) c by (cases r1) (auto simp: seckill_buy_def Let_def split: if_splits)
  note stock = reliable_redis.purchase_stock [OF assms(1) on_redisD [OF c, unfolded r1] assms(4,3,2)]
  show thesis
  proof (cases "z = 1")
    case False
    then have "stock_is (kv (w_redis w1)) p st" "z \<in> {-1, -2, -3, -4}"
      using stock by simp_all
    moreover have "\<exists>e. res = Inl e" "w_redis w' = w_redis w1" "w_db w' = w_db w1" "w_mq w' = w_mq w1"
      using assms(6) c r1 calculation(2) by (auto simp: seckill_buy_def Let_def split: if_splits)
    ultimately show thesis
      using refused fr by auto
  next
    case True
    with stock(1) have st1: "stock_is (kv (w_redis w1)) p (st - ?q)" by simp
    obtain g1 no where g: "gen g = (g1, no)" by fastforce
    show thesis
    proof (cases no)
      case (Inl e)
      have w': "w' = seckill_failed (sa_product a) ''order_no_error'' (undo_purchase ev a w1)" "\<exists>e. res = Inl e"
        using assms(6) c r1 True g Inl by (auto simp: seckill_buy_def)
      have "stock_is (kv (w_redis (undo_purchase ev a w1))) p (st - ?q + ?q)"
        by (rule reliable_redis.undo_stock [OF assms(1) refl st1 assms(3)]) (use assms(5) in simp)
      with w' show thesis
        using refused fr by auto
    next
      case (Inr no')
      then have "seckill_publish ev now later a info no' w1 = (w', res)"
        using assms(6) c r1 True g by (simp add: seckill_buy_def)
      with bought g Inr st1 fr show thesis by simp
    qed
  qed
qed

text \<open>What the publication writes: the order message, once at most, and a delay message, which is no order message.\<close>

definition sold_order :: "seckill_args \<Rightarrow> product_info \<Rightarrow> string \<Rightarrow> order_msg" where
  "sold_order a info no = \<lparr>om_order_no = no, om_user_id = sa_user a, om_product_id = sa_product a, om_product_name = pi_name info,
     om_seckill_price = pi_seckill_price info, om_quantity = sa_quantity a,
     om_total_amount = pi_seckill_price info * of_int (sa_quantity a)\<rparr>"

lemma sold_order_sel [simp]:
  "om_order_no (sold_order a info no) = no" "om_user_id (sold_order a info no) = sa_user a"
  "om_product_id (sold_order a info no) = sa_product a" "om_quantity (sold_order a info no) = sa_quantity a"
  by (simp_all add: sold_order_def)

lemma parse_bodies:
  "parse_order_msg (queued_body a info now no) = Inr (sold_order a info no)"
  "parse_order_msg (order_body a info no) = Inr (sold_order a info no)"
  "\<exists>e. parse_order_msg (delay_body a no) = Inl e"
  "ticket (delay_body a no) = Some (no, sa_user a, sa_product a, sa_quantity a)"
  by (simp_all add: ticket_def parse_order_msg_def queued_body_def order_body_def delay_body_def get_string_def get_float_def sold_order_def)

lemma delay_no_order: "order_entry ev (ex, key, JsonBody (delay_body a no)) = None"
  using parse_bodies(3) [of a no] by (auto simp: order_entry_def)

lemma delay_adds_nothing:
  assumes "amqp_broker am sent" "PublishDelay am ex key (JsonBody (delay_body a no)) s = (s', r)"
  shows "order_msgs ev (mq_sent sent s') = order_msgs ev (mq_sent sent s)"
    "tickets (mq_sent sent s') \<subseteq> insert (no, sa_user a, sa_product a, sa_quantity a) (tickets (mq_sent sent s))"
proof -
  obtain ex' key' where "publish_on_pool am ex' key' (JsonBody (delay_body a no)) s = (s', r)"
    using assms(2) by (auto simp: PublishDelay_def Let_def)
  note sent = amqp_broker.publish_on_pool_sent(2) [OF assms(1) this]
  show "order_msgs ev (mq_sent sent s') = order_msgs ev (mq_sent sent s)"
    using sent by (auto simp: delay_no_order)
  show "tickets (mq_sent sent s') \<subseteq> insert (no, sa_user a, sa_product a, sa_quantity a) (tickets (mq_sent sent s))"
    using sent by (auto simp: tickets_append) (auto simp: tickets_def parse_bodies(4))
qed

lemma order_published:
  assumes "amqp_broker (ev_amqp ev) sent"
    "PublishOrder (ev_amqp ev) (rx_order (rb_exchange (ev_rabbit ev))) (rq_order (rb_queue (ev_rabbit ev)))
       (JsonBody (queued_body a info now no)) s = (s', r)"
  shows "r = Inr () \<Longrightarrow> order_msgs ev (mq_sent sent s') = order_msgs ev (mq_sent sent s) @ [sold_order a info no]"
    "order_msgs ev (mq_sent sent s') \<in> {order_msgs ev (mq_sent sent s), order_msgs ev (mq_sent sent s) @ [sold_order a info no]}"
    "tickets (mq_sent sent s') \<subseteq> insert (no, sa_user a, sa_product a, sa_quantity a) (tickets (mq_sent sent s))"
proof -
  have e: "order_entry ev (rx_order (rb_exchange (ev_rabbit ev)), rq_order (rb_queue (ev_rabbit ev)),
      JsonBody (queued_body a info now no)) = Some (sold_order a info no)"
    by (simp add: order_entry_def parse_bodies)
  note sent = amqp_broker.PublishOrder_sent [OF assms]
  show "r = Inr () \<Longrightarrow> order_msgs ev (mq_sent sent s') = order_msgs ev (mq_sent sent s) @ [sold_order a info no]"
    using sent(1) e by simp
  show "order_msgs ev (mq_sent sent s') \<in> {order_msgs ev (mq_sent sent s), order_msgs ev (mq_sent sent s) @ [sold_order a info no]}"
    using sent(2) e by auto
  show "tickets (mq_sent sent s') \<subseteq> insert (no, sa_user a, sa_product a, sa_quantity a) (tickets (mq_sent sent s))"
    using sent(2) parsed_ticket [OF parse_bodies(1), of a info now no]
    by (auto simp: tickets_append) (auto simp: tickets_def)
qed

text \<open>An order number that no row and no message has.\<close>

definition unused :: "database \<Rightarrow> (string \<times> string \<times> body) list \<Rightarrow> string \<Rightarrow> bool" where
  "unused v es no \<longleftrightarrow> (\<forall>n. \<not> numbered v n no) \<and> no \<notin> fst ` tickets es"

lemma unused_msgs: "unused v es no \<Longrightarrow> no \<notin> om_order_no ` set (order_msgs ev es)"
  by (force simp: unused_def dest: order_msg_ticket)

lemma publish_in_step:
  fixes ev :: "('r, 'd, 'q) env"
  defines "units p a \<equiv> (if sa_product a = p then sa_quantity a else 0)"
  assumes "reliable_redis (ev_call ev) kv" "reliable_db (ev_db ev) view" "amqp_broker (ev_amqp ev) sent"
    "tables_ok (view (w_db w))" "has_product (view (w_db w)) p"
    "distinct (map om_order_no (order_msgs ev (mq_sent sent (w_mq w))))"
    "\<forall>x \<in> set (order_msgs ev (mq_sent sent (w_mq w))). 0 < om_quantity x \<and>
       GetOrderTableName (om_user_id x) (ev_shards ev) \<in> order_tables"
    "remaining (view (w_db w)) p + active (view (w_db w)) p = n" "stock_is (kv (w_redis w)) p st"
    "remaining (view (w_db w)) p = st + units p a + owed ev (view (w_db w)) (order_msgs ev (mq_sent sent (w_mq w))) p"
    "unused (view (w_db w)) (mq_sent sent (w_mq w)) no" "0 < sa_quantity a"
    "GetOrderTableName (sa_user a) (ev_shards ev) \<in> order_tables"
    "seckill_publish ev now later a info no w = (w', res)" "res \<noteq> Inl GoPanic"
    "tickets_ok ev (view (w_db w)) (tickets (mq_sent sent (w_mq w)))"
  shows "in_step ev kv view sent p n w'"
proof -
  let ?v = "view (w_db w)" and ?xs = "order_msgs ev (mq_sent sent (w_mq w))" and ?x = "sold_order a info no"
  let ?ex = "rx_order (rb_exchange (ev_rabbit ev))" and ?qu = "rb_queue (ev_rabbit ev)"
  have new: "\<not> order_present ev ?v ?x" "no \<notin> om_order_no ` set ?xs"
    using assms(12) unused_msgs [OF assms(12)] by (simp_all add: unused_def order_present_numbered)
  let ?T = "tickets (mq_sent sent (w_mq w))" and ?t = "(no, sa_user a, sa_product a, sa_quantity a)"
  have tk: "tickets_ok ev ?v T" if "T \<subseteq> insert ?t ?T" for T
    by (rule tickets_ok_new [OF assms(17) that]) (use assms(12) in \<open>simp_all add: unused_def\<close>)
  obtain w1 r1 where p: "on_mq (PublishOrder (ev_amqp ev) ?ex (rq_order ?qu) (JsonBody (queued_body a info now no))) w = (w1, r1)"
    by fastforce
  note fr = on_frame(3) [OF p] and msgs = order_published [OF assms(4) on_mqD [OF p]]
  show ?thesis
  proof (cases r1)
    case (Inr u)
    obtain w2 r2 where d: "on_mq (PublishDelay (ev_amqp ev) ?ex (rq_delay ?qu) (JsonBody (delay_body a no))) w1 = (w2, r2)"
      by fastforce
    have w': "w_db w' = w_db w" "w_redis w' = w_redis w" "w_mq w' = w_mq w2"
      using assms(15) p d Inr fr on_frame(3) [OF d] by (auto simp: seckill_publish_def json_Marshal_def Let_def)
    have xs': "order_msgs ev (mq_sent sent (w_mq w')) = ?xs @ [?x]"
      using msgs(1) Inr delay_adds_nothing(1) [where ev = ev, OF assms(4) on_mqD [OF d]] w'(3) by simp
    have "tickets_ok ev ?v (tickets (mq_sent sent (w_mq w')))"
      by (rule tk) (use msgs(3) delay_adds_nothing(2) [OF assms(4) on_mqD [OF d]] w'(3) in auto)
    then show ?thesis
      using assms(5-11,13,14) new unfolding in_step_def xs' w'(1,2) units_def by (auto simp: Let_def)
  next
    case (Inl e)
    obtain w2 r2 where c: "svc_CreateOrder ev now (order_body a info no) w1 = (w2, r2)"
      by fastforce
    have run: "seckill_fallback ev now later a info no w1 = (w', res)"
      using assms(15,16) p Inl by (auto simp: seckill_publish_def json_Marshal_def Let_def split: if_splits)
    have v1: "w_db w1 = w_db w" "w_redis w1 = w_redis w" using fr by simp_all
    note c' = CreateOrder_frame [OF c] CreateOrder_mq [OF c]
    note eff = reliable_db.create_effect [OF assms(3) c refl parse_bodies(2), unfolded v1 sold_order_sel,
        OF new(1) assms(14,5,13,6)]
    have w': "w_db w' = w_db w2" "w_mq w' = w_mq w1" "r2 = Inr () \<Longrightarrow> w_redis w' = w_redis w"
      "r2 \<noteq> Inr () \<Longrightarrow> w_redis w' = w_redis (undo_purchase ev a w)"
      using run c c' v1 undo_purchase_cong [of w2 w ev a]
      by (auto simp: seckill_fallback_def Let_def split: sum.splits)
    have "0 \<le> owed ev ?v ?xs p"
      using assms(8) by (auto intro: owed_nonneg)
    then have "units p a \<le> remaining ?v p"
      using assms(11) stock_is_nonneg [OF assms(10)] by simp
    then have taken: "remaining (view (w_db w')) p = remaining ?v p - units p a" "sa_product a = p \<Longrightarrow> r2 = Inr ()"
      using eff(5,6) w'(1) by (simp_all add: units_def split: if_splits)
    have stock: "stock_is (kv (w_redis w')) p st"
    proof (cases "r2 = Inr ()")
      case True
      with w'(3) assms(10) show ?thesis by simp
    next
      case False
      with taken(2) have other: "sa_product a \<noteq> p" by blast
      with reliable_redis.undo_stock [OF assms(2) refl assms(10,13)] w'(4) [OF False] show ?thesis by simp
    qed
    have present: "order_present ev (view (w_db w')) y \<longleftrightarrow> order_present ev ?v y" if "y \<in> set ?xs" for y
      using that new(2) unfolding order_present_numbered w'(1) eff(3) by (auto simp: image_iff)
    have "order_present ev (view (w_db w')) ?x"
      unfolding order_present_numbered w'(1) eff(3) by simp
    then have owed: "owed ev (view (w_db w')) xs p = owed ev ?v ?xs p" if "xs \<in> {?xs, ?xs @ [?x]}" for xs
      using that owed_cong [of ?xs ev "view (w_db w')" ?v p, OF present] by auto
    have xs': "order_msgs ev (mq_sent sent (w_mq w')) \<in> {?xs, ?xs @ [?x]}"
      using msgs(2) w'(2) by simp
    then have "distinct (map om_order_no (order_msgs ev (mq_sent sent (w_mq w'))))"
      "\<forall>x \<in> set (order_msgs ev (mq_sent sent (w_mq w'))). 0 < om_quantity x \<and>
         GetOrderTableName (om_user_id x) (ev_shards ev) \<in> order_tables"
      using assms(7,8,13,14) new(2) by auto
    moreover have "remaining (view (w_db w')) p + active (view (w_db w')) p = n"
      using taken(1) eff(4) w'(1) assms(9) by (simp add: units_def)
    moreover have "remaining (view (w_db w')) p = st + owed ev (view (w_db w')) (order_msgs ev (mq_sent sent (w_mq w'))) p"
      using taken(1) assms(11) owed [OF xs'] by simp
    moreover have "tickets_ok ev (view (w_db w')) (tickets (mq_sent sent (w_mq w')))"
    proof -
      have T: "tickets (mq_sent sent (w_mq w')) \<subseteq> insert ?t ?T"
        using msgs(3) w'(2) by simp
      have "snd (snd t) = (sa_product a, sa_quantity a)"
        if t: "t \<in> tickets (mq_sent sent (w_mq w'))" "fst t = no" for t
      proof -
        have "t \<notin> ?T"
          using assms(12) t(2) imageI [of t ?T fst] by (auto simp: unused_def)
        with t(1) T have "t = ?t" by auto
        then show ?thesis by simp
      qed
      from tickets_ok_row [OF tk [OF T] this eff(7)] show ?thesis
        using w'(1) by simp
    qed
    ultimately show ?thesis
      using eff(1,2) w'(1) stock by (auto simp: in_step_def Let_def)
  qed
qed

lemma sale_in_step:
  assumes "reliable_redis (ev_call ev) kv" "reliable_db (ev_db ev) view" "amqp_broker (ev_amqp ev) sent"
    "in_step ev kv view sent p n w" "n \<le> max_int64" "limits_ok (view (w_db w))" "0 < sa_quantity a"
    "GetOrderTableName (sa_user a) (ev_shards ev) \<in> order_tables"
    "\<And>g1 no. gen g = (g1, Inr no) \<Longrightarrow> unused (view (w_db w)) (mq_sent sent (w_mq w)) no"
    "svc_ExecuteSeckill ev spec gen now later a g w = (g', w', res)"
    "res \<noteq> Inl GoPanic" "res \<noteq> Inl (NewSeckillError ErrRedisDown [] 503)"
  shows "in_step ev kv view sent p n w'"
proof -
  note rs = reliable_redis.axioms(1) [OF assms(1)] and db = reliable_db.axioms(1) [OF assms(2)]
  let ?v = "view (w_db w)" and ?xs = "order_msgs ev (mq_sent sent (w_mq w))"
  obtain st where st: "stock_is (kv (w_redis w)) p st" "remaining ?v p = st + owed ev ?v ?xs p"
    and good: "tables_ok ?v" "has_product ?v p" "distinct (map om_order_no ?xs)"
      "\<forall>x \<in> set ?xs. 0 < om_quantity x \<and> GetOrderTableName (om_user_id x) (ev_shards ev) \<in> order_tables"
      "remaining ?v p + active ?v p = n" "tickets_ok ev ?v (tickets (mq_sent sent (w_mq w)))"
    using assms(4) by (auto simp: in_step_def Let_def)
  have unchanged: "in_step ev kv view sent p n w2"
    if "stock_is (kv (w_redis w2)) p st" "view (w_db w2) = ?v" "w_mq w2 = w_mq w" for w2
    using that good st(2) by (auto simp: in_step_def Let_def)
  obtain w1 r1 where prod: "seckill_product ev now (sa_product a) w = (w1, r1)" by fastforce
  note facts = seckill_product_facts [OF rs db assms(6) prod] and read1 = db_server.seckill_product_reads [OF db prod refl]
  have st1: "stock_is (kv (w_redis w1)) p st"
    by (rule stock_is_same_shop [OF st(1) facts(1)])
  show ?thesis
  proof (cases r1)
    case (Inl e)
    with assms(10) prod have "w' = w1" by (simp add: svc_ExecuteSeckill_def)
    with st1 read1 show ?thesis by (simp add: unchanged)
  next
    case info: (Inr info)
    obtain w2 r2 where adm: "seckill_admit ev spec now a info w1 = (w2, r2)" by fastforce
    note re2 = seckill_admit_redis [OF adm] and read2 = db_server.seckill_admit_reads [OF db adm refl]
    show ?thesis
    proof (cases r2)
      case (Inl e)
      with assms(10) prod info adm have "w' = w2" by (simp add: svc_ExecuteSeckill_def)
      with st1 re2 read1 read2 show ?thesis by (simp add: unchanged)
    next
      case (Inr info1)
      have lim: "in_int64 (pi_limit_per_user info1)"
        using seckill_admit_limit [OF adm [unfolded Inr] facts(2) [OF info]] .
      have buy: "seckill_buy ev gen now later a info1 g w2 = (g', w', res)"
        using assms(10) prod info adm Inr by (simp add: svc_ExecuteSeckill_def)
      have st2: "stock_is (kv (w_redis w2)) p st" using st1 re2 by simp
      have "in_int64 st"
        using st1 shop_ok_int64(1) [of "\<lambda>_. max_int64" "kv (w_redis w1)" p] by (simp add: stock_is_def int_at_count)
      from assms(1) lim assms(7) st2 this buy assms(11,12) show ?thesis
      proof (cases rule: buy_outcome)
        case (refused e)
        with read1 read2 show ?thesis by (simp add: unchanged)
      next
        case (bought no w3 g1)
        note same = bought(4,5) read1 read2
        show ?thesis
          by (rule publish_in_step [OF assms(1-3) _ _ _ _ _ bought(3) _ _ assms(7,8) bought(2) assms(11)])
            (use same good st(2) assms(9) [OF bought(1)] in simp_all)
      qed
    qed
  qed
qed

section \<open>Runs\<close>

text \<open>
  One step of the running system. A sale gets an order number that was not used before (the generators of
  \<open>Snowflake\<close>), and is not one that stops in the middle: the process does not panic, and the answer does
  not blame Redis. A timeout is a message that was written before. \<open>elsewhere\<close> is any
  work that touches neither orders and products nor stocks, counters and order messages.
\<close>

inductive sale_step ::
  "('r, 'd, 'q) env \<Rightarrow> ('r \<Rightarrow> keyspace) \<Rightarrow> ('d \<Rightarrow> database) \<Rightarrow> ('q \<Rightarrow> (string \<times> string \<times> body) list)
     \<Rightarrow> (string \<Rightarrow> (string \<times> string) list option) \<Rightarrow> ('g \<Rightarrow> 'g \<times> string result)
     \<Rightarrow> ('r, 'd, 'q) world \<Rightarrow> ('r, 'd, 'q) world \<Rightarrow> bool"
  for ev kv view sent spec gen where
  sale: "svc_ExecuteSeckill ev spec gen now later a g w = (g', w', res) \<Longrightarrow> 0 < sa_quantity a \<Longrightarrow>
    GetOrderTableName (sa_user a) (ev_shards ev) \<in> order_tables \<Longrightarrow> limits_ok (view (w_db w)) \<Longrightarrow>
    (\<And>g1 no. gen g = (g1, Inr no) \<Longrightarrow> unused (view (w_db w)) (mq_sent sent (w_mq w)) no) \<Longrightarrow>
    res \<noteq> Inl GoPanic \<Longrightarrow> res \<noteq> Inl (NewSeckillError ErrRedisDown [] 503) \<Longrightarrow>
    sale_step ev kv view sent spec gen w w'"
| consume: "(rx_order (rb_exchange (ev_rabbit ev)), rq_order (rb_queue (ev_rabbit ev)), JsonBody m) \<in> set (mq_sent sent (w_mq w)) \<Longrightarrow>
    svc_CreateOrder ev now m w = (w', answer) \<Longrightarrow> sale_step ev kv view sent spec gen w w'"
| cancel: "svc_CancelOrder ev now no u reason w = (w', answer) \<Longrightarrow> sale_step ev kv view sent spec gen w w'"
| timeout: "svc_ProcessTimeoutOrder ev now m w = (w', answer) \<Longrightarrow> (ex, key, JsonBody m) \<in> set (mq_sent sent (w_mq w)) \<Longrightarrow>
    sale_step ev kv view sent spec gen w w'"
| pay: "svc_PayCallback ev now no u payTime w = (w', answer) \<Longrightarrow> sale_step ev kv view sent spec gen w w'"
| refund: "svc_Refund ev now no u reason w = (w', answer) \<Longrightarrow> sale_step ev kv view sent spec gen w w'"
| elsewhere: "db_orders (view (w_db w')) = db_orders (view (w_db w)) \<Longrightarrow> db_products (view (w_db w')) = db_products (view (w_db w)) \<Longrightarrow>
    mq_sent sent (w_mq w') = mq_sent sent (w_mq w) \<Longrightarrow>
    same_shop (kv (w_redis w)) (kv (w_redis w')) \<Longrightarrow> sale_step ev kv view sent spec gen w w'"
| wait: "kv (w_redis w') = tick d (kv (w_redis w)) \<Longrightarrow> 0 \<le> d \<Longrightarrow> w_db w' = w_db w \<Longrightarrow> w_mq w' = w_mq w \<Longrightarrow>
    sale_step ev kv view sent spec gen w w'"

lemma sale_step_in_step:
  assumes "sale_step ev kv view sent spec gen w w'" "reliable_redis (ev_call ev) kv" "reliable_db (ev_db ev) view"
    "amqp_broker (ev_amqp ev) sent" "in_step ev kv view sent p n w" "n \<le> max_int64"
  shows "in_step ev kv view sent p n w'"
proof -
  have ok: "tables_ok (view (w_db w))" "orders_ok (view (w_db w))" "has_product (view (w_db w)) p"
    using assms(5) by (auto simp: in_step_def tables_ok_def Let_def)
  note keeps = returned_in_step [OF assms(2) _ _ assms(5,6)]
  from assms(1) show ?thesis
  proof cases
    case (sale now later a g g' res)
    from sale_in_step [OF assms(2-6) sale(4,2,3,5) sale(1,6,7)] show ?thesis by simp
  next
    case (consume m now created)
    from consumed_in_step(1) [OF assms(3,5) consume] show ?thesis .
  next
    case (cancel now no u reason d)
    show ?thesis
      by (rule keeps [OF reliable_db.cancel_returned [OF assms(3) cancel refl ok(1)]
            reliable_db.cancel_balanced [OF assms(3) cancel refl ok(2,3)]])
  next
    case (timeout now m d ex key)
    show ?thesis
    proof (cases "ticket m")
      case None
      with timeout(1) have "w' = w"
        by (auto simp: svc_ProcessTimeoutOrder_def ticket_def split: sum.splits)
      with assms(5) show ?thesis by simp
    next
      case (Some t)
      then have match: "timeout_matches ev (view (w_db w)) m"
        using timeout(2) assms(5) ticket_matches [of ev "view (w_db w)" "mq_sent sent (w_mq w)"]
        by (auto simp: in_step_def Let_def)
      show ?thesis
        by (rule keeps [OF reliable_db.timeout_returned [OF assms(3) timeout(1) refl ok(1) match]
              reliable_db.timeout_balanced [OF assms(3) timeout(1) refl ok(2,3) match]])
    qed
  next
    case (pay now no u payTime d)
    show ?thesis
      by (rule keeps [OF reliable_db.pay_returned [OF assms(3) pay refl]
            reliable_db.pay_balanced [OF assms(3) pay refl ok(2,3)]])
  next
    case (refund now no u reason d)
    show ?thesis
      by (rule keeps [OF reliable_db.refund_returned [OF assms(3) refund refl ok(1)]
            reliable_db.refund_balanced [OF assms(3) refund refl ok(2,3)]])
  next
    case elsewhere
    have pres: "order_present ev (view (w_db w')) x = order_present ev (view (w_db w)) x" for x
      by (simp add: order_present_def elsewhere(1))
    have "tables_ok (view (w_db w'))"
      by (rule same_rows_ok [OF same_rows_refl [OF elsewhere(1)] ok(1)])
    with assms(5) show ?thesis
      by (auto simp: in_step_def Let_def elsewhere(3) owed_cong [OF pres] has_product_cong [OF elsewhere(2)]
          remaining_cong [OF elsewhere(2)] active_cong [OF elsewhere(1)] intro: stock_is_same_shop [OF _ elsewhere(4)]
          tickets_ok_same_rows [OF _ same_rows_refl [OF elsewhere(1)]])
  next
    case (wait d)
    with assms(5) show ?thesis
      by (auto simp: in_step_def Let_def intro: stock_is_tick)
  qed
qed

lemma sale_steps_in_step:
  assumes "(sale_step ev kv view sent spec gen)\<^sup>*\<^sup>* w w'" "reliable_redis (ev_call ev) kv" "reliable_db (ev_db ev) view"
    "amqp_broker (ev_amqp ev) sent" "in_step ev kv view sent p n w" "n \<le> max_int64"
  shows "in_step ev kv view sent p n w'"
  using assms(1,5) by induction (auto intro: sale_step_in_step [OF _ assms(2-4) _ assms(6)])

section \<open>Properties\<close>

text \<open>
  C5. The two stocks stay in step. While Redis and MySQL answer, and whatever the queue does with the
  messages, any sequence of sales (with fresh order numbers, and none cut off by a panic or answered as a
  failure of Redis), consumptions and repeated consumptions of queued messages,
  cancellations, timeouts, payments, refunds, other work and waiting keeps the Redis stock of a product
  at its MySQL stock less the units of the queued messages that are no orders yet, and the three
  together with the units of the pending and paid orders at what the sale opened with.
\<close>

theorem stocks_agree:
  assumes "reliable_redis (ev_call ev) kv" "reliable_db (ev_db ev) view" "amqp_broker (ev_amqp ev) sent"
    "(sale_step ev kv view sent spec gen)\<^sup>*\<^sup>* w w'" "in_step ev kv view sent p n w" "n \<le> max_int64"
  shows "\<exists>st. int_at (kv (w_redis w')) (stock_key p) = Some st \<and> 0 \<le> st \<and>
    remaining (view (w_db w')) p = st + owed ev (view (w_db w')) (order_msgs ev (mq_sent sent (w_mq w'))) p \<and>
    st + owed ev (view (w_db w')) (order_msgs ev (mq_sent sent (w_mq w'))) p + active (view (w_db w')) p = n"
proof -
  have "in_step ev kv view sent p n w'"
    by (rule sale_steps_in_step [OF assms(4,1-3,5,6)])
  then obtain st where "stock_is (kv (w_redis w')) p st"
    "remaining (view (w_db w')) p = st + owed ev (view (w_db w')) (order_msgs ev (mq_sent sent (w_mq w'))) p"
    "remaining (view (w_db w')) p + active (view (w_db w')) p = n"
    by (auto simp: in_step_def Let_def)
  with stock_is_nonneg [of "kv (w_redis w')" p st] show ?thesis
    by (intro exI [of _ st]) (simp add: stock_is_def)
qed

text \<open>
  C6. A queued order never finds the MySQL stock empty: in such a run the consumption of any order message
  on the queue, at any time, succeeds, and then its user's table has a row with its order number, and
  this row has the product and the quantity of the message.
\<close>

theorem queued_order_created:
  assumes "reliable_redis (ev_call ev) kv" "reliable_db (ev_db ev) view" "amqp_broker (ev_amqp ev) sent"
    "(sale_step ev kv view sent spec gen)\<^sup>*\<^sup>* w w1" "in_step ev kv view sent p n w" "n \<le> max_int64"
    "(rx_order (rb_exchange (ev_rabbit ev)), rq_order (rb_queue (ev_rabbit ev)), JsonBody m) \<in> set (mq_sent sent (w_mq w1))"
    "parse_order_msg m = Inr x" "om_product_id x = p" "svc_CreateOrder ev now m w1 = (w2, res)"
  shows "res = Inr () \<and> order_present ev (view (w_db w2)) x \<and>
    (\<exists>r \<in> set (rows_of (view (w_db w2)) (GetOrderTableName (om_user_id x) (ev_shards ev))).
       o_order_no r = om_order_no x \<and> o_product_id r = p \<and> o_quantity r = om_quantity x)"
proof -
  have "in_step ev kv view sent p n w1"
    by (rule sale_steps_in_step [OF assms(4,1-3,5,6)])
  from consumed_in_step(2) [OF assms(2) this assms(7,10,8,9)] consumed_in_step(1) [OF assms(2) this assms(7,10)]
  have res: "res = Inr ()" and after: "in_step ev kv view sent p n w2" .
  have present: "order_present ev (view (w_db w2)) x"
    using db_server.created_present [OF reliable_db.axioms(1) [OF assms(2)] _ refl assms(8)] assms(10) res by simp
  then obtain r where r: "r \<in> set (rows_of (view (w_db w2)) (GetOrderTableName (om_user_id x) (ev_shards ev)))"
    "o_order_no r = om_order_no x"
    by (auto simp: order_present_def rows_of_def)
  have "(om_order_no x, om_user_id x, om_product_id x, om_quantity x) \<in> tickets (mq_sent sent (w_mq w2))"
    unfolding CreateOrder_mq [OF assms(10)] by (rule order_msg_ticket [OF order_entry_msgs [OF assms(7,8)]])
  with after r have "o_product_id r = om_product_id x \<and> o_quantity r = om_quantity x"
    by (auto simp: in_step_def Let_def dest: tickets_okD)
  with res present r assms(9) show ?thesis by blast
qed

section \<open>A run\<close>

lemma plain_mq: "ev_amqp plain_env = demo_amqp" "ev_rabbit plain_env = ev_rabbit demo_env" "w_mq plain_world = demo_mq_state []"
  by (simp_all add: plain_env_def plain_world_def)

lemma plain_empty_queue: "mq_sent bk_sent (w_mq plain_world) = []"
  by (simp add: mq_sent_def plain_mq demo_mq_state_def fresh_broker_def)

lemma plain_in_step: "in_step plain_env id id bk_sent 1 10 plain_world"
proof -
  have "stock_is (fs_ks demo_redis) 1 10"
    using demo_redis_sale demo_redis_at by (simp add: stock_is_def)
  moreover have "tables_ok demo_db" "has_product demo_db 1" "remaining demo_db 1 = 10" "active demo_db 1 = 0"
    by (simp_all add: tables_ok_def rows_of_def orders_ok_def demo_db_def empty_table_def has_product_def live_product_def
        demo_product_def remaining_def active_def)
  ultimately show ?thesis
    by (simp add: in_step_def Let_def plain_empty_queue tickets_ok_def)
qed

lemma plain_sale:
  "\<exists>w'. svc_ExecuteSeckill plain_env (\<lambda>_. None) demo_gen 1000 1001 demo_args 0 plain_world
      = (1, w', Inr (queued_response ''A1'')) \<and> w_db w' = demo_db \<and>
    (sale_exchange, rq_order sale_queues, JsonBody sale_message) \<in> set (mq_sent bk_sent (w_mq w'))"
proof -
  obtain s' where s': "DecrStockAndIncrPurchaseWithIdempotent plain_call 7 1 2 3 89000 ''k'' (fs_ks demo_cached) = (s', Inr (8, 2, 1))"
    using plain_purchase by blast
  have info: "pi_limit_per_user demo_sale_info = 3" "pi_end_time demo_sale_info = 90000"
    by (simp_all add: demo_sale_info_def info_of_product_def demo_product_def)
  have adm: "seckill_admit plain_env spec 1000 demo_args demo_sale_info w = (w, Inr demo_sale_info)" for spec w
    by (simp add: seckill_admit_def seckill_sku_def demo_sale_info_def info_of_product_def demo_product_def Let_def)
  obtain q1 where q1: "PublishOrder demo_amqp sale_exchange (rq_order sale_queues) (JsonBody sale_message) (demo_mq_state [])
      = (q1, Inr ())"
    using demo_publish by blast
  obtain q2 r2 where q2: "PublishDelay demo_amqp sale_exchange (rq_delay sale_queues) (JsonBody (delay_body demo_args ''A1'')) q1
      = (q2, r2)"
    by (rule prod.exhaust)
  have "(sale_exchange, rq_order sale_queues, JsonBody sale_message) \<in> set (mq_sent bk_sent q2)"
    using demo_mq.PublishOrder_sent(1) [OF q1] demo_mq.PublishDelay_sent [OF q2 sale_config(1,2)] by auto
  then show ?thesis
    using s' q1 q2 by (simp add: svc_ExecuteSeckill_def plain_product adm seckill_buy_def on_redis_def info
        demo_gen_def seckill_publish_def json_Marshal_def on_mq_def plain_mq Let_def trackBehavior_def seckill_succeeded_def
        flip: sale_message_def)
qed

lemma sale_message_order: "parse_order_msg sale_message = Inr (sold_order demo_args demo_sale_info ''A1'')"
  by (simp add: sale_message_def parse_bodies)

lemma plain_run:
  "\<exists>w1 w2. svc_ExecuteSeckill plain_env (\<lambda>_. None) demo_gen 1000 1001 demo_args 0 plain_world
      = (1, w1, Inr (queued_response ''A1'')) \<and>
    sale_step plain_env id id bk_sent (\<lambda>_. None) demo_gen plain_world w1 \<and>
    (sale_exchange, rq_order sale_queues, JsonBody sale_message) \<in> set (mq_sent bk_sent (w_mq w1)) \<and>
    svc_CreateOrder plain_env 5 sale_message w1 = (w2, Inr ()) \<and>
    sale_step plain_env id id bk_sent (\<lambda>_. None) demo_gen w1 w2 \<and> active (w_db w2) 1 = 2"
proof -
  obtain w1 where w1: "svc_ExecuteSeckill plain_env (\<lambda>_. None) demo_gen 1000 1001 demo_args 0 plain_world
      = (1, w1, Inr (queued_response ''A1''))" "w_db w1 = demo_db"
    "(sale_exchange, rq_order sale_queues, JsonBody sale_message) \<in> set (mq_sent bk_sent (w_mq w1))"
    using plain_sale by blast
  have "unused (w_db plain_world) (mq_sent bk_sent (w_mq plain_world)) no" for no
    by (simp add: unused_def plain_empty_queue numbered_def rows_of_def demo_db_def empty_table_def)
  then have s1: "sale_step plain_env id id bk_sent (\<lambda>_. None) demo_gen plain_world w1"
    by (intro sale_step.sale [OF w1(1)])
      (simp_all add: plain_env_def limits_ok_def demo_db_def demo_product_def in_int64_def)
  obtain w2 res where w2: "svc_CreateOrder plain_env 5 sale_message w1 = (w2, res)" by fastforce
  have s2: "sale_step plain_env id id bk_sent (\<lambda>_. None) demo_gen w1 w2"
    by (rule sale_step.consume [OF _ w2]) (use w1(3) in \<open>simp add: plain_mq\<close>)
  have empty: "\<not> order_present plain_env (id (w_db w1)) (sold_order demo_args demo_sale_info ''A1'')"
    "tables_ok (id (w_db w1))" "has_product (id (w_db w1)) 1" "remaining (id (w_db w1)) 1 = 10" "active (id (w_db w1)) 1 = 0"
    using w1(2) by (simp_all add: order_present_def tables_ok_def rows_of_def orders_ok_def demo_db_def empty_table_def has_product_def
        live_product_def demo_product_def remaining_def active_def)
  have shards: "ev_shards plain_env = 16" by (simp add: plain_env_def)
  have tab: "GetOrderTableName (om_user_id (sold_order demo_args demo_sale_info ''A1'')) (ev_shards plain_env) \<in> order_tables"
    by (simp add: shards)
  have rdb: "reliable_db (ev_db plain_env) id"
    using plain_mysql.reliable_db_axioms by simp
  note eff = reliable_db.create_effect [OF rdb w2 refl sale_message_order empty(1) tab empty(2) _ empty(3)]
  have "active (w_db w2) 1 = 2" "res = Inr ()"
    using eff(4,5) empty by simp_all
  with w1 s1 w2 s2 show ?thesis by blast
qed

theorem stocks_agree_witness:
  "\<exists>w1 w2 st. svc_ExecuteSeckill plain_env (\<lambda>_. None) demo_gen 1000 1001 demo_args 0 plain_world
      = (1, w1, Inr (queued_response ''A1'')) \<and>
    svc_CreateOrder plain_env 5 sale_message w1 = (w2, Inr ()) \<and>
    int_at (w_redis w2) (stock_key 1) = Some st \<and>
    remaining (w_db w2) 1 = st + owed plain_env (w_db w2) (order_msgs plain_env (mq_sent bk_sent (w_mq w2))) 1 \<and>
    remaining (w_db w2) 1 = 8"
proof -
  obtain w1 w2 where w: "svc_ExecuteSeckill plain_env (\<lambda>_. None) demo_gen 1000 1001 demo_args 0 plain_world
      = (1, w1, Inr (queued_response ''A1''))" "svc_CreateOrder plain_env 5 sale_message w1 = (w2, Inr ())"
    and steps: "sale_step plain_env id id bk_sent (\<lambda>_. None) demo_gen plain_world w1"
      "sale_step plain_env id id bk_sent (\<lambda>_. None) demo_gen w1 w2" and act: "active (w_db w2) 1 = 2"
    using plain_run by blast
  have "(sale_step plain_env id id bk_sent (\<lambda>_. None) demo_gen)\<^sup>*\<^sup>* plain_world w2"
    using steps by (meson rtranclp.rtrancl_into_rtrancl rtranclp.rtrancl_refl)
  from stocks_agree [OF _ _ _ this plain_in_step] plain_redis.reliable_redis_axioms plain_mysql.reliable_db_axioms
    demo_mq.amqp_broker_axioms plain_mq(1) act
  obtain st where "int_at (w_redis w2) (stock_key 1) = Some st"
    "remaining (w_db w2) 1 = st + owed plain_env (w_db w2) (order_msgs plain_env (mq_sent bk_sent (w_mq w2))) 1"
    "st + owed plain_env (w_db w2) (order_msgs plain_env (mq_sent bk_sent (w_mq w2))) 1 + 2 = 10"
    by (auto simp: max_int64_def)
  with w show ?thesis by auto
qed

theorem queued_order_created_witness:
  "\<exists>w1 w2 x. svc_ExecuteSeckill plain_env (\<lambda>_. None) demo_gen 1000 1001 demo_args 0 plain_world
      = (1, w1, Inr (queued_response ''A1'')) \<and>
    svc_CreateOrder plain_env 5 sale_message w1 = (w2, Inr ()) \<and> om_order_no x = ''A1'' \<and> om_user_id x = 7 \<and>
    order_present plain_env (w_db w2) x \<and> (\<exists>r \<in> set (rows_of (w_db w2) (GetOrderTableName 7 (ev_shards plain_env))). o_quantity r = 2)"
proof -
  obtain w1 w2 where w: "svc_ExecuteSeckill plain_env (\<lambda>_. None) demo_gen 1000 1001 demo_args 0 plain_world
      = (1, w1, Inr (queued_response ''A1''))" "svc_CreateOrder plain_env 5 sale_message w1 = (w2, Inr ())"
    "(sale_exchange, rq_order sale_queues, JsonBody sale_message) \<in> set (mq_sent bk_sent (w_mq w1))"
    and step: "sale_step plain_env id id bk_sent (\<lambda>_. None) demo_gen plain_world w1"
    using plain_run by blast
  have "(sale_step plain_env id id bk_sent (\<lambda>_. None) demo_gen)\<^sup>*\<^sup>* plain_world w1"
    by (rule r_into_rtranclp [of "sale_step plain_env id id bk_sent (\<lambda>_. None) demo_gen", OF step])
  from queued_order_created [OF _ _ _ this plain_in_step _ _ sale_message_order _ w(2)] plain_redis.reliable_redis_axioms
    plain_mysql.reliable_db_axioms demo_mq.amqp_broker_axioms plain_mq(1,2) w(3)
  have "order_present plain_env (w_db w2) (sold_order demo_args demo_sale_info ''A1'')"
    "\<exists>r \<in> set (rows_of (w_db w2) (GetOrderTableName 7 (ev_shards plain_env))). o_quantity r = 2"
    by (auto simp: max_int64_def demo_args_def)
  with w(1,2) show ?thesis
    by (intro exI [of _ w1] exI [of _ w2] exI [of _ "sold_order demo_args demo_sale_info ''A1''"]) simp
qed

end
