(* ===== verification/Accepted_Orders.thy ===== *)
theory Accepted_Orders
  imports Stock_In_Step
begin

text \<open>
  An accepted request ends as the order it asked for: from the answer of the service, over the
  message in the queue or the synchronous creation, to the row that the consumer writes. The row is
  the one of this request, since no other order has its number; two buyers with one number are the
  case of \<open>Start_Up\<close>.
\<close>

section \<open>The publication of an accepted request\<close>

lemma order_number_at: "number_kept ev v x = number_kept ev v' x" if "db_orders v = db_orders v'"
  by (simp add: number_kept_def that)

lemma accepted_published:
  assumes "db_server (ev_db ev) view" "svc_ExecuteSeckill ev spec gen now later a g w = (g', w', Inr resp)"
  obtains info no w1 where "seckill_publish ev now later a info no w1 = (w', Inr resp)"
    "view (w_db w1) = view (w_db w)" "w_mq w1 = w_mq w"
proof -
  obtain w1 info0 where p: "seckill_product ev now (sa_product a) w = (w1, Inr info0)"
    using assms(2) by (auto simp: svc_ExecuteSeckill_def split: prod.splits sum.splits)
  obtain w2 info where adm: "seckill_admit ev spec now a info0 w1 = (w2, Inr info)"
    using assms(2) p by (auto simp: svc_ExecuteSeckill_def split: prod.splits sum.splits)
  have buy: "seckill_buy ev gen now later a info g w2 = (g', w', Inr resp)"
    using assms(2) p adm by (simp add: svc_ExecuteSeckill_def)
  obtain w3 r3 where c: "on_redis (DecrStockAndIncrPurchaseWithIdempotent (ev_call ev) (sa_user a) (sa_product a)
      (sa_quantity a) (pi_limit_per_user info) (pi_end_time info - now) (sa_idem a)) w2 = (w3, r3)"
    by fastforce
  note fr = on_frame(1) [OF c] and reads = db_server.seckill_product_reads [OF assms(1) p refl]
    db_server.seckill_admit_reads [OF assms(1) adm refl]
  obtain no where "seckill_publish ev now later a info no w3 = (w', Inr resp)"
    using buy c by (auto simp: seckill_buy_def Let_def split: prod.splits sum.splits if_splits)
  with fr reads that show thesis by simp
qed

text \<open>What the publication leaves: the message or the row, and nothing else under the number.\<close>

lemma publish_stored:
  assumes "amqp_broker (ev_amqp ev) sent" "db_server (ev_db ev) view"
    "seckill_publish ev now later a info no w = (w', Inr resp)" "number_kept ev (view (w_db w)) (sold_order a info no)"
  shows "resp = queued_response no"
    "(rx_order (rb_exchange (ev_rabbit ev)), rq_order (rb_queue (ev_rabbit ev)), JsonBody (queued_body a info now no))
        \<in> set (mq_sent sent (w_mq w')) \<or> order_stored ev (view (w_db w')) (sold_order a info no)"
    "number_kept ev (view (w_db w')) (sold_order a info no)"
    "set (order_msgs ev (mq_sent sent (w_mq w'))) \<subseteq> insert (sold_order a info no) (set (order_msgs ev (mq_sent sent (w_mq w))))"
proof -
  let ?ex = "rx_order (rb_exchange (ev_rabbit ev))" and ?qu = "rb_queue (ev_rabbit ev)"
  let ?x = "sold_order a info no" and ?m = "JsonBody (queued_body a info now no)"
  let ?xs = "set (order_msgs ev (mq_sent sent (w_mq w)))"
  obtain w1 r1 where p: "on_mq (PublishOrder (ev_amqp ev) ?ex (rq_order ?qu) ?m) w = (w1, r1)"
    by fastforce
  note fr = on_frame(3) [OF p] and msgs = order_published(2) [OF assms(1) on_mqD [OF p]]
  have "resp = queued_response no \<and>
    ((?ex, rq_order ?qu, ?m) \<in> set (mq_sent sent (w_mq w')) \<or> order_stored ev (view (w_db w')) ?x) \<and>
    number_kept ev (view (w_db w')) ?x \<and> set (order_msgs ev (mq_sent sent (w_mq w'))) \<subseteq> insert ?x ?xs"
  proof (cases r1)
    case (Inl e)
    then have "seckill_fallback ev now later a info no w1 = (w', Inr resp)"
      using assms(3) p by (simp add: seckill_publish_def json_Marshal_def Let_def split: if_splits)
    moreover obtain w2 r2 where c: "svc_CreateOrder ev now (order_body a info no) w1 = (w2, r2)"
      by fastforce
    ultimately have r2: "r2 = Inr ()" "w_db w' = w_db w2" "w_mq w' = w_mq w1" "resp = queued_response no"
      using CreateOrder_mq [OF c] by (auto simp: seckill_fallback_def Let_def split: sum.splits)
    have kept: "number_kept ev (view (w_db w2)) ?x"
      by (rule db_server.create_keeps_number [OF assms(2) c refl]) (use assms(4) fr parse_bodies(2) in auto)
    with db_server.created_present [OF assms(2) c [unfolded r2(1)] refl parse_bodies(2)] msgs r2 show ?thesis
      by (auto intro: present_stored)
  next
    case (Inr u)
    obtain w2 r2 where d: "on_mq (PublishDelay (ev_amqp ev) ?ex (rq_delay ?qu) (JsonBody (delay_body a no))) w1 = (w2, r2)"
      by fastforce
    have w': "w_mq w' = w_mq w2" "w_db w' = w_db w" "resp = queued_response no"
      using assms(3) p d Inr fr on_frame(3) [OF d] by (auto simp: seckill_publish_def json_Marshal_def Let_def)
    obtain ex key where "publish_on_pool (ev_amqp ev) ex key (JsonBody (delay_body a no)) (w_mq w1) = (w_mq w2, r2)"
      using on_mqD [OF d] by (auto simp: PublishDelay_def Let_def)
    from amqp_broker.publish_on_pool_sent(2) [OF assms(1) this]
    have "set (mq_sent sent (w_mq w1)) \<subseteq> set (mq_sent sent (w_mq w2))"
      by auto
    moreover have "(?ex, rq_order ?qu, ?m) \<in> set (mq_sent sent (w_mq w1))"
      using amqp_broker.PublishOrder_sent(1) [OF assms(1) on_mqD [OF p]] Inr by simp
    moreover have "order_msgs ev (mq_sent sent (w_mq w2)) = order_msgs ev (mq_sent sent (w_mq w1))"
      by (rule delay_adds_nothing(1) [OF assms(1) on_mqD [OF d]])
    ultimately show ?thesis
      using w' assms(4) msgs by auto
  qed
  then show "resp = queued_response no"
    "(?ex, rq_order ?qu, ?m) \<in> set (mq_sent sent (w_mq w')) \<or> order_stored ev (view (w_db w')) ?x"
    "number_kept ev (view (w_db w')) ?x" "set (order_msgs ev (mq_sent sent (w_mq w'))) \<subseteq> insert ?x ?xs"
    by simp_all
qed

section \<open>Properties\<close>

text \<open>
  C7. No accepted request is forgotten: when \<open>ExecuteSeckill\<close> answers with an order number that no row
  of the buyer's table had before the call, then the message of that order was written to the order
  queue, and it parses to the number of the answer and to the buyer, product, quantity and price of
  the sale; or (when the queue refused it) the buyer's table has a row with that number, buyer,
  product, quantity and price. A quantity of 0 is stored as the column's default, 1. What the consumer
  makes of the message is C9; two buyers who get one number are C29.
\<close>

theorem accepted_order_recorded:
  assumes "amqp_broker (ev_amqp ev) sent" "db_server (ev_db ev) view"
    "svc_ExecuteSeckill ev spec gen now later a g w = (g', w', Inr resp)"
    "\<forall>r \<in> set (rows_of (view (w_db w)) (GetOrderTableName (sa_user a) (ev_shards ev))). o_order_no r \<noteq> sr_order_no resp"
  shows "\<exists>info x. parse_order_msg (queued_body a info now (sr_order_no resp)) = Inr x \<and>
    om_order_no x = sr_order_no resp \<and> om_user_id x = sa_user a \<and> om_product_id x = sa_product a \<and>
    om_quantity x = sa_quantity a \<and> om_seckill_price x = pi_seckill_price info \<and>
    ((rx_order (rb_exchange (ev_rabbit ev)), rq_order (rb_queue (ev_rabbit ev)), JsonBody (queued_body a info now (sr_order_no resp)))
       \<in> set (mq_sent sent (w_mq w')) \<or>
     (\<exists>r \<in> set (rows_of (view (w_db w')) (GetOrderTableName (sa_user a) (ev_shards ev))).
        o_order_no r = sr_order_no resp \<and> o_user_id r = sa_user a \<and> o_product_id r = sa_product a \<and>
        o_quantity r = or_default 1 (sa_quantity a) \<and> o_seckill_price r = pi_seckill_price info))"
proof -
  obtain info no w1 where pub: "seckill_publish ev now later a info no w1 = (w', Inr resp)"
    and same: "view (w_db w1) = view (w_db w)"
    by (rule accepted_published [OF assms(2,3)])
  have no: "no = sr_order_no resp"
    using pub by (auto simp: seckill_publish_def seckill_fallback_def queued_response_def json_Marshal_def Let_def
        split: prod.splits sum.splits if_splits)
  let ?x = "sold_order a info no"
  have "number_kept ev (view (w_db w1)) ?x"
    by (rule absent_number_kept) (use assms(4) same no in \<open>auto simp: order_present_def rows_of_def\<close>)
  note left = publish_stored(2) [OF assms(1,2) pub this, unfolded order_stored_def row_of_def]
  have price: "om_seckill_price ?x = pi_seckill_price info"
    by (simp add: sold_order_def)
  from left show ?thesis
    unfolding no by (intro exI [of _ info] exI [of _ "sold_order a info (sr_order_no resp)"])
      (use price parse_bodies(1) in \<open>auto simp: rows_of_def no\<close>)
qed

theorem accepted_order_recorded_witness:
  "\<exists>w' x. svc_ExecuteSeckill demo_env (\<lambda>_. None) demo_gen 1000 1001 demo_args 0 demo_world
      = (1, w', Inr (queued_response ''A1'')) \<and> om_order_no x = ''A1'' \<and> om_user_id x = 7 \<and> om_quantity x = 2 \<and>
    ((\<exists>r \<in> set (rows_of (w_db w') (GetOrderTableName 7 (ev_shards demo_env))). o_order_no r = ''A1'' \<and> o_quantity r = 2) \<or>
     (\<exists>ex q m. (ex, q, JsonBody m) \<in> set (mq_sent bk_sent (w_mq w')) \<and> parse_order_msg m = Inr x))"
proof -
  obtain w' where w': "svc_ExecuteSeckill demo_env (\<lambda>_. None) demo_gen 1000 1001 demo_args 0 demo_world
      = (1, w', Inr (queued_response ''A1''))"
    using demo_seckill by blast
  have none: "\<forall>r \<in> set (rows_of (id (w_db demo_world)) (GetOrderTableName (sa_user demo_args) (ev_shards demo_env))).
      o_order_no r \<noteq> sr_order_no (queued_response ''A1'')"
    by (simp add: rows_of_def demo_db_def empty_table_def)
  have a: "sa_user demo_args = 7" "sa_quantity demo_args = 2" "sr_order_no (queued_response ''A1'') = ''A1''"
    by (simp_all add: demo_args_def queued_response_def)
  from accepted_order_recorded [of demo_env bk_sent id, OF _ _ w' none] demo_mq.amqp_broker_axioms
    plain_mysql.db_server_axioms
  obtain info x where "parse_order_msg (queued_body demo_args info 1000 ''A1'') = Inr x" "om_order_no x = ''A1''" "om_user_id x = 7"
    "om_quantity x = 2"
    "(sale_exchange, rq_order sale_queues, JsonBody (queued_body demo_args info 1000 ''A1'')) \<in> set (mq_sent bk_sent (w_mq w')) \<or>
     (\<exists>r \<in> set (rows_of (w_db w') (GetOrderTableName 7 (ev_shards demo_env))). o_order_no r = ''A1'' \<and> o_quantity r = 2)"
    unfolding a by (auto simp: or_default_def)
  with w' show ?thesis by blast
qed



end
