(* ===== verification/Reconcile_Queue.thy ===== *)
theory Reconcile_Queue
  imports Stock_In_Step Reconciler
begin

text \<open>
  The reconciliation task of \<^verbatim>\<open>cron/reconciler.go\<close> while orders wait in the queue: it compares two
  stocks that differ by the units of those orders, and takes the difference for an error.
\<close>

section \<open>What a run leaves alone\<close>

text \<open>A run works on the Redis stocks and on the table of differences.\<close>

definition sale_kept :: "('d \<Rightarrow> database) \<Rightarrow> ('r, 'd, 'q) world \<Rightarrow> ('r, 'd, 'q) world \<Rightarrow> bool" where
  "sale_kept view w w' \<longleftrightarrow> w_mq w' = w_mq w \<and> db_orders (view (w_db w')) = db_orders (view (w_db w)) \<and>
     db_products (view (w_db w')) = db_products (view (w_db w))"

lemma sale_kept_refl: "sale_kept view w w"
  by (simp add: sale_kept_def)

lemma sale_kept_trans: "sale_kept view w w1 \<Longrightarrow> sale_kept view w1 w2 \<Longrightarrow> sale_kept view w w2"
  by (simp add: sale_kept_def)

lemma sale_kept_redis: "on_redis f w = (w', a) \<Longrightarrow> sale_kept view w w'"
  by (drule on_frame(1)) (simp add: sale_kept_def)

lemma exec_diff_frame:
  "db_orders (fst (exec_diff st v)) = db_orders v" "db_products (fst (exec_diff st v)) = db_products v"
  by (simp_all add: exec_diff_def split: prod.split)

lemma sale_kept_diff:
  assumes "on_db f w = (w', a)" "\<And>d d' r. f d = (d', r) \<Longrightarrow> \<exists>st. view d' = fst (exec_diff st (view d))"
  shows "sale_kept view w w'"
proof -
  obtain st where "view (w_db w') = fst (exec_diff st (view (w_db w)))"
    using assms(2) [OF on_dbD [OF assms(1)]] by blast
  with on_frame(2) [OF assms(1)] show ?thesis
    by (simp add: sale_kept_def exec_diff_frame)
qed

context reliable_db
begin

lemma record_kept: "on_db (InsertReconDiff ops now r) w = (w', a) \<Longrightarrow> sale_kept view w w'"
  by (rule sale_kept_diff) (auto simp: InsertReconDiff_def split: prod.splits dest!: diff_answers, metis fst_conv)

lemma corrected_kept: "on_db (UpdateReconDiffCorrected ops now i) w = (w', a) \<Longrightarrow> sale_kept view w w'"
  by (rule sale_kept_diff) (auto simp: UpdateReconDiffCorrected_def split: prod.splits dest!: diff_answers, metis fst_conv)

end

lemma single_kept:
  assumes "reliable_db (ev_db ev) view" "reconcileSingleProduct ev now x counts w = (w', counts', r)"
  shows "sale_kept view w w'"
proof -
  obtain w1 g where g: "on_redis (GetStock (ev_call ev) (p_id x)) w = (w1, g)" by fastforce
  note 1 = sale_kept_redis [OF g, of view]
  show ?thesis
  proof (cases "\<exists>st. g = Inr st \<and> st \<noteq> p_remain_stock x")
    case False
    with assms(2) g have "w' = w1"
      by (auto simp: reconcileSingleProduct_def split: prod.splits sum.splits if_splits)
    with 1 show ?thesis by simp
  next
    case True
    then obtain st where st: "g = Inr st" "st \<noteq> p_remain_stock x" by blast
    let ?d = "\<lparr>rd_id = 0, rd_product_id = p_id x, rd_redis_stock = st, rd_mysql_stock = p_remain_stock x,
      rd_diff = st - p_remain_stock x, rd_auto_corrected = False, rd_corrected_at = None, rd_created_at = 0\<rparr>"
    obtain w2 i where i: "on_db (InsertReconDiff (ev_db ev) now ?d) w1 = (w2, i)" by fastforce
    note 2 = sale_kept_trans [OF 1 reliable_db.record_kept [OF assms(1) i]]
    obtain w3 p where p: "on_redis (PreloadStock (ev_call ev) (p_id x) (p_remain_stock x)) w2 = (w3, p)" by fastforce
    note 3 = sale_kept_trans [OF 2 sale_kept_redis [OF p]]
    have 4: "sale_kept view w (fst (on_db (UpdateReconDiffCorrected (ev_db ev) now j) w3))" for j
      using sale_kept_trans [OF 3 reliable_db.corrected_kept [OF assms(1)]] by (metis prod.collapse)
    have "w' = w2 \<or> w' = w3 \<or> (\<exists>j. w' = fst (on_db (UpdateReconDiffCorrected (ev_db ev) now j) w3))"
      using assms(2) g st i p by (auto simp: reconcileSingleProduct_def Let_def split: prod.splits sum.splits)
    with 2 3 4 show ?thesis by auto
  qed
qed

lemma attempts_kept:
  assumes "reliable_db (ev_db ev) view"
  shows "reconcile_attempts ev now x n counts w = (w', counts', ok) \<Longrightarrow> sale_kept view w w'"
proof (induction n arbitrary: counts w)
  case (Suc n)
  obtain w1 counts1 r where s: "reconcileSingleProduct ev (now w) x counts w = (w1, counts1, r)"
    by (rule prod_cases3)
  note 1 = single_kept [OF assms s]
  show ?case
  proof (cases r)
    case (Inl e)
    with Suc.prems s have "reconcile_attempts ev now x n counts1 w1 = (w', counts', ok)" by simp
    from sale_kept_trans [OF 1 Suc.IH [OF this]] show ?thesis .
  next
    case (Inr u)
    with Suc.prems s 1 show ?thesis by simp
  qed
qed (simp add: sale_kept_refl)

lemma products_kept:
  assumes "reliable_db (ev_db ev) view"
  shows "reconcile_products ev now xs counts w = (w', counts') \<Longrightarrow> sale_kept view w w'"
proof (induction xs arbitrary: counts w)
  case (Cons x xs)
  obtain w1 counts1 ok where a: "reconcile_attempts ev now x 3 counts w = (w1, counts1, ok)"
    by (rule prod_cases3)
  then have "reconcile_products ev now xs counts1 w1 = (w', counts')"
    using Cons.prems by simp
  from sale_kept_trans [OF attempts_kept [OF assms a] Cons.IH [OF this]] show ?case .
qed (simp add: sale_kept_refl)

lemma run_kept:
  assumes "reliable_db (ev_db ev) view" "runReconciliation ev now w = (w', Some counts)"
  shows "sale_kept view w w'"
proof -
  let ?k = "recon_lock_key (ev_instance ev)"
  obtain w1 a where a: "on_redis (\<lambda>s. case ev_call ev s (SETNX ?k ''1'' (setnx_ttl 60000)) of
      (s', r) \<Rightarrow> (s', reply_Bool r)) w = (w1, a)" by fastforce
  obtain w2 r2 where g: "on_db (GetAllProducts (ev_db ev)) w1 = (w2, r2)" by fastforce
  obtain xs w3 where xs: "r2 = Inr xs" "reconcile_products ev now xs (0, 0) w2 = (w3, counts)"
    and w': "w' = fst (on_redis (\<lambda>s. ev_call ev s (DEL ?k)) w3)"
    using assms(2) a g by (auto simp: runReconciliation_def Let_def split: sum.splits if_splits prod.splits)
  have "sale_kept view w1 w2"
    using all_products(1) [OF assms(1) on_dbD [OF g [unfolded xs(1)]]] on_frame(2) [OF g] by (simp add: sale_kept_def)
  from sale_kept_trans [OF sale_kept_trans [OF sale_kept_redis [OF a] this] products_kept [OF assms(1) xs(2)]]
  have "sale_kept view w w3" .
  moreover obtain w4 r4 where d: "on_redis (\<lambda>s. ev_call ev s (DEL ?k)) w3 = (w4, r4)" by fastforce
  ultimately show ?thesis
    using sale_kept_trans [OF _ sale_kept_redis [OF d]] w' by (metis d fst_conv)
qed

section \<open>Properties\<close>

lemma shop_numeric: "shop_ok L ks \<Longrightarrow> stocks_numeric ks"
  by (simp add: stocks_numeric_def shop_ok_def)

text \<open>
  C39. Reconciliation forgets the orders that are still in the queue: in any state that the sale reaches
  with both stocks in step (C5), the Redis stock of a product is its MySQL stock less the units of
  the queued messages that are no orders yet. A run of the task that gets its lock raises it by exactly
  these units. The messages stay in the queue and no order is created by the run, so from
  then on Redis offers, beside the units of the queued orders, as many units as MySQL has for both.
\<close>

theorem reconcile_forgets_queued_orders:
  assumes "reliable_redis (ev_call ev) kv" "reliable_db (ev_db ev) view" "in_step ev kv view sent p n w" "diffs_ok (view (w_db w))"
    "distinct (map p_id (t_rows (db_products (view (w_db w)))))"
    "\<forall>x \<in> set (t_rows (db_products (view (w_db w)))). in_int64 (p_remain_stock x)"
    "runReconciliation ev now w = (w', Some counts)"
  shows "\<exists>st u. u = owed ev (view (w_db w)) (order_msgs ev (mq_sent sent (w_mq w))) p \<and> 0 \<le> u \<and>
    count_at (kv (w_redis w)) (stock_key p) = st \<and> count_at (kv (w_redis w')) (stock_key p) = st + u \<and>
    mq_sent sent (w_mq w') = mq_sent sent (w_mq w) \<and> db_orders (view (w_db w')) = db_orders (view (w_db w)) \<and>
    owed ev (view (w_db w')) (order_msgs ev (mq_sent sent (w_mq w'))) p = u \<and>
    count_at (kv (w_redis w')) (stock_key p) = remaining (view (w_db w')) p"
proof -
  let ?v = "view (w_db w)" and ?xs = "order_msgs ev (mq_sent sent (w_mq w))"
  obtain st where st: "stock_is (kv (w_redis w)) p st" "remaining ?v p = st + owed ev ?v ?xs p"
    and good: "has_product ?v p" "\<forall>x \<in> set ?xs. 0 < om_quantity x"
    using assms(3) by (auto simp: in_step_def Let_def)
  obtain x where x: "filter (live_product p) (t_rows (db_products ?v)) = [x]"
    using good(1) by (auto simp: has_product_def length_Suc_conv)
  then have mem: "x \<in> set (t_rows (db_products ?v))" "p_id x = p" "p_deleted_at x = None"
    using filter_eq_ConsD [OF x] by (auto simp: live_product_def)
  have rem: "remaining ?v p = p_remain_stock x"
    using x by (simp add: remaining_def)
  have "stocks_numeric (kv (w_redis w))"
    using st(1) shop_numeric by (auto simp: stock_is_def)
  from reconcile_run_syncs [OF assms(1,2) this assms(4-7) mem(1,3)]
  have after: "count_at (kv (w_redis w')) (stock_key p) = remaining ?v p"
    using rem mem(2) by simp
  have kept: "w_mq w' = w_mq w" "db_orders (view (w_db w')) = db_orders ?v" "db_products (view (w_db w')) = db_products ?v"
    using run_kept [OF assms(2,7)] by (simp_all add: sale_kept_def)
  have "order_present ev (view (w_db w')) y = order_present ev ?v y" for y
    by (simp add: order_present_def kept(2))
  then have "owed ev (view (w_db w')) ?xs p = owed ev ?v ?xs p"
    by (intro owed_cong)
  moreover have "count_at (kv (w_redis w)) (stock_key p) = st"
    using st(1) by (simp add: stock_is_def int_at_count)
  ultimately show ?thesis
    using after st(2) kept owed_nonneg [OF good(2), of ev ?v p] remaining_cong [OF kept(3), of p] by simp
qed

text \<open>A request for 2 of 10 units: Redis has 8, and 10 after the run, while 2 units wait in the queue.\<close>

theorem reconcile_forgets_queued_orders_witness:
  "\<exists>w1 w2 counts. svc_ExecuteSeckill plain_env (\<lambda>_. None) demo_gen 1000 1001 demo_args 0 plain_world
      = (1, w1, Inr (queued_response ''A1'')) \<and> runReconciliation plain_env (\<lambda>_. 2000) w1 = (w2, Some counts) \<and>
    count_at (w_redis w1) (stock_key 1) = 8 \<and> count_at (w_redis w2) (stock_key 1) = 10 \<and>
    owed plain_env (w_db w2) (order_msgs plain_env (mq_sent bk_sent (w_mq w2))) 1 = 2"
proof -
  obtain w1 where w1: "svc_ExecuteSeckill plain_env (\<lambda>_. None) demo_gen 1000 1001 demo_args 0 plain_world
      = (1, w1, Inr (queued_response ''A1''))" "w_db w1 = demo_db" "count_at (w_redis w1) (stock_key 1) = 8"
    "live (w_redis w1) (recon_lock_key ''node1'') = None"
    using plain_seckill by blast
  have step: "sale_step plain_env id id bk_sent (\<lambda>_. None) demo_gen plain_world w1"
    using plain_run w1(1) by auto
  have "(sale_step plain_env id id bk_sent (\<lambda>_. None) demo_gen)\<^sup>*\<^sup>* plain_world w1"
    by (rule r_into_rtranclp [of "sale_step plain_env id id bk_sent (\<lambda>_. None) demo_gen", OF step])
  from sale_steps_in_step [OF this _ _ _ plain_in_step] plain_redis.reliable_redis_axioms
    plain_mysql.reliable_db_axioms demo_mq.amqp_broker_axioms plain_mq(1)
  have in_step: "in_step plain_env id id bk_sent 1 10 w1"
    by (simp add: max_int64_def)
  obtain w2 counts where w2: "runReconciliation plain_env (\<lambda>_. 2000) w1 = (w2, Some counts)"
    using plain_reconciliation [OF w1(2,4)] by blast
  have srv: "reliable_redis (ev_call plain_env) id" "reliable_db (ev_db plain_env) id"
    using plain_redis.reliable_redis_axioms plain_mysql.reliable_db_axioms by (simp_all add: plain_env_def)
  have "remaining demo_db 1 = 10"
    by (simp add: demo_db_def remaining_def live_product_def demo_product_def)
  moreover obtain st u where "count_at (id (w_redis w1)) (stock_key 1) = st" "count_at (id (w_redis w2)) (stock_key 1) = st + u"
    "owed plain_env (id (w_db w2)) (order_msgs plain_env (mq_sent bk_sent (w_mq w2))) 1 = u"
    "u = owed plain_env (id (w_db w1)) (order_msgs plain_env (mq_sent bk_sent (w_mq w1))) 1"
    using reconcile_forgets_queued_orders [OF srv in_step _ _ _ w2] w1(2) demo_db_synced_facts by auto
  moreover obtain st' where "stock_is (w_redis w1) 1 st'"
    "remaining demo_db 1 = st' + owed plain_env (w_db w1) (order_msgs plain_env (mq_sent bk_sent (w_mq w1))) 1"
    using in_step w1(2) by (auto simp: in_step_def Let_def)
  moreover have "st' = 8"
    using calculation(6) w1(3) by (simp add: stock_is_def int_at_count)
  ultimately show ?thesis
    using w1(1,3) w2 by auto
qed

end
