(* ===== verification/Route_Gaps.thy ===== *)
theory Route_Gaps
  imports Route_Access
begin

text \<open>
  What no route of \<^verbatim>\<open>cmd/main.go\<close> checks: every guard asks for a valid token, none looks at its role,
  the callback of the payment gateway is a route for users, and an order is found without its owner.
\<close>

text \<open>A handler that binds the JSON body of the request and acts on the world; \<open>decode\<close> is the binding.\<close>

definition body_handler ::
  "(gin_context \<Rightarrow> 'q option \<Rightarrow> ('r, 'd, 'm) world \<Rightarrow> ('r, 'd, 'm) world \<times> 'a response) \<Rightarrow> (string \<Rightarrow> 'q option) \<Rightarrow> http_request
     \<Rightarrow> gin_context \<Rightarrow> ('r, 'd, 'm, 'f, 'l) site \<Rightarrow> ('r, 'd, 'm, 'f, 'l) site \<times> 'a response option" where
  "body_handler handler decode r c s = (case on_world (handler c (decode (body_text r))) s of (s', a) \<Rightarrow> (s', Some a))"

text \<open>A route that only one pattern of the table matches.\<close>

lemma routed_alone:
  assumes "gin_router gin" "Route m p Authenticated h \<in> set routes" "path_matches p p"
    "list_all (\<lambda>rt. rt_method rt = m \<and> path_matches (rt_path rt) p \<longrightarrow> rt_guard rt = Authenticated \<and> rt_handler rt = h) routes"
  obtains rt where "gin routes m p = Some rt" "rt_guard rt = Authenticated" "rt_handler rt = h"
proof -
  obtain rt where "gin routes m p = Some rt" "rt \<in> set routes" "rt_method rt = m" "path_matches (rt_path rt) p"
    using gin_router.finds_some [OF assms(1,2), of m p] assms(3) by auto
  with assms(4) that show thesis by (auto simp: list_all_iff)
qed

lemma role_route:
  assumes "gin_router gin"
  obtains rt where "gin routes ''PUT'' ''/api/v1/user/role'' = Some rt" "rt_guard rt = Authenticated" "rt_handler rt = ''UpdateUserRole''"
  by (rule routed_alone [OF assms, of "''PUT''" "''/api/v1/user/role''" "''UpdateUserRole''"])
    (simp_all add: routes_def open_routes_def api_routes_def path_matches_def)

section \<open>The role of a user\<close>

definition with_role :: "int \<Rightarrow> int \<Rightarrow> string \<Rightarrow> user \<Rightarrow> user" where
  "with_role now i role u = (if u_id u = i \<and> u_deleted_at u = None then u\<lparr>u_role := role, u_updated_at := now\<rparr> else u)"

context reliable_db
begin

lemma role_updated:
  assumes "UpdateUserRole ops now i role d = (d', res)"
  shows "res = Inr ()" "t_rows (db_users (view d')) = map (with_role now i role) (t_rows (db_users (view d)))"
proof -
  obtain a where a: "on_user ops (Update (\<lambda>u. u_id u = i) (\<lambda>u. u\<lparr>u_role := role, u_updated_at := now\<rparr>)) d = (d', a)"
    "res = answer_unit a"
    using assms by (auto simp: UpdateUserRole_def split: prod.splits)
  note e = user_answers [OF a(1), unfolded exec_user_def, simplified]
  show "res = Inr ()"
    using e a(2) by simp
  have "with_role now i role u = (if selected (user_schema (db_weight ops)) (\<lambda>u. u_id u = i) u
      then u\<lparr>u_role := role, u_updated_at := now\<rparr> else u)" for u
    by (auto simp: with_role_def selected_def user_schema_def)
  then show "t_rows (db_users (view d')) = map (with_role now i role) (t_rows (db_users (view d)))"
    using e by simp
qed

end

text \<open>
  C12. Any user can become super administrator: when a request to \<^verbatim>\<open>PUT /api/v1/user/role\<close> passes the
  middlewares before the routes and carries a token that \<open>ParseToken\<close> accepts, of whatever user and
  role, then whichever way gin looks up its table, the handler runs on its body; if the body names a user
  and one of the roles (\<open>super_admin\<close> is one), the answer is 200, the rows of that user, his own or
  another's, have the role and no other row has changed, and every later login of that user gets a token
  of that role.
\<close>

theorem any_user_becomes_super_admin:
  assumes "gin_router gin" "reliable_db (ev_db ev) view" "hr_method r = ''PUT''" "hr_path r = ''/api/v1/user/role''"
    "run_chain (global_chain ro now generated r) fresh_context = (c, Next)"
    "GetHeader r ''Authorization'' = ''Bearer '' @ t" "ParseToken (ro_crypto ro) (ro_jwt ro) now t = Inr claims"
    "handlers ''UpdateUserRole'' = body_handler (ctl_UpdateUserRole ev now) decode r"
    "decode (body_text r) = Some req" "valid_update_role req"
  shows "\<exists>s' a. serve_http gin ro call now generated handlers r s = (s', Handled ''UpdateUserRole'' a) \<and> rs_code a = 200 \<and>
    t_rows (db_users (view (w_db (st_world s')))) =
      map (with_role now (uq_user_id req) (uq_role req)) (t_rows (db_users (view (w_db (st_world s))))) \<and>
    (\<forall>cr m later lq w resp. svc_Login ev cr m later lq (st_world s') = (w, Inr resp) \<and> lr_user_id resp = uq_user_id req \<longrightarrow>
       lr_role resp = uq_role req)"
proof -
  obtain rt where rt: "gin routes ''PUT'' ''/api/v1/user/role'' = Some rt" "rt_guard rt = Authenticated"
      "rt_handler rt = ''UpdateUserRole''"
    by (rule role_route [OF assms(1)])
  have "hr_path r \<notin> set auth_whitelist"
    by (simp add: assms(4) auth_whitelist_def)
  from auth_passes [OF this] assms(6,7) obtain c1 where auth: "AuthMiddleware (ro_crypto ro) (ro_jwt ro) now r c = (c1, Next)"
    by blast
  have chain: "run_chain (api_chain ro now generated r) fresh_context = (c1, Next)"
    using assms(5) auth by (simp add: api_chain_split run_chain_append)
  obtain w1 res where upd: "on_db (UpdateUserRole (ev_db ev) now (uq_user_id req) (uq_role req)) (st_world s) = (w1, res)"
    by fastforce
  note made = reliable_db.role_updated [OF assms(2) on_dbD [OF upd]]
  let ?s = "s\<lparr>st_world := w1\<rparr>" and ?a = "SuccessWithMessage c1 ''role updated'' None"
  have ran: "handlers (rt_handler rt) c1 s = (?s, Some ?a)"
    using upd made(1) assms(8-10)
    by (simp add: rt(3) body_handler_def on_world_def ctl_UpdateUserRole_def bind_json_def svc_UpdateUserRole_def)
  have found: "gin routes (hr_method r) (hr_path r) = Some rt"
    using rt(1) assms(3,4) by simp
  have "serve_http gin ro call now generated handlers r s = (?s, RecoveryMiddleware c1 r (rt_handler rt) (Some ?a))"
    by (rule serve_authenticated) (fact chain found rt(2) ran)+
  with rt(3) have run: "serve_http gin ro call now generated handlers r s = (?s, Handled ''UpdateUserRole'' ?a)"
    by (simp add: RecoveryMiddleware_def)
  have login: "lr_role resp = uq_role req"
    if l: "svc_Login ev cr m later lq w1 = (w, Inr resp)" "lr_user_id resp = uq_user_id req" for cr m later lq w resp
  proof -
    obtain w2 found where g: "on_db (GetUserByUsername (ev_db ev) (lq_username lq)) w1 = (w2, found)"
      by fastforce
    then obtain u where u: "found = Inr u" "lr_user_id resp = u_id u" "lr_role resp = u_role u"
      using l(1) by (auto simp: svc_Login_def split: sum.splits if_splits)
    from db_server.found_user(1,2) [OF reliable_db.axioms(1) [OF assms(2)] on_dbD [OF g [unfolded u(1)]]] made(2)
    obtain u0 where "u = with_role now (uq_user_id req) (uq_role req) u0" "u_deleted_at u = None" by auto
    with u l(2) show ?thesis
      by (auto simp: with_role_def split: if_splits)
  qed
  from run made(2) login show ?thesis
    by (intro exI [of _ ?s] exI [of _ ?a]) (auto simp: SuccessWithMessage_def)
qed

text \<open>Alice, an ordinary user, sends her own id.\<close>

definition decode_as :: "string \<Rightarrow> 'q \<Rightarrow> string \<Rightarrow> 'q option" where
  "decode_as text q body = (if body = text then Some q else None)"

definition role_body :: string where
  "role_body = ''{\"user_id\":1,\"role\":\"super_admin\"}''"

definition one_handler :: "string \<Rightarrow> (gin_context \<Rightarrow> 's \<Rightarrow> 's \<times> 'a response option) \<Rightarrow> string \<Rightarrow> gin_context \<Rightarrow> 's \<Rightarrow> 's \<times> 'a response option" where
  "one_handler name f h c s = (if h = name then f c s else (s, None))"

lemma one_handler_self: "one_handler name f name = f"
  by (intro ext) (simp add: one_handler_def)

lemma open_paths [simp]:
  "''/api/v1/user/role'' \<notin> set auth_whitelist" "''/api/v1/user/role'' \<notin> set sign_whitelist"
  "\<not> has_prefix ''/uploads/'' ''/api/v1/user/role''"
  "''/api/v1/order/pay-callback'' \<notin> set auth_whitelist" "''/api/v1/order/pay-callback'' \<notin> set sign_whitelist"
  "\<not> has_prefix ''/uploads/'' ''/api/v1/order/pay-callback''"
  "''/api/v1/order/cancel'' \<notin> set auth_whitelist" "''/api/v1/order/cancel'' \<notin> set sign_whitelist"
  "\<not> has_prefix ''/uploads/'' ''/api/v1/order/cancel''"
  by (simp_all add: auth_whitelist_def sign_whitelist_def has_prefix_def)

theorem any_user_becomes_super_admin_witness:
  "\<exists>t s' a. GenerateToken demo_crypto demo_manager 2000 1 ''alice'' ''user'' = Inr t \<and>
     serve_http first_route demo_router faulty_call 3000 [] (one_handler ''UpdateUserRole'' (body_handler (ctl_UpdateUserRole demo_env 3000)
         (decode_as role_body \<lparr>uq_user_id = 1, uq_role = ''super_admin''\<rparr>) (api_request t ''PUT'' ''/api/v1/user/role'' role_body)))
       (api_request t ''PUT'' ''/api/v1/user/role'' role_body) (demo_site\<lparr>st_world := alice_world\<rparr>) = (s', Handled ''UpdateUserRole'' a) \<and>
     rs_code a = 200 \<and> map u_role (t_rows (db_users (w_db (st_world s')))) = [''super_admin'']"
proof -
  obtain t where t: "GenerateToken demo_crypto demo_manager 2000 1 ''alice'' ''user'' = Inr t"
    using demo_token by blast
  let ?r = "api_request t ''PUT'' ''/api/v1/user/role'' role_body" and ?q = "\<lparr>uq_user_id = 1, uq_role = ''super_admin''\<rparr>"
  let ?s = "demo_site\<lparr>st_world := alice_world\<rparr>"
  let ?h = "one_handler ''UpdateUserRole'' (body_handler (ctl_UpdateUserRole demo_env 3000) (decode_as role_body ?q) ?r)"
  have chain: "run_chain (global_chain demo_router 3000 [] ?r) fresh_context = (fresh_context, Next)"
    by (rule demo_global_chain) (simp_all add: role_body_def)
  have q: "decode_as role_body ?q (body_text ?r) = Some ?q" "valid_update_role ?q"
    by (simp_all add: decode_as_def api_request_sel valid_update_role_def)
  have db: "reliable_db (ev_db demo_env) id"
    using plain_mysql.reliable_db_axioms by simp
  have rows: "t_rows (db_users (id (w_db (st_world ?s)))) = [alice]"
    by (simp add: alice_world_def)
  from any_user_becomes_super_admin [where r = ?r and s = ?s and call = faulty_call and handlers = ?h,
      OF first.gin_router_axioms db api_request_sel(3) api_request_sel(1) chain api_request_sel(5) demo_parsed [OF t] one_handler_self q]
  obtain s' a where "serve_http first_route demo_router faulty_call 3000 [] ?h ?r ?s = (s', Handled ''UpdateUserRole'' a)"
    "rs_code a = 200" "t_rows (db_users (id (w_db (st_world s')))) = map (with_role 3000 1 ''super_admin'') [alice]"
    unfolding rows by auto
  with t show ?thesis
    by (auto simp: with_role_def alice_def)
qed

section \<open>Payments and cancellations\<close>

text \<open>
  An order is paid with any signature: the callback of the payment gateway is a route for users
  that only looks whether \<open>pay_sign\<close> is empty, so the buyer marks his own order as paid.
\<close>

abbreviation demo_serve where
  "demo_serve name handler decode r w \<equiv> serve_http first_route demo_router faulty_call 3000 []
     (one_handler name (body_handler handler decode r)) r (demo_site\<lparr>st_world := w\<rparr>)"

lemma demo_served:
  assumes "GenerateToken demo_crypto demo_manager 2000 i name role = Inr t" "role \<noteq> []" "path \<notin> set auth_whitelist"
    "path \<notin> set sign_whitelist" "\<not> has_prefix ''/uploads/'' path" "length body \<le> 1048576"
    "first_route routes meth path = Some (Route meth path Authenticated h)"
    "handler (user_context i name role) (decode body) w = (w1, a)"
  shows "demo_serve h handler decode (api_request t meth path body) w = (demo_site\<lparr>st_world := w1\<rparr>, Handled h a)"
proof -
  let ?r = "api_request t meth path body"
  have ran: "one_handler h (body_handler handler decode ?r) (rt_handler (Route meth path Authenticated h)) (user_context i name role)
      (demo_site\<lparr>st_world := w\<rparr>) = (demo_site\<lparr>st_world := w1\<rparr>, Some a)"
    using assms(8) by (simp add: one_handler_def body_handler_def on_world_def api_request_sel)
  have rt: "first_route routes (hr_method ?r) (hr_path ?r) = Some (Route meth path Authenticated h)"
    using assms(7) by (simp add: api_request_sel)
  have "rt_guard (Route meth path Authenticated h) = Authenticated" by simp
  note guarded = this and chain = demo_api_chain [OF assms(1-6), of meth]
  have "serve_http first_route demo_router faulty_call 3000 [] (one_handler h (body_handler handler decode ?r)) ?r (demo_site\<lparr>st_world := w\<rparr>)
      = (demo_site\<lparr>st_world := w1\<rparr>, RecoveryMiddleware (user_context i name role) ?r
          (rt_handler (Route meth path Authenticated h)) (Some a))"
    by (rule serve_authenticated) (fact chain rt guarded ran)+
  then show ?thesis
    by (simp add: RecoveryMiddleware_def)
qed

lemma demo_routes:
  "first_route routes ''POST'' ''/api/v1/order/pay-callback'' = Some (Route ''POST'' ''/api/v1/order/pay-callback'' Authenticated ''PayCallback'')"
  "first_route routes ''POST'' ''/api/v1/order/cancel'' = Some (Route ''POST'' ''/api/v1/order/cancel'' Authenticated ''CancelOrder'')"
  by (simp_all add: first_route_def routes_def open_routes_def api_routes_def path_matches_def)

theorem unpaid_order_marked_paid:
  "\<exists>t s' a. GenerateToken demo_crypto demo_manager 2000 7 ''bob'' ''user'' = Inr t \<and>
     demo_serve ''PayCallback'' (ctl_PayCallback demo_env 3000) (decode_as ''A1,x'' \<lparr>pq_order_no = ''A1'', pq_pay_sign = ''x''\<rparr>)
       (api_request t ''POST'' ''/api/v1/order/pay-callback'' ''A1,x'') demo_created = (s', Handled ''PayCallback'' a) \<and> rs_code a = 200 \<and>
     map o_status (t_rows (db_orders (w_db demo_created) ''t_order_7'')) = [Pending] \<and>
     map o_status (t_rows (db_orders (w_db (st_world s')) ''t_order_7'')) = [Paid]"
proof -
  obtain t where t: "GenerateToken demo_crypto demo_manager 2000 7 ''bob'' ''user'' = Inr t"
    using demo_token by blast
  obtain w1 where w1: "svc_PayCallback demo_env 3000 ''A1'' 7 3000 demo_created = (w1, Inr ())"
    "map o_status (t_rows (db_orders (w_db w1) ''t_order_7'')) = [Paid]"
    by (simp add: svc_PayCallback_def on_db_def demo_created_def GetOrderByOrderNo_def exec_order_def matching_def
        selected_def order_schema_def demo_row_def UpdateOrderStatusWithPayTime_def update_order_def)
  let ?c = "user_context 7 ''bob'' ''user''"
  have "ctl_PayCallback demo_env 3000 ?c (decode_as ''A1,x'' \<lparr>pq_order_no = ''A1'', pq_pay_sign = ''x''\<rparr> ''A1,x'') demo_created =
      (w1, SuccessWithMessage ?c ''paid'' None)"
    using w1(1) by (simp add: ctl_PayCallback_def with_user_def user_context_def bind_json_def decode_as_def)
  then have "demo_serve ''PayCallback'' (ctl_PayCallback demo_env 3000) (decode_as ''A1,x'' \<lparr>pq_order_no = ''A1'', pq_pay_sign = ''x''\<rparr>)
      (api_request t ''POST'' ''/api/v1/order/pay-callback'' ''A1,x'') demo_created =
      (demo_site\<lparr>st_world := w1\<rparr>, Handled ''PayCallback'' (SuccessWithMessage ?c ''paid'' None))"
    by (intro demo_served [OF t _ open_paths(4-6) _ demo_routes(1)]) simp_all
  with w1(2) t show ?thesis
    by (auto simp: SuccessWithMessage_def demo_created_def demo_row_def)
qed

text \<open>
  A user can cancel the order of another user of the same shard: the user id of the token only
  chooses the table, so user 23 cancels the order of user 7.
\<close>

theorem foreign_order_cancelled:
  "\<exists>t s' a. GenerateToken demo_crypto demo_manager 2000 23 ''eve'' ''user'' = Inr t \<and>
     demo_serve ''CancelOrder'' (ctl_CancelOrder demo_env 3000) (decode_as ''A1'' \<lparr>or_order_no = ''A1'', or_reason = []\<rparr>)
       (api_request t ''POST'' ''/api/v1/order/cancel'' ''A1'') demo_created = (s', Handled ''CancelOrder'' a) \<and> rs_code a = 200 \<and>
     map (\<lambda>r. (o_user_id r, o_status r)) (t_rows (db_orders (w_db demo_created) ''t_order_7'')) = [(7, Pending)] \<and>
     map (\<lambda>r. (o_user_id r, o_status r)) (t_rows (db_orders (w_db (st_world s')) ''t_order_7'')) = [(7, Cancelled)]"
proof -
  obtain t where t: "GenerateToken demo_crypto demo_manager 2000 23 ''eve'' ''user'' = Inr t"
    using demo_token by blast
  have shard: "GetOrderTableName 23 16 = ''t_order_7''" by code_simp
  obtain w1 where w1: "svc_CancelOrder demo_env 3000 ''A1'' 23 [] demo_created = (w1, Inr ())"
    "map (\<lambda>r. (o_user_id r, o_status r)) (t_rows (db_orders (w_db w1) ''t_order_7'')) = [(7, Cancelled)]"
    by (simp add: svc_CancelOrder_def cancel_after_read_def on_db_def on_redis_def demo_created_def GetOrderByOrderNo_def
        shard exec_order_def matching_def selected_def order_schema_def demo_row_def CancelOrder_def update_order_def
        give_back_all_def RollbackProductStock_def exec_product_def Let_def split: prod.split)
  let ?c = "user_context 23 ''eve'' ''user''"
  have "ctl_CancelOrder demo_env 3000 ?c (decode_as ''A1'' \<lparr>or_order_no = ''A1'', or_reason = []\<rparr> ''A1'') demo_created =
      (w1, SuccessWithMessage ?c ''cancelled'' None)"
    using w1(1) by (simp add: ctl_CancelOrder_def with_user_def user_context_def bind_json_def decode_as_def)
  then have "demo_serve ''CancelOrder'' (ctl_CancelOrder demo_env 3000) (decode_as ''A1'' \<lparr>or_order_no = ''A1'', or_reason = []\<rparr>)
      (api_request t ''POST'' ''/api/v1/order/cancel'' ''A1'') demo_created =
      (demo_site\<lparr>st_world := w1\<rparr>, Handled ''CancelOrder'' (SuccessWithMessage ?c ''cancelled'' None))"
    by (intro demo_served [OF t _ open_paths(7-9) _ demo_routes(2)]) simp_all
  with w1(2) t show ?thesis
    by (auto simp: SuccessWithMessage_def demo_created_def demo_row_def)
qed

end
