(* ===== verification/Atomic_Stats.thy ===== *)
theory Atomic_Stats
  imports Prelude "HOL-Library.Log_Nat"
begin

text \<open>
  The lock-free counters of \<^verbatim>\<open>monitor/stats.go\<close>: \<open>atomicFloat64\<close>, whose \<open>Add\<close> is a loop around a
  compare-and-swap on the bits of a float64, \<open>atomicInt64\<close>, and the two operations on them,
  \<open>RecordRequestLatency\<close> and \<open>GetRequestStats\<close>, called by any number of requests at once. A step is
  one access to memory; \<open>Monitor_Stats\<close> has the same operations as whole calls.
\<close>

section \<open>Memory\<close>

text \<open>The float64 operations of the counters, with \<^verbatim>\<open>math.Float64bits\<close> and \<^verbatim>\<open>math.Float64frombits\<close>.\<close>

record 'f float64 =
  fl_int :: "int \<Rightarrow> 'f"
  fl_add :: "'f \<Rightarrow> 'f \<Rightarrow> 'f"
  fl_div :: "'f \<Rightarrow> 'f \<Rightarrow> 'f"
  fl_bits :: "'f \<Rightarrow> 64 word"
  fl_frombits :: "64 word \<Rightarrow> 'f"

definition CompareAndSwapUint64 :: "64 word \<Rightarrow> 64 word \<Rightarrow> 64 word \<Rightarrow> 64 word \<times> bool" where
  "CompareAndSwapUint64 cell old new = (if cell = old then (new, True) else (cell, False))"

text \<open>One turn of the loop of \<open>Add\<close> after it has read \<open>old\<close>, and the read.\<close>

definition add_turn :: "'f float64 \<Rightarrow> 'f \<Rightarrow> 64 word \<Rightarrow> 64 word \<Rightarrow> 64 word \<times> bool" where
  "add_turn fl v old cell =
     (let newV = fl_bits fl (fl_add fl (fl_frombits fl old) v) in CompareAndSwapUint64 cell old newV)"

definition Load_float :: "'f float64 \<Rightarrow> 64 word \<Rightarrow> 'f" where
  "Load_float fl cell = fl_frombits fl cell"

definition Add_int :: "int \<Rightarrow> int \<Rightarrow> int" where
  "Add_int v cell = cell + v"

definition Load_int :: "int \<Rightarrow> int" where
  "Load_int cell = cell"

section \<open>Requests that report their latency\<close>

text \<open>
  Where a call of \<open>RecordRequestLatency\<close> is: about to read the total, about to swap with what it read,
  about to count itself.
\<close>

datatype reporter = Idle | Reading int | Swapping int "64 word" | Counting

record cells =
  ce_total_ms :: "64 word"           \<comment> \<open>\<^verbatim>\<open>engine.reqTotalMs\<close>\<close>
  ce_count :: int                    \<comment> \<open>\<^verbatim>\<open>engine.reqLatencyCount\<close>\<close>
  ce_at :: "nat \<Rightarrow> reporter"
  ce_added :: "(nat \<times> int) list"     \<comment> \<open>what was added, by whom, in the order of the swaps\<close>
  ce_called :: "nat \<Rightarrow> int list"     \<comment> \<open>the latencies each goroutine has reported\<close>
  ce_read :: "nat \<Rightarrow> nat"            \<comment> \<open>how many swaps of others there were at its last read\<close>
  ce_turns :: "nat \<Rightarrow> nat"           \<comment> \<open>how often the swap of the goroutine failed\<close>

definition fresh_cells :: cells where
  "fresh_cells = \<lparr>ce_total_ms = 0, ce_count = 0, ce_at = (\<lambda>_. Idle), ce_added = [], ce_called = (\<lambda>_. []),
     ce_read = (\<lambda>_. 0), ce_turns = (\<lambda>_. 0)\<rparr>"

definition others :: "nat \<Rightarrow> cells \<Rightarrow> nat" where
  "others t s = length (filter (\<lambda>e. fst e \<noteq> t) (ce_added s))"

definition do_call :: "nat \<Rightarrow> int \<Rightarrow> cells \<Rightarrow> cells" where
  "do_call t ms s = s\<lparr>ce_at := (ce_at s)(t := Reading ms), ce_called := (ce_called s)(t := ce_called s t @ [ms])\<rparr>"

definition do_read :: "nat \<Rightarrow> int \<Rightarrow> cells \<Rightarrow> cells" where
  "do_read t ms s = s\<lparr>ce_at := (ce_at s)(t := Swapping ms (ce_total_ms s)), ce_read := (ce_read s)(t := others t s)\<rparr>"

definition do_swap :: "'f float64 \<Rightarrow> nat \<Rightarrow> int \<Rightarrow> 64 word \<Rightarrow> cells \<Rightarrow> cells" where
  "do_swap fl t ms old s =
     (case add_turn fl (fl_int fl ms) old (ce_total_ms s) of
        (cell, True) \<Rightarrow> s\<lparr>ce_total_ms := cell, ce_at := (ce_at s)(t := Counting), ce_added := ce_added s @ [(t, ms)]\<rparr>
      | (cell, False) \<Rightarrow> s\<lparr>ce_total_ms := cell, ce_at := (ce_at s)(t := Reading ms),
          ce_turns := (ce_turns s)(t := Suc (ce_turns s t))\<rparr>)"

definition do_count :: "nat \<Rightarrow> cells \<Rightarrow> cells" where
  "do_count t s = s\<lparr>ce_count := Add_int 1 (ce_count s), ce_at := (ce_at s)(t := Idle)\<rparr>"

text \<open>The goroutines are numbered from 0; \<open>n\<close> of them run.\<close>

inductive report_step :: "'f float64 \<Rightarrow> nat \<Rightarrow> cells \<Rightarrow> cells \<Rightarrow> bool" for fl n where
  call: "t < n \<Longrightarrow> ce_at s t = Idle \<Longrightarrow> 0 \<le> ms \<Longrightarrow> report_step fl n s (do_call t ms s)"
| read: "t < n \<Longrightarrow> ce_at s t = Reading ms \<Longrightarrow> report_step fl n s (do_read t ms s)"
| swap: "t < n \<Longrightarrow> ce_at s t = Swapping ms old \<Longrightarrow> report_step fl n s (do_swap fl t ms old s)"
| count: "t < n \<Longrightarrow> ce_at s t = Counting \<Longrightarrow> report_step fl n s (do_count t s)"

text \<open>\<open>GetRequestStats\<close> on the two counters; the first component of its answer is the number of all requests.\<close>

definition average_ms :: "'f float64 \<Rightarrow> cells \<Rightarrow> 'f" where
  "average_ms fl s = (let count = Load_int (ce_count s) in
     if count = 0 then fl_int fl 0 else fl_div fl (Load_float fl (ce_total_ms s)) (fl_int fl count))"

section \<open>What float64 promises\<close>

text \<open>
  The bits of a number give the number back, zeroed memory is 0, and sums of whole numbers up to
  \<open>2 ^ 53\<close> are exact.
\<close>

locale float64_laws =
  fixes fl :: "'f float64"
  assumes bits_back: "fl_frombits fl (fl_bits fl x) = x"
    and zero_bits: "fl_frombits fl 0 = fl_int fl 0"
    and exact_add: "0 \<le> a \<Longrightarrow> 0 \<le> b \<Longrightarrow> a + b \<le> 2 ^ 53 \<Longrightarrow>
      fl_add fl (fl_int fl a) (fl_int fl b) = fl_int fl (a + b)"

text \<open>The whole numbers of float64 with their IEEE 754 bits; what is no whole number is rounded down.\<close>

definition encode64 :: "int \<Rightarrow> 64 word" where
  "encode64 a = (if a \<le> 0 then 0 else let e = nat (bitlen a) - 1 in
     word_of_int ((1023 + int e) * 2 ^ 52 + (a - 2 ^ e) * 2 ^ (52 - e)))"

definition decode64 :: "64 word \<Rightarrow> int" where
  "decode64 w = (if w = 0 then 0 else
     let e = nat (uint w div 2 ^ 52 - 1023); m = 2 ^ 52 + uint w mod 2 ^ 52
     in if e \<le> 52 then m div 2 ^ (52 - e) else m * 2 ^ (e - 52))"

definition ieee_whole :: "64 word float64" where
  "ieee_whole = \<lparr>fl_int = encode64, fl_add = (\<lambda>x y. encode64 (decode64 x + decode64 y)),
     fl_div = (\<lambda>x y. encode64 (decode64 x div decode64 y)), fl_bits = id, fl_frombits = id\<rparr>"

lemma uint_of_int64: "0 \<le> b \<Longrightarrow> b < 2 ^ 64 \<Longrightarrow> uint (word_of_int b :: 64 word) = b"
  by (simp add: uint_word_of_int_eq take_bit_int_eq_self)

lemma digits_at: "0 \<le> m \<Longrightarrow> m < K \<Longrightarrow> (k * K + m) div K = k \<and> (k * K + m) mod K = m" for k m K :: int
  by simp

lemma decode_encode_power:
  assumes "e \<le> 53" "2 ^ e \<le> a" "a < 2 ^ Suc e" "a \<le> 2 ^ 53"
  shows "decode64 (word_of_int ((1023 + int e) * 2 ^ 52 + (a - 2 ^ e) * 2 ^ (52 - e))) = a"
proof -
  define m where "m = (a - 2 ^ e) * 2 ^ (52 - e)"
  have m: "0 \<le> m" "m < 2 ^ 52"
  proof -
    show "0 \<le> m" using assms(2) by (simp add: m_def)
    show "m < 2 ^ 52"
    proof (cases "e \<le> 52")
      case True
      have "(a - 2 ^ e) * 2 ^ (52 - e) < 2 ^ e * 2 ^ (52 - e)"
        using assms(3) by (intro mult_strict_right_mono) auto
      also have "\<dots> = (2::int) ^ 52"
        using True by (simp flip: power_add)
      finally show ?thesis by (simp add: m_def)
    next
      case False
      with assms(1) have "e = 53" by simp
      with assms(2,4) show ?thesis by (simp add: m_def)
    qed
  qed
  let ?b = "(1023 + int e) * 2 ^ 52 + m"
  have range: "0 \<le> ?b" "?b < 2 ^ 64" "?b \<noteq> 0"
    using m assms(1) by auto
  have u: "uint (word_of_int ?b :: 64 word) = ?b"
    by (rule uint_of_int64 [OF range(1,2)])
  have parts: "?b div 2 ^ 52 = 1023 + int e" "?b mod 2 ^ 52 = m"
    using digits_at [OF m, of "1023 + int e"] by blast+
  have "(word_of_int ?b :: 64 word) \<noteq> 0"
    using u range(3) by (metis unsigned_0)
  then have d: "decode64 (word_of_int ?b) = (if e \<le> 52 then (2 ^ 52 + m) div 2 ^ (52 - e) else (2 ^ 52 + m) * 2 ^ (e - 52))"
    unfolding decode64_def u parts Let_def by simp
  show ?thesis
  proof (cases "e \<le> 52")
    case True
    have "2 ^ 52 + m = a * 2 ^ (52 - e)"
    proof -
      have "(2::int) ^ 52 = 2 ^ e * 2 ^ (52 - e)"
        using True by (simp flip: power_add)
      then show ?thesis by (simp add: m_def algebra_simps)
    qed
    then have "(2 ^ 52 + m) div 2 ^ (52 - e) = a" by simp
    with True show ?thesis
      unfolding m_def [symmetric] d by (simp only: if_True)
  next
    case False
    with assms(1) have "e = 53" by simp
    with assms(2,4) d show ?thesis by (simp add: m_def)
  qed
qed

lemma decode_encode: "0 \<le> a \<Longrightarrow> a \<le> 2 ^ 53 \<Longrightarrow> decode64 (encode64 a) = a"
proof (cases "a = 0")
  case False
  assume a: "0 \<le> a" "a \<le> 2 ^ 53"
  with False have pos: "0 < a" by simp
  let ?e = "nat (bitlen a) - 1"
  have b: "2 ^ ?e \<le> a" "a < 2 ^ nat (bitlen a)" "0 < bitlen a"
    using bitlen_bounds [OF pos] pos by (cases "0 < bitlen a"; simp add: nat_diff_distrib)+
  then have e: "nat (bitlen a) = Suc ?e" by simp
  have up: "a < 2 ^ Suc ?e"
    unfolding e [symmetric] by (rule b(2))
  have "?e \<le> 53"
  proof (rule ccontr)
    assume "\<not> ?e \<le> 53"
    then have "(2::int) ^ 54 \<le> 2 ^ ?e" by (intro power_increasing) auto
    with b(1) a(2) show False by simp
  qed
  then have "decode64 (word_of_int ((1023 + int ?e) * 2 ^ 52 + (a - 2 ^ ?e) * 2 ^ (52 - ?e))) = a"
    by (rule decode_encode_power [OF _ b(1) up a(2)])
  moreover have "encode64 a = word_of_int ((1023 + int ?e) * 2 ^ 52 + (a - 2 ^ ?e) * 2 ^ (52 - ?e))"
    unfolding encode64_def Let_def by (rule if_not_P) (use pos in simp)
  ultimately show ?thesis by simp
qed (simp add: encode64_def decode64_def)

interpretation ieee: float64_laws ieee_whole
  by unfold_locales (simp_all add: ieee_whole_def decode_encode, simp_all add: encode64_def)

section \<open>No latency is lost\<close>

text \<open>A latency that was reported and not added yet.\<close>

fun unfinished :: "reporter \<Rightarrow> int list" where
  "unfinished (Reading ms) = [ms]"
| "unfinished (Swapping ms _) = [ms]"
| "unfinished _ = []"

definition added_by :: "nat \<Rightarrow> cells \<Rightarrow> int list" where
  "added_by t s = map snd (filter (\<lambda>e. fst e = t) (ce_added s))"

definition counting :: "nat \<Rightarrow> (nat \<Rightarrow> reporter) \<Rightarrow> int" where
  "counting n f = (\<Sum>t<n. if f t = Counting then 1 else 0)"

text \<open>
  The total is the float64 sum of what was added, every goroutine has added what it reported except for a
  call that is still in its loop, and the count lacks only the calls that are about to count themselves.
\<close>

definition cells_ok :: "'f float64 \<Rightarrow> nat \<Rightarrow> cells \<Rightarrow> bool" where
  "cells_ok fl n s \<longleftrightarrow>
     Load_float fl (ce_total_ms s) = foldl (\<lambda>x e. fl_add fl x (fl_int fl (snd e))) (Load_float fl 0) (ce_added s) \<and>
     (\<forall>t. ce_called s t = added_by t s @ unfinished (ce_at s t)) \<and> (\<forall>e \<in> set (ce_added s). 0 \<le> snd e) \<and>
     (\<forall>t. \<forall>ms \<in> set (unfinished (ce_at s t)). 0 \<le> ms) \<and>
     ce_count s + counting n (ce_at s) = int (length (ce_added s))"

text \<open>A swap that fails was overtaken: each failure has an addition of another goroutine of its own.\<close>

definition turns_ok :: "cells \<Rightarrow> bool" where
  "turns_ok s \<longleftrightarrow> (\<forall>t. ce_turns s t \<le> others t s \<and>
     (\<forall>ms old. ce_at s t = Swapping ms old \<longrightarrow> ce_turns s t \<le> ce_read s t \<and> ce_read s t \<le> others t s \<and>
        (ce_read s t = others t s \<longrightarrow> old = ce_total_ms s)))"

lemma unfinished_nonneg: "cells_ok fl n s \<Longrightarrow> ms \<in> set (unfinished (ce_at s t)) \<Longrightarrow> 0 \<le> ms"
  by (simp add: cells_ok_def)

lemma counting_upd:
  assumes "t < n"
  shows "counting n (f(t := a)) = counting n f - (if f t = Counting then 1 else 0) + (if a = Counting then 1 else 0)"
proof -
  have "t \<in> {..<n}" using assms by simp
  then show ?thesis
    unfolding counting_def by (simp add: sum.remove [of _ t])
qed

context float64_laws
begin

lemma swap_cases:
  obtains (won) "ce_total_ms s = old" "do_swap fl t ms old s = s\<lparr>
      ce_total_ms := fl_bits fl (fl_add fl (fl_frombits fl old) (fl_int fl ms)), ce_at := (ce_at s)(t := Counting),
      ce_added := ce_added s @ [(t, ms)]\<rparr>"
  | (lost) "ce_total_ms s \<noteq> old" "do_swap fl t ms old s = s\<lparr>ce_at := (ce_at s)(t := Reading ms),
      ce_turns := (ce_turns s)(t := Suc (ce_turns s t))\<rparr>"
  by (cases "ce_total_ms s = old") (simp_all add: do_swap_def add_turn_def CompareAndSwapUint64_def)

lemma report_keeps:
  assumes "report_step fl n s s'" "cells_ok fl n s"
  shows "cells_ok fl n s'"
  using assms(1)
proof cases
  case (call t ms)
  with assms(2) show ?thesis
    by (auto simp: cells_ok_def do_call_def added_by_def counting_upd)
next
  case (read t ms)
  then have "0 \<le> ms"
    using unfinished_nonneg [OF assms(2), of ms t] by simp
  with read assms(2) show ?thesis
    by (auto simp: cells_ok_def do_read_def added_by_def counting_upd)
next
  case (count t)
  with assms(2) show ?thesis
    by (auto simp: cells_ok_def do_count_def added_by_def counting_upd Add_int_def)
next
  case (swap t ms old)
  then have "0 \<le> ms"
    using unfinished_nonneg [OF assms(2), of ms t] by simp
  note swap = swap this
  show ?thesis
  proof (rule swap_cases [of s old t ms])
    assume "ce_total_ms s = old" "do_swap fl t ms old s = s\<lparr>
      ce_total_ms := fl_bits fl (fl_add fl (fl_frombits fl old) (fl_int fl ms)), ce_at := (ce_at s)(t := Counting),
      ce_added := ce_added s @ [(t, ms)]\<rparr>"
    with assms(2) swap show ?thesis
      by (auto simp: cells_ok_def added_by_def counting_upd Load_float_def bits_back)
  next
    assume "do_swap fl t ms old s = s\<lparr>ce_at := (ce_at s)(t := Reading ms),
      ce_turns := (ce_turns s)(t := Suc (ce_turns s t))\<rparr>"
    with assms(2) swap show ?thesis
      by (auto simp: cells_ok_def added_by_def counting_upd)
  qed
qed

lemma report_turns:
  assumes "report_step fl n s s'" "turns_ok s"
  shows "turns_ok s'"
  using assms(1)
proof cases
  case (swap t ms old)
  have at: "ce_turns s u \<le> others u s" "ce_at s u = Swapping ms' old' \<Longrightarrow> ce_turns s u \<le> ce_read s u"
    "ce_at s u = Swapping ms' old' \<Longrightarrow> ce_read s u \<le> others u s"
    "ce_at s u = Swapping ms' old' \<Longrightarrow> ce_read s u = others u s \<Longrightarrow> old' = ce_total_ms s" for u ms' old'
    using assms(2) by (auto simp: turns_ok_def)
  show ?thesis
  proof (rule swap_cases [of s old t ms])
    assume won: "ce_total_ms s = old" "do_swap fl t ms old s = s\<lparr>
      ce_total_ms := fl_bits fl (fl_add fl (fl_frombits fl old) (fl_int fl ms)), ce_at := (ce_at s)(t := Counting),
      ce_added := ce_added s @ [(t, ms)]\<rparr>"
    have o: "others u s' = others u s + (if u = t then 0 else 1)" for u
      using swap(1) won(2) by (simp add: others_def)
    have "ce_turns s' u \<le> others u s'" for u
      using at(1) [of u] swap(1) won(2) o by simp
    moreover have "ce_turns s' u \<le> ce_read s' u \<and> ce_read s' u \<le> others u s' \<and>
        (ce_read s' u = others u s' \<longrightarrow> old' = ce_total_ms s')" if "ce_at s' u = Swapping ms' old'" for u ms' old'
      using at(2,3) [of u ms' old'] that swap(1) won(2) o [of u] by (auto split: if_splits)
    ultimately show ?thesis by (simp add: turns_ok_def)
  next
    assume lost: "ce_total_ms s \<noteq> old" "do_swap fl t ms old s = s\<lparr>ce_at := (ce_at s)(t := Reading ms),
      ce_turns := (ce_turns s)(t := Suc (ce_turns s t))\<rparr>"
    have "ce_read s t < others t s"
      using at(3,4) [OF swap(3)] lost(1) by (auto simp: order_less_le)
    then have "Suc (ce_turns s t) \<le> others t s"
      using at(2) [OF swap(3)] by simp
    with at swap(1) lost(2) show ?thesis
      by (simp add: turns_ok_def others_def)
  qed
qed (use assms(2) in \<open>auto simp: turns_ok_def others_def do_call_def do_read_def do_count_def\<close>)

lemma fresh_ok: "cells_ok fl n fresh_cells" "turns_ok fresh_cells"
  by (simp_all add: cells_ok_def turns_ok_def fresh_cells_def added_by_def others_def counting_def)

lemma reports_ok:
  assumes "(report_step fl n)\<^sup>*\<^sup>* fresh_cells s"
  shows "cells_ok fl n s" "turns_ok s"
  using assms by (induction, simp_all add: fresh_ok report_keeps report_turns)

lemma exact_sum:
  assumes "\<forall>e \<in> set xs. 0 \<le> snd e" "sum_list (map snd xs) \<le> 2 ^ 53"
  shows "foldl (\<lambda>x e. fl_add fl x (fl_int fl (snd e))) (Load_float fl 0) xs = fl_int fl (sum_list (map snd xs))"
  using assms
proof (induction xs rule: rev_induct)
  case Nil
  show ?case by (simp add: Load_float_def zero_bits)
next
  case (snoc e xs)
  have "0 \<le> sum_list (map snd xs)"
    using snoc.prems(1) by (intro sum_list_nonneg) auto
  with snoc show ?case
    by (simp add: exact_add)
qed

end

section \<open>Properties\<close>

text \<open>
  C38. No latency is lost or counted twice: whatever the interleaving of the reads, swaps and counts of any
  number of requests, when no report is under way the number of reports is the number of calls, every
  goroutine has added exactly what it reported, and the average that the dashboard shows is the sum of all
  latencies over their number, as long as the sum stays below \<open>2 ^ 53\<close>.
\<close>

theorem latencies_counted:
  assumes "float64_laws fl" "(report_step fl n)\<^sup>*\<^sup>* fresh_cells s" "ce_at s = (\<lambda>_. Idle)"
    "sum_list (map snd (ce_added s)) \<le> 2 ^ 53"
  shows "ce_count s = int (length (ce_added s)) \<and> (\<forall>t. ce_called s t = added_by t s) \<and>
    Load_float fl (ce_total_ms s) = fl_int fl (sum_list (map snd (ce_added s))) \<and>
    average_ms fl s = (if ce_added s = [] then fl_int fl 0
      else fl_div fl (fl_int fl (sum_list (map snd (ce_added s)))) (fl_int fl (int (length (ce_added s)))))"
proof -
  note ok = float64_laws.reports_ok(1) [OF assms(1,2)]
  have count: "ce_count s = int (length (ce_added s))" and called: "\<forall>t. ce_called s t = added_by t s"
    using ok assms(3) by (simp_all add: cells_ok_def counting_def)
  have sum: "Load_float fl (ce_total_ms s) = fl_int fl (sum_list (map snd (ce_added s)))"
    using ok float64_laws.exact_sum [OF assms(1) _ assms(4)] by (simp add: cells_ok_def)
  with count called show ?thesis
    by (simp add: average_ms_def Load_int_def Let_def)
qed

text \<open>
  The loop of \<open>Add\<close> is lock-free: in every interleaving a goroutine's swap has failed at most as often as the
  other goroutines have added something, so a loop only goes round while somebody else gets through.
\<close>

theorem retries_bounded:
  assumes "float64_laws fl" "(report_step fl n)\<^sup>*\<^sup>* fresh_cells s"
  shows "ce_turns s t \<le> length (filter (\<lambda>e. fst e \<noteq> t) (ce_added s))"
  using float64_laws.reports_ok(2) [OF assms] by (simp add: turns_ok_def others_def)

section \<open>A run\<close>

text \<open>Two requests read the same total; the first swap of one of them fails.\<close>

definition overtaken :: cells where
  "overtaken = do_swap ieee_whole 0 10 0 (do_swap ieee_whole 1 20 0 (do_read 1 20 (do_read 0 10 (do_call 1 20 (do_call 0 10 fresh_cells)))))"

definition both_counted :: cells where
  "both_counted = do_count 0 (do_count 1 (do_swap ieee_whole 0 10 (encode64 20) (do_read 0 10 overtaken)))"

lemma encoded: "encode64 20 \<noteq> 0" "decode64 0 = 0" "decode64 (encode64 20) = 20" "decode64 (encode64 10) = 10"
proof -
  show d: "decode64 (encode64 20) = 20" "decode64 (encode64 10) = 10"
    by (simp_all add: decode_encode)
  show z: "decode64 0 = 0"
    by (simp add: decode64_def)
  show "encode64 20 \<noteq> 0"
    using d(1) z by (metis zero_neq_numeral)
qed

lemma overtaken_sel:
  "ce_at overtaken = (\<lambda>_. Idle)(0 := Reading 10, 1 := Counting)" "ce_total_ms overtaken = encode64 20"
  "ce_added overtaken = [(1, 20)]" "ce_turns overtaken 0 = 1"
  by (simp_all add: overtaken_def do_swap_def do_read_def do_call_def fresh_cells_def add_turn_def CompareAndSwapUint64_def
      ieee_whole_def encoded fun_eq_iff)

lemma run_overtaken: "(report_step ieee_whole 2)\<^sup>*\<^sup>* fresh_cells overtaken"
proof -
  let ?step = "report_step ieee_whole 2"
  let ?s2 = "do_call 1 20 (do_call 0 10 fresh_cells)"
  let ?s4 = "do_read 1 20 (do_read 0 10 ?s2)"
  let ?s5 = "do_swap ieee_whole 1 20 0 ?s4"
  note def = do_call_def do_read_def do_swap_def fresh_cells_def add_turn_def CompareAndSwapUint64_def
  have "?step fresh_cells (do_call 0 10 fresh_cells)" "?step (do_call 0 10 fresh_cells) ?s2"
    by (rule report_step.call; simp add: def)+
  moreover have "?step ?s2 (do_read 0 10 ?s2)" "?step (do_read 0 10 ?s2) ?s4"
    by (rule report_step.read; simp add: def)+
  moreover have "?step ?s4 ?s5" "?step ?s5 overtaken"
    unfolding overtaken_def by (rule report_step.swap; simp add: def)+
  ultimately show ?thesis
    by (meson rtranclp.rtrancl_into_rtrancl rtranclp.rtrancl_refl)
qed

lemma run_both: "(report_step ieee_whole 2)\<^sup>*\<^sup>* fresh_cells both_counted"
proof -
  let ?step = "report_step ieee_whole 2"
  let ?r = "do_read 0 10 overtaken"
  let ?w = "do_swap ieee_whole 0 10 (encode64 20) ?r"
  note sel = overtaken_sel do_read_def do_swap_def do_count_def add_turn_def CompareAndSwapUint64_def
  have "?step overtaken ?r"
    by (rule report_step.read; simp add: sel)
  moreover have "?step ?r ?w"
    by (rule report_step.swap; simp add: sel)
  moreover have "?step ?w (do_count 1 ?w)" "?step (do_count 1 ?w) both_counted"
    unfolding both_counted_def by (rule report_step.count; simp add: sel)+
  ultimately show ?thesis
    using run_overtaken by (meson rtranclp.rtrancl_into_rtrancl)
qed

lemma both_sel:
  "ce_at both_counted = (\<lambda>_. Idle)" "ce_added both_counted = [(1, 20), (0, 10)]"
  by (simp_all add: both_counted_def overtaken_sel do_read_def do_swap_def do_count_def add_turn_def CompareAndSwapUint64_def fun_eq_iff)

theorem latencies_counted_witness:
  "ce_count both_counted = 2 \<and> decode64 (ce_total_ms both_counted) = 30 \<and> decode64 (average_ms ieee_whole both_counted) = 15"
proof -
  have fl: "fl_int ieee_whole = encode64" "fl_frombits ieee_whole = id"
    "fl_div ieee_whole x y = encode64 (decode64 x div decode64 y)" for x y
    by (simp_all add: ieee_whole_def)
  show ?thesis
    using latencies_counted [OF ieee.float64_laws_axioms run_both both_sel(1)]
    by (simp add: both_sel fl Load_float_def decode_encode)
qed

theorem retries_bounded_witness: "ce_turns overtaken 0 = 1 \<and> ce_turns overtaken 0 \<le> length (ce_added overtaken)"
  using retries_bounded [OF ieee.float64_laws_axioms run_overtaken, of 0] by (simp add: overtaken_sel)

end
