(* ===== verification/Diagnostics.thy ===== *)
theory Diagnostics
  imports Load_Client Sentinel_Guard
begin

text \<open>
  The two diagnostic programs. \<^verbatim>\<open>stress_test/cmd/probe/main.go\<close> logs in twenty test users, lets each of them
  do the handshake of a sale and send one sale request, and prints the answers; it has its own copies of the
  functions of the load generator. \<^verbatim>\<open>cmd/sdiag/main.go\<close> loads a set of Sentinel rules and asks for three
  entries of each of two resources. What is printed is the result of the models; the goroutines of the probe
  run in the order in which they are started, and the Sentinel library is the parameter of \<open>Sentinel_Guard\<close>.
\<close>

section \<open>The probe\<close>

definition probe_Secret :: string where "probe_Secret = ''miaosha-sign-secret-2026''"

definition probe_genSign :: "(string \<Rightarrow> string \<Rightarrow> string) \<Rightarrow> int \<Rightarrow> string \<Rightarrow> string \<Rightarrow> string \<Rightarrow> string" where
  "probe_genSign hmac ts method path bd = hmac (fmt_d ts @ method @ path @ bd) probe_Secret"

definition probe_request ::
  "(string \<Rightarrow> string \<Rightarrow> string) \<Rightarrow> string \<Rightarrow> int \<Rightarrow> string \<Rightarrow> string \<Rightarrow> string \<Rightarrow> string \<Rightarrow> http_request" where
  "probe_request hmac ip ts method path bd token =
     (let signPath = (if CHR ''?'' \<in> set path then before_query path else path);
          headers = [''Content-Type'' \<mapsto> ''application/json'', ''X-Timestamp'' \<mapsto> fmt_d ts,
             ''X-Sign'' \<mapsto> probe_genSign hmac ts method signPath bd]
      in \<lparr>hr_method = method, hr_path = before_query path, hr_raw_path = [],
          hr_headers = (if token \<noteq> [] then headers(''Authorization'' \<mapsto> ''Bearer '' @ token) else headers),
          hr_body = Some bd, hr_content_length = int (length bd), hr_client_ip = ip\<rparr>)"

definition probe_doRequest ::
  "'s load_env \<Rightarrow> string \<Rightarrow> string \<Rightarrow> string \<Rightarrow> string \<Rightarrow> 's \<Rightarrow> 's \<times> (int \<times> json option) option" where
  "probe_doRequest le method path bd token s =
     le_send le (probe_request (le_hmac le) (le_ip le) (le_unix le s) method path bd token) (after_query path) s"

text \<open>The loop over the two operators; the first one that occurs decides.\<close>

fun solve_ops :: "char list \<Rightarrow> string \<Rightarrow> int" where
  "solve_ops [] expr = 0"
| "solve_ops (op # ops) expr =
     (if op \<in> set expr
      then let a = Atoi_value (TrimSpace (takeWhile (\<lambda>c. c \<noteq> op) expr));
               b = Atoi_value (TrimSpace (drop 1 (dropWhile (\<lambda>c. c \<noteq> op) expr)))
           in if op = CHR ''+'' then wrap64 (a + b) else wrap64 (a - b)
      else solve_ops ops expr)"

definition probe_solveExpr :: "string \<Rightarrow> int" where
  "probe_solveExpr expr = solve_ops [CHR ''+'', CHR ''-''] (TrimSuffix (TrimSpace expr) ''=?'')"

text \<open>Unlike the load generator the probe looks at the status.\<close>

definition probe_fetchPathCaptcha :: "'s load_env \<Rightarrow> string \<Rightarrow> int \<Rightarrow> 's \<Rightarrow> 's \<times> (string \<times> string \<times> int) result" where
  "probe_fetchPathCaptcha le token productID s =
     (case probe_doRequest le ''GET'' (''/api/v1/seckill/path?product_id='' @ fmt_d productID) [] token s of
        (s1, None) \<Rightarrow> (s1, Inl (Errf ''no path token''))
      | (s1, Some (status, ptBody)) \<Rightarrow>
          if status \<noteq> 200 then (s1, Inl (Errf ''path refused''))
          else (let pathToken = jstring ''path_token'' (jdata (body_json ptBody)) in
           if pathToken = [] then (s1, Inl (Errf ''path token not read''))
           else case probe_doRequest le ''GET'' (''/api/v1/seckill/captcha?product_id='' @ fmt_d productID) [] token s1 of
               (s2, None) \<Rightarrow> (s2, Inl (Errf ''no captcha''))
             | (s2, Some (status2, cpBody)) \<Rightarrow>
                 if status2 \<noteq> 200 then (s2, Inl (Errf ''captcha refused''))
                 else (let d = jdata (body_json cpBody); captchaID = jstring ''captcha_id'' d in
                  if captchaID = [] then (s2, Inl (Errf ''captcha not read''))
                  else (s2, Inr (pathToken, captchaID, probe_solveExpr (jstring ''expression'' d))))))"

text \<open>\<open>login\<close> drops every error: without an answer the token is empty.\<close>

definition probe_login :: "'s load_env \<Rightarrow> string \<Rightarrow> 's \<Rightarrow> 's \<times> string" where
  "probe_login le username s =
     (case probe_doRequest le ''POST'' ''/api/v1/user/login''
             (json_map [(''password'', ''test123''), (''username'', username)]) [] s of
        (s1, None) \<Rightarrow> (s1, [])
      | (s1, Some (_, b)) \<Rightarrow> (s1, jstring ''token'' (jdata (body_json b))))"

fun probe_logins :: "'s load_env \<Rightarrow> nat list \<Rightarrow> string list \<Rightarrow> 's \<Rightarrow> 's \<times> string list" where
  "probe_logins le [] tokens s = (s, tokens)"
| "probe_logins le (i # is) tokens s =
     (case probe_login le (''stress_user_'' @ fmt_nat i) s of
        (s1, t) \<Rightarrow> probe_logins le is (if t = [] then tokens else tokens @ [t]) s1)"

definition probe_body :: "string \<Rightarrow> string \<Rightarrow> int \<Rightarrow> string \<Rightarrow> string" where
  "probe_body pt cid ans key = json_object [(''captcha_code'', fmt_d ans), (''captcha_id'', json_string cid),
     (''idempotent_key'', json_string key), (''path_token'', json_string pt), (''product_id'', ''26''), (''quantity'', ''1'')]"

datatype probe_outcome = Handshake_Failed go_error | Network_Error | Answered int string

definition probe_one :: "'s load_env \<Rightarrow> ('s \<Rightarrow> int) \<Rightarrow> string \<Rightarrow> nat \<Rightarrow> 's \<Rightarrow> 's \<times> probe_outcome" where
  "probe_one le nanos tok idx s =
     (case probe_fetchPathCaptcha le tok 26 s of
        (s1, Inl err) \<Rightarrow> (s1, Handshake_Failed err)
      | (s1, Inr (pt, cid, ans)) \<Rightarrow>
          (let key = ''probe_'' @ fmt_nat idx @ ''_'' @ fmt_d (nanos s1) in
           case probe_doRequest le ''POST'' ''/api/v1/seckill'' (probe_body pt cid ans key) tok s1 of
             (s2, None) \<Rightarrow> (s2, Network_Error)
           | (s2, Some (_, rb)) \<Rightarrow> (s2, Answered (jint ''code'' (body_json rb)) (jstring ''message'' (body_json rb)))))"

fun probe_all :: "'s load_env \<Rightarrow> ('s \<Rightarrow> int) \<Rightarrow> (string \<times> nat) list \<Rightarrow> 's \<Rightarrow> 's \<times> probe_outcome list" where
  "probe_all le nanos [] s = (s, [])"
| "probe_all le nanos ((tok, idx) # ts) s =
     (case probe_one le nanos tok idx s of
        (s1, out) \<Rightarrow> (case probe_all le nanos ts s1 of (s2, outs) \<Rightarrow> (s2, out # outs)))"

definition probe_main :: "'s load_env \<Rightarrow> ('s \<Rightarrow> int) \<Rightarrow> 's \<Rightarrow> 's \<times> string list \<times> probe_outcome list" where
  "probe_main le nanos s =
     (case probe_logins le [0..<20] [] s of
        (s1, tokens) \<Rightarrow> (case probe_all le nanos (zip tokens [0..<length tokens]) s1 of
           (s2, outs) \<Rightarrow> (s2, tokens, outs)))"

section \<open>The copies agree\<close>

lemma before_query_id: "CHR ''?'' \<notin> set path \<Longrightarrow> before_query path = path"
  by (induction path) (auto simp: before_query_def)

lemma probe_request_eq: "probe_request hmac ip ts method path bd token = load_request hmac ip ts method path bd token"
  by (cases "CHR ''?'' \<in> set path")
    (simp_all add: probe_request_def load_request_def probe_genSign_def genSign_def probe_Secret_def Secret_def
      before_query_id Let_def)

lemma probe_doRequest_eq:
  "probe_doRequest le method path bd token s = (case doRequest le method path bd token s of (s1, _, reply) \<Rightarrow> (s1, reply))"
  by (simp add: probe_doRequest_def doRequest_def probe_request_eq split: prod.split)

lemma probe_solveExpr_eq: "probe_solveExpr expr = solveExpr expr"
  by (simp add: probe_solveExpr_def solveExpr_def Let_def)

text \<open>
  The copies in the probe do what the originals do: they send the same signed request, solve every captcha
  alike, and where the probe gets its tickets the load generator gets the same ones.
\<close>

theorem probe_copies_agree:
  "probe_doRequest le method path bd token s = (case doRequest le method path bd token s of (s1, _, reply) \<Rightarrow> (s1, reply)) \<and>
   probe_solveExpr expr = solveExpr expr \<and>
   (probe_fetchPathCaptcha le token productID s = (s', Inr tickets) \<longrightarrow> fetchPathCaptcha le token productID s = (s', Inr tickets))"
  by (auto simp: probe_doRequest_eq probe_solveExpr_eq probe_fetchPathCaptcha_def fetchPathCaptcha_def Let_def
      split: prod.splits option.splits if_splits)

section \<open>The Sentinel check\<close>

definition diag_flow_rules :: "flow_rule list" where
  "diag_flow_rules = [\<lparr>fr_resource = ''seckill_api'', fr_threshold = 5000, fr_interval_ms = 1000\<rparr>]"

definition diag_hot_rules :: "hot_rule list" where
  "diag_hot_rules = [\<lparr>ht_resource = ''seckill_product'', ht_param_index = 0, ht_threshold = 100, ht_duration_sec = 1\<rparr>]"

definition diag_breaker_rules :: "breaker_rule list" where
  "diag_breaker_rules =
     [\<lparr>br_resource = ''seckill_api'', br_strategy = SlowRequestRatio, br_retry_timeout_ms = 3000, br_min_request_amount = 10,
       br_stat_interval_ms = 1000, br_max_allowed_rt_ms = 1000, br_threshold = 1 / 2\<rparr>,
      \<lparr>br_resource = ''seckill_api'', br_strategy = ErrorRatio, br_retry_timeout_ms = 3000, br_min_request_amount = 10,
       br_stat_interval_ms = 1000, br_max_allowed_rt_ms = 0, br_threshold = 1 / 2\<rparr>]"

text \<open>\<open>n\<close> entries one after another; \<open>True\<close> for one that passes, which is left at once.\<close>

fun diag_entries :: "('l, 'e) sentinel_lib \<Rightarrow> string \<Rightarrow> int list \<Rightarrow> nat \<Rightarrow> 'l \<Rightarrow> 'l \<times> bool list" where
  "diag_entries lib resource args 0 l = (l, [])"
| "diag_entries lib resource args (Suc n) l =
     (case sl_entry lib resource args l of
        (l1, None) \<Rightarrow> (case diag_entries lib resource args n l1 of (l2, outs) \<Rightarrow> (l2, False # outs))
      | (l1, Some e) \<Rightarrow> (case diag_entries lib resource args n (sl_exit lib e l1) of (l2, outs) \<Rightarrow> (l2, True # outs)))"

text \<open>The results of loading the rules are dropped. \<open>None\<close>: the initialisation failed.\<close>

definition diag_main :: "('l, 'e) sentinel_lib \<Rightarrow> 'l \<Rightarrow> 'l \<times> (bool list \<times> bool list) option" where
  "diag_main lib l =
     (case sl_init lib ''./logs/sdiag'' ''diag'' l of
        (l1, Inl err) \<Rightarrow> (l1, None)
      | (l1, Inr _) \<Rightarrow>
          (let l2 = fst (sl_load_flow lib diag_flow_rules l1);
               l3 = fst (sl_load_hot lib diag_hot_rules l2);
               l4 = fst (sl_load_breaker lib diag_breaker_rules l3)
           in case diag_entries lib ''seckill_api'' [] 3 l4 of
                (l5, apis) \<Rightarrow> (case diag_entries lib ''seckill_product'' [20] 3 l5 of (l6, hots) \<Rightarrow> (l6, Some (apis, hots)))))"

text \<open>The rules are not those of the server, whatever its configuration: the limit of the whole API is missing.\<close>

lemma diag_rules_differ: "diag_flow_rules \<noteq> flow_rules cfg"
  by (simp add: diag_flow_rules_def flow_rules_def)

end
