(* ===== verification/Load_Report.thy ===== *)
theory Load_Report
  imports Load_Limit
begin

text \<open>
  What the two load tests print of their results (\<^verbatim>\<open>stress_test/cmd/main.go\<close> and
  \<^verbatim>\<open>stress_test/cmd/limit/main.go\<close>): the values of the tables, without the boxes around them. A float64 that is not
  finite is \<open>None\<close>; a loop over the map of errors takes its keys as an argument.
\<close>

section \<open>One result\<close>

record printed_result =
  pr_label :: string
  pr_counts :: "nat \<times> nat \<times> int \<times> int"   \<comment> \<open>concurrency, requests, successes, failures\<close>
  pr_success_rate :: rat
  pr_speed :: "rat option \<times> rat \<times> rat"   \<comment> \<open>rate, P50, P99\<close>
  pr_latency :: "rat \<times> rat \<times> rat"   \<comment> \<open>mean, maximum, minimum\<close>
  pr_errors :: "(string \<times> int) list"

text \<open>Without latencies the times are shown as 0.\<close>

definition printResult :: "string list \<Rightarrow> test_result \<Rightarrow> string \<Rightarrow> printed_result" where
  "printResult ks r label = \<lparr>pr_label = label,
     pr_counts = (tr_concurrency r, tr_total r, tr_success r, tr_fail r), pr_success_rate = tr_success_rate r,
     pr_speed = (if tr_latencies r \<noteq> [] then (tr_qps r, tr_p50 r, tr_p99 r) else (tr_qps r, 0, 0)),
     pr_latency = (if tr_latencies r \<noteq> []
       then (tr_avg r, tr_latencies r ! (length (tr_latencies r) - 1), tr_latencies r ! 0) else (0, 0, 0)),
     pr_errors = List.map_filter (\<lambda>k. map_option (\<lambda>n. (k, n)) (tr_errors r k)) ks\<rparr>"

text \<open>A row per result; a missing label is an index out of range: \<open>None\<close>.\<close>

fun printComparison ::
  "test_result list \<Rightarrow> string list \<Rightarrow> (string \<times> rat option \<times> rat \<times> rat \<times> rat \<times> rat \<times> int) list option" where
  "printComparison [] labels = Some []"
| "printComparison (r # rs) [] = None"
| "printComparison (r # rs) (l # labels) =
     map_option (\<lambda>rows. (l, tr_qps r, tr_p50 r, tr_p99 r, tr_avg r, tr_success_rate r, tr_success r) # rows)
       (printComparison rs labels)"

text \<open>The gains between two results, in per cent; \<open>float_div\<close> is finite unless the divisor is 0.\<close>

definition float_div :: "rat \<Rightarrow> rat \<Rightarrow> rat option" where
  "float_div a b = (if b = 0 then None else Some (a / b))"

text \<open>A column: rate, P99, success rate, failures.\<close>

definition report_column :: "test_result \<Rightarrow> rat option \<times> rat \<times> rat \<times> int" where
  "report_column r = (tr_qps r, tr_p99 r, tr_success_rate r, tr_fail r)"

record improvement =
  im_concurrency :: int
  im_before :: "rat option \<times> rat \<times> rat \<times> int"
  im_after :: "rat option \<times> rat \<times> rat \<times> int"
  im_qps :: "rat option"
  im_p99 :: "rat option"
  im_success :: rat
  im_fail :: rat

definition printImprovement :: "test_result option \<Rightarrow> test_result option \<Rightarrow> int \<Rightarrow> improvement option" where
  "printImprovement baseline optimized concurrency = (case (baseline, optimized) of
      (Some b, Some n) \<Rightarrow> Some \<lparr>im_concurrency = concurrency,
        im_before = report_column b, im_after = report_column n,
        im_qps = (case (tr_qps b, tr_qps n) of (Some x, Some y) \<Rightarrow> map_option (\<lambda>q. q * 100) (float_div (y - x) x) | _ \<Rightarrow> None),
        im_p99 = map_option (\<lambda>q. q * 100) (float_div (tr_p99 b - tr_p99 n) (tr_p99 b)),
        im_success = tr_success_rate n - tr_success_rate b,
        im_fail = of_int (tr_fail b - tr_fail n) / of_int (max (tr_fail b) 1) * 100\<rparr>
    | _ \<Rightarrow> None)"

section \<open>A row of the limit test\<close>

text \<open>The label of a level is its number of concurrent requests.\<close>

datatype level_mark = Normal | Some_Failures | Collapsed

definition level_status :: "limit_result \<Rightarrow> level_mark" where
  "level_status r = (let status = Normal;
     status = (if li_success_rate r < 100 then Some_Failures else status)
     in if li_success_rate r < 95 then Collapsed else status)"

definition limit_printResult :: "limit_result \<Rightarrow> nat \<times> rat option \<times> rat \<times> rat \<times> rat \<times> int \<times> rat \<times> level_mark" where
  "limit_printResult r = (li_concurrency r, li_qps r, li_p50 r, li_p99 r, li_success_rate r, li_goroutines r, li_mem_mb r,
     level_status r)"

text \<open>A row marked as a collapse is a knee of the test.\<close>

lemma collapsed_knee: "level_status r = Collapsed \<Longrightarrow> knee r"
  by (auto simp: level_status_def knee_def Let_def split: if_splits)

end
