(* ===== verification/Spec2Isabelle.thy ===== *)
theory Spec2Isabelle
  imports Redis_Tokens Dist_Lock Snowflake Singleflight Monitor_Stats Order_Stock Config Mq
    Mq_Consumer Order_Consumer Seckill_Service Seckill_Sale Seckill_Recovery Reconciler
    Product_Service Activity_Service Auth User_Service Middleware Access_Control Detector Ws_Hub
    Sentinel_Guard Notify Http_Api Api_Access Seckill_Api Seckill_Gate Sale_Flow Monitor_Api
    Load_Checks Load_Setup Logger Metrics Tracing Service_Registry Behavior_Consumer Start_Up Replicas
    Stock_In_Step Accepted_Orders Reconcile_Queue Route_Gaps Atomic_Stats Diagnostics Load_Report
begin

text \<open>
  A verification library of the flash-sale ("miaosha") backend: a Go server that sells limited stock to
  many buyers at once, with Redis, MySQL, RabbitMQ, Kafka, etcd and Sentinel around it.

  \<^bold>\<open>The program and its parts.\<close> A buyer fetches a path token and a captcha and posts a sale request. The
  request passes the router and its middlewares (\<^verbatim>\<open>cmd/main.go\<close>, \<^verbatim>\<open>middleware/\<close>) and the sale handler
  (\<^verbatim>\<open>controller/seckill_controller.go\<close>), which asks flow control (\<^verbatim>\<open>sentinel/\<close>), the anomaly detector
  (\<^verbatim>\<open>detector/\<close>) and the coalescing group (\<^verbatim>\<open>singleflight/\<close>) before \<open>ExecuteSeckill\<close>
  (\<^verbatim>\<open>service/seckill_service.go\<close>) deducts stock and purchase counter with one Lua script
  (\<^verbatim>\<open>redis/redis.go\<close>) and publishes an order message (\<^verbatim>\<open>mq/rabbitmq.go\<close>). A consumer
  (\<^verbatim>\<open>mq/consumer.go\<close>) hands the message to the order service (\<^verbatim>\<open>service/order_service.go\<close>), which writes
  the order row and the MySQL stock (\<^verbatim>\<open>dao/dao.go\<close>); a second message times unpaid orders out. A task
  (\<^verbatim>\<open>cron/reconciler.go\<close>) copies the MySQL stock over the Redis stock. Results are pushed over WebSocket
  (\<^verbatim>\<open>websocket/hub.go\<close>).

  \<^bold>\<open>How it is modelled.\<close> Each Go function is one HOL function of the same name on explicit state; a name
  that clashes carries a prefix (\<open>svc_\<close> services, \<open>ctl_\<close> handlers). Structs are records, Go errors the
  values of \<open>go_error\<close>, a function that returns \<open>(T, error)\<close> returns \<open>go_error + T\<close>, a panic is \<open>GoPanic\<close> (in a
  handler, no response). Servers and packages that are not in the repository are arguments: the Redis
  server, the statements of MySQL, the AMQP, Kafka, etcd, HTTP and sentinel clients, bcrypt, JWT, HMAC,
  JSON of foreign types, float64 operations, and clocks. What the code relies on is a locale, and each
  locale has an interpretation: \<open>redis_server\<close> and \<open>reliable_redis\<close>, \<open>db_server\<close> and \<open>reliable_db\<close>,
  \<open>amqp_broker\<close>, \<open>amqp_queue\<close>, \<open>auth_lib\<close>, \<open>sentinel_rules\<close>, \<open>gin_router\<close>, \<open>etcd_server\<close> on reference servers,
  \<open>float64_laws\<close> on IEEE values, \<open>order_handler\<close> on the order service and \<open>id_generator\<close> on both generators.
  The weaker laws let every call fail with its effect done or not done; the properties that need answers say so with the
  stronger ones. The laws of MySQL describe one node; \<open>Replicas\<close> shows what a replica behind it changes.
  Names of users are compared by a collation, a parameter of the database (the reference one ignores the
  case). The arithmetic of the Lua scripts is exact, as doubles are up to \<open>2 ^ 53\<close>.

  \<^bold>\<open>Theories and sources.\<close>
  \<^item> \<open>Prelude\<close>, \<open>GoFmt\<close>, \<open>Model\<close>, \<open>Config\<close>: errors (\<^verbatim>\<open>utils/errors.go\<close>), printing and reading of numbers, the
    structs of \<^verbatim>\<open>model/model.go\<close>, the configuration of \<^verbatim>\<open>config/config.go\<close> with its loading and hot reload.
  \<^item> \<open>Redis_Server\<close>, \<open>Redis_Client\<close>, \<open>Redis_Shop\<close>, \<open>Redis_Tokens\<close>, \<open>Dist_Lock\<close>: the key space, the operations and
    Lua scripts of \<^verbatim>\<open>redis/redis.go\<close> and \<^verbatim>\<open>redis/lock.go\<close>, the abstract shop they refine, tokens, locks.
  \<^item> \<open>Db_Server\<close>, \<open>Dao\<close>, \<open>Reliable_Db\<close>, \<open>Replicas\<close>: tables and statements, \<^verbatim>\<open>dao/dao.go\<close>, a database that
    answers, and the split between master and replica.
  \<^item> \<open>Mq\<close>, \<open>Mq_Consumer\<close>, \<open>Notify\<close>, \<open>Behavior_Consumer\<close>, \<open>Service_Registry\<close>: \<^verbatim>\<open>mq/\<close>, \<^verbatim>\<open>kafka/\<close>,
    \<^verbatim>\<open>utils/dingtalk.go\<close>, \<^verbatim>\<open>etcd/registry.go\<close>.
  \<^item> \<open>Snowflake\<close>, \<open>Singleflight\<close>, \<open>Detector\<close>, \<open>Ws_Hub\<close>, \<open>Sentinel_Guard\<close>, \<open>Monitor_Stats\<close>, \<open>Atomic_Stats\<close>: the
    engines inside the process (\<^verbatim>\<open>utils/utils.go\<close>, \<^verbatim>\<open>singleflight/\<close>, \<^verbatim>\<open>detector/\<close>, \<^verbatim>\<open>websocket/\<close>, \<^verbatim>\<open>sentinel/\<close>, \<^verbatim>\<open>monitor/\<close>).
  \<^item> \<open>World\<close>: the state the services share. \<open>Order_Service\<close>, \<open>Order_Lifecycle\<close>, \<open>Order_Stock\<close>, \<open>Order_Consumer\<close>,
    \<open>Seckill_Service\<close>, \<open>Seckill_Sale\<close>, \<open>Seckill_Recovery\<close>, \<open>Order_Effects\<close> and \<open>Stock_In_Step\<close> (the sale, the
    queue and the order service together, over one Redis and one MySQL stock), \<open>Accepted_Orders\<close> (from an
    accepted request to its row), \<open>Reconciler\<close>, \<open>Reconcile_Queue\<close> (the task while orders are queued),
    \<open>Product_Service\<close>, \<open>Activity_Service\<close>, \<open>Auth\<close>, \<open>User_Service\<close>, \<open>Monitor_Service\<close>: \<^verbatim>\<open>service/\<close> and \<^verbatim>\<open>cron/\<close> with what they promise.
  \<^item> \<open>Middleware\<close>, \<open>Access_Control\<close>, \<open>Http_Api\<close>, \<open>Api_Access\<close>, \<open>Seckill_Api\<close>, \<open>Seckill_Gate\<close>, \<open>Sale_Flow\<close>,
    \<open>Monitor_Api\<close>, \<open>Routes\<close>, \<open>Route_Access\<close>, \<open>Route_Gaps\<close> (what routed requests may do and should not): \<^verbatim>\<open>middleware/\<close>, \<^verbatim>\<open>controller/\<close>, the table of the routes.
  \<^item> \<open>Start_Up\<close>: start and shutdown in \<^verbatim>\<open>cmd/main.go\<close>. \<open>Load_Client\<close>, \<open>Load_Server\<close>, \<open>Load_Checks\<close>: the load
    generator of \<^verbatim>\<open>stress_test/cmd/main.go\<close> run against the modelled server; \<open>Load_Limit\<close>, \<open>Load_Setup\<close>: the limit
    test and its set-up; \<open>Load_Report\<close>: the printed figures; \<open>Diagnostics\<close>: \<^verbatim>\<open>cmd/sdiag/\<close> and
    \<^verbatim>\<open>stress_test/cmd/probe/\<close>. \<open>Logger\<close>, \<open>Metrics\<close>, \<open>Tracing\<close>: \<^verbatim>\<open>log/logger.go\<close>,
    \<^verbatim>\<open>monitor/prometheus.go\<close>, \<^verbatim>\<open>middleware/tracing.go\<close>.

  \<^bold>\<open>What is shown.\<close>
  \<^item> Sale: no overselling at the level of the scripts and of the service, whatever answers get lost; the
    scripts refine the abstract shop; a refused request leaves no trace while Redis answers; an accepted
    one leaves a message or the row of its order, and becomes the order it asked for, of the user of the
    token, when its message is consumed, if its number was not taken.
  \<^item> Both stocks: over any interleaving of sales, consumed messages, cancellations, timeouts, payments and
    refunds, with a queue that fails at will, the stock of MySQL is the stock of Redis plus the units that
    wait in the queue, and a queued order is always created (no order runs into an empty row).
  \<^item> Orders: the life of an order under any sequence of calls and faults, conservation of the MySQL stock,
    acknowledged messages have their row, messages are not lost in retries.
  \<^item> Access: who reaches a handler, when a token, a signature, a login, a captcha or a path token is
    accepted, the bound of the login limit, the handshake of a client with the server.
  \<^item> Engines: mutual exclusion and termination of the lock, one execution per coalesced key, distinct order
    numbers, the ban rule of the detector and its window as a list of the last requests, the clients of
    the hub, the registration under a lease as long as renewals are answered in time, a usable configuration, counters that lose no
    report of concurrent requests.
  \<^item> Flaws: where the code does not do what it means to, the theorem states what it does (double
    restocking, orders lost by instances with one port, decisions on rows of a replica, activities that
    do not reach the cache, roles without a check, consumers that stop, a push that panics).

  \<^bold>\<open>Bounds and fuel.\<close> Integers are \<^verbatim>\<open>64 word\<close> or \<^verbatim>\<open>32 word\<close> where wrap-around matters (identifiers, signature
  times, retry counts, hashes, counters of the load generator), and \<open>int\<close> elsewhere. Fuel appears where a loop
  waits for the outside: \<open>wait_clock\<close> and \<open>NextID\<close> (readings of the clock; \<open>None\<close> when they run out, and
  \<open>NextID_correct\<close> says when they do not), \<open>lock_loop\<close> (attempts; \<open>lock_terminates\<close> shows that the deadline
  ends the loop), \<open>consume\<close> and \<open>keepAlive_ticks\<close> (any number of deliveries or ticks). \<open>for_upto\<close> is the
  Go loop with its bound and terminates by a measure. Interleavings are explicit: step relations for the
  coalescing group, the hub, the order calls, the whole sale, the counters and the behaviour consumer, and functions cut at the read
  where two calls interleave.

  \<^bold>\<open>Not modelled.\<close> \<^verbatim>\<open>docs/docs.go\<close> is generated. Constructors that only fill a struct, the text of log lines, the sizes of
  connection pools and HTTP timeouts have no counterpart. Calls of the site are steps that do
  not overlap, except where a step relation or a parameter says otherwise (the averages of the detector are
  read through \<open>later_reads\<close>, which covers updates of other calls). The front end, SQL scripts and deployment files
  are not Go code of the server.
\<close>

end
